(* ===== verification/Prelude.thy ===== *)
theory Prelude
  imports Complex_Main "HOL-Library.AList" "HOL-Library.List_Lexorder" "HOL-Library.Char_ord"
begin

text \<open>
  Shared vocabulary of the development: the Python values that travel through
  \<^verbatim>\<open>dict[str, Any]\<close> payloads, the exceptions of the runtime as one datatype, the
  exception monad, dictionaries with Python's insertion order, and the generic
  lemmas the components use.

  Numbers: Python integers are \<open>int\<close>. Python floats and \<^verbatim>\<open>Decimal\<close>s are exact
  rationals (\<open>rat\<close>): rounding, infinities and NaN are not modelled.
  Strings: \<open>string\<close> holds the UTF-8 bytes, whose lexicographic order is the order
  of the code points.
\<close>

section \<open>Python values\<close>

text \<open>
  The values a \<^verbatim>\<open>dict[str, Any]\<close> can hold. A dictionary is an association list in
  insertion order, keyed by strings as the annotations of the source say.
  \<open>PObj\<close> stands for an object of any other class, known only by its type's name.
\<close>

datatype pyval =
    PNone
  | PBool bool
  | PInt int
  | PFloat rat
  | PStr string
  | PList "pyval list"
  | PTuple "pyval list"
  | PDict "(string \<times> pyval) list"
  | PObj string

type_synonym pydict = "(string \<times> pyval) list"

section \<open>Exceptions and results\<close>

text \<open>
  The exceptions raised by the modelled code. \<open>BudgetExceededError\<close> carries the fields
  of the class in \<^verbatim>\<open>runtime/budget.py\<close>: code, dimension, limit, used, run id; \<open>ApiError\<close> those
  of the class in \<^verbatim>\<open>runtime/control_plane.py\<close>, as a record.
\<close>

record api_error =
  ae_code :: string
  ae_message :: string
  ae_http_status :: int
  ae_run_id :: "string option"
  ae_status :: "string option"
  ae_operation :: "string option"
  ae_details :: pydict

definition plain_api_error :: "string \<Rightarrow> string \<Rightarrow> int \<Rightarrow> api_error" where
  "plain_api_error code m http =
     \<lparr>ae_code = code, ae_message = m, ae_http_status = http, ae_run_id = None, ae_status = None,
      ae_operation = None, ae_details = []\<rparr>"

datatype exn =
    ValueError string
  | TypeError string
  | KeyError string
  | IndexError string
  | TimeoutErr string
  | RuntimeErr string
  | CheckpointConflictError string
  | BudgetLedgerConflictError string
  | OwnershipLostError string
  | AttributeError string
  | ActiveRunRegistrationError string
  | WorkerConfigurationError string
  | AdmissionRejectedError int int
  | BudgetExceededError string string rat rat string
  | ApiError api_error

type_synonym 'a res = "exn + 'a"

abbreviation Raise :: "exn \<Rightarrow> 'a res" where "Raise e \<equiv> Inl e"
abbreviation Ok :: "'a \<Rightarrow> 'a res" where "Ok x \<equiv> Inr x"

definition bindR :: "'a res \<Rightarrow> ('a \<Rightarrow> 'b res) \<Rightarrow> 'b res" where
  "bindR m f = (case m of Inl e \<Rightarrow> Inl e | Inr x \<Rightarrow> f x)"

fun mapR :: "('a \<Rightarrow> 'b res) \<Rightarrow> 'a list \<Rightarrow> 'b list res" where
  "mapR f [] = Ok []"
| "mapR f (x # xs) = bindR (f x) (\<lambda>y. bindR (mapR f xs) (\<lambda>ys. Ok (y # ys)))"

definition guardR :: "bool \<Rightarrow> exn \<Rightarrow> unit res" where
  "guardR b e = (if b then Ok () else Raise e)"

named_theorems res_simps \<open>computation rules of the exception monad\<close>

lemma bindR_Inl [simp, res_simps]: "bindR (Inl e) f = Inl e"
  by (simp add: bindR_def)

lemma bindR_Inr [simp, res_simps]: "bindR (Inr x) f = f x"
  by (simp add: bindR_def)

lemma bindR_Ok_iff [res_simps]: "bindR m f = Inr y \<longleftrightarrow> (\<exists>x. m = Inr x \<and> f x = Inr y)"
  by (cases m) (auto simp: bindR_def)

lemma bindR_Raise_iff: "bindR m f = Inl e \<longleftrightarrow> m = Inl e \<or> (\<exists>x. m = Inr x \<and> f x = Inl e)"
  by (cases m) (auto simp: bindR_def)

lemma guardR_Ok_iff [simp, res_simps]: "guardR b e = Inr u \<longleftrightarrow> b"
  by (simp add: guardR_def)

lemma guardR_Raise_iff [simp, res_simps]: "guardR b e = Inl e' \<longleftrightarrow> \<not> b \<and> e' = e"
  by (auto simp: guardR_def)

lemma guardR_simps [simp]: "guardR True e = Inr ()" "guardR False e = Inl e"
  by (simp_all add: guardR_def)

lemma mapR_map_Ok:
  assumes "\<And>x. x \<in> set xs \<Longrightarrow> f (g x) = Ok x"
  shows "mapR f (map g xs) = Ok xs"
  using assms by (induction xs) auto

lemma mapR_Ok_length: "mapR f xs = Ok ys \<Longrightarrow> length ys = length xs"
  by (induction xs arbitrary: ys) (auto simp: bindR_Ok_iff)

section \<open>The interpreter\<close>

text \<open>
  What the modelled code takes from the interpreter and the clock: the text
  \<^verbatim>\<open>str()\<close> gives a float, a container or an object; the number a text denotes to
  \<^verbatim>\<open>int()\<close> and \<^verbatim>\<open>float()\<close>; the Unicode table behind \<^verbatim>\<open>casefold()\<close>; the current time as ISO text and as seconds.
\<close>

record pyenv =
  repr_text :: "pyval \<Rightarrow> string"
  int_text :: "string \<Rightarrow> int option"
  float_text :: "string \<Rightarrow> rat option"
  casefold :: "string \<Rightarrow> string"
  now_text :: string
  now_time :: rat

text \<open>An interpreter environment for concrete runs.\<close>

definition demo_env :: pyenv where
  "demo_env = \<lparr>repr_text = (\<lambda>_. ''?''), int_text = (\<lambda>_. None), float_text = (\<lambda>_. None),
     casefold = (\<lambda>s. s), now_text = ''2026-01-01T00:00:00+00:00'', now_time = 1\<rparr>"

definition digit_char :: "nat \<Rightarrow> char" where
  "digit_char n = char_of (48 + n)"

fun nat_text :: "nat \<Rightarrow> string" where
  "nat_text n = (if n < 10 then [digit_char n] else nat_text (n div 10) @ [digit_char (n mod 10)])"

definition int_repr :: "int \<Rightarrow> string" where
  "int_repr i = (if i < 0 then ''-'' @ nat_text (nat (- i)) else nat_text (nat i))"

declare nat_text.simps [simp del]

fun py_str :: "pyenv \<Rightarrow> pyval \<Rightarrow> string" where
  "py_str E (PStr s) = s"
| "py_str E (PInt i) = int_repr i"
| "py_str E (PBool b) = (if b then ''True'' else ''False'')"
| "py_str E PNone = ''None''"
| "py_str E v = repr_text E v"

fun truthy :: "pyval \<Rightarrow> bool" where
  "truthy PNone = False"
| "truthy (PBool b) = b"
| "truthy (PInt i) = (i \<noteq> 0)"
| "truthy (PFloat q) = (q \<noteq> 0)"
| "truthy (PStr s) = (s \<noteq> [])"
| "truthy (PList xs) = (xs \<noteq> [])"
| "truthy (PTuple xs) = (xs \<noteq> [])"
| "truthy (PDict d) = (d \<noteq> [])"
| "truthy (PObj _) = True"

definition py_or :: "pyval \<Rightarrow> pyval \<Rightarrow> pyval" where
  "py_or x y = (if truthy x then x else y)"

fun py_trunc :: "rat \<Rightarrow> int" where
  "py_trunc q = (if q < 0 then - \<lfloor>- q\<rfloor> else \<lfloor>q\<rfloor>)"

fun py_int :: "pyenv \<Rightarrow> pyval \<Rightarrow> int res" where
  "py_int E (PInt i) = Ok i"
| "py_int E (PBool b) = Ok (if b then 1 else 0)"
| "py_int E (PFloat q) = Ok (py_trunc q)"
| "py_int E (PStr s) = (case int_text E s of Some i \<Rightarrow> Ok i
      | None \<Rightarrow> Raise (ValueError ''invalid literal for int()''))"
| "py_int E v = Raise (TypeError ''int() argument must be a string or a number'')"

fun py_float :: "pyenv \<Rightarrow> pyval \<Rightarrow> rat res" where
  "py_float E (PFloat q) = Ok q"
| "py_float E (PInt i) = Ok (of_int i)"
| "py_float E (PBool b) = Ok (if b then 1 else 0)"
| "py_float E (PStr s) = (case float_text E s of Some q \<Rightarrow> Ok q
      | None \<Rightarrow> Raise (ValueError ''could not convert string to float''))"
| "py_float E v = Raise (TypeError ''float() argument must be a string or a real number'')"

definition opt_val :: "('a \<Rightarrow> pyval) \<Rightarrow> 'a option \<Rightarrow> pyval" where
  "opt_val f x = (case x of None \<Rightarrow> PNone | Some a \<Rightarrow> f a)"

lemma opt_val_simps [simp]: "opt_val f None = PNone" "opt_val f (Some a) = f a"
  by (simp_all add: opt_val_def)

lemma py_or_truthy [simp]: "truthy x \<Longrightarrow> py_or x y = x"
  by (simp add: py_or_def)

lemma py_or_falsy [simp]: "\<not> truthy x \<Longrightarrow> py_or x y = y"
  by (simp add: py_or_def)

text \<open>\<open>enum_parse value members s\<close> is the constructor call \<^verbatim>\<open>Enum(s)\<close> of a StrEnum.\<close>

definition enum_parse :: "('e \<Rightarrow> string) \<Rightarrow> 'e list \<Rightarrow> string \<Rightarrow> 'e res" where
  "enum_parse value members s =
     (case find (\<lambda>e. value e = s) members of
        Some e \<Rightarrow> Ok e | None \<Rightarrow> Raise (ValueError (s @ '' is not a valid member'')))"

named_theorems enum_roundtrip \<open>parsing the value of a member gives the member\<close>

text \<open>
  The decoding helpers every module of the runtime repeats: a list of texts from a list
  value, an optional text, and \<^verbatim>\<open>str(data.get(k) or default)\<close>.
\<close>

fun py_strings :: "pyenv \<Rightarrow> pyval \<Rightarrow> string list" where
  "py_strings E (PList xs) = map (py_str E) xs"
| "py_strings E v = []"

definition py_optional_str :: "pyenv \<Rightarrow> pyval \<Rightarrow> string option" where
  "py_optional_str E v = (if v = PNone then None else Some (py_str E v))"

definition str_or :: "pyenv \<Rightarrow> pyval \<Rightarrow> string \<Rightarrow> string" where
  "str_or E v dflt = py_str E (py_or v (PStr dflt))"

lemma py_str_PStr_comp [simp]: "py_str E \<circ> PStr = id"
  by (simp add: fun_eq_iff)

lemma py_strings_map [simp]: "py_strings E (PList (map PStr xs)) = xs"
  by simp

lemma py_optional_str_opt_val [simp]: "py_optional_str E (opt_val PStr x) = x"
  by (cases x) (simp_all add: py_optional_str_def)

lemma str_or_PStr [simp]: "str_or E (PStr s) dflt = (if s = [] then dflt else s)"
  by (simp add: str_or_def py_or_def)

lemma str_or_PNone [simp]: "str_or E PNone dflt = dflt"
  by (simp add: str_or_def)

lemma py_int_or [simp]: "py_int E (py_or (PInt i) (PInt 0)) = Ok i"
  by (simp add: py_or_def)

lemma py_float_or [simp]: "py_float E (py_or (PFloat q) (PFloat 0)) = Ok q"
  by (simp add: py_or_def)

section \<open>Dictionaries\<close>

text \<open>
  \<open>d.get(k)\<close>, \<open>d[k]\<close>, \<open>d[k] = v\<close> (a new key goes to the end, an old one keeps its
  place), \<open>d.pop(k, None)\<close> and \<open>d.setdefault(k, v)\<close>.
\<close>

definition dict_get :: "pydict \<Rightarrow> string \<Rightarrow> pyval" where
  "dict_get d k = (case map_of d k of None \<Rightarrow> PNone | Some v \<Rightarrow> v)"

definition dict_get_default :: "pydict \<Rightarrow> string \<Rightarrow> pyval \<Rightarrow> pyval" where
  "dict_get_default d k v0 = (case map_of d k of None \<Rightarrow> v0 | Some v \<Rightarrow> v)"

definition dict_item :: "pydict \<Rightarrow> string \<Rightarrow> pyval res" where
  "dict_item d k = (case map_of d k of None \<Rightarrow> Raise (KeyError k) | Some v \<Rightarrow> Ok v)"

abbreviation dict_set :: "'k \<Rightarrow> 'v \<Rightarrow> ('k \<times> 'v) list \<Rightarrow> ('k \<times> 'v) list" where
  "dict_set \<equiv> AList.update"

definition dict_setdefault :: "'k \<Rightarrow> 'v \<Rightarrow> ('k \<times> 'v) list \<Rightarrow> ('k \<times> 'v) list" where
  "dict_setdefault k v d = (case map_of d k of None \<Rightarrow> AList.update k v d | Some _ \<Rightarrow> d)"

abbreviation dict_keys :: "('k \<times> 'v) list \<Rightarrow> 'k list" where
  "dict_keys d \<equiv> map fst d"

abbreviation dict_values :: "('k \<times> 'v) list \<Rightarrow> 'v list" where
  "dict_values d \<equiv> map snd d"

lemma dict_get_Cons [simp]: "dict_get ((k', v) # d) k = (if k' = k then v else dict_get d k)"
  by (simp add: dict_get_def)

lemma dict_get_Nil [simp]: "dict_get [] k = PNone"
  by (simp add: dict_get_def)

lemma dict_item_Cons [simp]: "dict_item ((k', v) # d) k = (if k' = k then Ok v else dict_item d k)"
  by (simp add: dict_item_def)

lemma dict_item_Nil [simp]: "dict_item [] k = Raise (KeyError k)"
  by (simp add: dict_item_def)

lemma map_of_dict_set [simp]: "map_of (dict_set k v d) = (map_of d)(k \<mapsto> v)"
  by (rule update_conv')

lemma map_of_dict_setdefault:
  "map_of (dict_setdefault k v d) k' =
     (if k' = k \<and> map_of d k = None then Some v else map_of d k')"
  by (auto simp: dict_setdefault_def split: option.splits)

lemma distinct_dict_set [intro, simp]:
  "distinct (dict_keys d) \<Longrightarrow> distinct (dict_keys (dict_set k v d))"
  by (rule distinct_update)

lemma set_dict_keys_set [simp]: "fst ` set (dict_set k v d) = insert k (fst ` set d)"
  by (simp add: dom_update)

lemma dict_keys_set_present:
  "k \<in> set (dict_keys d) \<Longrightarrow> dict_keys (dict_set k v d) = dict_keys d"
  by (induction d) auto

lemma dict_keys_set_fresh:
  "k \<notin> set (dict_keys d) \<Longrightarrow> dict_set k v d = d @ [(k, v)]"
  by (induction d) auto

lemma key_iff_map_of: "k \<in> fst ` set d \<longleftrightarrow> map_of d k \<noteq> None"
  by (simp add: map_of_eq_None_iff)

lemma map_of_eq_keys: "dict_keys d = dict_keys d' \<Longrightarrow> map_of d k = None \<longleftrightarrow> map_of d' k = None"
  by (metis key_iff_map_of list.set_map)

lemma map_of_Some_iff_set:
  "distinct (dict_keys d) \<Longrightarrow> map_of d k = Some v \<longleftrightarrow> (k, v) \<in> set d"
  by (rule map_of_eq_Some_iff)

text \<open>
  The dictionaries among the items of a list value, as in
  \<^verbatim>\<open>[item for item in raw if isinstance(item, dict)] if isinstance(raw, list) else []\<close>.
\<close>

fun py_dicts :: "pyval \<Rightarrow> pydict list" where
  "py_dicts (PList xs) = concat (map (\<lambda>x. case x of PDict d \<Rightarrow> [d] | _ \<Rightarrow> []) xs)"
| "py_dicts v = []"

lemma py_dicts_map [simp]: "py_dicts (PList (map (\<lambda>x. PDict (f x)) xs)) = map f xs"
  by (induction xs) auto

declare py_dicts.simps(1) [simp del]

section \<open>Texts\<close>

text \<open>The operator \<^verbatim>\<open>pat in s\<close> on texts.\<close>

fun contains :: "string \<Rightarrow> string \<Rightarrow> bool" where
  "contains pat [] = (pat = [])"
| "contains pat (c # s) = (take (length pat) (c # s) = pat \<or> contains pat s)"

lemma contains_iff: "contains pat s \<longleftrightarrow> (\<exists>us vs. s = us @ pat @ vs)"
proof (induction s)
  case Nil
  then show ?case by simp
next
  case (Cons c s)
  have "take (length pat) (c # s) = pat \<longleftrightarrow> (\<exists>vs. c # s = pat @ vs)"
    by (metis append_eq_conv_conj append_take_drop_id)
  moreover have "(\<exists>us vs. c # s = us @ pat @ vs) \<longleftrightarrow>
      (\<exists>vs. c # s = pat @ vs) \<or> (\<exists>us vs. s = us @ pat @ vs)"
    by (metis append_Cons append_Nil list.exhaust list.inject)
  ultimately show ?case using Cons.IH by simp
qed

section \<open>Lists\<close>

text \<open>
  \<open>py_last n xs\<close> is the slice \<^verbatim>\<open>xs[-n:]\<close> for a positive \<open>n\<close>;
  Python's \<^verbatim>\<open>sorted(xs, key=f)\<close> is the stable \<open>sort_key\<close>.
\<close>

definition py_last :: "nat \<Rightarrow> 'a list \<Rightarrow> 'a list" where
  "py_last n xs = drop (length xs - n) xs"

lemma length_py_last [simp]: "length (py_last n xs) = min n (length xs)"
  by (simp add: py_last_def)

lemma py_last_all [simp]: "length xs \<le> n \<Longrightarrow> py_last n xs = xs"
  by (simp add: py_last_def)

lemma set_py_last_subset: "set (py_last n xs) \<subseteq> set xs"
  unfolding py_last_def by (rule set_drop_subset)

text \<open>Positions in a list, used for "occurs strictly before".\<close>

definition before :: "'a list \<Rightarrow> 'a \<Rightarrow> 'a \<Rightarrow> bool" where
  "before xs a b \<longleftrightarrow> (\<exists>us vs ws. xs = us @ a # vs @ b # ws)"

lemma before_append1: "before xs a b \<Longrightarrow> before (xs @ ys) a b"
  by (fastforce simp: before_def)

lemma before_snoc: "a \<in> set xs \<Longrightarrow> before (xs @ [b]) a b"
proof -
  assume "a \<in> set xs"
  then obtain us vs where "xs = us @ a # vs" by (auto simp: in_set_conv_decomp)
  then have "xs @ [b] = us @ a # vs @ b # []" by simp
  then show ?thesis unfolding before_def by blast
qed

lemma before_in_set: "before xs a b \<Longrightarrow> a \<in> set xs \<and> b \<in> set xs"
  by (auto simp: before_def)

lemma before_distinct_asym: "distinct xs \<Longrightarrow> before xs a b \<Longrightarrow> a \<noteq> b"
  by (auto simp: before_def)

end
