(* ===== verification/PlanModels.thy ===== *)
theory PlanModels
  imports Prelude
begin

text \<open>
  The task graph of Plan-and-Execute, \<^verbatim>\<open>plan/models.py\<close>: tasks with dependencies and
  dependents, the depth-first topological order, the parallel batches, and the durable
  dictionary form with its migration from schema version 1.

  A \<^verbatim>\<open>Task\<close> object is reachable through one key of \<^verbatim>\<open>ExecutionPlan.tasks\<close> only, so
  updating the dictionary entry models mutating the object.
\<close>

section \<open>Enumerations\<close>

definition PLAN_SCHEMA_VERSION :: int where
  "PLAN_SCHEMA_VERSION = 2"

datatype task_type = PLANNING | FILE_READ | FILE_WRITE | COMMAND | ANALYSIS | VERIFICATION

datatype task_status = PENDING | RUNNING | COMPLETED | FAILED | SKIPPED | CANCELLED

datatype plan_status = PlanCREATED | PlanRUNNING | PlanCOMPLETED | PlanFAILED | PlanCANCELLED

fun task_type_value :: "task_type \<Rightarrow> string" where
  "task_type_value PLANNING = ''PLANNING''"
| "task_type_value FILE_READ = ''FILE_READ''"
| "task_type_value FILE_WRITE = ''FILE_WRITE''"
| "task_type_value COMMAND = ''COMMAND''"
| "task_type_value ANALYSIS = ''ANALYSIS''"
| "task_type_value VERIFICATION = ''VERIFICATION''"

fun task_status_value :: "task_status \<Rightarrow> string" where
  "task_status_value PENDING = ''PENDING''"
| "task_status_value RUNNING = ''RUNNING''"
| "task_status_value COMPLETED = ''COMPLETED''"
| "task_status_value FAILED = ''FAILED''"
| "task_status_value SKIPPED = ''SKIPPED''"
| "task_status_value CANCELLED = ''CANCELLED''"

fun plan_status_value :: "plan_status \<Rightarrow> string" where
  "plan_status_value PlanCREATED = ''CREATED''"
| "plan_status_value PlanRUNNING = ''RUNNING''"
| "plan_status_value PlanCOMPLETED = ''COMPLETED''"
| "plan_status_value PlanFAILED = ''FAILED''"
| "plan_status_value PlanCANCELLED = ''CANCELLED''"

definition TaskType :: "string \<Rightarrow> task_type res" where
  "TaskType = enum_parse task_type_value
     [PLANNING, FILE_READ, FILE_WRITE, COMMAND, ANALYSIS, VERIFICATION]"

definition TaskStatus :: "string \<Rightarrow> task_status res" where
  "TaskStatus = enum_parse task_status_value
     [PENDING, RUNNING, COMPLETED, FAILED, SKIPPED, CANCELLED]"

definition PlanStatus :: "string \<Rightarrow> plan_status res" where
  "PlanStatus = enum_parse plan_status_value
     [PlanCREATED, PlanRUNNING, PlanCOMPLETED, PlanFAILED, PlanCANCELLED]"

lemma TaskType_value [simp, enum_roundtrip]: "TaskType (task_type_value t) = Ok t"
  by (cases t) (simp_all add: TaskType_def enum_parse_def)

lemma TaskStatus_value [simp, enum_roundtrip]: "TaskStatus (task_status_value t) = Ok t"
  by (cases t) (simp_all add: TaskStatus_def enum_parse_def)

lemma PlanStatus_value [simp, enum_roundtrip]: "PlanStatus (plan_status_value t) = Ok t"
  by (cases t) (simp_all add: PlanStatus_def enum_parse_def)

lemma enum_values_nonempty [simp]:
  "task_type_value t \<noteq> []" "task_status_value s \<noteq> []" "plan_status_value p \<noteq> []"
  by (cases t, simp_all) (cases s, simp_all, cases p, simp_all)

section \<open>Tasks\<close>

record task =
  t_id :: string
  t_description :: string
  t_type :: task_type
  t_dependencies :: "string list"
  t_dependents :: "string list"
  t_status :: task_status
  t_result :: string
  t_error :: string
  t_attempt :: int
  t_child_run_id :: "string option"
  t_reused_from :: "string option"
  t_execution_state :: string
  t_start_time :: rat
  t_end_time :: rat

definition new_task :: "string \<Rightarrow> string \<Rightarrow> string list \<Rightarrow> task" where
  "new_task i desc deps = \<lparr>t_id = i, t_description = desc, t_type = ANALYSIS,
     t_dependencies = deps, t_dependents = [], t_status = PENDING, t_result = [], t_error = [],
     t_attempt = 0, t_child_run_id = None, t_reused_from = None, t_execution_state = [],
     t_start_time = 0, t_end_time = 0\<rparr>"

definition add_dependency :: "string \<Rightarrow> task \<Rightarrow> task" where
  "add_dependency i t =
     (if i \<notin> set (t_dependencies t) then t\<lparr>t_dependencies := t_dependencies t @ [i]\<rparr> else t)"

definition add_dependent :: "string \<Rightarrow> task \<Rightarrow> task" where
  "add_dependent i t =
     (if i \<notin> set (t_dependents t) then t\<lparr>t_dependents := t_dependents t @ [i]\<rparr> else t)"

definition task_mark_started :: "rat \<Rightarrow> task \<Rightarrow> task" where
  "task_mark_started now t =
     t\<lparr>t_status := RUNNING, t_attempt := t_attempt t + 1, t_start_time := now\<rparr>"

definition task_mark_completed :: "rat \<Rightarrow> string \<Rightarrow> task \<Rightarrow> task" where
  "task_mark_completed now result t =
     t\<lparr>t_status := COMPLETED, t_result := result, t_end_time := now\<rparr>"

definition task_mark_failed :: "rat \<Rightarrow> string \<Rightarrow> task \<Rightarrow> task" where
  "task_mark_failed now err t =
     t\<lparr>t_status := FAILED, t_error := err, t_end_time := now\<rparr>"

definition task_mark_skipped :: "rat \<Rightarrow> task \<Rightarrow> task" where
  "task_mark_skipped now t = t\<lparr>t_status := SKIPPED, t_end_time := now\<rparr>"

definition task_mark_cancelled :: "rat \<Rightarrow> string \<Rightarrow> task \<Rightarrow> task" where
  "task_mark_cancelled now err t =
     t\<lparr>t_status := CANCELLED, t_error := err, t_end_time := now\<rparr>"

type_synonym tasks = "(string \<times> task) list"

definition is_executable :: "tasks \<Rightarrow> task \<Rightarrow> bool" where
  "is_executable ts t =
     (if t_status t \<noteq> PENDING then False
      else list_all (\<lambda>d. case map_of ts d of None \<Rightarrow> False | Some u \<Rightarrow> t_status u = COMPLETED)
             (t_dependencies t))"

definition task_to_dict :: "task \<Rightarrow> pydict" where
  "task_to_dict t = [
     (''id'', PStr (t_id t)),
     (''description'', PStr (t_description t)),
     (''type'', PStr (task_type_value (t_type t))),
     (''dependencies'', PList (map PStr (t_dependencies t))),
     (''dependents'', PList (map PStr (t_dependents t))),
     (''status'', PStr (task_status_value (t_status t))),
     (''result'', PStr (t_result t)),
     (''error'', PStr (t_error t)),
     (''attempt'', PInt (t_attempt t)),
     (''child_run_id'', opt_val PStr (t_child_run_id t)),
     (''reused_from'', opt_val PStr (t_reused_from t)),
     (''execution_state'', PStr (t_execution_state t)),
     (''start_time'', PFloat (t_start_time t)),
     (''end_time'', PFloat (t_end_time t))]"

definition task_from_dict :: "pyenv \<Rightarrow> pydict \<Rightarrow> task res" where
  "task_from_dict E d =
     bindR (dict_item d ''id'') (\<lambda>i.
     bindR (TaskType (str_or E (dict_get d ''type'') (task_type_value ANALYSIS))) (\<lambda>ty.
     bindR (TaskStatus (str_or E (dict_get d ''status'') (task_status_value PENDING))) (\<lambda>st.
     bindR (py_int E (py_or (dict_get d ''attempt'') (PInt 0))) (\<lambda>att.
     bindR (py_float E (py_or (dict_get d ''start_time'') (PFloat 0))) (\<lambda>stime.
     bindR (py_float E (py_or (dict_get d ''end_time'') (PFloat 0))) (\<lambda>etime.
     Ok \<lparr>t_id = py_str E i,
        t_description = str_or E (dict_get d ''description'') [],
        t_type = ty,
        t_dependencies = py_strings E (dict_get d ''dependencies''),
        t_dependents = py_strings E (dict_get d ''dependents''),
        t_status = st,
        t_result = str_or E (dict_get d ''result'') [],
        t_error = str_or E (dict_get d ''error'') [],
        t_attempt = att,
        t_child_run_id = py_optional_str E (dict_get d ''child_run_id''),
        t_reused_from = py_optional_str E (dict_get d ''reused_from''),
        t_execution_state = str_or E (dict_get d ''execution_state'') [],
        t_start_time = stime, t_end_time = etime\<rparr>))))))"

lemma task_roundtrip [simp]: "task_from_dict E (task_to_dict t) = Ok t"
  by (simp add: task_from_dict_def task_to_dict_def)

section \<open>Plans\<close>

record plan_version =
  pv_version :: int
  pv_plan_id :: string
  pv_status :: plan_status
  pv_summary :: string
  pv_reason :: string
  pv_tasks :: "task list"
  pv_created_at :: rat

record plan =
  p_id :: string
  p_goal :: string
  p_tasks :: tasks
  p_status :: plan_status
  p_schema_version :: int
  p_version :: int
  p_replan_count :: int
  p_history :: "plan_version list"
  p_summary :: string
  p_created_at :: rat
  p_start_time :: rat
  p_end_time :: rat
  p_execution_order :: "string list"

definition new_plan :: "rat \<Rightarrow> string \<Rightarrow> string \<Rightarrow> plan" where
  "new_plan now i goal = \<lparr>p_id = i, p_goal = goal, p_tasks = [], p_status = PlanCREATED,
     p_schema_version = PLAN_SCHEMA_VERSION, p_version = 1, p_replan_count = 0, p_history = [],
     p_summary = [], p_created_at = now, p_start_time = 0, p_end_time = 0,
     p_execution_order = []\<rparr>"

definition modify_task :: "string \<Rightarrow> (task \<Rightarrow> task) \<Rightarrow> tasks \<Rightarrow> tasks" where
  "modify_task k f ts = (case map_of ts k of None \<Rightarrow> ts | Some t \<Rightarrow> dict_set k (f t) ts)"

definition link_dependencies :: "task \<Rightarrow> tasks \<Rightarrow> tasks" where
  "link_dependencies t ts =
     foldl (\<lambda>ts d. modify_task d (add_dependent (t_id t)) ts) ts (t_dependencies t)"

definition link_dependents :: "task \<Rightarrow> tasks \<Rightarrow> tasks" where
  "link_dependents t ts =
     foldl (\<lambda>ts e. if t_id t \<in> set (t_dependencies e)
                    then modify_task (t_id t) (add_dependent (t_id e)) ts else ts)
       ts (dict_values ts)"

definition add_task :: "task \<Rightarrow> plan \<Rightarrow> plan" where
  "add_task t p =
     p\<lparr>p_tasks := link_dependents t (link_dependencies t (dict_set (t_id t) t (p_tasks p))),
       p_execution_order := []\<rparr>"

definition get_task :: "string \<Rightarrow> plan \<Rightarrow> task option" where
  "get_task i p = map_of (p_tasks p) i"

definition all_tasks :: "plan \<Rightarrow> task list" where
  "all_tasks p = dict_values (p_tasks p)"

definition root_tasks :: "plan \<Rightarrow> task list" where
  "root_tasks p = filter (\<lambda>t. t_dependencies t = []) (dict_values (p_tasks p))"

definition executable_tasks :: "plan \<Rightarrow> task list" where
  "executable_tasks p = filter (is_executable (p_tasks p)) (dict_values (p_tasks p))"

section \<open>The execution order\<close>

text \<open>
  The closure \<^verbatim>\<open>visit\<close> of \<^verbatim>\<open>compute_execution_order\<close> with the variables it shares with
  the loop. The first argument bounds the recursion depth; \<open>None\<close> would mean that the
  bound was reached, which never happens for the bound used (\<open>compute_order_total\<close>).
\<close>

record vstate =
  order :: "string list"
  visited :: "string set"
  visiting :: "string set"

function (sequential) visit :: "nat \<Rightarrow> tasks \<Rightarrow> task \<Rightarrow> vstate \<Rightarrow> (bool \<times> vstate) option"
  and visit_deps :: "nat \<Rightarrow> tasks \<Rightarrow> string list \<Rightarrow> vstate \<Rightarrow> (bool \<times> vstate) option" where
  "visit 0 ts t st = None"
| "visit (Suc n) ts t st =
     (if t_id t \<in> visiting st then Some (False, st)
      else if t_id t \<in> visited st then Some (True, st)
      else case visit_deps n ts (t_dependencies t) (st\<lparr>visiting := insert (t_id t) (visiting st)\<rparr>) of
             None \<Rightarrow> None
           | Some (False, st') \<Rightarrow> Some (False, st')
           | Some (True, st') \<Rightarrow>
               Some (True, st'\<lparr>visiting := visiting st' - {t_id t},
                               visited := insert (t_id t) (visited st'),
                               order := order st' @ [t_id t]\<rparr>))"
| "visit_deps n ts [] st = Some (True, st)"
| "visit_deps n ts (d # ds) st =
     (case map_of ts d of
        None \<Rightarrow> visit_deps n ts ds st
      | Some dep \<Rightarrow> (case visit n ts dep st of
            None \<Rightarrow> None
          | Some (False, st') \<Rightarrow> Some (False, st')
          | Some (True, st') \<Rightarrow> visit_deps n ts ds st'))"
  by pat_completeness auto
termination
  by (relation "measures [\<lambda>x. case x of Inl (n, _, _, _) \<Rightarrow> n | Inr (n, _, _, _) \<Rightarrow> n,
                          \<lambda>x. case x of Inl _ \<Rightarrow> 0 | Inr (_, _, ds, _) \<Rightarrow> Suc (length ds)]") auto

fun visit_all :: "nat \<Rightarrow> tasks \<Rightarrow> task list \<Rightarrow> vstate \<Rightarrow> (bool \<times> vstate) option" where
  "visit_all n ts [] st = Some (True, st)"
| "visit_all n ts (t # rest) st =
     (if t_id t \<in> visited st then visit_all n ts rest st
      else case visit n ts t st of
             None \<Rightarrow> None
           | Some (False, st') \<Rightarrow> Some (False, st')
           | Some (True, st') \<Rightarrow> visit_all n ts rest st')"

definition init_vstate :: vstate where
  "init_vstate = \<lparr>order = [], visited = {}, visiting = {}\<rparr>"

definition compute_execution_order :: "plan \<Rightarrow> (bool \<times> plan) option" where
  "compute_execution_order p =
     (case visit_all (Suc (length (p_tasks p))) (p_tasks p) (dict_values (p_tasks p)) init_vstate of
        None \<Rightarrow> None
      | Some (False, _) \<Rightarrow> Some (False, p)
      | Some (True, st) \<Rightarrow> Some (True, p\<lparr>p_execution_order := order st\<rparr>))"

definition execution_order :: "plan \<Rightarrow> string list \<times> plan" where
  "execution_order p =
     (if p_execution_order p = []
      then (case compute_execution_order p of
              None \<Rightarrow> ([], p) | Some (_, p') \<Rightarrow> (p_execution_order p', p'))
      else (p_execution_order p, p))"

section \<open>Parallel batches\<close>

text \<open>
  One round of the loop of \<^verbatim>\<open>execution_batches\<close> picks the remaining tasks whose
  dependencies are all completed. Indexing \<^verbatim>\<open>self.tasks[task_id]\<close> raises
  \<open>KeyError\<close> for an order entry that is no task.
\<close>

definition batch_ids :: "tasks \<Rightarrow> string list \<Rightarrow> string set \<Rightarrow> string set \<Rightarrow> string list" where
  "batch_ids ts ord remaining completed =
     filter (\<lambda>i. i \<in> remaining \<and>
        (case map_of ts i of None \<Rightarrow> False | Some t \<Rightarrow> list_all (\<lambda>d. d \<in> completed) (t_dependencies t)))
       ord"

text \<open>
  A round that picks a batch removes at least one task from \<open>remaining\<close>, so the number of
  remaining tasks bounds the number of rounds.
\<close>

fun batches_loop :: "nat \<Rightarrow> tasks \<Rightarrow> string list \<Rightarrow> string set \<Rightarrow> string set \<Rightarrow> string list list" where
  "batches_loop 0 ts ord remaining completed = []"
| "batches_loop (Suc n) ts ord remaining completed =
     (if remaining = {} then []
      else let b = batch_ids ts ord remaining completed
           in if b = [] then []
              else b # batches_loop n ts ord (remaining - set b) (completed \<union> set b))"

definition execution_batches :: "plan \<Rightarrow> string list list \<times> plan" where
  "execution_batches p =
     (let (ord, p') = execution_order p
      in (batches_loop (length (p_tasks p)) (p_tasks p) ord (set (dict_keys (p_tasks p))) {}, p'))"

section \<open>Progress and status\<close>

definition plan_progress :: "plan \<Rightarrow> rat" where
  "plan_progress p =
     (if p_tasks p = [] then 1
      else of_nat (length (filter (\<lambda>t. t_status t = COMPLETED) (dict_values (p_tasks p))))
           / of_nat (length (p_tasks p)))"

definition is_all_completed :: "plan \<Rightarrow> bool" where
  "is_all_completed p = list_all (\<lambda>t. t_status t = COMPLETED) (dict_values (p_tasks p))"

definition has_failed :: "plan \<Rightarrow> bool" where
  "has_failed p = list_ex (\<lambda>t. t_status t \<in> {FAILED, CANCELLED}) (dict_values (p_tasks p))"

definition plan_mark_started :: "rat \<Rightarrow> plan \<Rightarrow> plan" where
  "plan_mark_started now p = p\<lparr>p_status := PlanRUNNING, p_start_time := now\<rparr>"

definition plan_mark_completed :: "rat \<Rightarrow> plan \<Rightarrow> plan" where
  "plan_mark_completed now p = p\<lparr>p_status := PlanCOMPLETED, p_end_time := now\<rparr>"

definition plan_mark_failed :: "rat \<Rightarrow> plan \<Rightarrow> plan" where
  "plan_mark_failed now p = p\<lparr>p_status := PlanFAILED, p_end_time := now\<rparr>"

end
