(* ===== verification/PlanOrder.thy ===== *)
theory PlanOrder
  imports PlanModels
begin

text \<open>
  Correctness of the task graph operations: what \<^verbatim>\<open>add_task\<close> keeps, that the depth-first
  search returns a topological order exactly for the acyclic plans, and what the parallel
  batches promise to the scheduler.
\<close>

section \<open>Well-formed task tables\<close>

definition tasks_wf :: "tasks \<Rightarrow> bool" where
  "tasks_wf ts \<longleftrightarrow> distinct (dict_keys ts) \<and> (\<forall>k t. (k, t) \<in> set ts \<longrightarrow> t_id t = k)"

text \<open>\<open>dep_edges ts\<close>: task \<open>a\<close> of the table depends on task \<open>b\<close> of the table.\<close>

definition dep_edges :: "tasks \<Rightarrow> (string \<times> string) set" where
  "dep_edges ts = {(a, b). \<exists>t. map_of ts a = Some t \<and> b \<in> set (t_dependencies t) \<and> map_of ts b \<noteq> None}"

definition acyclic_tasks :: "tasks \<Rightarrow> bool" where
  "acyclic_tasks ts \<longleftrightarrow> acyclic (dep_edges ts)"

text \<open>Every dependency is recorded in the dependents of the task it names.\<close>

definition dependents_complete :: "tasks \<Rightarrow> bool" where
  "dependents_complete ts \<longleftrightarrow>
     (\<forall>a b t u. map_of ts a = Some t \<longrightarrow> map_of ts b = Some u \<longrightarrow>
        b \<in> set (t_dependencies t) \<longrightarrow> a \<in> set (t_dependents u))"

lemma tasks_wf_map_of: "tasks_wf ts \<Longrightarrow> map_of ts k = Some t \<Longrightarrow> t_id t = k"
  by (auto simp: tasks_wf_def dest: map_of_SomeD)

lemma tasks_wf_value:
  "tasks_wf ts \<Longrightarrow> t \<in> set (dict_values ts) \<Longrightarrow> map_of ts (t_id t) = Some t"
  by (auto simp: tasks_wf_def map_of_Some_iff_set)

lemma dep_edges_dom: "(a, b) \<in> dep_edges ts \<Longrightarrow> a \<in> set (dict_keys ts) \<and> b \<in> set (dict_keys ts)"
  by (auto simp: dep_edges_def key_iff_map_of)

subsection \<open>add\_task\<close>

lemma tasks_wfI:
  assumes "distinct (dict_keys ts)" and "\<And>k t. map_of ts k = Some t \<Longrightarrow> t_id t = k"
  shows "tasks_wf ts"
  using assms by (auto simp: tasks_wf_def map_of_Some_iff_set)

lemma tasks_wf_distinct: "tasks_wf ts \<Longrightarrow> distinct (dict_keys ts)"
  by (simp add: tasks_wf_def)

lemma tasks_wf_set: "tasks_wf ts \<Longrightarrow> tasks_wf (dict_set (t_id t) t ts)"
  by (rule tasks_wfI) (auto simp: tasks_wf_distinct tasks_wf_map_of split: if_splits)

lemma map_of_modify_task:
  "map_of (modify_task k f ts) k' = (if k' = k then map_option f (map_of ts k) else map_of ts k')"
  by (auto simp: modify_task_def split: option.splits)

lemma dict_keys_modify_task [simp]: "dict_keys (modify_task k f ts) = dict_keys ts"
  by (auto simp: modify_task_def dict_keys_set_present key_iff_map_of split: option.splits)

lemma tasks_wf_modify_task:
  assumes "tasks_wf ts" and "\<And>t. t_id (f t) = t_id t"
  shows "tasks_wf (modify_task k f ts)"
proof (cases "map_of ts k")
  case None
  with assms show ?thesis by (simp add: modify_task_def)
next
  case (Some t)
  with assms have "k = t_id (f t)" by (simp add: tasks_wf_map_of)
  with Some assms(1) show ?thesis by (simp add: modify_task_def tasks_wf_set)
qed

lemma add_dependent_simps [simp]:
  "t_id (add_dependent i t) = t_id t"
  "t_dependencies (add_dependent i t) = t_dependencies t"
  "set (t_dependents (add_dependent i t)) = insert i (set (t_dependents t))"
  by (auto simp: add_dependent_def)

text \<open>
  What the two linking loops of \<^verbatim>\<open>add_task\<close> do to the table: only lists of dependents
  change, and they only grow.
\<close>

definition extends_tasks :: "tasks \<Rightarrow> tasks \<Rightarrow> bool" where
  "extends_tasks ts ts' \<longleftrightarrow> dict_keys ts' = dict_keys ts \<and>
     (\<forall>k t. map_of ts k = Some t \<longrightarrow>
        (\<exists>ds. map_of ts' k = Some (t\<lparr>t_dependents := ds\<rparr>) \<and> set (t_dependents t) \<subseteq> set ds))"

lemma extends_tasks_refl [simp]: "extends_tasks ts ts"
proof -
  have "t = t\<lparr>t_dependents := t_dependents t\<rparr>" for t :: task by simp
  then show ?thesis unfolding extends_tasks_def by (metis order_refl)
qed

lemma extends_tasks_trans [trans]:
  assumes ab: "extends_tasks a b" and bc: "extends_tasks b c"
  shows "extends_tasks a c"
  unfolding extends_tasks_def
proof (intro conjI allI impI)
  show "dict_keys c = dict_keys a" using ab bc by (simp add: extends_tasks_def)
  fix k t assume "map_of a k = Some t"
  with ab obtain ds where ds: "map_of b k = Some (t\<lparr>t_dependents := ds\<rparr>)"
    "set (t_dependents t) \<subseteq> set ds" unfolding extends_tasks_def by blast
  with bc obtain es where "map_of c k = Some (t\<lparr>t_dependents := ds\<rparr>\<lparr>t_dependents := es\<rparr>)"
    "set (t_dependents (t\<lparr>t_dependents := ds\<rparr>)) \<subseteq> set es" unfolding extends_tasks_def by blast
  with ds show "\<exists>ds. map_of c k = Some (t\<lparr>t_dependents := ds\<rparr>) \<and> set (t_dependents t) \<subseteq> set ds"
    by auto
qed

lemma add_dependent_update:
  "\<exists>ds. add_dependent i t = t\<lparr>t_dependents := ds\<rparr> \<and> set ds = insert i (set (t_dependents t))"
proof (cases "i \<in> set (t_dependents t)")
  case True
  then show ?thesis by (intro exI[of _ "t_dependents t"]) (auto simp: add_dependent_def)
next
  case False
  then show ?thesis by (intro exI[of _ "t_dependents t @ [i]"]) (simp add: add_dependent_def)
qed

lemma extends_tasks_modify: "extends_tasks ts (modify_task k (add_dependent i) ts)"
  unfolding extends_tasks_def
proof (intro conjI allI impI)
  fix k' t assume t: "map_of ts k' = Some t"
  have "t = t\<lparr>t_dependents := t_dependents t\<rparr>" by simp
  moreover obtain ds where "add_dependent i t = t\<lparr>t_dependents := ds\<rparr>"
    "set ds = insert i (set (t_dependents t))" using add_dependent_update by blast
  ultimately show "\<exists>ds. map_of (modify_task k (add_dependent i) ts) k' = Some (t\<lparr>t_dependents := ds\<rparr>)
      \<and> set (t_dependents t) \<subseteq> set ds"
    using t by (cases "k' = k") (fastforce simp: map_of_modify_task, metis map_of_modify_task order_refl)
qed simp

lemma extends_tasks_obtain:
  assumes "extends_tasks ts ts'" and "map_of ts' k = Some t'"
  obtains t where "map_of ts k = Some t" "t' = t\<lparr>t_dependents := t_dependents t'\<rparr>"
    "set (t_dependents t) \<subseteq> set (t_dependents t')"
proof -
  from assms have "map_of ts k \<noteq> None"
    by (metis extends_tasks_def map_of_eq_keys option.distinct(1))
  then obtain t where t: "map_of ts k = Some t" by blast
  with assms obtain ds where "map_of ts' k = Some (t\<lparr>t_dependents := ds\<rparr>)"
    "set (t_dependents t) \<subseteq> set ds"
    unfolding extends_tasks_def by blast
  moreover from this(1) assms(2) have eq: "t' = t\<lparr>t_dependents := ds\<rparr>" by simp
  then have "t_dependents t' = ds" by simp
  ultimately show thesis using t eq by (intro that[of t]) simp_all
qed

lemma extends_tasks_dep:
  assumes "extends_tasks ts ts'" and "map_of ts' k = Some t'"
  obtains t where "map_of ts k = Some t" "t_dependencies t' = t_dependencies t"
    "set (t_dependents t) \<subseteq> set (t_dependents t')"
proof -
  obtain t where t: "map_of ts k = Some t" "t' = t\<lparr>t_dependents := t_dependents t'\<rparr>"
    "set (t_dependents t) \<subseteq> set (t_dependents t')"
    using extends_tasks_obtain[OF assms] .
  from t(2) have "t_dependencies t' = t_dependencies t"
    by (metis task.select_convs(4) task.surjective task.update_convs(5))
  with t that show thesis by blast
qed

lemma link_dependencies_step:
  "extends_tasks ts (foldl (\<lambda>ts d. modify_task d (add_dependent i) ts) ts ds) \<and>
   (tasks_wf ts \<longrightarrow> tasks_wf (foldl (\<lambda>ts d. modify_task d (add_dependent i) ts) ts ds)) \<and>
   (\<forall>d\<in>set ds. \<forall>u. map_of (foldl (\<lambda>ts d. modify_task d (add_dependent i) ts) ts ds) d = Some u
      \<longrightarrow> i \<in> set (t_dependents u))"
proof (induction ds arbitrary: ts)
  case Nil
  then show ?case by simp
next
  case (Cons d ds)
  let ?m = "modify_task d (add_dependent i) ts"
  let ?r = "foldl (\<lambda>ts d. modify_task d (add_dependent i) ts) ?m ds"
  have ext: "extends_tasks ?m ?r" using Cons.IH by blast
  have "i \<in> set (t_dependents u)" if "map_of ?r d = Some u" for u
    using ext that by (auto elim!: extends_tasks_dep simp: map_of_modify_task)
  with Cons.IH[of ?m] extends_tasks_trans[OF extends_tasks_modify ext] show ?case
    by (auto intro: tasks_wf_modify_task)
qed

definition link_step :: "string \<Rightarrow> tasks \<Rightarrow> task \<Rightarrow> tasks" where
  "link_step i ts e = (if i \<in> set (t_dependencies e)
     then modify_task i (add_dependent (t_id e)) ts else ts)"

lemma link_step_wf: "tasks_wf ts \<Longrightarrow> tasks_wf (link_step i ts e)"
  by (simp add: link_step_def tasks_wf_modify_task)

lemma link_dependents_step:
  shows "extends_tasks ts (foldl (link_step i) ts es) \<and>
    (tasks_wf ts \<longrightarrow> tasks_wf (foldl (link_step i) ts es)) \<and>
    (\<forall>e\<in>set es. i \<in> set (t_dependencies e) \<longrightarrow>
       (\<forall>u. map_of (foldl (link_step i) ts es) i = Some u \<longrightarrow> t_id e \<in> set (t_dependents u)))"
proof (induction es arbitrary: ts)
  case Nil
  then show ?case by simp
next
  case (Cons e es)
  have one: "extends_tasks ts (link_step i ts e)" by (simp add: link_step_def extends_tasks_modify)
  have ext: "extends_tasks (link_step i ts e) (foldl (link_step i) (link_step i ts e) es)" using Cons.IH by blast
  have "t_id e \<in> set (t_dependents u)"
    if "map_of (foldl (link_step i) (link_step i ts e) es) i = Some u" "i \<in> set (t_dependencies e)" for u
    using ext that by (auto elim!: extends_tasks_dep simp: map_of_modify_task link_step_def)
  with Cons.IH[of "link_step i ts e"] extends_tasks_trans[OF one ext] show ?case
    by (auto intro: link_step_wf)
qed

lemma link_dependents_foldl:
  "link_dependents t ts = foldl (link_step (t_id t)) ts (dict_values ts)"
  unfolding link_dependents_def by (rule foldl_cong) (simp_all add: link_step_def)

lemma link_dependencies_extends: "extends_tasks ts (link_dependencies t ts)"
  and link_dependencies_wf: "tasks_wf ts \<Longrightarrow> tasks_wf (link_dependencies t ts)"
  and link_dependencies_links:
    "d \<in> set (t_dependencies t) \<Longrightarrow> map_of (link_dependencies t ts) d = Some u
       \<Longrightarrow> t_id t \<in> set (t_dependents u)"
  using link_dependencies_step[of ts "t_id t" "t_dependencies t"]
  by (auto simp: link_dependencies_def)

lemma link_dependents_extends: "extends_tasks ts (link_dependents t ts)"
  and link_dependents_wf: "tasks_wf ts \<Longrightarrow> tasks_wf (link_dependents t ts)"
  and link_dependents_links:
    "e \<in> set (dict_values ts) \<Longrightarrow> t_id t \<in> set (t_dependencies e)
       \<Longrightarrow> map_of (link_dependents t ts) (t_id t) = Some u \<Longrightarrow> t_id e \<in> set (t_dependents u)"
  using link_dependents_step[of ts "t_id t" "dict_values ts"]
  unfolding link_dependents_foldl by auto

definition added_tasks :: "task \<Rightarrow> tasks \<Rightarrow> tasks" where
  "added_tasks t ts = link_dependents t (link_dependencies t (dict_set (t_id t) t ts))"

lemma p_tasks_add_task [simp]: "p_tasks (add_task t p) = added_tasks t (p_tasks p)"
  by (simp add: add_task_def added_tasks_def)

lemma added_tasks_extends: "extends_tasks (dict_set (t_id t) t ts) (added_tasks t ts)"
  unfolding added_tasks_def
  by (rule extends_tasks_trans[OF link_dependencies_extends link_dependents_extends])

lemma added_tasks_wf: "tasks_wf ts \<Longrightarrow> tasks_wf (added_tasks t ts)"
  unfolding added_tasks_def by (intro link_dependents_wf link_dependencies_wf tasks_wf_set)

lemma added_tasks_complete:
  assumes wf: "tasks_wf ts" and comp: "dependents_complete ts"
  shows "dependents_complete (added_tasks t ts)"
  unfolding dependents_complete_def
proof (intro allI impI)
  fix a b x y
  assume x: "map_of (added_tasks t ts) a = Some x"
    and y: "map_of (added_tasks t ts) b = Some y" and dep: "b \<in> set (t_dependencies x)"
  let ?s0 = "dict_set (t_id t) t ts" and ?s1 = "link_dependencies t (dict_set (t_id t) t ts)"
  have e12: "extends_tasks ?s1 (added_tasks t ts)"
    unfolding added_tasks_def by (rule link_dependents_extends)
  obtain x0 where x0: "map_of ?s0 a = Some x0" "t_dependencies x = t_dependencies x0"
    using extends_tasks_dep[OF added_tasks_extends x] by metis
  obtain y0 where y0: "map_of ?s0 b = Some y0" "set (t_dependents y0) \<subseteq> set (t_dependents y)"
    using extends_tasks_dep[OF added_tasks_extends y] by metis
  obtain y1 where y1: "map_of ?s1 b = Some y1" "set (t_dependents y1) \<subseteq> set (t_dependents y)"
    using extends_tasks_dep[OF e12 y] by metis
  obtain x1 where x1: "map_of ?s1 a = Some x1" "t_dependencies x = t_dependencies x1"
    using extends_tasks_dep[OF e12 x] by metis
  have wf1: "tasks_wf ?s1" by (intro link_dependencies_wf tasks_wf_set wf)
  show "a \<in> set (t_dependents y)"
  proof (cases "a = t_id t")
    case True
    with x0 dep have "b \<in> set (t_dependencies t)" by simp
    with y1 True show ?thesis using link_dependencies_links by blast
  next
    case na: False
    show ?thesis
    proof (cases "b = t_id t")
      case True
      have "x1 \<in> set (dict_values ?s1)" using x1(1) by (force dest: map_of_SomeD)
      moreover have "t_id x1 = a" using wf1 x1(1) by (rule tasks_wf_map_of)
      ultimately show ?thesis
        using link_dependents_links[of x1 ?s1 t y] x1(2) dep y True
        by (simp add: added_tasks_def)
    next
      case False
      with na x0 y0 dep comp show ?thesis
        by (auto simp: dependents_complete_def)
    qed
  qed
qed

end
