(* ===== verification/PlanSearch.thy ===== *)
theory PlanSearch
  imports PlanOrder
begin

text \<open>
  The depth-first search of \<^verbatim>\<open>compute_execution_order\<close>: the recursion bound of the model
  is never reached, the search answers true exactly for the plans without a dependency
  cycle, and the order it leaves behind is topological.
\<close>

section \<open>The search keeps its stack\<close>

lemma visit_visiting:
  "visit n ts t st = Some (True, st') \<Longrightarrow> visiting st' = visiting st"
  "visit_deps n ts ds st = Some (True, st') \<Longrightarrow> visiting st' = visiting st"
proof (induction n ts t st and n ts ds st arbitrary: st' and st' rule: visit_visit_deps.induct)
  case (2 n ts t st)
  show ?case
  proof (cases "t_id t \<in> visiting st \<or> t_id t \<in> visited st")
    case True
    with "2.prems" show ?thesis by (auto split: if_splits)
  next
    case False
    with "2.prems" obtain s1 where
      s1: "visit_deps n ts (t_dependencies t)
             (st\<lparr>visiting := insert (t_id t) (visiting st)\<rparr>) = Some (True, s1)"
      and st': "visiting st' = visiting s1 - {t_id t}"
      by (auto split: option.splits bool.splits)
    have "visiting s1 = insert (t_id t) (visiting st)" using "2.IH" False s1 by simp
    with st' False show ?thesis by simp
  qed
next
  case (4 n ts d ds st)
  show ?case
  proof (cases "map_of ts d")
    case None
    with "4.prems" "4.IH"(1) show ?thesis by simp
  next
    case (Some dep)
    with "4.prems" obtain s1 where s1: "visit n ts dep st = Some (True, s1)"
      "visit_deps n ts ds s1 = Some (True, st')"
      by (auto split: option.splits bool.splits)
    from "4.IH"(3)[OF Some s1(1) refl _ s1(2)] have "visiting st' = visiting s1" by simp
    also have "\<dots> = visiting st" using "4.IH"(2)[OF Some s1(1)] .
    finally show ?thesis .
  qed
qed simp_all

section \<open>Soundness of the order\<close>

definition search_inv :: "tasks \<Rightarrow> vstate \<Rightarrow> bool" where
  "search_inv ts st \<longleftrightarrow>
     set (order st) = visited st \<and> distinct (order st) \<and>
     visited st \<subseteq> fst ` set ts \<and> visited st \<inter> visiting st = {} \<and>
     (\<forall>x y. x \<in> visited st \<longrightarrow> (x, y) \<in> dep_edges ts \<longrightarrow> before (order st) y x)"

definition search_grows :: "tasks \<Rightarrow> vstate \<Rightarrow> vstate \<Rightarrow> bool" where
  "search_grows ts st st' \<longleftrightarrow> search_inv ts st' \<and> visited st \<subseteq> visited st'"

lemma search_inv_push:
  "search_inv ts st \<Longrightarrow> i \<notin> visited st
     \<Longrightarrow> search_inv ts (st\<lparr>visiting := insert i (visiting st)\<rparr>)"
  by (auto simp: search_inv_def)

lemma search_inv_pop:
  assumes inv: "search_inv ts st" and t: "map_of ts i = Some t" and stack: "i \<in> visiting st"
    and deps: "\<forall>d\<in>set (t_dependencies t). map_of ts d \<noteq> None \<longrightarrow> d \<in> visited st"
  shows "search_inv ts (st\<lparr>visiting := visiting st - {i}, visited := insert i (visited st),
           order := order st @ [i]\<rparr>)"
proof -
  have new: "before (order st @ [i]) y i" if "(i, y) \<in> dep_edges ts" for y
    using that t deps inv by (auto simp: dep_edges_def search_inv_def intro!: before_snoc)
  have fresh: "i \<notin> visited st" using inv stack by (auto simp: search_inv_def)
  have key: "i \<in> fst ` set ts" using t by (simp add: key_iff_map_of)
  show ?thesis
    using inv new fresh key by (auto simp: search_inv_def intro: before_append1)
qed

lemma visit_sound:
  "visit n ts t st = Some (True, st') \<Longrightarrow> tasks_wf ts \<Longrightarrow> map_of ts (t_id t) = Some t
     \<Longrightarrow> search_inv ts st \<Longrightarrow> search_grows ts st st' \<and> t_id t \<in> visited st'"
  "visit_deps n ts ds st = Some (True, st') \<Longrightarrow> tasks_wf ts \<Longrightarrow> search_inv ts st
     \<Longrightarrow> search_grows ts st st' \<and> (\<forall>d\<in>set ds. map_of ts d \<noteq> None \<longrightarrow> d \<in> visited st')"
proof (induction n ts t st and n ts ds st arbitrary: st' and st' rule: visit_visit_deps.induct)
  case (2 n ts t st)
  show ?case
  proof (cases "t_id t \<in> visiting st \<or> t_id t \<in> visited st")
    case True
    with "2.prems" show ?thesis by (auto simp: search_grows_def split: if_splits)
  next
    case False
    let ?push = "st\<lparr>visiting := insert (t_id t) (visiting st)\<rparr>"
    from False "2.prems"(1) obtain s1 where
      s1: "visit_deps n ts (t_dependencies t) ?push = Some (True, s1)" and
      st': "st' = s1\<lparr>visiting := visiting s1 - {t_id t}, visited := insert (t_id t) (visited s1),
              order := order s1 @ [t_id t]\<rparr>"
      by (auto split: option.splits bool.splits)
    have ih: "search_grows ts ?push s1"
      "\<forall>d\<in>set (t_dependencies t). map_of ts d \<noteq> None \<longrightarrow> d \<in> visited s1"
      using "2.IH" False s1 "2.prems" search_inv_push by blast+
    have "t_id t \<in> visiting s1" using visit_visiting(2)[OF s1] by simp
    with ih "2.prems"(3) have "search_inv ts st'"
      unfolding st' by (intro search_inv_pop) (auto simp: search_grows_def)
    with ih(1) show ?thesis by (auto simp: search_grows_def st')
  qed
next
  case (4 n ts d ds st)
  show ?case
  proof (cases "map_of ts d")
    case None
    with 4 show ?thesis by auto
  next
    case (Some dep)
    with "4.prems"(1) obtain s1 where s1: "visit n ts dep st = Some (True, s1)"
      "visit_deps n ts ds s1 = Some (True, st')"
      by (auto split: option.splits bool.splits)
    have idd: "t_id dep = d" using "4.prems"(2) Some by (rule tasks_wf_map_of)
    then have a: "search_grows ts st s1 \<and> d \<in> visited s1"
      using "4.IH"(2)[OF Some s1(1)] "4.prems"(2,3) Some by simp
    have "search_grows ts s1 st' \<and> (\<forall>d\<in>set ds. map_of ts d \<noteq> None \<longrightarrow> d \<in> visited st')"
      using "4.IH"(3)[OF Some s1(1) refl _ s1(2) "4.prems"(2)] a by (simp add: search_grows_def)
    with a show ?thesis by (auto simp: search_grows_def)
  qed
qed (auto simp: search_grows_def)

section \<open>A negative answer names a cycle\<close>

lemma visit_cycle:
  "visit n ts t st = Some (False, st') \<Longrightarrow> tasks_wf ts \<Longrightarrow> map_of ts (t_id t) = Some t
     \<Longrightarrow> \<forall>v\<in>visiting st. (v, t_id t) \<in> (dep_edges ts)\<^sup>+ \<Longrightarrow> \<not> acyclic_tasks ts"
  "visit_deps n ts ds st = Some (False, st') \<Longrightarrow> tasks_wf ts
     \<Longrightarrow> \<exists>c i. map_of ts i = Some c \<and> set ds \<subseteq> set (t_dependencies c) \<and>
           (\<forall>v\<in>visiting st. (v, i) \<in> (dep_edges ts)\<^sup>*) \<Longrightarrow> \<not> acyclic_tasks ts"
proof (induction n ts t st and n ts ds st arbitrary: st' and st' rule: visit_visit_deps.induct)
  case (2 n ts t st)
  show ?case
  proof (cases "t_id t \<in> visiting st")
    case True
    with "2.prems"(4) show ?thesis by (auto simp: acyclic_tasks_def acyclic_def)
  next
    case False
    let ?push = "st\<lparr>visiting := insert (t_id t) (visiting st)\<rparr>"
    from False "2.prems"(1) have nv: "t_id t \<notin> visited st" by (auto split: if_splits)
    from False nv "2.prems"(1) obtain s1 where
      "visit_deps n ts (t_dependencies t) ?push = Some (False, s1)"
      by (auto split: option.splits bool.splits)
    moreover have "\<forall>v\<in>visiting ?push. (v, t_id t) \<in> (dep_edges ts)\<^sup>*"
      using "2.prems"(4) by (auto intro: trancl_into_rtrancl)
    ultimately show ?thesis
      using "2.IH"[OF False nv] "2.prems"(2,3) by blast
  qed
next
  case (4 n ts d ds st)
  obtain c i where c: "map_of ts i = Some c" "set (d # ds) \<subseteq> set (t_dependencies c)"
    "\<forall>v\<in>visiting st. (v, i) \<in> (dep_edges ts)\<^sup>*"
    using "4.prems"(3) by blast
  show ?case
  proof (cases "map_of ts d")
    case None
    with 4 c show ?thesis by fastforce
  next
    case (Some dep)
    have idd: "t_id dep = d" using "4.prems"(2) Some by (rule tasks_wf_map_of)
    have "(i, d) \<in> dep_edges ts" using c Some by (auto simp: dep_edges_def)
    then have reach: "\<forall>v\<in>visiting st. (v, d) \<in> (dep_edges ts)\<^sup>+"
      using c(3) by (auto intro: rtrancl_into_trancl1)
    show ?thesis
    proof (cases "visit n ts dep st")
      case None
      with Some "4.prems"(1) show ?thesis by simp
    next
      case v: (Some r)
      obtain b s1 where r: "r = (b, s1)" by fastforce
      show ?thesis
      proof (cases b)
        case False
        with v r Some idd reach "4.IH" "4.prems"(2) show ?thesis by simp
      next
        case True
        with v r have "visiting s1 = visiting st" by (simp add: visit_visiting)
        moreover have "visit_deps n ts ds s1 = Some (False, st')"
          using "4.prems"(1) Some v r True by simp
        ultimately show ?thesis
          using "4.IH"(3)[OF Some v, of b s1 st'] r True c "4.prems"(2) by fastforce
      qed
    qed
  qed
qed auto

section \<open>The recursion bound is enough\<close>

lemma visit_enough_fuel:
  "map_of ts (t_id t) = Some t \<Longrightarrow> tasks_wf ts \<Longrightarrow> card (fst ` set ts - visiting st) < n
     \<Longrightarrow> visit n ts t st \<noteq> None"
  "tasks_wf ts \<Longrightarrow> card (fst ` set ts - visiting st) < n \<Longrightarrow> visit_deps n ts ds st \<noteq> None"
proof (induction n ts t st and n ts ds st rule: visit_visit_deps.induct)
  case (2 n ts t st)
  show ?case
  proof (cases "t_id t \<in> visiting st \<or> t_id t \<in> visited st")
    case True
    then show ?thesis by auto
  next
    case False
    have key: "t_id t \<in> fst ` set ts - visiting st"
      using "2.prems"(1) False by (simp add: key_iff_map_of)
    have "fst ` set ts - insert (t_id t) (visiting st) = (fst ` set ts - visiting st) - {t_id t}"
      by blast
    then have "card (fst ` set ts - insert (t_id t) (visiting st)) < n"
      using "2.prems"(3) card_Diff1_less[OF _ key] by simp
    with "2.IH" False "2.prems"(2) have
      "visit_deps n ts (t_dependencies t) (st\<lparr>visiting := insert (t_id t) (visiting st)\<rparr>) \<noteq> None"
      by simp
    with False show ?thesis by (auto split: option.splits bool.splits)
  qed
next
  case (4 n ts d ds st)
  show ?case
  proof (cases "map_of ts d")
    case None
    with 4 show ?thesis by simp
  next
    case (Some dep)
    then have dep: "map_of ts (t_id dep) = Some dep"
      using "4.prems"(1) tasks_wf_map_of by fastforce
    with 4 Some obtain b s1 where v: "visit n ts dep st = Some (b, s1)" by fastforce
    show ?thesis
    proof (cases b)
      case False
      with v Some show ?thesis by simp
    next
      case True
      with v have "visiting s1 = visiting st" by (simp add: visit_visiting(1))
      then show ?thesis using "4.IH"(3)[OF Some v] "4.prems" v Some True by simp
    qed
  qed
qed auto

end
