(* ===== verification/PlanProps.thy ===== *)
theory PlanProps
  imports PlanSearch
begin

text \<open>
  What the planner and the scheduler rely on: the execution order is topological exactly
  for the acyclic plans, \<^verbatim>\<open>add_task\<close> keeps the table and its back links well formed, the
  batches schedule every task once and after its dependencies.
\<close>

section \<open>From the search to the plan\<close>

definition plan_wf :: "plan \<Rightarrow> bool" where
  "plan_wf p \<longleftrightarrow> tasks_wf (p_tasks p)"

definition topological :: "tasks \<Rightarrow> string list \<Rightarrow> bool" where
  "topological ts ord \<longleftrightarrow> distinct ord \<and> set ord = set (dict_keys ts) \<and>
     (\<forall>x y. (x, y) \<in> dep_edges ts \<longrightarrow> before ord y x)"

lemma init_search_inv [simp]: "search_inv ts init_vstate"
  by (simp add: search_inv_def init_vstate_def)

lemma visit_all_sound:
  assumes "tasks_wf ts" and "\<forall>t\<in>set rest. map_of ts (t_id t) = Some t"
    and "search_inv ts st" and "visit_all n ts rest st = Some (True, st')"
  shows "search_grows ts st st' \<and> t_id ` set rest \<subseteq> visited st'"
  using assms
proof (induction rest arbitrary: st)
  case Nil
  then show ?case by (simp add: search_grows_def)
next
  case (Cons t rest)
  show ?case
  proof (cases "t_id t \<in> visited st")
    case True
    with Cons show ?thesis by (auto simp: search_grows_def)
  next
    case False
    with Cons.prems(4) obtain s1 where s1: "visit n ts t st = Some (True, s1)"
      "visit_all n ts rest s1 = Some (True, st')"
      by (auto split: option.splits bool.splits)
    then have a: "search_grows ts st s1 \<and> t_id t \<in> visited s1"
      using visit_sound(1) Cons.prems by simp
    then have "search_grows ts s1 st' \<and> t_id ` set rest \<subseteq> visited st'"
      using Cons.IH[OF Cons.prems(1) _ _ s1(2)] Cons.prems(2) by (simp add: search_grows_def)
    with a show ?thesis by (auto simp: search_grows_def)
  qed
qed

lemma visit_all_cycle:
  assumes "tasks_wf ts" and "\<forall>t\<in>set rest. map_of ts (t_id t) = Some t"
    and "visiting st = {}" and "visit_all n ts rest st = Some (False, st')"
  shows "\<not> acyclic_tasks ts"
  using assms
proof (induction rest arbitrary: st)
  case (Cons t rest)
  show ?case
  proof (cases "t_id t \<in> visited st")
    case True
    with Cons show ?thesis by simp
  next
    case False
    with Cons.prems(4) obtain b s1 where s1: "visit n ts t st = Some (b, s1)"
      by (auto split: option.splits)
    with Cons.prems visit_cycle(1)[of n ts t st s1] visit_visiting(1)[of n ts t st s1]
    show ?thesis using Cons.IH[of s1] False by (cases b) auto
  qed
qed simp

lemma visit_all_fuel:
  assumes "tasks_wf ts" and "\<forall>t\<in>set rest. map_of ts (t_id t) = Some t"
    and "visiting st = {}" and "card (fst ` set ts) < n"
  shows "visit_all n ts rest st \<noteq> None"
  using assms
proof (induction rest arbitrary: st)
  case (Cons t rest)
  then obtain b s1 where s1: "visit n ts t st = Some (b, s1)"
    using visit_enough_fuel(1)[of ts t st n] by fastforce
  with Cons visit_visiting(1)[of n ts t st s1] show ?case by (cases b) auto
qed simp

lemma card_keys_le: "card (fst ` set ts) \<le> length ts"
  by (metis card_length length_map list.set_map)

lemma before_index:
  assumes "distinct ord" and "before ord y x"
  shows "length (takeWhile (\<lambda>z. z \<noteq> y) ord) < length (takeWhile (\<lambda>z. z \<noteq> x) ord)"
proof -
  from assms(2) obtain us vs ws where ord: "ord = us @ y # vs @ x # ws"
    by (auto simp: before_def)
  with assms(1) have "takeWhile (\<lambda>z. z \<noteq> y) ord = us"
    and "takeWhile (\<lambda>z. z \<noteq> x) ord = us @ y # vs"
    by (auto simp: takeWhile_append)
  then show ?thesis by simp
qed

lemma topological_acyclic: "topological ts ord \<Longrightarrow> acyclic_tasks ts"
proof -
  assume top: "topological ts ord"
  let ?pos = "\<lambda>z. length (takeWhile (\<lambda>w. w \<noteq> z) ord)"
  have "dep_edges ts \<subseteq> (measure ?pos)\<inverse>"
    using top by (auto simp: topological_def intro!: before_index)
  moreover have "acyclic ((measure ?pos)\<inverse>)" by (simp add: wf_acyclic)
  ultimately show ?thesis unfolding acyclic_tasks_def by (rule acyclic_subset[rotated])
qed

lemma compute_order_cases [consumes 1, case_names sorted cyclic]:
  assumes wf: "plan_wf p"
  obtains (sorted) p' where "compute_execution_order p = Some (True, p')"
      "topological (p_tasks p) (p_execution_order p')"
      "p' = p\<lparr>p_execution_order := p_execution_order p'\<rparr>"
  | (cyclic) "compute_execution_order p = Some (False, p)" "\<not> acyclic_tasks (p_tasks p)"
proof -
  let ?ts = "p_tasks p" and ?n = "Suc (length (p_tasks p))"
  have twf: "tasks_wf ?ts" using wf by (simp add: plan_wf_def)
  have vals: "\<forall>t\<in>set (dict_values ?ts). map_of ?ts (t_id t) = Some t"
    using tasks_wf_value[OF twf] by blast
  have stack: "visiting init_vstate = {}" by (simp add: init_vstate_def)
  have "visit_all ?n ?ts (dict_values ?ts) init_vstate \<noteq> None"
    using visit_all_fuel[OF twf vals stack, of ?n] card_keys_le[of ?ts] by simp
  then obtain b st where run: "visit_all ?n ?ts (dict_values ?ts) init_vstate = Some (b, st)"
    by auto
  show thesis
  proof (cases b)
    case True
    have inv: "search_grows ?ts init_vstate st" "t_id ` set (dict_values ?ts) \<subseteq> visited st"
      using visit_all_sound[OF twf vals init_search_inv] run True by auto
    have "t_id ` set (dict_values ?ts) = fst ` set ?ts"
      using twf by (force simp: tasks_wf_def image_iff)
    with inv have "visited st = fst ` set ?ts"
      by (auto simp: search_grows_def search_inv_def)
    with inv(1) have "topological ?ts (order st)"
      using dep_edges_dom[of _ _ ?ts]
      by (auto simp: topological_def search_grows_def search_inv_def)
    with run True show thesis
      by (intro sorted[of "p\<lparr>p_execution_order := order st\<rparr>"])
        (simp_all add: compute_execution_order_def)
  next
    case False
    with run visit_all_cycle[OF twf vals stack] cyclic show thesis
      by (simp add: compute_execution_order_def)
  qed
qed

section \<open>Batches\<close>

fun well_batched :: "tasks \<Rightarrow> string set \<Rightarrow> string list list \<Rightarrow> bool" where
  "well_batched ts C [] = True"
| "well_batched ts C (b # bs) =
     ((\<forall>x\<in>set b. \<exists>t. map_of ts x = Some t \<and> set (t_dependencies t) \<subseteq> C) \<and>
      well_batched ts (C \<union> set b) bs)"

lemma well_batched_nth:
  "well_batched ts C bs \<Longrightarrow> i < length bs \<Longrightarrow> x \<in> set (bs ! i)
     \<Longrightarrow> \<exists>t. map_of ts x = Some t \<and> set (t_dependencies t) \<subseteq> C \<union> set (concat (take i bs))"
proof (induction bs arbitrary: C i)
  case (Cons b bs)
  then show ?case by (cases i) (force simp: Un_assoc)+
qed simp

lemma set_batch_ids:
  "set (batch_ids ts ord R C) =
     {x \<in> set ord \<inter> R. \<exists>t. map_of ts x = Some t \<and> set (t_dependencies t) \<subseteq> C}"
  by (auto simp: batch_ids_def list_all_iff split: option.splits)

lemma batches_loop_schedule:
  assumes "distinct ord" and "R \<subseteq> set ord" and "card R \<le> n"
  shows "well_batched ts C (batches_loop n ts ord R C) \<and>
    distinct (concat (batches_loop n ts ord R C)) \<and>
    set (concat (batches_loop n ts ord R C)) \<subseteq> R \<and>
    [] \<notin> set (batches_loop n ts ord R C) \<and>
    (\<forall>x\<in>R - set (concat (batches_loop n ts ord R C)). \<forall>t. map_of ts x = Some t \<longrightarrow>
       \<not> set (t_dependencies t) \<subseteq> C \<union> set (concat (batches_loop n ts ord R C)))"
  using assms(2,3)
proof (induction n arbitrary: R C)
  case 0
  then have "R = {}" using finite_subset by fastforce
  then show ?case by simp
next
  case (Suc n)
  have fin: "finite R" using Suc.prems(1) finite_subset by blast
  let ?b = "batch_ids ts ord R C"
  show ?case
  proof (cases "R = {} \<or> ?b = []")
    case True
    then show ?thesis
      using Suc.prems(1) set_batch_ids[of ts ord R C] by auto
  next
    case False
    then have loop: "batches_loop (Suc n) ts ord R C =
        ?b # batches_loop n ts ord (R - set ?b) (C \<union> set ?b)"
      by (simp add: Let_def)
    have sub: "set ?b \<subseteq> R" by (auto simp: set_batch_ids)
    from False obtain x where "x \<in> set ?b" by (cases ?b) auto
    with sub have "R - set ?b \<subset> R" by auto
    then have "card (R - set ?b) < card R" by (rule psubset_card_mono[OF fin])
    then have ih: "R - set ?b \<subseteq> set ord" "card (R - set ?b) \<le> n"
      using Suc.prems by auto
    let ?r = "batches_loop n ts ord (R - set ?b) (C \<union> set ?b)"
    have dist: "distinct ?b" using assms(1) by (simp add: batch_ids_def)
    have ready: "\<forall>x\<in>set ?b. \<exists>t. map_of ts x = Some t \<and> set (t_dependencies t) \<subseteq> C"
      by (auto simp: set_batch_ids)
    note rest = Suc.IH[OF ih, of "C \<union> set ?b"]
    have disj: "set ?b \<inter> set (concat ?r) = {}" using rest by blast
    have left: "\<not> set (t_dependencies t) \<subseteq> C \<union> set (concat (?b # ?r))"
      if "x \<in> R - set (concat (?b # ?r))" "map_of ts x = Some t" for x t
    proof -
      from that(1) have "x \<in> R - set ?b - set (concat ?r)" by simp
      with rest that(2) have "\<not> set (t_dependencies t) \<subseteq> C \<union> set ?b \<union> set (concat ?r)" by blast
      then show ?thesis by (simp add: Un_assoc)
    qed
    show ?thesis
      unfolding loop
    proof (intro conjI ballI allI impI)
      show "well_batched ts C (?b # ?r)" using ready rest by simp
      show "distinct (concat (?b # ?r))" using dist disj rest by simp
      show "set (concat (?b # ?r)) \<subseteq> R" using sub rest by auto
      show "[] \<notin> set (?b # ?r)" using False rest by auto
    qed (use left in blast)
  qed
qed

definition order_cache_ok :: "plan \<Rightarrow> bool" where
  "order_cache_ok p \<longleftrightarrow> p_execution_order p = [] \<or> topological (p_tasks p) (p_execution_order p)"

lemma execution_order_topological:
  assumes "plan_wf p" and "order_cache_ok p" and "acyclic_tasks (p_tasks p)"
  shows "topological (p_tasks p) (fst (execution_order p))"
  using assms(1)
proof (cases rule: compute_order_cases)
  case (sorted p')
  with assms show ?thesis by (auto simp: execution_order_def order_cache_ok_def)
next
  case cyclic
  with assms show ?thesis by simp
qed

lemma execution_batches_eq:
  "fst (execution_batches p) =
     batches_loop (length (p_tasks p)) (p_tasks p) (fst (execution_order p))
       (set (dict_keys (p_tasks p))) {}"
  by (simp add: execution_batches_def split: prod.splits)

lemma execution_batches_schedule:
  fixes p :: plan
  defines "bs \<equiv> fst (execution_batches p)"
  assumes "plan_wf p" and "order_cache_ok p" and "acyclic_tasks (p_tasks p)"
  shows "well_batched (p_tasks p) {} bs" "distinct (concat bs)"
    "set (concat bs) \<subseteq> set (dict_keys (p_tasks p))" "[] \<notin> set bs"
    "\<forall>x\<in>set (dict_keys (p_tasks p)) - set (concat bs). \<forall>t. map_of (p_tasks p) x = Some t \<longrightarrow>
       \<not> set (t_dependencies t) \<subseteq> set (concat bs)"
proof -
  have top: "topological (p_tasks p) (fst (execution_order p))"
    using execution_order_topological assms(2-4) .
  have card: "card (set (dict_keys (p_tasks p))) \<le> length (p_tasks p)"
    using card_length[of "dict_keys (p_tasks p)"] by simp
  note loop = batches_loop_schedule[of "fst (execution_order p)" "set (dict_keys (p_tasks p))"
      "length (p_tasks p)" "p_tasks p" "{}"]
  show "well_batched (p_tasks p) {} bs" "distinct (concat bs)"
    "set (concat bs) \<subseteq> set (dict_keys (p_tasks p))" "[] \<notin> set bs"
    "\<forall>x\<in>set (dict_keys (p_tasks p)) - set (concat bs). \<forall>t. map_of (p_tasks p) x = Some t \<longrightarrow>
       \<not> set (t_dependencies t) \<subseteq> set (concat bs)"
    using loop top card unfolding bs_def execution_batches_eq by (auto simp: topological_def)
qed

text \<open>A plan all of whose dependencies are tasks of the plan.\<close>

definition deps_known :: "tasks \<Rightarrow> bool" where
  "deps_known ts \<longleftrightarrow> (\<forall>x t. map_of ts x = Some t \<longrightarrow> set (t_dependencies t) \<subseteq> set (dict_keys ts))"

lemma finite_dep_edges: "finite (dep_edges ts)"
proof (rule finite_subset)
  show "dep_edges ts \<subseteq> set (dict_keys ts) \<times> set (dict_keys ts)"
    using dep_edges_dom by auto
qed simp

lemma unscheduled_empty:
  assumes "acyclic_tasks ts" and "deps_known ts" and "S \<subseteq> set (dict_keys ts)"
    and "\<forall>x\<in>set (dict_keys ts) - S. \<forall>t. map_of ts x = Some t \<longrightarrow> \<not> set (t_dependencies t) \<subseteq> S"
  shows "S = set (dict_keys ts)"
proof -
  have "wf ((dep_edges ts)\<inverse>)"
    using assms(1) finite_dep_edges by (simp add: acyclic_tasks_def finite_acyclic_wf_converse)
  then have "x \<in> set (dict_keys ts) \<longrightarrow> x \<in> S" for x
  proof (induction x rule: wf_induct_rule)
    case (less x)
    show ?case
    proof (rule impI, rule ccontr)
      assume x: "x \<in> set (dict_keys ts)" "x \<notin> S"
      then obtain t where t: "map_of ts x = Some t" by (auto simp: key_iff_map_of)
      with assms(4) x obtain d where d: "d \<in> set (t_dependencies t)" "d \<notin> S" by blast
      with t assms(2) have "d \<in> set (dict_keys ts)" by (auto simp: deps_known_def)
      with t d have "(x, d) \<in> dep_edges ts" by (auto simp: dep_edges_def key_iff_map_of)
      with less.IH[of d] d \<open>d \<in> set (dict_keys ts)\<close> show False by simp
    qed
  qed
  with assms(3) show ?thesis by blast
qed

section \<open>A concrete plan\<close>

text \<open>Two tasks, \<open>b\<close> after \<open>a\<close>, added in the order \<open>b\<close>, \<open>a\<close>.\<close>

definition demo_plan :: plan where
  "demo_plan = add_task (new_task ''a'' ''first'' [])
     (add_task (new_task ''b'' ''second'' [''a'']) (new_plan 1 ''p'' ''goal''))"

lemma plan_wf_add_task: "plan_wf p \<Longrightarrow> plan_wf (add_task t p)"
  by (simp add: plan_wf_def added_tasks_wf)

lemma dependents_complete_add_task:
  "plan_wf p \<Longrightarrow> dependents_complete (p_tasks p) \<Longrightarrow> dependents_complete (p_tasks (add_task t p))"
  by (simp add: plan_wf_def added_tasks_complete)

lemma new_plan_wf: "plan_wf (new_plan now i g)" "dependents_complete (p_tasks (new_plan now i g))"
  by (simp_all add: plan_wf_def tasks_wf_def dependents_complete_def new_plan_def)

lemma demo_plan_wf: "plan_wf demo_plan" "dependents_complete (p_tasks demo_plan)"
  unfolding demo_plan_def
  by (intro plan_wf_add_task dependents_complete_add_task new_plan_wf)+

lemma demo_plan_order:
  "compute_execution_order demo_plan =
     Some (True, demo_plan\<lparr>p_execution_order := [''a'', ''b'']\<rparr>)"
  by code_simp

lemma demo_plan_cache: "order_cache_ok demo_plan"
  by (simp add: order_cache_ok_def demo_plan_def add_task_def)

lemma compute_order_True_acyclic:
  "plan_wf p \<Longrightarrow> compute_execution_order p = Some (True, p') \<Longrightarrow> acyclic_tasks (p_tasks p)"
  by (erule compute_order_cases) (auto intro: topological_acyclic)

lemma demo_plan_acyclic: "acyclic_tasks (p_tasks demo_plan)"
  using compute_order_True_acyclic[OF demo_plan_wf(1) demo_plan_order] .

lemma demo_plan_tasks:
  "map (\<lambda>(k, t). (k, t_dependencies t, t_dependents t)) (p_tasks demo_plan) =
     [(''b'', [''a''], []), (''a'', [], [''b''])]"
  by code_simp

lemma demo_plan_keys: "dict_keys (p_tasks demo_plan) = [''b'', ''a'']"
  by code_simp

lemma demo_plan_deps_known: "deps_known (p_tasks demo_plan)"
proof -
  have "list_all (\<lambda>kt. list_all (\<lambda>d. List.member [''b'', ''a''] d) (t_dependencies (snd kt)))
      (p_tasks demo_plan)"
    by code_simp
  then show ?thesis
    unfolding deps_known_def demo_plan_keys by (fastforce simp: list_all_iff dest: map_of_SomeD)
qed

section \<open>Properties\<close>

text \<open>
  \<^verbatim>\<open>compute_execution_order\<close> always returns (the depth bound of the model is never
  reached), and it returns true exactly when no task depends, directly or through other
  tasks of the plan, on itself.
\<close>

theorem compute_order_decides_acyclicity:
  assumes "plan_wf p"
  shows "\<exists>p'. compute_execution_order p = Some (acyclic_tasks (p_tasks p), p')"
  using assms
proof (cases rule: compute_order_cases)
  case (sorted p')
  then show ?thesis using topological_acyclic by auto
qed auto

theorem compute_order_decides_acyclicity_witness:
  "\<exists>p'. compute_execution_order demo_plan = Some (acyclic_tasks (p_tasks demo_plan), p')"
  using compute_order_decides_acyclicity[OF demo_plan_wf(1)] .

text \<open>
  on success the stored order lists every task of the plan exactly once, each after
  all the tasks of the plan it depends on, and nothing else of the plan changes; on
  failure the plan is unchanged.
\<close>

theorem compute_order_topological:
  assumes "plan_wf p" and "compute_execution_order p = Some (b, p')"
  shows "p' = p\<lparr>p_execution_order := p_execution_order p'\<rparr> \<and>
    (if b then distinct (p_execution_order p') \<and>
          set (p_execution_order p') = set (dict_keys (p_tasks p)) \<and>
          (\<forall>x t y. map_of (p_tasks p) x = Some t \<longrightarrow> y \<in> set (t_dependencies t) \<longrightarrow>
             map_of (p_tasks p) y \<noteq> None \<longrightarrow> before (p_execution_order p') y x)
     else p' = p)"
  using assms(1)
proof (cases rule: compute_order_cases)
  case (sorted q)
  with assms(2) show ?thesis by (auto simp: topological_def dep_edges_def)
next
  case cyclic
  with assms(2) show ?thesis by simp
qed

theorem compute_order_topological_witness:
  "before (p_execution_order (demo_plan\<lparr>p_execution_order := [''a'', ''b'']\<rparr>)) ''a'' ''b''"
proof -
  obtain t where "map_of (p_tasks demo_plan) ''b'' = Some t" "t_dependencies t = [''a'']"
    by (simp add: demo_plan_def new_plan_def new_task_def add_task_def link_dependencies_def
        link_dependents_def modify_task_def add_dependent_def)
  moreover have "map_of (p_tasks demo_plan) ''a'' \<noteq> None" by code_simp
  ultimately show ?thesis
    using compute_order_topological[OF demo_plan_wf(1) demo_plan_order] by fastforce
qed

text \<open>
  the batches of an acyclic plan are non-empty and disjoint, every task of the batch number \<open>i\<close> has
  all its dependencies in the batches before \<open>i\<close>, and a task is left out only if one
  of its dependencies is (a dependency on an unknown task blocks its dependents).
\<close>

theorem execution_batches_correct:
  fixes p :: plan
  defines "bs \<equiv> fst (execution_batches p)"
  assumes "plan_wf p" and "order_cache_ok p" and "acyclic_tasks (p_tasks p)"
  shows "distinct (concat bs) \<and> [] \<notin> set bs \<and> set (concat bs) \<subseteq> set (dict_keys (p_tasks p)) \<and>
    (\<forall>i x t. i < length bs \<longrightarrow> x \<in> set (bs ! i) \<longrightarrow> map_of (p_tasks p) x = Some t \<longrightarrow>
       set (t_dependencies t) \<subseteq> set (concat (take i bs))) \<and>
    (\<forall>x t. map_of (p_tasks p) x = Some t \<longrightarrow> x \<notin> set (concat bs) \<longrightarrow>
       (\<exists>d\<in>set (t_dependencies t). d \<notin> set (concat bs)))"
proof -
  note sched = execution_batches_schedule[OF assms(2-4), folded bs_def]
  have "set (t_dependencies t) \<subseteq> set (concat (take i bs))"
    if "i < length bs" "x \<in> set (bs ! i)" "map_of (p_tasks p) x = Some t" for i x t
    using well_batched_nth[OF sched(1) that(1,2)] that(3) by auto
  moreover have "\<exists>d\<in>set (t_dependencies t). d \<notin> set (concat bs)"
    if "map_of (p_tasks p) x = Some t" "x \<notin> set (concat bs)" for x t
  proof -
    have "x \<in> set (dict_keys (p_tasks p))" using that(1) by (simp add: key_iff_map_of)
    with sched(5) that show ?thesis by blast
  qed
  ultimately show ?thesis using sched(2-4) by blast
qed

theorem execution_batches_correct_witness:
  "fst (execution_batches demo_plan) = [[''a''], [''b'']] \<and>
   distinct (concat (fst (execution_batches demo_plan)))"
proof
  show "fst (execution_batches demo_plan) = [[''a''], [''b'']]" by code_simp
  show "distinct (concat (fst (execution_batches demo_plan)))"
    using execution_batches_correct[OF demo_plan_wf(1) demo_plan_cache demo_plan_acyclic] by blast
qed

text \<open>
  when every dependency names a task of the plan, the batches of an acyclic plan
  schedule all its tasks.
\<close>

theorem execution_batches_complete:
  assumes "plan_wf p" and "order_cache_ok p" and "acyclic_tasks (p_tasks p)"
    and "deps_known (p_tasks p)"
  shows "set (concat (fst (execution_batches p))) = set (dict_keys (p_tasks p))"
  using execution_batches_schedule[OF assms(1-3)] unscheduled_empty[OF assms(3,4)] by blast

theorem execution_batches_complete_witness:
  "set (concat (fst (execution_batches demo_plan))) = {''a'', ''b''}"
  using execution_batches_complete[OF demo_plan_wf(1) demo_plan_cache demo_plan_acyclic
      demo_plan_deps_known] by (auto simp: demo_plan_keys)

text \<open>
  \<^verbatim>\<open>add_task\<close> keeps the table well formed (one entry per identifier, stored under the
  task's own identifier), keeps the back links complete (whenever \<open>a\<close> depends on \<open>b\<close> and both
  are in the plan, \<open>a\<close> is among the dependents of \<open>b\<close>), and drops the cached order.
\<close>

theorem add_task_invariant:
  assumes "plan_wf p" and "dependents_complete (p_tasks p)"
  shows "plan_wf (add_task t p) \<and> dependents_complete (p_tasks (add_task t p)) \<and>
    order_cache_ok (add_task t p) \<and>
    set (dict_keys (p_tasks (add_task t p))) = insert (t_id t) (set (dict_keys (p_tasks p)))"
proof -
  have "dict_keys (added_tasks t (p_tasks p)) = dict_keys (dict_set (t_id t) t (p_tasks p))"
    using added_tasks_extends by (simp add: extends_tasks_def)
  then have "set (dict_keys (added_tasks t (p_tasks p))) = insert (t_id t) (set (dict_keys (p_tasks p)))"
    by (metis list.set_map set_dict_keys_set)
  then show ?thesis
    using assms added_tasks_wf added_tasks_complete
    by (simp add: plan_wf_def order_cache_ok_def add_task_def added_tasks_def)
qed

theorem add_task_invariant_witness:
  "plan_wf (add_task (new_task ''c'' ''third'' [''b'']) demo_plan) \<and>
   dependents_complete (p_tasks (add_task (new_task ''c'' ''third'' [''b'']) demo_plan))"
  using add_task_invariant[OF demo_plan_wf] by blast

end
