(* ===== verification/PlanCodec.thy ===== *)
theory PlanCodec
  imports PlanProps
begin

text \<open>
  The durable dictionary form of a plan: \<^verbatim>\<open>snapshot\<close>, \<^verbatim>\<open>to_dict\<close> and \<^verbatim>\<open>from_dict\<close> of
  \<^verbatim>\<open>PlanVersion\<close> and \<^verbatim>\<open>ExecutionPlan\<close>, with the migration of schema version 1.
\<close>

section \<open>Encoding and decoding\<close>

definition plan_version_to_dict :: "plan_version \<Rightarrow> pydict" where
  "plan_version_to_dict v = [
     (''version'', PInt (pv_version v)),
     (''plan_id'', PStr (pv_plan_id v)),
     (''status'', PStr (plan_status_value (pv_status v))),
     (''summary'', PStr (pv_summary v)),
     (''reason'', PStr (pv_reason v)),
     (''tasks'', PList (map (\<lambda>t. PDict (task_to_dict t)) (pv_tasks v))),
     (''created_at'', PFloat (pv_created_at v))]"

definition plan_version_from_dict :: "pyenv \<Rightarrow> pydict \<Rightarrow> plan_version res" where
  "plan_version_from_dict E d =
     bindR (py_int E (py_or (dict_get d ''version'') (PInt 1))) (\<lambda>ver.
     bindR (PlanStatus (str_or E (dict_get d ''status'') (plan_status_value PlanCREATED))) (\<lambda>st.
     bindR (mapR (task_from_dict E) (py_dicts (dict_get d ''tasks''))) (\<lambda>ts.
     bindR (py_float E (py_or (dict_get d ''created_at'') (PFloat (now_time E)))) (\<lambda>created.
     Ok \<lparr>pv_version = ver,
        pv_plan_id = str_or E (dict_get d ''plan_id'') [],
        pv_status = st,
        pv_summary = str_or E (dict_get d ''summary'') [],
        pv_reason = str_or E (dict_get d ''reason'') [],
        pv_tasks = ts,
        pv_created_at = created\<rparr>))))"

definition plan_snapshot :: "pyenv \<Rightarrow> string \<Rightarrow> plan \<Rightarrow> plan_version res" where
  "plan_snapshot E reason p =
     bindR (mapR (\<lambda>t. task_from_dict E (task_to_dict t)) (all_tasks p)) (\<lambda>ts.
     Ok \<lparr>pv_version = p_version p, pv_plan_id = p_id p, pv_status = p_status p,
        pv_summary = p_summary p, pv_reason = reason, pv_tasks = ts,
        pv_created_at = now_time E\<rparr>)"

definition plan_to_dict :: "plan \<Rightarrow> pydict" where
  "plan_to_dict p = [
     (''schema_version'', PInt (p_schema_version p)),
     (''id'', PStr (p_id p)),
     (''goal'', PStr (p_goal p)),
     (''version'', PInt (p_version p)),
     (''replan_count'', PInt (p_replan_count p)),
     (''status'', PStr (plan_status_value (p_status p))),
     (''summary'', PStr (p_summary p)),
     (''created_at'', PFloat (p_created_at p)),
     (''start_time'', PFloat (p_start_time p)),
     (''end_time'', PFloat (p_end_time p)),
     (''tasks'', PList (map (\<lambda>t. PDict (task_to_dict t)) (all_tasks p))),
     (''history'', PList (map (\<lambda>v. PDict (plan_version_to_dict v)) (p_history p)))]"

text \<open>A task persisted as \<open>RUNNING\<close> by schema version 1 restarts its attempt.\<close>

definition migrate_task :: "int \<Rightarrow> task \<Rightarrow> task" where
  "migrate_task schema t =
     (if schema = 1 \<and> t_status t = RUNNING
      then t\<lparr>t_status := PENDING, t_attempt := max 0 (t_attempt t - 1), t_start_time := 0,
             t_end_time := 0, t_result := [], t_error := []\<rparr>
      else t)"

fun load_tasks :: "pyenv \<Rightarrow> int \<Rightarrow> pydict list \<Rightarrow> plan \<Rightarrow> plan res" where
  "load_tasks E schema [] p = Ok p"
| "load_tasks E schema (d # ds) p =
     bindR (task_from_dict E d) (\<lambda>t. load_tasks E schema ds (add_task (migrate_task schema t) p))"

text \<open>The last check of \<open>from_dict\<close>; its third case never happens (see \<open>PlanProps\<close>).\<close>

definition check_order :: "plan \<Rightarrow> plan res" where
  "check_order p = (case compute_execution_order p of
       Some (True, p') \<Rightarrow> Ok p'
     | Some (False, _) \<Rightarrow> Raise (ValueError ''persisted plan contains a cyclic dependency'')
     | None \<Rightarrow> Raise (RuntimeErr ''maximum recursion depth exceeded''))"

definition plan_header :: "pyenv \<Rightarrow> pydict \<Rightarrow> plan res" where
  "plan_header E d =
     bindR (dict_item d ''id'') (\<lambda>i.
     bindR (PlanStatus (str_or E (dict_get d ''status'') (plan_status_value PlanCREATED))) (\<lambda>st.
     bindR (py_int E (py_or (dict_get d ''version'') (PInt 1))) (\<lambda>ver.
     bindR (py_int E (py_or (dict_get d ''replan_count'') (PInt 0))) (\<lambda>replans.
     bindR (py_float E (py_or (dict_get d ''created_at'') (PFloat (now_time E)))) (\<lambda>created.
     bindR (py_float E (py_or (dict_get d ''start_time'') (PFloat 0))) (\<lambda>stime.
     bindR (py_float E (py_or (dict_get d ''end_time'') (PFloat 0))) (\<lambda>etime.
     Ok \<lparr>p_id = py_str E i, p_goal = str_or E (dict_get d ''goal'') [], p_tasks = [],
         p_status = st, p_schema_version = PLAN_SCHEMA_VERSION, p_version = ver,
         p_replan_count = replans, p_history = [],
         p_summary = str_or E (dict_get d ''summary'') [], p_created_at = created,
         p_start_time = stime, p_end_time = etime, p_execution_order = []\<rparr>)))))))"

definition plan_from_dict :: "pyenv \<Rightarrow> pydict \<Rightarrow> plan res" where
  "plan_from_dict E d =
     bindR (py_int E (py_or (dict_get d ''schema_version'') (PInt 0))) (\<lambda>schema.
     if schema \<notin> {1, PLAN_SCHEMA_VERSION}
     then Raise (ValueError (''unsupported plan schema version: '' @ int_repr schema))
     else
     bindR (plan_header E d) (\<lambda>p0.
     bindR (load_tasks E schema (py_dicts (dict_get d ''tasks'')) p0) (\<lambda>p.
     bindR (mapR (plan_version_from_dict E) (py_dicts (dict_get d ''history''))) (\<lambda>hist.
     check_order (p\<lparr>p_history := hist\<rparr>)))))"

section \<open>What decoding builds\<close>

lemma check_order_Ok: "check_order p = Ok p' \<longleftrightarrow> compute_execution_order p = Some (True, p')"
  by (auto simp: check_order_def split: option.splits bool.splits)

lemma plan_header_Ok:
  "plan_header E d = Ok p \<Longrightarrow> p_tasks p = [] \<and> p_schema_version p = PLAN_SCHEMA_VERSION"
  by (auto simp: plan_header_def bindR_Ok_iff)

lemma plan_header_to_dict:
  "p_version p \<noteq> 0 \<Longrightarrow> p_created_at p \<noteq> 0 \<Longrightarrow> p_schema_version p = PLAN_SCHEMA_VERSION \<Longrightarrow>
   plan_header E (plan_to_dict p) = Ok (p\<lparr>p_tasks := [], p_history := [], p_execution_order := []\<rparr>)"
  by (simp add: plan_header_def plan_to_dict_def)

lemma plan_to_dict_get:
  "dict_get (plan_to_dict p) ''schema_version'' = PInt (p_schema_version p)"
  "dict_get (plan_to_dict p) ''tasks'' = PList (map (\<lambda>t. PDict (task_to_dict t)) (all_tasks p))"
  "dict_get (plan_to_dict p) ''history'' =
     PList (map (\<lambda>v. PDict (plan_version_to_dict v)) (p_history p))"
  by (simp_all add: plan_to_dict_def)

lemma load_tasks_schema: "load_tasks E s ds p = Ok p' \<Longrightarrow> p_schema_version p' = p_schema_version p"
  by (induction ds arbitrary: p) (fastforce simp: bindR_Ok_iff add_task_def)+

lemma plan_wf_empty: "p_tasks p = [] \<Longrightarrow> plan_wf p \<and> dependents_complete (p_tasks p)"
  by (simp add: plan_wf_def tasks_wf_def dependents_complete_def)

lemma load_tasks_invariant:
  "load_tasks E schema ds p = Ok p' \<Longrightarrow> plan_wf p \<Longrightarrow> dependents_complete (p_tasks p)
     \<Longrightarrow> plan_wf p' \<and> dependents_complete (p_tasks p')"
proof (induction ds arbitrary: p)
  case (Cons d ds)
  then obtain t where "load_tasks E schema ds (add_task (migrate_task schema t) p) = Ok p'"
    by (auto simp: bindR_Ok_iff)
  with Cons added_tasks_wf added_tasks_complete show ?case by (simp add: plan_wf_def)
qed simp

text \<open>A property of the entries that does not look at the dependents survives \<open>add_task\<close>.\<close>

lemma added_tasks_all:
  assumes "\<And>t ds. Q (t\<lparr>t_dependents := ds\<rparr>) = Q t"
    and "\<forall>k u. map_of ts k = Some u \<longrightarrow> Q u" and "Q t"
  shows "\<forall>k u. map_of (added_tasks t ts) k = Some u \<longrightarrow> Q u"
proof (intro allI impI)
  fix k u assume "map_of (added_tasks t ts) k = Some u"
  then obtain v where v: "map_of (dict_set (t_id t) t ts) k = Some v"
    "u = v\<lparr>t_dependents := t_dependents u\<rparr>"
    using extends_tasks_obtain[OF added_tasks_extends] by metis
  then have "Q v" using assms by (auto split: if_splits)
  with v(2) assms(1) show "Q u" by metis
qed

lemma load_tasks_migrated:
  "load_tasks E 1 ds p = Ok p' \<Longrightarrow> \<forall>k u. map_of (p_tasks p) k = Some u \<longrightarrow> t_status u \<noteq> RUNNING
     \<Longrightarrow> \<forall>k u. map_of (p_tasks p') k = Some u \<longrightarrow> t_status u \<noteq> RUNNING"
proof (induction ds arbitrary: p)
  case (Cons d ds)
  then obtain t where load: "load_tasks E 1 ds (add_task (migrate_task 1 t) p) = Ok p'"
    by (auto simp: bindR_Ok_iff)
  have "t_status (migrate_task 1 t) \<noteq> RUNNING" by (simp add: migrate_task_def)
  then have "\<forall>k u. map_of (added_tasks (migrate_task 1 t) (p_tasks p)) k = Some u
      \<longrightarrow> t_status u \<noteq> RUNNING"
    using Cons.prems(2) by (intro added_tasks_all) auto
  with Cons.IH[OF load] show ?case by simp
qed simp

section \<open>Re-adding the tasks of a plan\<close>

lemma modify_task_same:
  "(\<And>u. map_of ts k = Some u \<Longrightarrow> f u = u) \<Longrightarrow> modify_task k f ts = ts"
  by (auto simp: modify_task_def update_triv split: option.splits)

lemma foldl_unchanged: "(\<And>x. x \<in> set xs \<Longrightarrow> f a x = a) \<Longrightarrow> foldl f a xs = a"
  by (induction xs) auto

lemma link_dependencies_same:
  "(\<And>d u. d \<in> set (t_dependencies t) \<Longrightarrow> map_of ts d = Some u \<Longrightarrow> t_id t \<in> set (t_dependents u))
     \<Longrightarrow> link_dependencies t ts = ts"
  unfolding link_dependencies_def
  by (intro foldl_unchanged modify_task_same) (simp add: add_dependent_def)

lemma link_dependents_same:
  assumes "\<And>e u. e \<in> set (dict_values ts) \<Longrightarrow> t_id t \<in> set (t_dependencies e)
       \<Longrightarrow> map_of ts (t_id t) = Some u \<Longrightarrow> t_id e \<in> set (t_dependents u)"
  shows "link_dependents t ts = ts"
  unfolding link_dependents_def
proof (rule foldl_unchanged)
  fix e assume e: "e \<in> set (dict_values ts)"
  have "modify_task (t_id t) (add_dependent (t_id e)) ts = ts" if "t_id t \<in> set (t_dependencies e)"
    using assms[OF e that] by (intro modify_task_same) (simp add: add_dependent_def)
  then show "(if t_id t \<in> set (t_dependencies e)
      then modify_task (t_id t) (add_dependent (t_id e)) ts else ts) = ts" by simp
qed

lemma added_tasks_snoc:
  assumes wf: "tasks_wf (ts @ (k, t) # rest)" and comp: "dependents_complete (ts @ (k, t) # rest)"
  shows "added_tasks t ts = ts @ [(k, t)]"
proof -
  let ?all = "ts @ (k, t) # rest"
  have k: "t_id t = k" using wf by (auto simp: tasks_wf_def)
  have fresh: "k \<notin> set (dict_keys ts)" using wf by (auto simp: tasks_wf_def)
  have sub: "map_of ?all x = Some u" if "map_of (ts @ [(k, t)]) x = Some u" for x u
    using map_of_SomeD[OF that] tasks_wf_distinct[OF wf] map_of_Some_iff_set[of ?all x u] by auto
  have kt: "map_of ?all k = Some t" using fresh by (simp add: key_iff_map_of map_add_def)
  have set: "dict_set (t_id t) t ts = ts @ [(k, t)]" using k fresh by (simp add: dict_keys_set_fresh)
  have "link_dependencies t (ts @ [(k, t)]) = ts @ [(k, t)]"
    using comp sub kt k by (intro link_dependencies_same) (metis dependents_complete_def)
  moreover have "link_dependents t (ts @ [(k, t)]) = ts @ [(k, t)]"
  proof (rule link_dependents_same)
    fix e u assume e: "e \<in> set (dict_values (ts @ [(k, t)]))" "t_id t \<in> set (t_dependencies e)"
      "map_of (ts @ [(k, t)]) (t_id t) = Some u"
    have "e \<in> set (dict_values ?all)" using e(1) by auto
    with wf have "map_of ?all (t_id e) = Some e" by (rule tasks_wf_value)
    with e sub[OF e(3)] comp show "t_id e \<in> set (t_dependents u)"
      by (metis dependents_complete_def)
  qed
  ultimately show ?thesis by (simp add: added_tasks_def set)
qed

lemma load_tasks_readd:
  assumes "tasks_wf (done @ todo)" and "dependents_complete (done @ todo)"
    and "p_tasks p = done" and "p_execution_order p = []"
  shows "load_tasks E 2 (map task_to_dict (dict_values todo)) p = Ok (p\<lparr>p_tasks := done @ todo\<rparr>)"
  using assms
proof (induction todo arbitrary: "done" p)
  case Nil
  then show ?case by simp
next
  case (Cons kt todo)
  obtain k t where kt: "kt = (k, t)" by fastforce
  have "add_task t p = p\<lparr>p_tasks := done @ [kt]\<rparr>"
    using added_tasks_snoc[of "done" k t todo] Cons.prems kt
    by (simp add: add_task_def flip: added_tasks_def)
  with Cons.IH[of "done @ [kt]" "p\<lparr>p_tasks := done @ [kt]\<rparr>"] Cons.prems show ?case
    by (simp add: kt migrate_task_def)
qed

section \<open>Properties\<close>

lemma plan_version_roundtrip:
  assumes "pv_version v \<noteq> 0" and "pv_created_at v \<noteq> 0"
  shows "plan_version_from_dict E (plan_version_to_dict v) = Ok v"
proof -
  have "mapR (task_from_dict E) (map task_to_dict (pv_tasks v)) = Ok (pv_tasks v)"
    by (rule mapR_map_Ok) simp
  with assms show ?thesis
    by (simp add: plan_version_from_dict_def plan_version_to_dict_def)
qed

lemma plan_history_roundtrip:
  assumes "\<forall>v\<in>set vs. pv_version v \<noteq> 0 \<and> pv_created_at v \<noteq> 0"
  shows "mapR (plan_version_from_dict E) (map plan_version_to_dict vs) = Ok vs"
  using assms by (intro mapR_map_Ok) (simp add: plan_version_roundtrip)

lemma compute_order_tasks_only:
  "compute_execution_order p = Some (b, p') \<Longrightarrow> p_tasks q = p_tasks p
     \<Longrightarrow> compute_execution_order q =
           Some (b, if b then q\<lparr>p_execution_order := p_execution_order p'\<rparr> else q)"
  by (auto simp: compute_execution_order_def split: option.splits bool.splits)

text \<open>
  a plan written to its durable dictionary and read back is the same plan with its
  execution order computed: no task, link, attempt, result or revision of the history is
  lost. The conditions are those the decoder's defaults need (a version or a timestamp of
  zero reads as absent).
\<close>

theorem plan_roundtrip:
  assumes "plan_wf p" and "dependents_complete (p_tasks p)" and "acyclic_tasks (p_tasks p)"
    and "p_schema_version p = PLAN_SCHEMA_VERSION" and "p_version p \<noteq> 0" and "p_created_at p \<noteq> 0"
    and "\<forall>v\<in>set (p_history p). pv_version v \<noteq> 0 \<and> pv_created_at v \<noteq> 0"
  shows "\<exists>ord. compute_execution_order p = Some (True, p\<lparr>p_execution_order := ord\<rparr>) \<and>
    plan_from_dict E (plan_to_dict p) = Ok (p\<lparr>p_execution_order := ord\<rparr>)"
  using assms(1)
proof (cases rule: compute_order_cases)
  case (sorted p')
  let ?q = "p\<lparr>p_tasks := [], p_history := [], p_execution_order := []\<rparr>"
  have "load_tasks E 2 (map task_to_dict (all_tasks p)) ?q =
      Ok (?q\<lparr>p_tasks := p_tasks p\<rparr>)"
    using load_tasks_readd[of "[]" "p_tasks p" ?q] assms by (simp add: plan_wf_def all_tasks_def)
  moreover have "compute_execution_order (p\<lparr>p_execution_order := []\<rparr>) =
      Some (True, p\<lparr>p_execution_order := p_execution_order p'\<rparr>)"
    using compute_order_tasks_only[OF sorted(1), of "p\<lparr>p_execution_order := []\<rparr>"] by simp
  ultimately have "plan_from_dict E (plan_to_dict p) = Ok (p\<lparr>p_execution_order := p_execution_order p'\<rparr>)"
    using assms(4-7) plan_history_roundtrip[OF assms(7)]
    by (simp add: plan_from_dict_def plan_to_dict_get plan_header_to_dict check_order_Ok
        PLAN_SCHEMA_VERSION_def)
  with sorted show ?thesis by (intro exI[of _ "p_execution_order p'"]) simp
next
  case cyclic
  with assms(3) show ?thesis by simp
qed

theorem plan_roundtrip_witness:
  "\<exists>ord. plan_from_dict demo_env (plan_to_dict demo_plan) = Ok (demo_plan\<lparr>p_execution_order := ord\<rparr>)"
proof -
  have "p_schema_version demo_plan = PLAN_SCHEMA_VERSION" "p_version demo_plan \<noteq> 0"
    "p_created_at demo_plan \<noteq> 0" "p_history demo_plan = []"
    by (simp_all add: demo_plan_def add_task_def new_plan_def)
  then show ?thesis
    using plan_roundtrip[OF demo_plan_wf demo_plan_acyclic, of demo_env] by auto
qed

text \<open>
  whatever dictionary \<^verbatim>\<open>from_dict\<close> accepts, the plan it returns has schema version 2, one
  entry per task identifier, complete back links, no dependency cycle and a topological
  order in its cache; and when the dictionary says schema version 1, no task is left in
  state \<open>RUNNING\<close>.
\<close>

theorem plan_from_dict_invariant:
  assumes "plan_from_dict E d = Ok p"
  shows "p_schema_version p = PLAN_SCHEMA_VERSION \<and> plan_wf p \<and>
    dependents_complete (p_tasks p) \<and> acyclic_tasks (p_tasks p) \<and> order_cache_ok p \<and>
    (dict_get d ''schema_version'' = PInt 1 \<longrightarrow>
       (\<forall>k t. map_of (p_tasks p) k = Some t \<longrightarrow> t_status t \<noteq> RUNNING))"
proof -
  from assms obtain schema p0 q hist where
    schema: "py_int E (py_or (dict_get d ''schema_version'') (PInt 0)) = Ok schema" and
    p0: "p_tasks p0 = []" "p_schema_version p0 = PLAN_SCHEMA_VERSION" and
    load: "load_tasks E schema (py_dicts (dict_get d ''tasks'')) p0 = Ok q" and
    comp: "compute_execution_order (q\<lparr>p_history := hist\<rparr>) = Some (True, p)"
    by (auto simp: plan_from_dict_def bindR_Ok_iff check_order_Ok dest!: plan_header_Ok
        split: if_splits)
  have inv: "plan_wf q \<and> dependents_complete (p_tasks q)"
    using load_tasks_invariant[OF load] plan_wf_empty[OF p0(1)] by blast
  then have wf: "plan_wf (q\<lparr>p_history := hist\<rparr>)" by (simp add: plan_wf_def)
  have ver: "p_schema_version q = PLAN_SCHEMA_VERSION" using load_tasks_schema[OF load] p0(2) by simp
  have mig: "dict_get d ''schema_version'' = PInt 1 \<longrightarrow>
      (\<forall>k t. map_of (p_tasks q) k = Some t \<longrightarrow> t_status t \<noteq> RUNNING)"
    using load_tasks_migrated[of E _ p0 q] load p0(1) schema by auto
  from wf comp show ?thesis
  proof (cases rule: compute_order_cases)
    case (sorted p')
    then have p: "p = q\<lparr>p_history := hist, p_execution_order := p_execution_order p\<rparr>"
      using comp by simp
    then have eqs: "p_tasks p = p_tasks q" "p_schema_version p = p_schema_version q"
      by (metis plan.select_convs plan.surjective plan.update_convs)+
    have "topological (p_tasks q) (p_execution_order p)" using sorted comp by simp
    with eqs inv ver mig show ?thesis
      using compute_order_True_acyclic[OF wf comp]
      by (simp add: plan_wf_def order_cache_ok_def)
  qed (simp add: comp)
qed

text \<open>A version 1 dictionary with one task caught in state \<open>RUNNING\<close>.\<close>

definition demo_v1_dict :: pydict where
  "demo_v1_dict = [(''schema_version'', PInt 1), (''id'', PStr ''p''),
     (''tasks'', PList [PDict [(''id'', PStr ''a''), (''status'', PStr ''RUNNING''),
                              (''attempt'', PInt 2)]])]"

theorem plan_from_dict_invariant_witness:
  "\<exists>p. plan_from_dict demo_env demo_v1_dict = Ok p \<and> acyclic_tasks (p_tasks p) \<and>
     (\<forall>k t. map_of (p_tasks p) k = Some t \<longrightarrow> t_status t \<noteq> RUNNING)"
proof -
  have "case plan_from_dict demo_env demo_v1_dict of Inl _ \<Rightarrow> False | Inr p \<Rightarrow>
      map (\<lambda>t. (t_status t, t_attempt t)) (all_tasks p) = [(PENDING, 1)]"
    by code_simp
  then obtain p where p: "plan_from_dict demo_env demo_v1_dict = Ok p"
    by (auto split: sum.splits)
  have "dict_get demo_v1_dict ''schema_version'' = PInt 1" by (simp add: demo_v1_dict_def)
  with p plan_from_dict_invariant[OF p] show ?thesis by blast
qed

end
