(* ===== verification/Progress.thy ===== *)
theory Progress
  imports Prelude
begin

text \<open>
  The no-progress detector, \<^verbatim>\<open>runtime/progress.py\<close>: the policy and its validation, the
  durable detector state, and \<^verbatim>\<open>ProgressDetector.observe\<close>, which turns one observation into
  CONTINUE, RECOVER or TERMINATE. The fingerprints (SHA-256 texts) are opaque strings here.
\<close>

section \<open>Policy\<close>

datatype detector_type = IDENTICAL_ACTION_LOOP | REPEATED_ERROR | ACTION_CYCLE | STATE_STAGNATION

datatype progress_decision_type = ProgressCONTINUE | ProgressRECOVER | ProgressTERMINATE

fun detector_value :: "detector_type \<Rightarrow> string" where
  "detector_value IDENTICAL_ACTION_LOOP = ''IDENTICAL_ACTION_LOOP''"
| "detector_value REPEATED_ERROR = ''REPEATED_ERROR''"
| "detector_value ACTION_CYCLE = ''ACTION_CYCLE''"
| "detector_value STATE_STAGNATION = ''STATE_STAGNATION''"

record progress_policy =
  pp_enabled :: bool
  pp_max_identical_actions :: int
  pp_max_identical_errors :: int
  pp_max_cycle_repetitions :: int
  pp_max_stagnant_steps :: int
  pp_max_recovery_attempts :: int
  pp_history_limit :: int

definition default_progress_policy :: progress_policy where
  "default_progress_policy = \<lparr>pp_enabled = True, pp_max_identical_actions = 4,
     pp_max_identical_errors = 3, pp_max_cycle_repetitions = 3, pp_max_stagnant_steps = 8,
     pp_max_recovery_attempts = 1, pp_history_limit = 32\<rparr>"

text \<open>\<open>__post_init__\<close>: the constructor returns the policy or raises.\<close>

definition threshold_ok :: "int \<Rightarrow> bool" where
  "threshold_ok v \<longleftrightarrow> \<not> (v < 2 \<or> v > 100)"

definition ProgressPolicy :: "progress_policy \<Rightarrow> progress_policy res" where
  "ProgressPolicy pol =
     bindR (guardR (threshold_ok (pp_max_identical_actions pol))
       (ValueError ''max_identical_actions must be an integer between 2 and 100'')) (\<lambda>_.
     bindR (guardR (threshold_ok (pp_max_identical_errors pol))
       (ValueError ''max_identical_errors must be an integer between 2 and 100'')) (\<lambda>_.
     bindR (guardR (threshold_ok (pp_max_cycle_repetitions pol))
       (ValueError ''max_cycle_repetitions must be an integer between 2 and 100'')) (\<lambda>_.
     bindR (guardR (threshold_ok (pp_max_stagnant_steps pol))
       (ValueError ''max_stagnant_steps must be an integer between 2 and 100'')) (\<lambda>_.
     bindR (guardR (0 \<le> pp_max_recovery_attempts pol \<and> pp_max_recovery_attempts pol \<le> 10)
       (ValueError ''max_recovery_attempts must be between 0 and 10'')) (\<lambda>_.
     bindR (guardR (8 \<le> pp_history_limit pol \<and> pp_history_limit pol \<le> 256)
       (ValueError ''history_limit must be between 8 and 256'')) (\<lambda>_.
     bindR (guardR (\<not> pp_history_limit pol <
          max (max (pp_max_identical_actions pol) (pp_max_identical_errors pol))
              (max (pp_max_stagnant_steps pol) (pp_max_cycle_repetitions pol * 4)))
       (ValueError ''history_limit is too small for the configured thresholds'')) (\<lambda>_.
     Ok pol)))))))"

definition progress_policy_to_dict :: "progress_policy \<Rightarrow> pydict" where
  "progress_policy_to_dict pol = [
     (''enabled'', PBool (pp_enabled pol)),
     (''max_identical_actions'', PInt (pp_max_identical_actions pol)),
     (''max_identical_errors'', PInt (pp_max_identical_errors pol)),
     (''max_cycle_repetitions'', PInt (pp_max_cycle_repetitions pol)),
     (''max_stagnant_steps'', PInt (pp_max_stagnant_steps pol)),
     (''max_recovery_attempts'', PInt (pp_max_recovery_attempts pol)),
     (''history_limit'', PInt (pp_history_limit pol))]"

definition progress_policy_from_dict :: "pyenv \<Rightarrow> pydict \<Rightarrow> progress_policy res" where
  "progress_policy_from_dict E d =
     bindR (py_int E (dict_get_default d ''max_identical_actions'' (PInt 4))) (\<lambda>a.
     bindR (py_int E (dict_get_default d ''max_identical_errors'' (PInt 3))) (\<lambda>e.
     bindR (py_int E (dict_get_default d ''max_cycle_repetitions'' (PInt 3))) (\<lambda>c.
     bindR (py_int E (dict_get_default d ''max_stagnant_steps'' (PInt 8))) (\<lambda>s.
     bindR (py_int E (dict_get_default d ''max_recovery_attempts'' (PInt 1))) (\<lambda>r.
     bindR (py_int E (dict_get_default d ''history_limit'' (PInt 32))) (\<lambda>h.
     ProgressPolicy \<lparr>pp_enabled = truthy (dict_get_default d ''enabled'' (PBool True)),
       pp_max_identical_actions = a, pp_max_identical_errors = e, pp_max_cycle_repetitions = c,
       pp_max_stagnant_steps = s, pp_max_recovery_attempts = r, pp_history_limit = h\<rparr>))))))"

section \<open>Observations and detector state\<close>

record observation =
  ob_operation_id :: string
  ob_step :: int
  ob_action :: "string option"
  ob_error :: "string option"
  ob_state :: "string option"
  ob_eligible :: bool

record progress_state =
  ps_action_history :: "string list"
  ps_error_history :: "string list"
  ps_progress_history :: "string list"
  ps_processed_operations :: "string list"
  ps_action_repeat_count :: int
  ps_error_repeat_count :: int
  ps_stagnant_steps :: int
  ps_recovery_attempts :: int
  ps_recovery_signal_pending :: bool
  ps_last_progress_step :: int
  ps_detected :: bool
  ps_detector_type :: "string option"
  ps_cycle_length :: "int option"
  ps_repetition_count :: int
  ps_last_action_fingerprint :: "string option"
  ps_last_error_fingerprint :: "string option"

definition empty_progress_state :: progress_state where
  "empty_progress_state = \<lparr>ps_action_history = [], ps_error_history = [],
     ps_progress_history = [], ps_processed_operations = [], ps_action_repeat_count = 0,
     ps_error_repeat_count = 0, ps_stagnant_steps = 0, ps_recovery_attempts = 0,
     ps_recovery_signal_pending = False, ps_last_progress_step = 0, ps_detected = False,
     ps_detector_type = None, ps_cycle_length = None, ps_repetition_count = 0,
     ps_last_action_fingerprint = None, ps_last_error_fingerprint = None\<rparr>"

record progress_decision =
  pd_decision :: progress_decision_type
  pd_detector_type :: "detector_type option"
  pd_repetition_count :: int
  pd_cycle_length :: "int option"
  pd_duplicate :: bool

definition plain_decision :: "progress_decision_type \<Rightarrow> progress_decision" where
  "plain_decision d = \<lparr>pd_decision = d, pd_detector_type = None, pd_repetition_count = 0,
     pd_cycle_length = None, pd_duplicate = False\<rparr>"

definition append_bounded :: "'a list \<Rightarrow> 'a \<Rightarrow> int \<Rightarrow> 'a list" where
  "append_bounded values v limit =
     (let vs = values @ [v]
      in if int (length vs) > limit then drop (nat (int (length vs) - limit)) vs else vs)"

text \<open>An optional text that is neither missing nor empty.\<close>

definition present :: "string option \<Rightarrow> string option" where
  "present x = (case x of None \<Rightarrow> None | Some s \<Rightarrow> if s = [] then None else Some s)"

section \<open>observe\<close>

definition meaningful_progress :: "progress_state \<Rightarrow> observation \<Rightarrow> bool" where
  "meaningful_progress st ob =
     (case present (ob_state ob) of None \<Rightarrow> False | Some s \<Rightarrow> s \<notin> set (ps_progress_history st))"

definition note_progress :: "progress_policy \<Rightarrow> observation \<Rightarrow> progress_state \<Rightarrow> progress_state" where
  "note_progress pol ob st =
     (if meaningful_progress st ob
      then st\<lparr>ps_progress_history := append_bounded (ps_progress_history st)
                 (case ob_state ob of Some s \<Rightarrow> s | None \<Rightarrow> ''None'') (pp_history_limit pol),
              ps_stagnant_steps := 0,
              ps_last_progress_step := ob_step ob,
              ps_recovery_attempts := 0,
              ps_recovery_signal_pending := False,
              ps_detected := False,
              ps_detector_type := None,
              ps_cycle_length := None,
              ps_repetition_count := 0,
              ps_action_history := [],
              ps_error_history := []\<rparr>
      else if ob_eligible ob then st\<lparr>ps_stagnant_steps := ps_stagnant_steps st + 1\<rparr>
      else st)"

definition note_action :: "progress_policy \<Rightarrow> bool \<Rightarrow> observation \<Rightarrow> progress_state \<Rightarrow> progress_state" where
  "note_action pol progressed ob st =
     (case present (ob_action ob) of
        Some action \<Rightarrow>
          st\<lparr>ps_action_repeat_count :=
               (if ps_last_action_fingerprint st = Some action \<and> \<not> progressed
                then ps_action_repeat_count st + 1 else 1),
             ps_last_action_fingerprint := Some action,
             ps_action_history := append_bounded (ps_action_history st) action (pp_history_limit pol)\<rparr>
      | None \<Rightarrow> st\<lparr>ps_action_repeat_count := 0\<rparr>)"

definition note_error :: "progress_policy \<Rightarrow> bool \<Rightarrow> observation \<Rightarrow> progress_state \<Rightarrow> progress_state" where
  "note_error pol progressed ob st =
     (case present (ob_error ob) of
        Some err \<Rightarrow>
          st\<lparr>ps_error_repeat_count :=
               (if ps_last_error_fingerprint st = Some err \<and> \<not> progressed
                then ps_error_repeat_count st + 1 else 1),
             ps_last_error_fingerprint := Some err,
             ps_error_history := append_bounded (ps_error_history st) err (pp_history_limit pol)\<rparr>
      | None \<Rightarrow> st\<lparr>ps_error_repeat_count := 0, ps_last_error_fingerprint := None\<rparr>)"

definition chunks_equal :: "'a list \<Rightarrow> nat \<Rightarrow> nat \<Rightarrow> bool" where
  "chunks_equal tail len reps =
     list_all (\<lambda>k. take len (drop (k * len) tail) = take len tail) [0..<reps]"

fun detect_cycle_from :: "nat list \<Rightarrow> string list \<Rightarrow> nat \<Rightarrow> nat option" where
  "detect_cycle_from [] history required = None"
| "detect_cycle_from (len # lens) history required =
     (if length history < len * required then detect_cycle_from lens history required
      else if chunks_equal (py_last (len * required) history) len required then Some len
      else detect_cycle_from lens history required)"

definition detect_cycle :: "string list \<Rightarrow> nat \<Rightarrow> nat option" where
  "detect_cycle history required = detect_cycle_from [2, 3, 4] history required"

text \<open>The detector that fires, its repetition count and the cycle length it found.\<close>

definition detect :: "progress_policy \<Rightarrow> progress_state \<Rightarrow> (detector_type \<times> int \<times> int option) option" where
  "detect pol st =
     (if ps_error_repeat_count st \<ge> pp_max_identical_errors pol
      then Some (REPEATED_ERROR, ps_error_repeat_count st, None)
      else if ps_action_repeat_count st \<ge> pp_max_identical_actions pol
      then Some (IDENTICAL_ACTION_LOOP, ps_action_repeat_count st, None)
      else case detect_cycle (ps_action_history st) (nat (pp_max_cycle_repetitions pol)) of
             Some len \<Rightarrow> Some (ACTION_CYCLE, pp_max_cycle_repetitions pol, Some (int len))
           | None \<Rightarrow>
               if ps_stagnant_steps st \<ge> pp_max_stagnant_steps pol
               then Some (STATE_STAGNATION, ps_stagnant_steps st, None)
               else None)"

definition reset_detection_window :: "progress_state \<Rightarrow> progress_state" where
  "reset_detection_window st =
     st\<lparr>ps_action_history := [], ps_error_history := [], ps_action_repeat_count := 0,
        ps_error_repeat_count := 0, ps_stagnant_steps := 0,
        ps_last_action_fingerprint := None, ps_last_error_fingerprint := None\<rparr>"

definition decide_progress :: "progress_policy \<Rightarrow> progress_state \<Rightarrow> progress_decision \<times> progress_state" where
  "decide_progress pol st =
     (case detect pol st of
        None \<Rightarrow> (plain_decision ProgressCONTINUE, st)
      | Some (det, reps, len) \<Rightarrow>
          let st1 = st\<lparr>ps_detected := True, ps_detector_type := Some (detector_value det),
                       ps_cycle_length := len, ps_repetition_count := reps\<rparr>;
              dec = (\<lambda>d. \<lparr>pd_decision = d, pd_detector_type = Some det, pd_repetition_count = reps,
                         pd_cycle_length = len, pd_duplicate = False\<rparr>)
          in if ps_recovery_attempts st1 < pp_max_recovery_attempts pol
             then (dec ProgressRECOVER, reset_detection_window
                     (st1\<lparr>ps_recovery_attempts := ps_recovery_attempts st1 + 1,
                          ps_recovery_signal_pending := True\<rparr>))
             else (dec ProgressTERMINATE, st1\<lparr>ps_recovery_signal_pending := False\<rparr>))"

definition observe :: "progress_policy \<Rightarrow> progress_state \<Rightarrow> observation
    \<Rightarrow> progress_decision \<times> progress_state" where
  "observe pol st ob =
     (if \<not> pp_enabled pol then (plain_decision ProgressCONTINUE, st)
      else if ob_operation_id ob \<in> set (ps_processed_operations st)
      then ((plain_decision ProgressCONTINUE)\<lparr>pd_duplicate := True\<rparr>, st)
      else let st0 = st\<lparr>ps_processed_operations := append_bounded (ps_processed_operations st)
                          (ob_operation_id ob) (pp_history_limit pol)\<rparr>;
               progressed = meaningful_progress st0 ob;
               st1 = note_progress pol ob st0;
               st2 = note_action pol progressed ob st1;
               st3 = note_error pol progressed ob st2
           in decide_progress pol st3)"

definition mark_recovery_delivered :: "progress_state \<Rightarrow> progress_state" where
  "mark_recovery_delivered st = st\<lparr>ps_recovery_signal_pending := False\<rparr>"

fun observe_all :: "progress_policy \<Rightarrow> progress_state \<Rightarrow> observation list
    \<Rightarrow> progress_decision list \<times> progress_state" where
  "observe_all pol st [] = ([], st)"
| "observe_all pol st (ob # obs) =
     (let (d, st1) = observe pol st ob; (ds, st2) = observe_all pol st1 obs in (d # ds, st2))"

section \<open>Durable form\<close>

definition progress_state_to_dict :: "progress_state \<Rightarrow> pydict" where
  "progress_state_to_dict st = [
     (''action_history'', PList (map PStr (ps_action_history st))),
     (''error_history'', PList (map PStr (ps_error_history st))),
     (''progress_history'', PList (map PStr (ps_progress_history st))),
     (''processed_operations'', PList (map PStr (ps_processed_operations st))),
     (''action_repeat_count'', PInt (ps_action_repeat_count st)),
     (''error_repeat_count'', PInt (ps_error_repeat_count st)),
     (''stagnant_steps'', PInt (ps_stagnant_steps st)),
     (''recovery_attempts'', PInt (ps_recovery_attempts st)),
     (''recovery_signal_pending'', PBool (ps_recovery_signal_pending st)),
     (''last_progress_step'', PInt (ps_last_progress_step st)),
     (''detected'', PBool (ps_detected st)),
     (''detector_type'', opt_val PStr (ps_detector_type st)),
     (''cycle_length'', opt_val PInt (ps_cycle_length st)),
     (''repetition_count'', PInt (ps_repetition_count st)),
     (''last_action_fingerprint'', opt_val PStr (ps_last_action_fingerprint st)),
     (''last_error_fingerprint'', opt_val PStr (ps_last_error_fingerprint st))]"

definition optional_int :: "pyenv \<Rightarrow> pyval \<Rightarrow> int option res" where
  "optional_int E v = (if v = PNone then Ok None else bindR (py_int E v) (\<lambda>i. Ok (Some i)))"

lemma optional_int_opt_val [simp]: "optional_int E (opt_val PInt x) = Ok x"
  by (cases x) (simp_all add: optional_int_def)

definition progress_state_from_dict :: "pyenv \<Rightarrow> pydict \<Rightarrow> progress_state res" where
  "progress_state_from_dict E d =
     bindR (py_int E (py_or (dict_get d ''action_repeat_count'') (PInt 0))) (\<lambda>arc.
     bindR (py_int E (py_or (dict_get d ''error_repeat_count'') (PInt 0))) (\<lambda>erc.
     bindR (py_int E (py_or (dict_get d ''stagnant_steps'') (PInt 0))) (\<lambda>stag.
     bindR (py_int E (py_or (dict_get d ''recovery_attempts'') (PInt 0))) (\<lambda>rec.
     bindR (py_int E (py_or (dict_get d ''last_progress_step'') (PInt 0))) (\<lambda>last.
     bindR (optional_int E (dict_get d ''cycle_length'')) (\<lambda>cyc.
     bindR (py_int E (py_or (dict_get d ''repetition_count'') (PInt 0))) (\<lambda>rep.
     Ok \<lparr>ps_action_history = py_strings E (dict_get d ''action_history''),
        ps_error_history = py_strings E (dict_get d ''error_history''),
        ps_progress_history = py_strings E (dict_get d ''progress_history''),
        ps_processed_operations = py_strings E (dict_get d ''processed_operations''),
        ps_action_repeat_count = arc, ps_error_repeat_count = erc, ps_stagnant_steps = stag,
        ps_recovery_attempts = rec,
        ps_recovery_signal_pending = truthy (dict_get d ''recovery_signal_pending''),
        ps_last_progress_step = last, ps_detected = truthy (dict_get d ''detected''),
        ps_detector_type = py_optional_str E (dict_get d ''detector_type''),
        ps_cycle_length = cyc, ps_repetition_count = rep,
        ps_last_action_fingerprint = py_optional_str E (dict_get d ''last_action_fingerprint''),
        ps_last_error_fingerprint = py_optional_str E (dict_get d ''last_error_fingerprint'')\<rparr>)))))))"

definition progress_attributes :: "progress_state \<Rightarrow> pydict" where
  "progress_attributes st = [
     (''progress.action_repeat_count'', PInt (ps_action_repeat_count st)),
     (''progress.error_repeat_count'', PInt (ps_error_repeat_count st)),
     (''progress.stagnant_steps'', PInt (ps_stagnant_steps st)),
     (''progress.detected'', PBool (ps_detected st)),
     (''progress.detector_type'', opt_val PStr (ps_detector_type st)),
     (''progress.cycle_length'', opt_val PInt (ps_cycle_length st)),
     (''progress.recovery_attempts'', PInt (ps_recovery_attempts st)),
     (''progress.recovery_triggered'', PBool (ps_recovery_signal_pending st)),
     (''progress.last_progress_step'', PInt (ps_last_progress_step st))]"

definition no_progress_metadata :: "string \<Rightarrow> int \<Rightarrow> progress_state \<Rightarrow> pydict" where
  "no_progress_metadata run_id step st = [
     (''reason'', opt_val PStr (ps_detector_type st)),
     (''detector_type'', opt_val PStr (ps_detector_type st)),
     (''repetition_count'', PInt (ps_repetition_count st)),
     (''cycle_length'', opt_val PInt (ps_cycle_length st)),
     (''action_fingerprint'', opt_val PStr (ps_last_action_fingerprint st)),
     (''error_fingerprint'', opt_val PStr (ps_last_error_fingerprint st)),
     (''recovery_attempts'', PInt (ps_recovery_attempts st)),
     (''run_id'', PStr run_id),
     (''step'', PInt step)]"

end
