(* ===== verification/ProgressProps.thy ===== *)
theory ProgressProps
  imports Progress
begin

text \<open>
  What the detector guarantees: bounded histories, at most the configured number of
  recoveries between two moments of progress, no false alarm on progress, and that a run
  that makes no progress is terminated within a bound given by the policy.
\<close>

section \<open>Valid policies\<close>

definition valid_policy :: "progress_policy \<Rightarrow> bool" where
  "valid_policy pol \<longleftrightarrow> ProgressPolicy pol = Ok pol"

lemma valid_policyD:
  assumes "valid_policy pol"
  shows "2 \<le> pp_max_identical_actions pol" "2 \<le> pp_max_identical_errors pol"
    "2 \<le> pp_max_cycle_repetitions pol" "2 \<le> pp_max_stagnant_steps pol"
    "0 \<le> pp_max_recovery_attempts pol" "8 \<le> pp_history_limit pol"
  using assms by (auto simp: valid_policy_def ProgressPolicy_def bindR_Ok_iff threshold_ok_def)

lemma default_policy_valid: "valid_policy default_progress_policy"
  by (simp add: valid_policy_def ProgressPolicy_def default_progress_policy_def threshold_ok_def)

section \<open>The parts of observe\<close>

lemma length_append_bounded: "0 \<le> limit \<Longrightarrow> int (length (append_bounded xs x limit)) \<le> limit"
  by (auto simp: append_bounded_def Let_def)

lemma set_append_bounded: "set (append_bounded xs x limit) \<subseteq> insert x (set xs)"
  by (auto simp: append_bounded_def Let_def dest: in_set_dropD)

lemma append_bounded_last: "0 < limit \<Longrightarrow> x \<in> set (append_bounded xs x limit)"
  by (auto simp: append_bounded_def Let_def)

lemma length_append_bounded_le: "length (append_bounded xs x limit) \<le> Suc (length xs)"
  by (auto simp: append_bounded_def Let_def)

definition histories_bounded :: "progress_policy \<Rightarrow> progress_state \<Rightarrow> bool" where
  "histories_bounded pol st \<longleftrightarrow>
     int (length (ps_action_history st)) \<le> pp_history_limit pol \<and>
     int (length (ps_error_history st)) \<le> pp_history_limit pol \<and>
     int (length (ps_progress_history st)) \<le> pp_history_limit pol \<and>
     int (length (ps_processed_operations st)) \<le> pp_history_limit pol"

named_theorems progress_defs \<open>the definitions of the parts of \<open>observe\<close>\<close>

lemmas progress_part_defs [progress_defs] =
  note_progress_def note_action_def note_error_def decide_progress_def
  reset_detection_window_def plain_decision_def

text \<open>The state the detectors look at.\<close>

definition noted :: "progress_policy \<Rightarrow> progress_state \<Rightarrow> observation \<Rightarrow> progress_state" where
  "noted pol st ob =
     (let st0 = st\<lparr>ps_processed_operations := append_bounded (ps_processed_operations st)
                      (ob_operation_id ob) (pp_history_limit pol)\<rparr>
      in note_error pol (meaningful_progress st ob) ob
           (note_action pol (meaningful_progress st ob) ob (note_progress pol ob st0)))"

lemma meaningful_progress_cong:
  "ps_progress_history st' = ps_progress_history st
     \<Longrightarrow> meaningful_progress st' ob = meaningful_progress st ob"
  by (simp add: meaningful_progress_def split: option.splits)

lemma meaningful_progress_processed [simp]:
  "meaningful_progress (st\<lparr>ps_processed_operations := xs\<rparr>) ob = meaningful_progress st ob"
  by (rule meaningful_progress_cong) simp

lemma observe_fresh:
  "pp_enabled pol \<Longrightarrow> ob_operation_id ob \<notin> set (ps_processed_operations st)
     \<Longrightarrow> observe pol st ob = decide_progress pol (noted pol st ob)"
  by (simp add: observe_def noted_def Let_def)

lemma noted_simps:
  "ps_processed_operations (noted pol st ob) =
     append_bounded (ps_processed_operations st) (ob_operation_id ob) (pp_history_limit pol)"
  "ps_stagnant_steps (noted pol st ob) =
     (if meaningful_progress st ob then 0
      else if ob_eligible ob then ps_stagnant_steps st + 1 else ps_stagnant_steps st)"
  "ps_recovery_attempts (noted pol st ob) =
     (if meaningful_progress st ob then 0 else ps_recovery_attempts st)"
  "\<not> meaningful_progress st ob \<Longrightarrow> ps_progress_history (noted pol st ob) = ps_progress_history st"
  by (auto simp: noted_def Let_def progress_defs split: option.splits)

lemma noted_bounded:
  assumes "valid_policy pol" and "histories_bounded pol st"
  shows "histories_bounded pol (noted pol st ob)"
  using assms valid_policyD(6)[OF assms(1)]
  by (auto simp: noted_def Let_def histories_bounded_def note_progress_def note_action_def
      note_error_def length_append_bounded split: option.splits)

lemma decide_progress_state:
  assumes "decide_progress pol st = (d, st')"
  shows "ps_processed_operations st' = ps_processed_operations st"
    "ps_progress_history st' = ps_progress_history st"
    "histories_bounded pol st \<Longrightarrow> histories_bounded pol st'"
  using assms
  by (auto simp: decide_progress_def reset_detection_window_def histories_bounded_def Let_def
      split: option.splits if_splits)

text \<open>The three outcomes.\<close>

lemma decide_progress_cases [consumes 1, case_names continue recover terminate]:
  assumes "decide_progress pol st = (d, st')"
  obtains "detect pol st = None" "pd_decision d = ProgressCONTINUE" "st' = st"
  | "detect pol st \<noteq> None" "pd_decision d = ProgressRECOVER"
    "ps_recovery_attempts st < pp_max_recovery_attempts pol"
    "ps_recovery_attempts st' = ps_recovery_attempts st + 1" "ps_stagnant_steps st' = 0"
    "ps_recovery_signal_pending st'"
  | "detect pol st \<noteq> None" "pd_decision d = ProgressTERMINATE"
    "ps_recovery_attempts st \<ge> pp_max_recovery_attempts pol"
    "ps_recovery_attempts st' = ps_recovery_attempts st"
  using assms
  by (auto simp: decide_progress_def reset_detection_window_def plain_decision_def Let_def
      split: option.splits if_splits)

section \<open>A run without progress\<close>

text \<open>
  The number of further observations the policy tolerates: the recoveries left, each worth
  a full stagnation window, and the rest of the current window.
\<close>

definition patience :: "progress_policy \<Rightarrow> progress_state \<Rightarrow> int" where
  "patience pol st =
     max 0 (pp_max_recovery_attempts pol - ps_recovery_attempts st) * pp_max_stagnant_steps pol
     + max 1 (pp_max_stagnant_steps pol - ps_stagnant_steps st)"

lemma detect_stagnation:
  "pp_max_stagnant_steps pol \<le> ps_stagnant_steps st \<Longrightarrow> detect pol st \<noteq> None"
  by (auto simp: detect_def split: option.splits)

lemma patience_step:
  assumes "pp_enabled pol" and "valid_policy pol"
    and "ob_operation_id ob \<notin> set (ps_processed_operations st)"
    and "ob_eligible ob" and "\<not> meaningful_progress st ob"
    and "observe pol st ob = (d, st')" and "pd_decision d \<noteq> ProgressTERMINATE"
  shows "patience pol st' < patience pol st"
proof -
  let ?n = "noted pol st ob"
  have run: "decide_progress pol ?n = (d, st')" using assms observe_fresh by simp
  have n: "ps_stagnant_steps ?n = ps_stagnant_steps st + 1"
    "ps_recovery_attempts ?n = ps_recovery_attempts st"
    using assms by (simp_all add: noted_simps)
  from run show ?thesis
  proof (cases rule: decide_progress_cases)
    case continue
    then have "ps_stagnant_steps st + 1 < pp_max_stagnant_steps pol"
      using detect_stagnation[of pol ?n] n by (metis not_le)
    with continue n show ?thesis by (simp add: patience_def)
  next
    case recover
    let ?R = "pp_max_recovery_attempts pol - ps_recovery_attempts st"
      and ?M = "pp_max_stagnant_steps pol"
    have "patience pol st' = (?R - 1) * ?M + max 1 ?M"
      using recover n by (simp add: patience_def)
    also have "\<dots> = ?R * ?M" using valid_policyD(4)[OF assms(2)] by (simp add: algebra_simps)
    finally show ?thesis using recover n by (simp add: patience_def)
  next
    case terminate
    with assms(7) show ?thesis by simp
  qed
qed

lemma patience_pos: "valid_policy pol \<Longrightarrow> 1 \<le> patience pol st"
  using valid_policyD(4)[of pol] unfolding patience_def
  by (intro add_increasing mult_nonneg_nonneg) simp_all

lemma run_without_progress:
  assumes "pp_enabled pol" and "valid_policy pol"
    and "distinct (map ob_operation_id obs)"
    and "\<forall>ob\<in>set obs. ob_operation_id ob \<notin> set (ps_processed_operations st)"
    and "\<forall>ob\<in>set obs. ob_eligible ob \<and> \<not> meaningful_progress st ob"
    and "patience pol st \<le> int (length obs)"
  shows "\<exists>d\<in>set (fst (observe_all pol st obs)). pd_decision d = ProgressTERMINATE"
  using assms(3-6)
proof (induction obs arbitrary: st)
  case Nil
  with patience_pos[OF assms(2), of st] show ?case by simp
next
  case (Cons ob obs)
  obtain d st1 where ob: "observe pol st ob = (d, st1)" by fastforce
  show ?case
  proof (cases "pd_decision d = ProgressTERMINATE")
    case True
    with ob show ?thesis by (auto split: prod.splits)
  next
    case False
    have run: "decide_progress pol (noted pol st ob) = (d, st1)"
      using ob observe_fresh assms(1) Cons.prems by simp
    have sub: "set (ps_processed_operations st1)
        \<subseteq> insert (ob_operation_id ob) (set (ps_processed_operations st))"
      using decide_progress_state(1)[OF run] set_append_bounded by (simp add: noted_simps)
    have hist: "ps_progress_history st1 = ps_progress_history st"
      using decide_progress_state(2)[OF run] Cons.prems by (simp add: noted_simps)
    have less: "patience pol st1 < patience pol st"
      using patience_step[OF assms(1,2) _ _ _ ob False] Cons.prems by simp
    have fresh: "ob_operation_id o' \<notin> set (ps_processed_operations st1)" if "o' \<in> set obs" for o'
    proof
      assume "ob_operation_id o' \<in> set (ps_processed_operations st1)"
      with sub that Cons.prems(2) have "ob_operation_id o' = ob_operation_id ob" by auto
      with that Cons.prems(1) show False by (auto simp: image_iff)
    qed
    have "\<exists>d\<in>set (fst (observe_all pol st1 obs)). pd_decision d = ProgressTERMINATE"
    proof (rule Cons.IH)
      show "\<forall>o'\<in>set obs. ob_eligible o' \<and> \<not> meaningful_progress st1 o'"
        using Cons.prems(3) meaningful_progress_cong[OF hist] by simp
      show "patience pol st1 \<le> int (length obs)" using less Cons.prems(4) by simp
    qed (use Cons.prems(1) fresh in auto)
    with ob show ?thesis by (auto split: prod.splits)
  qed
qed

section \<open>Cycles\<close>

lemma detect_cycle_from_Some:
  "detect_cycle_from lens history required = Some len \<Longrightarrow>
     len \<in> set lens \<and> len * required \<le> length history \<and>
     chunks_equal (py_last (len * required) history) len required"
  by (induction lens) (auto split: if_splits)

lemma detect_cycle_from_None:
  "detect_cycle_from lens history required = None \<longleftrightarrow>
     (\<forall>len\<in>set lens. len * required \<le> length history \<longrightarrow>
        \<not> chunks_equal (py_last (len * required) history) len required)"
  by (induction lens) auto

lemma chunks_of_unit:
  assumes "length tail = len * reps" and "length u = len"
  shows "(\<forall>k<reps. take len (drop (k * len) tail) = u) \<longleftrightarrow> tail = concat (replicate reps u)"
  using assms(1)
proof (induction reps arbitrary: tail)
  case 0
  then show ?case by simp
next
  case (Suc reps)
  have split: "tail = take len tail @ drop len tail" by simp
  have "(\<forall>k<Suc reps. take len (drop (k * len) tail) = u) \<longleftrightarrow>
      take len tail = u \<and> (\<forall>k<reps. take len (drop (k * len) (drop len tail)) = u)"
    by (subst All_less_Suc2) (simp add: add.commute)
  also have "\<dots> \<longleftrightarrow> take len tail = u \<and> drop len tail = concat (replicate reps u)"
    using Suc.IH[of "drop len tail"] Suc.prems by simp
  also have "\<dots> \<longleftrightarrow> tail = u @ concat (replicate reps u)"
    using split assms(2) by (metis append_eq_conv_conj)
  finally show ?case by simp
qed

lemma chunks_equal_concat:
  assumes "length tail = len * reps" and "0 < reps"
  shows "chunks_equal tail len reps \<longleftrightarrow> tail = concat (replicate reps (take len tail))"
proof -
  have "length (take len tail) = len" using assms by simp
  from chunks_of_unit[OF assms(1) this] show ?thesis
    by (auto simp: chunks_equal_def list_all_iff)
qed

text \<open>The history ends with \<open>reps\<close> copies of one list of \<open>len\<close> actions.\<close>

definition ends_in_cycle :: "'a list \<Rightarrow> nat \<Rightarrow> nat \<Rightarrow> bool" where
  "ends_in_cycle history len reps \<longleftrightarrow>
     (\<exists>pre u. length u = len \<and> history = pre @ concat (replicate reps u))"

lemma ends_in_cycle_iff:
  assumes "0 < reps"
  shows "ends_in_cycle history len reps \<longleftrightarrow>
    len * reps \<le> length history \<and> chunks_equal (py_last (len * reps) history) len reps"
    (is "?L \<longleftrightarrow> ?R")
proof
  assume ?L
  then obtain pre u where u: "length u = len" "history = pre @ concat (replicate reps u)"
    by (auto simp: ends_in_cycle_def)
  then have len: "length (concat (replicate reps u)) = len * reps"
    by (simp add: length_concat sum_list_replicate)
  with u have "py_last (len * reps) history = concat (replicate reps u)"
    by (simp add: py_last_def)
  moreover have "take len (concat (replicate reps u)) = u"
    using u(1) assms by (cases reps) auto
  ultimately show ?R
    using u len assms by (simp add: chunks_equal_concat)
next
  assume R: ?R
  let ?t = "py_last (len * reps) history"
  have "?t = concat (replicate reps (take len ?t))"
    using R assms by (subst chunks_equal_concat[symmetric]) auto
  moreover have "history = take (length history - len * reps) history @ ?t"
    by (simp add: py_last_def)
  moreover have "length (take len ?t) = len" using R assms by (cases reps) auto
  ultimately show ?L unfolding ends_in_cycle_def by metis
qed

text \<open>After progress no detector fires.\<close>

lemma detect_after_progress:
  assumes "valid_policy pol" and "meaningful_progress st ob"
  shows "detect pol (noted pol st ob) = None"
proof -
  let ?n = "noted pol st ob"
  note pol = valid_policyD[OF assms(1)]
  have counts: "ps_error_repeat_count ?n \<le> 1" "ps_action_repeat_count ?n \<le> 1"
    using assms(2) by (auto simp: noted_def Let_def progress_defs split: option.splits)
  have "length (ps_action_history ?n) \<le> 1"
    using assms(2) length_append_bounded_le[of "[]"]
    by (auto simp: noted_def Let_def progress_defs split: option.splits)
  then have short: "\<not> 2 * nat (pp_max_cycle_repetitions pol) \<le> length (ps_action_history ?n)"
    using pol(3) by linarith
  have "detect_cycle (ps_action_history ?n) (nat (pp_max_cycle_repetitions pol)) = None"
    unfolding detect_cycle_def detect_cycle_from_None using short by auto
  with counts pol show ?thesis
    using assms(2) by (simp add: detect_def noted_simps)
qed

section \<open>Properties\<close>

text \<open>The observation of a tool call without any sign of progress.\<close>

definition idle_observation :: "string \<Rightarrow> observation" where
  "idle_observation op = \<lparr>ob_operation_id = op, ob_step = 1, ob_action = Some ''act'',
     ob_error = None, ob_state = None, ob_eligible = True\<rparr>"

text \<open>
  C35: a run that makes no progress is stopped. Whatever actions and errors it produces,
  once the detector has seen as many new observations without a new state fingerprint as
  the policy's recoveries and stagnation window allow, one of its decisions is TERMINATE.
\<close>

theorem no_progress_run_terminates:
  assumes "pp_enabled pol" and "ProgressPolicy pol = Ok pol"
    and "distinct (map ob_operation_id obs)"
    and "\<forall>ob\<in>set obs. ob_operation_id ob \<notin> set (ps_processed_operations st)"
    and "\<forall>ob\<in>set obs. ob_eligible ob \<and> \<not> meaningful_progress st ob"
    and "max 0 (pp_max_recovery_attempts pol - ps_recovery_attempts st) * pp_max_stagnant_steps pol
         + max 1 (pp_max_stagnant_steps pol - ps_stagnant_steps st) \<le> int (length obs)"
  shows "\<exists>d\<in>set (fst (observe_all pol st obs)). pd_decision d = ProgressTERMINATE"
  using assms by (intro run_without_progress) (simp_all add: valid_policy_def patience_def)

theorem no_progress_run_terminates_witness:
  "\<exists>d\<in>set (fst (observe_all default_progress_policy empty_progress_state
       (map (\<lambda>i. idle_observation (nat_text i)) [0..<16]))). pd_decision d = ProgressTERMINATE"
proof (rule no_progress_run_terminates)
  show "ProgressPolicy default_progress_policy = Ok default_progress_policy"
    using default_policy_valid by (simp add: valid_policy_def)
  show "distinct (map ob_operation_id (map (\<lambda>i. idle_observation (nat_text i)) [0..<16]))"
    by code_simp
qed (simp_all add: default_progress_policy_def empty_progress_state_def idle_observation_def
    meaningful_progress_def present_def)

text \<open>
  \<^verbatim>\<open>observe\<close> keeps every history of the durable detector state within the policy's
  \<^verbatim>\<open>history_limit\<close>.
\<close>

theorem observe_histories_bounded:
  assumes "ProgressPolicy pol = Ok pol" and "histories_bounded pol st"
  shows "histories_bounded pol (snd (observe pol st ob))"
proof (cases "pp_enabled pol \<and> ob_operation_id ob \<notin> set (ps_processed_operations st)")
  case True
  then have "observe pol st ob = decide_progress pol (noted pol st ob)" by (simp add: observe_fresh)
  moreover obtain d st' where "decide_progress pol (noted pol st ob) = (d, st')" by fastforce
  ultimately show ?thesis
    using noted_bounded[of pol st ob] decide_progress_state(3) assms by (simp add: valid_policy_def)
next
  case False
  with assms(2) show ?thesis by (auto simp: observe_def)
qed

theorem observe_histories_bounded_witness:
  "histories_bounded default_progress_policy
     (snd (observe default_progress_policy empty_progress_state (idle_observation ''a'')))"
proof (rule observe_histories_bounded)
  show "ProgressPolicy default_progress_policy = Ok default_progress_policy"
    using default_policy_valid by (simp add: valid_policy_def)
qed (simp add: histories_bounded_def empty_progress_state_def default_progress_policy_def)

text \<open>
  An operation is counted once. Observing it again right away (a replay after a restart)
  answers CONTINUE, marked as a duplicate, and changes nothing.
\<close>

lemma observe_idempotent:
  assumes "pp_enabled pol" and "ProgressPolicy pol = Ok pol"
  shows "observe pol (snd (observe pol st ob)) ob =
    ((plain_decision ProgressCONTINUE)\<lparr>pd_duplicate := True\<rparr>, snd (observe pol st ob))"
proof -
  have "ob_operation_id ob \<in> set (ps_processed_operations (snd (observe pol st ob)))"
  proof (cases "ob_operation_id ob \<in> set (ps_processed_operations st)")
    case True
    with assms(1) show ?thesis by (simp add: observe_def)
  next
    case False
    obtain d st' where "decide_progress pol (noted pol st ob) = (d, st')" by fastforce
    with False assms decide_progress_state(1) valid_policyD(6)[of pol] show ?thesis
      by (simp add: observe_fresh noted_simps append_bounded_last valid_policy_def)
  qed
  with assms(1) show ?thesis by (simp add: observe_def)
qed

text \<open>
  An observation with a state fingerprint not seen before never raises an alarm: the
  decision is CONTINUE, the recovery budget is restored and the stagnation counter is zero.
\<close>

lemma progress_never_alarms:
  assumes "pp_enabled pol" and "ProgressPolicy pol = Ok pol"
    and "ob_operation_id ob \<notin> set (ps_processed_operations st)" and "meaningful_progress st ob"
  shows "pd_decision (fst (observe pol st ob)) = ProgressCONTINUE \<and>
    ps_recovery_attempts (snd (observe pol st ob)) = 0 \<and>
    ps_stagnant_steps (snd (observe pol st ob)) = 0"
  using detect_after_progress[OF _ assms(4), of pol] assms
  by (simp add: observe_fresh decide_progress_def plain_decision_def noted_simps valid_policy_def)

text \<open>
  The recovery budget is respected. The number of recoveries since the last progress
  stays within the policy, RECOVER spends exactly one of them and leaves the recovery
  signal pending, and TERMINATE comes only when none is left.
\<close>

lemma observe_recovery_budget:
  assumes "pp_enabled pol" and "ProgressPolicy pol = Ok pol"
    and "0 \<le> ps_recovery_attempts st" and "ps_recovery_attempts st \<le> pp_max_recovery_attempts pol"
    and "observe pol st ob = (d, st')"
  shows "0 \<le> ps_recovery_attempts st' \<and> ps_recovery_attempts st' \<le> pp_max_recovery_attempts pol \<and>
    (pd_decision d = ProgressRECOVER \<longrightarrow>
       ps_recovery_attempts st' = ps_recovery_attempts st + 1 \<and> ps_recovery_signal_pending st') \<and>
    (pd_decision d = ProgressTERMINATE \<longrightarrow>
       ps_recovery_attempts st = pp_max_recovery_attempts pol)"
proof (cases "ob_operation_id ob \<in> set (ps_processed_operations st)")
  case True
  with assms show ?thesis by (auto simp: observe_def plain_decision_def)
next
  case False
  then have run: "decide_progress pol (noted pol st ob) = (d, st')"
    using assms by (simp add: observe_fresh)
  have att: "ps_recovery_attempts (noted pol st ob) =
      (if meaningful_progress st ob then 0 else ps_recovery_attempts st)"
    by (rule noted_simps)
  have prog: "meaningful_progress st ob \<Longrightarrow> detect pol (noted pol st ob) = None"
    using detect_after_progress assms(2) by (simp add: valid_policy_def)
  from run show ?thesis
    using att prog assms valid_policyD(5)[of pol]
    by (cases rule: decide_progress_cases) (auto simp: valid_policy_def split: if_splits)
qed

text \<open>
  the cycle detector is exact. It reports a length of 2, 3 or 4 exactly when the action
  history ends in the required number of copies of a list of that many actions, and it
  reports the smallest such length.
\<close>

theorem detect_cycle_exact:
  assumes "0 < required"
  shows "detect_cycle history required =
    (if ends_in_cycle history 2 required then Some 2
     else if ends_in_cycle history 3 required then Some 3
     else if ends_in_cycle history 4 required then Some 4 else None)"
  by (simp add: detect_cycle_def ends_in_cycle_iff[OF assms] not_less)

theorem detect_cycle_exact_witness:
  "detect_cycle [''x'', ''a'', ''b'', ''a'', ''b''] 2 = Some 2"
proof -
  have "ends_in_cycle [''x'', ''a'', ''b'', ''a'', ''b''] 2 2"
    unfolding ends_in_cycle_def
    by (rule exI[of _ "[''x'']"], rule exI[of _ "[''a'', ''b'']"]) (simp add: numeral_2_eq_2)
  then show ?thesis using detect_cycle_exact[of 2 "[''x'', ''a'', ''b'', ''a'', ''b'']"] by simp
qed

text \<open>
  the detector state and a valid policy survive their durable dictionary form unchanged,
  so a restarted run continues with the counters it had.
\<close>

theorem progress_roundtrip:
  "progress_state_from_dict E (progress_state_to_dict st) = Ok st \<and>
   progress_policy_from_dict E (progress_policy_to_dict pol) = ProgressPolicy pol"
  by (cases pol) (simp add: progress_state_from_dict_def progress_state_to_dict_def
      progress_policy_from_dict_def progress_policy_to_dict_def dict_get_default_def)

end
