(* ===== verification/Dependency.thy ===== *)
theory Dependency
  imports Prelude
begin

text \<open>
  Bounded retries of calls to models and tools, \<^verbatim>\<open>runtime/dependency.py\<close>: deadlines,
  exponential backoff, the retry decision and the classification of failures.
  The random sample of the jitter is the argument \<open>sample\<close>, the value the call
  \<^verbatim>\<open>random_source()\<close> returns.
\<close>

section \<open>Categories and deadlines\<close>

datatype failure_category =
    TIMEOUT | RATE_LIMITED | TRANSIENT_SERVER_ERROR | CONNECTION_ERROR | VALIDATION_ERROR
  | AUTH_ERROR | POLICY_DENIED | PERMANENT_ERROR | UNKNOWN_FAILURE

fun category_value :: "failure_category \<Rightarrow> string" where
  "category_value TIMEOUT = ''timeout''"
| "category_value RATE_LIMITED = ''rate_limited''"
| "category_value TRANSIENT_SERVER_ERROR = ''transient_server_error''"
| "category_value CONNECTION_ERROR = ''connection_error''"
| "category_value VALIDATION_ERROR = ''validation_error''"
| "category_value AUTH_ERROR = ''auth_error''"
| "category_value POLICY_DENIED = ''policy_denied''"
| "category_value PERMANENT_ERROR = ''permanent_error''"
| "category_value UNKNOWN_FAILURE = ''unknown''"

definition FailureCategory :: "string \<Rightarrow> failure_category res" where
  "FailureCategory = enum_parse category_value
     [TIMEOUT, RATE_LIMITED, TRANSIENT_SERVER_ERROR, CONNECTION_ERROR, VALIDATION_ERROR,
      AUTH_ERROR, POLICY_DENIED, PERMANENT_ERROR, UNKNOWN_FAILURE]"

lemma FailureCategory_value [simp, enum_roundtrip]: "FailureCategory (category_value c) = Ok c"
  by (cases c) (simp_all add: FailureCategory_def enum_parse_def)

datatype retry_safety = SAFE | IDEMPOTENT | UNSAFE

definition retryable_categories :: "failure_category list" where
  "retryable_categories = [TIMEOUT, RATE_LIMITED, TRANSIENT_SERVER_ERROR, CONNECTION_ERROR]"

record operation_deadline =
  configured_timeout_seconds :: rat
  remaining_run_seconds :: "rat option"

definition effective_timeout_seconds :: "operation_deadline \<Rightarrow> rat" where
  "effective_timeout_seconds dl =
     (let configured = max 0 (configured_timeout_seconds dl)
      in case remaining_run_seconds dl of
           None \<Rightarrow> configured
         | Some r \<Rightarrow> min configured (max 0 r))"

definition deadline_exhausted :: "operation_deadline \<Rightarrow> bool" where
  "deadline_exhausted dl \<longleftrightarrow> effective_timeout_seconds dl \<le> 0"

section \<open>Backoff\<close>

record backoff_policy =
  base_delay_seconds :: rat
  max_delay_seconds :: rat
  backoff_jitter :: bool

definition BackoffPolicy :: "rat \<Rightarrow> rat \<Rightarrow> bool \<Rightarrow> backoff_policy res" where
  "BackoffPolicy base maxd jit =
     (if base < 0 then Raise (ValueError ''base_delay_seconds must be non-negative'')
      else if maxd < 0 then Raise (ValueError ''max_delay_seconds must be non-negative'')
      else if maxd < base
      then Raise (ValueError ''max_delay_seconds must be at least base_delay_seconds'')
      else Ok \<lparr>base_delay_seconds = base, max_delay_seconds = maxd, backoff_jitter = jit\<rparr>)"

definition delay_seconds :: "backoff_policy \<Rightarrow> int \<Rightarrow> rat \<Rightarrow> rat" where
  "delay_seconds b failure_number sample =
     (let upper = min (max_delay_seconds b)
                    (base_delay_seconds b * 2 ^ nat (max 0 (failure_number - 1)))
      in if \<not> backoff_jitter b then upper
         else upper * min 1 (max 0 sample))"

section \<open>The retry decision\<close>

record retry_decision =
  rd_retry :: bool
  rd_category :: failure_category
  rd_reason :: string
  rd_delay_seconds :: rat
  rd_exhausted :: bool
  rd_blocked_by_deadline :: bool
  rd_unsafe_suppressed :: bool

definition RetryDecision :: "bool \<Rightarrow> failure_category \<Rightarrow> string \<Rightarrow> retry_decision" where
  "RetryDecision r c reason = \<lparr>rd_retry = r, rd_category = c, rd_reason = reason,
     rd_delay_seconds = 0, rd_exhausted = False, rd_blocked_by_deadline = False,
     rd_unsafe_suppressed = False\<rparr>"

record retry_policy =
  max_attempts :: int
  base_backoff_seconds :: rat
  max_backoff_seconds :: rat
  jitter_enabled :: bool
  retryable_error :: "(string \<Rightarrow> bool) option"
  backoff_seconds :: "rat option"

definition base_delay :: "retry_policy \<Rightarrow> rat" where
  "base_delay p = (case backoff_seconds p of Some b \<Rightarrow> b | None \<Rightarrow> base_backoff_seconds p)"

definition max_delay :: "retry_policy \<Rightarrow> rat" where
  "max_delay p = (case backoff_seconds p of Some b \<Rightarrow> b | None \<Rightarrow> max_backoff_seconds p)"

definition RetryPolicy :: "retry_policy \<Rightarrow> retry_policy res" where
  "RetryPolicy p =
     (if max_attempts p \<le> 0 then Raise (ValueError ''max_attempts must be positive'')
      else bindR (BackoffPolicy (base_delay p) (max_delay p) (jitter_enabled p)) (\<lambda>_. Ok p))"

definition default_retry_policy :: retry_policy where
  "default_retry_policy = \<lparr>max_attempts = 3, base_backoff_seconds = 1 / 2,
     max_backoff_seconds = 4, jitter_enabled = True, retryable_error = None,
     backoff_seconds = None\<rparr>"

definition classifier_accepts :: "retry_policy \<Rightarrow> string \<Rightarrow> bool" where
  "classifier_accepts p err = (case retryable_error p of None \<Rightarrow> True | Some f \<Rightarrow> f err)"

definition can_retry :: "retry_policy \<Rightarrow> string \<Rightarrow> int \<Rightarrow> bool" where
  "can_retry p err attempt =
     (if attempt \<ge> max_attempts p then False else classifier_accepts p err)"

definition decide_retry :: "retry_policy \<Rightarrow> failure_category \<Rightarrow> int \<Rightarrow> retry_safety \<Rightarrow> string
    \<Rightarrow> rat \<Rightarrow> rat option \<Rightarrow> rat option \<Rightarrow> retry_decision res" where
  "decide_retry p category attempt safety err sample remaining retry_after =
     (if category \<notin> set retryable_categories
      then Ok (RetryDecision False category (category_value category @ '' is not retryable''))
      else if safety = UNSAFE
      then Ok ((RetryDecision False category
             ''operation is not safe to retry after an ambiguous failure'')
             \<lparr>rd_unsafe_suppressed := True\<rparr>)
      else if \<not> classifier_accepts p err
      then Ok (RetryDecision False category ''custom retry classifier rejected the failure'')
      else if attempt \<ge> max_attempts p
      then Ok ((RetryDecision False category
             (if max_attempts p > 1 then ''retry allowance exhausted''
              else ''retry is disabled for this operation''))
             \<lparr>rd_exhausted := (max_attempts p > 1)\<rparr>)
      else
        bindR (BackoffPolicy (base_delay p) (max_delay p) (jitter_enabled p)) (\<lambda>b.
        let delay0 = delay_seconds b attempt sample;
            delay = (case retry_after of None \<Rightarrow> delay0 | Some r \<Rightarrow> max delay0 (max 0 r));
            blocked = (case remaining of None \<Rightarrow> False | Some r \<Rightarrow> delay \<ge> max 0 r)
        in if blocked
           then Ok ((RetryDecision False category
                  ''retry backoff cannot fit inside the remaining Run deadline'')
                  \<lparr>rd_delay_seconds := delay, rd_blocked_by_deadline := True\<rparr>)
           else Ok ((RetryDecision True category ''bounded retry allowed'')
                  \<lparr>rd_delay_seconds := delay\<rparr>)))"

section \<open>Classification of failures\<close>

definition classify_status :: "int \<Rightarrow> failure_category" where
  "classify_status status =
     (if status = 429 then RATE_LIMITED
      else if status \<in> {408, 504} then TIMEOUT
      else if status \<in> {500, 502, 503} then TRANSIENT_SERVER_ERROR
      else if status \<in> {401, 403} then AUTH_ERROR
      else if status \<in> {400, 404, 409, 413, 422} then VALIDATION_ERROR
      else PERMANENT_ERROR)"

definition optional_status :: "pyenv \<Rightarrow> pyval \<Rightarrow> int option" where
  "optional_status E v =
     (case py_int E v of Inl _ \<Rightarrow> None
      | Inr parsed \<Rightarrow> if 100 \<le> parsed \<and> parsed \<le> 599 then Some parsed else None)"

definition optional_positive_float :: "pyenv \<Rightarrow> pyval \<Rightarrow> rat option" where
  "optional_positive_float E v =
     (case py_float E v of Inl _ \<Rightarrow> None
      | Inr parsed \<Rightarrow> if parsed \<ge> 0 then Some parsed else None)"

definition classify_text :: "pyenv \<Rightarrow> string \<Rightarrow> failure_category" where
  "classify_text E message =
     (let n = casefold E message in
      if contains ''timed out'' n \<or> contains ''timeout'' n then TIMEOUT
      else if contains ''rate limit'' n \<or> contains ''too many requests'' n then RATE_LIMITED
      else if contains ''connectionerror'' n \<or> contains ''connection reset'' n
              \<or> contains ''connection refused'' n then CONNECTION_ERROR
      else if list_ex (\<lambda>m. contains m n) [''unauthorized'', ''authentication'', ''invalid api key'']
      then AUTH_ERROR
      else if contains ''policy'' n \<and> (contains ''denied'' n \<or> contains ''rejected'' n)
      then POLICY_DENIED
      else if list_ex (\<lambda>m. contains m n)
                [''validation'', ''invalid request'', ''context too large'', ''unsupported model'']
      then VALIDATION_ERROR
      else UNKNOWN_FAILURE)"

text \<open>
  Exception objects live in a heap, since \<^verbatim>\<open>__cause__\<close> and \<^verbatim>\<open>__context__\<close> may form a cycle:
  the classifier remembers the objects it has seen. \<open>ex_next\<close> is
  \<^verbatim>\<open>current.__cause__ or current.__context__\<close>; \<open>ex_response_status\<close> and \<open>ex_headers\<close> are
  read off the attribute \<^verbatim>\<open>response\<close>.
\<close>

record exc_object =
  ex_is_timeout :: bool
  ex_is_connection :: bool
  ex_status :: pyval
  ex_response_status :: pyval
  ex_headers :: "pydict option"
  ex_text :: string
  ex_next :: "nat option"

type_synonym exc_heap = "exc_object list"

definition status_code :: "pyenv \<Rightarrow> exc_object \<Rightarrow> int option" where
  "status_code E x =
     (case optional_status E (ex_status x) of
        Some s \<Rightarrow> Some s | None \<Rightarrow> optional_status E (ex_response_status x))"

definition classify_link :: "pyenv \<Rightarrow> exc_object \<Rightarrow> failure_category option" where
  "classify_link E x =
     (if ex_is_timeout x then Some TIMEOUT
      else if ex_is_connection x then Some CONNECTION_ERROR
      else map_option classify_status (status_code E x))"

definition retry_after_link :: "pyenv \<Rightarrow> exc_object \<Rightarrow> rat option" where
  "retry_after_link E x =
     (case ex_headers x of None \<Rightarrow> None
      | Some h \<Rightarrow> optional_positive_float E
          (py_or (dict_get h ''retry-after'') (dict_get h ''Retry-After'')))"

function walk_chain :: "(exc_object \<Rightarrow> 'r option) \<Rightarrow> exc_heap \<Rightarrow> nat set \<Rightarrow> nat option \<Rightarrow> 'r option" where
  "walk_chain look h seen cur =
     (case cur of
        None \<Rightarrow> None
      | Some i \<Rightarrow>
          if i \<in> seen \<or> \<not> i < length h then None
          else case look (h ! i) of
                 Some r \<Rightarrow> Some r
               | None \<Rightarrow> walk_chain look h (insert i seen) (ex_next (h ! i)))"
  by pat_completeness auto
termination
proof (relation "measure (\<lambda>(look, h, seen, cur). card ({..<length h} - seen))", simp)
  fix look :: "exc_object \<Rightarrow> 'r option" and h :: exc_heap and seen cur i
  assume "\<not> (i \<in> seen \<or> \<not> i < length h)"
  then have "{..<length h} - insert i seen \<subset> {..<length h} - seen" by auto
  then show "((look, h, insert i seen, ex_next (h ! i)), look, h, seen, cur)
      \<in> measure (\<lambda>(look, h, seen, cur). card ({..<length h} - seen))"
    by (simp add: psubset_card_mono)
qed

declare walk_chain.simps [simp del]

datatype failure = FailureDict pydict | FailureExc exc_heap nat | FailureText string

fun classify :: "pyenv \<Rightarrow> failure \<Rightarrow> failure_category" where
  "classify E (FailureDict d) =
     (let explicit = py_or (dict_get d ''failure_category'') (dict_get d ''category'');
          parsed = (if truthy explicit then FailureCategory (py_str E explicit)
                    else Raise (ValueError ''''))
      in case parsed of
           Inr c \<Rightarrow> c
         | Inl _ \<Rightarrow>
             (case optional_status E (dict_get d ''status_code'') of
                Some s \<Rightarrow> classify_status s
              | None \<Rightarrow> classify_text E (py_str E (py_or (dict_get d ''error_type'')
                          (py_or (dict_get d ''error'') (PStr []))))))"
| "classify E (FailureExc h i) =
     (case walk_chain (classify_link E) h {} (Some i) of
        Some c \<Rightarrow> c
      | None \<Rightarrow> classify_text E (ex_text (h ! i)))"
| "classify E (FailureText s) = classify_text E s"

text \<open>\<^verbatim>\<open>retry_after_seconds\<close> for the two kinds of argument it accepts.\<close>

definition retry_after_of_dict :: "pyenv \<Rightarrow> pydict \<Rightarrow> rat option" where
  "retry_after_of_dict E d = optional_positive_float E (dict_get d ''retry_after_seconds'')"

definition retry_after_of_exc :: "pyenv \<Rightarrow> exc_heap \<Rightarrow> nat \<Rightarrow> rat option" where
  "retry_after_of_exc E h i = walk_chain (retry_after_link E) h {} (Some i)"

end
