(* ===== verification/DependencyProps.thy ===== *)
theory DependencyProps
  imports Dependency
begin

text \<open>
  What the callers of the retry policy rely on: delays stay within the configured bounds, a
  retry is granted exactly when every guard allows it, an operation is attempted at most
  \<^verbatim>\<open>max_attempts\<close> times, and classification ends even on a cyclic chain of causes.
\<close>

section \<open>Valid policies\<close>

lemma RetryPolicy_OkD:
  assumes "RetryPolicy p = Ok p'"
  shows "p' = p" "0 < max_attempts p" "0 \<le> base_delay p" "base_delay p \<le> max_delay p"
    "BackoffPolicy (base_delay p) (max_delay p) (jitter_enabled p) =
       Ok \<lparr>base_delay_seconds = base_delay p, max_delay_seconds = max_delay p,
           backoff_jitter = jitter_enabled p\<rparr>"
  using assms by (auto simp: RetryPolicy_def BackoffPolicy_def split: if_splits)

lemma delay_seconds_bounds:
  assumes "0 \<le> base_delay_seconds b" and "base_delay_seconds b \<le> max_delay_seconds b"
  shows "0 \<le> delay_seconds b n s" "delay_seconds b n s \<le> max_delay_seconds b"
proof -
  let ?u = "min (max_delay_seconds b) (base_delay_seconds b * 2 ^ nat (max 0 (n - 1)))"
    and ?s = "min 1 (max 0 s)"
  have u: "0 \<le> ?u" "?u \<le> max_delay_seconds b" using assms by simp_all
  have s: "0 \<le> ?s" "?s \<le> 1" by simp_all
  have "?u * ?s \<le> ?u * 1" using u(1) s(2) by (intro mult_left_mono)
  then have us: "0 \<le> ?u * ?s" "?u * ?s \<le> max_delay_seconds b"
    using u s(1) by (auto intro: mult_nonneg_nonneg)
  show "0 \<le> delay_seconds b n s" using u us by (simp add: delay_seconds_def Let_def)
  show "delay_seconds b n s \<le> max_delay_seconds b"
    using u us by (auto simp: delay_seconds_def Let_def)
qed

section \<open>Chains of causes\<close>

text \<open>The objects reached by following the links from \<open>cur\<close>, one after the other.\<close>

fun chain_at :: "exc_heap \<Rightarrow> nat option \<Rightarrow> nat \<Rightarrow> nat option" where
  "chain_at h cur 0 = cur"
| "chain_at h cur (Suc k) =
     (case cur of None \<Rightarrow> None
      | Some i \<Rightarrow> if i < length h then chain_at h (ex_next (h ! i)) k else None)"

lemma walk_chain_finds:
  assumes "chain_at h cur k = Some j" and "j < length h" and "look (h ! j) = Some r"
    and "\<forall>m<k. \<forall>i. chain_at h cur m = Some i \<longrightarrow> look (h ! i) = None"
    and "\<forall>m\<le>k. \<forall>i. chain_at h cur m = Some i \<longrightarrow> i \<notin> seen"
    and "\<forall>m\<le>k. \<forall>n\<le>k. chain_at h cur m = chain_at h cur n \<longrightarrow> m = n"
  shows "walk_chain look h seen cur = Some r"
  using assms
proof (induction k arbitrary: cur seen)
  case 0
  then have cur: "cur = Some j" by simp
  then have fresh: "j \<notin> seen" using "0.prems"(5)[rule_format, of 0 j] by simp
  show ?case
    unfolding cur using fresh "0.prems"(2,3) by (subst walk_chain.simps) simp
next
  case (Suc k)
  from Suc.prems(1) obtain i where i: "cur = Some i" "i < length h"
    "chain_at h (ex_next (h ! i)) k = Some j"
    by (auto split: option.splits if_splits)
  have none: "look (h ! i) = None" using Suc.prems(4)[rule_format, of 0] i(1) by simp
  have fresh: "i \<notin> seen" using Suc.prems(5)[rule_format, of 0] i(1) by simp
  have step: "chain_at h cur (Suc m) = chain_at h (ex_next (h ! i)) m" for m
    using i(1,2) by simp
  have "walk_chain look h (insert i seen) (ex_next (h ! i)) = Some r"
  proof (rule Suc.IH[OF i(3) Suc.prems(2,3)])
    show "\<forall>m<k. \<forall>i'. chain_at h (ex_next (h ! i)) m = Some i' \<longrightarrow> look (h ! i') = None"
    proof (intro allI impI)
      fix m i' assume "m < k" "chain_at h (ex_next (h ! i)) m = Some i'"
      then show "look (h ! i') = None" using Suc.prems(4)[rule_format, of "Suc m" i'] step by simp
    qed
    show "\<forall>m\<le>k. \<forall>i'. chain_at h (ex_next (h ! i)) m = Some i' \<longrightarrow> i' \<notin> insert i seen"
    proof (intro allI impI)
      fix m i' assume m: "m \<le> k" "chain_at h (ex_next (h ! i)) m = Some i'"
      then have "i' \<notin> seen" using Suc.prems(5)[rule_format, of "Suc m" i'] step by simp
      moreover have "i' \<noteq> i"
        using Suc.prems(6)[rule_format, of "Suc m" 0] step[of m] m i(1) by auto
      ultimately show "i' \<notin> insert i seen" by simp
    qed
    show "\<forall>m\<le>k. \<forall>n\<le>k. chain_at h (ex_next (h ! i)) m = chain_at h (ex_next (h ! i)) n \<longrightarrow> m = n"
    proof (intro allI impI)
      fix m n assume "m \<le> k" "n \<le> k"
        "chain_at h (ex_next (h ! i)) m = chain_at h (ex_next (h ! i)) n"
      then show "m = n" using Suc.prems(6)[rule_format, of "Suc m" "Suc n"] step by simp
    qed
  qed
  moreover have "walk_chain look h seen (Some i) = walk_chain look h (insert i seen) (ex_next (h ! i))"
    using i(2) none fresh by (subst walk_chain.simps) simp
  ultimately show ?case using i(1) by simp
qed

lemma chain_at_add: "chain_at h cur (m + d) = chain_at h (chain_at h cur m) d"
proof (induction m arbitrary: cur)
  case (Suc m)
  have none: "chain_at h None d = None" by (cases d) simp_all
  show ?case
  proof (cases cur)
    case None
    with none show ?thesis by simp
  next
    case (Some i)
    with none Suc.IH[of "ex_next (h ! i)"] show ?thesis by simp
  qed
qed simp

text \<open>Before the first informative link the chain has not come back to an object.\<close>

lemma chain_prefix_distinct:
  assumes "chain_at h cur k = Some j" and "look (h ! j) \<noteq> None"
    and "\<forall>m<k. \<forall>i. chain_at h cur m = Some i \<longrightarrow> look (h ! i) = None"
    and "m < n" and "n \<le> k"
  shows "chain_at h cur m \<noteq> chain_at h cur n"
proof
  assume eq: "chain_at h cur m = chain_at h cur n"
  have "chain_at h cur (m + (k - n)) = chain_at h (chain_at h cur m) (k - n)"
    by (rule chain_at_add)
  also have "\<dots> = chain_at h cur (n + (k - n))"
    unfolding eq by (rule chain_at_add[symmetric])
  finally have "chain_at h cur (m + (k - n)) = Some j" using assms(1,5) by simp
  moreover have "m + (k - n) < k" using assms(4,5) by simp
  ultimately have "look (h ! j) = None" using assms(3) by (metis (no_types))
  with assms(2) show False by simp
qed

section \<open>Properties\<close>

text \<open>
  \<^verbatim>\<open>RetryPolicy.decide\<close> never raises for a policy its constructor accepted, and it grants
  a retry exactly when the failure is of a transient category, the operation is not unsafe,
  the custom classifier agrees, an attempt is left and the delay ends before the deadline.
\<close>

theorem decide_retry_exact:
  assumes "RetryPolicy p = Ok p"
  shows "\<exists>r. decide_retry p category attempt safety err sample remaining retry_after = Ok r \<and>
    (rd_retry r \<longleftrightarrow> category \<in> set retryable_categories \<and> safety \<noteq> UNSAFE \<and>
       classifier_accepts p err \<and> attempt < max_attempts p \<and>
       (\<forall>t. remaining = Some t \<longrightarrow> rd_delay_seconds r < max 0 t)) \<and>
    \<not> (rd_retry r \<and> (rd_exhausted r \<or> rd_unsafe_suppressed r \<or> rd_blocked_by_deadline r))"
  using RetryPolicy_OkD[OF assms]
    delay_seconds_bounds(1)[of "\<lparr>base_delay_seconds = base_delay p, max_delay_seconds = max_delay p,
           backoff_jitter = jitter_enabled p\<rparr>" attempt sample]
  by (auto simp: decide_retry_def RetryDecision_def Let_def max_def split: option.splits if_splits)

theorem decide_retry_exact_witness:
  "\<exists>r. decide_retry default_retry_policy TIMEOUT 1 SAFE ''timeout'' 1 (Some 10) None = Ok r \<and>
     rd_retry r \<and> rd_delay_seconds r = 1 / 2"
proof -
  have "RetryPolicy default_retry_policy = Ok default_retry_policy"
    by (simp add: RetryPolicy_def default_retry_policy_def BackoffPolicy_def base_delay_def max_delay_def)
  from decide_retry_exact[OF this, of TIMEOUT 1 SAFE "''timeout''" 1 "Some 10" None]
  show ?thesis
    by (auto simp: decide_retry_def RetryDecision_def default_retry_policy_def BackoffPolicy_def
        base_delay_def max_delay_def delay_seconds_def retryable_categories_def classifier_accepts_def)
qed

text \<open>
  The delay before a retry is never negative, never longer than the larger of the
  policy's cap and what the server asked for, and never shorter than what the server asked
  for; the jitter only shortens the exponential delay.
\<close>

lemma retry_delay_bounds:
  assumes "RetryPolicy p = Ok p"
    and "decide_retry p category attempt safety err sample remaining retry_after = Ok r"
    and "rd_retry r"
  shows "0 \<le> rd_delay_seconds r \<and>
    (case retry_after of
       None \<Rightarrow> rd_delay_seconds r \<le> max_delay p \<and>
         rd_delay_seconds r \<le> base_delay p * 2 ^ nat (max 0 (attempt - 1))
     | Some t \<Rightarrow> t \<le> rd_delay_seconds r \<and> rd_delay_seconds r \<le> max (max_delay p) (max 0 t))"
proof -
  let ?b = "\<lparr>base_delay_seconds = base_delay p, max_delay_seconds = max_delay p,
           backoff_jitter = jitter_enabled p\<rparr>"
  let ?d = "delay_seconds ?b attempt sample"
  let ?e = "base_delay p * 2 ^ nat (max 0 (attempt - 1))"
  note pol = RetryPolicy_OkD[OF assms(1)]
  have bounds: "0 \<le> ?d" "?d \<le> max_delay p" using delay_seconds_bounds[of ?b] pol by auto
  have nojit: "0 \<le> min (max_delay p) ?e" using pol by simp
  have "min (max_delay p) ?e * min 1 (max 0 sample) \<le> min (max_delay p) ?e * 1"
    using nojit by (intro mult_left_mono) auto
  then have exp: "?d \<le> ?e" by (auto simp: delay_seconds_def Let_def)
  have "rd_delay_seconds r = (case retry_after of None \<Rightarrow> ?d | Some t \<Rightarrow> max ?d (max 0 t))"
    using assms(2,3) pol(5)
    by (auto simp: decide_retry_def RetryDecision_def Let_def split: if_splits option.splits)
  with bounds exp show ?thesis by (auto split: option.splits)
qed

text \<open>
  An HTTP status makes a failure retryable exactly for 408, 429, 500, 502, 503 and 504.
\<close>

lemma classify_status_retryable:
  "classify_status status \<in> set retryable_categories \<longleftrightarrow>
     status \<in> {408, 429, 500, 502, 503, 504}"
  by (auto simp: classify_status_def retryable_categories_def split: if_splits)

text \<open>
  an exception is classified by the first link of its chain of causes that carries
  information (a timeout, a connection error or a status code), and this holds whether or
  not the chain runs into a cycle afterwards.
\<close>

theorem classify_first_informative_cause:
  assumes "chain_at h (Some i) k = Some j" and "j < length h"
    and "classify_link E (h ! j) = Some c"
    and "\<forall>m<k. \<forall>i'. chain_at h (Some i) m = Some i' \<longrightarrow> classify_link E (h ! i') = None"
  shows "classify E (FailureExc h i) = c"
proof -
  have "\<forall>m\<le>k. \<forall>n\<le>k. chain_at h (Some i) m = chain_at h (Some i) n \<longrightarrow> m = n"
    using chain_prefix_distinct[OF assms(1) _ assms(4)] assms(3)
    by (metis linorder_neqE_nat option.distinct(1))
  then show ?thesis using walk_chain_finds[OF assms(1-4), of "{}"] by simp
qed

definition demo_chain :: exc_heap where
  "demo_chain = [
     \<lparr>ex_is_timeout = False, ex_is_connection = False, ex_status = PNone,
      ex_response_status = PNone, ex_headers = None, ex_text = ''outer'', ex_next = Some 1\<rparr>,
     \<lparr>ex_is_timeout = False, ex_is_connection = False, ex_status = PNone,
      ex_response_status = PInt 503, ex_headers = None, ex_text = ''inner'', ex_next = Some 0\<rparr>]"

theorem classify_first_informative_cause_witness:
  "classify demo_env (FailureExc demo_chain 0) = TRANSIENT_SERVER_ERROR"
  by (rule classify_first_informative_cause[where k = 1 and j = 1])
    (simp_all add: demo_chain_def classify_link_def status_code_def optional_status_def
      classify_status_def)

end
