(* ===== verification/RunModels.thy ===== *)
theory RunModels
  imports Prelude
begin

text \<open>
  The durable state of a run, \<^verbatim>\<open>runtime/models.py\<close>: run and tool statuses, messages,
  interrupts, errors, \<^verbatim>\<open>RunState\<close> and \<^verbatim>\<open>ToolExecutionRecord\<close> with their dictionary forms.
  Free-form fields (\<^verbatim>\<open>dict[str, Any]\<close>) are dictionaries of Python values.
\<close>

section \<open>Statuses\<close>

definition CHECKPOINT_SCHEMA_VERSION :: int where
  "CHECKPOINT_SCHEMA_VERSION = 1"

datatype run_status =
    RunRUNNING | RunINTERRUPTED | RunWAITING_APPROVAL | RunWAITING_CHILD
  | RunCOMPLETED | RunFAILED | RunCANCELLED

datatype tool_status = ToolPENDING | ToolRUNNING | ToolSUCCEEDED | ToolFAILED | ToolUNKNOWN

datatype tool_retry_state = RetryNONE | RETRY_PENDING | RETRY_SUPPRESSED | RETRY_EXHAUSTED

fun run_status_value :: "run_status \<Rightarrow> string" where
  "run_status_value RunRUNNING = ''RUNNING''"
| "run_status_value RunINTERRUPTED = ''INTERRUPTED''"
| "run_status_value RunWAITING_APPROVAL = ''WAITING_APPROVAL''"
| "run_status_value RunWAITING_CHILD = ''WAITING_CHILD''"
| "run_status_value RunCOMPLETED = ''COMPLETED''"
| "run_status_value RunFAILED = ''FAILED''"
| "run_status_value RunCANCELLED = ''CANCELLED''"

fun tool_status_value :: "tool_status \<Rightarrow> string" where
  "tool_status_value ToolPENDING = ''PENDING''"
| "tool_status_value ToolRUNNING = ''RUNNING''"
| "tool_status_value ToolSUCCEEDED = ''SUCCEEDED''"
| "tool_status_value ToolFAILED = ''FAILED''"
| "tool_status_value ToolUNKNOWN = ''UNKNOWN''"

fun retry_state_value :: "tool_retry_state \<Rightarrow> string" where
  "retry_state_value RetryNONE = ''NONE''"
| "retry_state_value RETRY_PENDING = ''RETRY_PENDING''"
| "retry_state_value RETRY_SUPPRESSED = ''RETRY_SUPPRESSED''"
| "retry_state_value RETRY_EXHAUSTED = ''RETRY_EXHAUSTED''"

definition RunStatus :: "string \<Rightarrow> run_status res" where
  "RunStatus = enum_parse run_status_value
     [RunRUNNING, RunINTERRUPTED, RunWAITING_APPROVAL, RunWAITING_CHILD, RunCOMPLETED,
      RunFAILED, RunCANCELLED]"

definition ToolExecutionStatus :: "string \<Rightarrow> tool_status res" where
  "ToolExecutionStatus = enum_parse tool_status_value
     [ToolPENDING, ToolRUNNING, ToolSUCCEEDED, ToolFAILED, ToolUNKNOWN]"

definition ToolRetryState :: "string \<Rightarrow> tool_retry_state res" where
  "ToolRetryState = enum_parse retry_state_value
     [RetryNONE, RETRY_PENDING, RETRY_SUPPRESSED, RETRY_EXHAUSTED]"

lemma RunStatus_value [simp, enum_roundtrip]: "RunStatus (run_status_value x) = Ok x"
  by (cases x) (simp_all add: RunStatus_def enum_parse_def)

lemma ToolExecutionStatus_value [simp, enum_roundtrip]:
  "ToolExecutionStatus (tool_status_value x) = Ok x"
  by (cases x) (simp_all add: ToolExecutionStatus_def enum_parse_def)

lemma ToolRetryState_value [simp, enum_roundtrip]: "ToolRetryState (retry_state_value x) = Ok x"
  by (cases x) (simp_all add: ToolRetryState_def enum_parse_def)

lemma status_values_nonempty [simp]:
  "run_status_value r \<noteq> []" "tool_status_value t \<noteq> []" "retry_state_value s \<noteq> []"
  by (cases r, simp_all) (cases t, simp_all, cases s, simp_all)

section \<open>Serialisable values\<close>

text \<open>\<^verbatim>\<open>_json_value\<close>: a tuple or an object of another class raises \<open>TypeError\<close>.\<close>

fun json_value :: "pyval \<Rightarrow> pyval res"
  and json_list :: "pyval list \<Rightarrow> pyval list res"
  and json_items :: "(string \<times> pyval) list \<Rightarrow> (string \<times> pyval) list res" where
  "json_value (PList xs) = bindR (json_list xs) (\<lambda>ys. Ok (PList ys))"
| "json_value (PDict d) = bindR (json_items d) (\<lambda>e. Ok (PDict e))"
| "json_value (PTuple xs) = Raise (TypeError ''value is not checkpoint-serializable: tuple'')"
| "json_value (PObj ty) = Raise (TypeError (''value is not checkpoint-serializable: '' @ ty))"
| "json_value v = Ok v"
| "json_list [] = Ok []"
| "json_list (x # xs) = bindR (json_value x) (\<lambda>y. bindR (json_list xs) (\<lambda>ys. Ok (y # ys)))"
| "json_items [] = Ok []"
| "json_items ((k, x) # d) = bindR (json_value x) (\<lambda>y. bindR (json_items d) (\<lambda>e. Ok ((k, y) # e)))"

fun serializable :: "pyval \<Rightarrow> bool" where
  "serializable (PList xs) = list_all serializable xs"
| "serializable (PDict d) = list_all (\<lambda>kv. serializable (snd kv)) d"
| "serializable (PTuple xs) = False"
| "serializable (PObj ty) = False"
| "serializable v = True"

text \<open>\<^verbatim>\<open>_dict\<close>: anything but a dictionary reads as the empty dictionary.\<close>

fun as_dict :: "pyval \<Rightarrow> pydict" where
  "as_dict (PDict d) = d"
| "as_dict v = []"

abbreviation serializable_dict :: "pydict \<Rightarrow> bool" where
  "serializable_dict d \<equiv> list_all (\<lambda>kv. serializable (snd kv)) d"

lemma json_value_serializable:
  "serializable v \<Longrightarrow> json_value v = Ok v"
  "list_all serializable xs \<Longrightarrow> json_list xs = Ok xs"
  "serializable_dict d \<Longrightarrow> json_items d = Ok d"
  by (induction v and xs and d rule: json_value_json_list_json_items.induct) auto

lemma json_value_Ok:
  "json_value v = Ok w \<Longrightarrow> w = v \<and> serializable v"
  "json_list xs = Ok ys \<Longrightarrow> ys = xs \<and> list_all serializable xs"
  "json_items d = Ok e \<Longrightarrow> e = d \<and> serializable_dict d"
  by (induction v and xs and d arbitrary: w and ys and e rule: json_value_json_list_json_items.induct)
    (auto simp: bindR_Ok_iff)

section \<open>Messages, interrupts, errors\<close>

datatype content = TextContent string | PartsContent "pyval list"

record message =
  m_role :: string
  m_content :: content
  m_name :: "string option"
  m_tool_call_id :: "string option"
  m_tool_calls :: "pydict list"

record interrupt =
  i_kind :: string
  i_reason :: string
  i_invocation_id :: "string option"
  i_tool_name :: "string option"
  i_arguments :: pydict
  i_created_at :: string

record run_error =
  e_type :: string
  e_message :: string
  e_step :: "string option"
  e_metadata :: pydict

fun content_value :: "content \<Rightarrow> pyval" where
  "content_value (TextContent s) = PStr s"
| "content_value (PartsContent xs) = PList xs"

definition message_to_dict :: "message \<Rightarrow> pydict res" where
  "message_to_dict m =
     bindR (json_value (content_value (m_content m))) (\<lambda>c.
     bindR (json_value (PList (map PDict (m_tool_calls m)))) (\<lambda>calls.
     Ok [(''role'', PStr (m_role m)), (''content'', c), (''name'', opt_val PStr (m_name m)),
         (''tool_call_id'', opt_val PStr (m_tool_call_id m)), (''tool_calls'', calls)]))"

definition message_from_dict :: "pyenv \<Rightarrow> pydict \<Rightarrow> message res" where
  "message_from_dict E d =
     (let role = str_or E (dict_get d ''role'') ''user'' in
      if role \<notin> {''system'', ''user'', ''assistant'', ''tool''}
      then Raise (ValueError (''invalid persisted message role: '' @ role))
      else bindR (case dict_get_default d ''content'' (PStr []) of
                    PStr s \<Rightarrow> Ok (TextContent s)
                  | PList xs \<Rightarrow> Ok (PartsContent xs)
                  | _ \<Rightarrow> Raise (ValueError ''persisted message content must be a string or list''))
             (\<lambda>c. Ok \<lparr>m_role = role, m_content = c,
                m_name = py_optional_str E (dict_get d ''name''),
                m_tool_call_id = py_optional_str E (dict_get d ''tool_call_id''),
                m_tool_calls = py_dicts (dict_get d ''tool_calls'')\<rparr>))"

definition interrupt_to_dict :: "interrupt \<Rightarrow> pydict res" where
  "interrupt_to_dict i =
     bindR (json_value (PDict (i_arguments i))) (\<lambda>args.
     Ok [(''kind'', PStr (i_kind i)), (''reason'', PStr (i_reason i)),
         (''invocation_id'', opt_val PStr (i_invocation_id i)),
         (''tool_name'', opt_val PStr (i_tool_name i)),
         (''arguments'', args), (''created_at'', PStr (i_created_at i))])"

definition interrupt_from_dict :: "pyenv \<Rightarrow> pydict \<Rightarrow> interrupt" where
  "interrupt_from_dict E d = \<lparr>
     i_kind = str_or E (dict_get d ''kind'') ''manual'',
     i_reason = str_or E (dict_get d ''reason'') ''interrupted'',
     i_invocation_id = py_optional_str E (dict_get d ''invocation_id''),
     i_tool_name = py_optional_str E (dict_get d ''tool_name''),
     i_arguments = as_dict (dict_get d ''arguments''),
     i_created_at = str_or E (dict_get d ''created_at'') (now_text E)\<rparr>"

definition run_error_to_dict :: "run_error \<Rightarrow> pydict res" where
  "run_error_to_dict e =
     bindR (json_value (PDict (e_metadata e))) (\<lambda>meta.
     Ok [(''type'', PStr (e_type e)), (''message'', PStr (e_message e)),
         (''step'', opt_val PStr (e_step e)), (''metadata'', meta)])"

definition run_error_from_dict :: "pyenv \<Rightarrow> pydict \<Rightarrow> run_error" where
  "run_error_from_dict E d = \<lparr>
     e_type = str_or E (dict_get d ''type'') ''RuntimeError'',
     e_message = str_or E (dict_get d ''message'') ''run failed'',
     e_step = py_optional_str E (dict_get d ''step''),
     e_metadata = as_dict (dict_get d ''metadata'')\<rparr>"

end
