(* ===== verification/RunState.thy ===== *)
theory RunState
  imports RunModels
begin

text \<open>
  \<^verbatim>\<open>RunState\<close> (alias \<^verbatim>\<open>Checkpoint\<close>) of \<^verbatim>\<open>runtime/models.py\<close>: the versioned durable state of one
  run, how it is created, encoded, decoded and shown to clients.
\<close>

record run_state =
  r_run_id :: string
  r_thread_id :: string
  r_turn_id :: string
  r_input :: string
  r_messages :: "message list"
  r_status :: run_status
  r_sequence :: int
  r_schema_version :: int
  r_agent_turn :: int
  r_step_index :: int
  r_total_tokens :: int
  r_output_text :: string
  r_execution_strategy :: string
  r_strategy_state :: pydict
  r_parent_run_id :: "string option"
  r_parent_step_id :: "string option"
  r_budget_owner_run_id :: "string option"
  r_budget_policy :: pydict
  r_progress_policy :: pydict
  r_progress_state :: pydict
  r_completion_contract :: pydict
  r_completion_verification :: pydict
  r_completion_verification_attempts :: int
  r_run_kind :: string
  r_principal_key :: string
  r_base_priority :: int
  r_runnable_since :: string
  r_pending_tool_calls :: "pydict list"
  r_next_tool_index :: int
  r_decisions :: "(string \<times> string) list"
  r_interrupt :: "interrupt option"
  r_error :: "run_error option"
  r_delivery_attempt :: int
  r_failure_queued_at :: "string option"
  r_last_delivery_failure :: "string option"
  r_last_delivery_failed_at :: "string option"
  r_last_delivery_worker_id :: "string option"
  r_last_delivery_fencing_token :: "int option"
  r_created_at :: string
  r_updated_at :: string

definition run_finished :: "run_state \<Rightarrow> bool" where
  "run_finished s \<longleftrightarrow> r_status s \<in> {RunCOMPLETED, RunFAILED, RunCANCELLED}"

text \<open>
  \<^verbatim>\<open>RunState.create\<close>. The arguments \<open>fresh_run\<close> and \<open>fresh_turn\<close> are the identifiers
  \<^verbatim>\<open>_new_id\<close> would draw; \<open>E\<close> gives the current time.
\<close>

definition create_run :: "pyenv \<Rightarrow> string \<Rightarrow> string \<Rightarrow> string \<Rightarrow> string \<Rightarrow> message list
    \<Rightarrow> string option \<Rightarrow> string option \<Rightarrow> string \<Rightarrow> string option \<Rightarrow> string option
    \<Rightarrow> string \<Rightarrow> string \<Rightarrow> int \<Rightarrow> string option
    \<Rightarrow> pydict \<Rightarrow> pydict \<Rightarrow> pydict \<Rightarrow> pydict \<Rightarrow> run_state" where
  "create_run E fresh_run fresh_turn thread_id inp history run_id turn_id strategy
     parent_run_id parent_step_id run_kind principal_key base_priority budget_owner_run_id
     budget_policy progress_policy progress_state completion_contract =
   \<lparr>r_run_id = (case run_id of Some i \<Rightarrow> if i = [] then fresh_run else i | None \<Rightarrow> fresh_run),
    r_thread_id = thread_id,
    r_turn_id = (case turn_id of Some i \<Rightarrow> if i = [] then fresh_turn else i | None \<Rightarrow> fresh_turn),
    r_input = inp,
    r_messages = history @ [\<lparr>m_role = ''user'', m_content = TextContent inp, m_name = None,
                             m_tool_call_id = None, m_tool_calls = []\<rparr>],
    r_status = RunRUNNING, r_sequence = 0, r_schema_version = CHECKPOINT_SCHEMA_VERSION,
    r_agent_turn = 0, r_step_index = 0, r_total_tokens = 0, r_output_text = [],
    r_execution_strategy = strategy, r_strategy_state = [],
    r_parent_run_id = parent_run_id, r_parent_step_id = parent_step_id,
    r_budget_owner_run_id = budget_owner_run_id, r_budget_policy = budget_policy,
    r_progress_policy = progress_policy, r_progress_state = progress_state,
    r_completion_contract = completion_contract, r_completion_verification = [],
    r_completion_verification_attempts = 0, r_run_kind = run_kind,
    r_principal_key = (if principal_key = [] then ''default'' else principal_key),
    r_base_priority = base_priority, r_runnable_since = now_text E,
    r_pending_tool_calls = [], r_next_tool_index = 0, r_decisions = [],
    r_interrupt = None, r_error = None, r_delivery_attempt = 0, r_failure_queued_at = None,
    r_last_delivery_failure = None, r_last_delivery_failed_at = None,
    r_last_delivery_worker_id = None, r_last_delivery_fencing_token = None,
    r_created_at = now_text E, r_updated_at = now_text E\<rparr>"

section \<open>Encoding\<close>

fun opt_dict :: "('a \<Rightarrow> pydict res) \<Rightarrow> 'a option \<Rightarrow> pyval res" where
  "opt_dict f None = Ok PNone"
| "opt_dict f (Some x) = bindR (f x) (\<lambda>d. Ok (PDict d))"

definition run_state_to_dict :: "run_state \<Rightarrow> pydict res" where
  "run_state_to_dict s =
     bindR (mapR message_to_dict (r_messages s)) (\<lambda>msgs.
     bindR (json_value (PDict (r_strategy_state s))) (\<lambda>strat.
     bindR (json_value (PDict (r_budget_policy s))) (\<lambda>budget.
     bindR (json_value (PDict (r_progress_policy s))) (\<lambda>ppol.
     bindR (json_value (PDict (r_progress_state s))) (\<lambda>pstate.
     bindR (json_value (PDict (r_completion_contract s))) (\<lambda>contract.
     bindR (json_value (PDict (r_completion_verification s))) (\<lambda>verif.
     bindR (json_value (PList (map PDict (r_pending_tool_calls s)))) (\<lambda>calls.
     bindR (opt_dict interrupt_to_dict (r_interrupt s)) (\<lambda>intr.
     bindR (opt_dict run_error_to_dict (r_error s)) (\<lambda>err.
     Ok [
       (''schema_version'', PInt (r_schema_version s)),
       (''run_id'', PStr (r_run_id s)),
       (''thread_id'', PStr (r_thread_id s)),
       (''turn_id'', PStr (r_turn_id s)),
       (''sequence'', PInt (r_sequence s)),
       (''status'', PStr (run_status_value (r_status s))),
       (''input'', PStr (r_input s)),
       (''messages'', PList (map PDict msgs)),
       (''agent_turn'', PInt (r_agent_turn s)),
       (''step_index'', PInt (r_step_index s)),
       (''total_tokens'', PInt (r_total_tokens s)),
       (''output_text'', PStr (r_output_text s)),
       (''execution_strategy'', PStr (r_execution_strategy s)),
       (''strategy_state'', strat),
       (''parent_run_id'', opt_val PStr (r_parent_run_id s)),
       (''parent_step_id'', opt_val PStr (r_parent_step_id s)),
       (''budget_owner_run_id'', opt_val PStr (r_budget_owner_run_id s)),
       (''budget_policy'', budget),
       (''progress_policy'', ppol),
       (''progress_state'', pstate),
       (''completion_contract'', contract),
       (''completion_verification'', verif),
       (''completion_verification_attempts'', PInt (r_completion_verification_attempts s)),
       (''run_kind'', PStr (r_run_kind s)),
       (''principal_key'', PStr (r_principal_key s)),
       (''base_priority'', PInt (r_base_priority s)),
       (''runnable_since'', PStr (r_runnable_since s)),
       (''pending_tool_calls'', calls),
       (''next_tool_index'', PInt (r_next_tool_index s)),
       (''decisions'', PDict (map (\<lambda>(k, v). (k, PStr v)) (r_decisions s))),
       (''interrupt'', intr),
       (''error'', err),
       (''delivery_attempt'', PInt (r_delivery_attempt s)),
       (''failure_queued_at'', opt_val PStr (r_failure_queued_at s)),
       (''last_delivery_failure'', opt_val PStr (r_last_delivery_failure s)),
       (''last_delivery_failed_at'', opt_val PStr (r_last_delivery_failed_at s)),
       (''last_delivery_worker_id'', opt_val PStr (r_last_delivery_worker_id s)),
       (''last_delivery_fencing_token'', opt_val PInt (r_last_delivery_fencing_token s)),
       (''created_at'', PStr (r_created_at s)),
       (''updated_at'', PStr (r_updated_at s))]))))))))))"

text \<open>\<^verbatim>\<open>public_dict\<close>: what the API shows of a run; no messages, no strategy state.\<close>

definition run_public_dict :: "run_state \<Rightarrow> pydict res" where
  "run_public_dict s =
     bindR (json_value (PDict (r_budget_policy s))) (\<lambda>budget.
     bindR (json_value (PDict (r_progress_policy s))) (\<lambda>ppol.
     bindR (json_value (PDict (r_progress_state s))) (\<lambda>pstate.
     bindR (json_value (PDict (r_completion_contract s))) (\<lambda>contract.
     bindR (json_value (PDict (r_completion_verification s))) (\<lambda>verif.
     bindR (opt_dict interrupt_to_dict (r_interrupt s)) (\<lambda>intr.
     bindR (opt_dict run_error_to_dict (r_error s)) (\<lambda>err.
     Ok [
       (''run_id'', PStr (r_run_id s)),
       (''thread_id'', PStr (r_thread_id s)),
       (''turn_id'', PStr (r_turn_id s)),
       (''status'', PStr (run_status_value (r_status s))),
       (''sequence'', PInt (r_sequence s)),
       (''agent_turn'', PInt (r_agent_turn s)),
       (''step_index'', PInt (r_step_index s)),
       (''total_tokens'', PInt (r_total_tokens s)),
       (''execution_strategy'', PStr (r_execution_strategy s)),
       (''parent_run_id'', opt_val PStr (r_parent_run_id s)),
       (''parent_step_id'', opt_val PStr (r_parent_step_id s)),
       (''budget_owner_run_id'', opt_val PStr (r_budget_owner_run_id s)),
       (''budget_policy'', budget),
       (''progress_policy'', ppol),
       (''progress_state'', pstate),
       (''completion_contract'', contract),
       (''completion_verification'', verif),
       (''completion_verification_attempts'', PInt (r_completion_verification_attempts s)),
       (''run_kind'', PStr (r_run_kind s)),
       (''interrupt'', intr),
       (''error'', err),
       (''delivery_attempt'', PInt (r_delivery_attempt s)),
       (''failure_queued_at'', opt_val PStr (r_failure_queued_at s)),
       (''last_delivery_failure'', opt_val PStr (r_last_delivery_failure s)),
       (''last_delivery_failed_at'', opt_val PStr (r_last_delivery_failed_at s)),
       (''last_delivery_worker_id'', opt_val PStr (r_last_delivery_worker_id s)),
       (''last_delivery_fencing_token'', opt_val PInt (r_last_delivery_fencing_token s)),
       (''created_at'', PStr (r_created_at s)),
       (''updated_at'', PStr (r_updated_at s))])))))))"

section \<open>Decoding\<close>

fun dict_option :: "pyval \<Rightarrow> pydict option" where
  "dict_option (PDict d) = Some d"
| "dict_option v = None"

definition int_or_zero :: "pyenv \<Rightarrow> pyval \<Rightarrow> int res" where
  "int_or_zero E v = py_int E (py_or v (PInt 0))"

definition opt_int :: "pyenv \<Rightarrow> pyval \<Rightarrow> int option res" where
  "opt_int E v = (if v = PNone then Ok None else bindR (py_int E v) (\<lambda>i. Ok (Some i)))"

definition run_state_from_dict :: "pyenv \<Rightarrow> pydict \<Rightarrow> run_state res" where
  "run_state_from_dict E d =
     bindR (int_or_zero E (dict_get d ''schema_version'')) (\<lambda>schema.
     if schema \<noteq> CHECKPOINT_SCHEMA_VERSION
     then Raise (ValueError (''unsupported checkpoint schema version: '' @ int_repr schema))
     else
     bindR (dict_item d ''run_id'') (\<lambda>rid.
     bindR (dict_item d ''thread_id'') (\<lambda>tid.
     bindR (dict_item d ''turn_id'') (\<lambda>uid.
     bindR (mapR (message_from_dict E) (py_dicts (dict_get d ''messages''))) (\<lambda>msgs.
     bindR (RunStatus (str_or E (dict_get d ''status'') (run_status_value RunRUNNING))) (\<lambda>st.
     bindR (int_or_zero E (dict_get d ''sequence'')) (\<lambda>sq.
     bindR (int_or_zero E (dict_get d ''agent_turn'')) (\<lambda>turn.
     bindR (int_or_zero E (dict_get d ''step_index'')) (\<lambda>step.
     bindR (int_or_zero E (dict_get d ''total_tokens'')) (\<lambda>tokens.
     bindR (int_or_zero E (dict_get d ''completion_verification_attempts'')) (\<lambda>cva.
     bindR (py_int E (if dict_get d ''base_priority'' \<noteq> PNone
                      then dict_get d ''base_priority'' else PInt 1)) (\<lambda>prio.
     bindR (int_or_zero E (dict_get d ''next_tool_index'')) (\<lambda>nti.
     bindR (int_or_zero E (dict_get d ''delivery_attempt'')) (\<lambda>datt.
     bindR (opt_int E (dict_get d ''last_delivery_fencing_token'')) (\<lambda>fence.
     Ok \<lparr>r_run_id = py_str E rid, r_thread_id = py_str E tid, r_turn_id = py_str E uid,
        r_input = str_or E (dict_get d ''input'') [],
        r_messages = msgs, r_status = st, r_sequence = sq, r_schema_version = schema,
        r_agent_turn = turn, r_step_index = step, r_total_tokens = tokens,
        r_output_text = str_or E (dict_get d ''output_text'') [],
        r_execution_strategy = str_or E (dict_get d ''execution_strategy'') ''react'',
        r_strategy_state = as_dict (dict_get d ''strategy_state''),
        r_parent_run_id = py_optional_str E (dict_get d ''parent_run_id''),
        r_parent_step_id = py_optional_str E (dict_get d ''parent_step_id''),
        r_budget_owner_run_id = py_optional_str E (dict_get d ''budget_owner_run_id''),
        r_budget_policy = as_dict (dict_get d ''budget_policy''),
        r_progress_policy = as_dict (dict_get d ''progress_policy''),
        r_progress_state = as_dict (dict_get d ''progress_state''),
        r_completion_contract = as_dict (dict_get d ''completion_contract''),
        r_completion_verification = as_dict (dict_get d ''completion_verification''),
        r_completion_verification_attempts = max 0 cva,
        r_run_kind = str_or E (dict_get d ''run_kind'') ''agent'',
        r_principal_key = str_or E (dict_get d ''principal_key'') ''default'',
        r_base_priority = prio,
        r_runnable_since = py_str E (py_or (dict_get d ''runnable_since'')
                             (py_or (dict_get d ''created_at'') (PStr (now_text E)))),
        r_pending_tool_calls = py_dicts (dict_get d ''pending_tool_calls''),
        r_next_tool_index = nti,
        r_decisions = map (\<lambda>(k, v). (k, py_str E v)) (as_dict (dict_get d ''decisions'')),
        r_interrupt = map_option (interrupt_from_dict E) (dict_option (dict_get d ''interrupt'')),
        r_error = map_option (run_error_from_dict E) (dict_option (dict_get d ''error'')),
        r_delivery_attempt = max 0 datt,
        r_failure_queued_at = py_optional_str E (dict_get d ''failure_queued_at''),
        r_last_delivery_failure = py_optional_str E (dict_get d ''last_delivery_failure''),
        r_last_delivery_failed_at = py_optional_str E (dict_get d ''last_delivery_failed_at''),
        r_last_delivery_worker_id = py_optional_str E (dict_get d ''last_delivery_worker_id''),
        r_last_delivery_fencing_token = fence,
        r_created_at = str_or E (dict_get d ''created_at'') (now_text E),
        r_updated_at = str_or E (dict_get d ''updated_at'') (now_text E)\<rparr>)))))))))))))))"

end
