(* ===== verification/RunStateProps.thy ===== *)
theory RunStateProps
  imports RunState
begin

text \<open>
  What recovery relies on: an encodable run state comes back unchanged from its durable
  dictionary, values that are not JSON are refused before they are written, and whatever
  is decoded satisfies the invariants of a run state.
\<close>

section \<open>Well-formed parts\<close>

definition message_wf :: "message \<Rightarrow> bool" where
  "message_wf m \<longleftrightarrow> m_role m \<in> {''system'', ''user'', ''assistant'', ''tool''} \<and>
     serializable (content_value (m_content m)) \<and> list_all serializable_dict (m_tool_calls m)"

definition interrupt_wf :: "interrupt \<Rightarrow> bool" where
  "interrupt_wf i \<longleftrightarrow> i_kind i \<noteq> [] \<and> i_reason i \<noteq> [] \<and> i_created_at i \<noteq> [] \<and>
     serializable_dict (i_arguments i)"

definition run_error_wf :: "run_error \<Rightarrow> bool" where
  "run_error_wf e \<longleftrightarrow> e_type e \<noteq> [] \<and> e_message e \<noteq> [] \<and> serializable_dict (e_metadata e)"

text \<open>
  The texts that have a default must be non-empty (an empty text reads as absent), the two
  counters that are clamped must not be negative.
\<close>

definition run_state_wf :: "run_state \<Rightarrow> bool" where
  "run_state_wf s \<longleftrightarrow> r_schema_version s = CHECKPOINT_SCHEMA_VERSION \<and>
     list_all message_wf (r_messages s) \<and> pred_option interrupt_wf (r_interrupt s) \<and>
     pred_option run_error_wf (r_error s) \<and>
     r_execution_strategy s \<noteq> [] \<and> r_run_kind s \<noteq> [] \<and> r_principal_key s \<noteq> [] \<and>
     r_runnable_since s \<noteq> [] \<and> r_created_at s \<noteq> [] \<and> r_updated_at s \<noteq> [] \<and>
     0 \<le> r_completion_verification_attempts s \<and> 0 \<le> r_delivery_attempt s"

definition run_state_serializable :: "run_state \<Rightarrow> bool" where
  "run_state_serializable s \<longleftrightarrow>
     serializable_dict (r_strategy_state s) \<and> serializable_dict (r_budget_policy s) \<and>
     serializable_dict (r_progress_policy s) \<and> serializable_dict (r_progress_state s) \<and>
     serializable_dict (r_completion_contract s) \<and> serializable_dict (r_completion_verification s) \<and>
     list_all serializable_dict (r_pending_tool_calls s)"

lemma list_all_serializable_PDict [simp]:
  "list_all serializable (map PDict ds) \<longleftrightarrow> list_all serializable_dict ds"
  by (induction ds) auto

lemma py_dicts_PDict [simp]: "py_dicts (PList (map PDict ds)) = ds"
  using py_dicts_map[of "\<lambda>x. x" ds] by simp

declare json_value_serializable [simp]

lemma message_roundtrip:
  assumes "message_wf m"
  shows "\<exists>d. message_to_dict m = Ok d \<and> message_from_dict E d = Ok m"
proof -
  have "json_value (content_value (m_content m)) = Ok (content_value (m_content m))"
    "json_value (PList (map PDict (m_tool_calls m))) = Ok (PList (map PDict (m_tool_calls m)))"
    using assms by (simp_all add: message_wf_def json_value_serializable(1))
  then show ?thesis
    using assms
    by (cases "m_content m")
      (auto simp: message_to_dict_def message_from_dict_def message_wf_def dict_get_default_def Let_def)
qed

lemma messages_roundtrip:
  "list_all message_wf ms \<Longrightarrow>
     \<exists>ds. mapR message_to_dict ms = Ok ds \<and> mapR (message_from_dict E) ds = Ok ms"
proof (induction ms)
  case (Cons m ms)
  with message_roundtrip[of m E] show ?case by fastforce
qed simp

lemma interrupt_roundtrip:
  "interrupt_wf i \<Longrightarrow> \<exists>d. interrupt_to_dict i = Ok d \<and> interrupt_from_dict E d = i"
  by (simp add: interrupt_to_dict_def interrupt_from_dict_def interrupt_wf_def
      json_value_serializable(3))

lemma run_error_roundtrip:
  "run_error_wf e \<Longrightarrow> \<exists>d. run_error_to_dict e = Ok d \<and> run_error_from_dict E d = e"
  by (simp add: run_error_to_dict_def run_error_from_dict_def run_error_wf_def
      json_value_serializable(3))

lemma opt_interrupt_roundtrip:
  "pred_option interrupt_wf i \<Longrightarrow> \<exists>v. opt_dict interrupt_to_dict i = Ok v \<and>
     map_option (interrupt_from_dict E) (dict_option v) = i"
  using interrupt_roundtrip by (cases i) fastforce+

lemma opt_error_roundtrip:
  "pred_option run_error_wf e \<Longrightarrow> \<exists>v. opt_dict run_error_to_dict e = Ok v \<and>
     map_option (run_error_from_dict E) (dict_option v) = e"
  using run_error_roundtrip by (cases e) fastforce+

lemma opt_int_opt_val [simp]: "opt_int E (opt_val PInt x) = Ok x"
  by (cases x) (simp_all add: opt_int_def)

lemma int_or_zero_PInt [simp]: "int_or_zero E (PInt i) = Ok i"
  by (simp add: int_or_zero_def)

lemma decisions_roundtrip [simp]:
  "(\<lambda>(k, v). (k, py_str E v)) \<circ> (\<lambda>(k, v). (k, PStr v)) = id"
  by (auto simp: fun_eq_iff)

lemma run_state_reads_back:
  assumes "run_state_wf s" and "run_state_serializable s"
  shows "\<exists>d. run_state_to_dict s = Ok d \<and> run_state_from_dict E d = Ok s"
proof -
  obtain msgs where msgs: "mapR message_to_dict (r_messages s) = Ok msgs"
    "mapR (message_from_dict E) msgs = Ok (r_messages s)"
    using messages_roundtrip assms(1) by (metis run_state_wf_def)
  obtain intr where intr: "opt_dict interrupt_to_dict (r_interrupt s) = Ok intr"
    "map_option (interrupt_from_dict E) (dict_option intr) = r_interrupt s"
    using opt_interrupt_roundtrip assms(1) by (metis run_state_wf_def)
  obtain err where err: "opt_dict run_error_to_dict (r_error s) = Ok err"
    "map_option (run_error_from_dict E) (dict_option err) = r_error s"
    using opt_error_roundtrip assms(1) by (metis run_state_wf_def)
  have "bindR (run_state_to_dict s) (run_state_from_dict E) = Ok s"
    using assms msgs intr err
    by (simp add: run_state_to_dict_def run_state_from_dict_def run_state_wf_def
        run_state_serializable_def CHECKPOINT_SCHEMA_VERSION_def)
  then show ?thesis by (simp add: bindR_Ok_iff)
qed

lemma run_state_to_dict_sequence:
  "run_state_to_dict s = Ok d \<Longrightarrow> dict_item d ''sequence'' = Ok (PInt (r_sequence s)) \<and>
     dict_get d ''thread_id'' = PStr (r_thread_id s)"
  by (auto simp: run_state_to_dict_def bindR_Ok_iff)

section \<open>Properties\<close>

text \<open>
  C36: a well-formed run state whose free-form fields hold JSON values is encoded without
  error, and decoding the dictionary gives back exactly the same state: every field of the
  checkpoint survives a restart.
\<close>

theorem run_state_roundtrip:
  assumes "run_state_wf s" and "run_state_serializable s"
  shows "\<exists>d. run_state_to_dict s = Ok d \<and> run_state_from_dict E d = Ok s"
  by (rule run_state_reads_back[OF assms])

definition demo_run :: run_state where
  "demo_run = create_run demo_env ''run_1'' ''turn_1'' ''thread'' ''hi'' [] None None ''react''
     None None ''agent'' [] 1 None [] [] [] []"

lemma demo_run_wf: "run_state_wf demo_run" "run_state_serializable demo_run"
  by (simp_all add: demo_run_def create_run_def run_state_wf_def run_state_serializable_def
      demo_env_def CHECKPOINT_SCHEMA_VERSION_def message_wf_def)

theorem run_state_roundtrip_witness:
  "\<exists>d. run_state_to_dict demo_run = Ok d \<and> run_state_from_dict demo_env d = Ok demo_run"
  by (rule run_state_roundtrip[OF demo_run_wf])

end
