(* ===== verification/ToolRecord.thy ===== *)
theory ToolRecord
  imports RunModels
begin

text \<open>
  \<^verbatim>\<open>ToolExecutionRecord\<close> and \<^verbatim>\<open>BudgetLedgerRecord\<close> of \<^verbatim>\<open>runtime/models.py\<close>: the durable record
  of one tool invocation, its dictionary form, and how a retry permission is read back from
  rows written before that permission was recorded.
\<close>

record tool_record =
  t_invocation_id :: string
  t_run_id :: string
  t_tool_call_id :: string
  t_tool_name :: string
  t_arguments_hash :: string
  t_status :: tool_status
  t_attempt :: int
  t_result :: "string option"
  t_is_error :: bool
  t_error :: "string option"
  t_last_failure_category :: "string option"
  t_last_error_code :: "string option"
  t_retry_state :: tool_retry_state
  t_retry_suppressed_reason :: "string option"
  t_next_retry_at :: "string option"
  t_retry_backoff_seconds :: rat
  t_started_at :: "string option"
  t_completed_at :: "string option"
  t_updated_at :: string

definition retry_exhausted :: "tool_record \<Rightarrow> bool" where
  "retry_exhausted r \<longleftrightarrow> t_retry_state r = RETRY_EXHAUSTED"

text \<open>The property setter \<^verbatim>\<open>retry_exhausted = value\<close>.\<close>

definition set_retry_exhausted :: "bool \<Rightarrow> tool_record \<Rightarrow> tool_record" where
  "set_retry_exhausted v r =
     (if v then r\<lparr>t_retry_state := RETRY_EXHAUSTED\<rparr>
      else if t_retry_state r = RETRY_EXHAUSTED then r\<lparr>t_retry_state := RetryNONE\<rparr>
      else r)"

definition tool_record_to_dict :: "tool_record \<Rightarrow> pydict" where
  "tool_record_to_dict r = [
     (''invocation_id'', PStr (t_invocation_id r)),
     (''run_id'', PStr (t_run_id r)),
     (''tool_call_id'', PStr (t_tool_call_id r)),
     (''tool_name'', PStr (t_tool_name r)),
     (''arguments_hash'', PStr (t_arguments_hash r)),
     (''status'', PStr (tool_status_value (t_status r))),
     (''attempt'', PInt (t_attempt r)),
     (''result'', opt_val PStr (t_result r)),
     (''is_error'', PBool (t_is_error r)),
     (''error'', opt_val PStr (t_error r)),
     (''last_failure_category'', opt_val PStr (t_last_failure_category r)),
     (''last_error_code'', opt_val PStr (t_last_error_code r)),
     (''retry_state'', PStr (retry_state_value (t_retry_state r))),
     (''retry_suppressed_reason'', opt_val PStr (t_retry_suppressed_reason r)),
     (''next_retry_at'', opt_val PStr (t_next_retry_at r)),
     (''retry_backoff_seconds'', PFloat (t_retry_backoff_seconds r)),
     (''started_at'', opt_val PStr (t_started_at r)),
     (''completed_at'', opt_val PStr (t_completed_at r)),
     (''updated_at'', PStr (t_updated_at r))]"

text \<open>
  The early return on a stored state other than \<open>NONE\<close>, then the fallbacks for rows that
  lack one. An unreadable stored state counts as \<open>NONE\<close>.
\<close>

definition inferred_retry_state :: "bool \<Rightarrow> string option \<Rightarrow> string option \<Rightarrow> tool_status \<Rightarrow> int
    \<Rightarrow> tool_retry_state" where
  "inferred_retry_state exhausted reason next status attempt =
     (if exhausted then RETRY_EXHAUSTED
      else if reason \<noteq> None then RETRY_SUPPRESSED
      else if next \<noteq> None then RETRY_PENDING
      else if 0 < attempt \<and> status \<in> {ToolFAILED, ToolUNKNOWN} then RETRY_SUPPRESSED
      else RetryNONE)"

definition parse_tool_retry_state :: "pyenv \<Rightarrow> pyval \<Rightarrow> bool \<Rightarrow> string option \<Rightarrow> string option
    \<Rightarrow> tool_status \<Rightarrow> int \<Rightarrow> tool_retry_state" where
  "parse_tool_retry_state E v exhausted reason next status attempt =
     (if v \<noteq> PNone
      then (case ToolRetryState (py_str E v) of
              Inl _ \<Rightarrow> inferred_retry_state exhausted reason next status attempt
            | Inr parsed \<Rightarrow>
                if parsed \<noteq> RetryNONE then parsed
                else inferred_retry_state exhausted reason next status attempt)
      else inferred_retry_state exhausted reason next status attempt)"

definition suppressed_reason :: "tool_retry_state \<Rightarrow> tool_status \<Rightarrow> string option \<Rightarrow> string option" where
  "suppressed_reason rs status reason =
     (if rs = RETRY_SUPPRESSED \<and> reason = None
      then Some (if status = ToolUNKNOWN then ''unknown_outcome'' else ''legacy_failure'')
      else reason)"

definition tool_record_from_dict :: "pyenv \<Rightarrow> pydict \<Rightarrow> tool_record res" where
  "tool_record_from_dict E d =
     bindR (bindR (dict_item d ''status'') (\<lambda>v. ToolExecutionStatus (py_str E v))) (\<lambda>status.
     bindR (py_int E (py_or (dict_get d ''attempt'') (PInt 0))) (\<lambda>attempt.
     let reason = py_optional_str E (dict_get d ''retry_suppressed_reason'');
         rs = parse_tool_retry_state E (dict_get d ''retry_state'')
                (truthy (dict_get d ''retry_exhausted'')) reason
                (py_optional_str E (dict_get d ''next_retry_at'')) status attempt in
     bindR (dict_item d ''invocation_id'') (\<lambda>inv.
     bindR (dict_item d ''run_id'') (\<lambda>rid.
     bindR (dict_item d ''tool_name'') (\<lambda>nm.
     bindR (dict_item d ''arguments_hash'') (\<lambda>h.
     bindR (py_float E (py_or (dict_get d ''retry_backoff_seconds'') (PFloat 0))) (\<lambda>backoff.
     Ok \<lparr>t_invocation_id = py_str E inv, t_run_id = py_str E rid,
        t_tool_call_id = str_or E (dict_get d ''tool_call_id'') [],
        t_tool_name = py_str E nm, t_arguments_hash = py_str E h,
        t_status = status, t_attempt = attempt,
        t_result = py_optional_str E (dict_get d ''result''),
        t_is_error = truthy (dict_get d ''is_error''),
        t_error = py_optional_str E (dict_get d ''error''),
        t_last_failure_category = py_optional_str E (dict_get d ''last_failure_category''),
        t_last_error_code = py_optional_str E (dict_get d ''last_error_code''),
        t_retry_state = rs,
        t_retry_suppressed_reason = suppressed_reason rs status reason,
        t_next_retry_at = py_optional_str E (dict_get d ''next_retry_at''),
        t_retry_backoff_seconds = backoff,
        t_started_at = py_optional_str E (dict_get d ''started_at''),
        t_completed_at = py_optional_str E (dict_get d ''completed_at''),
        t_updated_at = str_or E (dict_get d ''updated_at'') (now_text E)\<rparr>)))))))"

section \<open>The ledger record\<close>

text \<open>
  \<^verbatim>\<open>BudgetLedgerRecord\<close>. Its state is a type parameter: the budget manager's ledger in
  the running system.
\<close>

record 'l ledger_record =
  lr_owner_run_id :: string
  lr_version :: int
  lr_state :: 'l

definition ledger_record_to_dict :: "pydict ledger_record \<Rightarrow> pydict res" where
  "ledger_record_to_dict r =
     bindR (json_value (PDict (lr_state r))) (\<lambda>st.
     Ok [(''owner_run_id'', PStr (lr_owner_run_id r)), (''version'', PInt (lr_version r)),
         (''state'', st)])"

section \<open>What a decoded record guarantees\<close>

text \<open>The record a store gives back: the one written, with its retry decision completed.\<close>

definition settled :: "tool_record \<Rightarrow> tool_record" where
  "settled r =
     (let rs = if t_retry_state r \<noteq> RetryNONE then t_retry_state r
               else inferred_retry_state False (t_retry_suppressed_reason r) (t_next_retry_at r)
                      (t_status r) (t_attempt r)
      in r\<lparr>t_retry_state := rs,
           t_retry_suppressed_reason := suppressed_reason rs (t_status r) (t_retry_suppressed_reason r)\<rparr>)"

definition retry_decided :: "tool_record \<Rightarrow> bool" where
  "retry_decided r \<longleftrightarrow>
     (0 < t_attempt r \<and> t_status r \<in> {ToolFAILED, ToolUNKNOWN} \<longrightarrow> t_retry_state r \<noteq> RetryNONE) \<and>
     (t_retry_state r = RETRY_SUPPRESSED \<longrightarrow> t_retry_suppressed_reason r \<noteq> None) \<and>
     (t_retry_state r = RetryNONE \<longrightarrow>
        t_retry_suppressed_reason r = None \<and> t_next_retry_at r = None)"

lemma settled_decided: "retry_decided (settled r)"
  by (auto simp: settled_def retry_decided_def inferred_retry_state_def suppressed_reason_def Let_def)

lemma settled_id: "retry_decided r \<Longrightarrow> settled r = r"
  by (cases r) (auto simp: settled_def retry_decided_def inferred_retry_state_def
      suppressed_reason_def Let_def)

lemma settled_keeps [simp]:
  "t_invocation_id (settled r) = t_invocation_id r" "t_run_id (settled r) = t_run_id r"
  "t_arguments_hash (settled r) = t_arguments_hash r" "t_updated_at (settled r) = t_updated_at r"
  "t_status (settled r) = t_status r" "t_attempt (settled r) = t_attempt r"
  by (simp_all add: settled_def Let_def)

lemma tool_record_reads_back:
  "t_updated_at r \<noteq> [] \<Longrightarrow> tool_record_from_dict E (tool_record_to_dict r) = Ok (settled r)"
  by (cases "t_retry_state r")
    (simp_all add: tool_record_from_dict_def tool_record_to_dict_def settled_def Let_def
      parse_tool_retry_state_def ToolRetryState_def enum_parse_def)

lemma parsed_state_decided:
  "parse_tool_retry_state E v ex reason next status attempt = rs \<Longrightarrow>
     (0 < attempt \<and> status \<in> {ToolFAILED, ToolUNKNOWN} \<longrightarrow> rs \<noteq> RetryNONE) \<and>
     (rs = RetryNONE \<longrightarrow> reason = None \<and> next = None)"
  by (auto simp: parse_tool_retry_state_def inferred_retry_state_def split: sum.splits if_splits)

section \<open>Properties\<close>

text \<open>
  no retry permission is invented at a restart. Whatever a persisted tool record
  contains, legacy rows and unreadable states included, a record that is decoded with a failed or unknown
  outcome after at least one attempt carries an explicit retry decision, and a suppressed
  retry always names its reason.
\<close>

theorem decoded_tool_record_is_decided:
  assumes "tool_record_from_dict E d = Ok r"
  shows "retry_decided r"
  using assms parsed_state_decided
  unfolding tool_record_from_dict_def retry_decided_def bindR_Ok_iff Let_def suppressed_reason_def
  by fastforce

definition legacy_row :: pydict where
  "legacy_row = [(''invocation_id'', PStr ''i''), (''run_id'', PStr ''r''), (''tool_name'', PStr ''t''),
     (''arguments_hash'', PStr ''h''), (''status'', PStr ''FAILED''), (''attempt'', PInt 2)]"

theorem decoded_tool_record_is_decided_witness:
  "\<exists>r. tool_record_from_dict demo_env legacy_row = Ok r \<and> retry_decided r \<and>
       t_retry_state r = RETRY_SUPPRESSED \<and> t_retry_suppressed_reason r = Some ''legacy_failure''"
proof -
  obtain r where r: "tool_record_from_dict demo_env legacy_row = Ok r"
    "t_retry_state r = RETRY_SUPPRESSED" "t_retry_suppressed_reason r = Some ''legacy_failure''"
    by (simp add: tool_record_from_dict_def legacy_row_def ToolExecutionStatus_def enum_parse_def
        parse_tool_retry_state_def inferred_retry_state_def suppressed_reason_def
        py_optional_str_def Let_def)
  with decoded_tool_record_is_decided[OF r(1)] show ?thesis by blast
qed

text \<open>
  a tool record whose retry decision is made survives its dictionary form unchanged, and
  one whose decision is still open comes back as the same record with the decision settled.
\<close>

theorem tool_record_roundtrip:
  assumes "t_updated_at r \<noteq> []"
  shows "tool_record_from_dict E (tool_record_to_dict r) = Ok (settled r) \<and>
    (settled r = r \<longleftrightarrow> retry_decided r)"
  using tool_record_reads_back[OF assms] settled_id settled_decided by metis

definition demo_record :: tool_record where
  "demo_record = \<lparr>t_invocation_id = ''inv'', t_run_id = ''run'', t_tool_call_id = ''call'',
     t_tool_name = ''grep'', t_arguments_hash = ''h'', t_status = ToolSUCCEEDED, t_attempt = 1,
     t_result = Some ''ok'', t_is_error = False, t_error = None, t_last_failure_category = None,
     t_last_error_code = None, t_retry_state = RetryNONE, t_retry_suppressed_reason = None,
     t_next_retry_at = None, t_retry_backoff_seconds = 0, t_started_at = None,
     t_completed_at = None, t_updated_at = ''t0''\<rparr>"

theorem tool_record_roundtrip_witness:
  "tool_record_from_dict demo_env (tool_record_to_dict demo_record) = Ok demo_record"
  using tool_record_roundtrip[of demo_record demo_env]
  by (simp add: demo_record_def retry_decided_def)

end
