(* ===== verification/Checkpoints.thy ===== *)
theory Checkpoints
  imports RunStateProps ToolRecord
begin

text \<open>
  The stores of \<^verbatim>\<open>runtime/checkpoints.py\<close>: checkpoints advanced by compare-and-swap on their
  sequence, tool execution records, and budget ledgers advanced by compare-and-swap on their
  version. \<^verbatim>\<open>MemoryCheckpointStore\<close> and \<^verbatim>\<open>SQLiteCheckpointStore\<close> are modelled with the data they
  keep: dictionaries of encoded rows, and tables whose SQL statements are operations on lists
  of rows in insertion order. One operation is one transaction (the store's lock, or
  \<^verbatim>\<open>begin immediate\<close>). An operation returns the new store, the argument object as the
  code leaves it (it is mutated in place, also on some failures) and its outcome.
\<close>

section \<open>Ownership\<close>

text \<open>\<^verbatim>\<open>RunOwnership\<close>; the end of the lease in seconds.\<close>

record run_ownership =
  ow_run_id :: string
  ow_worker_id :: string
  ow_fencing_token :: int
  ow_lease_until :: rat
  ow_takeover :: bool
  ow_delivery_attempt :: int

definition no_ownership :: exn where
  "no_ownership = ValueError ''distributed ownership requires PostgreSQL storage''"

definition stale_checkpoint :: "string \<Rightarrow> int \<Rightarrow> int \<Rightarrow> exn" where
  "stale_checkpoint run expected got = CheckpointConflictError
     (''stale checkpoint for '' @ run @ '': expected '' @ int_repr expected @ '', got '' @ int_repr got)"

definition reused_invocation :: exn where
  "reused_invocation = ValueError ''invocation_id reused with different tool arguments''"

text \<open>What a save does to the checkpoint object: the next sequence and a fresh update time.\<close>

definition advanced :: "pyenv \<Rightarrow> run_state \<Rightarrow> run_state" where
  "advanced E cp = cp\<lparr>r_sequence := r_sequence cp + 1, r_updated_at := now_text E\<rparr>"

section \<open>The memory store\<close>

record 'l mem_store =
  ms_checkpoints :: "(string \<times> pydict list) list"
  ms_tools :: "(string \<times> pydict) list"
  ms_ledgers :: "(string \<times> int \<times> 'l) list"

definition mem_empty :: "'l mem_store" where
  "mem_empty = \<lparr>ms_checkpoints = [], ms_tools = [], ms_ledgers = []\<rparr>"

definition mem_rows :: "'l mem_store \<Rightarrow> string \<Rightarrow> pydict list" where
  "mem_rows st run = (case map_of (ms_checkpoints st) run of None \<Rightarrow> [] | Some rows \<Rightarrow> rows)"

definition mem_latest :: "pyenv \<Rightarrow> pydict list \<Rightarrow> int res" where
  "mem_latest E rows =
     (if rows = [] then Ok 0 else bindR (dict_item (last rows) ''sequence'') (py_int E))"

definition mem_save :: "pyenv \<Rightarrow> run_ownership option \<Rightarrow> run_state \<Rightarrow> 'l mem_store
    \<Rightarrow> 'l mem_store \<times> run_state \<times> unit res" where
  "mem_save E own cp st =
     (if own \<noteq> None then (st, cp, Raise no_ownership)
      else
        let run = r_run_id cp;
            rows = mem_rows st run;
            st1 = st\<lparr>ms_checkpoints := dict_setdefault run [] (ms_checkpoints st)\<rparr>
        in case mem_latest E rows of
             Inl e \<Rightarrow> (st1, cp, Raise e)
           | Inr latest \<Rightarrow>
               if latest \<noteq> r_sequence cp
               then (st1, cp, Raise (stale_checkpoint run latest (r_sequence cp)))
               else (case run_state_to_dict (advanced E cp) of
                       Inl e \<Rightarrow> (st1, advanced E cp, Raise e)
                     | Inr d \<Rightarrow>
                         (st1\<lparr>ms_checkpoints := dict_set run (rows @ [d]) (ms_checkpoints st1)\<rparr>,
                          advanced E cp, Ok ())))"

definition mem_load :: "pyenv \<Rightarrow> string \<Rightarrow> 'l mem_store \<Rightarrow> run_state option res" where
  "mem_load E run st =
     (let rows = mem_rows st run in
      if rows = [] then Ok None
      else bindR (run_state_from_dict E (last rows)) (\<lambda>s. Ok (Some s)))"

definition mem_list :: "pyenv \<Rightarrow> string \<Rightarrow> 'l mem_store \<Rightarrow> run_state list res" where
  "mem_list E thread st =
     bindR (mapR (run_state_from_dict E)
       (map last (filter (\<lambda>rows. rows \<noteq> [] \<and> dict_get (last rows) ''thread_id'' = PStr thread)
                   (dict_values (ms_checkpoints st)))))
     (\<lambda>ss. Ok (sort_key r_created_at ss))"

definition mem_save_tool :: "pyenv \<Rightarrow> run_ownership option \<Rightarrow> tool_record \<Rightarrow> 'l mem_store
    \<Rightarrow> 'l mem_store \<times> tool_record \<times> unit res" where
  "mem_save_tool E own r st =
     (if own \<noteq> None then (st, r, Raise no_ownership)
      else
        let stale = (case map_of (ms_tools st) (t_invocation_id r) of
                       None \<Rightarrow> False
                     | Some row \<Rightarrow> row \<noteq> [] \<and>
                         dict_get row ''arguments_hash'' \<noteq> PStr (t_arguments_hash r));
            r1 = r\<lparr>t_updated_at := now_text E\<rparr>
        in if stale then (st, r, Raise reused_invocation)
           else (st\<lparr>ms_tools := dict_set (t_invocation_id r) (tool_record_to_dict r1) (ms_tools st)\<rparr>,
                 r1, Ok ()))"

definition mem_load_tool :: "pyenv \<Rightarrow> string \<Rightarrow> 'l mem_store \<Rightarrow> tool_record option res" where
  "mem_load_tool E i st =
     (case map_of (ms_tools st) i of
        None \<Rightarrow> Ok None
      | Some row \<Rightarrow> if row = [] then Ok None
                    else bindR (tool_record_from_dict E row) (\<lambda>r. Ok (Some r)))"

definition mem_list_tools :: "pyenv \<Rightarrow> string \<Rightarrow> 'l mem_store \<Rightarrow> tool_record list res" where
  "mem_list_tools E run st =
     bindR (mapR (tool_record_from_dict E)
       (filter (\<lambda>row. dict_get row ''run_id'' = PStr run) (dict_values (ms_tools st))))
     (\<lambda>rs. Ok (sort_key t_invocation_id rs))"

definition mem_load_ledger :: "string \<Rightarrow> 'l mem_store \<Rightarrow> 'l ledger_record option" where
  "mem_load_ledger owner st =
     map_option (\<lambda>(v, l). \<lparr>lr_owner_run_id = owner, lr_version = v, lr_state = l\<rparr>)
       (map_of (ms_ledgers st) owner)"

definition mem_save_ledger :: "run_ownership option \<Rightarrow> 'l ledger_record \<Rightarrow> 'l mem_store
    \<Rightarrow> 'l mem_store \<times> 'l ledger_record \<times> unit res" where
  "mem_save_ledger own r st =
     (if own \<noteq> None then (st, r, Raise no_ownership)
      else
        let owner = lr_owner_run_id r;
            current = (case map_of (ms_ledgers st) owner of None \<Rightarrow> 0 | Some (v, _) \<Rightarrow> v)
        in if current \<noteq> lr_version r
           then (st, r, Raise (BudgetLedgerConflictError (''stale budget ledger for '' @ owner
                   @ '': expected '' @ int_repr current @ '', got '' @ int_repr (lr_version r))))
           else (st\<lparr>ms_ledgers := dict_set owner (lr_version r + 1, lr_state r) (ms_ledgers st)\<rparr>,
                 r\<lparr>lr_version := lr_version r + 1\<rparr>, Ok ()))"

section \<open>The SQLite store\<close>

text \<open>
  A payload column holds the JSON text of a dictionary; it is modelled by the dictionary,
  which \<^verbatim>\<open>json.loads\<close> gives back. A row of \<^verbatim>\<open>tool_executions\<close> has the fields of the record.
\<close>

record checkpoint_row =
  c_run_id :: string
  c_sequence :: int
  c_schema_version :: int
  c_thread_id :: string
  c_turn_id :: string
  c_status :: string
  c_state_json :: pydict
  c_created_at :: string

record 'l sqlite_store =
  sq_checkpoints :: "checkpoint_row list"
  sq_tools :: "tool_record list"
  sq_ledgers :: "(string \<times> int \<times> 'l) list"

definition sqlite_empty :: "'l sqlite_store" where
  "sqlite_empty = \<lparr>sq_checkpoints = [], sq_tools = [], sq_ledgers = []\<rparr>"

fun sql_max :: "int list \<Rightarrow> int option" where
  "sql_max [] = None"
| "sql_max (x # xs) = Some (fold max xs x)"

definition run_rows :: "'l sqlite_store \<Rightarrow> string \<Rightarrow> checkpoint_row list" where
  "run_rows st run = filter (\<lambda>row. c_run_id row = run) (sq_checkpoints st)"

definition sqlite_latest :: "'l sqlite_store \<Rightarrow> string \<Rightarrow> int" where
  "sqlite_latest st run =
     (case sql_max (map c_sequence (run_rows st run)) of None \<Rightarrow> 0 | Some n \<Rightarrow> n)"

definition checkpoint_row_of :: "run_state \<Rightarrow> pydict \<Rightarrow> checkpoint_row" where
  "checkpoint_row_of cp d =
     \<lparr>c_run_id = r_run_id cp, c_sequence = r_sequence cp, c_schema_version = r_schema_version cp,
      c_thread_id = r_thread_id cp, c_turn_id = r_turn_id cp,
      c_status = run_status_value (r_status cp), c_state_json = d, c_created_at = r_updated_at cp\<rparr>"

definition sqlite_save :: "pyenv \<Rightarrow> run_ownership option \<Rightarrow> run_state \<Rightarrow> 'l sqlite_store
    \<Rightarrow> 'l sqlite_store \<times> run_state \<times> unit res" where
  "sqlite_save E own cp st =
     (if own \<noteq> None then (st, cp, Raise no_ownership)
      else
        let latest = sqlite_latest st (r_run_id cp) in
        if latest \<noteq> r_sequence cp
        then (st, cp, Raise (stale_checkpoint (r_run_id cp) latest (r_sequence cp)))
        else (case run_state_to_dict (advanced E cp) of
                Inl e \<Rightarrow> (st, advanced E cp, Raise e)
              | Inr d \<Rightarrow> (st\<lparr>sq_checkpoints := sq_checkpoints st @ [checkpoint_row_of (advanced E cp) d]\<rparr>,
                          advanced E cp, Ok ())))"

text \<open>\<^verbatim>\<open>order by sequence desc limit 1\<close>\<close>

definition sqlite_latest_row :: "'l sqlite_store \<Rightarrow> string \<Rightarrow> checkpoint_row option" where
  "sqlite_latest_row st run =
     (let rows = sort_key c_sequence (run_rows st run) in
      if rows = [] then None else Some (last rows))"

definition sqlite_load :: "pyenv \<Rightarrow> string \<Rightarrow> 'l sqlite_store \<Rightarrow> run_state option res" where
  "sqlite_load E run st =
     (case sqlite_latest_row st run of
        None \<Rightarrow> Ok None
      | Some row \<Rightarrow> bindR (run_state_from_dict E (c_state_json row)) (\<lambda>s. Ok (Some s)))"

text \<open>
  The join with the groups of the thread: a row is selected when its sequence is the greatest
  one among the rows of its run that belong to the thread. The result is ordered by the time
  the row was inserted.
\<close>

definition sqlite_list :: "pyenv \<Rightarrow> string \<Rightarrow> 'l sqlite_store \<Rightarrow> run_state list res" where
  "sqlite_list E thread st =
     (let in_thread = filter (\<lambda>row. c_thread_id row = thread) (sq_checkpoints st);
          newest = (\<lambda>row. sql_max (map c_sequence
                       (filter (\<lambda>g. c_run_id g = c_run_id row) in_thread)) = Some (c_sequence row))
      in mapR (\<lambda>row. run_state_from_dict E (c_state_json row))
           (sort_key c_created_at (filter newest (sq_checkpoints st))))"

text \<open>The upsert leaves the four identifying columns of an existing row as they are.\<close>

definition upsert_tool :: "tool_record \<Rightarrow> tool_record \<Rightarrow> tool_record" where
  "upsert_tool old r =
     r\<lparr>t_run_id := t_run_id old, t_tool_call_id := t_tool_call_id old,
       t_tool_name := t_tool_name old, t_arguments_hash := t_arguments_hash old\<rparr>"

definition find_tool :: "'l sqlite_store \<Rightarrow> string \<Rightarrow> tool_record option" where
  "find_tool st i = find (\<lambda>row. t_invocation_id row = i) (sq_tools st)"

definition sqlite_save_tool :: "pyenv \<Rightarrow> run_ownership option \<Rightarrow> tool_record \<Rightarrow> 'l sqlite_store
    \<Rightarrow> 'l sqlite_store \<times> tool_record \<times> unit res" where
  "sqlite_save_tool E own r st =
     (if own \<noteq> None then (st, r, Raise no_ownership)
      else
        let r1 = r\<lparr>t_updated_at := now_text E\<rparr> in
        case find_tool st (t_invocation_id r) of
          None \<Rightarrow> (st\<lparr>sq_tools := sq_tools st @ [r1]\<rparr>, r1, Ok ())
        | Some old \<Rightarrow>
            if t_arguments_hash old \<noteq> t_arguments_hash r
            then (st, r1, Raise reused_invocation)
            else (st\<lparr>sq_tools := map (\<lambda>row. if t_invocation_id row = t_invocation_id r
                                              then upsert_tool row r1 else row) (sq_tools st)\<rparr>,
                  r1, Ok ()))"

definition sqlite_load_tool :: "pyenv \<Rightarrow> string \<Rightarrow> 'l sqlite_store \<Rightarrow> tool_record option res" where
  "sqlite_load_tool E i st =
     (case find_tool st i of
        None \<Rightarrow> Ok None
      | Some row \<Rightarrow> bindR (tool_record_from_dict E (tool_record_to_dict row)) (\<lambda>r. Ok (Some r)))"

definition sqlite_list_tools :: "pyenv \<Rightarrow> string \<Rightarrow> 'l sqlite_store \<Rightarrow> tool_record list res" where
  "sqlite_list_tools E run st =
     mapR (\<lambda>row. tool_record_from_dict E (tool_record_to_dict row))
       (sort_key t_invocation_id (filter (\<lambda>row. t_run_id row = run) (sq_tools st)))"

definition sqlite_load_ledger :: "string \<Rightarrow> 'l sqlite_store \<Rightarrow> 'l ledger_record option" where
  "sqlite_load_ledger owner st =
     map_option (\<lambda>(v, l). \<lparr>lr_owner_run_id = owner, lr_version = v, lr_state = l\<rparr>)
       (map_of (sq_ledgers st) owner)"

text \<open>
  Version 0 is an insert that fails on an existing owner; otherwise an update of the row with
  that owner and that version.
\<close>

definition sqlite_save_ledger :: "run_ownership option \<Rightarrow> 'l ledger_record \<Rightarrow> 'l sqlite_store
    \<Rightarrow> 'l sqlite_store \<times> 'l ledger_record \<times> unit res" where
  "sqlite_save_ledger own r st =
     (if own \<noteq> None then (st, r, Raise no_ownership)
      else
        let owner = lr_owner_run_id r;
            done = r\<lparr>lr_version := lr_version r + 1\<rparr>
        in if lr_version r = 0
           then (if owner \<in> set (dict_keys (sq_ledgers st))
                 then (st, r, Raise (BudgetLedgerConflictError (''budget ledger already exists: '' @ owner)))
                 else (st\<lparr>sq_ledgers := sq_ledgers st @ [(owner, 1, lr_state r)]\<rparr>, done, Ok ()))
           else (if \<exists>row \<in> set (sq_ledgers st). fst row = owner \<and> fst (snd row) = lr_version r
                 then (st\<lparr>sq_ledgers := map (\<lambda>row. if fst row = owner \<and> fst (snd row) = lr_version r
                                                    then (owner, lr_version r + 1, lr_state r) else row)
                                          (sq_ledgers st)\<rparr>, done, Ok ())
                 else (st, r, Raise (BudgetLedgerConflictError (''stale budget ledger for '' @ owner)))))"

text \<open>\<^verbatim>\<open>_migrate_tool_execution_retry_columns\<close>: the update of rows written before retry decisions.\<close>

definition migrate_tool_row :: "tool_record \<Rightarrow> tool_record" where
  "migrate_tool_row r =
     (if t_retry_state r = RetryNONE \<and> 0 < t_attempt r \<and> t_status r \<in> {ToolFAILED, ToolUNKNOWN}
      then r\<lparr>t_retry_state := RETRY_SUPPRESSED,
             t_retry_suppressed_reason :=
               Some (if t_status r = ToolUNKNOWN then ''unknown_outcome'' else ''legacy_failure'')\<rparr>
      else r)"

definition sqlite_migrate :: "'l sqlite_store \<Rightarrow> 'l sqlite_store" where
  "sqlite_migrate st = st\<lparr>sq_tools := map migrate_tool_row (sq_tools st)\<rparr>"

section \<open>Clients of any store\<close>

text \<open>\<^verbatim>\<open>advance_run_state\<close>: a save with the ownership the caller holds, if any.\<close>

definition advance_run_state :: "(run_ownership option \<Rightarrow> run_state \<Rightarrow> 's \<Rightarrow> 's \<times> run_state \<times> unit res)
    \<Rightarrow> run_ownership option \<Rightarrow> run_state \<Rightarrow> 's \<Rightarrow> 's \<times> run_state \<times> unit res" where
  "advance_run_state save own s st =
     (case own of None \<Rightarrow> save None s st | Some w \<Rightarrow> save (Some w) s st)"

end
