(* ===== verification/StoreLaws.thy ===== *)
theory StoreLaws
  imports Checkpoints "HOL-Library.Sublist"
begin

text \<open>
  What the runtime relies on of a checkpoint store and of a ledger store, as interfaces, with
  the consequences proved once, and both stores of \<^verbatim>\<open>runtime/checkpoints.py\<close> as
  interpretations. The checkpoint contract is an append-only log per run: a save appends
  exactly when the caller's sequence is the length of the log.
\<close>

section \<open>The checkpoint store contract\<close>

fun save_all :: "(pyenv \<Rightarrow> run_state \<Rightarrow> 's \<Rightarrow> 's \<times> run_state \<times> unit res)
    \<Rightarrow> (pyenv \<times> run_state) list \<Rightarrow> 's \<Rightarrow> 's \<times> (run_state \<times> unit res) list" where
  "save_all save [] s = (s, [])"
| "save_all save ((E, cp) # ops) s =
     (case save E cp s of (s1, cp1, r) \<Rightarrow>
      case save_all save ops s1 of (s2, outs) \<Rightarrow> (s2, (cp1, r) # outs))"

text \<open>
  The part of the contract every store keeps, the distributed one included: saves are the
  only writers of the log, and one of them appends or nothing happens.
\<close>

locale checkpoint_log =
  fixes csave :: "pyenv \<Rightarrow> run_state \<Rightarrow> 's \<Rightarrow> 's \<times> run_state \<times> unit res"
    and history :: "string \<Rightarrow> 's \<Rightarrow> pydict list"
    and cinv :: "'s \<Rightarrow> bool"
  assumes save_appends:
      "cinv s \<Longrightarrow> r_sequence cp = int (length (history (r_run_id cp) s)) \<Longrightarrow>
       run_state_to_dict (advanced E cp) = Ok d \<Longrightarrow>
       \<exists>s'. csave E cp s = (s', advanced E cp, Ok ()) \<and> cinv s' \<and>
         (\<forall>run. history run s' =
            (if run = r_run_id cp then history run s @ [d] else history run s))"
    and save_refuses:
      "cinv s \<Longrightarrow> r_sequence cp \<noteq> int (length (history (r_run_id cp) s)) \<or>
         run_state_to_dict (advanced E cp) = Raise e \<Longrightarrow>
       \<exists>s' cp' e'. csave E cp s = (s', cp', Raise e') \<and> cinv s' \<and>
         (\<forall>run. history run s' = history run s)"
begin

lemma save_cases:
  assumes "cinv s"
  obtains (appended) s' d where "csave E cp s = (s', advanced E cp, Ok ())" "cinv s'"
      "r_sequence cp = int (length (history (r_run_id cp) s))"
      "run_state_to_dict (advanced E cp) = Ok d"
      "\<And>run. history run s' = (if run = r_run_id cp then history run s @ [d] else history run s)"
    | (refused) s' cp' e where "csave E cp s = (s', cp', Raise e)" "cinv s'"
      "\<And>run. history run s' = history run s"
proof (cases "r_sequence cp = int (length (history (r_run_id cp) s))")
  case True
  show ?thesis
  proof (cases "run_state_to_dict (advanced E cp)")
    case (Inl e)
    then show ?thesis using save_refuses[OF assms] that(2) by metis
  next
    case (Inr d)
    then show ?thesis using save_appends[OF assms True Inr] that(1) True by metis
  qed
next
  case False
  then show ?thesis using save_refuses[OF assms] that(2) by metis
qed

lemma save_keeps_log:
  assumes "cinv s" "csave E cp s = (s', cp', r)"
  shows "cinv s' \<and> prefix (history run s) (history run s')"
  using assms(1) by (rule save_cases[of s E cp]) (use assms(2) in auto)

lemma save_all_keeps_log:
  "cinv s \<Longrightarrow> save_all csave ops s = (s', outs) \<Longrightarrow>
     cinv s' \<and> prefix (history run s) (history run s')"
proof (induction ops arbitrary: s outs)
  case (Cons op ops)
  obtain E cp where op: "op = (E, cp)" by fastforce
  obtain s1 cp1 r where s1: "csave E cp s = (s1, cp1, r)" by (metis prod_cases3)
  obtain outs' where "save_all csave ops s1 = (s', outs')"
    using Cons.prems(2) by (auto simp: op s1 split: prod.splits)
  with Cons.IH save_keeps_log[OF Cons.prems(1) s1] show ?case
    using prefix_order.trans by blast
qed simp

text \<open>Of two saves from the same sequence at most one succeeds, whatever happens in between.\<close>

lemma one_of_two_saves:
  assumes "cinv s" "csave E1 cp1 s = (s1, cp1', Ok ())" "save_all csave ops s1 = (s2, outs)"
    "r_run_id cp2 = r_run_id cp1" "r_sequence cp2 = r_sequence cp1"
  shows "cinv s2 \<and> r_sequence cp2 < int (length (history (r_run_id cp2) s2)) \<and>
    (\<exists>s3 cp' e. csave E2 cp2 s2 = (s3, cp', Raise e) \<and> (\<forall>run. history run s3 = history run s2))"
proof -
  have s1: "cinv s1" "r_sequence cp1 = int (length (history (r_run_id cp1) s))"
    "length (history (r_run_id cp1) s1) = Suc (length (history (r_run_id cp1) s))"
    using assms(1) by (rule save_cases[of s E1 cp1], use assms(2) in auto)+
  have s2: "cinv s2" "prefix (history (r_run_id cp1) s1) (history (r_run_id cp1) s2)"
    using save_all_keeps_log[OF s1(1) assms(3)] by auto
  then have "length (history (r_run_id cp1) s1) \<le> length (history (r_run_id cp1) s2)"
    by (simp add: prefix_length_le)
  with s1 assms(4,5) have lt: "r_sequence cp2 < int (length (history (r_run_id cp2) s2))" by simp
  then have "r_sequence cp2 \<noteq> int (length (history (r_run_id cp2) s2))" by simp
  with save_refuses[OF s2(1), of cp2] s2(1) lt show ?thesis by blast
qed

end

text \<open>The local stores: the errors are exact, and a load reads the end of the log.\<close>

locale checkpoint_store =
  fixes csave :: "pyenv \<Rightarrow> run_state \<Rightarrow> 's \<Rightarrow> 's \<times> run_state \<times> unit res"
    and cload :: "pyenv \<Rightarrow> string \<Rightarrow> 's \<Rightarrow> run_state option res"
    and history :: "string \<Rightarrow> 's \<Rightarrow> pydict list"
    and cinv :: "'s \<Rightarrow> bool"
  assumes save_current:
      "cinv s \<Longrightarrow> r_sequence cp = int (length (history (r_run_id cp) s)) \<Longrightarrow>
       run_state_to_dict (advanced E cp) = Ok d \<Longrightarrow>
       \<exists>s'. csave E cp s = (s', advanced E cp, Ok ()) \<and> cinv s' \<and>
         (\<forall>run. history run s' =
            (if run = r_run_id cp then history run s @ [d] else history run s))"
    and save_unserializable:
      "cinv s \<Longrightarrow> r_sequence cp = int (length (history (r_run_id cp) s)) \<Longrightarrow>
       run_state_to_dict (advanced E cp) = Raise e \<Longrightarrow>
       \<exists>s'. csave E cp s = (s', advanced E cp, Raise e) \<and> cinv s' \<and>
         (\<forall>run. history run s' = history run s)"
    and save_stale:
      "cinv s \<Longrightarrow> r_sequence cp \<noteq> int (length (history (r_run_id cp) s)) \<Longrightarrow>
       \<exists>s'. csave E cp s = (s', cp, Raise (stale_checkpoint (r_run_id cp)
                (int (length (history (r_run_id cp) s))) (r_sequence cp))) \<and> cinv s' \<and>
         (\<forall>run. history run s' = history run s)"
    and load_last:
      "cinv s \<Longrightarrow> cload E run s =
         (if history run s = [] then Ok None
          else bindR (run_state_from_dict E (last (history run s))) (\<lambda>x. Ok (Some x)))"

sublocale checkpoint_store \<subseteq> checkpoint_log csave history cinv
proof (unfold_locales, goal_cases)
  case (1 s cp E d)
  then show ?case by (rule save_current)
next
  case (2 s cp E e)
  then show ?case
    using save_unserializable[OF 2(1), of cp E e] save_stale[OF 2(1), of cp E] by blast
qed

context checkpoint_store
begin

lemma single_writer:
  assumes "cinv s" "csave E1 cp1 s = (s1, cp1', Ok ())" "save_all csave ops s1 = (s2, outs)"
    "r_run_id cp2 = r_run_id cp1" "r_sequence cp2 = r_sequence cp1"
  shows "\<exists>s3 got. csave E2 cp2 s2 = (s3, cp2, Raise (stale_checkpoint (r_run_id cp2) got (r_sequence cp2)))
           \<and> r_sequence cp2 < got \<and> (\<forall>run. history run s3 = history run s2)"
proof -
  note two = one_of_two_saves[OF assms, of E2]
  then have "r_sequence cp2 \<noteq> int (length (history (r_run_id cp2) s2))" by simp
  with save_stale[of s2 cp2] two show ?thesis by fastforce
qed

lemma load_after_save:
  assumes "cinv s" "csave E cp s = (s', cp', Ok ())"
  shows "\<exists>d. run_state_to_dict cp' = Ok d \<and> cp' = advanced E cp \<and>
           cload E' (r_run_id cp) s' = bindR (run_state_from_dict E' d) (\<lambda>x. Ok (Some x))"
  using assms(1) by (rule save_cases[of s E cp]) (use assms(2) in \<open>auto simp: load_last\<close>)

end

section \<open>Two stores with the same contract\<close>

locale checkpoint_store_pair =
  a: checkpoint_store asave aload ahistory ainv + b: checkpoint_store bsave bload bhistory binv
  for asave :: "pyenv \<Rightarrow> run_state \<Rightarrow> 'a \<Rightarrow> 'a \<times> run_state \<times> unit res"
    and aload :: "pyenv \<Rightarrow> string \<Rightarrow> 'a \<Rightarrow> run_state option res"
    and ahistory :: "string \<Rightarrow> 'a \<Rightarrow> pydict list"
    and ainv :: "'a \<Rightarrow> bool"
    and bsave :: "pyenv \<Rightarrow> run_state \<Rightarrow> 'b \<Rightarrow> 'b \<times> run_state \<times> unit res"
    and bload :: "pyenv \<Rightarrow> string \<Rightarrow> 'b \<Rightarrow> run_state option res"
    and bhistory :: "string \<Rightarrow> 'b \<Rightarrow> pydict list"
    and binv :: "'b \<Rightarrow> bool"
begin

lemma save_agrees:
  assumes "ainv s" "binv t" "\<And>run. ahistory run s = bhistory run t"
    "asave E cp s = (s', cp1, r1)" "bsave E cp t = (t', cp2, r2)"
  shows "cp1 = cp2 \<and> r1 = r2 \<and> ainv s' \<and> binv t' \<and> (\<forall>run. ahistory run s' = bhistory run t')"
proof (cases "r_sequence cp = int (length (ahistory (r_run_id cp) s))")
  case True
  show ?thesis
  proof (cases "run_state_to_dict (advanced E cp)")
    case (Inl e)
    with a.save_unserializable[OF assms(1) True Inl] b.save_unserializable[OF assms(2), of cp E e]
      True assms show ?thesis by fastforce
  next
    case (Inr d)
    with a.save_current[OF assms(1) True Inr] b.save_current[OF assms(2), of cp E d] True assms
    show ?thesis by fastforce
  qed
next
  case False
  with a.save_stale[OF assms(1) False, of E] b.save_stale[OF assms(2), of cp E] assms
  show ?thesis by fastforce
qed

lemma save_all_agrees:
  "ainv s \<Longrightarrow> binv t \<Longrightarrow> (\<And>run. ahistory run s = bhistory run t) \<Longrightarrow>
   save_all asave ops s = (s', outs1) \<Longrightarrow> save_all bsave ops t = (t', outs2) \<Longrightarrow>
   outs1 = outs2 \<and> aload E run s' = bload E run t'"
proof (induction ops arbitrary: s t outs1 outs2)
  case Nil
  then show ?case by (simp add: a.load_last b.load_last)
next
  case (Cons op ops)
  obtain F cp where op: "op = (F, cp)" by fastforce
  obtain s1 c1 r1 where s1: "asave F cp s = (s1, c1, r1)" by (metis prod_cases3)
  obtain t1 c2 r2 where t1: "bsave F cp t = (t1, c2, r2)" by (metis prod_cases3)
  obtain o1 where o1: "save_all asave ops s1 = (s', o1)" "outs1 = (c1, r1) # o1"
    using Cons.prems(4) by (auto simp: op s1 split: prod.splits)
  obtain o2 where o2: "save_all bsave ops t1 = (t', o2)" "outs2 = (c2, r2) # o2"
    using Cons.prems(5) by (auto simp: op t1 split: prod.splits)
  from save_agrees[OF Cons.prems(1-3) s1 t1] Cons.IH[OF _ _ _ o1(1) o2(1)] o1(2) o2(2)
  show ?case by simp
qed

end

end
