(* ===== verification/StoreModels.thy ===== *)
theory StoreModels
  imports StoreLaws
begin

text \<open>
  The memory store and the SQLite store satisfy the checkpoint contract: their invariants,
  the interpretations, and the guarantees of \<^verbatim>\<open>runtime/checkpoints.py\<close> that follow for runs.
\<close>

section \<open>The memory store\<close>

definition numbered :: "pydict list \<Rightarrow> bool" where
  "numbered rows \<longleftrightarrow>
     (\<forall>i < length rows. dict_item (rows ! i) ''sequence'' = Ok (PInt (int i + 1)))"

definition mem_inv :: "'l mem_store \<Rightarrow> bool" where
  "mem_inv st \<longleftrightarrow> (\<forall>run. numbered (mem_rows st run))"

lemma numbered_snoc:
  "numbered (rows @ [d]) \<longleftrightarrow>
     numbered rows \<and> dict_item d ''sequence'' = Ok (PInt (int (length rows) + 1))"
  by (auto simp: numbered_def nth_append less_Suc_eq all_conj_distrib)

lemma numbered_Nil [simp]: "numbered []"
  by (simp add: numbered_def)

lemma mem_latest_numbered: "numbered rows \<Longrightarrow> mem_latest E rows = Ok (int (length rows))"
  by (cases rows rule: rev_cases) (simp_all add: mem_latest_def numbered_snoc)

lemma mem_rows_setdefault [simp]:
  "mem_rows (st\<lparr>ms_checkpoints := dict_setdefault run [] (ms_checkpoints st)\<rparr>) r = mem_rows st r"
  by (simp add: mem_rows_def map_of_dict_setdefault split: option.splits)

lemma mem_rows_set [simp]:
  "mem_rows (st\<lparr>ms_checkpoints := dict_set run rows d\<rparr>) r =
     (if r = run then rows else mem_rows (st\<lparr>ms_checkpoints := d\<rparr>) r)"
  by (simp add: mem_rows_def)

lemma advanced_sequence [simp]:
  "r_sequence (advanced E cp) = r_sequence cp + 1" "r_run_id (advanced E cp) = r_run_id cp"
  "r_thread_id (advanced E cp) = r_thread_id cp" "r_updated_at (advanced E cp) = now_text E"
  by (simp_all add: advanced_def)

abbreviation mem_history :: "string \<Rightarrow> 'l mem_store \<Rightarrow> pydict list" where
  "mem_history run st \<equiv> mem_rows st run"

interpretation mem: checkpoint_store "\<lambda>E. mem_save E None" mem_load mem_history mem_inv
proof (unfold_locales, goal_cases)
  case (1 s cp E d)
  then have "dict_item d ''sequence'' = Ok (PInt (r_sequence cp + 1))"
    using run_state_to_dict_sequence by fastforce
  with 1 show ?case
    by (simp add: mem_save_def Let_def mem_latest_numbered mem_inv_def numbered_snoc)
next
  case (2 s cp E e)
  then show ?case by (simp add: mem_save_def Let_def mem_latest_numbered mem_inv_def)
next
  case (3 s cp E)
  then show ?case by (simp add: mem_save_def Let_def mem_latest_numbered mem_inv_def)
next
  case (4 s E run)
  then show ?case by (simp add: mem_load_def Let_def)
qed

lemma mem_inv_empty: "mem_inv mem_empty" "mem_history run mem_empty = []"
  by (simp_all add: mem_inv_def mem_empty_def mem_rows_def)

section \<open>The SQLite store\<close>

definition sqlite_inv :: "'l sqlite_store \<Rightarrow> bool" where
  "sqlite_inv st \<longleftrightarrow> (\<forall>run.
     map c_sequence (run_rows st run) = map (\<lambda>i. int i + 1) [0..<length (run_rows st run)] \<and>
     numbered (map c_state_json (run_rows st run)))"

abbreviation sqlite_history :: "string \<Rightarrow> 'l sqlite_store \<Rightarrow> pydict list" where
  "sqlite_history run st \<equiv> map c_state_json (run_rows st run)"

lemma fold_max_snoc: "fold max (xs @ [y]) x = max y (fold max xs (x::int))"
  by simp

lemma fold_max_bound:
  fixes x :: int
  assumes "x \<le> b" "\<forall>y \<in> set xs. y \<le> b"
  shows "fold max xs x \<le> b"
  using assms by (induction xs arbitrary: x) auto

lemma sql_max_snoc:
  "\<forall>y \<in> set xs. y \<le> b \<Longrightarrow> sql_max (xs @ [b]) = Some b"
  by (cases xs) (auto intro!: antisym fold_max_bound simp: max_def)

lemma sql_max_upto:
  "sql_max (map (\<lambda>i. int i + 1) [0..<n]) = (if n = 0 then None else Some (int n))"
proof (cases n)
  case (Suc m)
  have "sql_max (map (\<lambda>i. int i + 1) [0..<m] @ [int m + 1]) = Some (int m + 1)"
    by (rule sql_max_snoc) auto
  with Suc show ?thesis by simp
qed simp

lemma sqlite_latest_inv:
  "sqlite_inv st \<Longrightarrow> sqlite_latest st run = int (length (run_rows st run))"
  by (auto simp: sqlite_latest_def sqlite_inv_def sql_max_upto)

lemma sorted_upto: "sorted (map (\<lambda>i. int i + 1) [0..<n])"
  by (simp add: sorted_iff_nth_mono)

lemma sqlite_latest_row_inv:
  "sqlite_inv st \<Longrightarrow> sqlite_latest_row st run =
     (if run_rows st run = [] then None else Some (last (run_rows st run)))"
proof -
  assume inv: "sqlite_inv st"
  then have "map c_sequence (run_rows st run) = map (\<lambda>i. int i + 1) [0..<length (run_rows st run)]"
    by (simp add: sqlite_inv_def)
  then have "sorted (map c_sequence (run_rows st run))" using sorted_upto by metis
  then have "sort_key c_sequence (run_rows st run) = run_rows st run"
    by (rule sort_key_id_if_sorted)
  then show ?thesis by (simp add: sqlite_latest_row_def Let_def)
qed

lemma run_rows_append [simp]:
  "run_rows (st\<lparr>sq_checkpoints := sq_checkpoints st @ [row]\<rparr>) run =
     (if c_run_id row = run then run_rows st run @ [row] else run_rows st run)"
  by (simp add: run_rows_def)

lemma checkpoint_row_of_sel [simp]:
  "c_run_id (checkpoint_row_of cp d) = r_run_id cp" "c_sequence (checkpoint_row_of cp d) = r_sequence cp"
  "c_state_json (checkpoint_row_of cp d) = d" "c_created_at (checkpoint_row_of cp d) = r_updated_at cp"
  "c_thread_id (checkpoint_row_of cp d) = r_thread_id cp"
  by (simp_all add: checkpoint_row_of_def)

interpretation sqlite: checkpoint_store "\<lambda>E. sqlite_save E None" sqlite_load sqlite_history sqlite_inv
proof (unfold_locales, goal_cases)
  case (1 s cp E d)
  then have "dict_item d ''sequence'' = Ok (PInt (r_sequence cp + 1))"
    using run_state_to_dict_sequence by fastforce
  with 1 show ?case
    by (simp add: sqlite_save_def Let_def sqlite_latest_inv)
      (simp add: sqlite_inv_def numbered_snoc)
next
  case (2 s cp E e)
  then show ?case by (simp add: sqlite_save_def Let_def sqlite_latest_inv)
next
  case (3 s cp E)
  then show ?case by (simp add: sqlite_save_def Let_def sqlite_latest_inv)
next
  case (4 s E run)
  then show ?case by (simp add: sqlite_load_def sqlite_latest_row_inv last_map)
qed

lemma sqlite_inv_empty: "sqlite_inv sqlite_empty" "sqlite_history run sqlite_empty = []"
  by (simp_all add: sqlite_inv_def sqlite_empty_def run_rows_def)

interpretation backends: checkpoint_store_pair
  "\<lambda>E. mem_save E None" mem_load mem_history mem_inv
  "\<lambda>E. sqlite_save E None" sqlite_load sqlite_history sqlite_inv
  by unfold_locales

end
