(* ===== verification/ToolStore.thy ===== *)
theory ToolStore
  imports Checkpoints
begin

text \<open>
  The contract of \<^verbatim>\<open>ToolExecutionStore\<close>, on which the exactly-once bookkeeping of tool calls
  rests: an invocation keeps the arguments it was first recorded with, and what was saved
  last is what a restarted worker reads. Both local stores are interpretations.
\<close>

text \<open>The fields a save may change on an existing row, in every store.\<close>

definition outcome :: "tool_record \<Rightarrow> tool_record" where
  "outcome r = r\<lparr>t_run_id := [], t_tool_call_id := [], t_tool_name := []\<rparr>"

definition stamped :: "pyenv \<Rightarrow> tool_record \<Rightarrow> tool_record" where
  "stamped E r = r\<lparr>t_updated_at := now_text E\<rparr>"

fun save_tools :: "(pyenv \<Rightarrow> tool_record \<Rightarrow> 's \<Rightarrow> 's \<times> tool_record \<times> unit res)
    \<Rightarrow> (pyenv \<times> tool_record) list \<Rightarrow> 's \<Rightarrow> 's" where
  "save_tools save [] s = s"
| "save_tools save ((E, r) # ops) s = save_tools save ops (fst (save E r s))"

locale tool_store =
  fixes tsave :: "pyenv \<Rightarrow> tool_record \<Rightarrow> 's \<Rightarrow> 's \<times> tool_record \<times> unit res"
    and tload :: "pyenv \<Rightarrow> string \<Rightarrow> 's \<Rightarrow> tool_record option res"
    and tinv :: "'s \<Rightarrow> bool"
  assumes load_defined: "tinv s \<Longrightarrow> \<exists>q. \<forall>E. tload E i s = Ok q"
    and save_accepted:
      "tinv s \<Longrightarrow> now_text E \<noteq> [] \<Longrightarrow> tload E (t_invocation_id r) s = Ok old \<Longrightarrow>
       (\<And>q. old = Some q \<Longrightarrow> t_arguments_hash q = t_arguments_hash r) \<Longrightarrow>
       \<exists>s' q. tsave E r s = (s', stamped E r, Ok ()) \<and> tinv s' \<and>
         outcome q = outcome (settled (stamped E r)) \<and>
         (\<forall>F j. tload F j s' = (if j = t_invocation_id r then Ok (Some q) else tload F j s))"
    and save_reused:
      "tinv s \<Longrightarrow> tload E (t_invocation_id r) s = Ok (Some q) \<Longrightarrow>
       t_arguments_hash q \<noteq> t_arguments_hash r \<Longrightarrow>
       \<exists>r'. tsave E r s = (s, r', Raise reused_invocation)"
begin

lemma save_cases:
  assumes "tinv s" "now_text E \<noteq> []"
  obtains (saved) s' q where "tsave E r s = (s', stamped E r, Ok ())" "tinv s'"
      "outcome q = outcome (settled (stamped E r))"
      "\<And>F j. tload F j s' = (if j = t_invocation_id r then Ok (Some q) else tload F j s)"
      "\<And>F q'. tload F (t_invocation_id r) s = Ok (Some q') \<Longrightarrow> t_arguments_hash q' = t_arguments_hash r"
    | (refused) r' where "tsave E r s = (s, r', Raise reused_invocation)"
proof -
  obtain old where old: "\<And>F. tload F (t_invocation_id r) s = Ok old"
    using load_defined[OF assms(1)] by metis
  show ?thesis
  proof (cases "\<exists>q. old = Some q \<and> t_arguments_hash q \<noteq> t_arguments_hash r")
    case True
    then obtain q where "old = Some q" "t_arguments_hash q \<noteq> t_arguments_hash r" by blast
    then show ?thesis using save_reused[OF assms(1)] old that(2) by metis
  next
    case False
    have "(\<And>q. old = Some q \<Longrightarrow> t_arguments_hash q = t_arguments_hash r)" using False by blast
    with save_accepted[OF assms old] old that(1) show ?thesis
      by (metis (no_types, lifting) sum.inject(2))
  qed
qed

lemma outcome_hash: "outcome q = outcome r \<Longrightarrow> t_arguments_hash q = t_arguments_hash r"
  unfolding outcome_def by (metis (no_types, lifting) tool_record.select_convs(5)
      tool_record.surjective tool_record.update_convs(2,3,4))

lemma save_keeps_arguments:
  assumes "tinv s" "now_text E \<noteq> []" "tload F i s = Ok (Some q)"
  shows "tinv (fst (tsave E r s)) \<and>
    (\<exists>q'. tload F i (fst (tsave E r s)) = Ok (Some q') \<and> t_arguments_hash q' = t_arguments_hash q)"
  using assms(1,2)
proof (cases rule: save_cases[of s E r])
  case (saved s' q1)
  have "t_arguments_hash q1 = t_arguments_hash r"
    using outcome_hash[OF saved(3)] by (simp add: stamped_def)
  with saved assms(3) show ?thesis by (cases "i = t_invocation_id r") auto
next
  case (refused r')
  with assms show ?thesis by simp
qed

lemma saves_keep_arguments:
  "tinv s \<Longrightarrow> (\<And>E r. (E, r) \<in> set ops \<Longrightarrow> now_text E \<noteq> []) \<Longrightarrow> tload F i s = Ok (Some q) \<Longrightarrow>
   \<exists>q'. tload F i (save_tools tsave ops s) = Ok (Some q') \<and> t_arguments_hash q' = t_arguments_hash q"
proof (induction ops arbitrary: s q)
  case (Cons op ops)
  obtain E r where op: "op = (E, r)" by fastforce
  have "now_text E \<noteq> []" using Cons.prems(2) op by auto
  from save_keeps_arguments[OF Cons.prems(1) this Cons.prems(3), of r]
  obtain q1 where q1: "tinv (fst (tsave E r s))"
    "tload F i (fst (tsave E r s)) = Ok (Some q1)" "t_arguments_hash q1 = t_arguments_hash q" by blast
  have "\<exists>q'. tload F i (save_tools tsave ops (fst (tsave E r s))) = Ok (Some q') \<and>
      t_arguments_hash q' = t_arguments_hash q1"
    by (rule Cons.IH[OF q1(1) _ q1(2)]) (use Cons.prems(2) in auto)
  with q1(3) op show ?case by simp
qed auto

lemma saves_keep_inv:
  "tinv s \<Longrightarrow> (\<And>E r. (E, r) \<in> set ops \<Longrightarrow> now_text E \<noteq> []) \<Longrightarrow> tinv (save_tools tsave ops s)"
proof (induction ops arbitrary: s)
  case (Cons op ops)
  obtain E r where op: "op = (E, r)" by fastforce
  have now: "now_text E \<noteq> []" using Cons.prems(2) op by auto
  have "tinv (fst (tsave E r s))"
    using Cons.prems(1) now by (cases rule: save_cases[of s E r]) (use Cons.prems(1) in auto)
  from Cons.IH[OF this] Cons.prems(2) show ?case by (auto simp: op)
qed simp

lemma load_after_save:
  assumes "tinv s" "now_text E \<noteq> []" "tsave E r s = (s', r', Ok ())"
  shows "\<exists>q. tload F (t_invocation_id r) s' = Ok (Some q) \<and>
           outcome q = outcome (settled (stamped E r)) \<and> r' = stamped E r"
  using assms(1,2) by (cases rule: save_cases[of s E r]) (use assms(3) in auto)

end

section \<open>The memory store\<close>

definition mem_tools_inv :: "'l mem_store \<Rightarrow> bool" where
  "mem_tools_inv st \<longleftrightarrow> (\<forall>i row. map_of (ms_tools st) i = Some row \<longrightarrow>
     (\<exists>r. row = tool_record_to_dict r \<and> t_updated_at r \<noteq> []))"

lemma tool_record_to_dict_nonempty [simp]: "tool_record_to_dict r \<noteq> []"
  by (simp add: tool_record_to_dict_def)

lemma tool_record_to_dict_hash [simp]:
  "dict_get (tool_record_to_dict r) ''arguments_hash'' = PStr (t_arguments_hash r)"
  by (simp add: tool_record_to_dict_def)

lemma stamped_simps [simp]:
  "t_updated_at (stamped E r) = now_text E" "t_invocation_id (stamped E r) = t_invocation_id r"
  "t_arguments_hash (stamped E r) = t_arguments_hash r"
  by (simp_all add: stamped_def)

lemma mem_load_tool_row:
  "map_of (ms_tools st) i = Some (tool_record_to_dict r) \<Longrightarrow> t_updated_at r \<noteq> [] \<Longrightarrow>
     mem_load_tool E i st = Ok (Some (settled r))"
  by (simp add: mem_load_tool_def tool_record_reads_back)

lemma mem_load_tool_absent: "map_of (ms_tools st) i = None \<Longrightarrow> mem_load_tool E i st = Ok None"
  by (simp add: mem_load_tool_def)

lemma mem_tools_cases:
  assumes "mem_tools_inv st"
  obtains "map_of (ms_tools st) i = None"
  | r where "map_of (ms_tools st) i = Some (tool_record_to_dict r)" "t_updated_at r \<noteq> []"
  using assms by (cases "map_of (ms_tools st) i") (auto simp: mem_tools_inv_def)

lemma mem_save_tool_accepts:
  assumes "mem_tools_inv s" "now_text E \<noteq> []"
    "case map_of (ms_tools s) (t_invocation_id r) of None \<Rightarrow> True
       | Some row \<Rightarrow> dict_get row ''arguments_hash'' = PStr (t_arguments_hash r)"
  shows "\<exists>s'. mem_save_tool E None r s = (s', stamped E r, Ok ()) \<and> mem_tools_inv s' \<and>
    (\<forall>F j. mem_load_tool F j s' =
       (if j = t_invocation_id r then Ok (Some (settled (stamped E r))) else mem_load_tool F j s))"
proof -
  let ?s' = "s\<lparr>ms_tools := dict_set (t_invocation_id r) (tool_record_to_dict (stamped E r)) (ms_tools s)\<rparr>"
  have "mem_save_tool E None r s = (?s', stamped E r, Ok ())"
    using assms(3) by (auto simp: mem_save_tool_def stamped_def Let_def split: option.splits)
  moreover have "mem_tools_inv ?s'"
    using assms(1,2) by (fastforce simp: mem_tools_inv_def)
  moreover have "mem_load_tool F j ?s' =
       (if j = t_invocation_id r then Ok (Some (settled (stamped E r))) else mem_load_tool F j s)" for F j
    using assms(2) by (simp add: mem_load_tool_def tool_record_reads_back)
  ultimately show ?thesis by blast
qed

interpretation mem_tools: tool_store "\<lambda>E. mem_save_tool E None" mem_load_tool mem_tools_inv
proof (unfold_locales, goal_cases)
  case (1 s i)
  then show ?case
    by (cases rule: mem_tools_cases[of s i]) (auto simp: mem_load_tool_row mem_load_tool_absent)
next
  case (2 s E r old)
  have "case map_of (ms_tools s) (t_invocation_id r) of None \<Rightarrow> True
       | Some row \<Rightarrow> dict_get row ''arguments_hash'' = PStr (t_arguments_hash r)"
    using 2(1) by (cases rule: mem_tools_cases[of s "t_invocation_id r"])
      (use 2 in \<open>auto simp: mem_load_tool_row\<close>)
  from mem_save_tool_accepts[OF 2(1,2) this] show ?case by blast
next
  case (3 s E r q)
  from 3(1) show ?case
    by (cases rule: mem_tools_cases[of s "t_invocation_id r"])
      (use 3 in \<open>auto simp: mem_save_tool_def mem_load_tool_row mem_load_tool_absent Let_def\<close>)
qed

section \<open>The SQLite store\<close>

definition sqlite_tools_inv :: "'l sqlite_store \<Rightarrow> bool" where
  "sqlite_tools_inv st \<longleftrightarrow> (\<forall>r \<in> set (sq_tools st). t_updated_at r \<noteq> [])"

lemma upsert_sel [simp]:
  "t_invocation_id (upsert_tool old r) = t_invocation_id r"
  "t_updated_at (upsert_tool old r) = t_updated_at r"
  by (simp_all add: upsert_tool_def)

lemma outcome_upsert:
  "t_arguments_hash old = t_arguments_hash r \<Longrightarrow>
     outcome (settled (upsert_tool old r)) = outcome (settled r)"
  by (cases r) (auto simp: outcome_def settled_def upsert_tool_def Let_def)

lemma find_tool_map:
  "find (\<lambda>row. t_invocation_id row = j) (map (\<lambda>row. if t_invocation_id row = t_invocation_id r
       then upsert_tool row r else row) rows) =
   (if j = t_invocation_id r then map_option (\<lambda>old. upsert_tool old r) (find (\<lambda>row. t_invocation_id row = j) rows)
    else find (\<lambda>row. t_invocation_id row = j) rows)"
  by (induction rows) auto

lemma find_snoc: "find P (xs @ [x]) = (case find P xs of None \<Rightarrow> if P x then Some x else None | Some y \<Rightarrow> Some y)"
  by (induction xs) auto

lemma find_tool_in: "find_tool st i = Some r \<Longrightarrow> r \<in> set (sq_tools st) \<and> t_invocation_id r = i"
  by (auto simp: find_tool_def find_Some_iff)

lemma sqlite_load_tool_inv:
  "sqlite_tools_inv st \<Longrightarrow> sqlite_load_tool E i st = Ok (map_option settled (find_tool st i))"
  using find_tool_in[of st i]
  by (cases "find_tool st i") (auto simp: sqlite_load_tool_def sqlite_tools_inv_def tool_record_reads_back)

lemma sqlite_save_tool_new:
  assumes "sqlite_tools_inv s" "now_text E \<noteq> []" "find_tool s (t_invocation_id r) = None"
  shows "\<exists>s'. sqlite_save_tool E None r s = (s', stamped E r, Ok ()) \<and> sqlite_tools_inv s' \<and>
    (\<forall>j. find_tool s' j = (if j = t_invocation_id r then Some (stamped E r) else find_tool s j))"
  using assms by (auto simp: sqlite_save_tool_def sqlite_tools_inv_def stamped_def find_tool_def
      find_snoc Let_def split: option.splits)

lemma sqlite_save_tool_update:
  assumes "sqlite_tools_inv s" "now_text E \<noteq> []" "find_tool s (t_invocation_id r) = Some old"
    "t_arguments_hash old = t_arguments_hash r"
  shows "\<exists>s'. sqlite_save_tool E None r s = (s', stamped E r, Ok ()) \<and> sqlite_tools_inv s' \<and>
    (\<forall>j. find_tool s' j = (if j = t_invocation_id r then Some (upsert_tool old (stamped E r))
                           else find_tool s j))"
proof -
  let ?s' = "s\<lparr>sq_tools := map (\<lambda>row. if t_invocation_id row = t_invocation_id (stamped E r)
               then upsert_tool row (stamped E r) else row) (sq_tools s)\<rparr>"
  have "sqlite_save_tool E None r s = (?s', stamped E r, Ok ())"
    using assms(3,4) by (simp add: sqlite_save_tool_def Let_def stamped_def)
  moreover have "sqlite_tools_inv ?s'" using assms(1,2) by (auto simp: sqlite_tools_inv_def)
  moreover have "find_tool ?s' j = (if j = t_invocation_id r
      then Some (upsert_tool old (stamped E r)) else find_tool s j)" for j
    using assms(3) by (simp add: find_tool_def find_tool_map del: stamped_simps)
      (simp add: stamped_def)
  ultimately show ?thesis by blast
qed

interpretation sqlite_tools: tool_store "\<lambda>E. sqlite_save_tool E None" sqlite_load_tool sqlite_tools_inv
proof (unfold_locales, goal_cases)
  case (1 s i)
  then show ?case by (simp add: sqlite_load_tool_inv)
next
  case (2 s E r old)
  show ?case
  proof (cases "find_tool s (t_invocation_id r)")
    case None
    from sqlite_save_tool_new[OF 2(1,2) None] 2(1) show ?thesis
      by (auto simp: sqlite_load_tool_inv)
  next
    case (Some old')
    with 2(1,3) have "old = Some (settled old')" by (simp add: sqlite_load_tool_inv)
    with 2(4) have "t_arguments_hash old' = t_arguments_hash r" by fastforce
    from sqlite_save_tool_update[OF 2(1,2) Some this] 2(1) this outcome_upsert[of old' "stamped E r"]
    show ?thesis by (auto simp: sqlite_load_tool_inv)
  qed
next
  case (3 s E r q)
  then show ?case by (auto simp: sqlite_load_tool_inv sqlite_save_tool_def Let_def)
qed

end
