(* ===== verification/StoreProps.thy ===== *)
theory StoreProps
  imports StoreModels ToolStore
begin

text \<open>
  The guarantees of the local stores, stated over the stores themselves: what a recovering
  worker reads, that a stale worker cannot advance a run, that both backends behave alike,
  and where their listings differ.
\<close>

abbreviation sqlite_saves :: "(pyenv \<times> run_state) list \<Rightarrow> 'l sqlite_store
    \<Rightarrow> 'l sqlite_store \<times> (run_state \<times> unit res) list" where
  "sqlite_saves \<equiv> save_all (\<lambda>E. sqlite_save E None)"

abbreviation mem_saves :: "(pyenv \<times> run_state) list \<Rightarrow> 'l mem_store
    \<Rightarrow> 'l mem_store \<times> (run_state \<times> unit res) list" where
  "mem_saves \<equiv> save_all (\<lambda>E. mem_save E None)"

lemma sqlite_saves_inv:
  "sqlite_saves ops sqlite_empty = (s, outs) \<Longrightarrow> sqlite_inv s"
  using sqlite.save_all_keeps_log[OF sqlite_inv_empty(1)] by blast

lemma mem_saves_inv: "mem_saves ops mem_empty = (s, outs) \<Longrightarrow> mem_inv s"
  using mem.save_all_keeps_log[OF mem_inv_empty(1)] by blast

text \<open>
  optimistic concurrency. Once some worker has advanced a run from a sequence, every
  other worker that still holds that sequence is refused, however many saves of any runs come
  in between, and its attempt leaves every run's history as it was.
\<close>

theorem stale_worker_refused:
  assumes "sqlite_saves ops0 sqlite_empty = (s0, outs0)"
    and "sqlite_save E1 None cp1 s0 = (s1, cp1', Ok ())"
    and "sqlite_saves ops s1 = (s2, outs)"
    and "r_run_id cp2 = r_run_id cp1" and "r_sequence cp2 = r_sequence cp1"
  shows "\<exists>s3 got. sqlite_save E2 None cp2 s2 =
      (s3, cp2, Raise (stale_checkpoint (r_run_id cp2) got (r_sequence cp2))) \<and>
    r_sequence cp2 < got \<and> (\<forall>run. run_rows s3 run = run_rows s2 run)"
proof -
  obtain s3 got where s3: "sqlite_save E2 None cp2 s2 =
      (s3, cp2, Raise (stale_checkpoint (r_run_id cp2) got (r_sequence cp2)))" "r_sequence cp2 < got"
    using sqlite.single_writer[OF sqlite_saves_inv[OF assms(1)] assms(2-5)] by blast
  then have "s3 = s2" by (auto simp: sqlite_save_def Let_def split: if_splits sum.splits)
  with s3 show ?thesis by blast
qed

lemma to_dict_wf:
  assumes "run_state_wf s" "run_state_serializable s" "now_text E \<noteq> []"
  shows "\<exists>d. run_state_to_dict (advanced E s) = Ok d \<and>
    (\<forall>F. run_state_from_dict F d = Ok (advanced E s))"
proof -
  have "run_state_wf (advanced E s)" "run_state_serializable (advanced E s)"
    using assms by (simp_all add: advanced_def run_state_wf_def run_state_serializable_def)
  from run_state_reads_back[OF this] show ?thesis by (metis sum.inject(2))
qed

lemma sqlite_save_fresh:
  assumes "sqlite_inv s" "run_state_wf cp" "run_state_serializable cp" "now_text E \<noteq> []"
    "r_sequence cp = int (length (run_rows s (r_run_id cp)))"
  shows "\<exists>s'. sqlite_save E None cp s = (s', advanced E cp, Ok ())"
proof -
  obtain d where "run_state_to_dict (advanced E cp) = Ok d" using to_dict_wf assms by blast
  with sqlite.save_current[OF assms(1), of cp E d] assms(5) show ?thesis by auto
qed

lemma demo_run_facts: "r_sequence demo_run = 0" "r_run_id demo_run = ''run_1''" "now_text demo_env \<noteq> []"
  by (simp_all add: demo_run_def create_run_def demo_env_def)

lemma demo_save:
  "\<exists>s. sqlite_save demo_env None demo_run (sqlite_empty :: unit sqlite_store) = (s, advanced demo_env demo_run, Ok ())"
  by (rule sqlite_save_fresh[OF sqlite_inv_empty(1) demo_run_wf])
    (simp_all add: demo_run_facts run_rows_def sqlite_empty_def)

theorem stale_worker_refused_witness:
  "\<exists>s (s3 :: unit sqlite_store) got. sqlite_save demo_env None demo_run s =
      (s3, demo_run, Raise (stale_checkpoint ''run_1'' got 0)) \<and> 0 < got"
proof -
  obtain s :: "unit sqlite_store" where
    s: "sqlite_save demo_env None demo_run sqlite_empty = (s, advanced demo_env demo_run, Ok ())"
    using demo_save by blast
  have "\<exists>s3 got. sqlite_save demo_env None demo_run s =
      (s3, demo_run, Raise (stale_checkpoint (r_run_id demo_run) got (r_sequence demo_run))) \<and>
      r_sequence demo_run < got \<and> (\<forall>run. run_rows s3 run = run_rows s run)"
    using stale_worker_refused[of "[]" _ "[]", OF _ s, of "[]" s "[]" demo_run demo_env] by simp
  then show ?thesis by (auto simp: demo_run_facts)
qed

text \<open>
  a recovering worker reads exactly what was saved. After a successful save of a
  well-formed run into a SQLite store reached by any saves, loading the run gives the
  checkpoint object as the save left it, with the sequence one higher, and the run's rows are
  numbered 1, 2, 3, ... without gaps.
\<close>

theorem recovery_reads_last_save:
  assumes "sqlite_saves ops sqlite_empty = (s, outs)"
    and "sqlite_save E None cp s = (s', cp', Ok ())"
    and "run_state_wf cp" and "run_state_serializable cp" and "now_text E \<noteq> []"
  shows "sqlite_load F (r_run_id cp) s' = Ok (Some cp') \<and> r_sequence cp' = r_sequence cp + 1 \<and>
    map c_sequence (run_rows s' (r_run_id cp)) = map int [1..<Suc (nat (r_sequence cp'))]"
proof -
  note inv = sqlite_saves_inv[OF assms(1)]
  obtain d where d: "run_state_to_dict cp' = Ok d" "cp' = advanced E cp"
    "sqlite_load F (r_run_id cp) s' = bindR (run_state_from_dict F d) (\<lambda>x. Ok (Some x))"
    using sqlite.load_after_save[OF inv assms(2), of F] by blast
  have "run_state_from_dict F d = Ok cp'"
    using to_dict_wf[OF assms(3-5)] d(1,2) by auto
  moreover have "sqlite_inv s'" using sqlite.save_keeps_log[OF inv assms(2)] by blast
  moreover have "length (run_rows s' (r_run_id cp)) = nat (r_sequence cp')"
    using inv
  proof (rule sqlite.save_cases[of s E cp])
    fix s1 e assume "sqlite_save E None cp s = (s1, advanced E cp, Ok ())"
      "r_sequence cp = int (length (map c_state_json (run_rows s (r_run_id cp))))"
    moreover assume hist: "\<And>run. sqlite_history run s1 =
        (if run = r_run_id cp then sqlite_history run s @ [e] else sqlite_history run s)"
    moreover have "length (run_rows s1 (r_run_id cp)) = Suc (length (run_rows s (r_run_id cp)))"
      using arg_cong[OF hist[of "r_run_id cp"], of length] by (simp only: length_map if_True simp_thms) simp
    ultimately show ?thesis using assms(2) by simp
  qed (use assms(2) in auto)
  moreover have "map (\<lambda>i. int i + 1) [0..<n] = map int [1..<Suc n]" for n by (induction n) auto
  ultimately show ?thesis using d by (simp add: sqlite_inv_def del: upt_Suc)
qed

theorem recovery_reads_last_save_witness:
  "\<exists>s' :: unit sqlite_store. sqlite_load demo_env ''run_1'' s' = Ok (Some (advanced demo_env demo_run))"
proof -
  obtain s :: "unit sqlite_store" where
    s: "sqlite_save demo_env None demo_run sqlite_empty = (s, advanced demo_env demo_run, Ok ())"
    using demo_save by blast
  have "sqlite_saves [] sqlite_empty = (sqlite_empty :: unit sqlite_store, [])" by simp
  from recovery_reads_last_save[OF this s demo_run_wf demo_run_facts(3)] show ?thesis
    by (auto simp: demo_run_facts)
qed

text \<open>
  C31: the memory store and the SQLite store are interchangeable for runs. Any program of
  saves, stale and failing ones included, has the same outcomes on both, leaves its argument
  objects in the same states, and every run then loads to the same result.
\<close>

theorem backends_agree:
  "snd (mem_saves ops mem_empty) = snd (sqlite_saves ops sqlite_empty) \<and>
   mem_load E run (fst (mem_saves ops mem_empty)) = sqlite_load E run (fst (sqlite_saves ops sqlite_empty))"
  using backends.save_all_agrees[OF mem_inv_empty(1) sqlite_inv_empty(1), of ops] mem_inv_empty(2)
    sqlite_inv_empty(2) by (metis prod.collapse)

section \<open>Listing the runs of a thread\<close>

lemma sqlite_save_step:
  assumes "sqlite_latest st (r_run_id cp) = r_sequence cp" "run_state_to_dict (advanced E cp) = Ok d"
  shows "sqlite_save E None cp st =
    (st\<lparr>sq_checkpoints := sq_checkpoints st @ [checkpoint_row_of (advanced E cp) d]\<rparr>, advanced E cp, Ok ())"
  using assms by (simp add: sqlite_save_def)

lemma mem_save_step:
  assumes "mem_latest E (mem_rows st (r_run_id cp)) = Ok (r_sequence cp)"
    "run_state_to_dict (advanced E cp) = Ok d"
  shows "mem_save E None cp st =
    (st\<lparr>ms_checkpoints := dict_set (r_run_id cp) (mem_rows st (r_run_id cp) @ [d])
       (dict_setdefault (r_run_id cp) [] (ms_checkpoints st))\<rparr>, advanced E cp, Ok ())"
  using assms by (simp add: mem_save_def Let_def)

lemma to_dict_sequence_item:
  "run_state_to_dict (advanced E s) = Ok d \<Longrightarrow> dict_item d ''sequence'' = Ok (PInt (r_sequence s + 1))"
  "run_state_to_dict (advanced E s) = Ok d \<Longrightarrow> dict_get d ''thread_id'' = PStr (r_thread_id s)"
  using run_state_to_dict_sequence by fastforce+

text \<open>
  The two local stores list the runs of a thread in different orders. For two runs of a
  thread saved one after the other, where the older one is saved again, the memory store
  lists them by the time the runs were created, as its code says, but the SQLite store by the
  time of their newest rows.
\<close>

lemma listings_differ:
  assumes "run_state_wf a" "run_state_serializable a" "run_state_wf b" "run_state_serializable b"
    and "r_sequence a = 0" "r_sequence b = 0" "r_run_id a \<noteq> r_run_id b"
    and "r_thread_id a = th" "r_thread_id b = th" "r_created_at a < r_created_at b"
    and "now_text E1 \<noteq> []" "now_text E1 < now_text E2" "now_text E2 < now_text E3"
  defines "a' \<equiv> advanced E3 (advanced E1 a)" and "b' \<equiv> advanced E2 b"
    and "ops \<equiv> [(E1, a), (E2, b), (E3, advanced E1 a)]"
  shows "mem_list F th (fst (mem_saves ops (mem_empty :: 'm mem_store))) = Ok [a', b'] \<and>
         sqlite_list F th (fst (sqlite_saves ops (sqlite_empty :: 's sqlite_store))) = Ok [b', a']"
proof -
  have now: "now_text E2 \<noteq> []" "now_text E3 \<noteq> []" using assms by auto
  have wf1: "run_state_wf (advanced E1 a)" "run_state_serializable (advanced E1 a)"
    using assms by (simp_all add: advanced_def run_state_wf_def run_state_serializable_def)
  obtain d1 where d1: "run_state_to_dict (advanced E1 a) = Ok d1"
    "run_state_from_dict F d1 = Ok (advanced E1 a)" using to_dict_wf assms by blast
  obtain d2 where d2: "run_state_to_dict b' = Ok d2" "run_state_from_dict F d2 = Ok b'"
    using to_dict_wf[of b E2] assms now unfolding b'_def by blast
  obtain d3 where d3: "run_state_to_dict a' = Ok d3" "run_state_from_dict F d3 = Ok a'"
    using to_dict_wf[OF wf1 now(2)] unfolding a'_def by blast
  have created: "r_created_at a' = r_created_at a" "r_created_at b' = r_created_at b"
    by (simp_all add: a'_def b'_def advanced_def)
  note steps = sqlite_save_step sqlite_latest_def run_rows_def d1 d2[unfolded b'_def] d3[unfolded a'_def]
  have "fst (sqlite_saves ops (sqlite_empty :: 's sqlite_store)) = sqlite_empty\<lparr>sq_checkpoints :=
      [checkpoint_row_of (advanced E1 a) d1, checkpoint_row_of b' d2, checkpoint_row_of a' d3]\<rparr>"
    using assms(5-7) by (simp add: ops_def a'_def b'_def steps sqlite_empty_def)
  then have sq: "sqlite_list F th (fst (sqlite_saves ops (sqlite_empty :: 's sqlite_store))) = Ok [b', a']"
    using assms(5-9,12,13) d2 d3 by (simp add: sqlite_list_def Let_def a'_def b'_def)
  note msteps = mem_save_step mem_latest_def mem_rows_def dict_setdefault_def to_dict_sequence_item
    d1 d2[unfolded b'_def] d3[unfolded a'_def]
  have "fst (mem_saves ops (mem_empty :: 'm mem_store)) = mem_empty\<lparr>ms_checkpoints :=
      [(r_run_id a, [d1, d3]), (r_run_id b, [d2])]\<rparr>"
    using assms(5-7) to_dict_sequence_item[OF d1(1)]
    by (simp add: ops_def a'_def b'_def msteps mem_empty_def)
  then have "mem_list F th (fst (mem_saves ops (mem_empty :: 'm mem_store))) = Ok [a', b']"
    using assms(7-10) d2 d3 created to_dict_sequence_item(2)[OF d2(1)[unfolded b'_def]]
      to_dict_sequence_item(2)[OF d3(1)[unfolded a'_def]]
    by (simp add: mem_list_def)
  with sq show ?thesis by blast
qed

definition env_of_time :: "string \<Rightarrow> pyenv" where
  "env_of_time t = demo_env\<lparr>now_text := t\<rparr>"

definition older_run :: run_state where
  "older_run = demo_run\<lparr>r_created_at := ''1''\<rparr>"

definition newer_run :: run_state where
  "newer_run = demo_run\<lparr>r_run_id := ''run_2'', r_created_at := ''2''\<rparr>"

lemma listed_runs_wf:
  "run_state_wf older_run" "run_state_serializable older_run"
  "run_state_wf newer_run" "run_state_serializable newer_run"
  using demo_run_wf
  by (simp_all add: older_run_def newer_run_def run_state_wf_def run_state_serializable_def)

section \<open>Tool executions\<close>

abbreviation sqlite_tool_saves :: "(pyenv \<times> tool_record) list \<Rightarrow> 'l sqlite_store \<Rightarrow> 'l sqlite_store" where
  "sqlite_tool_saves \<equiv> save_tools (\<lambda>E. sqlite_save_tool E None)"

abbreviation mem_tool_saves :: "(pyenv \<times> tool_record) list \<Rightarrow> 'l mem_store \<Rightarrow> 'l mem_store" where
  "mem_tool_saves \<equiv> save_tools (\<lambda>E. mem_save_tool E None)"

lemma tools_inv_empty: "sqlite_tools_inv sqlite_empty" "mem_tools_inv mem_empty"
  by (simp_all add: sqlite_tools_inv_def mem_tools_inv_def sqlite_empty_def mem_empty_def)

text \<open>
  an invocation identifier is bound to its arguments for good. Once a record of the
  invocation is stored, it stays readable with the same argument hash through any saves, and
  every attempt to save it with another hash is refused without changing the store.
\<close>

theorem invocation_keeps_arguments:
  assumes "\<And>E r. (E, r) \<in> set (ops1 @ ops2) \<Longrightarrow> now_text E \<noteq> []"
    and "sqlite_load_tool F i (sqlite_tool_saves ops1 (sqlite_empty :: 'l sqlite_store)) = Ok (Some q)"
    and "s = sqlite_tool_saves ops2 (sqlite_tool_saves ops1 (sqlite_empty :: 'l sqlite_store))"
  shows "\<exists>q'. sqlite_load_tool F i s = Ok (Some q') \<and> t_arguments_hash q' = t_arguments_hash q \<and>
    (\<forall>E r. t_invocation_id r = i \<and> t_arguments_hash r \<noteq> t_arguments_hash q \<longrightarrow>
       (\<exists>r'. sqlite_save_tool E None r s = (s, r', Raise reused_invocation)))"
proof -
  have now2: "\<And>E r. (E, r) \<in> set ops2 \<Longrightarrow> now_text E \<noteq> []" using assms(1) by auto
  have inv1: "sqlite_tools_inv (sqlite_tool_saves ops1 (sqlite_empty :: 'l sqlite_store))"
    by (rule sqlite_tools.saves_keep_inv[OF tools_inv_empty(1)]) (use assms(1) in auto)
  have inv2: "sqlite_tools_inv s"
    unfolding assms(3) by (rule sqlite_tools.saves_keep_inv[OF inv1]) (use assms(1) in auto)
  have "\<exists>q'. sqlite_load_tool F i s = Ok (Some q') \<and> t_arguments_hash q' = t_arguments_hash q"
    unfolding assms(3)
    by (rule sqlite_tools.saves_keep_arguments[OF inv1 _ assms(2)]) (rule now2)
  then obtain q' where q': "sqlite_load_tool F i s = Ok (Some q')"
    "t_arguments_hash q' = t_arguments_hash q" by blast
  have load: "sqlite_load_tool E i s = Ok (Some q')" for E
    using sqlite_tools.load_defined[OF inv2, of i] q'(1) by force
  have "\<exists>r'. sqlite_save_tool E None r s = (s, r', Raise reused_invocation)"
    if "t_invocation_id r = i" "t_arguments_hash r \<noteq> t_arguments_hash q" for E r
    by (rule sqlite_tools.save_reused[OF inv2]) (use load that q'(2) in auto)
  with q' show ?thesis by blast
qed

lemma demo_env_now: "now_text demo_env \<noteq> []"
  by (simp add: demo_env_def)

theorem invocation_keeps_arguments_witness:
  "\<exists>s :: unit sqlite_store. \<exists>r'. sqlite_save_tool demo_env None (demo_record\<lparr>t_arguments_hash := ''other''\<rparr>) s =
     (s, r', Raise reused_invocation)"
proof -
  let ?s = "sqlite_tool_saves [(demo_env, demo_record)] (sqlite_empty :: unit sqlite_store)"
  obtain q where q: "sqlite_load_tool demo_env ''inv'' ?s = Ok (Some q)" "t_arguments_hash q = ''h''"
    using demo_env_now
    by (simp add: sqlite_save_tool_def find_tool_def sqlite_empty_def sqlite_load_tool_def
        tool_record_reads_back demo_record_def Let_def)
  have "\<exists>q'. sqlite_load_tool demo_env ''inv'' ?s = Ok (Some q') \<and> t_arguments_hash q' = t_arguments_hash q \<and>
    (\<forall>E r. t_invocation_id r = ''inv'' \<and> t_arguments_hash r \<noteq> t_arguments_hash q \<longrightarrow>
       (\<exists>r'. sqlite_save_tool E None r ?s = (?s, r', Raise reused_invocation)))"
    by (rule invocation_keeps_arguments[of "[(demo_env, demo_record)]" "[]"])
      (use q demo_env_now in auto)
  then obtain q' where "\<forall>E r. t_invocation_id r = ''inv'' \<and> t_arguments_hash r \<noteq> t_arguments_hash q \<longrightarrow>
       (\<exists>r'. sqlite_save_tool E None r ?s = (?s, r', Raise reused_invocation))" by blast
  moreover have "t_invocation_id (demo_record\<lparr>t_arguments_hash := ''other''\<rparr>) = ''inv''"
    by (simp add: demo_record_def)
  moreover have "t_arguments_hash (demo_record\<lparr>t_arguments_hash := ''other''\<rparr>) \<noteq> t_arguments_hash q"
    using q by simp
  ultimately show ?thesis by blast
qed

text \<open>
  the outcome of a tool call survives a restart on both local stores. After a successful
  save, whatever was saved before, the invocation reads back with the saved status, attempt,
  result, error, retry decision and times, the retry decision completed when it was open.
\<close>

theorem tool_outcome_survives:
  assumes "\<And>E r. (E, r) \<in> set ops \<Longrightarrow> now_text E \<noteq> []" and "now_text E \<noteq> []"
    and "sqlite_save_tool E None r (sqlite_tool_saves ops sqlite_empty) = (s, r1, Ok ())"
    and "mem_save_tool E None r (mem_tool_saves ops mem_empty) = (m, r2, Ok ())"
  shows "(\<exists>q. sqlite_load_tool F (t_invocation_id r) s = Ok (Some q) \<and> outcome q = outcome (settled r1)) \<and>
    (\<exists>q. mem_load_tool F (t_invocation_id r) m = Ok (Some q) \<and> outcome q = outcome (settled r2))"
proof -
  have "sqlite_tools_inv (sqlite_tool_saves ops sqlite_empty)"
    by (rule sqlite_tools.saves_keep_inv[OF tools_inv_empty(1)]) (use assms(1) in auto)
  from sqlite_tools.load_after_save[OF this assms(2,3)]
  have "\<exists>q. sqlite_load_tool F (t_invocation_id r) s = Ok (Some q) \<and> outcome q = outcome (settled r1)"
    by auto
  moreover have "mem_tools_inv (mem_tool_saves ops mem_empty)"
    by (rule mem_tools.saves_keep_inv[OF tools_inv_empty(2)]) (use assms(1) in auto)
  from mem_tools.load_after_save[OF this assms(2,4)]
  have "\<exists>q. mem_load_tool F (t_invocation_id r) m = Ok (Some q) \<and> outcome q = outcome (settled r2)"
    by auto
  ultimately show ?thesis by blast
qed

theorem tool_outcome_survives_witness:
  "\<exists>(s :: unit sqlite_store) q. sqlite_load_tool demo_env ''inv'' s = Ok (Some q) \<and>
     outcome q = outcome (settled (stamped demo_env demo_record))"
proof -
  obtain s :: "unit sqlite_store" where s: "sqlite_save_tool demo_env None demo_record (sqlite_tool_saves [] sqlite_empty) =
      (s, stamped demo_env demo_record, Ok ())"
    by (auto simp: sqlite_save_tool_def find_tool_def sqlite_empty_def stamped_def Let_def)
  obtain m :: "unit mem_store" where m: "mem_save_tool demo_env None demo_record (mem_tool_saves [] mem_empty) =
      (m, stamped demo_env demo_record, Ok ())"
    by (auto simp: mem_save_tool_def mem_empty_def stamped_def Let_def)
  have "t_invocation_id demo_record = ''inv''" by (simp add: demo_record_def)
  with tool_outcome_survives[OF _ demo_env_now s m, of demo_env] show ?thesis by auto
qed

end
