(* ===== verification/Postgres.thy ===== *)
theory Postgres
  imports Checkpoints
begin

text \<open>
  Distributed ownership, \<^verbatim>\<open>runtime/postgres.py\<close>: \<^verbatim>\<open>PostgresRuntimeStore\<close> with its tables as lists
  of rows and each method as one transaction. A transaction that raises leaves the tables as
  they were. \<^verbatim>\<open>select ... for update\<close> and the coordination row make the transactions of one run,
  and all capacity decisions, take effect one after the other, which is how they are composed
  here. The columns with times hold seconds.
\<close>

section \<open>Tables\<close>

record run_row =
  g_run_id :: string
  g_thread_id :: string
  g_turn_id :: string
  g_status :: run_status
  g_current_sequence :: int
  g_schema_version :: int
  g_state_json :: pydict
  g_parent_run_id :: "string option"
  g_created_at :: rat
  g_updated_at :: string
  g_runnable :: bool
  g_owner_worker_id :: "string option"
  g_lease_until :: "rat option"
  g_fencing_token :: int
  g_claimed_at :: "rat option"
  g_last_heartbeat_at :: "rat option"
  g_delivery_attempt :: int
  g_last_delivery_failure :: "string option"
  g_last_delivery_failed_at :: "rat option"
  g_last_delivery_worker_id :: "string option"
  g_last_delivery_fencing_token :: "int option"
  g_failure_queued_at :: "rat option"

record submission =
  sub_thread_id :: string
  sub_idempotency_key :: string
  sub_fingerprint :: string
  sub_run_id :: string

record 'l pg_store =
  pg_runs :: "run_row list"
  pg_checkpoints :: "checkpoint_row list"
  pg_submissions :: "submission list"
  pg_tools :: "tool_record list"
  pg_ledgers :: "(string \<times> int \<times> 'l) list"
  pg_buckets :: "((string \<times> string) \<times> rat \<times> rat) list"

definition pg_empty :: "'l pg_store" where
  "pg_empty = \<lparr>pg_runs = [], pg_checkpoints = [], pg_submissions = [], pg_tools = [],
     pg_ledgers = [], pg_buckets = []\<rparr>"

text \<open>
  \<open>pg_now\<close> is \<^verbatim>\<open>current_timestamp\<close>, fixed during a transaction; \<open>pg_seconds\<close> and \<open>pg_iso\<close>
  read and write ISO times.
\<close>

record pg_env =
  pg_now :: rat
  pg_seconds :: "string \<Rightarrow> rat"
  pg_iso :: "rat \<Rightarrow> string"

definition find_run :: "'l pg_store \<Rightarrow> string \<Rightarrow> run_row option" where
  "find_run st run = find (\<lambda>r. g_run_id r = run) (pg_runs st)"

text \<open>\<^verbatim>\<open>update runs set ... where ...\<close>\<close>

definition update_where :: "(run_row \<Rightarrow> bool) \<Rightarrow> (run_row \<Rightarrow> run_row) \<Rightarrow> 'l pg_store \<Rightarrow> 'l pg_store" where
  "update_where C f st = st\<lparr>pg_runs := map (\<lambda>r. if C r then f r else r) (pg_runs st)\<rparr>"

definition update_run :: "string \<Rightarrow> (run_row \<Rightarrow> run_row) \<Rightarrow> 'l pg_store \<Rightarrow> 'l pg_store" where
  "update_run run = update_where (\<lambda>r. g_run_id r = run)"

definition insert_checkpoint :: "checkpoint_row \<Rightarrow> 'l pg_store \<Rightarrow> 'l pg_store" where
  "insert_checkpoint row st = st\<lparr>pg_checkpoints := pg_checkpoints st @ [row]\<rparr>"

text \<open>\<^verbatim>\<open>jsonb_set(state_json, ARRAY['runnable_since'], to_jsonb(current_timestamp::text), true)\<close>\<close>

definition touch_runnable_since :: "pg_env \<Rightarrow> run_row \<Rightarrow> run_row" where
  "touch_runnable_since P r =
     r\<lparr>g_state_json := dict_set ''runnable_since'' (PStr (pg_iso P (pg_now P))) (g_state_json r)\<rparr>"

section \<open>Predicates of the queries\<close>

definition executing :: "run_status \<Rightarrow> bool" where
  "executing s \<longleftrightarrow> s \<in> {RunRUNNING, RunWAITING_CHILD}"

fun json_number :: "pyval \<Rightarrow> rat" where
  "json_number (PFloat q) = q"
| "json_number (PInt i) = of_int i"
| "json_number v = 0"

definition wall_time_limit :: "run_row \<Rightarrow> rat" where
  "wall_time_limit r =
     json_number (dict_get (as_dict (dict_get (g_state_json r) ''budget_policy'')) ''max_wall_time_seconds'')"

definition deadline_is_live :: "pg_env \<Rightarrow> run_row \<Rightarrow> bool" where
  "deadline_is_live P r \<longleftrightarrow>
     wall_time_limit r \<le> 0 \<or> pg_now P < g_created_at r + wall_time_limit r"

text \<open>
  The recursive query over the ancestors. A run is created after its parent, so a chain is no
  longer than the table.
\<close>

fun ancestor_cancelled :: "nat \<Rightarrow> 'l pg_store \<Rightarrow> string option \<Rightarrow> bool" where
  "ancestor_cancelled 0 st parent = False"
| "ancestor_cancelled (Suc n) st None = False"
| "ancestor_cancelled (Suc n) st (Some p) =
     (case find_run st p of
        None \<Rightarrow> False
      | Some r \<Rightarrow> g_status r = RunCANCELLED \<or> ancestor_cancelled n st (g_parent_run_id r))"

definition ancestors_not_cancelled :: "'l pg_store \<Rightarrow> run_row \<Rightarrow> bool" where
  "ancestors_not_cancelled st r \<longleftrightarrow>
     \<not> ancestor_cancelled (Suc (length (pg_runs st))) st (g_parent_run_id r)"

definition lease_over :: "pg_env \<Rightarrow> run_row \<Rightarrow> bool" where
  "lease_over P r \<longleftrightarrow> (case g_lease_until r of None \<Rightarrow> False | Some t \<Rightarrow> t \<le> pg_now P)"

definition lease_live :: "pg_env \<Rightarrow> run_row \<Rightarrow> bool" where
  "lease_live P r \<longleftrightarrow> (case g_lease_until r of None \<Rightarrow> False | Some t \<Rightarrow> pg_now P < t)"

definition run_is_claimable :: "pg_env \<Rightarrow> 'l pg_store \<Rightarrow> run_row \<Rightarrow> bool" where
  "run_is_claimable P st r \<longleftrightarrow> g_runnable r \<and> executing (g_status r) \<and>
     (g_owner_worker_id r = None \<or> lease_over P r) \<and> deadline_is_live P r \<and>
     ancestors_not_cancelled st r"

definition run_is_active :: "pg_env \<Rightarrow> run_row \<Rightarrow> bool" where
  "run_is_active P r \<longleftrightarrow> executing (g_status r) \<and> g_owner_worker_id r \<noteq> None \<and> lease_live P r"

definition queued_count :: "pg_env \<Rightarrow> 'l pg_store \<Rightarrow> int" where
  "queued_count P st = int (length (filter (run_is_claimable P st) (pg_runs st)))"

definition active_count :: "pg_env \<Rightarrow> 'l pg_store \<Rightarrow> int" where
  "active_count P st = int (length (filter (run_is_active P) (pg_runs st)))"

definition principal_of :: "run_row \<Rightarrow> pyval" where
  "principal_of r = dict_get (g_state_json r) ''principal_key''"

definition principal_active :: "pg_env \<Rightarrow> 'l pg_store \<Rightarrow> run_row \<Rightarrow> int" where
  "principal_active P st r =
     int (length (filter (\<lambda>a. run_is_active P a \<and> principal_of r \<noteq> PNone \<and>
       principal_of a = principal_of r) (pg_runs st)))"

definition principal_below :: "pg_env \<Rightarrow> 'l pg_store \<Rightarrow> int option \<Rightarrow> run_row \<Rightarrow> bool" where
  "principal_below P st limit r \<longleftrightarrow>
     (case limit of None \<Rightarrow> True | Some m \<Rightarrow> principal_active P st r < m)"

definition check_principal_queue_quota :: "pg_env \<Rightarrow> 'l pg_store \<Rightarrow> string \<Rightarrow> int option \<Rightarrow> unit res" where
  "check_principal_queue_quota P st key limit =
     (case limit of
        None \<Rightarrow> Ok ()
      | Some m \<Rightarrow>
          let queued = int (length (filter (\<lambda>r. run_is_claimable P st r \<and> g_parent_run_id r = None \<and>
                     principal_of r = PStr key) (pg_runs st)))
          in guardR (queued < m)
            (ApiError ((plain_api_error ''PRINCIPAL_QUEUE_QUOTA_EXCEEDED''
                ''principal queued Run quota exceeded'' 429)
               \<lparr>ae_details := [(''queued_runs'', PInt queued),
                  (''max_queued_runs_per_principal'', PInt m)]\<rparr>)))"

definition require_optional_limit :: "int option \<Rightarrow> string \<Rightarrow> unit res" where
  "require_optional_limit v name =
     guardR (case v of None \<Rightarrow> True | Some i \<Rightarrow> 0 < i) (ValueError (name @ '' must be positive''))"

definition require_positive_lease :: "rat \<Rightarrow> unit res" where
  "require_positive_lease q = guardR (0 < q) (ValueError ''lease_seconds must be positive'')"

section \<open>Ownership\<close>

text \<open>The rows the check \<^verbatim>\<open>_lock_and_validate_ownership\<close> accepts.\<close>

definition owns :: "pg_env \<Rightarrow> run_ownership \<Rightarrow> run_row \<Rightarrow> bool" where
  "owns P w r \<longleftrightarrow> g_run_id r = ow_run_id w \<and> g_owner_worker_id r = Some (ow_worker_id w) \<and>
     g_fencing_token r = ow_fencing_token w \<and> executing (g_status r) \<and> lease_live P r"

definition ownership_lost :: "run_ownership \<Rightarrow> exn" where
  "ownership_lost w = OwnershipLostError
     (''worker '' @ ow_worker_id w @ '' no longer owns run '' @ ow_run_id w)"

definition validate_ownership :: "pg_env \<Rightarrow> run_ownership \<Rightarrow> 'l pg_store \<Rightarrow> unit res" where
  "validate_ownership P w st =
     guardR (\<exists>r \<in> set (pg_runs st). owns P w r) (ownership_lost w)"

definition validate_optional :: "pg_env \<Rightarrow> run_ownership option \<Rightarrow> 'l pg_store \<Rightarrow> unit res" where
  "validate_optional P own st = (case own of None \<Rightarrow> Ok () | Some w \<Rightarrow> validate_ownership P w st)"

definition ownership_of_row :: "bool option \<Rightarrow> run_row \<Rightarrow> run_ownership" where
  "ownership_of_row takeover r =
     \<lparr>ow_run_id = g_run_id r, ow_worker_id = the (g_owner_worker_id r),
      ow_fencing_token = g_fencing_token r, ow_lease_until = the (g_lease_until r),
      ow_takeover = (case takeover of None \<Rightarrow> 1 < g_fencing_token r | Some b \<Rightarrow> b),
      ow_delivery_attempt = g_delivery_attempt r\<rparr>"

definition get_ownership :: "string \<Rightarrow> 'l pg_store \<Rightarrow> run_ownership option" where
  "get_ownership run st = (case find_run st run of
       None \<Rightarrow> None
     | Some r \<Rightarrow> if g_owner_worker_id r = None then None else Some (ownership_of_row None r))"

definition renew_lease :: "pg_env \<Rightarrow> run_ownership \<Rightarrow> rat \<Rightarrow> 'l pg_store \<Rightarrow> 'l pg_store \<times> run_ownership option" where
  "renew_lease P w lease_seconds st =
     (case find (owns P w) (pg_runs st) of
        None \<Rightarrow> (st, None)
      | Some r \<Rightarrow>
          let f = (\<lambda>r. r\<lparr>g_lease_until := Some (pg_now P + lease_seconds),
                         g_last_heartbeat_at := Some (pg_now P)\<rparr>)
          in (update_where (owns P w) f st, Some (ownership_of_row None (f r))))"

definition release_row :: "pg_env \<Rightarrow> bool \<Rightarrow> run_row \<Rightarrow> run_row" where
  "release_row P runnable r =
     (let r1 = r\<lparr>g_owner_worker_id := None, g_lease_until := None,
                 g_runnable := (if g_status r = RunRUNNING then runnable else False)\<rparr>
      in if g_status r = RunRUNNING \<and> runnable then touch_runnable_since P r1 else r1)"

definition holds_token :: "run_ownership \<Rightarrow> run_row \<Rightarrow> bool" where
  "holds_token w r \<longleftrightarrow> g_run_id r = ow_run_id w \<and> g_owner_worker_id r = Some (ow_worker_id w) \<and>
     g_fencing_token r = ow_fencing_token w"

definition release_lease :: "pg_env \<Rightarrow> run_ownership \<Rightarrow> bool \<Rightarrow> 'l pg_store \<Rightarrow> 'l pg_store \<times> bool" where
  "release_lease P w runnable st =
     (if \<exists>r \<in> set (pg_runs st). holds_token w r
      then (update_where (holds_token w) (release_row P runnable) st, True)
      else (st, False))"

definition mark_runnable :: "pg_env \<Rightarrow> string \<Rightarrow> 'l pg_store \<Rightarrow> 'l pg_store \<times> unit res" where
  "mark_runnable P run st =
     (case find_run st run of
        Some r \<Rightarrow>
          if executing (g_status r) \<and> deadline_is_live P r \<and> ancestors_not_cancelled st r
          then (update_run run (\<lambda>r. touch_runnable_since P (r\<lparr>g_runnable := True\<rparr>)) st, Ok ())
          else (st, Raise (ValueError (''run is not eligible for distributed execution: '' @ run)))
      | None \<Rightarrow> (st, Raise (ValueError (''run is not eligible for distributed execution: '' @ run))))"

end
