(* ===== verification/PostgresRuns.thy ===== *)
theory PostgresRuns
  imports Postgres
begin

text \<open>
  The methods of \<^verbatim>\<open>PostgresRuntimeStore\<close> that write runs: saves under compare-and-swap and
  fencing, admission, idempotent submission, claims, the quarantine of runs whose workers
  keep dying, manual requeue, and the submission rate limiter.
\<close>

section \<open>Reading a run\<close>

definition checkpoint_with_delivery :: "pyenv \<Rightarrow> pg_env \<Rightarrow> run_row \<Rightarrow> run_state res" where
  "checkpoint_with_delivery E P r =
     bindR (run_state_from_dict E (g_state_json r)) (\<lambda>s.
     Ok (s\<lparr>r_delivery_attempt := g_delivery_attempt r,
           r_failure_queued_at := map_option (pg_iso P) (g_failure_queued_at r),
           r_last_delivery_failure := g_last_delivery_failure r,
           r_last_delivery_failed_at := map_option (pg_iso P) (g_last_delivery_failed_at r),
           r_last_delivery_worker_id := g_last_delivery_worker_id r,
           r_last_delivery_fencing_token := g_last_delivery_fencing_token r\<rparr>))"

definition pg_load :: "pyenv \<Rightarrow> pg_env \<Rightarrow> string \<Rightarrow> 'l pg_store \<Rightarrow> run_state option res" where
  "pg_load E P run st =
     (case find_run st run of
        None \<Rightarrow> Ok None
      | Some r \<Rightarrow> bindR (checkpoint_with_delivery E P r) (\<lambda>s. Ok (Some s)))"

definition pg_list :: "pyenv \<Rightarrow> pg_env \<Rightarrow> string \<Rightarrow> 'l pg_store \<Rightarrow> run_state list res" where
  "pg_list E P thread st =
     mapR (checkpoint_with_delivery E P)
       (sort_key g_created_at (sort_key g_run_id (filter (\<lambda>r. g_thread_id r = thread) (pg_runs st))))"

section \<open>Saving\<close>

text \<open>The state as a save stores it: the next sequence and the update time.\<close>

definition new_run_row :: "pg_env \<Rightarrow> run_state \<Rightarrow> int \<Rightarrow> string \<Rightarrow> pydict \<Rightarrow> bool \<Rightarrow> run_row" where
  "new_run_row P cp sq now d runnable =
     \<lparr>g_run_id = r_run_id cp, g_thread_id = r_thread_id cp, g_turn_id = r_turn_id cp,
      g_status = r_status cp, g_current_sequence = sq, g_schema_version = r_schema_version cp,
      g_state_json = d, g_parent_run_id = r_parent_run_id cp,
      g_created_at = pg_seconds P (r_created_at cp), g_updated_at = now, g_runnable = runnable,
      g_owner_worker_id = None, g_lease_until = None, g_fencing_token = 0, g_claimed_at = None,
      g_last_heartbeat_at = None, g_delivery_attempt = 0, g_last_delivery_failure = None,
      g_last_delivery_failed_at = None, g_last_delivery_worker_id = None,
      g_last_delivery_fencing_token = None, g_failure_queued_at = None\<rparr>"

definition saved_run_row :: "run_state \<Rightarrow> int \<Rightarrow> string \<Rightarrow> pydict \<Rightarrow> run_row \<Rightarrow> run_row" where
  "saved_run_row cp sq now d r =
     r\<lparr>g_thread_id := r_thread_id cp, g_turn_id := r_turn_id cp, g_status := r_status cp,
       g_current_sequence := sq, g_schema_version := r_schema_version cp, g_state_json := d,
       g_parent_run_id := r_parent_run_id cp, g_updated_at := now\<rparr>"

text \<open>
  The compare-and-swap on the row of the run: an insert at sequence 0, otherwise an update of
  the row with the expected sequence.
\<close>

definition write_run :: "pg_env \<Rightarrow> run_state \<Rightarrow> string \<Rightarrow> pydict \<Rightarrow> 'l pg_store \<Rightarrow> 'l pg_store res" where
  "write_run P cp now d st =
     (let expected = r_sequence cp; run = r_run_id cp in
      case find_run st run of
        None \<Rightarrow>
          if expected = 0
          then Ok (st\<lparr>pg_runs := pg_runs st @ [new_run_row P cp 1 now d False]\<rparr>)
          else Raise (stale_checkpoint run 0 expected)
      | Some r \<Rightarrow>
          if expected \<noteq> 0 \<and> g_current_sequence r = expected
          then Ok (update_run run (saved_run_row cp (expected + 1) now d) st)
          else Raise (stale_checkpoint run (g_current_sequence r) expected))"

text \<open>
  A finished run is no longer runnable; the worker that owned it gives it up with the save;
  a parent that waits for its children becomes runnable again, if nobody owns it.
\<close>

definition finish_row :: "run_ownership option \<Rightarrow> run_row \<Rightarrow> run_row" where
  "finish_row own r =
     (let r1 = r\<lparr>g_runnable := False\<rparr> in
      case own of
        None \<Rightarrow> r1
      | Some w \<Rightarrow> if ow_run_id w = g_run_id r
                  then r1\<lparr>g_owner_worker_id := None, g_lease_until := None\<rparr> else r1)"

definition wake_row :: "pg_env \<Rightarrow> run_row \<Rightarrow> run_row" where
  "wake_row P r =
     (if g_status r = RunWAITING_CHILD \<and> g_owner_worker_id r = None
      then touch_runnable_since P (r\<lparr>g_runnable := True\<rparr>) else r)"

definition wake_parent :: "pg_env \<Rightarrow> string option \<Rightarrow> 'l pg_store \<Rightarrow> 'l pg_store" where
  "wake_parent P parent st = (case parent of None \<Rightarrow> st | Some p \<Rightarrow> update_run p (wake_row P) st)"

definition finish_run :: "pg_env \<Rightarrow> run_ownership option \<Rightarrow> run_state \<Rightarrow> 'l pg_store \<Rightarrow> 'l pg_store" where
  "finish_run P own cp st =
     (if run_finished cp
      then wake_parent P (r_parent_run_id cp) (update_run (r_run_id cp) (finish_row own) st)
      else st)"

definition pg_save :: "pyenv \<Rightarrow> pg_env \<Rightarrow> run_ownership option \<Rightarrow> run_state \<Rightarrow> 'l pg_store
    \<Rightarrow> 'l pg_store \<times> run_state \<times> unit res" where
  "pg_save E P own cp st =
     (let cp1 = advanced E cp in
      case bindR (run_state_to_dict cp1) (\<lambda>d.
           bindR (validate_optional P own st) (\<lambda>_.
           bindR (write_run P cp (now_text E) d st) (\<lambda>st1.
           Ok (finish_run P own cp (insert_checkpoint (checkpoint_row_of cp1 d) st1)))))
      of Inl e \<Rightarrow> (st, cp, Raise e) | Inr st2 \<Rightarrow> (st2, cp1, Ok ()))"

section \<open>Admission\<close>

definition insert_initial_run :: "pyenv \<Rightarrow> pg_env \<Rightarrow> run_state \<Rightarrow> 'l pg_store \<Rightarrow> 'l pg_store res" where
  "insert_initial_run E P cp st =
     bindR (run_state_to_dict (cp\<lparr>r_sequence := 1, r_updated_at := now_text E\<rparr>)) (\<lambda>d.
     Ok (insert_checkpoint (checkpoint_row_of (cp\<lparr>r_sequence := 1, r_updated_at := now_text E\<rparr>) d)
           (st\<lparr>pg_runs := pg_runs st @ [new_run_row P cp 1 (now_text E) d True]\<rparr>)))"

definition admission_checks :: "pg_env \<Rightarrow> run_state \<Rightarrow> int option \<Rightarrow> int option \<Rightarrow> 'l pg_store \<Rightarrow> unit res" where
  "admission_checks P cp max_queued max_per_principal st =
     bindR (guardR (find_run st (r_run_id cp) = None)
       (ValueError (''run already exists: '' @ r_run_id cp))) (\<lambda>_.
     bindR (guardR (case max_queued of None \<Rightarrow> True | Some m \<Rightarrow> queued_count P st < m)
       (AdmissionRejectedError (queued_count P st) (case max_queued of None \<Rightarrow> 0 | Some m \<Rightarrow> m))) (\<lambda>_.
     check_principal_queue_quota P st (r_principal_key cp) max_per_principal))"

definition admit_run :: "pyenv \<Rightarrow> pg_env \<Rightarrow> run_state \<Rightarrow> int option \<Rightarrow> int option \<Rightarrow> 'l pg_store
    \<Rightarrow> 'l pg_store \<times> run_state \<times> unit res" where
  "admit_run E P cp max_queued max_per_principal st =
     (case bindR (require_optional_limit max_queued ''max_queued_runs'') (\<lambda>_.
           bindR (guardR (r_sequence cp = 0)
             (ValueError ''only a new Run may pass external admission'')) (\<lambda>_.
           bindR (admission_checks P cp max_queued max_per_principal st) (\<lambda>_.
           insert_initial_run E P cp st)))
      of Inl e \<Rightarrow> (st, cp, Raise e)
       | Inr st1 \<Rightarrow> (st1, cp\<lparr>r_sequence := 1, r_updated_at := now_text E\<rparr>, Ok ()))"

definition find_submission :: "'l pg_store \<Rightarrow> string \<Rightarrow> string \<Rightarrow> submission option" where
  "find_submission st thread key =
     find (\<lambda>x. sub_thread_id x = thread \<and> sub_idempotency_key x = key) (pg_submissions st)"

definition idempotency_conflict :: exn where
  "idempotency_conflict = ApiError (plain_api_error ''IDEMPOTENCY_KEY_CONFLICT''
     ''idempotency key was already used with a different submission'' 409)"

definition replay_submission :: "pyenv \<Rightarrow> pg_env \<Rightarrow> submission \<Rightarrow> string \<Rightarrow> 'l pg_store \<Rightarrow> run_state res" where
  "replay_submission E P x fingerprint st =
     (if sub_fingerprint x \<noteq> fingerprint then Raise idempotency_conflict
      else case find_run st (sub_run_id x) of
             None \<Rightarrow> Raise (RuntimeErr ''submission idempotency mapping references a missing Run'')
           | Some r \<Rightarrow> checkpoint_with_delivery E P r)"

text \<open>The result is the run and whether the submission created it.\<close>

definition admit_submission :: "pyenv \<Rightarrow> pg_env \<Rightarrow> run_state \<Rightarrow> string \<Rightarrow> string \<Rightarrow> int option \<Rightarrow> int option
    \<Rightarrow> 'l pg_store \<Rightarrow> 'l pg_store \<times> (run_state \<times> bool) res" where
  "admit_submission E P cp key fingerprint max_queued max_per_principal st =
     (case bindR (require_optional_limit max_queued ''max_queued_runs'') (\<lambda>_.
           guardR (r_sequence cp = 0 \<and> r_parent_run_id cp = None)
             (ValueError ''only a new root Run may pass submission admission''))
      of Inl e \<Rightarrow> (st, Raise e)
       | Inr _ \<Rightarrow>
           (case find_submission st (r_thread_id cp) key of
              Some x \<Rightarrow> (st, bindR (replay_submission E P x fingerprint st) (\<lambda>s. Ok (s, False)))
            | None \<Rightarrow>
                (case bindR (admission_checks P cp max_queued max_per_principal st) (\<lambda>_.
                      insert_initial_run E P cp st)
                 of Inl e \<Rightarrow> (st, Raise e)
                  | Inr st1 \<Rightarrow>
                      (st1\<lparr>pg_submissions := pg_submissions st1 @
                          [\<lparr>sub_thread_id = r_thread_id cp, sub_idempotency_key = key,
                            sub_fingerprint = fingerprint, sub_run_id = r_run_id cp\<rparr>]\<rparr>,
                       Ok (cp\<lparr>r_sequence := 1, r_updated_at := now_text E\<rparr>, True)))))"

section \<open>Claims\<close>

definition delivery_is_exhausted :: "run_row option \<Rightarrow> int option \<Rightarrow> bool" where
  "delivery_is_exhausted candidate max_attempts \<longleftrightarrow>
     (case (candidate, max_attempts) of
        (Some r, Some m) \<Rightarrow> g_owner_worker_id r \<noteq> None \<and> m \<le> g_delivery_attempt r
      | _ \<Rightarrow> False)"

definition next_delivery_attempt :: "run_row \<Rightarrow> int" where
  "next_delivery_attempt r =
     (if g_owner_worker_id r \<noteq> None then g_delivery_attempt r + 1
      else if g_delivery_attempt r = 0 then 1 else g_delivery_attempt r)"

definition claim_row :: "pg_env \<Rightarrow> string \<Rightarrow> rat \<Rightarrow> run_row \<Rightarrow> run_row" where
  "claim_row P worker lease_seconds r =
     (let takeover = g_owner_worker_id r \<noteq> None;
          r1 = r\<lparr>g_owner_worker_id := Some worker, g_lease_until := Some (pg_now P + lease_seconds),
                 g_fencing_token := g_fencing_token r + 1, g_claimed_at := Some (pg_now P),
                 g_last_heartbeat_at := Some (pg_now P), g_delivery_attempt := next_delivery_attempt r\<rparr>
      in if takeover
         then r1\<lparr>g_last_delivery_failure := Some ''lease_expired'',
                 g_last_delivery_failed_at := Some (pg_now P),
                 g_last_delivery_worker_id := g_owner_worker_id r,
                 g_last_delivery_fencing_token := Some (g_fencing_token r)\<rparr>
         else r1)"

definition claim_locked_candidate :: "pg_env \<Rightarrow> string \<Rightarrow> rat \<Rightarrow> run_row option \<Rightarrow> 'l pg_store
    \<Rightarrow> 'l pg_store \<times> run_ownership option" where
  "claim_locked_candidate P worker lease_seconds candidate st =
     (case candidate of
        None \<Rightarrow> (st, None)
      | Some r \<Rightarrow> (update_run (g_run_id r) (claim_row P worker lease_seconds) st,
                   Some (ownership_of_row (Some (g_owner_worker_id r \<noteq> None)) (claim_row P worker lease_seconds r))))"

definition RUN_DELIVERY_EXHAUSTED :: string where
  "RUN_DELIVERY_EXHAUSTED = ''RUN_DELIVERY_EXHAUSTED''"

definition exhausted_state :: "pg_env \<Rightarrow> run_row \<Rightarrow> int \<Rightarrow> run_state \<Rightarrow> run_state" where
  "exhausted_state P r max_attempts s =
     s\<lparr>r_status := RunFAILED, r_delivery_attempt := g_delivery_attempt r,
       r_failure_queued_at := Some (pg_iso P (pg_now P)),
       r_last_delivery_failure := Some ''lease_expired'',
       r_last_delivery_failed_at := Some (pg_iso P (pg_now P)),
       r_last_delivery_worker_id := g_owner_worker_id r,
       r_last_delivery_fencing_token := Some (g_fencing_token r),
       r_error := Some \<lparr>e_type = RUN_DELIVERY_EXHAUSTED,
         e_message = ''automatic Run delivery allowance exhausted after Worker lease loss'',
         e_step = Some ''run_delivery'',
         e_metadata = [
           (''delivery_attempt'', PInt (g_delivery_attempt r)),
           (''max_run_delivery_attempts'', PInt max_attempts),
           (''last_delivery_failure'', PStr ''lease_expired''),
           (''last_delivery_worker_id'', opt_val PStr (g_owner_worker_id r)),
           (''last_delivery_fencing_token'', PInt (g_fencing_token r))]\<rparr>,
       r_sequence := g_current_sequence r + 1, r_updated_at := pg_iso P (pg_now P)\<rparr>"

definition exhausted_row :: "pg_env \<Rightarrow> run_state \<Rightarrow> pydict \<Rightarrow> run_row \<Rightarrow> run_row" where
  "exhausted_row P s d r =
     r\<lparr>g_status := RunFAILED, g_current_sequence := r_sequence s, g_state_json := d,
       g_updated_at := pg_iso P (pg_now P), g_runnable := False, g_owner_worker_id := None,
       g_lease_until := None, g_fencing_token := g_fencing_token r + 1,
       g_failure_queued_at := Some (pg_now P), g_last_delivery_failure := Some ''lease_expired'',
       g_last_delivery_failed_at := Some (pg_now P),
       g_last_delivery_worker_id := r_last_delivery_worker_id s,
       g_last_delivery_fencing_token := r_last_delivery_fencing_token s\<rparr>"

text \<open>The parent is woken without a new \<^verbatim>\<open>runnable_since\<close>.\<close>

definition wake_exhausted_parent :: "string option \<Rightarrow> 'l pg_store \<Rightarrow> 'l pg_store" where
  "wake_exhausted_parent parent st =
     (case parent of
        None \<Rightarrow> st
      | Some p \<Rightarrow> update_run p (\<lambda>q. if g_status q = RunWAITING_CHILD \<and> g_owner_worker_id q = None
                                    then q\<lparr>g_runnable := True\<rparr> else q) st)"

definition mark_delivery_exhausted :: "pyenv \<Rightarrow> pg_env \<Rightarrow> run_row \<Rightarrow> int \<Rightarrow> 'l pg_store \<Rightarrow> 'l pg_store res" where
  "mark_delivery_exhausted E P r max_attempts st =
     bindR (run_state_from_dict E (g_state_json r)) (\<lambda>s0.
     let s = exhausted_state P r max_attempts s0 in
     bindR (run_state_to_dict s) (\<lambda>d.
     if (case find_run st (r_run_id s) of
           None \<Rightarrow> False | Some q \<Rightarrow> g_current_sequence q = g_current_sequence r)
     then Ok (wake_exhausted_parent (g_parent_run_id r)
            (insert_checkpoint (checkpoint_row_of s d)
              (update_run (r_run_id s) (exhausted_row P s d) st)))
     else Raise (CheckpointConflictError
            (''stale delivery exhaustion transition for '' @ r_run_id s))))"

definition decide_claim :: "pyenv \<Rightarrow> pg_env \<Rightarrow> string \<Rightarrow> rat \<Rightarrow> int option \<Rightarrow> int option
    \<Rightarrow> run_row option \<Rightarrow> 'l pg_store \<Rightarrow> 'l pg_store \<times> run_ownership option res" where
  "decide_claim E P worker lease_seconds max_active max_attempts candidate st =
     (if delivery_is_exhausted candidate max_attempts
      then (case mark_delivery_exhausted E P (the candidate) (the max_attempts) st of
              Inl e \<Rightarrow> (st, Raise e) | Inr st1 \<Rightarrow> (st1, Ok None))
      else if (case max_active of None \<Rightarrow> False | Some m \<Rightarrow> m \<le> active_count P st)
      then (st, Ok None)
      else (case claim_locked_candidate P worker lease_seconds candidate st of
              (st1, w) \<Rightarrow> (st1, Ok w)))"

definition claim_checks :: "rat \<Rightarrow> int option \<Rightarrow> int option \<Rightarrow> unit res" where
  "claim_checks lease_seconds max_active max_attempts =
     bindR (require_positive_lease lease_seconds) (\<lambda>_.
     bindR (require_optional_limit max_active ''max_active_runs'') (\<lambda>_.
     require_optional_limit max_attempts ''max_run_delivery_attempts''))"

definition claim_run :: "pyenv \<Rightarrow> pg_env \<Rightarrow> string \<Rightarrow> string \<Rightarrow> rat \<Rightarrow> int option \<Rightarrow> int option \<Rightarrow> int option
    \<Rightarrow> 'l pg_store \<Rightarrow> 'l pg_store \<times> run_ownership option res" where
  "claim_run E P run worker lease_seconds max_active max_attempts max_per_principal st =
     (case claim_checks lease_seconds max_active max_attempts of
        Inl e \<Rightarrow> (st, Raise e)
      | Inr _ \<Rightarrow> decide_claim E P worker lease_seconds max_active max_attempts
          (find (\<lambda>r. g_run_id r = run \<and> run_is_claimable P st r \<and> principal_below P st max_per_principal r)
             (pg_runs st)) st)"

text \<open>
  The order of \<^verbatim>\<open>claim_next\<close>: base priority with bounded aging, descending, then the time since
  which the run is runnable, then the identifier. \<open>locked\<close> holds the runs that concurrent
  transactions have locked, which \<^verbatim>\<open>skip locked\<close> leaves out.
\<close>

definition base_priority_of :: "pyenv \<Rightarrow> run_row \<Rightarrow> int" where
  "base_priority_of E r = (case dict_get (g_state_json r) ''base_priority'' of
       PNone \<Rightarrow> 1 | v \<Rightarrow> (case py_int E v of Inr i \<Rightarrow> i | Inl _ \<Rightarrow> 1))"

definition runnable_since_of :: "pg_env \<Rightarrow> run_row \<Rightarrow> rat" where
  "runnable_since_of P r = (case dict_get (g_state_json r) ''runnable_since'' of
       PStr s \<Rightarrow> pg_seconds P s | _ \<Rightarrow> g_created_at r)"

definition effective_priority :: "pyenv \<Rightarrow> pg_env \<Rightarrow> rat \<Rightarrow> int \<Rightarrow> run_row \<Rightarrow> int" where
  "effective_priority E P aging_interval aging_cap r =
     base_priority_of E r + min aging_cap \<lfloor>(pg_now P - runnable_since_of P r) / aging_interval\<rfloor>"

definition claim_order :: "pyenv \<Rightarrow> pg_env \<Rightarrow> rat \<Rightarrow> int \<Rightarrow> run_row list \<Rightarrow> run_row list" where
  "claim_order E P aging_interval aging_cap rs =
     sort_key (\<lambda>r. - effective_priority E P aging_interval aging_cap r)
       (sort_key (runnable_since_of P) (sort_key g_run_id rs))"

definition claim_next :: "pyenv \<Rightarrow> pg_env \<Rightarrow> string \<Rightarrow> rat \<Rightarrow> int option \<Rightarrow> int option \<Rightarrow> int option
    \<Rightarrow> rat \<Rightarrow> int \<Rightarrow> string list \<Rightarrow> 'l pg_store \<Rightarrow> 'l pg_store \<times> run_ownership option res" where
  "claim_next E P worker lease_seconds max_active max_attempts max_per_principal aging_interval aging_cap
     locked st =
     (case claim_checks lease_seconds max_active max_attempts of
        Inl e \<Rightarrow> (st, Raise e)
      | Inr _ \<Rightarrow> decide_claim E P worker lease_seconds max_active max_attempts
          (find (\<lambda>r. g_run_id r \<notin> set locked)
             (claim_order E P aging_interval aging_cap
               (filter (\<lambda>r. run_is_claimable P st r \<and> principal_below P st max_per_principal r)
                  (pg_runs st)))) st)"

section \<open>Manual requeue\<close>

definition requeued_state :: "run_state \<Rightarrow> run_state" where
  "requeued_state s =
     s\<lparr>r_status := RunRUNNING, r_error := None, r_delivery_attempt := 0, r_failure_queued_at := None,
       r_last_delivery_failure := None, r_last_delivery_failed_at := None,
       r_last_delivery_worker_id := None, r_last_delivery_fencing_token := None\<rparr>"

definition requeued_row :: "pg_env \<Rightarrow> pydict \<Rightarrow> run_row \<Rightarrow> run_row" where
  "requeued_row P d r =
     r\<lparr>g_status := RunRUNNING, g_current_sequence := g_current_sequence r + 1, g_state_json := d,
       g_updated_at := pg_iso P (pg_now P), g_runnable := True, g_owner_worker_id := None,
       g_lease_until := None, g_fencing_token := g_fencing_token r + 1, g_delivery_attempt := 0,
       g_failure_queued_at := None, g_last_delivery_failure := None,
       g_last_delivery_failed_at := None, g_last_delivery_worker_id := None,
       g_last_delivery_fencing_token := None\<rparr>"

definition in_failure_queue :: "run_state \<Rightarrow> bool" where
  "in_failure_queue s \<longleftrightarrow> r_status s = RunFAILED \<and>
     (case r_error s of None \<Rightarrow> False | Some e \<Rightarrow> e_type e = RUN_DELIVERY_EXHAUSTED) \<and>
     r_failure_queued_at s \<noteq> None"

definition requeue_delivery_exhausted :: "pyenv \<Rightarrow> pg_env \<Rightarrow> string \<Rightarrow> 'l pg_store \<Rightarrow> 'l pg_store \<times> run_state res" where
  "requeue_delivery_exhausted E P run st =
     (case find_run st run of
        None \<Rightarrow> (st, Raise (ValueError ''run not found''))
      | Some r \<Rightarrow>
          (case bindR (checkpoint_with_delivery E P r) (\<lambda>s0.
                bindR (guardR (in_failure_queue s0)
                  (ValueError ''run is not in the delivery failure queue'')) (\<lambda>_.
                let s = (requeued_state s0)\<lparr>r_sequence := g_current_sequence r + 1,
                                            r_updated_at := pg_iso P (pg_now P)\<rparr> in
                bindR (run_state_to_dict s) (\<lambda>d.
                Ok (insert_checkpoint ((checkpoint_row_of s d)\<lparr>c_run_id := run\<rparr>)
                      (update_run run (requeued_row P d) st), s))))
           of Inl e \<Rightarrow> (st, Raise e) | Inr (st1, s) \<Rightarrow> (st1, Ok s)))"

section \<open>Capacity and rate limits\<close>

record capacity_snapshot =
  cs_queued_runs :: int
  cs_active_runs :: int
  cs_oldest_queued_age :: "rat option"
  cs_failure_queued_runs :: int
  cs_mean_delivery_attempts :: rat
  cs_max_delivery_attempts :: int

definition take_capacity_snapshot :: "pg_env \<Rightarrow> 'l pg_store \<Rightarrow> capacity_snapshot" where
  "take_capacity_snapshot P st =
     (let rs = pg_runs st; created = map g_created_at (filter (run_is_claimable P st) rs);
          attempts = map g_delivery_attempt rs
      in \<lparr>cs_queued_runs = queued_count P st, cs_active_runs = active_count P st,
          cs_oldest_queued_age = (case created of [] \<Rightarrow> None | t # ts \<Rightarrow> Some (pg_now P - fold min ts t)),
          cs_failure_queued_runs = int (length (filter (\<lambda>r. g_failure_queued_at r \<noteq> None) rs)),
          cs_mean_delivery_attempts =
            (if rs = [] then 0 else of_int (sum_list attempts) / of_nat (length rs)),
          cs_max_delivery_attempts = (case sql_max attempts of None \<Rightarrow> 0 | Some n \<Rightarrow> n)\<rparr>)"

text \<open>
  A bucket: its key, its rate and its burst. \<^verbatim>\<open>_consume_bucket\<close> creates a missing bucket full
  and reads how many tokens it has now.
\<close>

type_synonym bucket_spec = "(string \<times> string) \<times> rat \<times> int"

definition bucket_row :: "pg_env \<Rightarrow> bucket_spec \<Rightarrow> 'l pg_store \<Rightarrow> rat \<times> rat" where
  "bucket_row P b st = (case b of (key, rate, burst) \<Rightarrow>
     (case map_of (pg_buckets st) key of None \<Rightarrow> (of_int burst, pg_now P) | Some row \<Rightarrow> row))"

definition bucket_tokens :: "pg_env \<Rightarrow> bucket_spec \<Rightarrow> 'l pg_store \<Rightarrow> rat" where
  "bucket_tokens P b st = (case b of (key, rate, burst) \<Rightarrow>
     (case bucket_row P b st of (tokens, refill) \<Rightarrow>
        min (of_int burst) (tokens + max 0 (pg_now P - refill) * rate)))"

definition set_bucket :: "bucket_spec \<Rightarrow> rat \<times> rat \<Rightarrow> 'l pg_store \<Rightarrow> 'l pg_store" where
  "set_bucket b row st = st\<lparr>pg_buckets := dict_set (fst b) row (pg_buckets st)\<rparr>"

definition submission_buckets :: "string \<Rightarrow> rat option \<Rightarrow> int option \<Rightarrow> rat option \<Rightarrow> int option \<Rightarrow> bucket_spec list" where
  "submission_buckets principal_key global_rate global_burst principal_rate principal_burst =
     (case (global_rate, global_burst) of
        (Some q, Some n) \<Rightarrow> [((''global'', ''root_submission''), q, n)] | _ \<Rightarrow> []) @
     (case (principal_rate, principal_burst) of
        (Some q, Some n) \<Rightarrow> [((''principal'', principal_key), q, n)] | _ \<Rightarrow> [])"

text \<open>
  \<^verbatim>\<open>consume_submission_tokens\<close>: \<open>None\<close> when a token of every bucket was taken, otherwise the
  seconds to wait. A refused submission takes nothing.
\<close>

definition consume_submission_tokens :: "pg_env \<Rightarrow> bucket_spec list \<Rightarrow> 'l pg_store \<Rightarrow> 'l pg_store \<times> rat option" where
  "consume_submission_tokens P buckets st =
     (if buckets = [] then (st, None)
      else
        let st1 = fold (\<lambda>b s. set_bucket b (bucket_row P b s) s) buckets st;
            states = map (\<lambda>b. (b, bucket_tokens P b st1)) buckets
        in if \<exists>x \<in> set states. snd x < 1
           then (st1, Some (Max (set (map (\<lambda>((key, rate, burst), tokens). max 0 ((1 - tokens) / rate)) states))))
           else (fold (\<lambda>(b, tokens) s. set_bucket b (tokens - 1, pg_now P) s) states st1, None))"

end
