(* ===== verification/LedgerStore.thy ===== *)
theory LedgerStore
  imports Checkpoints
begin

text \<open>
  Compare-and-swap on budget ledgers: the contract of \<^verbatim>\<open>load_budget_ledger\<close> and
  \<^verbatim>\<open>save_budget_ledger\<close>, both local stores as interpretations, and \<^verbatim>\<open>BudgetManager._mutate\<close> of
  \<^verbatim>\<open>runtime/budget.py\<close>, the retry loop through which every budget operation goes.
  Other workers may write between the load and the save of an attempt; the writes they do in
  each attempt are an argument of the model.
\<close>

section \<open>The retry loop\<close>

fun other_writes :: "('l ledger_record \<Rightarrow> 's \<Rightarrow> 's \<times> 'l ledger_record \<times> unit res)
    \<Rightarrow> 'l ledger_record list \<Rightarrow> 's \<Rightarrow> 's" where
  "other_writes save [] s = s"
| "other_writes save (r # rs) s = other_writes save rs (fst (save r s))"

text \<open>
  \<open>f\<close> is the callback \<^verbatim>\<open>mutate\<close>. It may raise; it returns the changed ledger and what it
  appended to a list of the enclosing function (the violations of \<^verbatim>\<open>complete_model_call\<close>),
  which outlives an attempt that loses its race.
\<close>

fun mutate_loop :: "(string \<Rightarrow> 's \<Rightarrow> 'l ledger_record option)
    \<Rightarrow> ('l ledger_record \<Rightarrow> 's \<Rightarrow> 's \<times> 'l ledger_record \<times> unit res)
    \<Rightarrow> string \<Rightarrow> 'l \<Rightarrow> ('l \<Rightarrow> ('l \<times> 'w list) res) \<Rightarrow> 'l ledger_record list list \<Rightarrow> 'w list \<Rightarrow> 's
    \<Rightarrow> 's \<times> 'w list \<times> 'l ledger_record res" where
  "mutate_loop load save owner fresh f [] ws s =
     (s, ws, Raise (BudgetLedgerConflictError
        (''could not update budget ledger for '' @ owner @ '' after concurrent writes'')))"
| "mutate_loop load save owner fresh f (others # attempts) ws s =
     (let r = (case load owner s of
                 None \<Rightarrow> \<lparr>lr_owner_run_id = owner, lr_version = 0, lr_state = fresh\<rparr>
               | Some r \<Rightarrow> r)
      in case f (lr_state r) of
           Inl e \<Rightarrow> (s, ws, Raise e)
         | Inr (l, new) \<Rightarrow>
             (case save (r\<lparr>lr_state := l\<rparr>) (other_writes save others s) of
                (s', r', Inr u) \<Rightarrow> (s', ws @ new, Ok r')
              | (s', r', Inl (BudgetLedgerConflictError m)) \<Rightarrow>
                  mutate_loop load save owner fresh f attempts (ws @ new) s'
              | (s', r', Inl e) \<Rightarrow> (s', ws @ new, Raise e)))"

definition MUTATE_ATTEMPTS :: nat where
  "MUTATE_ATTEMPTS = 32"

text \<open>\<open>others n\<close> are the writes of other workers during attempt \<open>n\<close>.\<close>

definition mutate :: "(string \<Rightarrow> 's \<Rightarrow> 'l ledger_record option)
    \<Rightarrow> ('l ledger_record \<Rightarrow> 's \<Rightarrow> 's \<times> 'l ledger_record \<times> unit res)
    \<Rightarrow> string \<Rightarrow> 'l \<Rightarrow> ('l \<Rightarrow> ('l \<times> 'w list) res) \<Rightarrow> (nat \<Rightarrow> 'l ledger_record list) \<Rightarrow> 's
    \<Rightarrow> 's \<times> 'w list \<times> 'l ledger_record res" where
  "mutate load save owner fresh f others s =
     mutate_loop load save owner fresh f (map others [0..<MUTATE_ATTEMPTS]) [] s"

section \<open>The contract\<close>

definition ledger_version :: "'l ledger_record option \<Rightarrow> int" where
  "ledger_version r = (case r of None \<Rightarrow> 0 | Some x \<Rightarrow> lr_version x)"

definition ledger_or :: "'l \<Rightarrow> 'l ledger_record option \<Rightarrow> 'l" where
  "ledger_or fresh r = (case r of None \<Rightarrow> fresh | Some x \<Rightarrow> lr_state x)"

lemma ledger_simps [simp]:
  "ledger_version None = 0" "ledger_version (Some x) = lr_version x"
  "ledger_or l None = l" "ledger_or l (Some x) = lr_state x"
  by (simp_all add: ledger_version_def ledger_or_def)

locale ledger_store =
  fixes lload :: "string \<Rightarrow> 's \<Rightarrow> 'l ledger_record option"
    and lsave :: "'l ledger_record \<Rightarrow> 's \<Rightarrow> 's \<times> 'l ledger_record \<times> unit res"
    and linv :: "'s \<Rightarrow> bool"
  assumes load_owner: "linv s \<Longrightarrow> lload k s = Some r \<Longrightarrow> lr_owner_run_id r = k \<and> 1 \<le> lr_version r"
    and save_current:
      "linv s \<Longrightarrow> lr_version r = ledger_version (lload (lr_owner_run_id r) s) \<Longrightarrow>
       \<exists>s'. lsave r s = (s', r\<lparr>lr_version := lr_version r + 1\<rparr>, Ok ()) \<and> linv s' \<and>
         (\<forall>k. lload k s' = (if k = lr_owner_run_id r
                            then Some (r\<lparr>lr_version := lr_version r + 1\<rparr>) else lload k s))"
    and save_stale:
      "linv s \<Longrightarrow> lr_version r \<noteq> ledger_version (lload (lr_owner_run_id r) s) \<Longrightarrow>
       \<exists>m. lsave r s = (s, r, Raise (BudgetLedgerConflictError m))"
begin

lemma save_cases:
  assumes "linv s"
  obtains (written) s' where "lsave r s = (s', r\<lparr>lr_version := lr_version r + 1\<rparr>, Ok ())" "linv s'"
      "lr_version r = ledger_version (lload (lr_owner_run_id r) s)"
      "\<And>k. lload k s' = (if k = lr_owner_run_id r
                            then Some (r\<lparr>lr_version := lr_version r + 1\<rparr>) else lload k s)"
    | (stale) m where "lsave r s = (s, r, Raise (BudgetLedgerConflictError m))"
      "lr_version r \<noteq> ledger_version (lload (lr_owner_run_id r) s)"
  using save_current[OF assms] save_stale[OF assms] by metis

lemma save_monotone:
  assumes "linv s"
  shows "linv (fst (lsave r s)) \<and>
    ledger_version (lload k s) \<le> ledger_version (lload k (fst (lsave r s))) \<and>
    (ledger_version (lload k (fst (lsave r s))) = ledger_version (lload k s) \<longrightarrow>
       lload k (fst (lsave r s)) = lload k s)"
  using assms by (cases rule: save_cases[of s r]) (use assms in auto)

lemma other_writes_monotone:
  "linv s \<Longrightarrow> linv (other_writes lsave rs s) \<and>
    ledger_version (lload k s) \<le> ledger_version (lload k (other_writes lsave rs s)) \<and>
    (ledger_version (lload k (other_writes lsave rs s)) = ledger_version (lload k s) \<longrightarrow>
       lload k (other_writes lsave rs s) = lload k s)"
proof (induction rs arbitrary: s)
  case (Cons r rs)
  from save_monotone[OF Cons.prems, of r k] Cons.IH[of "fst (lsave r s)"] show ?case by fastforce
qed simp

text \<open>
  What one attempt does: the callback fails, or the change is written over the very ledger
  it was computed from, or the attempt lost a race and nothing of it is stored.
\<close>

lemma attempt_cases:
  fixes fresh :: 'l and owner :: string and others :: "'l ledger_record list"
  assumes "linv s"
  defines "r \<equiv> (case lload owner s of
       None \<Rightarrow> \<lparr>lr_owner_run_id = owner, lr_version = 0, lr_state = fresh\<rparr> | Some r \<Rightarrow> r)"
    and "s1 \<equiv> other_writes lsave others s"
  obtains (raised) e where "f (ledger_or fresh (lload owner s)) = Raise e"
      "mutate_loop lload lsave owner fresh f (others # rest) ws s = (s, ws, Raise e)"
    | (written) l new s' r' where "f (ledger_or fresh (lload owner s1)) = Ok (l, new)" "linv s'"
      "mutate_loop lload lsave owner fresh f (others # rest) ws s = (s', ws @ new, Ok r')"
      "lr_state r' = l" "lr_version r' = ledger_version (lload owner s1) + 1"
      "lr_owner_run_id r' = owner"
      "\<And>k. lload k s' = (if k = owner then Some r' else lload k s1)"
    | (lost) l new where "f (ledger_or fresh (lload owner s)) = Ok (l, new)"
      "mutate_loop lload lsave owner fresh f (others # rest) ws s =
         mutate_loop lload lsave owner fresh f rest (ws @ new) s1"
      "ledger_version (lload owner s1) \<noteq> ledger_version (lload owner s)"
proof -
  have r: "lr_owner_run_id r = owner" "lr_version r = ledger_version (lload owner s)"
    "lr_state r = ledger_or fresh (lload owner s)"
    using load_owner[OF assms(1), of owner] by (auto simp: r_def split: option.splits)
  note s1 = other_writes_monotone[OF assms(1), of others owner, folded s1_def]
  show ?thesis
  proof (cases "f (lr_state r)")
    case (Inl e)
    then show ?thesis using raised[of e] r(3) by (simp add: r_def)
  next
    case (Inr p)
    then obtain l new where p: "f (lr_state r) = Ok (l, new)" by (cases p) auto
    let ?q = "r\<lparr>lr_state := l\<rparr>"
    from s1 have "linv s1" by simp
    then show ?thesis
    proof (cases rule: save_cases[of s1 ?q])
      case (written s')
      have same: "lload owner s1 = lload owner s" using s1 written(3) r by simp
      show ?thesis
        by (rule that(2)[of l new s' "?q\<lparr>lr_version := lr_version ?q + 1\<rparr>"])
          (use p r written same in \<open>simp_all add: r_def[symmetric] s1_def[symmetric]\<close>)
    next
      case (stale m)
      show ?thesis
        by (rule lost[of l new]) (use p r stale in \<open>simp_all add: r_def[symmetric] s1_def[symmetric]\<close>)
    qed
  qed
qed

text \<open>
  Atomicity: a mutation that returns was applied, as a whole, to the ledger that was stored
  at the moment of its write; the writes before that moment are other workers'.
\<close>

lemma mutate_loop_atomic:
  "linv s \<Longrightarrow> mutate_loop lload lsave owner fresh f attempts ws s = (s', ws', Ok r') \<Longrightarrow>
   \<exists>others new. set others \<subseteq> set (concat attempts) \<and> linv s' \<and>
     f (ledger_or fresh (lload owner (other_writes lsave others s))) = Ok (lr_state r', new) \<and>
     lr_version r' = ledger_version (lload owner (other_writes lsave others s)) + 1 \<and>
     (\<forall>k. lload k s' = (if k = owner then Some r' else lload k (other_writes lsave others s)))"
proof (induction attempts arbitrary: ws s)
  case (Cons others rest)
  from Cons.prems(1) show ?case
  proof (cases rule: attempt_cases[where s = s and owner = owner and fresh = fresh and f = f and others = others and rest = rest and ws = ws])
    case (raised e)
    with Cons.prems show ?thesis by simp
  next
    case (written l new s2 r2)
    with Cons.prems show ?thesis by (intro exI[of _ others] exI[of _ new]) auto
  next
    case (lost l new)
    let ?s1 = "other_writes lsave others s"
    have "linv ?s1" using other_writes_monotone[OF Cons.prems(1)] by blast
    from Cons.IH[OF this, of "ws @ new"] lost(2) Cons.prems(2) obtain others' new' where
      IH: "set others' \<subseteq> set (concat rest)" "linv s'"
      "f (ledger_or fresh (lload owner (other_writes lsave others' ?s1))) = Ok (lr_state r', new')"
      "lr_version r' = ledger_version (lload owner (other_writes lsave others' ?s1)) + 1"
      "\<forall>k. lload k s' = (if k = owner then Some r' else lload k (other_writes lsave others' ?s1))"
      by auto
    have "other_writes lsave others' ?s1 = other_writes lsave (others @ others') s"
      by (induction others arbitrary: s) auto
    with IH show ?thesis by (intro exI[of _ "others @ others'"] exI[of _ new']) auto
  qed
qed simp

text \<open>Any attempt without interference decides the mutation: it does not run out of attempts.\<close>

lemma mutate_loop_decides:
  "linv s \<Longrightarrow> [] \<in> set attempts \<Longrightarrow>
   (case snd (snd (mutate_loop lload lsave owner fresh f attempts ws s)) of
      Inr r \<Rightarrow> True | Inl e \<Rightarrow> \<exists>l. f l = Raise e)"
proof (induction attempts arbitrary: ws s)
  case (Cons others rest)
  from Cons.prems(1) show ?case
  proof (cases rule: attempt_cases[where s = s and owner = owner and fresh = fresh and f = f and others = others and rest = rest and ws = ws])
    case (raised e)
    then show ?thesis by auto
  next
    case (written l new s2 r2)
    then show ?thesis by simp
  next
    case (lost l new)
    then have "others \<noteq> []" by auto
    with Cons.prems(2) have "[] \<in> set rest" by simp
    moreover have "linv (other_writes lsave others s)"
      using other_writes_monotone[OF Cons.prems(1)] by blast
    ultimately show ?thesis using Cons.IH lost(2) by simp
  qed
qed simp

end

section \<open>The stores\<close>

definition mem_ledgers_inv :: "'l mem_store \<Rightarrow> bool" where
  "mem_ledgers_inv st \<longleftrightarrow> (\<forall>k v l. map_of (ms_ledgers st) k = Some (v, l) \<longrightarrow> 1 \<le> v)"

interpretation mem_ledgers: ledger_store mem_load_ledger "mem_save_ledger None" mem_ledgers_inv
proof (unfold_locales, goal_cases)
  case (1 s k r)
  then show ?case unfolding mem_load_ledger_def mem_ledgers_inv_def by fastforce
next
  case (2 s r)
  then have cur: "(case map_of (ms_ledgers s) (lr_owner_run_id r) of None \<Rightarrow> 0 | Some (v, _) \<Rightarrow> v) = lr_version r"
    by (auto simp: mem_load_ledger_def ledger_version_def split: option.splits)
  have "0 \<le> lr_version r"
    using 2 unfolding mem_load_ledger_def mem_ledgers_inv_def
    by (cases "map_of (ms_ledgers s) (lr_owner_run_id r)") fastforce+
  with 2 cur show ?case
    by (cases r) (auto simp: mem_save_ledger_def mem_load_ledger_def mem_ledgers_inv_def Let_def)
next
  case (3 s r)
  then show ?case
    by (auto simp: mem_save_ledger_def mem_load_ledger_def ledger_version_def Let_def split: option.splits)
qed

text \<open>The primary key of the table: one row per owner.\<close>

definition sqlite_ledgers_inv :: "'l sqlite_store \<Rightarrow> bool" where
  "sqlite_ledgers_inv st \<longleftrightarrow> distinct (dict_keys (sq_ledgers st)) \<and>
     (\<forall>k v l. map_of (sq_ledgers st) k = Some (v, l) \<longrightarrow> 1 \<le> v)"

lemma map_of_update_row:
  "distinct (dict_keys rows) \<Longrightarrow> map_of rows k = Some (v, l) \<Longrightarrow>
   map (\<lambda>row. if fst row = k \<and> fst (snd row) = v then (k, w) else row) rows = dict_set k w rows"
proof (induction rows)
  case (Cons row rows)
  have "map (\<lambda>row. if fst row = k \<and> fst (snd row) = v then (k, w) else row) rows = rows"
    if "k \<notin> fst ` set rows"
    using that by (induction rows) auto
  with Cons show ?case by (cases row) auto
qed simp

lemma row_exists:
  "distinct (dict_keys rows) \<Longrightarrow>
   (\<exists>row \<in> set rows. fst row = k \<and> fst (snd row) = v) \<longleftrightarrow> (\<exists>l. map_of rows k = Some (v, l))"
  by (force simp: map_of_Some_iff_set)

interpretation sqlite_ledgers: ledger_store sqlite_load_ledger "sqlite_save_ledger None" sqlite_ledgers_inv
proof (unfold_locales, goal_cases)
  case (1 s k r)
  then show ?case unfolding sqlite_load_ledger_def sqlite_ledgers_inv_def by fastforce
next
  case (2 s r)
  show ?case
  proof (cases "map_of (sq_ledgers s) (lr_owner_run_id r)")
    case None
    with 2 have "lr_version r = 0" "lr_owner_run_id r \<notin> set (dict_keys (sq_ledgers s))"
      by (simp_all add: sqlite_load_ledger_def map_of_eq_None_iff)
    with 2(1) None show ?thesis
      by (cases r) (auto simp: sqlite_save_ledger_def sqlite_load_ledger_def sqlite_ledgers_inv_def
          map_add_def Let_def split: option.splits)
  next
    case (Some p)
    then obtain v l where p: "map_of (sq_ledgers s) (lr_owner_run_id r) = Some (v, l)" by (cases p) auto
    have "1 \<le> v" using 2(1) p unfolding sqlite_ledgers_inv_def by blast
    with 2(2) p have v: "lr_version r = v" "1 \<le> v" by (simp_all add: sqlite_load_ledger_def)
    with 2(1) p show ?thesis
      by (cases r) (auto simp: sqlite_save_ledger_def sqlite_load_ledger_def sqlite_ledgers_inv_def
          row_exists map_of_update_row Let_def)
  qed
next
  case (3 s r)
  show ?case
  proof (cases "map_of (sq_ledgers s) (lr_owner_run_id r)")
    case None
    with 3 have "lr_version r \<noteq> 0" "\<forall>row \<in> set (sq_ledgers s). fst row \<noteq> lr_owner_run_id r"
      by (force simp: sqlite_load_ledger_def map_of_eq_None_iff)+
    then show ?thesis by (auto simp: sqlite_save_ledger_def Let_def)
  next
    case (Some p)
    then obtain v l where p: "map_of (sq_ledgers s) (lr_owner_run_id r) = Some (v, l)" by (cases p) auto
    with 3(2) have "lr_version r \<noteq> v" by (simp add: sqlite_load_ledger_def)
    moreover have "lr_owner_run_id r \<in> set (dict_keys (sq_ledgers s))"
      using p by (simp add: key_iff_map_of)
    moreover have "\<not> (\<exists>row \<in> set (sq_ledgers s). fst row = lr_owner_run_id r \<and> fst (snd row) = lr_version r)"
      using 3(1) p \<open>lr_version r \<noteq> v\<close> by (simp add: row_exists sqlite_ledgers_inv_def)
    ultimately show ?thesis by (auto simp: sqlite_save_ledger_def Let_def)
  qed
qed

end
