(* ===== verification/PostgresTools.thy ===== *)
theory PostgresTools
  imports Postgres LedgerStore ToolStore
begin

text \<open>
  Tool executions and budget ledgers of \<^verbatim>\<open>PostgresRuntimeStore\<close>. Their writes are fenced: a
  save with an ownership first checks that it is the current one. The ledgers satisfy the
  same contract as those of the local stores, so the guarantees of \<^verbatim>\<open>BudgetManager._mutate\<close>
  hold on this store too.
\<close>

section \<open>Tool executions\<close>

text \<open>Times are \<^verbatim>\<open>timestamptz\<close> columns: they come back as the ISO text of the same instant.\<close>

definition stored_time :: "pg_env \<Rightarrow> string \<Rightarrow> string" where
  "stored_time P t = pg_iso P (pg_seconds P t)"

definition stored_times :: "pg_env \<Rightarrow> tool_record \<Rightarrow> tool_record" where
  "stored_times P r =
     r\<lparr>t_next_retry_at := map_option (stored_time P) (t_next_retry_at r),
       t_started_at := map_option (stored_time P) (t_started_at r),
       t_completed_at := map_option (stored_time P) (t_completed_at r),
       t_updated_at := stored_time P (t_updated_at r)\<rparr>"

definition find_pg_tool :: "'l pg_store \<Rightarrow> string \<Rightarrow> tool_record option" where
  "find_pg_tool st i = find (\<lambda>row. t_invocation_id row = i) (pg_tools st)"

definition pg_save_tool :: "pyenv \<Rightarrow> pg_env \<Rightarrow> run_ownership option \<Rightarrow> tool_record \<Rightarrow> 'l pg_store
    \<Rightarrow> 'l pg_store \<times> tool_record \<times> unit res" where
  "pg_save_tool E P own r st =
     (let r1 = r\<lparr>t_updated_at := now_text E\<rparr> in
      case validate_optional P own st of
        Inl e \<Rightarrow> (st, r, Raise e)
      | Inr _ \<Rightarrow>
          (case find_pg_tool st (t_invocation_id r) of
             None \<Rightarrow> (st\<lparr>pg_tools := pg_tools st @ [r1]\<rparr>, r1, Ok ())
           | Some old \<Rightarrow>
               if t_arguments_hash old \<noteq> t_arguments_hash r
               then (st, r, Raise reused_invocation)
               else (st\<lparr>pg_tools := map (\<lambda>row. if t_invocation_id row = t_invocation_id r
                                                 then upsert_tool row r1 else row) (pg_tools st)\<rparr>,
                     r1, Ok ())))"

definition pg_load_tool :: "pyenv \<Rightarrow> pg_env \<Rightarrow> string \<Rightarrow> 'l pg_store \<Rightarrow> tool_record option res" where
  "pg_load_tool E P i st =
     (case find_pg_tool st i of
        None \<Rightarrow> Ok None
      | Some row \<Rightarrow> bindR (tool_record_from_dict E (tool_record_to_dict (stored_times P row)))
                     (\<lambda>r. Ok (Some r)))"

definition pg_list_tools :: "pyenv \<Rightarrow> pg_env \<Rightarrow> string \<Rightarrow> 'l pg_store \<Rightarrow> tool_record list res" where
  "pg_list_tools E P run st =
     mapR (\<lambda>row. tool_record_from_dict E (tool_record_to_dict (stored_times P row)))
       (sort_key t_invocation_id (filter (\<lambda>row. t_run_id row = run) (pg_tools st)))"

section \<open>Ledgers\<close>

definition pg_load_ledger :: "string \<Rightarrow> 'l pg_store \<Rightarrow> 'l ledger_record option" where
  "pg_load_ledger owner st =
     map_option (\<lambda>(v, l). \<lparr>lr_owner_run_id = owner, lr_version = v, lr_state = l\<rparr>)
       (map_of (pg_ledgers st) owner)"

definition pg_save_ledger :: "pg_env \<Rightarrow> run_ownership option \<Rightarrow> 'l ledger_record \<Rightarrow> 'l pg_store
    \<Rightarrow> 'l pg_store \<times> 'l ledger_record \<times> unit res" where
  "pg_save_ledger P own r st =
     (let owner = lr_owner_run_id r;
          done = r\<lparr>lr_version := lr_version r + 1\<rparr>;
          stale = BudgetLedgerConflictError (''stale budget ledger for '' @ owner)
      in case validate_optional P own st of
           Inl e \<Rightarrow> (st, r, Raise e)
         | Inr _ \<Rightarrow>
             if lr_version r = 0
             then (if owner \<in> set (dict_keys (pg_ledgers st)) then (st, r, Raise stale)
                   else (st\<lparr>pg_ledgers := pg_ledgers st @ [(owner, 1, lr_state r)]\<rparr>, done, Ok ()))
             else (if \<exists>row \<in> set (pg_ledgers st). fst row = owner \<and> fst (snd row) = lr_version r
                   then (st\<lparr>pg_ledgers := map (\<lambda>row. if fst row = owner \<and> fst (snd row) = lr_version r
                                                      then (owner, lr_version r + 1, lr_state r) else row)
                                            (pg_ledgers st)\<rparr>, done, Ok ())
                   else (st, r, Raise stale)))"

definition pg_ledgers_inv :: "'l pg_store \<Rightarrow> bool" where
  "pg_ledgers_inv st \<longleftrightarrow> distinct (dict_keys (pg_ledgers st)) \<and>
     (\<forall>k v l. map_of (pg_ledgers st) k = Some (v, l) \<longrightarrow> 1 \<le> v)"

text \<open>The ledger table behaves as the one of the SQLite store.\<close>

definition ledger_table :: "'l pg_store \<Rightarrow> 'l sqlite_store" where
  "ledger_table st = sqlite_empty\<lparr>sq_ledgers := pg_ledgers st\<rparr>"

lemma ledger_table_facts:
  "pg_ledgers_inv st = sqlite_ledgers_inv (ledger_table st)"
  "pg_load_ledger k st = sqlite_load_ledger k (ledger_table st)"
  "ledger_table (st\<lparr>pg_ledgers := l\<rparr>) = sqlite_empty\<lparr>sq_ledgers := l\<rparr>"
  by (simp_all add: ledger_table_def pg_ledgers_inv_def sqlite_ledgers_inv_def pg_load_ledger_def
      sqlite_load_ledger_def)

lemma pg_save_ledger_as_sqlite:
  "pg_save_ledger P None r st =
     (case sqlite_save_ledger None r (ledger_table st) of
        (s', r', Inr u) \<Rightarrow> (st\<lparr>pg_ledgers := sq_ledgers s'\<rparr>, r', Ok u)
      | (s', r', Inl e) \<Rightarrow>
          (st, r, Raise (BudgetLedgerConflictError (''stale budget ledger for '' @ lr_owner_run_id r))))"
  by (auto simp: pg_save_ledger_def sqlite_save_ledger_def ledger_table_def validate_optional_def Let_def)

lemma ledger_table_update:
  "sqlite_save_ledger None r (ledger_table st) = (s', r', Ok u) \<Longrightarrow>
     ledger_table (st\<lparr>pg_ledgers := sq_ledgers s'\<rparr>) = s'"
  by (auto simp: sqlite_save_ledger_def ledger_table_def Let_def split: if_splits)

interpretation pg_ledger_store: ledger_store pg_load_ledger "pg_save_ledger P None" pg_ledgers_inv for P
proof (unfold_locales, goal_cases)
  case (1 s k r)
  then show ?case using sqlite_ledgers.load_owner by (simp add: ledger_table_facts(1,2))
next
  case (2 s r)
  then obtain s' where s': "sqlite_save_ledger None r (ledger_table s) =
      (s', r\<lparr>lr_version := lr_version r + 1\<rparr>, Ok ())" "sqlite_ledgers_inv s'"
    "\<forall>k. sqlite_load_ledger k s' = (if k = lr_owner_run_id r
        then Some (r\<lparr>lr_version := lr_version r + 1\<rparr>) else sqlite_load_ledger k (ledger_table s))"
    using sqlite_ledgers.save_current[of "ledger_table s" r] by (auto simp: ledger_table_facts(1,2))
  with ledger_table_update[OF s'(1)] show ?case
    by (simp add: pg_save_ledger_as_sqlite ledger_table_facts(1,2))
next
  case (3 s r)
  then obtain m where "sqlite_save_ledger None r (ledger_table s) =
      (ledger_table s, r, Raise (BudgetLedgerConflictError m))"
    using sqlite_ledgers.save_stale[of "ledger_table s" r] by (auto simp: ledger_table_facts(1,2))
  then show ?case by (simp add: pg_save_ledger_as_sqlite)
qed

lemma pg_ledgers_inv_empty: "pg_ledgers_inv pg_empty"
  by (simp add: pg_ledgers_inv_def pg_empty_def)

end
