(* ===== verification/Leases.thy ===== *)
theory Leases
  imports PostgresRuns PostgresTools "HOL-Library.Sublist"
begin

text \<open>
  What any sequence of operations of \<^verbatim>\<open>PostgresRuntimeStore\<close>, by any workers at any times,
  can do to the tables: the step relation over all methods that write, how a row of \<open>runs\<close>
  evolves under it, and the invariants of the tables.
\<close>

section \<open>The step relation\<close>

inductive pg_write :: "'l pg_store \<Rightarrow> 'l pg_store \<Rightarrow> bool" where
  write_save: "pg_write st (fst (pg_save E P own cp st))"
| write_tool: "pg_write st (fst (pg_save_tool E P own t st))"
| write_ledger: "pg_write st (fst (pg_save_ledger P own l st))"
| write_admit: "pg_write st (fst (admit_run E P cp queued per_principal st))"
| write_submit: "pg_write st (fst (admit_submission E P cp key fp queued per_principal st))"
| write_renew: "pg_write st (fst (renew_lease P w secs st))"
| write_release: "pg_write st (fst (release_lease P w runnable st))"
| write_runnable: "pg_write st (fst (mark_runnable P run st))"
| write_requeue: "pg_write st (fst (requeue_delivery_exhausted E P run st))"
| write_tokens: "pg_write st (fst (consume_submission_tokens P buckets st))"

text \<open>\<open>pg_claims attempts st res st'\<close>: a claim under a limit of delivery attempts, with its result.\<close>

inductive pg_claims :: "int option \<Rightarrow> 'l pg_store \<Rightarrow> run_ownership option res \<Rightarrow> 'l pg_store \<Rightarrow> bool" where
  claims_run: "claim_run E P run worker secs active attempts per_principal st = (st', res) \<Longrightarrow>
     pg_claims attempts st res st'"
| claims_next: "claim_next E P worker secs active attempts per_principal interval cap locked st = (st', res) \<Longrightarrow>
     pg_claims attempts st res st'"

text \<open>Steps in which claims use any limit, and steps in which all claims use the limit \<open>m\<close>.\<close>

definition pg_step :: "'l pg_store \<Rightarrow> 'l pg_store \<Rightarrow> bool" where
  "pg_step st st' \<longleftrightarrow> pg_write st st' \<or> (\<exists>attempts res. pg_claims attempts st res st')"

definition pg_step_within :: "int \<Rightarrow> 'l pg_store \<Rightarrow> 'l pg_store \<Rightarrow> bool" where
  "pg_step_within m st st' \<longleftrightarrow> pg_write st st' \<or> (\<exists>res. pg_claims (Some m) st res st')"

abbreviation pg_steps :: "'l pg_store \<Rightarrow> 'l pg_store \<Rightarrow> bool" where
  "pg_steps \<equiv> pg_step\<^sup>*\<^sup>*"

definition pg_claim :: "'l pg_store \<Rightarrow> run_ownership \<Rightarrow> 'l pg_store \<Rightarrow> bool" where
  "pg_claim st w st' \<longleftrightarrow> (\<exists>attempts. pg_claims attempts st (Ok (Some w)) st')"

section \<open>Rows under single updates\<close>

lemma update_where_tables [simp]:
  "pg_checkpoints (update_where C f st) = pg_checkpoints st"
  "pg_submissions (update_where C f st) = pg_submissions st"
  "pg_runs (update_where C f st) = map (\<lambda>r. if C r then f r else r) (pg_runs st)"
  by (simp_all add: update_where_def)

lemma update_run_tables [simp]:
  "pg_checkpoints (update_run run f st) = pg_checkpoints st"
  "pg_submissions (update_run run f st) = pg_submissions st"
  "pg_runs (update_run run f st) = map (\<lambda>r. if g_run_id r = run then f r else r) (pg_runs st)"
  by (simp_all add: update_run_def)

lemma insert_checkpoint_tables [simp]:
  "pg_checkpoints (insert_checkpoint row st) = pg_checkpoints st @ [row]"
  "pg_submissions (insert_checkpoint row st) = pg_submissions st"
  "pg_runs (insert_checkpoint row st) = pg_runs st"
  by (simp_all add: insert_checkpoint_def)

lemma touch_simps [simp]:
  "g_run_id (touch_runnable_since P r) = g_run_id r" "g_status (touch_runnable_since P r) = g_status r"
  "g_owner_worker_id (touch_runnable_since P r) = g_owner_worker_id r"
  "g_lease_until (touch_runnable_since P r) = g_lease_until r"
  "g_fencing_token (touch_runnable_since P r) = g_fencing_token r"
  "g_current_sequence (touch_runnable_since P r) = g_current_sequence r"
  "g_delivery_attempt (touch_runnable_since P r) = g_delivery_attempt r"
  "g_runnable (touch_runnable_since P r) = g_runnable r"
  "g_parent_run_id (touch_runnable_since P r) = g_parent_run_id r"
  by (simp_all add: touch_runnable_since_def)

text \<open>
  The ownership columns of a row: a fencing token never decreases, and the owner changes to
  another worker only with a new token. An owned row has a lease and a token of at least 1.
  Under a limit of delivery attempts no row exceeds it (the first delivery is always made).
\<close>

definition row_evolves :: "run_row \<Rightarrow> run_row \<Rightarrow> bool" where
  "row_evolves r r' \<longleftrightarrow> g_run_id r' = g_run_id r \<and> g_fencing_token r \<le> g_fencing_token r' \<and>
     (g_fencing_token r' = g_fencing_token r \<longrightarrow>
        g_owner_worker_id r' \<in> {None, g_owner_worker_id r})"

fun attempts_within :: "int option \<Rightarrow> int \<Rightarrow> bool" where
  "attempts_within None k = True"
| "attempts_within (Some n) k = (k \<le> max 1 n)"

lemma attempts_within_mono [simp]: "k \<le> 1 \<Longrightarrow> attempts_within m k"
  by (cases m) auto

definition row_ok :: "int option \<Rightarrow> run_row \<Rightarrow> bool" where
  "row_ok m r \<longleftrightarrow> 0 \<le> g_fencing_token r \<and> 0 \<le> g_delivery_attempt r \<and>
     (g_owner_worker_id r \<noteq> None \<longrightarrow> g_lease_until r \<noteq> None \<and> 1 \<le> g_fencing_token r) \<and>
     (g_owner_worker_id r = None \<longrightarrow> g_lease_until r = None) \<and>
     attempts_within m (g_delivery_attempt r)"

definition row_step :: "int option \<Rightarrow> run_row \<Rightarrow> run_row \<Rightarrow> bool" where
  "row_step m r r' \<longleftrightarrow> row_evolves r r' \<and> (row_ok m r \<longrightarrow> row_ok m r')"

named_theorems row_steps \<open>the row updates of the operations are steps of a row\<close>

lemma row_step_refl [row_steps, simp]: "row_step m r r"
  by (simp add: row_step_def row_evolves_def)

lemma row_step_trans: "row_step m r r' \<Longrightarrow> row_step m r' r'' \<Longrightarrow> row_step m r r''"
  by (auto simp: row_step_def row_evolves_def)

lemma row_step_touch [row_steps]: "row_step m r (touch_runnable_since P r)"
  by (simp add: row_step_def row_evolves_def row_ok_def)

lemma row_step_saved [row_steps]: "row_step m r (saved_run_row cp sq now d r)"
  by (simp add: row_step_def row_evolves_def row_ok_def saved_run_row_def)

lemma row_step_finish [row_steps]: "row_step m r (finish_row own r)"
  by (auto simp: row_step_def row_evolves_def row_ok_def finish_row_def Let_def split: option.splits)

lemma row_step_wake [row_steps]: "row_step m r (wake_row P r)"
  by (auto simp: row_step_def row_evolves_def row_ok_def wake_row_def)

lemma row_step_runnable [row_steps]: "row_step m r (r\<lparr>g_runnable := b\<rparr>)"
  by (simp add: row_step_def row_evolves_def row_ok_def)

lemma row_step_wake_exhausted [row_steps]:
  "row_step m r (if b then r\<lparr>g_runnable := True\<rparr> else r)"
  by (simp add: row_step_runnable)

lemma row_step_mark [row_steps]: "row_step m r (touch_runnable_since P (r\<lparr>g_runnable := b\<rparr>))"
  using row_step_trans[OF row_step_runnable row_step_touch] .

lemma row_step_release [row_steps]: "row_step m r (release_row P b r)"
  by (auto simp: row_step_def row_evolves_def row_ok_def release_row_def Let_def)

lemma row_step_renew [row_steps]:
  "g_owner_worker_id r \<noteq> None \<Longrightarrow>
     row_step m r (r\<lparr>g_lease_until := Some t, g_last_heartbeat_at := u\<rparr>)"
  by (auto simp: row_step_def row_evolves_def row_ok_def)

lemma row_step_claim:
  "m = None \<or> \<not> delivery_is_exhausted (Some r) m \<Longrightarrow> row_step m r (claim_row P worker secs r)"
  by (auto simp: row_step_def row_evolves_def row_ok_def claim_row_def next_delivery_attempt_def
      delivery_is_exhausted_def Let_def split: option.splits elim!: attempts_within.elims)

lemma row_step_exhausted [row_steps]: "row_step m r (exhausted_row P s d r)"
  by (simp add: row_step_def row_evolves_def row_ok_def exhausted_row_def)

lemma row_step_requeued [row_steps]: "row_step m r (requeued_row P d r)"
  by (simp add: row_step_def row_evolves_def row_ok_def requeued_row_def)

lemma new_row_ok [simp]: "row_ok m (new_run_row P cp sq now d b)" "g_run_id (new_run_row P cp sq now d b) = r_run_id cp"
  by (simp_all add: row_ok_def new_run_row_def)

section \<open>Tables under a step\<close>

text \<open>Rows are updated in place and new ones appended; submissions are only appended.\<close>

definition pg_evolves :: "int option \<Rightarrow> 'l pg_store \<Rightarrow> 'l pg_store \<Rightarrow> bool" where
  "pg_evolves m st st' \<longleftrightarrow>
     (\<exists>old new. pg_runs st' = old @ new \<and> list_all2 (row_step m) (pg_runs st) old \<and>
        (\<forall>r \<in> set new. row_ok m r) \<and>
        (distinct (map g_run_id (pg_runs st)) \<longrightarrow> distinct (map g_run_id (old @ new)))) \<and>
     prefix (pg_submissions st) (pg_submissions st')"

lemma row_step_ids: "list_all2 (row_step m) rs rs' \<Longrightarrow> map g_run_id rs' = map g_run_id rs"
  by (induction rule: list_all2_induct) (auto simp: row_step_def row_evolves_def)

lemma row_steps_ok: "list_all2 (row_step m) rs rs' \<Longrightarrow> \<forall>r \<in> set rs. row_ok m r \<Longrightarrow> \<forall>r \<in> set rs'. row_ok m r"
  by (induction rule: list_all2_induct) (auto simp: row_step_def)

lemma list_all2_row_step_refl [simp]: "list_all2 (row_step m) rs rs"
  by (simp add: list.rel_refl)

lemma pg_evolves_refl [simp]: "pg_evolves m st st"
  unfolding pg_evolves_def by (rule conjI, rule exI[of _ "pg_runs st"], rule exI[of _ "[]"]) simp_all

lemma pg_evolves_same: "pg_runs st' = pg_runs st \<Longrightarrow> pg_submissions st' = pg_submissions st \<Longrightarrow> pg_evolves m st st'"
  unfolding pg_evolves_def by (rule conjI, rule exI[of _ "pg_runs st"], rule exI[of _ "[]"]) simp_all

lemma pg_evolves_trans:
  assumes "pg_evolves m a b" "pg_evolves m b c"
  shows "pg_evolves m a c"
proof -
  obtain o1 n1 where 1: "pg_runs b = o1 @ n1" "list_all2 (row_step m) (pg_runs a) o1" "\<forall>r \<in> set n1. row_ok m r"
    "distinct (map g_run_id (pg_runs a)) \<longrightarrow> distinct (map g_run_id (o1 @ n1))"
    "prefix (pg_submissions a) (pg_submissions b)"
    using assms(1) by (auto simp: pg_evolves_def)
  obtain o2 n2 where 2: "pg_runs c = o2 @ n2" "list_all2 (row_step m) (o1 @ n1) o2" "\<forall>r \<in> set n2. row_ok m r"
    "distinct (map g_run_id (pg_runs b)) \<longrightarrow> distinct (map g_run_id (o2 @ n2))"
    "prefix (pg_submissions b) (pg_submissions c)"
    using assms(2) 1(1) by (auto simp: pg_evolves_def)
  obtain p q where pq: "o2 = p @ q" "list_all2 (row_step m) o1 p" "list_all2 (row_step m) n1 q"
    using 2(2) by (auto simp: list_all2_append1)
  have "list_all2 (row_step m) (pg_runs a) p"
    using list_all2_trans[of "row_step m" "row_step m" "row_step m", OF row_step_trans 1(2) pq(2)] .
  moreover have "\<forall>r \<in> set (q @ n2). row_ok m r"
    using row_steps_ok[OF pq(3) 1(3)] 2(3) by auto
  ultimately show ?thesis
    unfolding pg_evolves_def using 1 2 pq
    by (intro conjI exI[of _ p] exI[of _ "q @ n2"]) (auto intro: prefix_order.trans)
qed

lemma list_all2_row_step_map:
  "(\<And>r. r \<in> set rs \<Longrightarrow> row_step m r (f r)) \<Longrightarrow> list_all2 (row_step m) rs (map f rs)"
  by (simp add: list_all2_map2 list.rel_refl_strong)

lemma pg_evolves_where:
  assumes "\<And>r. r \<in> set (pg_runs st) \<Longrightarrow> C r \<Longrightarrow> row_step m r (f r)"
  shows "pg_evolves m st (update_where C f st)"
proof -
  let ?rs = "map (\<lambda>r. if C r then f r else r) (pg_runs st)"
  have step: "list_all2 (row_step m) (pg_runs st) ?rs"
    by (rule list_all2_row_step_map) (use assms in auto)
  show ?thesis unfolding pg_evolves_def
    by (rule conjI, rule exI[of _ ?rs], rule exI[of _ "[]"])
      (use step row_step_ids[OF step] in \<open>simp_all del: list.map_comp map_map\<close>)
qed

lemma pg_evolves_update: "(\<And>r. row_step m r (f r)) \<Longrightarrow> pg_evolves m st (update_run run f st)"
  by (simp add: update_run_def pg_evolves_where)

lemma pg_evolves_append:
  assumes "find_run st (g_run_id r) = None" "row_ok m r"
  shows "pg_evolves m st (st\<lparr>pg_runs := pg_runs st @ [r]\<rparr>)"
  unfolding pg_evolves_def
  by (rule conjI, rule exI[of _ "pg_runs st"], rule exI[of _ "[r]"])
    (use assms in \<open>auto simp: find_run_def find_None_iff\<close>)

lemma pg_evolves_checkpoint: "pg_evolves m st st' \<Longrightarrow> pg_evolves m st (insert_checkpoint row st')"
  by (erule pg_evolves_trans) (rule pg_evolves_same; simp)

lemma pg_evolves_submission:
  "pg_evolves m st st' \<Longrightarrow> pg_evolves m st (st'\<lparr>pg_submissions := pg_submissions st' @ [x]\<rparr>)"
  by (erule pg_evolves_trans, unfold pg_evolves_def, rule conjI, rule exI[of _ "pg_runs st'"],
      rule exI[of _ "[]"]) simp_all

section \<open>The operations evolve the tables\<close>

named_theorems pg_ops \<open>every operation evolves the tables\<close>

lemma pg_evolves_write_run:
  "write_run P cp now d st = Ok st1 \<Longrightarrow> pg_evolves m st st1"
  by (auto simp: write_run_def Let_def split: option.splits if_splits
      intro!: pg_evolves_update pg_evolves_append row_steps)

lemma wake_parent_evolves: "pg_evolves m st (wake_parent P parent st)"
  by (auto simp: wake_parent_def split: option.splits intro: pg_evolves_update row_steps)

lemma pg_evolves_finish_run: "pg_evolves m st (finish_run P own cp st)"
  by (simp add: finish_run_def pg_evolves_trans[OF pg_evolves_update wake_parent_evolves] row_step_finish)

lemma pg_save_evolves [pg_ops]: "pg_evolves m st (fst (pg_save E P own cp st))"
  by (auto simp: pg_save_def Let_def bindR_Ok_iff split: sum.splits
      intro!: pg_evolves_trans[OF pg_evolves_checkpoint[OF pg_evolves_write_run] pg_evolves_finish_run])

lemma pg_save_tool_evolves [pg_ops]: "pg_evolves m st (fst (pg_save_tool E P own t st))"
  by (auto simp: pg_save_tool_def Let_def split: sum.splits option.splits intro!: pg_evolves_same)

lemma pg_save_ledger_evolves [pg_ops]: "pg_evolves m st (fst (pg_save_ledger P own l st))"
  by (auto simp: pg_save_ledger_def Let_def split: sum.splits intro!: pg_evolves_same)

lemma insert_initial_run_evolves:
  "find_run st (r_run_id cp) = None \<Longrightarrow> insert_initial_run E P cp st = Ok st1 \<Longrightarrow> pg_evolves m st st1"
  by (auto simp: insert_initial_run_def bindR_Ok_iff intro!: pg_evolves_checkpoint pg_evolves_append)

lemma admission_checks_fresh: "admission_checks P cp q pq st = Ok u \<Longrightarrow> find_run st (r_run_id cp) = None"
  by (auto simp: admission_checks_def bindR_Ok_iff)

lemma admit_run_evolves [pg_ops]: "pg_evolves m st (fst (admit_run E P cp q pq st))"
  by (auto simp: admit_run_def bindR_Ok_iff split: sum.splits
      intro!: insert_initial_run_evolves admission_checks_fresh)

lemma admit_submission_evolves [pg_ops]: "pg_evolves m st (fst (admit_submission E P cp key fp q pq st))"
proof -
  let ?admit = "bindR (admission_checks P cp q pq st) (\<lambda>_. insert_initial_run E P cp st)"
  have "pg_evolves m st st1" if "?admit = Ok st1" for st1
    using that insert_initial_run_evolves admission_checks_fresh by (fastforce simp: bindR_Ok_iff)
  then show ?thesis
    by (auto simp: admit_submission_def split: sum.split option.split intro: pg_evolves_submission)
qed

lemma wake_exhausted_evolves: "pg_evolves m st (wake_exhausted_parent parent st)"
  by (auto simp: wake_exhausted_parent_def split: option.splits intro: pg_evolves_update row_steps)

lemma mark_delivery_exhausted_evolves:
  "mark_delivery_exhausted E P r n st = Ok st1 \<Longrightarrow> pg_evolves m st st1"
  by (auto simp: mark_delivery_exhausted_def bindR_Ok_iff Let_def split: option.splits if_splits
      intro!: pg_evolves_trans[OF pg_evolves_checkpoint[OF pg_evolves_update[OF row_step_exhausted]]
        wake_exhausted_evolves])

text \<open>
  Both claims decide on one claimable candidate, if there is one, after checking their
  arguments.
\<close>

definition candidate_of :: "pg_env \<Rightarrow> 'l pg_store \<Rightarrow> int option \<Rightarrow> run_row option \<Rightarrow> bool" where
  "candidate_of P st per_principal c \<longleftrightarrow> (\<forall>r. c = Some r \<longrightarrow>
     r \<in> set (pg_runs st) \<and> run_is_claimable P st r \<and> principal_below P st per_principal r)"

lemma find_SomeD: "find Q xs = Some x \<Longrightarrow> Q x \<and> x \<in> set xs"
  by (auto simp: find_Some_iff)

lemma claim_run_decides:
  assumes "claim_run E P run worker secs active attempts per_principal st = (st', res)"
  obtains (refused) e where "st' = st" "res = Raise e"
    | (decided) c where "decide_claim E P worker secs active attempts c st = (st', res)"
      "candidate_of P st per_principal c" "0 < secs" "\<forall>r. c = Some r \<longrightarrow> g_run_id r = run"
      "case attempts of None \<Rightarrow> True | Some n \<Rightarrow> 0 < n"
  using assms by (auto simp: claim_run_def claim_checks_def candidate_of_def require_positive_lease_def
      require_optional_limit_def bindR_Ok_iff split: sum.splits dest: find_SomeD)

lemma set_claim_order [simp]: "set (claim_order E P interval cap rs) = set rs"
  by (simp add: claim_order_def)

lemma claim_next_decides:
  assumes "claim_next E P worker secs active attempts per_principal interval cap locked st = (st', res)"
  obtains (refused) e where "st' = st" "res = Raise e"
    | (decided) c where "decide_claim E P worker secs active attempts c st = (st', res)"
      "candidate_of P st per_principal c" "0 < secs"
      "case attempts of None \<Rightarrow> True | Some n \<Rightarrow> 0 < n"
proof (cases "claim_checks secs active attempts")
  case (Inl e)
  with assms show ?thesis by (intro that(1)[of e]) (simp_all add: claim_next_def)
next
  case (Inr u)
  let ?c = "find (\<lambda>r. g_run_id r \<notin> set locked) (claim_order E P interval cap
    (filter (\<lambda>r. run_is_claimable P st r \<and> principal_below P st per_principal r) (pg_runs st)))"
  have "candidate_of P st per_principal ?c"
    by (auto simp: candidate_of_def dest!: find_SomeD)
  with assms Inr that(2)[of ?c] show ?thesis
    by (auto simp: claim_next_def claim_checks_def require_positive_lease_def require_optional_limit_def
        bindR_Ok_iff)
qed

lemma pg_claims_cases:
  assumes "pg_claims attempts st res st'"
  obtains (refused) e where "st' = st" "res = Raise e"
    | (decided) E P worker secs active per_principal c where
      "decide_claim E P worker secs active attempts c st = (st', res)"
      "candidate_of P st per_principal c" "0 < secs"
  using assms by cases (erule claim_run_decides claim_next_decides; use that in blast)+

text \<open>A granted claim updated exactly the row of its candidate.\<close>

lemma decide_claim_granted:
  assumes "decide_claim E P worker secs active attempts c st = (st', Ok (Some w))"
  obtains r where "c = Some r" "\<not> delivery_is_exhausted (Some r) attempts"
    "active = None \<or> active_count P st < the active"
    "st' = update_run (g_run_id r) (claim_row P worker secs) st"
    "w = ownership_of_row (Some (g_owner_worker_id r \<noteq> None)) (claim_row P worker secs r)"
  using assms by (auto simp: decide_claim_def claim_locked_candidate_def
      split: if_splits sum.splits option.splits)

lemma decide_claim_evolves:
  assumes "decide_claim E P worker secs active attempts c st = (st', res)"
    "candidate_of P st per_principal c" "m = None \<or> m = attempts \<and> distinct (map g_run_id (pg_runs st))"
  shows "pg_evolves m st st'"
proof (cases "\<exists>w. res = Ok (Some w)")
  case True
  then obtain r where r: "c = Some r" "\<not> delivery_is_exhausted (Some r) attempts"
    "st' = update_run (g_run_id r) (claim_row P worker secs) st"
    using assms(1) decide_claim_granted by metis
  have "row_step m x (claim_row P worker secs x)"
    if "x \<in> set (pg_runs st)" "g_run_id x = g_run_id r" for x
  proof -
    have "m = None \<or> m = attempts \<and> x = r"
      using assms(2,3) r(1) that by (auto simp: candidate_of_def distinct_map inj_on_def)
    with r(2) show ?thesis by (auto intro: row_step_claim)
  qed
  then show ?thesis unfolding r(3) update_run_def by (rule pg_evolves_where)
next
  case False
  with assms(1) show ?thesis
    by (auto simp: decide_claim_def claim_locked_candidate_def split: sum.splits option.splits if_splits
        intro: mark_delivery_exhausted_evolves)
qed

lemma pg_claims_evolve:
  assumes "pg_claims attempts st res st'" "m = None \<or> m = attempts \<and> distinct (map g_run_id (pg_runs st))"
  shows "pg_evolves m st st'"
  using assms(1) by (cases rule: pg_claims_cases) (simp, rule decide_claim_evolves[OF _ _ assms(2)])

lemma renew_lease_evolves [pg_ops]: "pg_evolves m st (fst (renew_lease P w secs st))"
  by (auto simp: renew_lease_def Let_def split: option.splits intro!: pg_evolves_where row_steps)
    (simp add: owns_def)

lemma release_lease_evolves [pg_ops]: "pg_evolves m st (fst (release_lease P w b st))"
  by (auto simp: release_lease_def intro!: pg_evolves_where row_steps)

lemma mark_runnable_evolves [pg_ops]: "pg_evolves m st (fst (mark_runnable P run st))"
  by (auto simp: mark_runnable_def split: option.splits intro!: pg_evolves_update row_steps)

lemma requeue_evolves [pg_ops]: "pg_evolves m st (fst (requeue_delivery_exhausted E P run st))"
  by (auto simp: requeue_delivery_exhausted_def Let_def bindR_Ok_iff split: option.splits sum.splits
      intro!: pg_evolves_checkpoint pg_evolves_update row_steps)

lemma set_bucket_tables [simp]:
  "pg_runs (set_bucket b row st) = pg_runs st" "pg_submissions (set_bucket b row st) = pg_submissions st"
  "pg_checkpoints (set_bucket b row st) = pg_checkpoints st"
  by (simp_all add: set_bucket_def)

lemma fold_set_bucket_tables [simp]:
  "pg_runs (fold (\<lambda>x s. set_bucket (k x) (f x s) s) xs st) = pg_runs st"
  "pg_submissions (fold (\<lambda>x s. set_bucket (k x) (f x s) s) xs st) = pg_submissions st"
  "pg_checkpoints (fold (\<lambda>x s. set_bucket (k x) (f x s) s) xs st) = pg_checkpoints st"
  by (induction xs arbitrary: st) simp_all

lemma tokens_evolve [pg_ops]: "pg_evolves m st (fst (consume_submission_tokens P bs st))"
  by (auto simp: consume_submission_tokens_def Let_def case_prod_unfold intro!: pg_evolves_same)

lemma pg_write_evolves: "pg_write st st' \<Longrightarrow> pg_evolves m st st'"
  by (induction rule: pg_write.induct) (rule pg_ops)+

lemma pg_step_evolves: "pg_step st st' \<Longrightarrow> pg_evolves None st st'"
  by (auto simp: pg_step_def intro: pg_write_evolves pg_claims_evolve)

lemma pg_step_within_evolves:
  "pg_step_within m st st' \<Longrightarrow> distinct (map g_run_id (pg_runs st)) \<Longrightarrow> pg_evolves (Some m) st st'"
  by (auto simp: pg_step_within_def intro: pg_write_evolves pg_claims_evolve)

lemma pg_steps_evolve: "pg_steps st st' \<Longrightarrow> pg_evolves None st st'"
  by (induction rule: rtranclp_induct) (auto intro: pg_evolves_trans pg_step_evolves)

section \<open>Invariants of reachable tables\<close>

definition pg_reachable :: "'l pg_store \<Rightarrow> bool" where
  "pg_reachable st \<longleftrightarrow> pg_steps pg_empty st"

lemma pg_reachable_induct [consumes 1, case_names empty step]:
  assumes "pg_reachable st" "Q pg_empty"
    and "\<And>st st'. pg_reachable st \<Longrightarrow> Q st \<Longrightarrow> pg_step st st' \<Longrightarrow> Q st'"
  shows "Q st"
  using assms(1) unfolding pg_reachable_def
  by (induction rule: rtranclp_induct) (use assms(2,3) in \<open>auto simp: pg_reachable_def\<close>)

lemma pg_reachable_steps: "pg_reachable st \<Longrightarrow> pg_steps st st' \<Longrightarrow> pg_reachable st'"
  by (simp add: pg_reachable_def)

lemma pg_step_steps: "pg_step st st' \<Longrightarrow> pg_steps st st'"
  by blast

lemma pg_evolves_rows_ok:
  assumes "pg_evolves m st st'" "\<forall>r \<in> set (pg_runs st). row_ok m r" "distinct (map g_run_id (pg_runs st))"
  shows "(\<forall>r \<in> set (pg_runs st'). row_ok m r) \<and> distinct (map g_run_id (pg_runs st'))"
  using assms row_steps_ok by (fastforce simp: pg_evolves_def)

lemma pg_reachable_rows:
  "pg_reachable st \<Longrightarrow> (\<forall>r \<in> set (pg_runs st). row_ok None r) \<and> distinct (map g_run_id (pg_runs st))"
proof (induction rule: pg_reachable_induct)
  case empty
  then show ?case by (simp add: pg_empty_def)
next
  case (step st st')
  then show ?case using pg_evolves_rows_ok pg_step_evolves by metis
qed

lemma find_run_in: "find_run st run = Some r \<Longrightarrow> r \<in> set (pg_runs st) \<and> g_run_id r = run"
  by (auto simp: find_run_def find_Some_iff)

lemma find_distinct:
  "distinct (map f xs) \<Longrightarrow> x \<in> set xs \<Longrightarrow> find (\<lambda>y. f y = f x) xs = Some x"
  by (induction xs) auto

lemma find_run_distinct:
  "distinct (map g_run_id (pg_runs st)) \<Longrightarrow> r \<in> set (pg_runs st) \<Longrightarrow> find_run st (g_run_id r) = Some r"
  unfolding find_run_def by (rule find_distinct)

lemma find_update:
  "(\<And>r. g_run_id (f r) = g_run_id r) \<Longrightarrow>
   find (\<lambda>r. g_run_id r = k) (map (\<lambda>r. if g_run_id r = run then f r else r) rs) =
     (if k = run then map_option f (find (\<lambda>r. g_run_id r = k) rs) else find (\<lambda>r. g_run_id r = k) rs)"
  by (induction rs) auto

lemma find_run_update:
  "(\<And>r. g_run_id (f r) = g_run_id r) \<Longrightarrow>
   find_run (update_run run f st) k = (if k = run then map_option f (find_run st k) else find_run st k)"
  by (simp add: find_run_def find_update)

lemma pg_evolves_distinct:
  "pg_evolves m st st' \<Longrightarrow> distinct (map g_run_id (pg_runs st)) \<Longrightarrow> distinct (map g_run_id (pg_runs st'))"
  by (auto simp: pg_evolves_def)

lemma row_step_token: "row_step m r r' \<Longrightarrow> g_fencing_token r \<le> g_fencing_token r'"
  by (simp add: row_step_def row_evolves_def)

lemma find_evolves:
  "list_all2 (row_step m) rs rs' \<Longrightarrow>
   (case find (\<lambda>r. g_run_id r = run) rs of
      None \<Rightarrow> find (\<lambda>r. g_run_id r = run) rs' = None
    | Some r \<Rightarrow> \<exists>r'. find (\<lambda>r. g_run_id r = run) rs' = Some r' \<and> row_step m r r')"
  by (induction rule: list_all2_induct) (auto simp: row_step_def row_evolves_def split: option.splits)

lemma find_append: "find Q (xs @ ys) = (case find Q xs of None \<Rightarrow> find Q ys | Some x \<Rightarrow> Some x)"
  by (induction xs) auto

lemma find_run_evolves:
  assumes "pg_evolves m st st'" "find_run st run = Some r"
  shows "\<exists>r'. find_run st' run = Some r' \<and> row_step m r r'"
proof -
  obtain old new where o: "pg_runs st' = old @ new" "list_all2 (row_step m) (pg_runs st) old"
    using assms(1) by (auto simp: pg_evolves_def)
  with find_evolves[OF o(2), of run] assms(2) show ?thesis
    by (auto simp: find_run_def find_append)
qed

section \<open>Superseded owners\<close>

text \<open>The ownership \<open>w\<close> is over: its run has moved on to a later fencing token.\<close>

definition superseded :: "run_ownership \<Rightarrow> 'l pg_store \<Rightarrow> bool" where
  "superseded w st \<longleftrightarrow> distinct (map g_run_id (pg_runs st)) \<and>
     (\<exists>r. find_run st (ow_run_id w) = Some r \<and> ow_fencing_token w < g_fencing_token r)"

lemma superseded_evolves: "superseded w st \<Longrightarrow> pg_evolves m st st' \<Longrightarrow> superseded w st'"
  using pg_evolves_distinct find_run_evolves unfolding superseded_def
  by (metis order_less_le_trans row_step_token)

lemma superseded_not_owner: "superseded w st \<Longrightarrow> r \<in> set (pg_runs st) \<Longrightarrow> \<not> owns P w r \<and> \<not> holds_token w r"
  unfolding superseded_def owns_def holds_token_def using find_run_distinct by fastforce

lemma superseded_refused: "superseded w st \<Longrightarrow> validate_ownership P w st = Raise (ownership_lost w)"
  using superseded_not_owner by (fastforce simp: validate_ownership_def guardR_def)

end
