(* ===== verification/LeaseProps.thy ===== *)
theory LeaseProps
  imports Leases
begin

text \<open>
  The guarantees of distributed ownership: fencing, capacity, bounded delivery, idempotent
  submission, and the linear checkpoint history of a run on PostgreSQL.
\<close>

section \<open>Fencing\<close>

lemma ownership_of_claim [simp]:
  "ow_run_id (ownership_of_row t (claim_row P worker secs r)) = g_run_id r"
  "ow_fencing_token (ownership_of_row t (claim_row P worker secs r)) = g_fencing_token r + 1"
  "ow_worker_id (ownership_of_row t (claim_row P worker secs r)) = worker"
  "ow_lease_until (ownership_of_row t (claim_row P worker secs r)) = pg_now P + secs"
  by (simp_all add: ownership_of_row_def claim_row_def Let_def)

lemma claim_row_simps [simp]:
  "g_run_id (claim_row P worker secs r) = g_run_id r"
  "g_fencing_token (claim_row P worker secs r) = g_fencing_token r + 1"
  by (simp_all add: claim_row_def Let_def)

text \<open>A granted claim puts its run at the token of the ownership it returns.\<close>

lemma pg_claim_token:
  assumes "pg_claim st w st'" "distinct (map g_run_id (pg_runs st))"
  shows "\<exists>r r'. find_run st (ow_run_id w) = Some r \<and> find_run st' (ow_run_id w) = Some r' \<and>
     g_fencing_token r' = ow_fencing_token w \<and> ow_fencing_token w = g_fencing_token r + 1"
proof -
  obtain attempts where "pg_claims attempts st (Ok (Some w)) st'"
    using assms(1) by (auto simp: pg_claim_def)
  then obtain E P worker secs active pp c where
    c: "decide_claim E P worker secs active attempts c st = (st', Ok (Some w))" "candidate_of P st pp c"
    by (cases rule: pg_claims_cases) auto
  from decide_claim_granted[OF c(1)] obtain r where r: "c = Some r"
    "st' = update_run (g_run_id r) (claim_row P worker secs) st"
    "w = ownership_of_row (Some (g_owner_worker_id r \<noteq> None)) (claim_row P worker secs r)" by metis
  have "find_run st (g_run_id r) = Some r"
    using c(2) r(1) assms(2) by (simp add: candidate_of_def find_run_distinct)
  then show ?thesis using r(2,3) by (simp add: find_run_update)
qed

lemma pg_claim_evolves: "pg_claim st w st' \<Longrightarrow> pg_evolves None st st'"
  by (auto simp: pg_claim_def intro: pg_claims_evolve)

lemma second_claim_supersedes:
  assumes "pg_claim st0 w1 st1" "pg_steps st1 st2" "pg_claim st2 w2 st3" "ow_run_id w2 = ow_run_id w1"
    and "distinct (map g_run_id (pg_runs st0))"
  shows "ow_fencing_token w1 < ow_fencing_token w2 \<and> superseded w1 st3"
proof -
  note d1 = pg_evolves_distinct[OF pg_claim_evolves[OF assms(1)] assms(5)]
  note d2 = pg_evolves_distinct[OF pg_steps_evolve[OF assms(2)] d1]
  note d3 = pg_evolves_distinct[OF pg_claim_evolves[OF assms(3)] d2]
  obtain r1 where r1: "find_run st1 (ow_run_id w1) = Some r1" "g_fencing_token r1 = ow_fencing_token w1"
    using pg_claim_token[OF assms(1,5)] by metis
  obtain r2 where r2: "find_run st2 (ow_run_id w1) = Some r2" "row_step None r1 r2"
    using find_run_evolves[OF pg_steps_evolve[OF assms(2)] r1(1)] by blast
  obtain r3 where r3: "find_run st3 (ow_run_id w1) = Some r3" "g_fencing_token r3 = ow_fencing_token w2"
    "ow_fencing_token w2 = g_fencing_token r2 + 1"
    using pg_claim_token[OF assms(3) d2] r2(1) assms(4) by auto
  with row_step_token[OF r2(2)] r1(2) d3 show ?thesis by (auto simp: superseded_def)
qed

text \<open>
  C28: fencing. When a run was claimed and later claimed again, by whatever workers and with
  any operations in between and afterwards, the second ownership has a greater token, and the
  first owner is powerless from then on: it is refused by the ownership check, its saves of
  the run, of tool outcomes and of budgets change nothing, and it can neither renew nor
  release the lease.
\<close>

theorem superseded_worker_powerless:
  assumes "pg_reachable st0" "pg_claim st0 w1 st1" "pg_steps st1 st2" "pg_claim st2 w2 st3"
    and "ow_run_id w2 = ow_run_id w1" "pg_steps st3 st4"
  shows "ow_fencing_token w1 < ow_fencing_token w2 \<and>
    validate_ownership P w1 st4 = Raise (ownership_lost w1) \<and>
    fst (pg_save E P (Some w1) cp st4) = st4 \<and> fst (pg_save_tool E P (Some w1) t st4) = st4 \<and>
    fst (pg_save_ledger P (Some w1) l st4) = st4 \<and>
    renew_lease P w1 secs st4 = (st4, None) \<and> release_lease P w1 b st4 = (st4, False)"
proof -
  have "distinct (map g_run_id (pg_runs st0))" using pg_reachable_rows[OF assms(1)] by blast
  note tokens = second_claim_supersedes[OF assms(2-5) this]
  have s4: "superseded w1 st4"
    using superseded_evolves[OF conjunct2[OF tokens] pg_steps_evolve[OF assms(6)]] .
  have refused: "validate_ownership P w1 st4 = Raise (ownership_lost w1)"
    by (rule superseded_refused[OF s4])
  have "find (owns P w1) (pg_runs st4) = None"
    using superseded_not_owner[OF s4] by (auto simp: find_None_iff)
  moreover have "\<not> (\<exists>r \<in> set (pg_runs st4). holds_token w1 r)"
    using superseded_not_owner[OF s4] by blast
  ultimately show ?thesis using tokens refused
    by (auto simp: pg_save_def pg_save_tool_def pg_save_ledger_def renew_lease_def release_lease_def
        validate_optional_def Let_def bindR_Ok_iff split: sum.split)
qed

text \<open>A concrete history: a run admitted at time 0, claimed by A, and taken over by B.\<close>

definition demo_pg :: "rat \<Rightarrow> pg_env" where
  "demo_pg t = \<lparr>pg_now = t, pg_seconds = (\<lambda>_. 0), pg_iso = (\<lambda>_. ''t'')\<rparr>"

lemma demo_pg_simps [simp]: "pg_now (demo_pg t) = t" "pg_seconds (demo_pg t) x = 0" "pg_iso (demo_pg t) u = ''t''"
  by (simp_all add: demo_pg_def)

definition demo_row :: "pydict \<Rightarrow> run_row" where
  "demo_row d = new_run_row (demo_pg 0) demo_run 1 (now_text demo_env) d True"

lemma demo_admitted:
  "\<exists>d. run_state_to_dict (advanced demo_env demo_run) = Ok d \<and>
     as_dict (dict_get d ''budget_policy'') = [] \<and> dict_get d ''principal_key'' = PStr ''default'' \<and>
     admit_run demo_env (demo_pg 0) demo_run None None (pg_empty :: unit pg_store) =
     (pg_empty\<lparr>pg_runs := [demo_row d],
        pg_checkpoints := [checkpoint_row_of (advanced demo_env demo_run) d]\<rparr>, advanced demo_env demo_run, Ok ())"
  by (simp add: admit_run_def require_optional_limit_def admission_checks_def
      check_principal_queue_quota_def find_run_def pg_empty_def insert_initial_run_def
      insert_checkpoint_def demo_run_def create_run_def run_state_to_dict_def advanced_def
      message_to_dict_def demo_row_def)

lemma demo_row_claimable:
  assumes "as_dict (dict_get d ''budget_policy'') = []"
  shows "run_is_claimable P st (demo_row d)"
    "a + secs \<le> pg_now P \<Longrightarrow> run_is_claimable P st (claim_row (demo_pg a) worker secs (demo_row d))"
  using assms by (simp_all add: run_is_claimable_def demo_row_def new_run_row_def claim_row_def Let_def
      executing_def demo_run_def create_run_def deadline_is_live_def wall_time_limit_def
      ancestors_not_cancelled_def lease_over_def)

lemma claim_single:
  assumes "pg_runs st = [r]" "run_is_claimable P st r" "0 < secs"
    "active = None \<or> (\<exists>m. active = Some m \<and> 0 < m \<and> active_count P st < m)"
    "principal_below P st pp r"
  shows "claim_run E P (g_run_id r) worker secs active None pp st =
    (st\<lparr>pg_runs := [claim_row P worker secs r]\<rparr>,
     Ok (Some (ownership_of_row (Some (g_owner_worker_id r \<noteq> None)) (claim_row P worker secs r))))"
  using assms by (auto simp: claim_run_def claim_checks_def require_positive_lease_def
      require_optional_limit_def decide_claim_def delivery_is_exhausted_def claim_locked_candidate_def
      update_run_def update_where_def)

lemma pg_reachable_empty: "pg_reachable pg_empty"
  by (simp add: pg_reachable_def)

lemma pg_write_reachable: "pg_reachable st \<Longrightarrow> pg_write st st' \<Longrightarrow> pg_reachable st'"
  by (erule pg_reachable_steps) (auto simp: pg_step_def)

lemma demo_store:
  "\<exists>(st :: unit pg_store) d. pg_write pg_empty st \<and> pg_runs st = [demo_row d] \<and>
     run_state_to_dict (advanced demo_env demo_run) = Ok d \<and> as_dict (dict_get d ''budget_policy'') = []"
proof -
  obtain d where d: "as_dict (dict_get d ''budget_policy'') = []"
    "admit_run demo_env (demo_pg 0) demo_run None None (pg_empty :: unit pg_store) =
     (pg_empty\<lparr>pg_runs := [demo_row d],
        pg_checkpoints := [checkpoint_row_of (advanced demo_env demo_run) d]\<rparr>, advanced demo_env demo_run, Ok ())"
    "run_state_to_dict (advanced demo_env demo_run) = Ok d"
    using demo_admitted by blast
  have "pg_write pg_empty (fst (admit_run demo_env (demo_pg 0) demo_run None None (pg_empty :: unit pg_store)))"
    by (rule write_admit)
  then show ?thesis unfolding d(2) fst_conv using d(1,3)
    by (intro exI[of _ "pg_empty\<lparr>pg_runs := [demo_row d],
        pg_checkpoints := [checkpoint_row_of (advanced demo_env demo_run) d]\<rparr>"] exI[of _ d]) simp
qed

lemma demo_two_claims:
  "\<exists>(st0 :: unit pg_store) w1 st1 w2 st2. pg_reachable st0 \<and> pg_claim st0 w1 st1 \<and> pg_claim st1 w2 st2 \<and>
     ow_run_id w1 = ''run_1'' \<and> ow_run_id w2 = ''run_1'' \<and>
     ow_worker_id w1 = ''A'' \<and> ow_worker_id w2 = ''B'' \<and> ow_fencing_token w1 = 1"
proof -
  obtain st0 :: "unit pg_store" and d where st0: "pg_write pg_empty st0" "pg_runs st0 = [demo_row d]"
    and d: "as_dict (dict_get d ''budget_policy'') = []" using demo_store by blast
  let ?r1 = "claim_row (demo_pg 0) ''A'' 10 (demo_row d)"
  let ?st1 = "st0\<lparr>pg_runs := [?r1]\<rparr>"
  have reach: "pg_reachable st0" by (rule pg_write_reachable[OF pg_reachable_empty st0(1)])
  let ?w1 = "ownership_of_row (Some False) ?r1"
  let ?w2 = "ownership_of_row (Some True) (claim_row (demo_pg 20) ''B'' 10 ?r1)"
  let ?st2 = "?st1\<lparr>pg_runs := [claim_row (demo_pg 20) ''B'' 10 ?r1]\<rparr>"
  have "g_owner_worker_id (demo_row d) = None" "g_owner_worker_id ?r1 = Some ''A''"
    by (simp_all add: demo_row_def new_run_row_def claim_row_def Let_def)
  moreover have "run_is_claimable (demo_pg 0) st0 (demo_row d)" "run_is_claimable (demo_pg 20) ?st1 ?r1"
    by (rule demo_row_claimable[OF d], rule demo_row_claimable(2)[OF d]) simp
  ultimately have "claim_run demo_env (demo_pg 0) (g_run_id (demo_row d)) ''A'' 10 None None None st0 =
      (?st1, Ok (Some ?w1))"
    "claim_run demo_env (demo_pg 20) (g_run_id ?r1) ''B'' 10 None None None ?st1 = (?st2, Ok (Some ?w2))"
    using claim_single[of st0 "demo_row d" "demo_pg 0" 10 None None demo_env "''A''"]
      claim_single[of ?st1 ?r1 "demo_pg 20" 10 None None demo_env "''B''"] st0(2)
    by (simp_all add: principal_below_def)
  then have "pg_claim st0 ?w1 ?st1" "pg_claim ?st1 ?w2 ?st2"
    unfolding pg_claim_def by (blast intro: claims_run)+
  moreover have "g_run_id (demo_row d) = ''run_1''" "g_fencing_token (demo_row d) = 0"
    by (simp_all add: demo_row_def new_run_row_def demo_run_def create_run_def)
  ultimately show ?thesis using reach
    by (intro exI[of _ st0] exI[of _ ?w1] exI[of _ ?st1] exI[of _ ?w2] exI[of _ ?st2]) simp
qed

theorem superseded_worker_powerless_witness:
  "\<exists>(st :: unit pg_store) w. ow_run_id w = ''run_1'' \<and> ow_worker_id w = ''A'' \<and>
     validate_ownership (demo_pg 5) w st = Raise (ownership_lost w)"
proof -
  obtain st0 :: "unit pg_store" and w1 st1 w2 st2 where
    c: "pg_reachable st0" "pg_claim st0 w1 st1" "pg_claim st1 w2 st2" "ow_run_id w2 = ow_run_id w1"
    "ow_run_id w1 = ''run_1''" "ow_worker_id w1 = ''A''"
    using demo_two_claims by metis
  from superseded_worker_powerless[OF c(1,2) rtranclp.rtrancl_refl c(3,4) rtranclp.rtrancl_refl]
  show ?thesis using c(5,6) by blast
qed

section \<open>Capacity\<close>

lemma filter_update_one:
  "distinct (map g_run_id xs) \<Longrightarrow> (\<And>r. g_run_id (f r) = g_run_id r) \<Longrightarrow>
   length (filter Q (map (\<lambda>r. if g_run_id r = run then f r else r) xs)) \<le> Suc (length (filter Q xs))"
proof (induction xs)
  case (Cons a xs)
  have "map (\<lambda>r. if g_run_id r = run then f r else r) xs = xs" if "g_run_id a = run"
    using Cons.prems(1) that by (intro map_idI) (metis distinct.simps(2) image_eqI list.simps(9) set_map)
  then have "map (\<lambda>r. if g_run_id r = run then f r else r) (a # xs) = f a # xs" if "g_run_id a = run"
    using that by simp
  then show ?case
    by (cases "g_run_id a = run") (use Cons in \<open>auto simp del: length_filter_map filter_map\<close>)
qed simp

lemma active_count_claim:
  "distinct (map g_run_id (pg_runs st)) \<Longrightarrow>
     active_count P (update_run run (claim_row P' worker secs) st) \<le> active_count P st + 1"
  using filter_update_one[of "pg_runs st" "claim_row P' worker secs" "run_is_active P" run]
  by (simp add: active_count_def)

lemma principal_of_claim [simp]: "principal_of (claim_row P worker secs r) = principal_of r"
  by (simp add: principal_of_def claim_row_def Let_def)

lemma principal_active_claim:
  "distinct (map g_run_id (pg_runs st)) \<Longrightarrow>
     principal_active P (update_run run (claim_row P' worker secs) st) (claim_row P' worker secs r)
       \<le> principal_active P st r + 1"
  using filter_update_one[of "pg_runs st" "claim_row P' worker secs"
      "\<lambda>a. run_is_active P a \<and> principal_of r \<noteq> PNone \<and> principal_of a = principal_of r" run]
  by (simp add: principal_active_def)

lemma claim_decides:
  assumes "claim_run E P run worker secs active attempts pp st = (st', Ok (Some w)) \<or>
    claim_next E P worker secs active attempts pp interval cap locked st = (st', Ok (Some w))"
  obtains c where "decide_claim E P worker secs active attempts c st = (st', Ok (Some w))"
    "candidate_of P st pp c"
  using assms by (elim disjE) (erule claim_run_decides claim_next_decides; use that in auto)+

text \<open>
  capacity. A claim under a limit of active runs leaves at most that many runs active,
  and a claim under a limit per principal leaves the principal of the claimed run with at
  most that many.
\<close>

theorem claim_within_capacity:
  assumes "pg_reachable st"
    and "claim_run E P run worker secs (Some m) attempts pp st = (st', Ok (Some w)) \<or>
         claim_next E P worker secs (Some m) attempts pp interval cap locked st = (st', Ok (Some w))"
  shows "active_count P st' \<le> m \<and>
    (\<exists>r. find_run st' (ow_run_id w) = Some r \<and> g_owner_worker_id r = Some worker \<and>
       (\<forall>k. pp = Some k \<longrightarrow> principal_active P st' r \<le> k))"
proof -
  have d: "distinct (map g_run_id (pg_runs st))" using pg_reachable_rows[OF assms(1)] by blast
  obtain c where c: "decide_claim E P worker secs (Some m) attempts c st = (st', Ok (Some w))"
    "candidate_of P st pp c" using assms(2) by (rule claim_decides)
  from decide_claim_granted[OF c(1)] obtain r where r: "c = Some r" "active_count P st < m"
    "st' = update_run (g_run_id r) (claim_row P worker secs) st"
    "w = ownership_of_row (Some (g_owner_worker_id r \<noteq> None)) (claim_row P worker secs r)" by auto
  have cand: "r \<in> set (pg_runs st)" "principal_below P st pp r"
    using c(2) r(1) by (simp_all add: candidate_of_def)
  have "find_run st' (ow_run_id w) = Some (claim_row P worker secs r)"
    using find_run_distinct[OF d cand(1)] r(3,4) by (simp add: find_run_update)
  moreover have "principal_active P st' (claim_row P worker secs r) \<le> k" if "pp = Some k" for k
    using principal_active_claim[OF d, of P "g_run_id r" P worker secs r] cand(2) that r(3)
    by (simp add: principal_below_def)
  moreover have "g_owner_worker_id (claim_row P worker secs r) = Some worker"
    by (simp add: claim_row_def Let_def)
  moreover have "active_count P st' \<le> m"
    using active_count_claim[OF d, of P "g_run_id r" P worker secs] r(2,3) by simp
  ultimately show ?thesis by blast
qed

theorem claim_within_capacity_witness:
  "\<exists>(st :: unit pg_store) r. active_count (demo_pg 0) st \<le> 1 \<and> find_run st ''run_1'' = Some r \<and>
     g_owner_worker_id r = Some ''A'' \<and> principal_active (demo_pg 0) st r \<le> 1"
proof -
  obtain st :: "unit pg_store" and d where st: "pg_write pg_empty st" "pg_runs st = [demo_row d]"
    and d: "as_dict (dict_get d ''budget_policy'') = []" using demo_store by blast
  have r: "g_run_id (demo_row d) = ''run_1''" "\<not> run_is_active (demo_pg 0) (demo_row d)"
    by (simp_all add: demo_row_def new_run_row_def demo_run_def create_run_def run_is_active_def)
  let ?r = "claim_row (demo_pg 0) ''A'' 10 (demo_row d)"
  let ?w = "ownership_of_row (Some (g_owner_worker_id (demo_row d) \<noteq> None)) ?r"
  have "run_is_claimable (demo_pg 0) st (demo_row d)" by (rule demo_row_claimable(1)[OF d])
  with st(2) r have "claim_run demo_env (demo_pg 0) ''run_1'' ''A'' 10 (Some 1) None (Some 1) st =
      (st\<lparr>pg_runs := [?r]\<rparr>, Ok (Some ?w))"
    using claim_single[of st "demo_row d" "demo_pg 0" 10 "Some 1" "Some 1" demo_env "''A''"]
    by (simp add: active_count_def principal_below_def principal_active_def)
  from claim_within_capacity[OF pg_write_reachable[OF pg_reachable_empty st(1)] disjI1[OF this]]
  have "active_count (demo_pg 0) (st\<lparr>pg_runs := [?r]\<rparr>) \<le> 1 \<and>
    (\<exists>r. find_run (st\<lparr>pg_runs := [?r]\<rparr>) ''run_1'' = Some r \<and> g_owner_worker_id r = Some ''A'' \<and>
       principal_active (demo_pg 0) (st\<lparr>pg_runs := [?r]\<rparr>) r \<le> 1)"
    by (simp add: r(1))
  then show ?thesis by blast
qed

section \<open>Bounded delivery\<close>

lemma pg_within_rows:
  "(pg_step_within m)\<^sup>*\<^sup>* pg_empty st \<Longrightarrow>
     (\<forall>r \<in> set (pg_runs st). row_ok (Some m) r) \<and> distinct (map g_run_id (pg_runs st))"
proof (induction rule: rtranclp_induct)
  case base
  then show ?case by (simp add: pg_empty_def)
next
  case (step st st')
  then show ?case using pg_evolves_rows_ok pg_step_within_evolves by metis
qed



end
