(* ===== verification/RunHistory.thy ===== *)
theory RunHistory
  imports LeaseProps StoreModels
begin

text \<open>
  The checkpoint history of a run on PostgreSQL: the rows of \<^verbatim>\<open>checkpoints\<close> are an append-only
  log, numbered without gaps up to the sequence of the row in \<^verbatim>\<open>runs\<close>, under every operation
  of the store. The store so satisfies the same save contract as the local stores.
\<close>

definition checkpoint_rows :: "'l pg_store \<Rightarrow> string \<Rightarrow> checkpoint_row list" where
  "checkpoint_rows st run = filter (\<lambda>row. c_run_id row = run) (pg_checkpoints st)"

definition stored_sequence :: "'l pg_store \<Rightarrow> string \<Rightarrow> int option" where
  "stored_sequence st run = map_option g_current_sequence (find_run st run)"

definition current_sequence :: "'l pg_store \<Rightarrow> string \<Rightarrow> int" where
  "current_sequence st run = (case stored_sequence st run of None \<Rightarrow> 0 | Some n \<Rightarrow> n)"

definition history_ok :: "'l pg_store \<Rightarrow> bool" where
  "history_ok st \<longleftrightarrow> (\<forall>run.
     map c_sequence (checkpoint_rows st run) = map (\<lambda>i. int i + 1) [0..<length (checkpoint_rows st run)] \<and>
     stored_sequence st run = (if checkpoint_rows st run = [] then None
       else Some (int (length (checkpoint_rows st run)))))"

lemma current_sequence_simps:
  "current_sequence st run = (case find_run st run of None \<Rightarrow> 0 | Some r \<Rightarrow> g_current_sequence r)"
  by (simp add: current_sequence_def stored_sequence_def split: option.split)

lemma history_ok_current: "history_ok st \<Longrightarrow> current_sequence st run = int (length (checkpoint_rows st run))"
  by (simp add: history_ok_def current_sequence_def)

text \<open>What one operation does to the log: nothing, or one more row with the next sequence.\<close>

definition history_step :: "'l pg_store \<Rightarrow> 'l pg_store \<Rightarrow> bool" where
  "history_step st st' \<longleftrightarrow>
     (pg_checkpoints st' = pg_checkpoints st \<and> stored_sequence st' = stored_sequence st) \<or>
     (\<exists>row. pg_checkpoints st' = pg_checkpoints st @ [row] \<and>
        c_sequence row = current_sequence st (c_run_id row) + 1 \<and>
        stored_sequence st' = (stored_sequence st)(c_run_id row \<mapsto> c_sequence row))"

lemma history_step_ok: "history_ok st \<Longrightarrow> history_step st st' \<Longrightarrow> history_ok st'"
proof -
  assume ok: "history_ok st" and "history_step st st'"
  then consider "pg_checkpoints st' = pg_checkpoints st" "stored_sequence st' = stored_sequence st"
    | row where "pg_checkpoints st' = pg_checkpoints st @ [row]"
      "c_sequence row = current_sequence st (c_run_id row) + 1"
      "stored_sequence st' = (stored_sequence st)(c_run_id row \<mapsto> c_sequence row)"
    by (auto simp: history_step_def)
  then show "history_ok st'"
  proof cases
    case 1
    with ok show ?thesis by (simp add: history_ok_def checkpoint_rows_def)
  next
    case (2 row)
    have "checkpoint_rows st' run =
        (if c_run_id row = run then checkpoint_rows st run @ [row] else checkpoint_rows st run)" for run
      by (simp add: checkpoint_rows_def 2(1))
    with ok 2(2,3) history_ok_current[OF ok, of "c_run_id row"] show ?thesis
      by (simp add: history_ok_def)
  qed
qed

lemma history_step_prefix: "history_step st st' \<Longrightarrow> prefix (checkpoint_rows st run) (checkpoint_rows st' run)"
  by (auto simp: history_step_def checkpoint_rows_def)

lemma history_step_refl [simp]: "history_step st st"
  by (simp add: history_step_def)

lemma history_step_same:
  "pg_checkpoints st' = pg_checkpoints st \<Longrightarrow> pg_runs st' = pg_runs st \<Longrightarrow> history_step st st'"
  by (simp add: history_step_def stored_sequence_def find_run_def fun_eq_iff)

text \<open>Updates that keep identifiers and sequences do not touch the log.\<close>

lemma stored_sequence_where:
  assumes "\<And>r. g_run_id (f r) = g_run_id r" "\<And>r. g_current_sequence (f r) = g_current_sequence r"
  shows "stored_sequence (update_where C f st) = stored_sequence st"
proof -
  have "find (\<lambda>r. g_run_id r = k) (map (\<lambda>r. if C r then f r else r) rs) =
      map_option (\<lambda>r. if C r then f r else r) (find (\<lambda>r. g_run_id r = k) rs)" for k rs
    by (induction rs) (auto simp: assms(1))
  then show ?thesis
    by (auto simp: stored_sequence_def find_run_def fun_eq_iff option.map_comp assms(2) comp_def
        intro!: option.map_cong)
qed

lemma stored_sequence_update:
  assumes "\<And>r. g_run_id (f r) = g_run_id r" "\<And>r. g_current_sequence (f r) = g_current_sequence r"
  shows "stored_sequence (update_run run f st) = stored_sequence st"
  unfolding update_run_def by (rule stored_sequence_where) (use assms in auto)

lemma stored_sequence_set:
  assumes "find_run st run = Some r" "\<And>r. g_run_id (f r) = g_run_id r" "g_current_sequence (f r) = n"
  shows "stored_sequence (update_run run f st) = (stored_sequence st)(run \<mapsto> n)"
  using assms by (auto simp: stored_sequence_def find_run_update fun_eq_iff)

lemma stored_sequence_append:
  assumes "find_run st (g_run_id r) = None"
  shows "stored_sequence (st\<lparr>pg_runs := pg_runs st @ [r]\<rparr>) =
    (stored_sequence st)(g_run_id r \<mapsto> g_current_sequence r)"
  using assms by (auto simp: stored_sequence_def find_run_def find_append fun_eq_iff split: option.splits)

lemma stored_sequence_insert_checkpoint [simp]:
  "stored_sequence (insert_checkpoint row st) = stored_sequence st"
  by (simp add: stored_sequence_def find_run_def fun_eq_iff)

named_theorems keeps_sequence \<open>row updates that keep the identifier and the sequence\<close>

lemma row_updates_keep_sequence [keeps_sequence]:
  "g_run_id (finish_row own r) = g_run_id r" "g_current_sequence (finish_row own r) = g_current_sequence r"
  "g_run_id (wake_row P r) = g_run_id r" "g_current_sequence (wake_row P r) = g_current_sequence r"
  "g_run_id (release_row P b r) = g_run_id r" "g_current_sequence (release_row P b r) = g_current_sequence r"
  "g_run_id (claim_row P worker secs r) = g_run_id r"
  "g_current_sequence (claim_row P worker secs r) = g_current_sequence r"
  by (auto simp: finish_row_def wake_row_def release_row_def claim_row_def Let_def split: option.splits)

lemma wake_parent_log [simp]:
  "stored_sequence (wake_parent P parent st) = stored_sequence st"
  "pg_checkpoints (wake_parent P parent st) = pg_checkpoints st"
  by (auto simp: wake_parent_def keeps_sequence intro!: stored_sequence_update split: option.splits)

lemma finish_run_log [simp]:
  "stored_sequence (finish_run P own cp st) = stored_sequence st"
  "pg_checkpoints (finish_run P own cp st) = pg_checkpoints st"
  by (auto simp: finish_run_def keeps_sequence intro!: stored_sequence_update)

lemma wake_exhausted_log [simp]:
  "stored_sequence (wake_exhausted_parent parent st) = stored_sequence st"
  "pg_checkpoints (wake_exhausted_parent parent st) = pg_checkpoints st"
  by (auto simp: wake_exhausted_parent_def intro!: stored_sequence_update split: option.splits)

section \<open>Every operation steps the log\<close>

named_theorems log_ops \<open>every operation of the store steps the log\<close>

lemma write_run_log:
  assumes "write_run P cp now d st = Ok st1"
  shows "r_sequence cp = current_sequence st (r_run_id cp)"
    "stored_sequence st1 = (stored_sequence st)(r_run_id cp \<mapsto> r_sequence cp + 1)"
    "pg_checkpoints st1 = pg_checkpoints st"
proof -
  have "r_sequence cp = current_sequence st (r_run_id cp) \<and>
    stored_sequence st1 = (stored_sequence st)(r_run_id cp \<mapsto> r_sequence cp + 1) \<and>
    pg_checkpoints st1 = pg_checkpoints st"
  proof (cases "find_run st (r_run_id cp)")
    case None
    let ?r = "new_run_row P cp 1 now d False"
    have "g_run_id ?r = r_run_id cp" "g_current_sequence ?r = 1" by (simp_all add: new_run_row_def)
    with None assms stored_sequence_append[of st ?r] show ?thesis
      by (auto simp: write_run_def Let_def current_sequence_simps[of st] split: if_splits)
  next
    case (Some r)
    then have "stored_sequence (update_run (r_run_id cp) (saved_run_row cp (r_sequence cp + 1) now d) st) =
        (stored_sequence st)(r_run_id cp \<mapsto> r_sequence cp + 1)"
      by (rule stored_sequence_set) (simp_all add: saved_run_row_def)
    with Some assms show ?thesis
      by (auto simp: write_run_def Let_def current_sequence_simps[of st] split: if_splits)
  qed
  then show "r_sequence cp = current_sequence st (r_run_id cp)"
    "stored_sequence st1 = (stored_sequence st)(r_run_id cp \<mapsto> r_sequence cp + 1)"
    "pg_checkpoints st1 = pg_checkpoints st" by auto
qed

lemma pg_save_log [log_ops]: "history_step st (fst (pg_save E P own cp st))"
proof -
  have "history_step st (finish_run P own cp (insert_checkpoint (checkpoint_row_of (advanced E cp) d) st1))"
    if "write_run P cp (now_text E) d st = Ok st1" for d st1
    unfolding history_step_def
    by (rule disjI2, rule exI[of _ "checkpoint_row_of (advanced E cp) d"]) (use write_run_log[OF that] in simp)
  then show ?thesis by (auto simp: pg_save_def Let_def bindR_Ok_iff split: sum.splits)
qed

lemma pg_save_tool_log [log_ops]: "history_step st (fst (pg_save_tool E P own t st))"
  by (auto simp: pg_save_tool_def Let_def split: sum.splits option.splits intro!: history_step_same)

lemma pg_save_ledger_log [log_ops]: "history_step st (fst (pg_save_ledger P own l st))"
  by (auto simp: pg_save_ledger_def Let_def split: sum.splits intro!: history_step_same)

lemma insert_initial_run_log:
  assumes "find_run st (r_run_id cp) = None" "insert_initial_run E P cp st = Ok st1"
  shows "history_step st (st1\<lparr>pg_submissions := subs\<rparr>) \<and> history_step st st1"
proof -
  obtain d where st1: "st1 = insert_checkpoint (checkpoint_row_of (cp\<lparr>r_sequence := 1, r_updated_at := now_text E\<rparr>) d)
      (st\<lparr>pg_runs := pg_runs st @ [new_run_row P cp 1 (now_text E) d True]\<rparr>)"
    using assms(2) by (auto simp: insert_initial_run_def bindR_Ok_iff)
  have "stored_sequence st1 = (stored_sequence st)(r_run_id cp \<mapsto> 1)" "current_sequence st (r_run_id cp) = 0"
    using assms(1) stored_sequence_append[of st "new_run_row P cp 1 (now_text E) d True"]
    by (simp_all add: st1 current_sequence_simps[of st]) (simp add: new_run_row_def)
  moreover from this have "stored_sequence (st1\<lparr>pg_submissions := subs\<rparr>) = stored_sequence st1"
    by (simp add: stored_sequence_def find_run_def fun_eq_iff)
  ultimately show ?thesis unfolding history_step_def
    by (auto simp: st1 intro!: exI[of _ "checkpoint_row_of (cp\<lparr>r_sequence := 1, r_updated_at := now_text E\<rparr>) d"])
qed

lemma admit_run_log [log_ops]: "history_step st (fst (admit_run E P cp q pq st))"
  by (auto simp: admit_run_def bindR_Ok_iff split: sum.splits
      dest: insert_initial_run_log[OF admission_checks_fresh])

lemma admit_submission_log [log_ops]: "history_step st (fst (admit_submission E P cp key fp q pq st))"
proof -
  let ?admit = "bindR (admission_checks P cp q pq st) (\<lambda>_. insert_initial_run E P cp st)"
  have "history_step st (st1\<lparr>pg_submissions := subs\<rparr>)" if "?admit = Ok st1" for st1 subs
    using that insert_initial_run_log admission_checks_fresh by (fastforce simp: bindR_Ok_iff)
  then show ?thesis by (auto simp: admit_submission_def split: sum.split option.split)
qed

lemma renew_lease_log [log_ops]: "history_step st (fst (renew_lease P w secs st))"
  by (auto simp: renew_lease_def history_step_def Let_def stored_sequence_where split: option.splits)

lemma release_lease_log [log_ops]: "history_step st (fst (release_lease P w b st))"
  by (simp add: release_lease_def history_step_def stored_sequence_where keeps_sequence)

lemma mark_runnable_log [log_ops]: "history_step st (fst (mark_runnable P run st))"
  by (auto simp: mark_runnable_def history_step_def stored_sequence_update split: option.splits)

lemma mark_delivery_exhausted_log:
  assumes "mark_delivery_exhausted E P r n st = Ok st1"
  shows "history_step st st1"
proof -
  obtain s0 d q where s: "run_state_to_dict (exhausted_state P r n s0) = Ok d"
    and q: "find_run st (r_run_id s0) = Some q" "g_current_sequence q = g_current_sequence r"
    and st1: "st1 = wake_exhausted_parent (g_parent_run_id r)
      (insert_checkpoint (checkpoint_row_of (exhausted_state P r n s0) d)
        (update_run (r_run_id s0) (exhausted_row P (exhausted_state P r n s0) d) st))"
    using assms by (auto simp: mark_delivery_exhausted_def bindR_Ok_iff Let_def exhausted_state_def
        split: option.splits if_splits)
  have "stored_sequence (update_run (r_run_id s0) (exhausted_row P (exhausted_state P r n s0) d) st) =
      (stored_sequence st)(r_run_id s0 \<mapsto> g_current_sequence r + 1)"
    by (rule stored_sequence_set[OF q(1)]) (simp_all add: exhausted_row_def exhausted_state_def)
  moreover have "current_sequence st (r_run_id s0) = g_current_sequence r"
    using q by (simp add: current_sequence_simps)
  ultimately show ?thesis unfolding history_step_def st1
    by (intro disjI2 exI[of _ "checkpoint_row_of (exhausted_state P r n s0) d"])
      (simp add: exhausted_state_def)
qed

lemma decide_claim_log:
  "decide_claim E P worker secs active attempts c st = (st', res) \<Longrightarrow> history_step st st'"
  by (auto simp: decide_claim_def claim_locked_candidate_def split: if_splits sum.splits option.splits
      intro: mark_delivery_exhausted_log)
    (auto simp: history_step_def stored_sequence_update keeps_sequence)

lemma pg_claims_log: "pg_claims attempts st res st' \<Longrightarrow> history_step st st'"
  by (erule pg_claims_cases) (auto intro: decide_claim_log)

lemma requeue_log [log_ops]: "history_step st (fst (requeue_delivery_exhausted E P run st))"
proof (cases "find_run st run")
  case None
  then show ?thesis by (simp add: requeue_delivery_exhausted_def)
next
  case (Some r)
  have set: "stored_sequence (update_run run (requeued_row P d) st) =
      (stored_sequence st)(run \<mapsto> g_current_sequence r + 1)" for d
    by (rule stored_sequence_set[OF Some]) (simp_all add: requeued_row_def)
  have "history_step st (insert_checkpoint ((checkpoint_row_of s d)\<lparr>c_run_id := run\<rparr>)
      (update_run run (requeued_row P d) st))" if "r_sequence s = g_current_sequence r + 1" for s d
    unfolding history_step_def
    by (rule disjI2, rule exI[of _ "(checkpoint_row_of s d)\<lparr>c_run_id := run\<rparr>"])
      (use that set Some in \<open>simp add: current_sequence_simps[of st run]\<close>)
  with Some show ?thesis
    by (auto simp: requeue_delivery_exhausted_def Let_def bindR_Ok_iff split: sum.splits)
qed

lemma tokens_log [log_ops]: "history_step st (fst (consume_submission_tokens P bs st))"
  by (auto simp: consume_submission_tokens_def Let_def case_prod_unfold intro!: history_step_same)

lemma pg_step_log: "pg_step st st' \<Longrightarrow> history_step st st'"
  unfolding pg_step_def by (elim disjE exE, erule pg_write.cases) (auto intro: log_ops pg_claims_log)

lemma history_ok_empty: "history_ok pg_empty"
  by (simp add: history_ok_def pg_empty_def checkpoint_rows_def stored_sequence_def find_run_def)

lemma pg_reachable_history: "pg_reachable st \<Longrightarrow> history_ok st"
  by (induction rule: pg_reachable_induct) (auto intro: history_ok_empty history_step_ok pg_step_log)

lemma pg_steps_prefix: "pg_steps st st' \<Longrightarrow> prefix (checkpoint_rows st run) (checkpoint_rows st' run)"
  by (induction rule: rtranclp_induct) (auto intro: prefix_order.trans history_step_prefix pg_step_log)

section \<open>The save contract\<close>

abbreviation pg_history :: "string \<Rightarrow> 'l pg_store \<Rightarrow> pydict list" where
  "pg_history run st \<equiv> map c_state_json (checkpoint_rows st run)"

lemma checkpoint_rows_insert [simp]:
  "checkpoint_rows (insert_checkpoint row st) run =
     (if c_run_id row = run then checkpoint_rows st run @ [row] else checkpoint_rows st run)"
  by (simp add: checkpoint_rows_def)

lemma checkpoint_rows_finish [simp]: "checkpoint_rows (finish_run P own cp st) run = checkpoint_rows st run"
  by (simp add: checkpoint_rows_def)

lemma pg_save_refused:
  assumes "r_sequence cp \<noteq> current_sequence st (r_run_id cp) \<or> run_state_to_dict (advanced E cp) = Raise e"
  shows "\<exists>e'. pg_save E P own cp st = (st, cp, Raise e')"
proof -
  have "\<not> (\<exists>st1. write_run P cp (now_text E) d st = Ok st1)" if "run_state_to_dict (advanced E cp) = Ok d" for d
    using assms that by (auto dest: write_run_log(1))
  then show ?thesis
    by (auto simp: pg_save_def Let_def bindR_Ok_iff split: sum.split)
qed

lemma write_run_succeeds:
  assumes "history_ok st" "r_sequence cp = current_sequence st (r_run_id cp)"
  shows "\<exists>st1. write_run P cp now d st = Ok st1"
proof (cases "find_run st (r_run_id cp)")
  case None
  with assms(2) show ?thesis by (simp add: write_run_def current_sequence_simps)
next
  case (Some r)
  then have "stored_sequence st (r_run_id cp) = Some (g_current_sequence r)" by (simp add: stored_sequence_def)
  with assms(1) have "1 \<le> g_current_sequence r"
    unfolding history_ok_def by (metis length_0_conv linorder_not_less not_less_eq of_nat_less_1_iff
        option.distinct(1) option.inject zero_less_iff_neq_zero less_one linorder_le_less_linear)
  with Some assms(2) show ?thesis by (auto simp: write_run_def current_sequence_simps)
qed

interpretation pg_log: checkpoint_log "\<lambda>E. pg_save E P None" pg_history history_ok for P
proof (unfold_locales, goal_cases)
  case (1 s cp E d)
  then obtain st1 where st1: "write_run P cp (now_text E) d s = Ok st1"
    using write_run_succeeds[of s cp P "now_text E" d] by (auto simp: history_ok_current)
  let ?s' = "finish_run P None cp (insert_checkpoint (checkpoint_row_of (advanced E cp) d) st1)"
  have save: "pg_save E P None cp s = (?s', advanced E cp, Ok ())"
    using 1(3) st1 by (simp add: pg_save_def Let_def validate_optional_def)
  have "history_ok ?s'"
    using history_step_ok[OF 1(1) pg_save_log[of s E P None cp]] by (simp add: save)
  moreover have "checkpoint_rows st1 run = checkpoint_rows s run" for run
    using write_run_log(3)[OF st1] by (simp add: checkpoint_rows_def)
  ultimately show ?case using save by simp
next
  case (2 s cp E e)
  then obtain e' where "pg_save E P None cp s = (s, cp, Raise e')"
    using pg_save_refused[of cp s E e P None] by (auto simp: history_ok_current)
  with 2(1) show ?case by blast
qed

section \<open>Guarantees\<close>

lemma map_upt_from_1: "map (\<lambda>i. int i + 1) [0..<n] = map int [1..<Suc n]"
  by (induction n) auto

text \<open>
  C29: on PostgreSQL the checkpoints of a run form an append-only history. In every reachable
  state they are numbered 1, 2, ... up to the sequence stored with the run, and no operation
  of any worker ever changes or removes one of them.
\<close>

theorem checkpoint_history_append_only:
  assumes "pg_reachable st" "pg_steps st st'"
  shows "map c_sequence (checkpoint_rows st run) = map int [1..<Suc (nat (current_sequence st run))] \<and>
    prefix (checkpoint_rows st run) (checkpoint_rows st' run)"
  using pg_reachable_history[OF assms(1)] history_ok_current[OF pg_reachable_history[OF assms(1)], of run]
    pg_steps_prefix[OF assms(2), of run]
  by (simp add: history_ok_def map_upt_from_1 del: upt_Suc)

theorem checkpoint_history_append_only_witness:
  "\<exists>st :: unit pg_store. map c_sequence (checkpoint_rows st ''run_1'') = map int [1..<Suc 1]"
proof -
  obtain st :: "unit pg_store" and d where st: "pg_write pg_empty st" "pg_runs st = [demo_row d]"
    using demo_store by blast
  have "current_sequence st ''run_1'' = 1"
    by (simp add: current_sequence_simps find_run_def st(2) demo_row_def new_run_row_def demo_run_def
        create_run_def)
  with checkpoint_history_append_only[OF pg_write_reachable[OF pg_reachable_empty st(1)]
      rtranclp.rtrancl_refl, of "''run_1''"]
  show ?thesis by (intro exI[of _ st]) simp
qed

lemma pg_steps_current_mono:
  assumes "pg_reachable st" "pg_steps st st'"
  shows "current_sequence st run \<le> current_sequence st' run"
  using prefix_length_le[OF pg_steps_prefix[OF assms(2), of run]]
    history_ok_current[OF pg_reachable_history[OF assms(1)], of run]
    history_ok_current[OF pg_reachable_history[OF pg_reachable_steps[OF assms]], of run] by simp

text \<open>
  optimistic concurrency on PostgreSQL. Once a save of a run from some sequence has
  succeeded, with or without ownership, every other save of the run from that sequence is
  refused for ever, after any operations of any workers, and changes nothing.
\<close>

theorem stale_pg_save_refused:
  assumes "pg_reachable st" "pg_save E1 P1 own1 cp1 st = (st1, cp1', Ok ())" "pg_steps st1 st2"
    and "r_run_id cp2 = r_run_id cp1" "r_sequence cp2 = r_sequence cp1"
  shows "\<exists>e. pg_save E2 P2 own2 cp2 st2 = (st2, cp2, Raise e)"
proof -
  obtain d s1 where s1: "write_run P1 cp1 (now_text E1) d st = Ok s1"
    "st1 = finish_run P1 own1 cp1 (insert_checkpoint (checkpoint_row_of (advanced E1 cp1) d) s1)"
    using assms(2) by (auto simp: pg_save_def Let_def bindR_Ok_iff split: sum.splits)
  have "stored_sequence st1 = (stored_sequence st)(r_run_id cp1 \<mapsto> r_sequence cp1 + 1)"
    using write_run_log(2)[OF s1(1)] s1(2) by simp
  then have "current_sequence st1 (r_run_id cp1) = r_sequence cp1 + 1" by (simp add: current_sequence_def)
  moreover have "pg_write st st1" using write_save[of st E1 P1 own1 cp1] assms(2) by simp
  then have "pg_reachable st1" using assms(1) pg_reachable_steps pg_step_def pg_step_steps by metis
  ultimately have "r_sequence cp2 < current_sequence st2 (r_run_id cp2)"
    using pg_steps_current_mono[OF _ assms(3), of "r_run_id cp1"] assms(4,5) by simp
  then have "r_sequence cp2 \<noteq> current_sequence st2 (r_run_id cp2)" by simp
  then show ?thesis using pg_save_refused by blast
qed

theorem stale_pg_save_refused_witness:
  "\<exists>(st :: unit pg_store) e. pg_runs st \<noteq> [] \<and>
     pg_save demo_env (demo_pg 1) None demo_run st = (st, demo_run, Raise e)"
proof -
  obtain d where d: "run_state_to_dict (advanced demo_env demo_run) = Ok d" using demo_admitted by blast
  have seq: "r_sequence demo_run = current_sequence (pg_empty :: unit pg_store) (r_run_id demo_run)"
    by (simp add: current_sequence_simps find_run_def pg_empty_def demo_run_def create_run_def)
  obtain s1 :: "unit pg_store" where s1: "write_run (demo_pg 0) demo_run (now_text demo_env) d pg_empty = Ok s1"
    using write_run_succeeds[OF history_ok_empty seq] by blast
  then have runs: "pg_runs s1 \<noteq> []" by (auto simp: write_run_def pg_empty_def find_run_def Let_def split: if_splits)
  have running: "\<not> run_finished demo_run" by (simp add: run_finished_def demo_run_def create_run_def)
  obtain st1 where st1: "pg_save demo_env (demo_pg 0) None demo_run (pg_empty :: unit pg_store) =
      (st1, advanced demo_env demo_run, Ok ())" "st1 = insert_checkpoint (checkpoint_row_of (advanced demo_env demo_run) d) s1"
    using running by (simp add: pg_save_def Let_def validate_optional_def d s1 finish_run_def)
  from stale_pg_save_refused[OF pg_reachable_empty st1(1) rtranclp.rtrancl_refl refl refl, of demo_env "demo_pg 1" None]
  obtain e where e: "pg_save demo_env (demo_pg 1) None demo_run st1 = (st1, demo_run, Raise e)" by blast
  have "pg_runs st1 \<noteq> []" using runs st1(2) by simp
  with e show ?thesis by (intro exI[of _ st1] exI[of _ e] conjI)
qed

end
