(* ===== verification/DeliveryProps.thy ===== *)
theory DeliveryProps
  imports RunHistory
begin

text \<open>
  How runs enter, leave and re-enter distributed execution: idempotent submission, the
  quarantine of runs that keep losing their workers and their manual requeue, and how a
  finished child wakes the parent that waits for it.
\<close>

section \<open>Submission\<close>

lemma find_prefix: "find Q xs = Some x \<Longrightarrow> prefix xs ys \<Longrightarrow> find Q ys = Some x"
  by (auto simp: prefix_def find_append)

lemma admit_submission_created:
  assumes "admit_submission E P cp key fp q pq st = (st1, Ok (s, True))"
  shows "\<exists>r. find_submission st1 (r_thread_id cp) key =
      Some \<lparr>sub_thread_id = r_thread_id cp, sub_idempotency_key = key, sub_fingerprint = fp,
            sub_run_id = r_run_id cp\<rparr> \<and> find_run st1 (r_run_id cp) = Some r"
proof -
  have none: "find_submission st (r_thread_id cp) key = None"
    using assms by (auto simp: admit_submission_def bindR_Ok_iff split: sum.splits option.splits)
  obtain s1 where s1: "admission_checks P cp q pq st = Ok ()" "insert_initial_run E P cp st = Ok s1"
    "st1 = s1\<lparr>pg_submissions := pg_submissions s1 @ [\<lparr>sub_thread_id = r_thread_id cp,
       sub_idempotency_key = key, sub_fingerprint = fp, sub_run_id = r_run_id cp\<rparr>]\<rparr>"
    using assms none by (auto simp: admit_submission_def bindR_Ok_iff split: sum.splits)
  then have "pg_submissions s1 = pg_submissions st" "\<exists>r. find_run s1 (r_run_id cp) = Some r"
    using admission_checks_fresh[OF s1(1)]
    by (auto simp: insert_initial_run_def bindR_Ok_iff find_run_def find_append insert_checkpoint_def)
  with none s1(3) show ?thesis
    by (auto simp: find_submission_def find_append find_run_def)
qed

text \<open>
  idempotent submission. When a submission with an idempotency key created a run, any
  later submission to the thread with that key, whatever happened in between, creates
  nothing: with the same fingerprint it answers with that first run as it is now, with
  another fingerprint it is refused as a conflict.
\<close>

theorem submission_idempotent:
  assumes "admit_submission E1 P1 cp1 key fp q1 pq1 st = (st1, Ok (s1, True))" "pg_steps st1 st2"
    and "r_thread_id cp2 = r_thread_id cp1" "r_sequence cp2 = 0" "r_parent_run_id cp2 = None"
    and "case q2 of None \<Rightarrow> True | Some n \<Rightarrow> 0 < n"
  shows "\<exists>r. find_run st2 (r_run_id cp1) = Some r \<and>
    admit_submission E2 P2 cp2 key fp2 q2 pq2 st2 =
      (st2, if fp2 = fp then bindR (checkpoint_with_delivery E2 P2 r) (\<lambda>s. Ok (s, False))
            else Raise idempotency_conflict)"
proof -
  let ?x = "\<lparr>sub_thread_id = r_thread_id cp1, sub_idempotency_key = key, sub_fingerprint = fp,
      sub_run_id = r_run_id cp1\<rparr>"
  obtain r1 where r1: "find_submission st1 (r_thread_id cp1) key = Some ?x"
    "find_run st1 (r_run_id cp1) = Some r1"
    using admit_submission_created[OF assms(1)] by blast
  note ev = pg_steps_evolve[OF assms(2)]
  obtain r2 where r2: "find_run st2 (r_run_id cp1) = Some r2"
    using find_run_evolves[OF ev r1(2)] by blast
  have "prefix (pg_submissions st1) (pg_submissions st2)" using ev by (simp add: pg_evolves_def)
  then have "find_submission st2 (r_thread_id cp2) key = Some ?x"
    using r1(1) find_prefix assms(3) by (metis find_submission_def)
  moreover have "require_optional_limit q2 ''max_queued_runs'' = Ok ()"
    using assms(6) by (simp add: require_optional_limit_def)
  ultimately show ?thesis using r2 assms(4,5)
    by (simp add: admit_submission_def replay_submission_def)
qed

section \<open>Quarantine and requeue\<close>

lemma exhausted_state_wf:
  assumes "run_state_wf s" "run_state_serializable s" "pg_iso P (pg_now P) \<noteq> []" "0 \<le> g_delivery_attempt r"
  shows "run_state_wf (exhausted_state P r m s)" "run_state_serializable (exhausted_state P r m s)"
  using assms by (auto simp: exhausted_state_def run_state_wf_def run_state_serializable_def run_error_wf_def
      RUN_DELIVERY_EXHAUSTED_def opt_val_def split: option.split)

lemma wake_exhausted_other:
  "find_run st run = Some r \<Longrightarrow> g_status r \<noteq> RunWAITING_CHILD \<Longrightarrow>
     find_run (wake_exhausted_parent parent st) run = Some r"
  by (auto simp: wake_exhausted_parent_def find_run_update split: option.splits)

lemma find_run_insert_checkpoint [simp]: "find_run (insert_checkpoint row st) run = find_run st run"
  by (simp add: find_run_def)

lemma exhaustion_quarantines:
  assumes "find_run st run = Some r" "run_state_from_dict E (g_state_json r) = Ok s0" "r_run_id s0 = run"
    and "run_state_wf s0" "run_state_serializable s0" "pg_iso P (pg_now P) \<noteq> []" "0 \<le> g_delivery_attempt r"
  shows "\<exists>st' d. mark_delivery_exhausted E P r m st = Ok st' \<and>
    (\<forall>F. run_state_from_dict F d = Ok (exhausted_state P r m s0)) \<and>
    find_run st' run = Some (exhausted_row P (exhausted_state P r m s0) d r)"
proof -
  let ?s = "exhausted_state P r m s0"
  obtain d where d: "run_state_to_dict ?s = Ok d" "\<And>F. run_state_from_dict F d = Ok ?s"
    using run_state_reads_back[OF exhausted_state_wf[OF assms(4-7)]] by (metis sum.inject(2))
  have id: "r_run_id ?s = run" using assms(3) by (simp add: exhausted_state_def)
  let ?st' = "wake_exhausted_parent (g_parent_run_id r)
      (insert_checkpoint (checkpoint_row_of ?s d) (update_run run (exhausted_row P ?s d) st))"
  have "mark_delivery_exhausted E P r m st = Ok ?st'"
    using assms(1,2) d(1) id by (simp add: mark_delivery_exhausted_def Let_def)
  moreover have "find_run ?st' run = Some (exhausted_row P ?s d r)"
    by (rule wake_exhausted_other) (use assms(1) in \<open>simp_all add: find_run_update exhausted_row_def\<close>)
  ultimately show ?thesis using d(2) by blast
qed

text \<open>
  quarantine. A claim that meets a run whose last worker died after the allowed number of
  deliveries does not deliver it again: the run becomes FAILED and unowned, is no longer
  runnable, the dead worker's token is outdated, and the stored run is in the failure queue
  and names the worker that was lost. Requeueing it by hand makes it RUNNING and runnable
  again, with no deliveries counted and no error.
\<close>

theorem exhausted_run_quarantined:
  assumes "pg_reachable st" "find_run st run = Some r"
    and "run_is_claimable P st r" "principal_below P st pp r"
    and "g_owner_worker_id r = Some dead" "m \<le> g_delivery_attempt r" "0 < m" "0 < secs" "case active of None \<Rightarrow> True | Some k \<Rightarrow> 0 < k"
    and "run_state_from_dict E (g_state_json r) = Ok s0" "r_run_id s0 = run"
    and "run_state_wf s0" "run_state_serializable s0" "pg_iso P (pg_now P) \<noteq> []"
  shows "\<exists>st' r' s'. claim_run E P run worker secs active (Some m) pp st = (st', Ok None) \<and>
    find_run st' run = Some r' \<and> g_status r' = RunFAILED \<and> \<not> g_runnable r' \<and>
    g_owner_worker_id r' = None \<and> g_fencing_token r' = g_fencing_token r + 1 \<and>
    pg_load E P run st' = Ok (Some s') \<and> in_failure_queue s' \<and> r_last_delivery_worker_id s' = Some dead \<and>
    (\<exists>st'' r'' s''. requeue_delivery_exhausted E P run st' = (st'', Ok s'') \<and>
       r_status s'' = RunRUNNING \<and> r_error s'' = None \<and> find_run st'' run = Some r'' \<and>
       g_status r'' = RunRUNNING \<and> g_runnable r'' \<and> g_delivery_attempt r'' = 0 \<and>
       g_fencing_token r'' = g_fencing_token r + 2)"
proof -
  have rows: "r \<in> set (pg_runs st)" "g_run_id r = run" "0 \<le> g_delivery_attempt r"
    using find_run_in[OF assms(2)] pg_reachable_rows[OF assms(1)] by (auto simp: row_ok_def)
  have d: "distinct (map g_run_id (pg_runs st))" using pg_reachable_rows[OF assms(1)] by blast
  let ?s = "exhausted_state P r m s0"
  obtain st' j where st': "mark_delivery_exhausted E P r m st = Ok st'"
    "\<And>F. run_state_from_dict F j = Ok ?s" "find_run st' run = Some (exhausted_row P ?s j r)"
    using exhaustion_quarantines[OF assms(2,10-14) rows(3), of m] by blast
  have "find (\<lambda>r. g_run_id r = run \<and> run_is_claimable P st r \<and> principal_below P st pp r) (pg_runs st) = Some r"
    using assms(2-4) by (auto simp: find_run_def find_Some_iff)
  then have claim: "claim_run E P run worker secs active (Some m) pp st = (st', Ok None)"
    using assms(5-9) st'(1)
    by (simp add: claim_run_def claim_checks_def require_positive_lease_def require_optional_limit_def
        decide_claim_def delivery_is_exhausted_def)
  let ?r' = "exhausted_row P ?s j r"
  have load: "checkpoint_with_delivery E P ?r' = Ok (?s\<lparr>r_failure_queued_at := Some (pg_iso P (pg_now P)),
      r_last_delivery_failed_at := Some (pg_iso P (pg_now P))\<rparr>)" (is "_ = Ok ?s'")
    using st'(2) by (simp add: checkpoint_with_delivery_def exhausted_row_def exhausted_state_def)
  have s': "in_failure_queue ?s'" "r_last_delivery_worker_id ?s' = Some dead"
    using assms(5) by (simp_all add: in_failure_queue_def exhausted_state_def)
  let ?q = "(requeued_state ?s')\<lparr>r_sequence := g_current_sequence ?r' + 1, r_updated_at := pg_iso P (pg_now P)\<rparr>"
  have "run_state_wf ?q" "run_state_serializable ?q"
    using exhausted_state_wf[OF assms(12-14) rows(3), of m] assms(14)
    by (simp_all add: requeued_state_def run_state_wf_def run_state_serializable_def)
  then obtain k where k: "run_state_to_dict ?q = Ok k" using run_state_reads_back by blast
  let ?st'' = "insert_checkpoint ((checkpoint_row_of ?q k)\<lparr>c_run_id := run\<rparr>) (update_run run (requeued_row P k) st')"
  have "requeue_delivery_exhausted E P run st' = (?st'', Ok ?q)"
    using st'(3) load s'(1) k by (simp add: requeue_delivery_exhausted_def Let_def)
  moreover have "find_run ?st'' run = Some (requeued_row P k ?r')"
    using st'(3) by (simp add: find_run_update requeued_row_def)
  moreover have "pg_load E P run st' = Ok (Some ?s')" using st'(3) load by (simp add: pg_load_def)
  ultimately show ?thesis using claim st'(3) s'
    by (intro exI[of _ st'] exI[of _ ?r'] exI[of _ ?s'] conjI exI[of _ ?st''] exI[of _ ?q]
        exI[of _ "requeued_row P k ?r'"])
      (simp_all add: exhausted_row_def requeued_row_def requeued_state_def)
qed

lemma demo_abandoned:
  "\<exists>(st :: unit pg_store) d. pg_reachable st \<and> run_state_to_dict (advanced demo_env demo_run) = Ok d \<and>
     as_dict (dict_get d ''budget_policy'') = [] \<and>
     pg_runs st = [claim_row (demo_pg 0) ''A'' 10 (demo_row d)]"
proof -
  obtain st0 :: "unit pg_store" and d where st0: "pg_write pg_empty st0" "pg_runs st0 = [demo_row d]"
    and d: "run_state_to_dict (advanced demo_env demo_run) = Ok d" "as_dict (dict_get d ''budget_policy'') = []"
    using demo_store by blast
  let ?st = "st0\<lparr>pg_runs := [claim_row (demo_pg 0) ''A'' 10 (demo_row d)]\<rparr>"
  have "run_is_claimable (demo_pg 0) st0 (demo_row d)" by (rule demo_row_claimable(1)[OF d(2)])
  then have "claim_run demo_env (demo_pg 0) (g_run_id (demo_row d)) ''A'' 10 None None None st0 =
      (?st, Ok (Some (ownership_of_row (Some (g_owner_worker_id (demo_row d) \<noteq> None))
        (claim_row (demo_pg 0) ''A'' 10 (demo_row d)))))"
    using claim_single[of st0 "demo_row d" "demo_pg 0" 10 None None demo_env "''A''"] st0(2)
    by (simp add: principal_below_def)
  then have "pg_step st0 ?st" unfolding pg_step_def by (blast intro: claims_run)
  then have "pg_reachable ?st"
    using pg_reachable_steps[OF pg_write_reachable[OF pg_reachable_empty st0(1)]] by blast
  with d show ?thesis by (intro exI[of _ ?st] exI[of _ d]) simp
qed

lemma demo_run_simps:
  "r_run_id demo_run = ''run_1''" "r_sequence demo_run = 0" "r_parent_run_id demo_run = None"
  "r_status demo_run = RunRUNNING"
  by (simp_all add: demo_run_def create_run_def)

theorem exhausted_run_quarantined_witness:
  "\<exists>(st :: unit pg_store) st' r'. claim_run demo_env (demo_pg 20) ''run_1'' ''B'' 10 None (Some 1) None st = (st', Ok None) \<and>
     find_run st' ''run_1'' = Some r' \<and> g_status r' = RunFAILED \<and> g_fencing_token r' = 2"
proof -
  obtain st :: "unit pg_store" and d where st: "pg_reachable st"
    "pg_runs st = [claim_row (demo_pg 0) ''A'' 10 (demo_row d)]"
    and d: "run_state_to_dict (advanced demo_env demo_run) = Ok d" "as_dict (dict_get d ''budget_policy'') = []"
    using demo_abandoned by blast
  let ?r = "claim_row (demo_pg 0) ''A'' 10 (demo_row d)"
  have wf: "run_state_wf (advanced demo_env demo_run)" "run_state_serializable (advanced demo_env demo_run)"
    using demo_run_wf by (simp_all add: advanced_def run_state_wf_def run_state_serializable_def demo_env_def)
  have stored: "run_state_from_dict demo_env (g_state_json ?r) = Ok (advanced demo_env demo_run)"
    using run_state_reads_back[OF wf, of demo_env] d(1)
    by (simp add: claim_row_def demo_row_def new_run_row_def Let_def)
  have r: "find_run st ''run_1'' = Some ?r" "g_owner_worker_id ?r = Some ''A''" "1 \<le> g_delivery_attempt ?r"
    "g_fencing_token ?r = 1" "principal_below (demo_pg 20) st None ?r"
    by (simp_all add: find_run_def st(2) claim_row_def demo_row_def new_run_row_def Let_def demo_run_simps
        next_delivery_attempt_def principal_below_def)
  have claimable: "run_is_claimable (demo_pg 20) st ?r" by (rule demo_row_claimable(2)[OF d(2)]) simp
  show ?thesis
    using exhausted_run_quarantined[OF st(1) r(1) claimable r(5,2,3) _ _ _ stored, of 10 None "''B''"] wf r(4)
    by (fastforce simp: demo_run_simps)
qed

theorem submission_idempotent_witness:
  "\<exists>(st :: unit pg_store) r. admit_submission demo_env (demo_pg 1) demo_run ''key'' ''other'' None None st =
     (st, Raise idempotency_conflict) \<and> find_run st ''run_1'' = Some r"
proof -
  obtain d where d: "run_state_to_dict (advanced demo_env demo_run) = Ok d" using demo_admitted by blast
  have cp: "demo_run\<lparr>r_sequence := 1, r_updated_at := now_text demo_env\<rparr> = advanced demo_env demo_run"
    by (simp add: advanced_def demo_run_simps)
  obtain st1 :: "unit pg_store" where
    st1: "admit_submission demo_env (demo_pg 0) demo_run ''key'' ''print'' None None pg_empty =
      (st1, Ok (advanced demo_env demo_run, True))"
    by (simp add: admit_submission_def require_optional_limit_def demo_run_simps find_submission_def
        pg_empty_def admission_checks_def find_run_def check_principal_queue_quota_def
        insert_initial_run_def d cp)
  from submission_idempotent[OF st1 rtranclp.rtrancl_refl refl, of None demo_env "demo_pg 1" "''other''" None]
  show ?thesis by (auto simp: demo_run_simps)
qed

section \<open>Waiting parents\<close>

lemma pg_save_Ok:
  assumes "pg_save E P own cp st = (st', cp', Ok ())"
  obtains d st1 where "write_run P cp (now_text E) d st = Ok st1"
    "st' = finish_run P own cp (insert_checkpoint (checkpoint_row_of (advanced E cp) d) st1)"
  using assms by (auto simp: pg_save_def Let_def bindR_Ok_iff split: sum.splits)

lemma write_run_other:
  "write_run P cp now d st = Ok st1 \<Longrightarrow> k \<noteq> r_run_id cp \<Longrightarrow> find_run st1 k = find_run st k"
  by (auto simp: write_run_def Let_def find_run_update saved_run_row_def find_run_def find_append
      new_run_row_def find_update split: option.splits if_splits)

lemma terminal_save_parent:
  assumes "pg_save E P own cp st = (st', cp', Ok ())" "run_finished cp"
    and "r_parent_run_id cp = Some p" "p \<noteq> r_run_id cp" "find_run st p = Some q"
  shows "find_run st' p = Some (wake_row P q)"
proof -
  obtain d st1 where s: "write_run P cp (now_text E) d st = Ok st1"
    "st' = finish_run P own cp (insert_checkpoint (checkpoint_row_of (advanced E cp) d) st1)"
    using pg_save_Ok[OF assms(1)] .
  have "find_run st1 p = Some q" using write_run_other[OF s(1) assms(4)] assms(5) by simp
  with assms(2-4) show ?thesis
    by (simp add: s(2) finish_run_def wake_parent_def find_run_update keeps_sequence)
qed

text \<open>
  C33: a child that reaches a terminal state wakes the parent that waits for it, if no worker
  owns the parent: with the same transaction the parent becomes runnable, and it can be
  claimed as soon as its own deadline and its ancestors allow.
\<close>

theorem terminal_child_wakes_idle_parent:
  assumes "pg_save E P own cp st = (st', cp', Ok ())" "run_finished cp"
    and "r_parent_run_id cp = Some p" "p \<noteq> r_run_id cp" "find_run st p = Some q"
    and "g_status q = RunWAITING_CHILD" "g_owner_worker_id q = None"
  shows "\<exists>q'. find_run st' p = Some q' \<and> g_runnable q' \<and> g_status q' = RunWAITING_CHILD \<and>
    (run_is_claimable P' st' q' \<longleftrightarrow> deadline_is_live P' q' \<and> ancestors_not_cancelled st' q')"
  using terminal_save_parent[OF assms(1-5)] assms(6,7)
  by (auto simp: wake_row_def run_is_claimable_def executing_def)

text \<open>A parent that waits, with or without an owner, and its only child, about to complete.\<close>

definition demo_parent :: "string option \<Rightarrow> run_row" where
  "demo_parent worker = (demo_row [])\<lparr>g_status := RunWAITING_CHILD, g_runnable := False,
     g_owner_worker_id := worker, g_lease_until := Some 10, g_fencing_token := 1\<rparr>"

definition demo_child :: run_state where
  "demo_child = demo_run\<lparr>r_run_id := ''run_2'', r_status := RunCOMPLETED, r_parent_run_id := Some ''run_1''\<rparr>"

lemma demo_parent_simps:
  "g_run_id (demo_parent worker) = ''run_1''" "g_status (demo_parent worker) = RunWAITING_CHILD"
  "g_owner_worker_id (demo_parent worker) = worker" "g_fencing_token (demo_parent worker) = 1"
  by (simp_all add: demo_parent_def demo_row_def new_run_row_def demo_run_simps)

lemma demo_child_simps:
  "r_run_id demo_child = ''run_2''" "r_parent_run_id demo_child = Some ''run_1''" "r_sequence demo_child = 0"
  "run_finished demo_child"
  by (simp_all add: demo_child_def demo_run_simps run_finished_def)

lemma demo_child_saved:
  "\<exists>st'. pg_save demo_env (demo_pg 5) None demo_child ((pg_empty :: unit pg_store)\<lparr>pg_runs := [demo_parent worker]\<rparr>) =
     (st', advanced demo_env demo_child, Ok ())"
proof -
  have "run_state_wf (advanced demo_env demo_child)" "run_state_serializable (advanced demo_env demo_child)"
    using demo_run_wf
    by (simp_all add: demo_child_def advanced_def run_state_wf_def run_state_serializable_def demo_env_def)
  then obtain d where "run_state_to_dict (advanced demo_env demo_child) = Ok d"
    using run_state_reads_back by blast
  then show ?thesis
    by (simp add: pg_save_def Let_def validate_optional_def write_run_def demo_child_simps find_run_def
        demo_parent_simps)
qed

theorem terminal_child_wakes_idle_parent_witness:
  "\<exists>(st :: unit pg_store) q. find_run st ''run_1'' = Some q \<and> g_runnable q \<and> g_status q = RunWAITING_CHILD"
proof -
  let ?st = "(pg_empty :: unit pg_store)\<lparr>pg_runs := [demo_parent None]\<rparr>"
  obtain st' where st': "pg_save demo_env (demo_pg 5) None demo_child ?st = (st', advanced demo_env demo_child, Ok ())"
    using demo_child_saved by blast
  have "find_run ?st ''run_1'' = Some (demo_parent None)" by (simp add: find_run_def demo_parent_simps)
  from terminal_child_wakes_idle_parent[OF st' demo_child_simps(4,2) _ this, of "demo_pg 5"]
  show ?thesis by (auto simp: demo_child_simps demo_parent_simps)
qed



end
