(* ===== verification/RateLimit.thy ===== *)
theory RateLimit
  imports LeaseProps
begin

text \<open>
  The token buckets that limit the rate of root submissions (\<^verbatim>\<open>_consume_submission_tokens\<close>):
  how many submissions a bucket grants over any period, and that the waiting time given to a
  refused client is enough.
\<close>

section \<open>One submission\<close>

definition distinct_buckets :: "bucket_spec list \<Rightarrow> bool" where
  "distinct_buckets bs \<longleftrightarrow> distinct (map fst bs)"

lemma set_bucket_lookup [simp]:
  "map_of (pg_buckets (set_bucket b row st)) = (map_of (pg_buckets st))(fst b \<mapsto> row)"
  by (simp add: set_bucket_def)

lemma bucket_row_lookup:
  "bucket_row P b st = (case map_of (pg_buckets st) (fst b) of
     None \<Rightarrow> (of_int (snd (snd b)), pg_now P) | Some row \<Rightarrow> row)"
  by (simp add: bucket_row_def case_prod_unfold)

lemma fold_set_bucket_other:
  "k \<notin> fst ` c ` set xs \<Longrightarrow> map_of (pg_buckets (fold (\<lambda>x s. set_bucket (c x) (f x s) s) xs st)) k = map_of (pg_buckets st) k"
  by (induction xs arbitrary: st) auto

lemma fold_set_bucket:
  "distinct (map (fst \<circ> c) xs) \<Longrightarrow> x \<in> set xs \<Longrightarrow>
     map_of (pg_buckets (fold (\<lambda>x s. set_bucket (c x) (f x) s) xs st)) (fst (c x)) = Some (f x)"
proof (induction xs arbitrary: st)
  case (Cons y ys)
  show ?case
  proof (cases "x = y")
    case True
    with Cons.prems(1) show ?thesis by (simp add: fold_set_bucket_other image_comp)
  next
    case False
    with Cons show ?thesis by simp
  qed
qed simp

lemma ensure_buckets:
  "distinct_buckets bs \<Longrightarrow> b \<in> set bs \<Longrightarrow>
     map_of (pg_buckets (fold (\<lambda>b s. set_bucket b (bucket_row P b s) s) bs st)) (fst b) = Some (bucket_row P b st)"
proof (induction bs arbitrary: st)
  case (Cons c bs)
  show ?case
  proof (cases "b = c")
    case True
    with Cons.prems(1) show ?thesis
      by (simp add: distinct_buckets_def fold_set_bucket_other[where c = "\<lambda>b. b"])
  next
    case False
    with Cons.prems have "b \<in> set bs" "distinct_buckets bs" "fst c \<notin> fst ` set bs"
      by (auto simp: distinct_buckets_def)
    moreover from this have "fst b \<noteq> fst c" by (metis image_eqI)
    ultimately show ?thesis
      using Cons.IH[of "set_bucket c (bucket_row P c st) st"] by (simp add: bucket_row_lookup)
  qed
qed simp

definition refilled :: "pg_env \<Rightarrow> bucket_spec \<Rightarrow> 'l pg_store \<Rightarrow> rat" where
  "refilled P b st = (case b of (key, rate, burst) \<Rightarrow>
     min (of_int burst) (fst (bucket_row P b st) + max 0 (pg_now P - snd (bucket_row P b st)) * rate))"

lemma bucket_tokens_ensured:
  "distinct_buckets bs \<Longrightarrow> b \<in> set bs \<Longrightarrow>
     bucket_tokens P b (fold (\<lambda>b s. set_bucket b (bucket_row P b s) s) bs st) = refilled P b st"
  using ensure_buckets[of bs b P st]
  by (simp add: bucket_tokens_def refilled_def bucket_row_lookup case_prod_unfold)

text \<open>What a submission does to each of its buckets.\<close>

lemma consume_cases:
  fixes st :: "'l pg_store"
  assumes "distinct_buckets bs" "bs \<noteq> []" "consume_submission_tokens P bs st = (st', r)"
  obtains (granted) "r = None" "\<And>b. b \<in> set bs \<Longrightarrow> 1 \<le> refilled P b st"
      "\<And>b. b \<in> set bs \<Longrightarrow> map_of (pg_buckets st') (fst b) = Some (refilled P b st - 1, pg_now P)"
    | (refused) w where "r = Some w"
      "\<And>b. b \<in> set bs \<Longrightarrow> map_of (pg_buckets st') (fst b) = Some (bucket_row P b st)"
      "\<And>b. b \<in> set bs \<Longrightarrow> (1 - refilled P b st) / fst (snd b) \<le> w" "0 \<le> w"
      "\<exists>b \<in> set bs. refilled P b st < 1"
proof -
  let ?st1 = "fold (\<lambda>b s. set_bucket b (bucket_row P b s) s) bs st"
  let ?states = "map (\<lambda>b. (b, bucket_tokens P b ?st1)) bs"
  have states: "?states = map (\<lambda>b. (b, refilled P b st)) bs"
    by (simp add: bucket_tokens_ensured[OF assms(1)])
  show ?thesis
  proof (cases "\<exists>b \<in> set bs. refilled P b st < 1")
    case True
    let ?waits = "(\<lambda>((key, rate, burst), tokens). max 0 ((1 - tokens) / rate)) ` set ?states"
    have "(\<exists>x \<in> set ?states. snd x < 1)" using True unfolding states by auto
    then have r: "r = Some (Max ?waits)" "st' = ?st1"
      using assms(2,3) by (auto simp: consume_submission_tokens_def Let_def image_image case_prod_unfold)
    define M where "M = Max ?waits"
    have le: "max 0 ((1 - refilled P b st) / fst (snd b)) \<le> M" if "b \<in> set bs" for b
      unfolding M_def
      by (rule Max_ge) (use that in \<open>auto simp: states case_prod_unfold image_image\<close>)
    show ?thesis
    proof (rule that(2)[of M])
      show "r = Some M" using r(1) by (simp only: M_def)
      show "map_of (pg_buckets st') (fst b) = Some (bucket_row P b st)" if "b \<in> set bs" for b
        unfolding r(2) by (rule ensure_buckets[OF assms(1) that])
      show "(1 - refilled P b st) / fst (snd b) \<le> M" if "b \<in> set bs" for b
        using le[OF that] by (rule order_trans[OF max.cobounded2])
      show "0 \<le> M" using True le by (meson max.cobounded1 order_trans)
      show "\<exists>b \<in> set bs. refilled P b st < 1" by (rule True)
    qed
  next
    case False
    have "\<not> (\<exists>x \<in> set ?states. snd x < 1)" using False unfolding states by auto
    then have r: "r = None" "st' = fold (\<lambda>(b, tokens) s. set_bucket b (tokens - 1, pg_now P) s) ?states ?st1"
      using assms(2,3) by (auto simp: consume_submission_tokens_def Let_def)
    have "distinct (map (fst \<circ> fst) ?states)"
      using assms(1) by (simp add: distinct_buckets_def comp_def)
    from fold_set_bucket[OF this, where f = "\<lambda>x. (snd x - 1, pg_now P)" and st = ?st1]
    have lookup: "map_of (pg_buckets st') (fst (fst x)) = Some (snd x - 1, pg_now P)" if "x \<in> set ?states" for x
      using that by (simp add: r(2) case_prod_unfold)
    have mem: "(b, refilled P b st) \<in> set ?states" if "b \<in> set bs" for b
      unfolding states using that by simp
    have "map_of (pg_buckets st') (fst b) = Some (refilled P b st - 1, pg_now P)" if "b \<in> set bs" for b
      using lookup[OF mem[OF that]] by simp
    with r(1) False show ?thesis by (intro that(1)) (auto simp: not_less)
  qed
qed

section \<open>Any number of submissions\<close>

text \<open>The tables after a series of submissions, and how many of them were granted.\<close>

fun submit_all :: "(pg_env \<times> bucket_spec list) list \<Rightarrow> 'l pg_store \<Rightarrow> 'l pg_store \<times> nat" where
  "submit_all [] st = (st, 0)"
| "submit_all ((P, bs) # calls) st =
     (case consume_submission_tokens P bs st of (st1, r) \<Rightarrow>
      case submit_all calls st1 of (st2, n) \<Rightarrow> (st2, if r = None then Suc n else n))"

definition bucket_ok :: "rat \<Rightarrow> rat \<Rightarrow> bucket_spec \<Rightarrow> 'l pg_store \<Rightarrow> bool" where
  "bucket_ok credit now b st \<longleftrightarrow>
     (case map_of (pg_buckets st) (fst b) of
        None \<Rightarrow> of_int (snd (snd b)) \<le> credit
      | Some (tokens, refill) \<Rightarrow> 0 \<le> tokens \<and> refill \<le> now \<and> tokens + (now - refill) * fst (snd b) \<le> credit)"

lemma bucket_ok_credit:
  assumes "bucket_ok credit now b st" "0 \<le> fst (snd b)" "1 \<le> snd (snd b)"
  shows "0 \<le> credit"
proof (cases "map_of (pg_buckets st) (fst b)")
  case None
  then have "of_int (snd (snd b)) \<le> credit" using assms(1) by (simp add: bucket_ok_def)
  moreover have "(1 :: rat) \<le> of_int (snd (snd b))" using assms(3) by simp
  ultimately show ?thesis by linarith
next
  case (Some row)
  then have "0 \<le> fst row" "0 \<le> (now - snd row) * fst (snd b)"
    "fst row + (now - snd row) * fst (snd b) \<le> credit"
    using assms(1,2) by (auto simp: bucket_ok_def case_prod_unfold)
  then show ?thesis by linarith
qed

lemma consume_bucket_ok:
  assumes "distinct_buckets bs" "b \<in> set bs" "consume_submission_tokens P bs st = (st', r)"
    and "bucket_ok credit t b st" "t \<le> pg_now P" "0 \<le> fst (snd b)" "1 \<le> snd (snd b)"
  defines "credit' \<equiv> credit + (pg_now P - t) * fst (snd b)"
  shows "bucket_ok (if r = None then credit' - 1 else credit') (pg_now P) b st'"
proof -
  obtain key rate burst where b: "b = (key, rate, burst)" by (cases b)
  have rate: "0 \<le> (pg_now P - t) * rate" using assms(5,6) b by simp
  obtain tokens refill where row: "bucket_row P b st = (tokens, refill)" by fastforce
  have now: "0 \<le> tokens" "refill \<le> pg_now P" "tokens + (pg_now P - refill) * rate \<le> credit'"
    using assms(4-7) row rate
    by (auto simp: bucket_ok_def bucket_row_lookup b credit'_def algebra_simps split: option.splits)
  then have filled: "refilled P b st \<le> credit'" by (auto simp: refilled_def b row[unfolded b])
  have "bs \<noteq> []" using assms(2) by auto
  with assms(1) show ?thesis
  proof (rule consume_cases[OF _ _ assms(3)])
    assume r: "r = None" and "\<And>b. b \<in> set bs \<Longrightarrow> 1 \<le> refilled P b st"
      and "\<And>b. b \<in> set bs \<Longrightarrow> map_of (pg_buckets st') (fst b) = Some (refilled P b st - 1, pg_now P)"
    then have "1 \<le> refilled P b st" "map_of (pg_buckets st') (fst b) = Some (refilled P b st - 1, pg_now P)"
      using assms(2) by auto
    with r filled show ?thesis by (simp add: bucket_ok_def)
  next
    fix w assume r: "r = Some w"
      and "\<And>b. b \<in> set bs \<Longrightarrow> map_of (pg_buckets st') (fst b) = Some (bucket_row P b st)"
    then have "map_of (pg_buckets st') (fst b) = Some (tokens, refill)" using assms(2) row by simp
    moreover have "0 \<le> (pg_now P - refill) * rate" using now(2) assms(6) b by simp
    ultimately show ?thesis using r now b by (simp add: bucket_ok_def)
  qed
qed

lemma submit_all_granted:
  "bucket_ok credit t b st \<Longrightarrow> sorted (map (pg_now \<circ> fst) calls) \<Longrightarrow>
   (\<And>P bs. (P, bs) \<in> set calls \<Longrightarrow> distinct_buckets bs \<and> b \<in> set bs \<and> t \<le> pg_now P \<and> pg_now P \<le> t1) \<Longrightarrow>
   t \<le> t1 \<Longrightarrow> 0 \<le> fst (snd b) \<Longrightarrow> 1 \<le> snd (snd b) \<Longrightarrow>
   of_nat (snd (submit_all calls st)) \<le> credit + (t1 - t) * fst (snd b)"
proof (induction calls arbitrary: st credit t)
  case (Cons call calls)
  obtain P bs where call: "call = (P, bs)" by fastforce
  obtain st1 r where st1: "consume_submission_tokens P bs st = (st1, r)" by fastforce
  have P: "distinct_buckets bs" "b \<in> set bs" "t \<le> pg_now P" "pg_now P \<le> t1"
    using Cons.prems(3) call by auto
  let ?credit = "credit + (pg_now P - t) * fst (snd b)"
  let ?left = "if r = None then ?credit - 1 else ?credit"
  note step = consume_bucket_ok[OF P(1,2) st1 Cons.prems(1) P(3) Cons.prems(5,6)]
  have later: "sorted (map (pg_now \<circ> fst) calls)" "\<And>P' bs'. (P', bs') \<in> set calls \<Longrightarrow> pg_now P \<le> pg_now P'"
    using Cons.prems(2) call by (auto simp: comp_def)
  have "of_nat (snd (submit_all calls st1)) \<le> ?left + (t1 - pg_now P) * fst (snd b)"
    by (rule Cons.IH[OF step later(1) _ P(4) Cons.prems(5,6)]) (use later(2) Cons.prems(3) in auto)
  then show ?case by (auto simp: call st1 case_prod_unfold algebra_simps split: if_splits)
next
  case Nil
  have "0 \<le> credit" by (rule bucket_ok_credit[OF Nil.prems(1,5,6)])
  moreover have "0 \<le> (t1 - t) * fst (snd b)" using Nil.prems(4,5) by simp
  ultimately show ?case by simp
qed

text \<open>
  the rate limit. A token bucket that is empty of history grants, over any series of
  submissions between two times, at most its burst plus its rate times the length of the
  period, whatever other buckets the submissions also draw on.
\<close>

theorem submission_rate_bounded:
  assumes "map_of (pg_buckets st) key = None" "0 \<le> rate" "1 \<le> burst" "t0 \<le> t1"
    and "sorted (map (pg_now \<circ> fst) calls)"
    and "\<And>P bs. (P, bs) \<in> set calls \<Longrightarrow>
       distinct_buckets bs \<and> (key, rate, burst) \<in> set bs \<and> t0 \<le> pg_now P \<and> pg_now P \<le> t1"
  shows "of_nat (snd (submit_all calls st)) \<le> of_int burst + (t1 - t0) * rate"
proof -
  have "bucket_ok (of_int burst) t0 (key, rate, burst) st" using assms(1) by (simp add: bucket_ok_def)
  from submit_all_granted[OF this assms(5,6,4)] assms(2,3) show ?thesis by simp
qed

definition demo_bucket :: bucket_spec where
  "demo_bucket = ((''global'', ''root_submission''), 1, 1)"

theorem submission_rate_bounded_witness:
  "of_nat (snd (submit_all [(demo_pg 0, [demo_bucket]), (demo_pg 1, [demo_bucket])] (pg_empty :: unit pg_store)))
     \<le> of_int 1 + (1 - 0) * (1 :: rat)"
  by (rule submission_rate_bounded[of _ "(''global'', ''root_submission'')"])
    (auto simp: pg_empty_def demo_bucket_def distinct_buckets_def)

text \<open>
  the answer to a refused submission is honest. If no other submission draws on the
  buckets meanwhile, the same submission is granted once the seconds it was told to wait
  have passed.
\<close>

theorem retry_after_suffices:
  assumes "consume_submission_tokens P bs st = (st', Some w)" "distinct_buckets bs"
    and "\<And>key rate burst. (key, rate, burst) \<in> set bs \<Longrightarrow> 0 < rate \<and> 1 \<le> burst \<and>
       (case map_of (pg_buckets st) key of None \<Rightarrow> True | Some (tokens, refill) \<Rightarrow> refill \<le> pg_now P)"
    and "pg_now P + w \<le> pg_now P'"
  shows "snd (consume_submission_tokens P' bs st') = None"
proof (cases "bs = []")
  case True
  with assms(1) show ?thesis by (simp add: consume_submission_tokens_def)
next
  case False
  obtain st2 r where r: "consume_submission_tokens P' bs st' = (st2, r)" by fastforce
  have rows: "\<And>b. b \<in> set bs \<Longrightarrow> map_of (pg_buckets st') (fst b) = Some (bucket_row P b st)"
    "\<And>b. b \<in> set bs \<Longrightarrow> (1 - refilled P b st) / fst (snd b) \<le> w" "0 \<le> w"
    by (rule consume_cases[OF assms(2) False assms(1)]; simp)+
  have "1 \<le> refilled P' b st'" if b: "b \<in> set bs" for b
  proof -
    obtain key rate burst where k: "b = (key, rate, burst)" by (cases b)
    obtain tokens refill where row: "bucket_row P b st = (tokens, refill)" by fastforce
    have now: "refill \<le> pg_now P" "0 < rate" "(1 :: rat) \<le> of_int burst"
      using assms(3)[of key rate burst] b k row by (auto simp: bucket_row_lookup split: option.splits)
    have "1 - refilled P b st \<le> w * rate"
      using rows(2)[OF b] now(2) k by (simp add: pos_divide_le_eq)
    moreover have "w * rate \<le> (pg_now P' - pg_now P) * rate"
      using assms(4) now(2) by (intro mult_right_mono) auto
    moreover have "refilled P b st \<le> tokens + (pg_now P - refill) * rate"
      using now by (simp add: refilled_def k row[unfolded k])
    ultimately have "1 \<le> tokens + (pg_now P' - refill) * rate" by (simp add: algebra_simps)
    moreover have "bucket_row P' b st' = (tokens, refill)"
      using rows(1)[OF b] row by (simp add: bucket_row_lookup)
    moreover have "refill \<le> pg_now P'" using now(1) assms(4) rows(3) by linarith
    ultimately show ?thesis using now(3) by (simp add: refilled_def k)
  qed
  then have full: "\<not> (\<exists>b \<in> set bs. refilled P' b st' < 1)" by (simp add: not_less)
  show ?thesis
    by (rule consume_cases[OF assms(2) False r]) (use r full in \<open>simp, blast\<close>)
qed

lemma demo_bucket_spent:
  "consume_submission_tokens (demo_pg 0) [demo_bucket]
     ((pg_empty :: unit pg_store)\<lparr>pg_buckets := [((''global'', ''root_submission''), 0, 0)]\<rparr>) =
   ((pg_empty :: unit pg_store)\<lparr>pg_buckets := [((''global'', ''root_submission''), 0, 0)]\<rparr>, Some 1)"
  by (simp add: consume_submission_tokens_def demo_bucket_def bucket_row_def bucket_tokens_def set_bucket_def Let_def)

theorem retry_after_suffices_witness:
  "snd (consume_submission_tokens (demo_pg 1) [demo_bucket]
     ((pg_empty :: unit pg_store)\<lparr>pg_buckets := [((''global'', ''root_submission''), 0, 0)]\<rparr>)) = None"
  by (rule retry_after_suffices[OF demo_bucket_spent])
    (auto simp: demo_bucket_def distinct_buckets_def)

end
