(* ===== verification/BudgetModels.thy ===== *)
theory BudgetModels
  imports RunModels
begin

text \<open>
  Budgets, \<^verbatim>\<open>runtime/budget.py\<close>: dimensions, policies, pricing and usage. \<^verbatim>\<open>Decimal\<close>s and floats
  are exact rationals; how a \<^verbatim>\<open>Decimal\<close> is read from and written to text is an argument.
\<close>

section \<open>Dimensions\<close>

datatype dimension =
    STEPS | MODEL_CALLS | TOOL_CALLS | INPUT_TOKENS | OUTPUT_TOKENS | TOTAL_TOKENS
  | ELAPSED_SECONDS | COST_USD

fun dim_name :: "dimension \<Rightarrow> string" where
  "dim_name STEPS = ''steps''"
| "dim_name MODEL_CALLS = ''model_calls''"
| "dim_name TOOL_CALLS = ''tool_calls''"
| "dim_name INPUT_TOKENS = ''input_tokens''"
| "dim_name OUTPUT_TOKENS = ''output_tokens''"
| "dim_name TOTAL_TOKENS = ''total_tokens''"
| "dim_name ELAPSED_SECONDS = ''elapsed_seconds''"
| "dim_name COST_USD = ''cost_usd''"

fun dim_code :: "dimension \<Rightarrow> string" where
  "dim_code STEPS = ''STEP_BUDGET_EXCEEDED''"
| "dim_code MODEL_CALLS = ''MODEL_CALL_BUDGET_EXCEEDED''"
| "dim_code TOOL_CALLS = ''TOOL_CALL_BUDGET_EXCEEDED''"
| "dim_code INPUT_TOKENS = ''INPUT_TOKEN_BUDGET_EXCEEDED''"
| "dim_code OUTPUT_TOKENS = ''OUTPUT_TOKEN_BUDGET_EXCEEDED''"
| "dim_code TOTAL_TOKENS = ''TOTAL_TOKEN_BUDGET_EXCEEDED''"
| "dim_code ELAPSED_SECONDS = ''WALL_TIME_BUDGET_EXCEEDED''"
| "dim_code COST_USD = ''COST_BUDGET_EXCEEDED''"

text \<open>The keys of \<^verbatim>\<open>_DIMENSION_LIMIT\<close> in their order.\<close>

definition dimensions :: "dimension list" where
  "dimensions = [STEPS, MODEL_CALLS, TOOL_CALLS, INPUT_TOKENS, OUTPUT_TOKENS, TOTAL_TOKENS,
     ELAPSED_SECONDS, COST_USD]"

lemma in_dimensions [simp]: "d \<in> set dimensions"
  by (cases d) (simp_all add: dimensions_def)

lemma dim_name_inject [simp]: "dim_name a = dim_name b \<longleftrightarrow> a = b"
  by (cases a; cases b) simp_all

text \<open>Dimensions are sorted as the texts they are in the code.\<close>

instantiation dimension :: linorder
begin

definition less_eq_dimension :: "dimension \<Rightarrow> dimension \<Rightarrow> bool" where
  "less_eq_dimension a b \<longleftrightarrow> dim_name a \<le> dim_name b"

definition less_dimension :: "dimension \<Rightarrow> dimension \<Rightarrow> bool" where
  "less_dimension a b \<longleftrightarrow> dim_name a < dim_name b"

instance
proof
  fix x y z :: dimension
  show "x < y \<longleftrightarrow> x \<le> y \<and> \<not> y \<le> x" "x \<le> x" "x \<le> y \<or> y \<le> x"
    by (simp_all add: less_eq_dimension_def less_dimension_def less_le_not_le linear)
  show "x \<le> y \<Longrightarrow> y \<le> z \<Longrightarrow> x \<le> z"
    unfolding less_eq_dimension_def by (rule order_trans)
  show "x \<le> y \<Longrightarrow> y \<le> x \<Longrightarrow> x = y"
    unfolding less_eq_dimension_def using dim_name_inject antisym by blast
qed

end

section \<open>Policies\<close>

record budget_policy =
  bp_max_steps :: "int option"
  bp_max_model_calls :: "int option"
  bp_max_tool_calls :: "int option"
  bp_max_input_tokens :: "int option"
  bp_max_output_tokens :: "int option"
  bp_max_total_tokens :: "int option"
  bp_max_wall_time_seconds :: "rat option"
  bp_max_cost_usd :: "rat option"
  bp_soft_limit_ratio :: rat

definition no_limits :: budget_policy where
  "no_limits = \<lparr>bp_max_steps = None, bp_max_model_calls = None, bp_max_tool_calls = None,
     bp_max_input_tokens = None, bp_max_output_tokens = None, bp_max_total_tokens = None,
     bp_max_wall_time_seconds = None, bp_max_cost_usd = None, bp_soft_limit_ratio = 4/5\<rparr>"

definition positive_or_null :: "int option \<Rightarrow> string \<Rightarrow> unit res" where
  "positive_or_null v name =
     guardR (case v of None \<Rightarrow> True | Some i \<Rightarrow> 0 < i)
       (ValueError (name @ '' must be a positive integer or null''))"

text \<open>\<open>RunBudgetPolicy\<close> is the checked constructor.\<close>

definition RunBudgetPolicy :: "budget_policy \<Rightarrow> budget_policy res" where
  "RunBudgetPolicy p =
     bindR (positive_or_null (bp_max_steps p) ''max_steps'') (\<lambda>_.
     bindR (positive_or_null (bp_max_model_calls p) ''max_model_calls'') (\<lambda>_.
     bindR (positive_or_null (bp_max_tool_calls p) ''max_tool_calls'') (\<lambda>_.
     bindR (positive_or_null (bp_max_input_tokens p) ''max_input_tokens'') (\<lambda>_.
     bindR (positive_or_null (bp_max_output_tokens p) ''max_output_tokens'') (\<lambda>_.
     bindR (positive_or_null (bp_max_total_tokens p) ''max_total_tokens'') (\<lambda>_.
     bindR (guardR (case bp_max_wall_time_seconds p of None \<Rightarrow> True | Some q \<Rightarrow> 0 < q)
       (ValueError ''max_wall_time_seconds must be positive or null'')) (\<lambda>_.
     bindR (guardR (case bp_max_cost_usd p of None \<Rightarrow> True | Some q \<Rightarrow> 0 < q)
       (ValueError ''max_cost_usd must be positive or null'')) (\<lambda>_.
     bindR (guardR (0 < bp_soft_limit_ratio p \<and> bp_soft_limit_ratio p < 1)
       (ValueError ''soft_limit_ratio must be greater than 0 and less than 1'')) (\<lambda>_.
     Ok p)))))))))"

text \<open>\<^verbatim>\<open>getattr(policy, limit_name)\<close> for the limit of a dimension.\<close>

fun limit_of :: "budget_policy \<Rightarrow> dimension \<Rightarrow> rat option" where
  "limit_of p STEPS = map_option of_int (bp_max_steps p)"
| "limit_of p MODEL_CALLS = map_option of_int (bp_max_model_calls p)"
| "limit_of p TOOL_CALLS = map_option of_int (bp_max_tool_calls p)"
| "limit_of p INPUT_TOKENS = map_option of_int (bp_max_input_tokens p)"
| "limit_of p OUTPUT_TOKENS = map_option of_int (bp_max_output_tokens p)"
| "limit_of p TOTAL_TOKENS = map_option of_int (bp_max_total_tokens p)"
| "limit_of p ELAPSED_SECONDS = bp_max_wall_time_seconds p"
| "limit_of p COST_USD = bp_max_cost_usd p"

record decimal_text =
  dec_read :: "string \<Rightarrow> rat option"
  dec_format :: "rat \<Rightarrow> string"

definition budget_optional_int :: "pyenv \<Rightarrow> pyval \<Rightarrow> int option res" where
  "budget_optional_int E v = (if v = PNone then Ok None else bindR (py_int E v) (\<lambda>i. Ok (Some i)))"

definition budget_optional_float :: "pyenv \<Rightarrow> pyval \<Rightarrow> rat option res" where
  "budget_optional_float E v = (if v = PNone then Ok None else bindR (py_float E v) (\<lambda>q. Ok (Some q)))"

definition optional_decimal :: "pyenv \<Rightarrow> decimal_text \<Rightarrow> pyval \<Rightarrow> rat option res" where
  "optional_decimal E D v =
     (if v = PNone \<or> v = PStr [] then Ok None
      else case dec_read D (py_str E v) of
             None \<Rightarrow> Raise (ValueError (''invalid decimal value: '' @ py_str E v))
           | Some q \<Rightarrow> Ok (Some q))"

definition required_decimal :: "pyenv \<Rightarrow> decimal_text \<Rightarrow> pyval \<Rightarrow> string \<Rightarrow> rat res" where
  "required_decimal E D v name =
     bindR (optional_decimal E D v) (\<lambda>q.
     case q of None \<Rightarrow> Raise (ValueError (name @ '' is required'')) | Some x \<Rightarrow> Ok x)"

definition budget_policy_to_dict :: "decimal_text \<Rightarrow> budget_policy \<Rightarrow> pydict" where
  "budget_policy_to_dict D p = [
     (''max_steps'', opt_val PInt (bp_max_steps p)),
     (''max_model_calls'', opt_val PInt (bp_max_model_calls p)),
     (''max_tool_calls'', opt_val PInt (bp_max_tool_calls p)),
     (''max_input_tokens'', opt_val PInt (bp_max_input_tokens p)),
     (''max_output_tokens'', opt_val PInt (bp_max_output_tokens p)),
     (''max_total_tokens'', opt_val PInt (bp_max_total_tokens p)),
     (''max_wall_time_seconds'', opt_val PFloat (bp_max_wall_time_seconds p)),
     (''max_cost_usd'', opt_val (\<lambda>q. PStr (dec_format D q)) (bp_max_cost_usd p)),
     (''soft_limit_ratio'', PFloat (bp_soft_limit_ratio p))]"

definition budget_policy_from_dict :: "pyenv \<Rightarrow> decimal_text \<Rightarrow> pydict \<Rightarrow> budget_policy res" where
  "budget_policy_from_dict E D d =
     bindR (budget_optional_int E (dict_get d ''max_steps'')) (\<lambda>steps.
     bindR (budget_optional_int E (dict_get d ''max_model_calls'')) (\<lambda>models.
     bindR (budget_optional_int E (dict_get d ''max_tool_calls'')) (\<lambda>tools.
     bindR (budget_optional_int E (dict_get d ''max_input_tokens'')) (\<lambda>inp.
     bindR (budget_optional_int E (dict_get d ''max_output_tokens'')) (\<lambda>out.
     bindR (budget_optional_int E (dict_get d ''max_total_tokens'')) (\<lambda>total.
     bindR (budget_optional_float E (dict_get d ''max_wall_time_seconds'')) (\<lambda>wall.
     bindR (optional_decimal E D (dict_get d ''max_cost_usd'')) (\<lambda>cost.
     bindR (py_float E (dict_get_default d ''soft_limit_ratio'' (PFloat (4/5)))) (\<lambda>ratio.
     RunBudgetPolicy \<lparr>bp_max_steps = steps, bp_max_model_calls = models, bp_max_tool_calls = tools,
       bp_max_input_tokens = inp, bp_max_output_tokens = out, bp_max_total_tokens = total,
       bp_max_wall_time_seconds = wall, bp_max_cost_usd = cost, bp_soft_limit_ratio = ratio\<rparr>)))))))))"

section \<open>Pricing\<close>

record pricing =
  pr_provider :: string
  pr_model :: string
  pr_input_per_million :: rat
  pr_output_per_million :: rat
  pr_cached_input_per_million :: "rat option"

text \<open>\<^verbatim>\<open>not s.strip()\<close> for ASCII white space.\<close>

definition is_blank :: "string \<Rightarrow> bool" where
  "is_blank s \<longleftrightarrow> list_all (\<lambda>c. of_char c \<in> {9::nat, 10, 11, 12, 13, 28, 29, 30, 31, 32}) s"

definition ModelPricing :: "pricing \<Rightarrow> pricing res" where
  "ModelPricing p =
     bindR (guardR (\<not> is_blank (pr_provider p) \<and> \<not> is_blank (pr_model p))
       (ValueError ''pricing provider and model are required'')) (\<lambda>_.
     bindR (guardR (0 \<le> pr_input_per_million p)
       (ValueError ''input_per_million_usd must be non-negative'')) (\<lambda>_.
     bindR (guardR (0 \<le> pr_output_per_million p)
       (ValueError ''output_per_million_usd must be non-negative'')) (\<lambda>_.
     bindR (guardR (case pr_cached_input_per_million p of None \<Rightarrow> True | Some q \<Rightarrow> 0 \<le> q)
       (ValueError ''cached_input_per_million_usd must be non-negative'')) (\<lambda>_.
     Ok p))))"

definition pricing_cost :: "pricing \<Rightarrow> int \<Rightarrow> int \<Rightarrow> int \<Rightarrow> rat" where
  "pricing_cost p input_tokens output_tokens cached_input_tokens =
     (let cached = min (max 0 cached_input_tokens) (max 0 input_tokens);
          regular = max 0 input_tokens - cached;
          cached_rate = (case pr_cached_input_per_million p of
                           None \<Rightarrow> pr_input_per_million p | Some q \<Rightarrow> q)
      in (of_int regular * pr_input_per_million p + of_int cached * cached_rate
          + of_int (max 0 output_tokens) * pr_output_per_million p) / 1000000)"

text \<open>\<open>str(Decimal)\<close> and \<open>format(Decimal, "f")\<close> denote the same number; one writer stands for both.\<close>

definition pricing_to_dict :: "decimal_text \<Rightarrow> pricing \<Rightarrow> pydict" where
  "pricing_to_dict D p = [
     (''provider'', PStr (pr_provider p)), (''model'', PStr (pr_model p)),
     (''input_per_million_usd'', PStr (dec_format D (pr_input_per_million p))),
     (''output_per_million_usd'', PStr (dec_format D (pr_output_per_million p))),
     (''cached_input_per_million_usd'',
        opt_val (\<lambda>q. PStr (dec_format D q)) (pr_cached_input_per_million p))]"

definition pricing_from_dict :: "pyenv \<Rightarrow> decimal_text \<Rightarrow> pydict \<Rightarrow> pricing res" where
  "pricing_from_dict E D d =
     bindR (required_decimal E D (dict_get d ''input_per_million_usd'') ''input_per_million_usd'') (\<lambda>inp.
     bindR (required_decimal E D (dict_get d ''output_per_million_usd'') ''output_per_million_usd'') (\<lambda>out.
     bindR (optional_decimal E D (dict_get d ''cached_input_per_million_usd'')) (\<lambda>cached.
     ModelPricing \<lparr>pr_provider = str_or E (dict_get d ''provider'') [],
       pr_model = str_or E (dict_get d ''model'') [],
       pr_input_per_million = inp, pr_output_per_million = out,
       pr_cached_input_per_million = cached\<rparr>)))"

text \<open>\<^verbatim>\<open>ModelPricingRegistry\<close>: entries by folded provider and model, later ones replacing earlier ones.\<close>

type_synonym registry = "((string \<times> string) \<times> pricing) list"

definition pricing_registry :: "pyenv \<Rightarrow> pricing list \<Rightarrow> registry" where
  "pricing_registry E entries =
     fold (\<lambda>p d. dict_set (casefold E (pr_provider p), casefold E (pr_model p)) p d) entries []"

definition resolve_pricing :: "pyenv \<Rightarrow> registry \<Rightarrow> string \<Rightarrow> string \<Rightarrow> pricing option" where
  "resolve_pricing E reg provider model = map_of reg (casefold E provider, casefold E model)"

definition registry_entry :: "pyenv \<Rightarrow> decimal_text \<Rightarrow> string \<times> pyval \<Rightarrow> pricing res" where
  "registry_entry E D kv =
     (let key = fst kv; provider = takeWhile (\<lambda>c. c \<noteq> CHR ''/'') key;
          rest = dropWhile (\<lambda>c. c \<noteq> CHR ''/'') key in
      case snd kv of
        PDict raw \<Rightarrow>
          if rest = [] then Raise (ValueError ''model pricing keys must use provider/model'')
          else pricing_from_dict E D
                 (fold (\<lambda>(k, v) d. dict_set k v d) raw
                    [(''provider'', PStr provider), (''model'', PStr (tl rest))])
      | _ \<Rightarrow> Raise (ValueError (''model pricing entry '' @ key @ '' must be an object'')))"

definition registry_from_config :: "pyenv \<Rightarrow> decimal_text \<Rightarrow> (string \<times> pyval) list \<Rightarrow> registry res" where
  "registry_from_config E D values =
     bindR (mapR (registry_entry E D) values) (\<lambda>entries. Ok (pricing_registry E entries))"

section \<open>Usage\<close>

record run_usage =
  u_steps :: int
  u_model_calls :: int
  u_tool_calls :: int
  u_input_tokens :: int
  u_output_tokens :: int
  u_cached_input_tokens :: int
  u_reasoning_tokens :: int
  u_cost_usd :: "rat option"
  u_cost_known :: bool
  u_elapsed_seconds :: rat

definition u_total_tokens :: "run_usage \<Rightarrow> int" where
  "u_total_tokens u = u_input_tokens u + u_output_tokens u"

fun usage_dimension :: "run_usage \<Rightarrow> dimension \<Rightarrow> rat" where
  "usage_dimension u STEPS = of_int (u_steps u)"
| "usage_dimension u MODEL_CALLS = of_int (u_model_calls u)"
| "usage_dimension u TOOL_CALLS = of_int (u_tool_calls u)"
| "usage_dimension u INPUT_TOKENS = of_int (u_input_tokens u)"
| "usage_dimension u OUTPUT_TOKENS = of_int (u_output_tokens u)"
| "usage_dimension u TOTAL_TOKENS = of_int (u_total_tokens u)"
| "usage_dimension u ELAPSED_SECONDS = u_elapsed_seconds u"
| "usage_dimension u COST_USD = (case u_cost_usd u of None \<Rightarrow> 0 | Some q \<Rightarrow> q)"

text \<open>\<^verbatim>\<open>RunBudgetUsage.to_dict\<close>; \<open>round3\<close> is \<^verbatim>\<open>round(x, 3)\<close>.\<close>

definition usage_to_dict :: "decimal_text \<Rightarrow> (rat \<Rightarrow> rat) \<Rightarrow> run_usage \<Rightarrow> pydict" where
  "usage_to_dict D round3 u = [
     (''steps'', PInt (u_steps u)), (''model_calls'', PInt (u_model_calls u)),
     (''tool_calls'', PInt (u_tool_calls u)), (''input_tokens'', PInt (u_input_tokens u)),
     (''output_tokens'', PInt (u_output_tokens u)), (''total_tokens'', PInt (u_total_tokens u)),
     (''cached_input_tokens'', PInt (u_cached_input_tokens u)),
     (''reasoning_tokens'', PInt (u_reasoning_tokens u)),
     (''cost_usd'', opt_val (\<lambda>q. PStr (dec_format D q)) (u_cost_usd u)),
     (''cost_known'', PBool (u_cost_known u)),
     (''elapsed_seconds'', PFloat (round3 (u_elapsed_seconds u)))]"

end
