(* ===== verification/BudgetLedger.thy ===== *)
theory BudgetLedger
  imports BudgetModels
begin

text \<open>
  The ledger of a family of runs and the callbacks of \<^verbatim>\<open>BudgetManager\<close> that change it
  (\<^verbatim>\<open>runtime/budget.py\<close>). The dictionary \<^verbatim>\<open>record.state\<close> is the record \<open>ledger\<close>: its runs and its
  operations in insertion order, each entry with the fields the code gives it. Policies and
  prices are kept decoded; a callback returns the changed ledger or raises, and a callback
  that raises stores nothing.
\<close>

section \<open>State\<close>

record counters =
  n_steps :: int
  n_model_calls :: int
  n_tool_calls :: int
  n_input_tokens :: int
  n_output_tokens :: int
  n_cached_input_tokens :: int
  n_reasoning_tokens :: int
  n_cost_usd :: "rat option"
  n_cost_known :: bool

definition empty_usage :: "bool \<Rightarrow> counters" where
  "empty_usage cost_known =
     \<lparr>n_steps = 0, n_model_calls = 0, n_tool_calls = 0, n_input_tokens = 0, n_output_tokens = 0,
      n_cached_input_tokens = 0, n_reasoning_tokens = 0,
      n_cost_usd = (if cost_known then Some 0 else None), n_cost_known = cost_known\<rparr>"

record run_entry =
  re_policy :: budget_policy
  re_created_at :: string
  re_pricing :: "pricing option"
  re_usage :: counters
  re_soft_dimensions :: "dimension list"
  re_hard_dimension :: "dimension option"

datatype op_kind = ModelOp | StepOp | ToolOp

text \<open>A reservation with its tokens and cost, or a completed operation with the actual tokens.\<close>

datatype op_status =
    Reserved int "rat option"
  | Completed int int int int

record operation =
  op_run_id :: string
  op_kind :: op_kind
  op_status :: op_status

record ledger =
  lg_owner :: string
  lg_runs :: "(string \<times> run_entry) list"
  lg_ops :: "(string \<times> operation) list"

definition fresh_ledger :: "string \<Rightarrow> ledger" where
  "fresh_ledger owner = \<lparr>lg_owner = owner, lg_runs = [], lg_ops = []\<rparr>"

definition run_entry_of :: "ledger \<Rightarrow> string \<Rightarrow> run_entry res" where
  "run_entry_of l run = (case map_of (lg_runs l) run of
       None \<Rightarrow> Raise (RuntimeErr (''budget ledger has no run entry for '' @ run))
     | Some e \<Rightarrow> Ok e)"

text \<open>An in-place change of the entry of a run.\<close>

definition change_run :: "string \<Rightarrow> (run_entry \<Rightarrow> run_entry) \<Rightarrow> ledger \<Rightarrow> ledger" where
  "change_run run f l =
     l\<lparr>lg_runs := map (\<lambda>(k, e). (k, if k = run then f e else e)) (lg_runs l)\<rparr>"

section \<open>Time\<close>

text \<open>
  \<^verbatim>\<open>_elapsed\<close> from the wall clock, and \<^verbatim>\<open>_elapsed_for\<close> from the monotonic clock with the anchor a
  run got when it was first asked for. \<open>iso_seconds\<close> reads an ISO time.
\<close>

record budget_clock =
  bc_iso_seconds :: "string \<Rightarrow> rat option"
  bc_now :: rat
  bc_monotonic :: rat
  bc_anchors :: "(string \<times> rat \<times> rat) list"

definition elapsed :: "budget_clock \<Rightarrow> string \<Rightarrow> rat" where
  "elapsed c created_at =
     (case bc_iso_seconds c created_at of None \<Rightarrow> 0 | Some t \<Rightarrow> max 0 (bc_now c - t))"

definition anchor_of :: "budget_clock \<Rightarrow> string \<Rightarrow> string \<Rightarrow> rat \<times> rat" where
  "anchor_of c run created_at =
     (case map_of (bc_anchors c) run of
        None \<Rightarrow> (bc_monotonic c, elapsed c created_at) | Some a \<Rightarrow> a)"

definition elapsed_for :: "budget_clock \<Rightarrow> string \<Rightarrow> string \<Rightarrow> rat" where
  "elapsed_for c run created_at =
     (case anchor_of c run created_at of (t0, base) \<Rightarrow> max 0 (base + bc_monotonic c - t0))"

definition remember_anchor :: "string \<Rightarrow> string \<Rightarrow> budget_clock \<Rightarrow> budget_clock" where
  "remember_anchor run created_at c =
     c\<lparr>bc_anchors := dict_set run (anchor_of c run created_at) (bc_anchors c)\<rparr>"

text \<open>
  Within one operation the clocks stand still in the model. Asking twice then gives the same
  time, so the anchors can be added when the operation ends.
\<close>

lemma elapsed_for_remembered:
  "elapsed_for (remember_anchor r cr c) run created_at =
     (if run = r then elapsed_for c r cr else elapsed_for c run created_at)"
  by (auto simp: elapsed_for_def anchor_of_def remember_anchor_def elapsed_def split: option.splits)

section \<open>Usage\<close>

definition reserved_input :: "operation \<Rightarrow> int" where
  "reserved_input q = (case op_status q of Reserved t _ \<Rightarrow> t | Completed _ _ _ _ \<Rightarrow> 0)"

definition reserved_cost :: "operation \<Rightarrow> rat" where
  "reserved_cost q = (case op_status q of Reserved _ (Some x) \<Rightarrow> x | _ \<Rightarrow> 0)"

definition run_ops :: "ledger \<Rightarrow> string \<Rightarrow> operation list" where
  "run_ops l run = filter (\<lambda>q. op_run_id q = run) (dict_values (lg_ops l))"

definition entry_usage :: "budget_clock \<Rightarrow> bool \<Rightarrow> ledger \<Rightarrow> string \<Rightarrow> run_entry \<Rightarrow> run_usage" where
  "entry_usage c reservations l run e =
     (let u = re_usage e;
          tokens = (if reservations then sum_list (map reserved_input (run_ops l run)) else 0);
          cost = (if reservations then sum_list (map reserved_cost (run_ops l run)) else 0)
      in \<lparr>u_steps = n_steps u, u_model_calls = n_model_calls u, u_tool_calls = n_tool_calls u,
          u_input_tokens = n_input_tokens u + tokens, u_output_tokens = n_output_tokens u,
          u_cached_input_tokens = n_cached_input_tokens u, u_reasoning_tokens = n_reasoning_tokens u,
          u_cost_usd = (if n_cost_known u
                        then Some ((case n_cost_usd u of None \<Rightarrow> 0 | Some x \<Rightarrow> x) + cost) else None),
          u_cost_known = n_cost_known u,
          u_elapsed_seconds = elapsed c (re_created_at e)\<rparr>)"

definition usage_of :: "budget_clock \<Rightarrow> bool \<Rightarrow> ledger \<Rightarrow> string \<Rightarrow> run_usage res" where
  "usage_of c reservations l run =
     bindR (run_entry_of l run) (\<lambda>e. Ok (entry_usage c reservations l run e))"

definition aggregate_usage :: "budget_clock \<Rightarrow> bool \<Rightarrow> ledger \<Rightarrow> run_usage res" where
  "aggregate_usage c reservations l =
     bindR (mapR (usage_of c reservations l) (dict_keys (lg_runs l))) (\<lambda>us.
     bindR (run_entry_of l (lg_owner l)) (\<lambda>owner.
     let known = us \<noteq> [] \<and> list_all u_cost_known us in
     Ok \<lparr>u_steps = sum_list (map u_steps us), u_model_calls = sum_list (map u_model_calls us),
         u_tool_calls = sum_list (map u_tool_calls us),
         u_input_tokens = sum_list (map u_input_tokens us),
         u_output_tokens = sum_list (map u_output_tokens us),
         u_cached_input_tokens = sum_list (map u_cached_input_tokens us),
         u_reasoning_tokens = sum_list (map u_reasoning_tokens us),
         u_cost_usd = (if known
            then Some (sum_list (map (\<lambda>u. case u_cost_usd u of None \<Rightarrow> 0 | Some x \<Rightarrow> x) us)) else None),
         u_cost_known = known,
         u_elapsed_seconds = elapsed c (re_created_at owner)\<rparr>))"

section \<open>Checks\<close>

definition over_wall_time :: "budget_clock \<Rightarrow> ledger \<Rightarrow> string \<Rightarrow> string \<Rightarrow> unit res" where
  "over_wall_time c l run target =
     bindR (run_entry_of l target) (\<lambda>e.
     case bp_max_wall_time_seconds (re_policy e) of
       None \<Rightarrow> Ok ()
     | Some limit \<Rightarrow>
         (let t = elapsed_for c target (re_created_at e) in
          if limit \<le> t
          then Raise (BudgetExceededError (dim_code ELAPSED_SECONDS) (dim_name ELAPSED_SECONDS) limit t run)
          else Ok ()))"

definition check_wall_time :: "budget_clock \<Rightarrow> ledger \<Rightarrow> string \<Rightarrow> unit res" where
  "check_wall_time c l run =
     bindR (over_wall_time c l run run) (\<lambda>_. over_wall_time c l run (lg_owner l))"

definition check_limit :: "string \<Rightarrow> dimension \<Rightarrow> rat \<Rightarrow> run_usage \<Rightarrow> budget_policy \<Rightarrow> unit res" where
  "check_limit run d amount usage policy =
     (case limit_of policy d of
        None \<Rightarrow> Ok ()
      | Some limit \<Rightarrow>
          (let used = usage_dimension usage d;
               projected = used + amount;
               exhausted = (if amount = 0 then limit \<le> projected else limit < projected)
           in if exhausted
              then Raise (BudgetExceededError (dim_code d) (dim_name d) limit used run)
              else Ok ()))"

definition preflight :: "budget_clock \<Rightarrow> ledger \<Rightarrow> string \<Rightarrow> dimension \<Rightarrow> rat \<Rightarrow> unit res" where
  "preflight c l run d amount =
     bindR (check_wall_time c l run) (\<lambda>_.
     bindR (usage_of c True l run) (\<lambda>local.
     bindR (aggregate_usage c True l) (\<lambda>total.
     bindR (run_entry_of l run) (\<lambda>e.
     bindR (run_entry_of l (lg_owner l)) (\<lambda>owner.
     bindR (check_limit run d amount local (re_policy e)) (\<lambda>_.
     check_limit run d amount total (re_policy owner)))))))"

definition exceeded :: "run_usage \<Rightarrow> budget_policy \<Rightarrow> dimension \<Rightarrow> bool" where
  "exceeded usage policy d \<longleftrightarrow> d \<noteq> ELAPSED_SECONDS \<and>
     (case limit_of policy d of None \<Rightarrow> False | Some limit \<Rightarrow> limit < usage_dimension usage d)"

text \<open>
  \<open>first_violation\<close> returns the error and, as the code keeps it in the error object, its
  dimension.
\<close>

definition first_violation :: "budget_clock \<Rightarrow> ledger \<Rightarrow> string \<Rightarrow> (dimension \<times> exn) option res" where
  "first_violation c l run =
     bindR (usage_of c False l run) (\<lambda>local.
     bindR (run_entry_of l run) (\<lambda>e.
     bindR (aggregate_usage c False l) (\<lambda>total.
     bindR (run_entry_of l (lg_owner l)) (\<lambda>owner.
     let pick = (\<lambda>usage policy. map_option (\<lambda>d. (d, BudgetExceededError (dim_code d) (dim_name d)
                     (the (limit_of policy d)) (usage_dimension usage d) run))
                   (find (exceeded usage policy) dimensions))
     in Ok (case pick local (re_policy e) of
              Some v \<Rightarrow> Some v | None \<Rightarrow> pick total (re_policy owner))))))"

definition near_limit :: "run_usage \<Rightarrow> budget_policy \<Rightarrow> dimension \<Rightarrow> bool" where
  "near_limit usage policy d \<longleftrightarrow>
     (case limit_of policy d of None \<Rightarrow> False
      | Some limit \<Rightarrow> limit * bp_soft_limit_ratio policy \<le> usage_dimension usage d)"

definition mark_soft_target :: "budget_clock \<Rightarrow> string \<Rightarrow> ledger \<Rightarrow> ledger res" where
  "mark_soft_target c target l =
     bindR (run_entry_of l target) (\<lambda>e.
     bindR (if target = lg_owner l then aggregate_usage c True l else usage_of c True l target) (\<lambda>usage.
     Ok (change_run target (\<lambda>e. e\<lparr>re_soft_dimensions :=
           sort (filter (near_limit usage (re_policy e)) dimensions)\<rparr>) l)))"

text \<open>
  \<^verbatim>\<open>_mark_soft\<close>. The targets are a set in the code; the marks of one target do not depend on
  the other's, so their order does not matter.
\<close>

definition mark_soft :: "budget_clock \<Rightarrow> string \<Rightarrow> ledger \<Rightarrow> ledger res" where
  "mark_soft c run l =
     bindR (mark_soft_target c run l) (\<lambda>l1.
     if run = lg_owner l then Ok l1 else mark_soft_target c (lg_owner l) l1)"

definition mark_owner_hard_if_exhausted :: "budget_clock \<Rightarrow> dimension \<Rightarrow> ledger \<Rightarrow> ledger res" where
  "mark_owner_hard_if_exhausted c d l =
     bindR (run_entry_of l (lg_owner l)) (\<lambda>owner.
     case limit_of (re_policy owner) d of
       None \<Rightarrow> Ok l
     | Some limit \<Rightarrow>
         bindR (aggregate_usage c False l) (\<lambda>total.
         Ok (if limit \<le> usage_dimension total d
             then change_run (lg_owner l) (\<lambda>e. e\<lparr>re_hard_dimension := Some d\<rparr>) l else l)))"

section \<open>The callbacks\<close>

definition change_usage :: "string \<Rightarrow> (counters \<Rightarrow> counters) \<Rightarrow> ledger \<Rightarrow> ledger" where
  "change_usage run f = change_run run (\<lambda>e. e\<lparr>re_usage := f (re_usage e)\<rparr>)"

definition put_op :: "string \<Rightarrow> operation \<Rightarrow> ledger \<Rightarrow> ledger" where
  "put_op i q l = l\<lparr>lg_ops := dict_set i q (lg_ops l)\<rparr>"

text \<open>\<^verbatim>\<open>initialize\<close>\<close>

definition register_run :: "string \<Rightarrow> budget_policy \<Rightarrow> string \<Rightarrow> pricing option \<Rightarrow> ledger \<Rightarrow> ledger res" where
  "register_run run policy created_at price l =
     Ok (l\<lparr>lg_runs := dict_setdefault run
        \<lparr>re_policy = policy, re_created_at = created_at, re_pricing = price,
         re_usage = empty_usage (price \<noteq> None), re_soft_dimensions = [], re_hard_dimension = None\<rparr>
        (lg_runs l)\<rparr>)"

text \<open>\<^verbatim>\<open>_consume_discrete\<close> with the dimensions \<^verbatim>\<open>steps\<close> and \<^verbatim>\<open>tool_calls\<close>\<close>

fun discrete_dimension :: "op_kind \<Rightarrow> dimension" where
  "discrete_dimension StepOp = STEPS"
| "discrete_dimension ToolOp = TOOL_CALLS"
| "discrete_dimension ModelOp = MODEL_CALLS"

fun count_one :: "op_kind \<Rightarrow> counters \<Rightarrow> counters" where
  "count_one StepOp u = u\<lparr>n_steps := n_steps u + 1\<rparr>"
| "count_one ToolOp u = u\<lparr>n_tool_calls := n_tool_calls u + 1\<rparr>"
| "count_one ModelOp u = u\<lparr>n_model_calls := n_model_calls u + 1\<rparr>"

definition consume_discrete :: "budget_clock \<Rightarrow> string \<Rightarrow> string \<Rightarrow> op_kind \<Rightarrow> ledger \<Rightarrow> ledger res" where
  "consume_discrete c run i kind l =
     (if map_of (lg_ops l) i \<noteq> None then Ok l
      else
        bindR (preflight c l run (discrete_dimension kind) 1) (\<lambda>_.
        bindR (run_entry_of l run) (\<lambda>_.
        mark_soft c run
          (put_op i \<lparr>op_run_id = run, op_kind = kind, op_status = Completed 0 0 0 0\<rparr>
             (change_usage run (count_one kind) l)))))"

definition reserve_model_call :: "budget_clock \<Rightarrow> string \<Rightarrow> string \<Rightarrow> int \<Rightarrow> ledger \<Rightarrow> ledger res" where
  "reserve_model_call c run i estimated_input_tokens l =
     (if map_of (lg_ops l) i \<noteq> None then Ok l
      else
        let estimate = max 0 estimated_input_tokens in
        bindR (preflight c l run MODEL_CALLS 1) (\<lambda>_.
        bindR (preflight c l run INPUT_TOKENS (of_int estimate)) (\<lambda>_.
        bindR (preflight c l run OUTPUT_TOKENS 0) (\<lambda>_.
        bindR (preflight c l run TOTAL_TOKENS (of_int estimate)) (\<lambda>_.
        bindR (run_entry_of l run) (\<lambda>e.
        let cost = map_option (\<lambda>p. pricing_cost p estimate 0 0) (re_pricing e) in
        bindR (case cost of None \<Rightarrow> Ok () | Some x \<Rightarrow> preflight c l run COST_USD x) (\<lambda>_.
        mark_soft c run
          (put_op i \<lparr>op_run_id = run, op_kind = ModelOp, op_status = Reserved estimate cost\<rparr>
             (change_usage run (count_one ModelOp) l)))))))))"

definition charge_tokens :: "pricing option \<Rightarrow> int \<Rightarrow> int \<Rightarrow> int \<Rightarrow> int \<Rightarrow> counters \<Rightarrow> counters" where
  "charge_tokens price inp out cached reasoning u =
     (let u1 = u\<lparr>n_input_tokens := n_input_tokens u + inp, n_output_tokens := n_output_tokens u + out,
                 n_cached_input_tokens := n_cached_input_tokens u + cached,
                 n_reasoning_tokens := n_reasoning_tokens u + reasoning\<rparr>
      in case price of
           None \<Rightarrow> u1
         | Some p \<Rightarrow> u1\<lparr>n_cost_usd := Some ((case n_cost_usd u of None \<Rightarrow> 0 | Some x \<Rightarrow> x)
                                             + pricing_cost p inp out cached),
                        n_cost_known := True\<rparr>)"

text \<open>\<^verbatim>\<open>complete_model_call\<close>: the changed ledger and the violations appended for the caller.\<close>

definition complete_model_call :: "budget_clock \<Rightarrow> string \<Rightarrow> string \<Rightarrow> int \<Rightarrow> int \<Rightarrow> int \<Rightarrow> int
    \<Rightarrow> ledger \<Rightarrow> (ledger \<times> exn list) res" where
  "complete_model_call c run i input_tokens output_tokens cached_input_tokens reasoning_tokens l =
     (case map_of (lg_ops l) i of
        None \<Rightarrow> Raise (RuntimeErr (''model budget reservation not found: '' @ i))
      | Some q \<Rightarrow>
          (case op_status q of
             Completed _ _ _ _ \<Rightarrow> Ok (l, [])
           | Reserved _ _ \<Rightarrow>
               bindR (run_entry_of l run) (\<lambda>e.
               let inp = max 0 input_tokens; out = max 0 output_tokens;
                   cached = min (max 0 cached_input_tokens) inp;
                   reasoning = max 0 reasoning_tokens;
                   l1 = put_op i (q\<lparr>op_status := Completed inp out cached reasoning\<rparr>)
                          (change_usage run (charge_tokens (re_pricing e) inp out cached reasoning) l)
               in bindR (first_violation c l1 run) (\<lambda>v.
                  case v of
                    None \<Rightarrow> bindR (mark_soft c run l1) (\<lambda>l2. Ok (l2, []))
                  | Some (d, err) \<Rightarrow>
                      bindR (mark_owner_hard_if_exhausted c d
                               (change_run run (\<lambda>e. e\<lparr>re_hard_dimension := Some d\<rparr>) l1)) (\<lambda>l2.
                      bindR (mark_soft c run l2) (\<lambda>l3. Ok (l3, [err])))))))"

definition record_hard_limit :: "budget_clock \<Rightarrow> string \<Rightarrow> dimension \<Rightarrow> ledger \<Rightarrow> ledger res" where
  "record_hard_limit c run d l =
     bindR (run_entry_of l run) (\<lambda>_.
     mark_owner_hard_if_exhausted c d
       (change_run run (\<lambda>e. e\<lparr>re_hard_dimension := Some d\<rparr>) l))"

end
