(* ===== verification/BudgetInvariants.thy ===== *)
theory BudgetInvariants
  imports BudgetLedger
begin

text \<open>
  Facts about the callbacks of the budget ledger that its guarantees share: marks do not
  touch the accounts, what a passed preflight says about the counters, and the invariant of
  every reachable ledger.
\<close>

section \<open>Accounts\<close>

text \<open>What of an entry the accounting depends on; the marks are left out.\<close>

definition account :: "string \<times> run_entry \<Rightarrow> string \<times> budget_policy \<times> string \<times> pricing option \<times> counters" where
  "account ke = (fst ke, re_policy (snd ke), re_created_at (snd ke), re_pricing (snd ke), re_usage (snd ke))"

definition same_accounts :: "ledger \<Rightarrow> ledger \<Rightarrow> bool" where
  "same_accounts l l' \<longleftrightarrow> lg_owner l' = lg_owner l \<and> lg_ops l' = lg_ops l \<and>
     map account (lg_runs l') = map account (lg_runs l)"

lemma same_accounts_refl [simp]: "same_accounts l l"
  by (simp add: same_accounts_def)

lemma same_accounts_trans: "same_accounts a b \<Longrightarrow> same_accounts b c \<Longrightarrow> same_accounts a c"
  by (simp add: same_accounts_def)

lemma same_accounts_change_run:
  assumes "\<And>e. re_policy (f e) = re_policy e \<and> re_created_at (f e) = re_created_at e \<and>
     re_pricing (f e) = re_pricing e \<and> re_usage (f e) = re_usage e"
  shows "same_accounts l (change_run run f l)"
  using assms by (auto simp: same_accounts_def change_run_def account_def comp_def)

lemma mark_soft_target_accounts: "mark_soft_target c t l = Ok l' \<Longrightarrow> same_accounts l l'"
  by (auto simp: mark_soft_target_def bindR_Ok_iff intro!: same_accounts_change_run)

lemma mark_soft_accounts: "mark_soft c run l = Ok l' \<Longrightarrow> same_accounts l l'"
  using mark_soft_target_accounts same_accounts_trans
  unfolding mark_soft_def bindR_Ok_iff by (fastforce split: if_splits)

lemma mark_owner_hard_accounts: "mark_owner_hard_if_exhausted c d l = Ok l' \<Longrightarrow> same_accounts l l'"
  by (auto simp: mark_owner_hard_if_exhausted_def bindR_Ok_iff split: option.splits if_splits
      intro!: same_accounts_change_run)

lemma hard_mark_accounts [simp]:
  "same_accounts l (change_run run (\<lambda>e. e\<lparr>re_hard_dimension := Some d\<rparr>) l)"
  by (rule same_accounts_change_run) simp

definition usages :: "ledger \<Rightarrow> counters list" where
  "usages l = map (\<lambda>ke. re_usage (snd ke)) (lg_runs l)"

definition usage_in :: "ledger \<Rightarrow> string \<Rightarrow> (budget_policy \<times> counters) option" where
  "usage_in l run = map_option (\<lambda>e. (re_policy e, re_usage e)) (map_of (lg_runs l) run)"

lemma accounts_determine:
  "map (\<lambda>ke. re_usage (snd ke)) rs = map (\<lambda>(k, p, cr, pr, u). u) (map account rs)"
  "dict_keys rs = map fst (map account rs)"
  "map_option (\<lambda>e. (re_policy e, re_usage e)) (map_of rs run) =
     map_option (\<lambda>(p, cr, pr, u). (p, u)) (map_of (map account rs) run)"
  by (induction rs) (auto simp: account_def)

lemma same_accounts_determine:
  assumes "same_accounts l l'"
  shows "usages l' = usages l" "dict_keys (lg_runs l') = dict_keys (lg_runs l)"
    "usage_in l' run = usage_in l run"
  using assms accounts_determine[of "lg_runs l"] accounts_determine[of "lg_runs l'"]
  by (simp_all only: same_accounts_def usages_def usage_in_def)

lemma sum_change:
  fixes h :: "run_entry \<Rightarrow> int"
  shows "distinct (dict_keys rs) \<Longrightarrow> map_of rs run = Some e \<Longrightarrow>
    sum_list (map (\<lambda>ke. h (snd ke)) (map (\<lambda>(k, e). (k, if k = run then g e else e)) rs)) =
    sum_list (map (\<lambda>ke. h (snd ke)) rs) + h (g e) - h e"
proof (induction rs)
  case (Cons ke rs)
  have same: "map (\<lambda>(k, e). (k, if k = run then g e else e)) rs = rs" if "run \<notin> fst ` set rs"
    using that by (induction rs) auto
  show ?case
  proof (cases "fst ke = run")
    case True
    with Cons.prems have "run \<notin> fst ` set rs" "snd ke = e" by (cases ke; simp)+
    with True same show ?thesis by (cases ke) simp
  next
    case False
    with Cons show ?thesis by (cases ke) simp
  qed
qed simp

lemma sum_usages_change:
  fixes h :: "counters \<Rightarrow> int"
  assumes "distinct (dict_keys (lg_runs l))" "usage_in l run = Some (p, u)"
  shows "sum_list (map h (usages (change_usage run f l))) = sum_list (map h (usages l)) + h (f u) - h u"
proof -
  obtain e where e: "map_of (lg_runs l) run = Some e" "re_usage e = u"
    using assms(2) by (auto simp: usage_in_def)
  from sum_change[OF assms(1) e(1), of "\<lambda>e. h (re_usage e)" "\<lambda>e. e\<lparr>re_usage := f (re_usage e)\<rparr>"] e(2)
  show ?thesis by (simp add: usages_def change_usage_def change_run_def comp_def)
qed

section \<open>Counters and limits\<close>

fun count_of :: "op_kind \<Rightarrow> counters \<Rightarrow> int" where
  "count_of StepOp u = n_steps u"
| "count_of ToolOp u = n_tool_calls u"
| "count_of ModelOp u = n_model_calls u"

lemma count_one_count: "count_of kind (count_one kind' u) = count_of kind u + (if kind = kind' then 1 else 0)"
  by (cases kind; cases kind') simp_all

lemma charge_tokens_keeps [simp]: "count_of kind (charge_tokens price inp out cached r u) = count_of kind u"
  by (cases kind) (simp_all add: charge_tokens_def Let_def split: option.splits)

lemma count_one_keeps [simp]:
  "n_input_tokens (count_one kind u) = n_input_tokens u" "n_output_tokens (count_one kind u) = n_output_tokens u"
  by (cases kind; simp)+

lemma charge_tokens_tokens [simp]:
  "n_input_tokens (charge_tokens price inp out cached r u) = n_input_tokens u + inp"
  "n_output_tokens (charge_tokens price inp out cached r u) = n_output_tokens u + out"
  by (simp_all add: charge_tokens_def Let_def split: option.splits)

definition total_of :: "(counters \<Rightarrow> int) \<Rightarrow> ledger \<Rightarrow> int" where
  "total_of h l = sum_list (map h (usages l))"

lemma run_entry_of_Ok: "run_entry_of l run = Ok e \<longleftrightarrow> map_of (lg_runs l) run = Some e"
  by (auto simp: run_entry_of_def split: option.splits)

definition all_usages :: "budget_clock \<Rightarrow> bool \<Rightarrow> ledger \<Rightarrow> run_usage list" where
  "all_usages c res l = map (\<lambda>ke. entry_usage c res l (fst ke) (snd ke)) (lg_runs l)"

lemma mapR_all_Ok: "(\<And>x. x \<in> set xs \<Longrightarrow> f x = Ok (g x)) \<Longrightarrow> mapR f xs = Ok (map g xs)"
  by (induction xs) auto

lemma mapR_usages:
  assumes "distinct (dict_keys (lg_runs l))"
  shows "mapR (usage_of c res l) (dict_keys (lg_runs l)) = Ok (all_usages c res l)"
proof -
  have "mapR (usage_of c res l) (dict_keys (lg_runs l)) =
      Ok (map (\<lambda>k. entry_usage c res l k (the (map_of (lg_runs l) k))) (dict_keys (lg_runs l)))"
    by (rule mapR_all_Ok) (auto simp: usage_of_def run_entry_of_def key_iff_map_of split: option.splits)
  also have "\<dots> = Ok (all_usages c res l)"
    using assms by (force simp: all_usages_def map_of_Some_iff_set)
  finally show ?thesis .
qed

lemma aggregate_usage_Ok:
  assumes "distinct (dict_keys (lg_runs l))" "aggregate_usage c res l = Ok t"
  shows "u_steps t = total_of n_steps l" "u_model_calls t = total_of n_model_calls l"
    "u_tool_calls t = total_of n_tool_calls l"
    "u_input_tokens t = sum_list (map u_input_tokens (all_usages c res l))"
    "u_output_tokens t = total_of n_output_tokens l"
    "u_cost_usd t = (if all_usages c res l \<noteq> [] \<and> list_all u_cost_known (all_usages c res l)
       then Some (sum_list (map (\<lambda>u. case u_cost_usd u of None \<Rightarrow> 0 | Some x \<Rightarrow> x) (all_usages c res l)))
       else None)"
    "\<exists>e. map_of (lg_runs l) (lg_owner l) = Some e"
  using assms(2)
  by (auto simp: aggregate_usage_def mapR_usages[OF assms(1)] bindR_Ok_iff run_entry_of_Ok Let_def
      total_of_def usages_def all_usages_def entry_usage_def comp_def)

lemma aggregate_discrete:
  assumes "distinct (dict_keys (lg_runs l))" "aggregate_usage c res l = Ok t"
  shows "usage_dimension t (discrete_dimension kind) = of_int (total_of (count_of kind) l)"
proof -
  have "count_of StepOp = n_steps" "count_of ToolOp = n_tool_calls" "count_of ModelOp = n_model_calls"
    by (simp_all add: fun_eq_iff)
  then show ?thesis using aggregate_usage_Ok[OF assms] by (cases kind) simp_all
qed

lemma local_discrete:
  "usage_dimension (entry_usage c res l run e) (discrete_dimension kind) = of_int (count_of kind (re_usage e))"
  by (cases kind) (simp_all add: entry_usage_def Let_def)

lemma check_limit_Ok:
  "check_limit run d a u p = Ok x \<longleftrightarrow> (case limit_of p d of None \<Rightarrow> True | Some m \<Rightarrow>
     if a = 0 then usage_dimension u d < m else usage_dimension u d + a \<le> m)"
  by (auto simp: check_limit_def Let_def split: option.splits)

lemma preflight_Ok:
  assumes "preflight c l run d a = Ok x"
  obtains e owner t where "map_of (lg_runs l) run = Some e" "map_of (lg_runs l) (lg_owner l) = Some owner"
    "aggregate_usage c True l = Ok t"
    "check_limit run d a (entry_usage c True l run e) (re_policy e) = Ok ()"
    "check_limit run d a t (re_policy owner) = Ok ()"
  using assms by (auto simp: preflight_def bindR_Ok_iff run_entry_of_Ok usage_of_def)

lemma preflight_discrete:
  assumes "distinct (dict_keys (lg_runs l))" "preflight c l run (discrete_dimension kind) 1 = Ok x"
  shows "\<exists>p u po uo. usage_in l run = Some (p, u) \<and> usage_in l (lg_owner l) = Some (po, uo) \<and>
    (\<forall>m. limit_of p (discrete_dimension kind) = Some m \<longrightarrow> of_int (count_of kind u) + 1 \<le> m) \<and>
    (\<forall>m. limit_of po (discrete_dimension kind) = Some m \<longrightarrow> of_int (total_of (count_of kind) l) + 1 \<le> m)"
  using assms(2)
  by (rule preflight_Ok)
    (auto simp: check_limit_Ok local_discrete aggregate_discrete[OF assms(1)] usage_in_def)

section \<open>Operations\<close>

definition ops_sum :: "(operation \<Rightarrow> int) \<Rightarrow> ledger \<Rightarrow> int" where
  "ops_sum h l = sum_list (map h (dict_values (lg_ops l)))"

lemma ops_sum_fresh:
  "map_of (lg_ops l) i = None \<Longrightarrow> ops_sum h (put_op i q l) = ops_sum h l + h q"
  by (simp add: ops_sum_def put_op_def dict_keys_set_fresh map_of_eq_None_iff)

lemma sum_dict_set:
  "map_of d i = Some q0 \<Longrightarrow>
   sum_list (map h (dict_values (dict_set i q d))) = sum_list (map h (dict_values d)) + h q - (h q0 :: int)"
  by (induction d) (auto split: if_splits)

lemma ops_sum_replace:
  "map_of (lg_ops l) i = Some q0 \<Longrightarrow> ops_sum h (put_op i q l) = ops_sum h l + h q - h q0"
  using sum_dict_set[of "lg_ops l" i q0 h q] by (simp add: ops_sum_def put_op_def)

definition charge :: "string \<Rightarrow> op_kind \<Rightarrow> operation \<Rightarrow> int" where
  "charge run kind q = (if op_run_id q = run \<and> op_kind q = kind then 1 else 0)"

fun completed_input :: "op_status \<Rightarrow> int" where
  "completed_input (Completed inp out cached r) = inp"
| "completed_input (Reserved _ _) = 0"

fun completed_output :: "op_status \<Rightarrow> int" where
  "completed_output (Completed inp out cached r) = out"
| "completed_output (Reserved _ _) = 0"

section \<open>The invariant of a ledger\<close>

definition keys_ok :: "ledger \<Rightarrow> bool" where
  "keys_ok l \<longleftrightarrow> distinct (dict_keys (lg_runs l)) \<and> distinct (dict_keys (lg_ops l))"

text \<open>No counter of calls or steps is over its limit, in a run or in the family of the owner.\<close>

definition limits_ok :: "ledger \<Rightarrow> bool" where
  "limits_ok l \<longleftrightarrow>
     (\<forall>run p u kind m. usage_in l run = Some (p, u) \<longrightarrow> limit_of p (discrete_dimension kind) = Some m \<longrightarrow>
        of_int (count_of kind u) \<le> m) \<and>
     (\<forall>p u kind m. usage_in l (lg_owner l) = Some (p, u) \<longrightarrow> limit_of p (discrete_dimension kind) = Some m \<longrightarrow>
        of_int (total_of (count_of kind) l) \<le> m)"

text \<open>
  Every counter of calls or steps is the number of operations charged to it, and the tokens
  of the family are the tokens of its completed operations. Before the owner is registered
  nothing is charged.
\<close>

definition run_count :: "ledger \<Rightarrow> string \<Rightarrow> op_kind \<Rightarrow> int" where
  "run_count l run kind = (case usage_in l run of None \<Rightarrow> 0 | Some (p, u) \<Rightarrow> count_of kind u)"

definition accounts_ok :: "ledger \<Rightarrow> bool" where
  "accounts_ok l \<longleftrightarrow>
     (\<forall>run kind. run_count l run kind = ops_sum (charge run kind) l) \<and>
     total_of n_input_tokens l = ops_sum (\<lambda>q. completed_input (op_status q)) l \<and>
     total_of n_output_tokens l = ops_sum (\<lambda>q. completed_output (op_status q)) l \<and>
     (usage_in l (lg_owner l) = None \<longrightarrow>
        lg_ops l = [] \<and> (\<forall>kind. total_of (count_of kind) l = 0))"

definition ledger_inv :: "ledger \<Rightarrow> bool" where
  "ledger_inv l \<longleftrightarrow> keys_ok l \<and> limits_ok l \<and> accounts_ok l"

lemma ledger_inv_same: "same_accounts l l' \<Longrightarrow> ledger_inv l' = ledger_inv l"
  using same_accounts_determine[of l l']
  by (simp add: ledger_inv_def keys_ok_def limits_ok_def accounts_ok_def run_count_def total_of_def
      ops_sum_def same_accounts_def)

lemma put_op_simps [simp]:
  "usage_in (put_op i q l) run = usage_in l run" "lg_owner (put_op i q l) = lg_owner l"
  "usages (put_op i q l) = usages l" "lg_runs (put_op i q l) = lg_runs l"
  "total_of h (put_op i q l) = total_of h l"
  by (simp_all add: put_op_def usage_in_def usages_def total_of_def)

lemma map_of_change: "map_of (map (\<lambda>(k, e). (k, if k = run then f e else e)) rs) k =
    (if k = run then map_option f (map_of rs k) else map_of rs k)"
  by (induction rs) auto

lemma change_usage_simps [simp]:
  "usage_in (change_usage run f l) k =
     (if k = run then map_option (\<lambda>(p, u). (p, f u)) (usage_in l run) else usage_in l k)"
  "lg_owner (change_usage run f l) = lg_owner l" "lg_ops (change_usage run f l) = lg_ops l"
  "dict_keys (lg_runs (change_usage run f l)) = dict_keys (lg_runs l)"
  by (auto simp: change_usage_def change_run_def usage_in_def map_of_change option.map_comp comp_def
      case_prod_beta)

lemma total_change_usage:
  assumes "distinct (dict_keys (lg_runs l))" "usage_in l run = Some (p, u)"
  shows "total_of h (change_usage run f l) = total_of h l + h (f u) - h u"
  using sum_usages_change[OF assms] by (simp add: total_of_def)

lemma ops_sum_change_usage [simp]: "ops_sum h (change_usage run f l) = ops_sum h l"
  by (simp add: ops_sum_def)

lemma fresh_ledger_inv: "ledger_inv (fresh_ledger owner)"
  by (simp add: ledger_inv_def keys_ok_def limits_ok_def accounts_ok_def run_count_def usage_in_def
      fresh_ledger_def total_of_def usages_def ops_sum_def)

text \<open>Charging one unit to a run that passed its preflight.\<close>

lemma charge_inv:
  assumes inv: "ledger_inv l" and fresh: "map_of (lg_ops l) i = None"
    and pre: "preflight c l run (discrete_dimension kind) 1 = Ok x"
    and tokens: "completed_input st = 0" "completed_output st = 0"
  shows "ledger_inv (put_op i \<lparr>op_run_id = run, op_kind = kind, op_status = st\<rparr>
           (change_usage run (count_one kind) l))" (is "ledger_inv ?l")
proof -
  have keys: "distinct (dict_keys (lg_runs l))" "distinct (dict_keys (lg_ops l))"
    using inv by (auto simp: ledger_inv_def keys_ok_def)
  obtain p u po uo where u: "usage_in l run = Some (p, u)" "usage_in l (lg_owner l) = Some (po, uo)"
    and local: "\<And>m. limit_of p (discrete_dimension kind) = Some m \<Longrightarrow> of_int (count_of kind u) + 1 \<le> m"
    and total: "\<And>m. limit_of po (discrete_dimension kind) = Some m \<Longrightarrow>
      of_int (total_of (count_of kind) l) + 1 \<le> m"
    using preflight_discrete[OF keys(1) pre] by blast
  note tot = total_change_usage[OF keys(1) u(1)]
  have "keys_ok ?l" using keys by (auto simp: keys_ok_def put_op_def)
  moreover have "limits_ok ?l"
    unfolding limits_ok_def
  proof (intro conjI allI impI)
    fix r p' u' k m
    assume a: "usage_in ?l r = Some (p', u')" "limit_of p' (discrete_dimension k) = Some m"
    show "of_int (count_of k u') \<le> m"
    proof (cases "r = run")
      case True
      with a u have eq: "p' = p" "u' = count_one kind u" by auto
      show ?thesis
      proof (cases "k = kind")
        case True
        with a eq local[of m] show ?thesis by (simp add: count_one_count)
      next
        case False
        with a eq u inv show ?thesis by (auto simp: count_one_count ledger_inv_def limits_ok_def)
      qed
    next
      case False
      with a inv show ?thesis by (auto simp: ledger_inv_def limits_ok_def)
    qed
  next
    fix p' u' k m
    assume a: "usage_in ?l (lg_owner ?l) = Some (p', u')" "limit_of p' (discrete_dimension k) = Some m"
    with u have "p' = po" by (auto split: if_splits)
    with a total[of m] inv u show "of_int (total_of (count_of k) ?l) \<le> m"
      by (cases "k = kind") (auto simp: tot count_one_count ledger_inv_def limits_ok_def)
  qed
  moreover have "accounts_ok ?l"
    using inv u fresh tokens
    by (auto simp: accounts_ok_def ledger_inv_def run_count_def tot ops_sum_fresh charge_def
        count_one_count split: option.splits)
  ultimately show ?thesis by (simp add: ledger_inv_def)
qed

section \<open>Every operation keeps the invariant\<close>

inductive ledger_step :: "ledger \<Rightarrow> ledger \<Rightarrow> bool" where
  register: "RunBudgetPolicy p = Ok p \<Longrightarrow> register_run run p created price l = Ok l' \<Longrightarrow> ledger_step l l'"
| consume: "kind \<in> {StepOp, ToolOp} \<Longrightarrow> consume_discrete c run i kind l = Ok l' \<Longrightarrow> ledger_step l l'"
| reserve: "reserve_model_call c run i estimate l = Ok l' \<Longrightarrow> ledger_step l l'"
| complete: "complete_model_call c run i inp out cached reasoning l = Ok (l', vs) \<Longrightarrow> ledger_step l l'"
| hard: "record_hard_limit c run d l = Ok l' \<Longrightarrow> ledger_step l l'"

inductive ledger_reachable :: "string \<Rightarrow> ledger \<Rightarrow> bool" for owner where
  start: "ledger_reachable owner (fresh_ledger owner)"
| step: "ledger_reachable owner l \<Longrightarrow> ledger_step l l' \<Longrightarrow> ledger_reachable owner l'"

lemma valid_policy_limits:
  "RunBudgetPolicy p = Ok p \<Longrightarrow> limit_of p (discrete_dimension kind) = Some m \<Longrightarrow> 0 \<le> m"
  by (cases kind) (auto simp: RunBudgetPolicy_def positive_or_null_def bindR_Ok_iff)

lemma consume_charges:
  assumes "consume_discrete c run i kind l = Ok l'" "map_of (lg_ops l) i = None"
  shows "preflight c l run (discrete_dimension kind) 1 = Ok ()"
    "same_accounts (put_op i \<lparr>op_run_id = run, op_kind = kind, op_status = Completed 0 0 0 0\<rparr>
       (change_usage run (count_one kind) l)) l'"
  using assms by (auto simp: consume_discrete_def bindR_Ok_iff dest: mark_soft_accounts)

lemma reserve_charges:
  assumes "reserve_model_call c run i estimate l = Ok l'" "map_of (lg_ops l) i = None"
  obtains cost e where "preflight c l run MODEL_CALLS 1 = Ok ()"
    "preflight c l run INPUT_TOKENS (of_int (max 0 estimate)) = Ok ()"
    "preflight c l run OUTPUT_TOKENS 0 = Ok ()"
    "preflight c l run TOTAL_TOKENS (of_int (max 0 estimate)) = Ok ()"
    "map_of (lg_runs l) run = Some e"
    "cost = map_option (\<lambda>p. pricing_cost p (max 0 estimate) 0 0) (re_pricing e)"
    "\<And>x. cost = Some x \<Longrightarrow> preflight c l run COST_USD x = Ok ()"
    "same_accounts (put_op i \<lparr>op_run_id = run, op_kind = ModelOp, op_status = Reserved (max 0 estimate) cost\<rparr>
       (change_usage run (count_one ModelOp) l)) l'"
proof -
  from assms obtain e where e: "preflight c l run MODEL_CALLS 1 = Ok ()"
    "preflight c l run INPUT_TOKENS (of_int (max 0 estimate)) = Ok ()"
    "preflight c l run OUTPUT_TOKENS 0 = Ok ()"
    "preflight c l run TOTAL_TOKENS (of_int (max 0 estimate)) = Ok ()"
    "map_of (lg_runs l) run = Some e"
    and rest: "bindR (case map_option (\<lambda>p. pricing_cost p (max 0 estimate) 0 0) (re_pricing e) of
          None \<Rightarrow> Ok () | Some x \<Rightarrow> preflight c l run COST_USD x) (\<lambda>_.
        mark_soft c run (put_op i \<lparr>op_run_id = run, op_kind = ModelOp, op_status = Reserved (max 0 estimate)
            (map_option (\<lambda>p. pricing_cost p (max 0 estimate) 0 0) (re_pricing e))\<rparr>
             (change_usage run (count_one ModelOp) l))) = Ok l'"
    by (auto simp: reserve_model_call_def bindR_Ok_iff Let_def run_entry_of_Ok)
  show ?thesis
    by (rule that[OF e refl]) (use rest in \<open>auto simp: bindR_Ok_iff dest: mark_soft_accounts\<close>)
qed

lemma complete_changes:
  assumes "complete_model_call c run i inp out cached reasoning l = Ok (l', vs)"
    "map_of (lg_ops l) i = Some q" "op_status q = Reserved est cost"
  obtains e l1 v where "map_of (lg_runs l) run = Some e"
    "l1 = put_op i (q\<lparr>op_status := Completed (max 0 inp) (max 0 out)
        (min (max 0 cached) (max 0 inp)) (max 0 reasoning)\<rparr>)
       (change_usage run (charge_tokens (re_pricing e) (max 0 inp) (max 0 out)
          (min (max 0 cached) (max 0 inp)) (max 0 reasoning)) l)"
    "first_violation c l1 run = Ok v" "same_accounts l1 l'"
    "case v of None \<Rightarrow> vs = [] | Some (d, err) \<Rightarrow> vs = [err] \<and>
       (\<exists>l2. mark_owner_hard_if_exhausted c d
          (change_run run (\<lambda>e. e\<lparr>re_hard_dimension := Some d\<rparr>) l1) = Ok l2 \<and> mark_soft c run l2 = Ok l')"
proof -
  have step: "bindR (run_entry_of l run) (\<lambda>e.
       let l1 = put_op i (q\<lparr>op_status := Completed (max 0 inp) (max 0 out)
              (min (max 0 cached) (max 0 inp)) (max 0 reasoning)\<rparr>)
            (change_usage run (charge_tokens (re_pricing e) (max 0 inp) (max 0 out)
              (min (max 0 cached) (max 0 inp)) (max 0 reasoning)) l)
       in bindR (first_violation c l1 run) (\<lambda>v.
          case v of None \<Rightarrow> bindR (mark_soft c run l1) (\<lambda>l2. Ok (l2, []))
          | Some (d, err) \<Rightarrow> bindR (mark_owner_hard_if_exhausted c d
              (change_run run (\<lambda>e. e\<lparr>re_hard_dimension := Some d\<rparr>) l1)) (\<lambda>l2.
              bindR (mark_soft c run l2) (\<lambda>l3. Ok (l3, [err]))))) = Ok (l', vs)"
    using assms by (simp add: complete_model_call_def Let_def)
  then obtain e where e: "map_of (lg_runs l) run = Some e"
    unfolding bindR_Ok_iff run_entry_of_Ok by blast
  define l1 where "l1 = put_op i (q\<lparr>op_status := Completed (max 0 inp) (max 0 out)
        (min (max 0 cached) (max 0 inp)) (max 0 reasoning)\<rparr>)
       (change_usage run (charge_tokens (re_pricing e) (max 0 inp) (max 0 out)
          (min (max 0 cached) (max 0 inp)) (max 0 reasoning)) l)"
  have entry: "run_entry_of l run = Ok e" using e by (simp add: run_entry_of_Ok)
  have "bindR (first_violation c l1 run) (\<lambda>v.
      case v of None \<Rightarrow> bindR (mark_soft c run l1) (\<lambda>l2. Ok (l2, []))
      | Some (d, err) \<Rightarrow> bindR (mark_owner_hard_if_exhausted c d
          (change_run run (\<lambda>e. e\<lparr>re_hard_dimension := Some d\<rparr>) l1)) (\<lambda>l2.
          bindR (mark_soft c run l2) (\<lambda>l3. Ok (l3, [err])))) = Ok (l', vs)"
    using step unfolding entry by (simp only: bindR_Inr Let_def flip: l1_def)
  then obtain v where v: "first_violation c l1 run = Ok v"
    "(case v of None \<Rightarrow> bindR (mark_soft c run l1) (\<lambda>l2. Ok (l2, []))
      | Some (d, err) \<Rightarrow> bindR (mark_owner_hard_if_exhausted c d
          (change_run run (\<lambda>e. e\<lparr>re_hard_dimension := Some d\<rparr>) l1)) (\<lambda>l2.
          bindR (mark_soft c run l2) (\<lambda>l3. Ok (l3, [err])))) = Ok (l', vs)"
    unfolding bindR_Ok_iff[of "first_violation c l1 run"] by blast
  have marks: "(v = None \<and> vs = [] \<and> mark_soft c run l1 = Ok l') \<or>
     (\<exists>d err l2. v = Some (d, err) \<and> vs = [err] \<and> mark_owner_hard_if_exhausted c d
          (change_run run (\<lambda>e. e\<lparr>re_hard_dimension := Some d\<rparr>) l1) = Ok l2 \<and> mark_soft c run l2 = Ok l')"
    using v(2) by (auto simp: bindR_Ok_iff split: option.splits)
  then have "same_accounts l1 l'"
    using mark_soft_accounts mark_owner_hard_accounts same_accounts_trans hard_mark_accounts by metis
  with marks show ?thesis using that[OF e l1_def v(1)] by auto
qed

lemma register_inv:
  assumes "ledger_inv l" "RunBudgetPolicy p = Ok p" "register_run run p created price l = Ok l'"
  shows "ledger_inv l'"
proof (cases "map_of (lg_runs l) run")
  case (Some e)
  with assms show ?thesis by (simp add: register_run_def dict_setdefault_def)
next
  case None
  let ?e = "\<lparr>re_policy = p, re_created_at = created, re_pricing = price,
     re_usage = empty_usage (price \<noteq> None), re_soft_dimensions = [], re_hard_dimension = None\<rparr>"
  have l': "l' = l\<lparr>lg_runs := lg_runs l @ [(run, ?e)]\<rparr>"
    using assms(3) None by (simp add: register_run_def dict_setdefault_def dict_keys_set_fresh map_of_eq_None_iff)
  have usage: "usage_in l' k = (if k = run then Some (p, empty_usage (price \<noteq> None)) else usage_in l k)" for k
    using None by (auto simp: l' usage_in_def map_add_def split: option.splits)
  have zero: "count_of kind (empty_usage b) = 0" "n_input_tokens (empty_usage b) = 0"
    "n_output_tokens (empty_usage b) = 0" for kind b by (cases kind; simp add: empty_usage_def)+
  have total: "total_of (count_of kind) l' = total_of (count_of kind) l"
    "total_of n_input_tokens l' = total_of n_input_tokens l"
    "total_of n_output_tokens l' = total_of n_output_tokens l" for kind
    by (simp_all add: total_of_def usages_def l' zero)
  have absent: "usage_in l run = None" using None by (simp add: usage_in_def)
  have owner: "lg_owner l' = lg_owner l" "lg_ops l' = lg_ops l" "ops_sum h l' = ops_sum h l" for h
    by (simp_all add: l' ops_sum_def)
  have charges: "ops_sum (charge run kind) l = 0" for kind
    using assms(1) absent unfolding ledger_inv_def accounts_ok_def run_count_def by (metis option.case(1))
  have "keys_ok l'" using assms(1) None by (auto simp: ledger_inv_def keys_ok_def l' map_of_eq_None_iff)
  moreover have "limits_ok l'"
    using assms(1) valid_policy_limits[OF assms(2)] absent
    by (auto simp: ledger_inv_def limits_ok_def accounts_ok_def usage total zero owner)
  moreover have "accounts_ok l'"
    using assms(1) absent
    by (auto simp: ledger_inv_def accounts_ok_def run_count_def usage total zero owner charges)
  ultimately show ?thesis by (simp add: ledger_inv_def)
qed

lemma complete_inv:
  assumes inv: "ledger_inv l" and step: "complete_model_call c run i inp out cached reasoning l = Ok (l', vs)"
  shows "ledger_inv l'"
proof -
  obtain q where q: "map_of (lg_ops l) i = Some q"
    using step by (auto simp: complete_model_call_def split: option.splits)
  show ?thesis
  proof (cases "op_status q")
    case (Completed a b cc d)
    with step q inv show ?thesis by (simp add: complete_model_call_def)
  next
    case (Reserved est cost)
    obtain e l1 where e: "map_of (lg_runs l) run = Some e"
      and l1: "l1 = put_op i (q\<lparr>op_status := Completed (max 0 inp) (max 0 out)
        (min (max 0 cached) (max 0 inp)) (max 0 reasoning)\<rparr>)
       (change_usage run (charge_tokens (re_pricing e) (max 0 inp) (max 0 out)
          (min (max 0 cached) (max 0 inp)) (max 0 reasoning)) l)" "same_accounts l1 l'"
      by (rule complete_changes[OF step q Reserved])
    have keys: "distinct (dict_keys (lg_runs l))" using inv by (simp add: ledger_inv_def keys_ok_def)
    have u: "usage_in l run = Some (re_policy e, re_usage e)" using e by (simp add: usage_in_def)
    note tot = total_change_usage[OF keys u]
    have same: "ops_sum (charge r k) l1 = ops_sum (charge r k) l" for r k
      using q by (simp add: l1 ops_sum_replace charge_def)
    have "lg_ops l \<noteq> []" using q by auto
    then have "accounts_ok l1"
      using inv u q Reserved same
      by (auto simp: ledger_inv_def accounts_ok_def run_count_def l1 tot ops_sum_replace split: option.splits)
    moreover have "keys_ok l1" using inv by (auto simp: ledger_inv_def keys_ok_def l1 put_op_def)
    moreover have "limits_ok l1"
      using inv u by (auto simp: ledger_inv_def limits_ok_def l1 tot)
    ultimately have "ledger_inv l1" by (simp add: ledger_inv_def)
    with ledger_inv_same[OF l1(2)] show ?thesis by simp
  qed
qed

lemma ledger_step_inv: "ledger_step l l' \<Longrightarrow> ledger_inv l \<Longrightarrow> ledger_inv l'"
proof (induction rule: ledger_step.induct)
  case (register p run created price l l')
  then show ?case using register_inv by blast
next
  case (consume kind c run i l l')
  show ?case
  proof (cases "map_of (lg_ops l) i")
    case None
    note ch = consume_charges[OF consume(2) None]
    from charge_inv[OF consume(3) None ch(1), of "Completed 0 0 0 0"] ledger_inv_same[OF ch(2)]
    show ?thesis by simp
  next
    case (Some q)
    with consume show ?thesis by (simp add: consume_discrete_def)
  qed
next
  case (reserve c run i estimate l l')
  show ?case
  proof (cases "map_of (lg_ops l) i")
    case None
    show ?thesis
    proof (rule reserve_charges[OF reserve(1) None])
      fix cost
      assume "preflight c l run MODEL_CALLS 1 = Ok ()"
        and same: "same_accounts (put_op i \<lparr>op_run_id = run, op_kind = ModelOp,
          op_status = Reserved (max 0 estimate) cost\<rparr> (change_usage run (count_one ModelOp) l)) l'"
      then show ?thesis
        using charge_inv[OF reserve(2) None, of c run ModelOp "()" "Reserved (max 0 estimate) cost"]
          ledger_inv_same[OF same] by simp
    qed
  next
    case (Some q)
    with reserve show ?thesis by (simp add: reserve_model_call_def)
  qed
next
  case (complete c run i inp out cached reasoning l l' vs)
  then show ?case using complete_inv by blast
next
  case (hard c run d l l')
  then have "same_accounts l l'"
    using mark_owner_hard_accounts same_accounts_trans hard_mark_accounts
    unfolding record_hard_limit_def bindR_Ok_iff by blast
  with hard(2) ledger_inv_same show ?case by blast
qed

lemma ledger_reachable_inv: "ledger_reachable owner l \<Longrightarrow> ledger_inv l"
  by (induction rule: ledger_reachable.induct) (auto simp: fresh_ledger_inv ledger_step_inv)

end
