(* ===== verification/BudgetManager.thy ===== *)
theory BudgetManager
  imports BudgetLedger LedgerStore RunState
begin

text \<open>
  The operations of \<^verbatim>\<open>BudgetManager\<close> (\<^verbatim>\<open>runtime/budget.py\<close>) over any ledger store: each one runs a
  callback through the retry loop and reports a snapshot. Publishing the snapshot to the
  observability store is not modelled: it changes neither the ledger nor the outcome.
\<close>

section \<open>Snapshots\<close>

record budget_snapshot =
  bs_owner_run_id :: string
  bs_run_id :: string
  bs_policy :: budget_policy
  bs_local_usage :: run_usage
  bs_aggregate_usage :: run_usage
  bs_remaining :: "(dimension \<times> rat option) list"
  bs_aggregate_remaining :: "(dimension \<times> rat option) list"
  bs_soft_limit_reached :: bool
  bs_soft_dimensions :: "dimension list"
  bs_hard_limit_reached :: bool
  bs_exceeded_dimension :: "dimension option"

definition remaining_of :: "budget_policy \<Rightarrow> run_usage \<Rightarrow> (dimension \<times> rat option) list" where
  "remaining_of policy usage =
     map (\<lambda>d. (d, map_option (\<lambda>limit. max 0 (limit - usage_dimension usage d)) (limit_of policy d)))
       dimensions"

definition take_snapshot :: "budget_clock \<Rightarrow> ledger ledger_record \<Rightarrow> string \<Rightarrow> budget_snapshot res" where
  "take_snapshot c r run =
     (let l = lr_state r; owner_id = lr_owner_run_id r in
      bindR (run_entry_of l run) (\<lambda>e.
      bindR (usage_of c False l run) (\<lambda>local.
      bindR (aggregate_usage c False l) (\<lambda>total.
      bindR (run_entry_of l owner_id) (\<lambda>owner.
      let local' = local\<lparr>u_elapsed_seconds := elapsed_for c run (re_created_at e)\<rparr>;
          total' = total\<lparr>u_elapsed_seconds := elapsed_for c owner_id (re_created_at owner)\<rparr>
      in Ok \<lparr>bs_owner_run_id = owner_id, bs_run_id = run, bs_policy = re_policy e,
             bs_local_usage = local', bs_aggregate_usage = total',
             bs_remaining = remaining_of (re_policy e) local',
             bs_aggregate_remaining = remaining_of (re_policy owner) total',
             bs_soft_limit_reached = (re_soft_dimensions e \<noteq> []),
             bs_soft_dimensions = re_soft_dimensions e,
             bs_hard_limit_reached = (re_hard_dimension e \<noteq> None),
             bs_exceeded_dimension = re_hard_dimension e\<rparr>)))))"

section \<open>The manager\<close>

record budget_manager =
  bm_policy :: budget_policy
  bm_pricing :: "pricing option"

definition BudgetManager :: "pyenv \<Rightarrow> budget_policy \<Rightarrow> string \<Rightarrow> string \<Rightarrow> registry \<Rightarrow> budget_manager res" where
  "BudgetManager E policy provider model reg =
     (let price = resolve_pricing E reg provider model in
      if bp_max_cost_usd policy \<noteq> None \<and> price = None
      then Raise (ValueError (''max_cost_usd requires configured pricing for '' @ provider @ ''/'' @ model))
      else Ok \<lparr>bm_policy = policy, bm_pricing = price\<rparr>)"

definition budget_owner :: "run_state \<Rightarrow> string" where
  "budget_owner s = (case r_budget_owner_run_id s of
       None \<Rightarrow> r_run_id s | Some i \<Rightarrow> if i = [] then r_run_id s else i)"

text \<open>
  One operation: the callback through \<^verbatim>\<open>_mutate\<close>, the snapshot, then the first violation the
  callback reported, if any. \<open>load\<close> and \<open>save\<close> are the store's ledger operations.
\<close>

definition budget_operation :: "(string \<Rightarrow> 's \<Rightarrow> ledger ledger_record option)
    \<Rightarrow> (ledger ledger_record \<Rightarrow> 's \<Rightarrow> 's \<times> ledger ledger_record \<times> unit res)
    \<Rightarrow> (nat \<Rightarrow> ledger ledger_record list) \<Rightarrow> budget_clock \<Rightarrow> string \<Rightarrow> string
    \<Rightarrow> (ledger \<Rightarrow> (ledger \<times> exn list) res) \<Rightarrow> 's \<Rightarrow> 's \<times> budget_snapshot res" where
  "budget_operation load save others c owner run f s =
     (case mutate load save owner (fresh_ledger owner) f others s of
        (s', ws, Inl e) \<Rightarrow> (s', Raise e)
      | (s', ws, Inr r) \<Rightarrow>
          (s', bindR (take_snapshot c r run) (\<lambda>snap.
                 case ws of [] \<Rightarrow> Ok snap | e # _ \<Rightarrow> Raise e)))"

definition silent :: "(ledger \<Rightarrow> ledger res) \<Rightarrow> ledger \<Rightarrow> (ledger \<times> exn list) res" where
  "silent f l = bindR (f l) (\<lambda>l'. Ok (l', []))"

text \<open>
  \<^verbatim>\<open>initialize\<close> also completes the run state: its owner, and its policy when it has none.
\<close>

definition budget_initialize :: "pyenv \<Rightarrow> decimal_text \<Rightarrow> budget_manager
    \<Rightarrow> (string \<Rightarrow> 's \<Rightarrow> ledger ledger_record option)
    \<Rightarrow> (ledger ledger_record \<Rightarrow> 's \<Rightarrow> 's \<times> ledger ledger_record \<times> unit res)
    \<Rightarrow> (nat \<Rightarrow> ledger ledger_record list) \<Rightarrow> budget_clock \<Rightarrow> run_state \<Rightarrow> 's
    \<Rightarrow> 's \<times> run_state \<times> budget_snapshot res" where
  "budget_initialize E D m load save others c st s =
     (let owner = budget_owner st;
          st1 = st\<lparr>r_budget_owner_run_id := Some owner,
                   r_budget_policy := (if r_budget_policy st = []
                     then budget_policy_to_dict D (bm_policy m) else r_budget_policy st)\<rparr>
      in case budget_policy_from_dict E D (r_budget_policy st1) of
           Inl e \<Rightarrow> (s, st1, Raise e)
         | Inr policy \<Rightarrow>
             (case budget_operation load save others c owner (r_run_id st)
                (silent (register_run (r_run_id st) policy (r_created_at st) (bm_pricing m))) s of
                (s', snap) \<Rightarrow> (s', st1, snap)))"

definition consume_step :: "(string \<Rightarrow> 's \<Rightarrow> ledger ledger_record option)
    \<Rightarrow> (ledger ledger_record \<Rightarrow> 's \<Rightarrow> 's \<times> ledger ledger_record \<times> unit res)
    \<Rightarrow> (nat \<Rightarrow> ledger ledger_record list) \<Rightarrow> budget_clock \<Rightarrow> run_state \<Rightarrow> string \<Rightarrow> 's
    \<Rightarrow> 's \<times> budget_snapshot res" where
  "consume_step load save others c st i s =
     budget_operation load save others c (budget_owner st) (r_run_id st)
       (silent (consume_discrete c (r_run_id st) i StepOp)) s"

definition consume_tool_call :: "(string \<Rightarrow> 's \<Rightarrow> ledger ledger_record option)
    \<Rightarrow> (ledger ledger_record \<Rightarrow> 's \<Rightarrow> 's \<times> ledger ledger_record \<times> unit res)
    \<Rightarrow> (nat \<Rightarrow> ledger ledger_record list) \<Rightarrow> budget_clock \<Rightarrow> run_state \<Rightarrow> string \<Rightarrow> 's
    \<Rightarrow> 's \<times> budget_snapshot res" where
  "consume_tool_call load save others c st i s =
     budget_operation load save others c (budget_owner st) (r_run_id st)
       (silent (consume_discrete c (r_run_id st) i ToolOp)) s"

definition reserve_model :: "(string \<Rightarrow> 's \<Rightarrow> ledger ledger_record option)
    \<Rightarrow> (ledger ledger_record \<Rightarrow> 's \<Rightarrow> 's \<times> ledger ledger_record \<times> unit res)
    \<Rightarrow> (nat \<Rightarrow> ledger ledger_record list) \<Rightarrow> budget_clock \<Rightarrow> run_state \<Rightarrow> string \<Rightarrow> int \<Rightarrow> 's
    \<Rightarrow> 's \<times> budget_snapshot res" where
  "reserve_model load save others c st i estimate s =
     budget_operation load save others c (budget_owner st) (r_run_id st)
       (silent (reserve_model_call c (r_run_id st) i estimate)) s"

definition complete_model :: "(string \<Rightarrow> 's \<Rightarrow> ledger ledger_record option)
    \<Rightarrow> (ledger ledger_record \<Rightarrow> 's \<Rightarrow> 's \<times> ledger ledger_record \<times> unit res)
    \<Rightarrow> (nat \<Rightarrow> ledger ledger_record list) \<Rightarrow> budget_clock \<Rightarrow> run_state \<Rightarrow> string
    \<Rightarrow> int \<Rightarrow> int \<Rightarrow> int \<Rightarrow> int \<Rightarrow> 's \<Rightarrow> 's \<times> budget_snapshot res" where
  "complete_model load save others c st i inp out cached reasoning s =
     budget_operation load save others c (budget_owner st) (r_run_id st)
       (complete_model_call c (r_run_id st) i inp out cached reasoning) s"

definition record_hard :: "(string \<Rightarrow> 's \<Rightarrow> ledger ledger_record option)
    \<Rightarrow> (ledger ledger_record \<Rightarrow> 's \<Rightarrow> 's \<times> ledger ledger_record \<times> unit res)
    \<Rightarrow> (nat \<Rightarrow> ledger ledger_record list) \<Rightarrow> budget_clock \<Rightarrow> run_state \<Rightarrow> dimension \<Rightarrow> 's
    \<Rightarrow> 's \<times> budget_snapshot res" where
  "record_hard load save others c st d s =
     budget_operation load save others c (budget_owner st) (r_run_id st)
       (silent (record_hard_limit c (r_run_id st) d)) s"

text \<open>\<^verbatim>\<open>snapshot\<close>: reads the ledger, or registers the run first when it is missing.\<close>

definition budget_snapshot_of :: "pyenv \<Rightarrow> decimal_text \<Rightarrow> budget_manager
    \<Rightarrow> (string \<Rightarrow> 's \<Rightarrow> ledger ledger_record option)
    \<Rightarrow> (ledger ledger_record \<Rightarrow> 's \<Rightarrow> 's \<times> ledger ledger_record \<times> unit res)
    \<Rightarrow> (nat \<Rightarrow> ledger ledger_record list) \<Rightarrow> budget_clock \<Rightarrow> run_state \<Rightarrow> 's
    \<Rightarrow> 's \<times> run_state \<times> budget_snapshot res" where
  "budget_snapshot_of E D m load save others c st s =
     (case load (budget_owner st) s of
        None \<Rightarrow> budget_initialize E D m load save others c st s
      | Some r \<Rightarrow>
          if r_run_id st \<notin> set (dict_keys (lg_runs (lr_state r)))
          then budget_initialize E D m load save others c st s
          else (s, st, take_snapshot c r (r_run_id st)))"

text \<open>The check of \<^verbatim>\<open>preflight_child\<close> on the snapshot it takes.\<close>

definition child_exhausted :: "budget_snapshot \<Rightarrow> dimension \<Rightarrow> bool" where
  "child_exhausted snap d \<longleftrightarrow>
     (case limit_of (bs_policy snap) d of None \<Rightarrow> False
      | Some limit \<Rightarrow> limit \<le> usage_dimension (bs_aggregate_usage snap) d)"

definition preflight_child :: "string \<Rightarrow> budget_snapshot \<Rightarrow> budget_snapshot res" where
  "preflight_child run snap =
     (case find (child_exhausted snap) dimensions of
        None \<Rightarrow> Ok snap
      | Some d \<Rightarrow> Raise (BudgetExceededError (dim_code d) (dim_name d)
          (the (limit_of (bs_policy snap) d)) (usage_dimension (bs_aggregate_usage snap) d) run))"

text \<open>\<^verbatim>\<open>remaining_wall_time\<close> and \<^verbatim>\<open>ensure_wall_time\<close> on their snapshots.\<close>

definition remaining_wall_time :: "budget_snapshot \<Rightarrow> rat option" where
  "remaining_wall_time snap =
     (case (the (map_of (bs_remaining snap) ELAPSED_SECONDS),
            the (map_of (bs_aggregate_remaining snap) ELAPSED_SECONDS)) of
        (None, None) \<Rightarrow> None
      | (Some a, None) \<Rightarrow> Some (max 0 a)
      | (None, Some b) \<Rightarrow> Some (max 0 b)
      | (Some a, Some b) \<Rightarrow> Some (max 0 (min a b)))"

definition wall_time_error :: "string \<Rightarrow> budget_snapshot \<Rightarrow> exn" where
  "wall_time_error run snap =
     (let used = max (u_elapsed_seconds (bs_local_usage snap)) (u_elapsed_seconds (bs_aggregate_usage snap))
      in BudgetExceededError (dim_code ELAPSED_SECONDS) (dim_name ELAPSED_SECONDS)
           (case bp_max_wall_time_seconds (bs_policy snap) of None \<Rightarrow> used | Some q \<Rightarrow> q) used run)"

text \<open>
  The clocks \<open>c1\<close>, \<open>c2\<close>, \<open>c3\<close> are those of the first snapshot, of the second one and of
  the recording of the hard limit.
\<close>

definition ensure_wall_time :: "pyenv \<Rightarrow> decimal_text \<Rightarrow> budget_manager
    \<Rightarrow> (string \<Rightarrow> 's \<Rightarrow> ledger ledger_record option)
    \<Rightarrow> (ledger ledger_record \<Rightarrow> 's \<Rightarrow> 's \<times> ledger ledger_record \<times> unit res)
    \<Rightarrow> (nat \<Rightarrow> ledger ledger_record list) \<Rightarrow> budget_clock \<Rightarrow> budget_clock \<Rightarrow> budget_clock
    \<Rightarrow> run_state \<Rightarrow> 's \<Rightarrow> 's \<times> run_state \<times> rat option res" where
  "ensure_wall_time E D m load save others c1 c2 c3 st s =
     (case budget_snapshot_of E D m load save others c1 st s of
        (s1, st1, Inl e) \<Rightarrow> (s1, st1, Raise e)
      | (s1, st1, Inr snap) \<Rightarrow>
          if remaining_wall_time snap = None \<or> 0 < the (remaining_wall_time snap)
          then (s1, st1, Ok (remaining_wall_time snap))
          else (case budget_snapshot_of E D m load save others c2 st1 s1 of
                  (s2, st2, Inl e) \<Rightarrow> (s2, st2, Raise e)
                | (s2, st2, Inr snap2) \<Rightarrow>
                    (case record_hard load save others c3 st2 ELAPSED_SECONDS s2 of
                       (s3, Inl e) \<Rightarrow> (s3, st2, Raise e)
                     | (s3, Inr _) \<Rightarrow> (s3, st2, Raise (wall_time_error (r_run_id st) snap2)))))"

text \<open>\<^verbatim>\<open>RunBudgetState.to_dict\<close> without the policy, and the observability attributes of the limits.\<close>

fun remaining_value :: "decimal_text \<Rightarrow> dimension \<times> rat option \<Rightarrow> string \<times> pyval" where
  "remaining_value D (d, v) =
     (dim_name d, case v of None \<Rightarrow> PNone
        | Some q \<Rightarrow> if d = COST_USD then PStr (dec_format D q) else PFloat q)"

definition snapshot_to_dict :: "decimal_text \<Rightarrow> (rat \<Rightarrow> rat) \<Rightarrow> budget_snapshot \<Rightarrow> pydict" where
  "snapshot_to_dict D round3 b = [
     (''owner_run_id'', PStr (bs_owner_run_id b)), (''run_id'', PStr (bs_run_id b)),
     (''policy'', PDict (budget_policy_to_dict D (bs_policy b))),
     (''local_usage'', PDict (usage_to_dict D round3 (bs_local_usage b))),
     (''aggregate_usage'', PDict (usage_to_dict D round3 (bs_aggregate_usage b))),
     (''remaining'', PDict (map (remaining_value D) (bs_remaining b))),
     (''aggregate_remaining'', PDict (map (remaining_value D) (bs_aggregate_remaining b))),
     (''soft_limit_reached'', PBool (bs_soft_limit_reached b)),
     (''soft_dimensions'', PList (map (\<lambda>d. PStr (dim_name d)) (bs_soft_dimensions b))),
     (''hard_limit_reached'', PBool (bs_hard_limit_reached b)),
     (''exceeded_dimension'', opt_val (\<lambda>d. PStr (dim_name d)) (bs_exceeded_dimension b))]"

end
