(* ===== verification/BudgetProps.thy ===== *)
theory BudgetProps
  imports BudgetInvariants BudgetManager
begin

text \<open>
  The guarantees of the run budget: limits on steps and calls are never passed, every unit is
  charged once and only once, reservations fit, overshoot is always reported, and all of it
  under concurrent writers, through the compare-and-swap loop over the SQLite store.
\<close>

lemma reachable_owner: "ledger_reachable owner l \<Longrightarrow> lg_owner l = owner"
proof (induction rule: ledger_reachable.induct)
  case start
  then show ?case by (simp add: fresh_ledger_def)
next
  case (step l l')
  have mark: "same_accounts a b \<Longrightarrow> lg_owner b = lg_owner a" for a b by (simp add: same_accounts_def)
  from step(2) have "lg_owner l' = lg_owner l"
  proof (cases rule: ledger_step.cases)
    case (consume kind c run i)
    show ?thesis
    proof (cases "map_of (lg_ops l) i")
      case None
      from mark[OF consume_charges(2)[OF consume(2) None]] show ?thesis by simp
    qed (use consume in \<open>simp add: consume_discrete_def\<close>)
  next
    case (reserve c run i estimate)
    show ?thesis
    proof (cases "map_of (lg_ops l) i")
      case None
      show ?thesis by (rule reserve_charges[OF reserve None]) (drule mark, simp)
    qed (use reserve in \<open>simp add: reserve_model_call_def\<close>)
  next
    case (complete c run i inp out cached reasoning vs)
    then obtain q where q: "map_of (lg_ops l) i = Some q"
      by (auto simp: complete_model_call_def split: option.splits)
    show ?thesis
    proof (cases "op_status q")
      case (Reserved a b)
      show ?thesis by (rule complete_changes[OF complete q Reserved]) (drule mark, simp)
    qed (use complete q in \<open>simp add: complete_model_call_def\<close>)
  next
    case (hard c run d)
    then have "same_accounts l l'"
      using mark_owner_hard_accounts same_accounts_trans hard_mark_accounts
      unfolding record_hard_limit_def bindR_Ok_iff by blast
    then show ?thesis by (rule mark)
  qed (auto simp: register_run_def)
  with step show ?case by simp
qed

text \<open>
  In every ledger a family of runs can reach, by any operations of any of its runs at any
  times, no run has taken more steps, model calls or tool calls than its policy allows, and
  all runs of the family together have not taken more than the owner's policy allows.
\<close>

lemma call_limits:
  assumes "ledger_reachable owner l"
    and "map_of (lg_runs l) run = Some e"
    and "limit_of (re_policy e) (discrete_dimension kind) = Some m"
  shows "of_int (count_of kind (re_usage e)) \<le> m \<and>
    (run = owner \<longrightarrow> of_int (sum_list (map (\<lambda>ke. count_of kind (re_usage (snd ke))) (lg_runs l))) \<le> m)"
proof -
  have "limits_ok l" using ledger_reachable_inv[OF assms(1)] by (simp add: ledger_inv_def)
  moreover have "usage_in l run = Some (re_policy e, re_usage e)" using assms(2) by (simp add: usage_in_def)
  ultimately show ?thesis
    using assms(3) reachable_owner[OF assms(1)]
    by (auto simp: limits_ok_def total_of_def usages_def comp_def)
qed

definition demo_clock :: budget_clock where
  "demo_clock = \<lparr>bc_iso_seconds = (\<lambda>_. None), bc_now = 0, bc_monotonic = 0, bc_anchors = []\<rparr>"

definition two_steps :: budget_policy where
  "two_steps = no_limits\<lparr>bp_max_steps := Some 2, bp_max_model_calls := Some 1, bp_max_input_tokens := Some 10\<rparr>"

lemma two_steps_valid: "RunBudgetPolicy two_steps = Ok two_steps"
  by (simp add: two_steps_def no_limits_def RunBudgetPolicy_def positive_or_null_def)

definition demo_entry :: "int \<Rightarrow> run_entry" where
  "demo_entry n = \<lparr>re_policy = two_steps, re_created_at = ''t'', re_pricing = None,
     re_usage = (empty_usage False)\<lparr>n_steps := n\<rparr>, re_soft_dimensions = [], re_hard_dimension = None\<rparr>"

definition demo_ledger :: ledger where
  "demo_ledger = \<lparr>lg_owner = ''root'', lg_runs = [(''root'', demo_entry 0)], lg_ops = []\<rparr>"

lemma demo_ledger_step: "ledger_step (fresh_ledger ''root'') demo_ledger"
proof -
  have "register_run ''root'' two_steps ''t'' None (fresh_ledger ''root'') = Ok demo_ledger"
    by (simp add: register_run_def fresh_ledger_def demo_ledger_def demo_entry_def dict_setdefault_def
        empty_usage_def)
  then show ?thesis by (rule ledger_step.register[OF two_steps_valid])
qed

lemma demo_ledger_reachable: "ledger_reachable ''root'' demo_ledger"
  by (rule ledger_reachable.step[OF ledger_reachable.start demo_ledger_step])

lemma demo_elapsed [simp]: "elapsed demo_clock t = 0" "elapsed_for demo_clock r t = 0"
  by (simp_all add: elapsed_def elapsed_for_def anchor_of_def demo_clock_def)

lemma demo_consume:
  "(case consume_discrete demo_clock ''root'' ''op'' StepOp demo_ledger of
      Inl e \<Rightarrow> False
    | Inr l \<Rightarrow> (case map_of (lg_runs l) ''root'' of None \<Rightarrow> False
        | Some e \<Rightarrow> bp_max_steps (re_policy e) = Some 2 \<and> n_steps (re_usage e) = 1))"
  by code_simp

lemma demo_step_ledger:
  "\<exists>l e. ledger_step demo_ledger l \<and> map_of (lg_runs l) ''root'' = Some e \<and>
     bp_max_steps (re_policy e) = Some 2 \<and> n_steps (re_usage e) = 1"
proof -
  obtain l e where l: "consume_discrete demo_clock ''root'' ''op'' StepOp demo_ledger = Ok l"
    "map_of (lg_runs l) ''root'' = Some e" "bp_max_steps (re_policy e) = Some 2" "n_steps (re_usage e) = 1"
    using demo_consume by (auto split: sum.splits option.splits)
  have "ledger_step demo_ledger l" by (rule ledger_step.consume[OF _ l(1)]) simp
  with l show ?thesis by blast
qed

text \<open>
  C30: every unit is charged exactly once. In a reachable ledger the steps, model calls and
  tool calls of a run are the numbers of its recorded operations of each kind, and the
  family's input and output tokens are the sums over its completed model calls.
\<close>

theorem accounts_exact:
  assumes "ledger_reachable owner l"
  shows "(\<forall>run e kind. map_of (lg_runs l) run = Some e \<longrightarrow>
      count_of kind (re_usage e) =
        int (length (filter (\<lambda>q. op_run_id q = run \<and> op_kind q = kind) (dict_values (lg_ops l))))) \<and>
    sum_list (map (\<lambda>ke. n_input_tokens (re_usage (snd ke))) (lg_runs l)) =
      sum_list (map (\<lambda>q. completed_input (op_status q)) (dict_values (lg_ops l))) \<and>
    sum_list (map (\<lambda>ke. n_output_tokens (re_usage (snd ke))) (lg_runs l)) =
      sum_list (map (\<lambda>q. completed_output (op_status q)) (dict_values (lg_ops l)))"
proof -
  have acc: "accounts_ok l" using ledger_reachable_inv[OF assms] by (simp add: ledger_inv_def)
  have len: "sum_list (map (charge run kind) qs) =
      int (length (filter (\<lambda>q. op_run_id q = run \<and> op_kind q = kind) qs))" for run kind qs
    by (induction qs) (auto simp: charge_def)
  have "count_of kind (re_usage e) =
        int (length (filter (\<lambda>q. op_run_id q = run \<and> op_kind q = kind) (dict_values (lg_ops l))))"
    if "map_of (lg_runs l) run = Some e" for run e kind
  proof -
    have "run_count l run kind = ops_sum (charge run kind) l" using acc by (simp add: accounts_ok_def)
    then show ?thesis using that unfolding ops_sum_def len by (simp add: run_count_def usage_in_def)
  qed
  with acc show ?thesis by (auto simp: accounts_ok_def total_of_def usages_def ops_sum_def comp_def)
qed

theorem accounts_exact_witness:
  "count_of StepOp (re_usage (demo_entry 0)) =
     int (length (filter (\<lambda>q. op_run_id q = ''root'' \<and> op_kind q = StepOp) (dict_values (lg_ops demo_ledger))))"
  by (rule accounts_exact[OF demo_ledger_reachable, THEN conjunct1, rule_format])
    (simp add: demo_ledger_def)

text \<open>
  operations are idempotent by their identifier, so a restarted run never pays twice. Once
  a step, a tool call or a reservation is recorded, any later attempt to record its
  identifier again leaves the ledger unchanged, and so does completing a completed call,
  whatever tokens are reported the second time.
\<close>

theorem operations_idempotent:
  "(consume_discrete c run i kind l = Ok l' \<longrightarrow>
      consume_discrete c2 run2 i kind2 l' = Ok l' \<and> reserve_model_call c2 run2 i n2 l' = Ok l') \<and>
   (reserve_model_call c run i n l = Ok l' \<longrightarrow>
      reserve_model_call c2 run2 i n2 l' = Ok l' \<and> consume_discrete c2 run2 i kind2 l' = Ok l') \<and>
   (complete_model_call c run i inp out cached reasoning l = Ok (l', vs) \<longrightarrow>
      complete_model_call c2 run2 i inp2 out2 cached2 reasoning2 l' = Ok (l', []))"
proof (intro conjI impI)
  have put: "map_of (lg_ops l') i \<noteq> None" if "same_accounts (put_op i q l1) l'" for q l1
    using that by (simp add: same_accounts_def put_op_def)
  have again: "consume_discrete c2 run2 i kind2 l' = Ok l'" "reserve_model_call c2 run2 i n2 l' = Ok l'"
    if "map_of (lg_ops l') i \<noteq> None"
    using that by (simp_all add: consume_discrete_def reserve_model_call_def)
  have consumed: "map_of (lg_ops l') i \<noteq> None" if a: "consume_discrete c run i kind l = Ok l'"
  proof (cases "map_of (lg_ops l) i")
    case None
    from put[OF consume_charges(2)[OF a None]] show ?thesis .
  qed (use a in \<open>simp add: consume_discrete_def\<close>)
  have reserved: "map_of (lg_ops l') i \<noteq> None" if a: "reserve_model_call c run i n l = Ok l'"
  proof (cases "map_of (lg_ops l) i")
    case None
    show ?thesis by (rule reserve_charges[OF a None]) (use put in blast)
  qed (use a in \<open>simp add: reserve_model_call_def\<close>)
  show "consume_discrete c2 run2 i kind2 l' = Ok l'" "reserve_model_call c2 run2 i n2 l' = Ok l'"
    if "consume_discrete c run i kind l = Ok l'"
    using again[OF consumed[OF that]] by blast+
  show "reserve_model_call c2 run2 i n2 l' = Ok l'" "consume_discrete c2 run2 i kind2 l' = Ok l'"
    if "reserve_model_call c run i n l = Ok l'"
    using again[OF reserved[OF that]] by blast+
  show "complete_model_call c2 run2 i inp2 out2 cached2 reasoning2 l' = Ok (l', [])"
    if a: "complete_model_call c run i inp out cached reasoning l = Ok (l', vs)"
  proof -
    obtain q where q: "map_of (lg_ops l) i = Some q"
      using a by (auto simp: complete_model_call_def split: option.splits)
    have "\<exists>q' w x y z. map_of (lg_ops l') i = Some q' \<and> op_status q' = Completed w x y z"
    proof (cases "op_status q")
      case (Reserved e0 c0)
      show ?thesis
        by (rule complete_changes[OF a q Reserved]) (auto simp: same_accounts_def put_op_def)
    qed (use a q in \<open>simp add: complete_model_call_def\<close>)
    then show ?thesis by (auto simp: complete_model_call_def)
  qed
qed

theorem operations_idempotent_witness:
  "\<exists>l. consume_discrete demo_clock ''root'' ''op'' StepOp demo_ledger = Ok l \<and>
       consume_discrete demo_clock ''root'' ''op'' StepOp l = Ok l"
proof -
  obtain l where "consume_discrete demo_clock ''root'' ''op'' StepOp demo_ledger = Ok l"
    using demo_consume by (auto split: sum.splits)
  then show ?thesis using operations_idempotent[THEN conjunct1, rule_format, THEN conjunct1] by blast
qed

section \<open>Limits on tokens and cost\<close>

definition account_data :: "run_entry \<Rightarrow> budget_policy \<times> string \<times> pricing option \<times> counters" where
  "account_data e = (re_policy e, re_created_at e, re_pricing e, re_usage e)"

lemma map_of_account: "map_of (map account rs) run = map_option account_data (map_of rs run)"
  by (induction rs) (auto simp: account_def account_data_def)

lemma same_accounts_entry:
  assumes "same_accounts l l'"
  shows "map_option account_data (map_of (lg_runs l') run) = map_option account_data (map_of (lg_runs l) run)"
  using assms map_of_account[of "lg_runs l"] map_of_account[of "lg_runs l'"] by (simp add: same_accounts_def)

lemma same_accounts_usage:
  assumes "same_accounts l l'"
  shows "usage_of c res l' run = usage_of c res l run"
proof -
  have "run_ops l' run = run_ops l run" using assms by (simp add: run_ops_def same_accounts_def)
  with same_accounts_entry[OF assms, of run] show ?thesis
    by (cases "map_of (lg_runs l) run"; cases "map_of (lg_runs l') run")
      (simp_all add: usage_of_def run_entry_of_def entry_usage_def account_data_def Let_def)
qed

lemma same_accounts_aggregate:
  assumes "same_accounts l l'"
  shows "aggregate_usage c res l' = aggregate_usage c res l"
proof -
  have "usage_of c res l' = usage_of c res l" using same_accounts_usage[OF assms] by blast
  moreover have "lg_owner l' = lg_owner l" using assms by (simp add: same_accounts_def)
  ultimately show ?thesis
    using same_accounts_entry[OF assms, of "lg_owner l"] same_accounts_determine(2)[OF assms]
    by (cases "map_of (lg_runs l) (lg_owner l)"; cases "map_of (lg_runs l') (lg_owner l)")
      (simp_all add: aggregate_usage_def run_entry_of_def account_data_def Let_def)
qed

text \<open>Some dimension other than time is strictly over a limit, of the run or of its family.\<close>

definition over_limit :: "budget_clock \<Rightarrow> ledger \<Rightarrow> string \<Rightarrow> dimension \<Rightarrow> bool" where
  "over_limit c l run d \<longleftrightarrow> (\<exists>e owner t. map_of (lg_runs l) run = Some e \<and>
     map_of (lg_runs l) (lg_owner l) = Some owner \<and> aggregate_usage c False l = Ok t \<and>
     (exceeded (entry_usage c False l run e) (re_policy e) d \<or> exceeded t (re_policy owner) d))"

lemma over_limit_same_accounts:
  assumes "same_accounts l l'" "over_limit c l run d"
  shows "over_limit c l' run d"
proof -
  obtain e owner t where o: "map_of (lg_runs l) run = Some e" "map_of (lg_runs l) (lg_owner l) = Some owner"
    "aggregate_usage c False l = Ok t"
    "exceeded (entry_usage c False l run e) (re_policy e) d \<or> exceeded t (re_policy owner) d"
    using assms(2) by (auto simp: over_limit_def)
  have owner: "lg_owner l' = lg_owner l" using assms(1) by (simp add: same_accounts_def)
  obtain e' where e': "map_of (lg_runs l') run = Some e'" "re_policy e' = re_policy e"
    using same_accounts_entry[OF assms(1), of run] o(1) by (auto simp: account_data_def)
  obtain w where w: "map_of (lg_runs l') (lg_owner l') = Some w" "re_policy w = re_policy owner"
    using same_accounts_entry[OF assms(1), of "lg_owner l"] o(2) owner by (auto simp: account_data_def)
  have "entry_usage c False l' run e' = entry_usage c False l run e"
    using same_accounts_usage[OF assms(1), of c False run] o(1) e'(1)
    by (simp add: usage_of_def run_entry_of_def)
  then show ?thesis unfolding over_limit_def
    using o e' w same_accounts_aggregate[OF assms(1), of c False] by auto
qed

lemma same_accounts_sym: "same_accounts l l' \<Longrightarrow> same_accounts l' l"
  by (simp add: same_accounts_def)

lemma first_violation_over_limit:
  assumes "first_violation c l run = Ok v"
  shows "case v of None \<Rightarrow> \<forall>d. \<not> over_limit c l run d
    | Some (d, err) \<Rightarrow> over_limit c l run d \<and> (\<exists>m u. err = BudgetExceededError (dim_code d) (dim_name d) m u run)"
proof -
  obtain e t owner where o: "map_of (lg_runs l) run = Some e" "aggregate_usage c False l = Ok t"
    "map_of (lg_runs l) (lg_owner l) = Some owner"
    and v: "v = (case map_option (\<lambda>d. (d, BudgetExceededError (dim_code d) (dim_name d)
         (the (limit_of (re_policy e) d)) (usage_dimension (entry_usage c False l run e) d) run))
         (find (exceeded (entry_usage c False l run e) (re_policy e)) dimensions) of
       Some x \<Rightarrow> Some x
     | None \<Rightarrow> map_option (\<lambda>d. (d, BudgetExceededError (dim_code d) (dim_name d)
         (the (limit_of (re_policy owner) d)) (usage_dimension t d) run))
         (find (exceeded t (re_policy owner)) dimensions))"
    using assms by (auto simp: first_violation_def bindR_Ok_iff usage_of_def run_entry_of_Ok Let_def)
  have over: "over_limit c l run d \<longleftrightarrow>
      exceeded (entry_usage c False l run e) (re_policy e) d \<or> exceeded t (re_policy owner) d" for d
    using o by (simp add: over_limit_def)
  show ?thesis unfolding v
    by (auto simp: over find_None_iff find_Some_iff split: option.split)
qed

lemma hard_mark_entry:
  "map_of (lg_runs l) run \<noteq> None \<Longrightarrow>
   \<exists>e. map_of (lg_runs (change_run run (\<lambda>e. e\<lparr>re_hard_dimension := Some d\<rparr>) l)) run = Some e \<and>
     re_hard_dimension e = Some d"
  by (auto simp: change_run_def map_of_change)

definition hard_in :: "ledger \<Rightarrow> string \<Rightarrow> dimension \<Rightarrow> bool" where
  "hard_in l run d \<longleftrightarrow> (\<exists>e. map_of (lg_runs l) run = Some e \<and> re_hard_dimension e = Some d)"

lemma hard_in_change:
  "hard_in l run d \<Longrightarrow> (\<And>e. re_hard_dimension e = Some d \<Longrightarrow> re_hard_dimension (f e) = Some d) \<Longrightarrow>
     hard_in (change_run k f l) run d"
  by (auto simp: hard_in_def change_run_def map_of_change)

lemma hard_in_marks:
  "hard_in l run d \<Longrightarrow> mark_owner_hard_if_exhausted c d l = Ok l' \<Longrightarrow> hard_in l' run d"
  "hard_in l run d \<Longrightarrow> mark_soft_target c t l = Ok l' \<Longrightarrow> hard_in l' run d"
  by (auto simp: mark_owner_hard_if_exhausted_def mark_soft_target_def bindR_Ok_iff
      split: option.splits if_splits intro!: hard_in_change)

lemma hard_in_mark_soft: "hard_in l run d \<Longrightarrow> mark_soft c r l = Ok l' \<Longrightarrow> hard_in l' run d"
  by (auto simp: mark_soft_def bindR_Ok_iff split: if_splits intro: hard_in_marks(2))

text \<open>
  an overshoot is always reported. When a reserved model call is completed with its actual
  tokens, the operation reports a violation exactly when the stored ledger is then over some
  limit on steps, calls, tokens or cost, of the run or of its family. What it reports is a
  dimension that is over its limit, and the run is marked with it.
\<close>

theorem overshoot_reported:
  assumes "complete_model_call c run i inp out cached reasoning l = Ok (l', vs)"
    and "map_of (lg_ops l) i = Some q" "op_status q = Reserved est cost"
  shows "(vs = [] \<longleftrightarrow> (\<forall>d. \<not> over_limit c l' run d)) \<and>
    (\<forall>err \<in> set vs. \<exists>d m u. err = BudgetExceededError (dim_code d) (dim_name d) m u run \<and>
       over_limit c l' run d \<and> hard_in l' run d)"
proof (rule complete_changes[OF assms])
  fix e l1 v
  assume e: "map_of (lg_runs l) run = Some e" and l1: "l1 = put_op i (q\<lparr>op_status := Completed (max 0 inp) (max 0 out)
        (min (max 0 cached) (max 0 inp)) (max 0 reasoning)\<rparr>)
       (change_usage run (charge_tokens (re_pricing e) (max 0 inp) (max 0 out)
          (min (max 0 cached) (max 0 inp)) (max 0 reasoning)) l)"
    and v: "first_violation c l1 run = Ok v" and same: "same_accounts l1 l'"
    and marks: "case v of None \<Rightarrow> vs = [] | Some (d, err) \<Rightarrow> vs = [err] \<and>
       (\<exists>l2. mark_owner_hard_if_exhausted c d
          (change_run run (\<lambda>e. e\<lparr>re_hard_dimension := Some d\<rparr>) l1) = Ok l2 \<and> mark_soft c run l2 = Ok l')"
  have over: "over_limit c l' run d \<longleftrightarrow> over_limit c l1 run d" for d
    using over_limit_same_accounts same same_accounts_sym by blast
  have entry: "map_of (lg_runs l1) run \<noteq> None"
    using e by (simp add: l1 change_usage_def change_run_def map_of_change)
  show ?thesis
  proof (cases v)
    case None
    with marks first_violation_over_limit[OF v] over show ?thesis by simp
  next
    case (Some p)
    obtain d err where p: "p = (d, err)" by (cases p)
    obtain l2 where l2: "vs = [err]" "mark_owner_hard_if_exhausted c d
        (change_run run (\<lambda>e. e\<lparr>re_hard_dimension := Some d\<rparr>) l1) = Ok l2" "mark_soft c run l2 = Ok l'"
      using marks Some p by auto
    have "hard_in (change_run run (\<lambda>e. e\<lparr>re_hard_dimension := Some d\<rparr>) l1) run d"
      using hard_mark_entry[OF entry] by (simp add: hard_in_def)
    then have "hard_in l' run d" using hard_in_marks(1)[OF _ l2(2)] hard_in_mark_soft[OF _ l2(3)] by blast
    with first_violation_over_limit[OF v] over Some p l2(1) show ?thesis by auto
  qed
qed

definition demo_reserved :: ledger where
  "demo_reserved = demo_ledger\<lparr>lg_ops :=
     [(''op'', \<lparr>op_run_id = ''root'', op_kind = ModelOp, op_status = Reserved 5 None\<rparr>)]\<rparr>"

lemma demo_overshoot:
  "(case complete_model_call demo_clock ''root'' ''op'' 11 0 0 0 demo_reserved of
      Inl e \<Rightarrow> False | Inr (l, vs) \<Rightarrow> (case vs of [] \<Rightarrow> False | v # _ \<Rightarrow> True))"
  by code_simp

theorem overshoot_reported_witness:
  "\<exists>l vs d m u. complete_model_call demo_clock ''root'' ''op'' 11 0 0 0 demo_reserved = Ok (l, vs) \<and>
     BudgetExceededError (dim_code d) (dim_name d) m u ''root'' \<in> set vs \<and>
     over_limit demo_clock l ''root'' d \<and> hard_in l ''root'' d"
proof -
  obtain l v vs where l: "complete_model_call demo_clock ''root'' ''op'' 11 0 0 0 demo_reserved = Ok (l, v # vs)"
    using demo_overshoot by (auto simp: neq_Nil_conv split: sum.splits list.split_asm)
  have q: "map_of (lg_ops demo_reserved) ''op'' = Some \<lparr>op_run_id = ''root'', op_kind = ModelOp, op_status = Reserved 5 None\<rparr>"
    by (simp add: demo_reserved_def)
  from overshoot_reported[OF l q, of 5 None, THEN conjunct2] obtain d m u where
    "v = BudgetExceededError (dim_code d) (dim_name d) m u ''root''" "over_limit demo_clock l ''root'' d"
    "hard_in l ''root'' d" by auto
  with l show ?thesis by auto
qed

section \<open>Reservations\<close>

lemma run_ops_put:
  "map_of (lg_ops l) i = None \<Longrightarrow>
     run_ops (put_op i q l) k = run_ops l k @ (if op_run_id q = k then [q] else [])"
  by (simp add: run_ops_def put_op_def dict_keys_set_fresh map_of_eq_None_iff)

lemma run_ops_change [simp]: "run_ops (change_usage run f l) k = run_ops l k"
  by (simp add: run_ops_def)

lemma sum_at_key:
  fixes a :: int
  assumes "distinct (dict_keys d)" "run \<in> set (dict_keys d)"
  shows "sum_list (map (\<lambda>ke. g ke + (if fst ke = run then a else 0)) d) = sum_list (map g d) + a"
proof -
  have "sum_list (map (\<lambda>ke. if fst ke = run then a else 0) d) = a"
    using assms
  proof (induction d)
    case (Cons ke d)
    have "sum_list (map (\<lambda>ke. if fst ke = run then a else 0) d) = 0" if "run \<notin> set (dict_keys d)"
      using that by (induction d) auto
    with Cons show ?case by auto
  qed simp
  then show ?thesis by (simp add: sum_list_addf)
qed

text \<open>What a reservation adds to the usage of its run and of the family.\<close>

lemma reservation_usage:
  fixes n :: int and cost :: "rat option"
  assumes "distinct (dict_keys (lg_runs l))" "map_of (lg_ops l) i = None" "map_of (lg_runs l) run = Some e"
  defines "l1 \<equiv> put_op i \<lparr>op_run_id = run, op_kind = ModelOp, op_status = Reserved n cost\<rparr>
       (change_usage run (count_one ModelOp) l)"
  shows "u_input_tokens (entry_usage c True l1 k (if k = run then e'\<lparr>re_usage := count_one ModelOp (re_usage e')\<rparr> else e')) =
      u_input_tokens (entry_usage c True l k e') + (if k = run then n else 0)"
    and "sum_list (map u_input_tokens (all_usages c True l1)) =
      sum_list (map u_input_tokens (all_usages c True l)) + n"
    and "total_of n_output_tokens l1 = total_of n_output_tokens l"
proof -
  have ops: "run_ops l1 k = run_ops l k @ (if k = run then
      [\<lparr>op_run_id = run, op_kind = ModelOp, op_status = Reserved n cost\<rparr>] else [])" for k
    using assms(2) by (auto simp: l1_def run_ops_put)
  show input: "u_input_tokens (entry_usage c True l1 k (if k = run then e'\<lparr>re_usage := count_one ModelOp (re_usage e')\<rparr> else e')) =
      u_input_tokens (entry_usage c True l k e') + (if k = run then n else 0)" for k e'
    by (simp add: entry_usage_def ops reserved_input_def Let_def)
  have "lg_runs l1 = map (\<lambda>(k, e). (k, if k = run then e\<lparr>re_usage := count_one ModelOp (re_usage e)\<rparr> else e)) (lg_runs l)"
    by (auto simp: l1_def change_usage_def change_run_def)
  then have "map u_input_tokens (all_usages c True l1) =
      map (\<lambda>ke. u_input_tokens (entry_usage c True l (fst ke) (snd ke)) + (if fst ke = run then n else 0)) (lg_runs l)"
    by (simp add: all_usages_def input case_prod_unfold comp_def)
  then show "sum_list (map u_input_tokens (all_usages c True l1)) =
      sum_list (map u_input_tokens (all_usages c True l)) + n"
    using sum_at_key[OF assms(1), of run "\<lambda>ke. u_input_tokens (entry_usage c True l (fst ke) (snd ke))" n] assms(3)
    by (simp add: all_usages_def comp_def key_iff_map_of)
  have "usage_in l run = Some (re_policy e, re_usage e)" using assms(3) by (simp add: usage_in_def)
  from total_change_usage[OF assms(1) this, of n_output_tokens "count_one ModelOp"]
  show "total_of n_output_tokens l1 = total_of n_output_tokens l" by (simp add: l1_def)
qed

lemma aggregate_exists:
  "distinct (dict_keys (lg_runs l)) \<Longrightarrow> map_of (lg_runs l) (lg_owner l) = Some w \<Longrightarrow>
     \<exists>t. aggregate_usage c res l = Ok t"
  by (simp add: aggregate_usage_def mapR_usages run_entry_of_def Let_def)

lemma check_limit_fits:
  "check_limit run d a u p = Ok x \<Longrightarrow> limit_of p d = Some m \<Longrightarrow> usage_dimension u d + a \<le> m"
  by (auto simp: check_limit_Ok split: if_splits)

text \<open>
  reservations do not over-commit. After a model call was reserved, the input tokens and
  the total tokens of its run, counting all that was used and all that is reserved, are
  within the run's limits, and those of the whole family within the owner's.
\<close>

theorem reservation_fits:
  assumes "ledger_reachable owner l" "reserve_model_call c run i n l = Ok l'"
    and "map_of (lg_ops l) i = None" "d = INPUT_TOKENS \<or> d = TOTAL_TOKENS"
  shows "\<exists>e w t. map_of (lg_runs l') run = Some e \<and> map_of (lg_runs l') owner = Some w \<and>
    aggregate_usage c True l' = Ok t \<and>
    (\<forall>m. limit_of (re_policy e) d = Some m \<longrightarrow> usage_dimension (entry_usage c True l' run e) d \<le> m) \<and>
    (\<forall>m. limit_of (re_policy w) d = Some m \<longrightarrow> usage_dimension t d \<le> m)"
proof (rule reserve_charges[OF assms(2,3)])
  fix cost e
  let ?n = "max 0 n"
  let ?l1 = "put_op i \<lparr>op_run_id = run, op_kind = ModelOp, op_status = Reserved ?n cost\<rparr>
       (change_usage run (count_one ModelOp) l)"
  assume pre: "preflight c l run INPUT_TOKENS (of_int ?n) = Ok ()" "preflight c l run TOTAL_TOKENS (of_int ?n) = Ok ()"
    and e: "map_of (lg_runs l) run = Some e" and same: "same_accounts ?l1 l'"
  have keys: "distinct (dict_keys (lg_runs l))"
    using ledger_reachable_inv[OF assms(1)] by (simp add: ledger_inv_def keys_ok_def)
  have own: "lg_owner l = owner" by (rule reachable_owner[OF assms(1)])
  have "preflight c l run d (of_int ?n) = Ok ()" using pre assms(4) by auto
  then obtain w t where w: "map_of (lg_runs l) owner = Some w" and t: "aggregate_usage c True l = Ok t"
    and check: "check_limit run d (of_int ?n) (entry_usage c True l run e) (re_policy e) = Ok ()"
      "check_limit run d (of_int ?n) t (re_policy w) = Ok ()"
    by (rule preflight_Ok) (use e own in auto)
  let ?e1 = "e\<lparr>re_usage := count_one ModelOp (re_usage e)\<rparr>"
  let ?w1 = "if run = owner then ?e1 else w"
  have l1: "map_of (lg_runs ?l1) run = Some ?e1" "map_of (lg_runs ?l1) owner = Some ?w1"
    using e w by (auto simp: change_usage_def change_run_def map_of_change)
  obtain e' where e': "map_of (lg_runs l') run = Some e'" "re_policy e' = re_policy e"
    using same_accounts_entry[OF same, of run] l1(1) by (auto simp: account_data_def)
  obtain w' where w': "map_of (lg_runs l') owner = Some w'" "re_policy w' = re_policy w"
    using same_accounts_entry[OF same, of owner] l1(2) e w by (auto simp: account_data_def split: if_splits)
  have usage: "entry_usage c True l' run e' = entry_usage c True ?l1 run ?e1"
    using same_accounts_usage[OF same, of c True run] e'(1) l1(1) by (simp add: usage_of_def run_entry_of_def)
  have keys1: "distinct (dict_keys (lg_runs ?l1))" using keys by simp
  obtain t1 where t1: "aggregate_usage c True ?l1 = Ok t1"
    using aggregate_exists[OF keys1, of ?w1 c True] l1(2) own by auto
  note added = reservation_usage(1,2)[where c = c and n = ?n and cost = cost, OF keys assms(3) e]
    reservation_usage(3)[where n = ?n and cost = cost, OF keys assms(3) e]
  have "u_input_tokens (entry_usage c True ?l1 run ?e1) = u_input_tokens (entry_usage c True l run e) + ?n"
    "u_output_tokens (entry_usage c True ?l1 run ?e1) = u_output_tokens (entry_usage c True l run e)"
    using added(1)[of run e] by (simp_all add: entry_usage_def Let_def)
  moreover have "u_input_tokens t1 = u_input_tokens t + ?n" "u_output_tokens t1 = u_output_tokens t"
    using aggregate_usage_Ok(4,5)[OF keys1 t1] aggregate_usage_Ok(4,5)[OF keys t] added(2,3) by simp_all
  ultimately have "usage_dimension (entry_usage c True ?l1 run ?e1) d =
      usage_dimension (entry_usage c True l run e) d + of_int ?n"
    "usage_dimension t1 d = usage_dimension t d + of_int ?n"
    using assms(4) by (auto simp: u_total_tokens_def)
  moreover have "aggregate_usage c True l' = Ok t1" using same_accounts_aggregate[OF same] t1 by simp
  ultimately show ?thesis
    using e' w' usage check_limit_fits[OF check(1)] check_limit_fits[OF check(2)] by auto
qed

lemma demo_reserve:
  "(case reserve_model_call demo_clock ''root'' ''op'' 5 demo_ledger of Inr l \<Rightarrow> True | Inl _ \<Rightarrow> False)"
  by code_simp

theorem reservation_fits_witness:
  "\<exists>l e t. reserve_model_call demo_clock ''root'' ''op'' 5 demo_ledger = Ok l \<and>
     map_of (lg_runs l) ''root'' = Some e \<and> aggregate_usage demo_clock True l = Ok t \<and>
     (\<forall>m. limit_of (re_policy e) INPUT_TOKENS = Some m \<longrightarrow> usage_dimension t INPUT_TOKENS \<le> m)"
proof -
  obtain l where l: "reserve_model_call demo_clock ''root'' ''op'' 5 demo_ledger = Ok l"
    using demo_reserve by (auto split: sum.splits)
  from reservation_fits[OF demo_ledger_reachable l _ disjI1[OF refl]] l show ?thesis
    by (auto simp: demo_ledger_def)
qed

end
