(* ===== verification/BudgetStore.thy ===== *)
theory BudgetStore
  imports BudgetProps PostgresTools
begin

text \<open>
  Budgets under concurrency: any number of workers that read a family's ledger, compute one
  budget operation on what they read, and write it back under compare-and-swap, in any
  interleaving. The ledgers in the store are then the ones a single worker could have
  produced, so every limit holds for all of them together.
\<close>

section \<open>Concurrent workers\<close>

text \<open>
  A worker between its load and its save holds a record: the version it read and the ledger
  it computed. \<open>saves\<close> are the save operations workers may use (on PostgreSQL one for each
  ownership). A worker may save late, several times, or never.
\<close>

inductive budget_system :: "(string \<Rightarrow> 's \<Rightarrow> ledger ledger_record option)
    \<Rightarrow> (ledger ledger_record \<Rightarrow> 's \<Rightarrow> 's \<times> ledger ledger_record \<times> unit res) set \<Rightarrow> 's
    \<Rightarrow> 's \<Rightarrow> ledger ledger_record list \<Rightarrow> bool" for load saves s0 where
  system_start: "budget_system load saves s0 s0 []"
| system_compute: "budget_system load saves s0 s held \<Longrightarrow>
     base = (case load owner s of
       None \<Rightarrow> \<lparr>lr_owner_run_id = owner, lr_version = 0, lr_state = fresh_ledger owner\<rparr> | Some r \<Rightarrow> r) \<Longrightarrow>
     ledger_step (lr_state base) l \<Longrightarrow>
     budget_system load saves s0 s (base\<lparr>lr_state := l\<rparr> # held)"
| system_write: "budget_system load saves s0 s held \<Longrightarrow> r \<in> set held \<Longrightarrow> save \<in> saves \<Longrightarrow>
     budget_system load saves s0 (fst (save r s)) held"

text \<open>A held record is outdated, or a step from the ledger that is stored now.\<close>

definition held_ok :: "(string \<Rightarrow> 's \<Rightarrow> ledger ledger_record option) \<Rightarrow> 's \<Rightarrow> ledger ledger_record \<Rightarrow> bool" where
  "held_ok load s r \<longleftrightarrow> lr_version r \<le> ledger_version (load (lr_owner_run_id r) s) \<and>
     (lr_version r = ledger_version (load (lr_owner_run_id r) s) \<longrightarrow>
        ledger_reachable (lr_owner_run_id r) (lr_state r))"

definition stored_ok :: "(string \<Rightarrow> 's \<Rightarrow> ledger ledger_record option) \<Rightarrow> 's \<Rightarrow> bool" where
  "stored_ok load s \<longleftrightarrow> (\<forall>owner r. load owner s = Some r \<longrightarrow> ledger_reachable owner (lr_state r))"

lemma budget_system_inv:
  fixes lload :: "string \<Rightarrow> 's \<Rightarrow> ledger ledger_record option"
  assumes store: "ledger_store lload lsave linv"
    and "budget_system lload saves s0 s held" "linv s0" "\<And>owner. lload owner s0 = None"
    and saves: "\<And>save r s. save \<in> saves \<Longrightarrow> fst (save r s) = s \<or> save r s = lsave r s"
  shows "linv s \<and> stored_ok lload s \<and> (\<forall>r \<in> set held. held_ok lload s r)"
  using assms(2)
proof (induction rule: budget_system.induct)
  case system_start
  then show ?case using assms(3,4) by (simp add: stored_ok_def)
next
  case (system_compute s held base owner l)
  then have inv: "linv s" "stored_ok lload s" "\<forall>r \<in> set held. held_ok lload s r" by auto
  have base: "lr_owner_run_id base = owner" "lr_version base = ledger_version (lload owner s)"
    using system_compute.hyps(2) ledger_store.load_owner[OF store inv(1), of owner]
    by (auto split: option.splits)
  have "ledger_reachable owner (lr_state base)"
    using system_compute.hyps(2) inv(2)
    by (auto simp: stored_ok_def ledger_reachable.start split: option.splits)
  then have "ledger_reachable owner l" using system_compute.hyps(3) by (rule ledger_reachable.step)
  with inv base show ?case by (simp add: held_ok_def)
next
  case (system_write s held r save)
  then have inv: "linv s" "stored_ok lload s" "\<forall>r \<in> set held. held_ok lload s r" by auto
  note mono = ledger_store.save_monotone[OF store inv(1), of r]
  show ?case
  proof (cases "fst (save r s) = s")
    case True
    with inv show ?thesis by simp
  next
    case False
    then have s': "fst (save r s) = fst (lsave r s)"
      using saves[OF system_write.hyps(3), of r s] by auto
    show ?thesis
    proof (rule ledger_store.save_cases[OF store inv(1), of r])
      fix m assume "lsave r s = (s, r, Raise (BudgetLedgerConflictError m))"
      with s' inv show ?thesis by simp
    next
      fix s1 assume written: "lsave r s = (s1, r\<lparr>lr_version := lr_version r + 1\<rparr>, Ok ())" "linv s1"
        "lr_version r = ledger_version (lload (lr_owner_run_id r) s)"
        "\<And>k. lload k s1 = (if k = lr_owner_run_id r
           then Some (r\<lparr>lr_version := lr_version r + 1\<rparr>) else lload k s)"
      have r: "ledger_reachable (lr_owner_run_id r) (lr_state r)"
        using inv(3) system_write.hyps(2) written(3) by (auto simp: held_ok_def)
      have "stored_ok lload s1" using inv(2) r written(4) by (auto simp: stored_ok_def)
      moreover have "held_ok lload s1 q" if "q \<in> set held" for q
        using inv(3) that written(3,4) by (auto simp: held_ok_def)
      ultimately show ?thesis using written(1,2) s' by simp
    qed
  qed
qed

lemma budget_system_limits:
  assumes "stored_ok load s" "load owner s = Some r" "map_of (lg_runs (lr_state r)) run = Some e"
    and "limit_of (re_policy e) (discrete_dimension kind) = Some m"
  shows "of_int (count_of kind (re_usage e)) \<le> m \<and>
    (run = owner \<longrightarrow> of_int (sum_list (map (\<lambda>ke. count_of kind (re_usage (snd ke))) (lg_runs (lr_state r)))) \<le> m)"
  using assms by (intro call_limits) (auto simp: stored_ok_def)


text \<open>A worker that registers its run, then another one that charges a step to it.\<close>

lemma demo_budget_system:
  "\<exists>(st :: ledger pg_store) held r e.
     budget_system pg_load_ledger {save. \<exists>P own. save = pg_save_ledger P own} pg_empty st held \<and>
     pg_load_ledger ''root'' st = Some r \<and> map_of (lg_runs (lr_state r)) ''root'' = Some e \<and>
     bp_max_steps (re_policy e) = Some 2 \<and> n_steps (re_usage e) = 1"
proof -
  let ?sys = "budget_system pg_load_ledger {save. \<exists>P own. save = pg_save_ledger P own} (pg_empty :: ledger pg_store)"
  let ?save = "pg_save_ledger undefined None"
  obtain l e where l: "ledger_step demo_ledger l" "map_of (lg_runs l) ''root'' = Some e"
    "bp_max_steps (re_policy e) = Some 2" "n_steps (re_usage e) = 1" using demo_step_ledger by blast
  let ?r0 = "\<lparr>lr_owner_run_id = ''root'', lr_version = 0, lr_state = demo_ledger\<rparr>"
  let ?r1 = "\<lparr>lr_owner_run_id = ''root'', lr_version = 1, lr_state = l\<rparr>"
  let ?st1 = "(pg_empty :: ledger pg_store)\<lparr>pg_ledgers := [(''root'', 1, demo_ledger)]\<rparr>"
  let ?st2 = "(pg_empty :: ledger pg_store)\<lparr>pg_ledgers := [(''root'', 2, l)]\<rparr>"
  have saves: "fst (?save ?r0 pg_empty) = ?st1" "fst (?save ?r1 ?st1) = ?st2"
    by (simp_all add: pg_save_ledger_def validate_optional_def pg_empty_def Let_def)
  let ?b0 = "\<lparr>lr_owner_run_id = ''root'', lr_version = 0, lr_state = fresh_ledger ''root''\<rparr>"
  have "?sys pg_empty [?b0\<lparr>lr_state := demo_ledger\<rparr>]"
    by (rule system_compute[where owner = "''root''", OF system_start])
      (simp_all add: pg_load_ledger_def pg_empty_def demo_ledger_step)
  then have "?sys (fst (?save ?r0 pg_empty)) [?r0]" by (intro system_write) auto
  then have "?sys ?st1 [(?r0\<lparr>lr_version := 1\<rparr>)\<lparr>lr_state := l\<rparr>, ?r0]"
    unfolding saves(1)
    by (rule system_compute[where owner = "''root''"]) (simp_all add: pg_load_ledger_def l(1))
  then have "?sys (fst (?save ?r1 ?st1)) [?r1, ?r0]" by (intro system_write) auto
  then have "?sys ?st2 [?r1, ?r0]" unfolding saves(2) .
  then show ?thesis using l
    by (intro exI[of _ ?st2] exI[of _ "[?r1, ?r0]"] exI[of _ "?r1\<lparr>lr_version := 2\<rparr>"] exI[of _ e])
      (simp add: pg_load_ledger_def)
qed


end
