(* ===== verification/PyText.thy ===== *)
theory PyText
  imports Prelude
begin

text \<open>
  Text operations shared by the runtime components: stripping, joining, truncation, and the
  class name and text of an exception.
\<close>

text \<open>The ASCII characters \<^verbatim>\<open>str.strip()\<close> removes; other Unicode spaces are not modelled.\<close>

definition is_space :: "char \<Rightarrow> bool" where
  "is_space c \<longleftrightarrow> of_char c \<in> {9::nat, 10, 11, 12, 13, 28, 29, 30, 31, 32}"

definition py_strip :: "string \<Rightarrow> string" where
  "py_strip s = rev (dropWhile is_space (rev (dropWhile is_space s)))"

fun py_join :: "string \<Rightarrow> string list \<Rightarrow> string" where
  "py_join sep [] = []"
| "py_join sep [x] = x"
| "py_join sep (x # y # xs) = x @ sep @ py_join sep (y # xs)"

text \<open>\<^verbatim>\<open>sorted(set(...))\<close> of texts.\<close>

definition sorted_texts :: "string list \<Rightarrow> string list" where
  "sorted_texts xs = sort (remdups xs)"

fun exn_class :: "exn \<Rightarrow> string" where
  "exn_class (ValueError m) = ''ValueError''"
| "exn_class (TypeError m) = ''TypeError''"
| "exn_class (KeyError k) = ''KeyError''"
| "exn_class (IndexError m) = ''IndexError''"
| "exn_class (TimeoutErr m) = ''TimeoutError''"
| "exn_class (RuntimeErr m) = ''RuntimeError''"
| "exn_class (CheckpointConflictError m) = ''CheckpointConflictError''"
| "exn_class (BudgetLedgerConflictError m) = ''BudgetLedgerConflictError''"
| "exn_class (OwnershipLostError m) = ''OwnershipLostError''"
| "exn_class (AttributeError m) = ''AttributeError''"
| "exn_class (ActiveRunRegistrationError m) = ''ActiveRunRegistrationError''"
| "exn_class (WorkerConfigurationError m) = ''DistributedWorkerConfigurationError''"
| "exn_class (AdmissionRejectedError q m) = ''AdmissionRejectedError''"
| "exn_class (BudgetExceededError code d limit used run) = ''BudgetExceededError''"
| "exn_class (ApiError a) = ''ApiError''"

text \<open>\<^verbatim>\<open>str(exc)\<close>; a \<^verbatim>\<open>KeyError\<close> shows the representation of its key.\<close>

fun exn_str :: "pyenv \<Rightarrow> exn \<Rightarrow> string" where
  "exn_str E (ValueError m) = m"
| "exn_str E (TypeError m) = m"
| "exn_str E (KeyError k) = repr_text E (PStr k)"
| "exn_str E (IndexError m) = m"
| "exn_str E (TimeoutErr m) = m"
| "exn_str E (RuntimeErr m) = m"
| "exn_str E (CheckpointConflictError m) = m"
| "exn_str E (BudgetLedgerConflictError m) = m"
| "exn_str E (OwnershipLostError m) = m"
| "exn_str E (AttributeError m) = m"
| "exn_str E (ActiveRunRegistrationError m) = m"
| "exn_str E (WorkerConfigurationError m) = m"
| "exn_str E (AdmissionRejectedError q m) = ''durable runnable backlog is at capacity''"
| "exn_str E (BudgetExceededError code d limit used run) =
     d @ '' budget exhausted: used='' @ repr_text E (PFloat used) @ '', limit=''
       @ repr_text E (PFloat limit) @ '', run_id='' @ run"
| "exn_str E (ApiError a) = ae_message a"

text \<open>\<^verbatim>\<open>_safe_error\<close>: the text, or the class name when it is empty, at most 4000 characters.\<close>

definition safe_error :: "pyenv \<Rightarrow> exn \<Rightarrow> string" where
  "safe_error E e = take 4000 (if exn_str E e = [] then exn_class e else exn_str E e)"

text \<open>\<^verbatim>\<open>isinstance(exc, ValueError)\<close>: the class and its subclasses.\<close>

definition value_error :: "exn \<Rightarrow> bool" where
  "value_error e \<longleftrightarrow> (case e of ValueError m \<Rightarrow> True | ActiveRunRegistrationError m \<Rightarrow> True
     | WorkerConfigurationError m \<Rightarrow> True | _ \<Rightarrow> False)"

definition is_budget_exceeded :: "exn \<Rightarrow> bool" where
  "is_budget_exceeded e \<longleftrightarrow>
     (case e of BudgetExceededError code d limit used run \<Rightarrow> True | _ \<Rightarrow> False)"

end
