(* ===== verification/CompletionModels.thy ===== *)
theory CompletionModels
  imports RunState PyText
begin

text \<open>
  Completion contracts of \<^verbatim>\<open>runtime/completion.py\<close>: the checks a client attaches to a run, their
  validated form, the result of a verification and the feedback given to the model.
\<close>

section \<open>Contracts\<close>

definition COMPLETION_NOT_VERIFIED :: string where
  "COMPLETION_NOT_VERIFIED = ''COMPLETION_NOT_VERIFIED''"

datatype verification_status = VERIFIED | NOT_VERIFIED | NOT_APPLICABLE | VERIFICATION_ERROR

fun verification_status_value :: "verification_status \<Rightarrow> string" where
  "verification_status_value VERIFIED = ''VERIFIED''"
| "verification_status_value NOT_VERIFIED = ''NOT_VERIFIED''"
| "verification_status_value NOT_APPLICABLE = ''NOT_APPLICABLE''"
| "verification_status_value VERIFICATION_ERROR = ''ERROR''"

definition VerificationStatus :: "string \<Rightarrow> verification_status res" where
  "VerificationStatus = enum_parse verification_status_value
     [VERIFIED, NOT_VERIFIED, NOT_APPLICABLE, VERIFICATION_ERROR]"

record completion_check =
  ck_id :: string
  ck_type :: string
  ck_required :: bool
  ck_config :: pydict

text \<open>
  \<^verbatim>\<open>_json_value\<close> of this module accepts the values \<open>json_value\<close> accepts; only the text of its
  error differs.
\<close>

definition contract_value :: "pyval \<Rightarrow> pyval res" where
  "contract_value v =
     (case json_value v of
        Inl (TypeError m) \<Rightarrow> Raise (TypeError (''completion contract value is not JSON-compatible: ''
          @ drop (length ''value is not checkpoint-serializable: '') m))
      | r \<Rightarrow> r)"

definition contract_item :: "string \<times> pyval \<Rightarrow> (string \<times> pyval) res" where
  "contract_item kv = bindR (contract_value (snd kv)) (\<lambda>v. Ok (fst kv, v))"

definition check_from_dict :: "pyenv \<Rightarrow> pydict \<Rightarrow> completion_check res" where
  "check_from_dict E d =
     (let ty = py_strip (str_or E (dict_get d ''type'') []) in
      bindR (guardR (ty \<noteq> []) (ValueError ''completion check type is required'')) (\<lambda>_.
      let i = py_strip (str_or E (dict_get d ''id'') ty) in
      bindR (guardR (i \<noteq> []) (ValueError ''completion check id is required'')) (\<lambda>_.
      bindR (mapR contract_item
          (filter (\<lambda>kv. fst kv \<notin> {''id'', ''type'', ''required''}) d)) (\<lambda>config.
      Ok \<lparr>ck_id = i, ck_type = ty,
          ck_required = truthy (dict_get_default d ''required'' (PBool True)),
          ck_config = config\<rparr>))))"

text \<open>A dictionary display: later items replace earlier ones of the same key.\<close>

definition check_to_dict :: "completion_check \<Rightarrow> pydict res" where
  "check_to_dict c =
     bindR (mapR contract_item (ck_config c)) (\<lambda>config.
     Ok (foldl (\<lambda>d kv. dict_set (fst kv) (snd kv) d)
       [(''id'', PStr (ck_id c)), (''type'', PStr (ck_type c)), (''required'', PBool (ck_required c))]
       config))"

record contract =
  co_checks :: "completion_check list"
  co_max_correction_attempts :: int

definition CompletionContract :: "contract \<Rightarrow> contract res" where
  "CompletionContract c =
     bindR (guardR (0 \<le> co_max_correction_attempts c)
       (ValueError ''max_correction_attempts must be >= 0'')) (\<lambda>_.
     bindR (guardR (distinct (map ck_id (co_checks c)))
       (ValueError ''completion check ids must be unique'')) (\<lambda>_.
     Ok c))"

fun check_item :: "pyenv \<Rightarrow> pyval \<Rightarrow> completion_check res" where
  "check_item E (PDict d) = check_from_dict E d"
| "check_item E v = Raise (ValueError ''every completion check must be an object'')"

fun is_dict :: "pyval \<Rightarrow> bool" where
  "is_dict (PDict d) = True"
| "is_dict v = False"

definition contract_from_dict :: "pyenv \<Rightarrow> pydict \<Rightarrow> contract res" where
  "contract_from_dict E d =
     (case py_or (dict_get d ''checks'') (PList []) of
        PList raw \<Rightarrow>
          bindR (guardR (list_all is_dict raw)
            (ValueError ''every completion check must be an object'')) (\<lambda>_.
          bindR (mapR (check_item E) raw) (\<lambda>checks.
          bindR (py_int E (dict_get_default d ''max_correction_attempts'' (PInt 1))) (\<lambda>n.
          CompletionContract \<lparr>co_checks = checks, co_max_correction_attempts = n\<rparr>)))
      | _ \<Rightarrow> Raise (ValueError ''completion contract checks must be a list''))"

definition contract_to_dict :: "contract \<Rightarrow> pydict res" where
  "contract_to_dict c =
     bindR (mapR (\<lambda>k. bindR (check_to_dict k) (\<lambda>d. Ok (PDict d))) (co_checks c)) (\<lambda>checks.
     Ok [(''checks'', PList checks),
         (''max_correction_attempts'', PInt (co_max_correction_attempts c))])"

section \<open>Results\<close>

record check_result =
  cr_check_id :: string
  cr_check_type :: string
  cr_passed :: bool
  cr_required :: bool
  cr_reason :: string

definition check_result_to_dict :: "check_result \<Rightarrow> pydict" where
  "check_result_to_dict r = [
     (''check_id'', PStr (cr_check_id r)), (''check_type'', PStr (cr_check_type r)),
     (''passed'', PBool (cr_passed r)), (''required'', PBool (cr_required r)),
     (''reason'', PStr (cr_reason r))]"

definition check_result_from_dict :: "pyenv \<Rightarrow> pydict \<Rightarrow> check_result" where
  "check_result_from_dict E d =
     \<lparr>cr_check_id = str_or E (dict_get d ''check_id'') ''unknown'',
      cr_check_type = str_or E (dict_get d ''check_type'') ''unknown'',
      cr_passed = truthy (dict_get d ''passed''),
      cr_required = truthy (dict_get_default d ''required'' (PBool True)),
      cr_reason = str_or E (dict_get d ''reason'') []\<rparr>"

record verification_result =
  vr_status :: verification_status
  vr_attempt :: int
  vr_checks :: "check_result list"
  vr_error :: "string option"

definition failed_checks :: "verification_result \<Rightarrow> check_result list" where
  "failed_checks v = filter (\<lambda>r. cr_required r \<and> \<not> cr_passed r) (vr_checks v)"

definition verified_value :: "verification_result \<Rightarrow> bool option" where
  "verified_value v =
     (if vr_status v = VERIFIED then Some True
      else if vr_status v \<in> {NOT_VERIFIED, VERIFICATION_ERROR} then Some False else None)"

definition failed_check_ids :: "verification_result \<Rightarrow> string list" where
  "failed_check_ids v = map cr_check_id (failed_checks v)"

definition verification_to_dict :: "verification_result \<Rightarrow> pydict" where
  "verification_to_dict v = [
     (''status'', PStr (verification_status_value (vr_status v))),
     (''verified'', opt_val PBool (verified_value v)),
     (''attempt'', PInt (vr_attempt v)),
     (''failed_check_ids'', PList (map PStr (failed_check_ids v))),
     (''checks'', PList (map (\<lambda>r. PDict (check_result_to_dict r)) (vr_checks v))),
     (''error'', opt_val PStr (vr_error v))]"

definition verification_from_dict :: "pyenv \<Rightarrow> pydict \<Rightarrow> verification_result res" where
  "verification_from_dict E d =
     bindR (VerificationStatus (str_or E (dict_get d ''status'') ''NOT_APPLICABLE'')) (\<lambda>st.
     bindR (py_int E (py_or (dict_get d ''attempt'') (PInt 0))) (\<lambda>n.
     Ok \<lparr>vr_status = st, vr_attempt = max 0 n,
         vr_checks = map (check_result_from_dict E) (py_dicts (dict_get d ''checks'')),
         vr_error = py_optional_str E (dict_get d ''error'')\<rparr>))"

text \<open>\<^verbatim>\<open>verification_feedback\<close>; \<open>nl\<close> is the newline.\<close>

definition nl :: string where
  "nl = [char_of (10::nat)]"

definition verification_feedback :: "verification_result \<Rightarrow> string" where
  "verification_feedback v = py_join nl (
     [''[completion verification feedback]'',
      ''status: '' @ verification_status_value (vr_status v),
      ''attempt: '' @ int_repr (vr_attempt v),
      ''failed_checks:'']
     @ map (\<lambda>c. ''- '' @ cr_check_id c @ '': '' @ cr_reason c) (failed_checks v)
     @ (case vr_error v of None \<Rightarrow> [] | Some e \<Rightarrow> if e = [] then [] else [''- verifier_error: '' @ e])
     @ [''Continue the task and address these deterministic acceptance criteria.'',
        ''[end completion verification feedback]''])"

end
