(* ===== verification/Verification.thy ===== *)
theory Verification
  imports CompletionModels PlanCodec ToolRecord
begin

text \<open>
  The deterministic verifier of \<^verbatim>\<open>runtime/completion.py\<close>: \<^verbatim>\<open>CompletionVerifier.verify\<close> with every
  kind of check, over the run, its durable tool records, its child runs and its workspace.
\<close>

section \<open>Evidence\<close>

text \<open>
  The workspace: its resolved root, where a path given relative to it or absolutely resolves
  to (\<^verbatim>\<open>Path.resolve\<close>), and whether something exists there.
\<close>

record workspace_files =
  wf_root :: "string list"
  wf_resolve :: "string \<Rightarrow> string list"
  wf_exists :: "string list \<Rightarrow> bool"

definition workspace_artifact_exists :: "workspace_files \<Rightarrow> string \<Rightarrow> bool" where
  "workspace_artifact_exists A p \<longleftrightarrow>
     take (length (wf_root A)) (wf_resolve A p) = wf_root A \<and> wf_exists A (wf_resolve A p)"

definition candidate_output :: "pyenv \<Rightarrow> run_state \<Rightarrow> string" where
  "candidate_output E st =
     (case find (\<lambda>m. m_role m = ''assistant'' \<and> m_tool_calls m = []) (rev (r_messages st)) of
        Some m \<Rightarrow> py_str E (content_value (m_content m))
      | None \<Rightarrow> r_output_text st)"

fun is_str :: "pyval \<Rightarrow> bool" where
  "is_str (PStr s) = True"
| "is_str v = False"

definition strings_of :: "pyval \<Rightarrow> string list res" where
  "strings_of v =
     (case v of
        PStr s \<Rightarrow> Ok [s]
      | PNone \<Rightarrow> Ok []
      | PList xs \<Rightarrow>
          if list_all is_str xs then Ok (map (\<lambda>x. case x of PStr s \<Rightarrow> s | _ \<Rightarrow> []) xs)
          else Raise (ValueError ''completion check value must be a string or list of strings'')
      | _ \<Rightarrow> Raise (ValueError ''completion check value must be a string or list of strings''))"

section \<open>Plan tasks\<close>

definition child_completed :: "(string \<Rightarrow> run_state option res) \<Rightarrow> string \<Rightarrow> bool res" where
  "child_completed load i =
     bindR (load i) (\<lambda>c. Ok (case c of None \<Rightarrow> False | Some s \<Rightarrow> r_status s = RunCOMPLETED))"

text \<open>The identifiers, among the selected ones, whose child run is not completed.\<close>

fun incomplete_children :: "(string \<Rightarrow> run_state option res) \<Rightarrow> (string \<times> task) list \<Rightarrow> string list
    \<Rightarrow> string list res" where
  "incomplete_children load tasks [] = Ok []"
| "incomplete_children load tasks (i # is) =
     (case map_of tasks i of
        None \<Rightarrow> incomplete_children load tasks is
      | Some t \<Rightarrow>
          (case t_child_run_id t of
             None \<Rightarrow> incomplete_children load tasks is
           | Some c \<Rightarrow>
               if c = [] then incomplete_children load tasks is
               else bindR (child_completed load c) (\<lambda>ok.
                    bindR (incomplete_children load tasks is) (\<lambda>rest.
                    Ok (if ok then rest else i # rest)))))"

definition by_id :: "task list \<Rightarrow> (string \<times> task) list" where
  "by_id ts = foldl (\<lambda>d t. dict_set (t_id t) t d) [] ts"

definition check_plan_tasks :: "pyenv \<Rightarrow> (string \<Rightarrow> run_state option res) \<Rightarrow> run_state \<Rightarrow> string list
    \<Rightarrow> (bool \<times> string) res" where
  "check_plan_tasks E load st required =
     (case dict_get (r_strategy_state st) ''plan'' of
        PDict raw \<Rightarrow>
          bindR (plan_from_dict E raw) (\<lambda>pl.
          let tasks = by_id (all_tasks pl);
              selected = (if required = [] then dict_keys tasks else required);
              missing = sort (filter (\<lambda>i. map_of tasks i = None) selected);
              incomplete = sort (filter (\<lambda>i. case map_of tasks i of None \<Rightarrow> False
                 | Some t \<Rightarrow> task.t_status t \<noteq> COMPLETED) selected)
          in bindR (incomplete_children load tasks selected) (\<lambda>children.
             Ok (if missing \<noteq> [] \<or> incomplete \<noteq> [] \<or> children \<noteq> []
                 then (False, py_join ''; ''
                   ((if missing = [] then [] else [''missing: '' @ py_join '', '' missing])
                    @ (if incomplete = [] then [] else [''incomplete: '' @ py_join '', '' incomplete])
                    @ (if children = [] then []
                       else [''child runs incomplete: '' @ py_join '', '' (sort children)])))
                 else (True, ''required plan tasks and child runs completed''))))
      | _ \<Rightarrow> Ok (False, ''no durable plan state exists''))"

section \<open>One check\<close>

text \<open>\<open>ve_load\<close> and \<open>ve_list_tools\<close> are the operations of the store the verifier is given.\<close>

record verifier =
  ve_py :: pyenv
  ve_files :: workspace_files
  ve_load :: "string \<Rightarrow> run_state option res"
  ve_list_tools :: "string \<Rightarrow> tool_record list res"

definition verdict :: "bool \<Rightarrow> string \<Rightarrow> string \<Rightarrow> bool \<times> string" where
  "verdict passed yes no = (passed, if passed then yes else no)"

definition tool_names :: "tool_record list \<Rightarrow> string list" where
  "tool_names records = map t_tool_name records"

definition check_successful :: "tool_record list \<Rightarrow> string list \<Rightarrow> string \<Rightarrow> bool \<times> string" where
  "check_successful records names wanted =
     verdict (list_ex (\<lambda>r. t_tool_name r \<in> set names \<and> tool_record.t_status r = ToolSUCCEEDED
           \<and> \<not> t_is_error r
           \<and> (wanted = [] \<or> contains wanted (case tool_record.t_result r of None \<Rightarrow> [] | Some s \<Rightarrow> s))) records)
       ''successful durable tool evidence found'' ''no successful durable tool execution matched''"

definition check_output :: "pyenv \<Rightarrow> pydict \<Rightarrow> string list \<Rightarrow> string \<Rightarrow> bool \<times> string" where
  "check_output E config expected output =
     (let sensitive = truthy (dict_get_default config ''case_sensitive'' (PBool False));
          fold = (\<lambda>s. if sensitive then s else casefold E s);
          found = map (\<lambda>x. contains (fold x) (fold output)) expected
      in verdict (if truthy (dict_get_default config ''match_all'' (PBool True))
                  then list_all id found else list_ex id found)
           ''required output text found'' ''required output text missing'')"

definition check_exact :: "pyenv \<Rightarrow> pydict \<Rightarrow> string \<Rightarrow> bool \<times> string" where
  "check_exact E config output =
     (let expected = str_or E (dict_get config ''expected'') [];
          strip = (\<lambda>s. if truthy (dict_get_default config ''strip'' (PBool True)) then py_strip s else s);
          fold = (\<lambda>s. if truthy (dict_get_default config ''case_sensitive'' (PBool True)) then s
                      else casefold E s)
      in verdict (fold (strip output) = fold (strip expected))
           ''output exactly matched'' ''output did not exactly match'')"

text \<open>The branches of \<^verbatim>\<open>_run_check\<close>: whether the check passed, and why.\<close>

definition judge :: "verifier \<Rightarrow> run_state \<Rightarrow> tool_record list \<Rightarrow> run_status \<Rightarrow> completion_check
    \<Rightarrow> (bool \<times> string) res" where
  "judge V st records candidate c =
     (let config = ck_config c; E = ve_py V;
          refuse = (\<lambda>xs m. guardR (xs \<noteq> []) (ValueError m))
      in if ck_type c = ''run_status'' then
           bindR (strings_of (dict_get_default config ''accepted'' (PList [PStr (run_status_value RunCOMPLETED)])))
             (\<lambda>accepted. Ok (verdict (run_status_value candidate \<in> set accepted)
               (''candidate status '' @ run_status_value candidate @ '' is accepted'')
               (''candidate status '' @ run_status_value candidate @ '' is not accepted'')))
         else if ck_type c = ''required_tools'' then
           bindR (strings_of (dict_get config ''tools'')) (\<lambda>required.
           bindR (refuse required ''required_tools.tools must not be empty'') (\<lambda>_.
           let missing = sorted_texts (filter (\<lambda>x. x \<notin> set (tool_names records)) required)
           in Ok (verdict (missing = []) ''required tools were used''
                    (''missing tools: '' @ py_join '', '' missing))))
         else if ck_type c = ''forbidden_tools'' then
           bindR (strings_of (dict_get config ''tools'')) (\<lambda>forbidden.
           bindR (refuse forbidden ''forbidden_tools.tools must not be empty'') (\<lambda>_.
           let found = sorted_texts (filter (\<lambda>x. x \<in> set (tool_names records)) forbidden)
           in Ok (verdict (found = []) ''forbidden tools were not used''
                    (''forbidden tools used: '' @ py_join '', '' found))))
         else if ck_type c = ''successful_tool'' then
           bindR (strings_of (dict_get_default config ''tools'' (dict_get config ''tool''))) (\<lambda>names.
           bindR (refuse names ''successful_tool.tool must not be empty'') (\<lambda>_.
           Ok (check_successful records names (str_or E (dict_get config ''result_contains'') []))))
         else if ck_type c = ''output_contains'' then
           bindR (strings_of (dict_get config ''expected'')) (\<lambda>expected.
           bindR (guardR (expected \<noteq> [] \<and> [] \<notin> set expected)
             (ValueError ''output_contains.expected must not be empty'')) (\<lambda>_.
           Ok (check_output E config expected (candidate_output E st))))
         else if ck_type c = ''output_exact'' then Ok (check_exact E config (candidate_output E st))
         else if ck_type c = ''artifacts_exist'' then
           bindR (strings_of (dict_get config ''paths'')) (\<lambda>paths.
           bindR (refuse paths ''artifacts_exist.paths must not be empty'') (\<lambda>_.
           let missing = filter (\<lambda>p. \<not> workspace_artifact_exists (ve_files V) p) paths
           in Ok (verdict (missing = []) ''required artifacts exist''
                    (''missing artifacts: '' @ py_join '', '' missing))))
         else if ck_type c = ''plan_tasks_completed'' then
           bindR (strings_of (dict_get config ''task_ids'')) (\<lambda>ids.
           check_plan_tasks E (ve_load V) st ids)
         else Raise (ValueError (''unknown completion check: '' @ ck_type c)))"

definition run_check :: "verifier \<Rightarrow> run_state \<Rightarrow> tool_record list \<Rightarrow> run_status \<Rightarrow> completion_check
    \<Rightarrow> check_result res" where
  "run_check V st records candidate c =
     bindR (judge V st records candidate c) (\<lambda>(passed, reason).
     Ok \<lparr>cr_check_id = ck_id c, cr_check_type = ck_type c, cr_passed = passed,
         cr_required = ck_required c, cr_reason = reason\<rparr>)"

section \<open>The verification\<close>

definition needs_tool_evidence :: "contract \<Rightarrow> bool" where
  "needs_tool_evidence k \<longleftrightarrow>
     list_ex (\<lambda>c. ck_type c \<in> {''required_tools'', ''forbidden_tools'', ''successful_tool''}) (co_checks k)"

definition tool_evidence :: "verifier \<Rightarrow> run_state \<Rightarrow> contract \<Rightarrow> tool_record list res" where
  "tool_evidence V st k = (if needs_tool_evidence k then ve_list_tools V (r_run_id st) else Ok [])"

definition verify_completion :: "verifier \<Rightarrow> run_status \<Rightarrow> run_state \<Rightarrow> contract \<Rightarrow> int \<Rightarrow> verification_result" where
  "verify_completion V candidate st k attempt =
     (if co_checks k = []
      then \<lparr>vr_status = NOT_APPLICABLE, vr_attempt = attempt, vr_checks = [], vr_error = None\<rparr>
      else case bindR (tool_evidence V st k) (\<lambda>records.
                  mapR (run_check V st records candidate) (co_checks k)) of
             Inl e \<Rightarrow> \<lparr>vr_status = VERIFICATION_ERROR, vr_attempt = attempt, vr_checks = [],
                      vr_error = Some (take 1000 (exn_class e @ '': '' @ exn_str (ve_py V) e))\<rparr>
           | Inr results \<Rightarrow>
               \<lparr>vr_status = (if list_ex (\<lambda>r. cr_required r \<and> \<not> cr_passed r) results
                             then NOT_VERIFIED else VERIFIED),
                vr_attempt = attempt, vr_checks = results, vr_error = None\<rparr>)"

section \<open>What a verification means\<close>

text \<open>Every check could be evaluated, and every required one passed.\<close>

definition contract_met :: "verifier \<Rightarrow> run_status \<Rightarrow> run_state \<Rightarrow> contract \<Rightarrow> bool" where
  "contract_met V candidate st k \<longleftrightarrow>
     (case tool_evidence V st k of
        Inl e \<Rightarrow> False
      | Inr records \<Rightarrow> list_all (\<lambda>c. case judge V st records candidate c of
            Inl e \<Rightarrow> False | Inr (passed, reason) \<Rightarrow> ck_required c \<longrightarrow> passed) (co_checks k))"

lemma mapR_all:
  "(case mapR f xs of Inl e \<Rightarrow> False | Inr ys \<Rightarrow> list_all P ys) =
     list_all (\<lambda>x. case f x of Inl e \<Rightarrow> False | Inr y \<Rightarrow> P y) xs"
proof (induction xs)
  case (Cons x xs)
  then show ?case by (cases "f x"; cases "mapR f xs") simp_all
qed simp

lemma run_check_passes:
  "(case run_check V st records candidate c of Inl e \<Rightarrow> False | Inr r \<Rightarrow> cr_required r \<longrightarrow> cr_passed r) =
   (case judge V st records candidate c of Inl e \<Rightarrow> False | Inr (passed, reason) \<Rightarrow> ck_required c \<longrightarrow> passed)"
  by (cases "judge V st records candidate c") (auto simp: run_check_def)

lemma verified_status:
  "vr_status (verify_completion V candidate st k attempt) = VERIFIED \<longleftrightarrow>
     co_checks k \<noteq> [] \<and> contract_met V candidate st k"
proof (cases "tool_evidence V st k")
  case (Inl e)
  then show ?thesis by (simp add: verify_completion_def contract_met_def)
next
  case (Inr records)
  have "contract_met V candidate st k =
      (case mapR (run_check V st records candidate) (co_checks k) of Inl e \<Rightarrow> False
       | Inr rs \<Rightarrow> list_all (\<lambda>r. cr_required r \<longrightarrow> cr_passed r) rs)"
    by (simp add: contract_met_def Inr mapR_all run_check_passes)
  then show ?thesis
    by (cases "mapR (run_check V st records candidate) (co_checks k)")
      (auto simp: verify_completion_def Inr list_all_iff list_ex_iff)
qed

lemma not_applicable_status:
  "vr_status (verify_completion V candidate st k attempt) = NOT_APPLICABLE \<longleftrightarrow> co_checks k = []"
  by (auto simp: verify_completion_def split: sum.split)

lemma mapR_raises: "(\<exists>e. mapR f xs = Raise e) \<longleftrightarrow> (\<exists>x \<in> set xs. \<exists>e. f x = Raise e)"
proof (induction xs)
  case (Cons x xs)
  then show ?case by (cases "f x"; cases "mapR f xs") (auto simp: bindR_Raise_iff)
qed simp

text \<open>Some evidence could not be read, or some check could not be evaluated.\<close>

definition contract_undecided :: "verifier \<Rightarrow> run_status \<Rightarrow> run_state \<Rightarrow> contract \<Rightarrow> bool" where
  "contract_undecided V candidate st k \<longleftrightarrow>
     (case tool_evidence V st k of
        Inl e \<Rightarrow> True
      | Inr records \<Rightarrow> list_ex (\<lambda>c. case judge V st records candidate c of Inl e \<Rightarrow> True | Inr _ \<Rightarrow> False)
          (co_checks k))"

lemma undecided_status:
  "vr_status (verify_completion V candidate st k attempt) = VERIFICATION_ERROR \<longleftrightarrow>
     co_checks k \<noteq> [] \<and> contract_undecided V candidate st k"
proof (cases "tool_evidence V st k")
  case (Inl e)
  then show ?thesis by (simp add: verify_completion_def contract_undecided_def)
next
  case (Inr records)
  have "(\<exists>e. run_check V st records candidate c = Raise e) \<longleftrightarrow>
      (case judge V st records candidate c of Inl e \<Rightarrow> True | Inr _ \<Rightarrow> False)" for c
    by (cases "judge V st records candidate c") (auto simp: run_check_def)
  then have "contract_undecided V candidate st k \<longleftrightarrow>
      (\<exists>e. mapR (run_check V st records candidate) (co_checks k) = Raise e)"
    by (simp add: contract_undecided_def Inr mapR_raises list_ex_iff)
  then show ?thesis
    by (cases "mapR (run_check V st records candidate) (co_checks k)") (auto simp: verify_completion_def Inr)
qed

text \<open>
  C26: A verification never turns uncertainty into success: it answers VERIFIED exactly when the
  contract has checks, all could be evaluated and the required ones passed, ERROR exactly when
  some could not be evaluated, and NOT_APPLICABLE exactly when there is nothing to check.
\<close>

theorem verification_is_exact:
  "(vr_status (verify_completion V candidate st k attempt) = VERIFIED \<longleftrightarrow>
      co_checks k \<noteq> [] \<and> contract_met V candidate st k) \<and>
   (vr_status (verify_completion V candidate st k attempt) = VERIFICATION_ERROR \<longleftrightarrow>
      co_checks k \<noteq> [] \<and> contract_undecided V candidate st k) \<and>
   (vr_status (verify_completion V candidate st k attempt) = NOT_APPLICABLE \<longleftrightarrow> co_checks k = [])"
  by (simp add: verified_status undecided_status not_applicable_status)

end
