(* ===== verification/Effects.thy ===== *)
theory Effects
  imports PyText
begin

text \<open>
  A small effect monad for the durable runtime (\<^verbatim>\<open>runtime/durable.py\<close>). A computation changes a
  world, the durable store plus what the model records about the process, and ends in one of
  the ways Python code can end: a value, an exception, a cancellation of the task (which
  \<^verbatim>\<open>except Exception\<close> does not catch), or the death of the process. The process can die right
  before any effect: \<open>w_lives\<close> counts the effects left to it, \<open>None\<close> is a process that does
  not die. A death after the last effect loses only memory, as no death at all.
\<close>

datatype 'a outcome = Done 'a | Failed exn | Cancelled | Crashed | OutOfFuel

text \<open>
  \<open>w_tick\<close> numbers the reads of the clock, the random source and the surroundings: what they
  answer may change from read to read. \<open>w_calls\<close> is the history of calls of tool handlers,
  as pairs of invocation identifier and attempt.
\<close>

record 's world =
  w_store :: 's
  w_lives :: "nat option"
  w_tick :: nat
  w_calls :: "(string \<times> int) list"

type_synonym ('s, 'a) eff = "'s world \<Rightarrow> 's world \<times> 'a outcome"

definition fresh_world :: "'s \<Rightarrow> 's world" where
  "fresh_world s = \<lparr>w_store = s, w_lives = None, w_tick = 0, w_calls = []\<rparr>"

definition retE :: "'a \<Rightarrow> ('s, 'a) eff" where
  "retE a w = (w, Done a)"

definition raiseE :: "exn \<Rightarrow> ('s, 'a) eff" where
  "raiseE e w = (w, Failed e)"

fun other_outcome :: "'a outcome \<Rightarrow> 'b outcome" where
  "other_outcome (Failed e) = Failed e"
| "other_outcome Cancelled = Cancelled"
| "other_outcome Crashed = Crashed"
| "other_outcome (Done a) = OutOfFuel"
| "other_outcome OutOfFuel = OutOfFuel"

definition bindE :: "('s, 'a) eff \<Rightarrow> ('a \<Rightarrow> ('s, 'b) eff) \<Rightarrow> ('s, 'b) eff" where
  "bindE m f w = (case m w of
       (w', Done a) \<Rightarrow> f a w'
     | (w', r) \<Rightarrow> (w', other_outcome r))"

definition liftR :: "'a res \<Rightarrow> ('s, 'a) eff" where
  "liftR r = (case r of Inl e \<Rightarrow> raiseE e | Inr a \<Rightarrow> retE a)"

text \<open>\<^verbatim>\<open>try: m except Exception as exc: h(exc)\<close>\<close>

definition catchE :: "('s, 'a) eff \<Rightarrow> (exn \<Rightarrow> ('s, 'a) eff) \<Rightarrow> ('s, 'a) eff" where
  "catchE m h w = (case m w of (w', Failed e) \<Rightarrow> h e w' | r \<Rightarrow> r)"

text \<open>A point where the process may die first.\<close>

definition effectE :: "('s, 'a) eff \<Rightarrow> ('s, 'a) eff" where
  "effectE m w = (case w_lives w of
       None \<Rightarrow> m w
     | Some 0 \<Rightarrow> (w, Crashed)
     | Some (Suc n) \<Rightarrow> m (w\<lparr>w_lives := Some n\<rparr>))"

definition tickE :: "('s, nat) eff" where
  "tickE w = (w\<lparr>w_tick := Suc (w_tick w)\<rparr>, Done (w_tick w))"

definition readE :: "('s \<Rightarrow> 'a res) \<Rightarrow> ('s, 'a) eff" where
  "readE f w = liftR (f (w_store w)) w"

text \<open>An operation on the store. It may change the store even when it raises.\<close>

definition storeE :: "(nat \<Rightarrow> 's \<Rightarrow> 's \<times> 'a res) \<Rightarrow> ('s, 'a) eff" where
  "storeE f = effectE (bindE tickE (\<lambda>n w.
     case f n (w_store w) of (s, r) \<Rightarrow> liftR r (w\<lparr>w_store := s\<rparr>)))"

definition logE :: "string \<Rightarrow> int \<Rightarrow> ('s, unit) eff" where
  "logE i attempt w = (w\<lparr>w_calls := w_calls w @ [(i, attempt)]\<rparr>, Done ())"

named_theorems eff_simps \<open>computation rules of the effect monad\<close>

lemma bindE_simps [eff_simps]:
  "m w = (w', Done a) \<Longrightarrow> bindE m f w = f a w'"
  "m w = (w', Failed e) \<Longrightarrow> bindE m f w = (w', Failed e)"
  "m w = (w', Cancelled) \<Longrightarrow> bindE m f w = (w', Cancelled)"
  "m w = (w', Crashed) \<Longrightarrow> bindE m f w = (w', Crashed)"
  "m w = (w', OutOfFuel) \<Longrightarrow> bindE m f w = (w', OutOfFuel)"
  by (simp_all add: bindE_def)

lemma bindE_ret [simp, eff_simps]: "bindE (retE a) f = f a"
  by (simp add: bindE_def retE_def fun_eq_iff)

lemma bindE_raise [simp, eff_simps]: "bindE (raiseE e) f = raiseE e"
  by (simp add: bindE_def raiseE_def fun_eq_iff)

lemma liftR_simps [simp, eff_simps]: "liftR (Inl e) = raiseE e" "liftR (Inr a) = retE a"
  by (simp_all add: liftR_def)

section \<open>Reasoning\<close>

text \<open>
  \<open>preserves P m\<close>: whatever way \<open>m\<close> ends, a world with \<open>P\<close> stays one. \<open>triple P m Q\<close>
  also says what holds when \<open>m\<close> returns a value.
\<close>

definition triple :: "('s world \<Rightarrow> bool) \<Rightarrow> ('s, 'a) eff \<Rightarrow> ('a \<Rightarrow> 's world \<Rightarrow> bool)
    \<Rightarrow> ('s world \<Rightarrow> bool) \<Rightarrow> bool" where
  "triple P m Q X \<longleftrightarrow> (\<forall>w w' r. P w \<longrightarrow> m w = (w', r) \<longrightarrow>
     (case r of Done a \<Rightarrow> Q a w' | _ \<Rightarrow> X w'))"

lemma tripleI:
  assumes "\<And>w w' r. P w \<Longrightarrow> m w = (w', r) \<Longrightarrow> (case r of Done a \<Rightarrow> Q a w' | _ \<Rightarrow> X w')"
  shows "triple P m Q X"
  using assms by (simp add: triple_def)

lemma tripleD:
  assumes "triple P m Q X" "P w" "m w = (w', r)"
  shows "(\<exists>a. r = Done a \<and> Q a w') \<or> X w'"
proof -
  have "case r of Done a \<Rightarrow> Q a w' | _ \<Rightarrow> X w'" using assms unfolding triple_def by blast
  then show ?thesis by (cases r) simp_all
qed

lemma triple_ret: "(\<And>w. P w \<Longrightarrow> Q a w) \<Longrightarrow> triple P (retE a) Q X"
  by (simp add: triple_def retE_def)

lemma triple_raise: "(\<And>w. P w \<Longrightarrow> X w) \<Longrightarrow> triple P (raiseE e) Q X"
  by (simp add: triple_def raiseE_def)

lemma triple_liftR:
  "(\<And>a w. r = Inr a \<Longrightarrow> P w \<Longrightarrow> Q a w) \<Longrightarrow> (\<And>w. P w \<Longrightarrow> X w) \<Longrightarrow> triple P (liftR r) Q X"
  by (cases r) (auto intro: triple_ret triple_raise)

lemma triple_apply:
  "triple P m Q X \<Longrightarrow> P w \<Longrightarrow> m w = (w', r) \<Longrightarrow> (case r of Done a \<Rightarrow> Q a w' | _ \<Rightarrow> X w')"
  by (simp add: triple_def)

lemma triple_bind:
  assumes "triple P m Q X" "\<And>a. triple (Q a) (f a) R X"
  shows "triple P (bindE m f) R X"
proof (rule tripleI)
  fix w w' r assume P: "P w" and run: "bindE m f w = (w', r)"
  obtain w1 r1 where m: "m w = (w1, r1)" by fastforce
  note H = triple_apply[OF assms(1) P m]
  show "case r of Done a \<Rightarrow> R a w' | _ \<Rightarrow> X w'"
  proof (cases r1)
    case (Done a)
    with H have "Q a w1" by simp
    moreover have "f a w1 = (w', r)" using run m Done by (simp add: bindE_def)
    ultimately show ?thesis by (rule triple_apply[OF assms(2)])
  next
    case (Failed e)
    then have "w' = w1" "r = Failed e" using run m by (simp_all add: bindE_def)
    with H Failed show ?thesis by simp
  next
    case Cancelled
    then have "w' = w1" "r = Cancelled" using run m by (simp_all add: bindE_def)
    with H Cancelled show ?thesis by simp
  next
    case Crashed
    then have "w' = w1" "r = Crashed" using run m by (simp_all add: bindE_def)
    with H Crashed show ?thesis by simp
  next
    case OutOfFuel
    then have "w' = w1" "r = OutOfFuel" using run m by (simp_all add: bindE_def)
    with H OutOfFuel show ?thesis by simp
  qed
qed

lemma triple_weaken:
  assumes "triple P' m Q' X'" "\<And>w. P w \<Longrightarrow> P' w" "\<And>a w. Q' a w \<Longrightarrow> Q a w" "\<And>w. X' w \<Longrightarrow> X w"
  shows "triple P m Q X"
proof (rule tripleI)
  fix w w' r assume "P w" "m w = (w', r)"
  with triple_apply[OF assms(1) assms(2)] have "case r of Done a \<Rightarrow> Q' a w' | _ \<Rightarrow> X' w'" by blast
  with assms(3,4) show "case r of Done a \<Rightarrow> Q a w' | _ \<Rightarrow> X w'" by (cases r) simp_all
qed

lemma triple_catch:
  assumes "triple P m Q X" "\<And>e. triple X (h e) Q X"
  shows "triple P (catchE m h) Q X"
proof (rule tripleI)
  fix w w' r assume P: "P w" and run: "catchE m h w = (w', r)"
  obtain w1 r1 where m: "m w = (w1, r1)" by fastforce
  note H = triple_apply[OF assms(1) P m]
  show "case r of Done a \<Rightarrow> Q a w' | _ \<Rightarrow> X w'"
  proof (cases r1)
    case (Failed e)
    with H have "X w1" by simp
    moreover have "h e w1 = (w', r)" using run m Failed by (simp add: catchE_def)
    ultimately show ?thesis by (rule triple_apply[OF assms(2)])
  next
    case (Done a)
    then have "w' = w1" "r = Done a" using run m by (simp_all add: catchE_def)
    with H Done show ?thesis by simp
  next
    case Cancelled
    then have "w' = w1" "r = Cancelled" using run m by (simp_all add: catchE_def)
    with H Cancelled show ?thesis by simp
  next
    case Crashed
    then have "w' = w1" "r = Crashed" using run m by (simp_all add: catchE_def)
    with H Crashed show ?thesis by simp
  next
    case OutOfFuel
    then have "w' = w1" "r = OutOfFuel" using run m by (simp_all add: catchE_def)
    with H OutOfFuel show ?thesis by simp
  qed
qed

lemma triple_effect:
  assumes "triple P m Q X" "\<And>w n. P w \<Longrightarrow> P (w\<lparr>w_lives := n\<rparr>)" "\<And>w. P w \<Longrightarrow> X w"
  shows "triple P (effectE m) Q X"
proof (rule tripleI)
  fix w w' r assume P: "P w" and run: "effectE m w = (w', r)"
  show "case r of Done a \<Rightarrow> Q a w' | _ \<Rightarrow> X w'"
  proof (cases "w_lives w")
    case None
    then have "m w = (w', r)" using run by (simp add: effectE_def)
    with P show ?thesis by (rule triple_apply[OF assms(1)])
  next
    case (Some n)
    show ?thesis
    proof (cases n)
      case 0
      with Some run have "w' = w" "r = Crashed" by (simp_all add: effectE_def)
      with assms(3)[OF P] show ?thesis by simp
    next
      case (Suc k)
      with Some run have "m (w\<lparr>w_lives := Some k\<rparr>) = (w', r)" by (simp add: effectE_def)
      with assms(2)[OF P] show ?thesis by (rule triple_apply[OF assms(1)])
    qed
  qed
qed

lemma triple_read:
  assumes "\<And>w a. P w \<Longrightarrow> f (w_store w) = Inr a \<Longrightarrow> Q a w" "\<And>w. P w \<Longrightarrow> X w"
  shows "triple P (readE f) Q X"
  using assms by (auto simp: triple_def readE_def liftR_def retE_def raiseE_def split: sum.splits)

lemma triple_tick:
  assumes "\<And>w n. P w \<Longrightarrow> Q (w_tick w) (w\<lparr>w_tick := Suc (w_tick w)\<rparr>)"
  shows "triple P tickE Q X"
  using assms by (auto simp: triple_def tickE_def)

lemma triple_store:
  assumes stable: "\<And>w n. P w \<Longrightarrow> P (w\<lparr>w_lives := n\<rparr>)"
    and step: "\<And>w n s r. P w \<Longrightarrow> f n (w_store w) = (s, r) \<Longrightarrow>
        (case r of Inr a \<Rightarrow> Q a (w\<lparr>w_tick := Suc (w_tick w), w_store := s\<rparr>)
         | Inl e \<Rightarrow> X (w\<lparr>w_tick := Suc (w_tick w), w_store := s\<rparr>))"
    and crash: "\<And>w. P w \<Longrightarrow> X w"
  shows "triple P (storeE f) Q X"
  unfolding storeE_def
proof (rule triple_effect)
  show "triple P (bindE tickE (\<lambda>n w. case f n (w_store w) of (s, r) \<Rightarrow>
      liftR r (w\<lparr>w_store := s\<rparr>))) Q X"
  proof (rule tripleI)
    fix w w' r
    assume P: "P w" and run: "bindE tickE (\<lambda>n w. case f n (w_store w) of (s, r) \<Rightarrow>
        liftR r (w\<lparr>w_store := s\<rparr>)) w = (w', r)"
    obtain s q where f: "f (w_tick w) (w_store w) = (s, q)" by fastforce
    from step[OF P f] run f show "case r of Done a \<Rightarrow> Q a w' | _ \<Rightarrow> X w'"
      by (cases q) (auto simp: bindE_def tickE_def retE_def raiseE_def)
  qed
qed (use stable crash in auto)

section \<open>Computations that end\<close>

text \<open>\<open>ends P m\<close>: from a world with \<open>P\<close>, \<open>m\<close> does not run out of fuel.\<close>

definition ends :: "('s world \<Rightarrow> bool) \<Rightarrow> ('s, 'a) eff \<Rightarrow> bool" where
  "ends P m \<longleftrightarrow> (\<forall>w. P w \<longrightarrow> snd (m w) \<noteq> OutOfFuel)"

abbreviation halts :: "('s, 'a) eff \<Rightarrow> bool" where
  "halts m \<equiv> ends (\<lambda>_. True) m"

lemma ends_halts: "halts m \<Longrightarrow> ends P m"
  by (simp add: ends_def)

lemma other_outcome_fuel: "r \<noteq> OutOfFuel \<Longrightarrow> (\<And>a. r \<noteq> Done a) \<Longrightarrow> other_outcome r \<noteq> OutOfFuel"
  by (cases r) auto

lemma ends_bind:
  assumes "ends P m" "triple P m Q X" "\<And>a. ends (Q a) (f a)"
  shows "ends P (bindE m f)"
  unfolding ends_def
proof (intro allI impI)
  fix w assume P: "P w"
  obtain w1 r where m: "m w = (w1, r)" by fastforce
  have r: "r \<noteq> OutOfFuel" using assms(1) P m by (auto simp: ends_def)
  show "snd (bindE m f w) \<noteq> OutOfFuel"
  proof (cases r)
    case (Done a)
    with triple_apply[OF assms(2) P m] assms(3) show ?thesis
      by (simp add: bindE_def m ends_def)
  qed (use r in \<open>simp_all add: bindE_def m\<close>)
qed

lemma ends_pure: "(\<phi> \<Longrightarrow> ends P m) \<Longrightarrow> ends (\<lambda>w. P w \<and> \<phi>) m"
  by (simp add: ends_def)

lemma ends_if: "(b \<Longrightarrow> ends P m1) \<Longrightarrow> (\<not> b \<Longrightarrow> ends P m2) \<Longrightarrow> ends P (if b then m1 else m2)"
  by simp

lemma ends_liftR: "(\<And>a. r = Ok a \<Longrightarrow> ends P (f a)) \<Longrightarrow> ends P (bindE (liftR r) f)"
  by (cases r) (auto simp: ends_def raiseE_def)

named_theorems halts_intros \<open>rules that reduce that a computation ends to its parts\<close>

lemma halts_bind [halts_intros]: "halts m \<Longrightarrow> (\<And>a. halts (f a)) \<Longrightarrow> halts (bindE m f)"
  by (rule ends_bind[where Q = "\<lambda>_ _. True" and X = "\<lambda>_. True"])
    (auto simp: triple_def split: outcome.split)

lemma halts_basic [halts_intros]:
  "halts (retE a)" "halts (raiseE e)" "halts tickE" "halts (logE i k)"
  by (simp_all add: ends_def retE_def raiseE_def tickE_def logE_def)

lemma halts_liftR [halts_intros]: "halts (liftR r)"
  by (cases r) (simp_all add: halts_basic)

lemma halts_read [halts_intros]: "halts (readE f)"
  using halts_liftR by (auto simp: ends_def readE_def)

lemma halts_effect [halts_intros]: "halts m \<Longrightarrow> halts (effectE m)"
  by (auto simp: ends_def effectE_def split: option.split nat.split)

lemma halts_store [halts_intros]: "halts (storeE f)"
  unfolding storeE_def
  by (intro halts_intros) (use halts_liftR in \<open>auto simp: ends_def split: prod.split\<close>)

lemma halts_catch [halts_intros]: "halts m \<Longrightarrow> (\<And>e. halts (h e)) \<Longrightarrow> halts (catchE m h)"
  by (auto simp: ends_def catchE_def split: prod.split outcome.split) (metis snd_conv)

lemma halts_if [halts_intros]: "halts m1 \<Longrightarrow> halts m2 \<Longrightarrow> halts (if b then m1 else m2)"
  by simp

lemma halts_cases [halts_intros]:
  "(\<And>a. halts (f a)) \<Longrightarrow> (\<And>b. halts (g b)) \<Longrightarrow> halts (case x of Inl a \<Rightarrow> f a | Inr b \<Rightarrow> g b)"
  "halts m \<Longrightarrow> (\<And>b. halts (g b)) \<Longrightarrow> halts (case y of None \<Rightarrow> m | Some b \<Rightarrow> g b)"
  "(\<And>a b. halts (h a b)) \<Longrightarrow> halts (case z of (a, b) \<Rightarrow> h a b)"
  by (simp_all split: sum.split option.split prod.split)

text \<open>A bind keeps what every value of its first part satisfies.\<close>

lemma halts_bind_value:
  assumes "halts m" "\<And>a w w'. m w = (w', Done a) \<Longrightarrow> Q a" "\<And>a. Q a \<Longrightarrow> halts (f a)"
  shows "halts (bindE m f)"
  by (rule ends_bind[where Q = "\<lambda>a _. Q a" and X = "\<lambda>_. True"])
    (use assms in \<open>auto simp: triple_def ends_def split: outcome.split\<close>)

end
