(* ===== verification/Steps.thy ===== *)
theory Steps
  imports CompletionModels Progress
begin

text \<open>
  \<^verbatim>\<open>runtime/steps.py\<close>: the continuation of a run after one step, decided from the durable
  status, the progress detector, the completion verifier and the budget.
\<close>

datatype next_action = ActCONTINUE | ActCOMPLETE | ActWAIT | ActFAIL

fun action_for_status :: "run_status \<Rightarrow> next_action option" where
  "action_for_status RunRUNNING = Some ActCONTINUE"
| "action_for_status RunCOMPLETED = Some ActCOMPLETE"
| "action_for_status RunFAILED = Some ActFAIL"
| "action_for_status RunWAITING_APPROVAL = Some ActWAIT"
| "action_for_status RunWAITING_CHILD = Some ActWAIT"
| "action_for_status RunCANCELLED = None"
| "action_for_status RunINTERRUPTED = None"

text \<open>The keyword arguments of \<^verbatim>\<open>CompletionPolicy.decide\<close>, with their defaults.\<close>

record evidence =
  ev_run_status :: run_status
  ev_proposed :: "next_action option"
  ev_progress :: "progress_decision_type option"
  ev_verification :: "verification_status option"
  ev_allow_correction :: bool
  ev_attempt :: int
  ev_max_corrections :: int
  ev_budget_exhausted :: bool
  ev_fatal_error :: bool

definition evidence_for :: "run_status \<Rightarrow> evidence" where
  "evidence_for s = \<lparr>ev_run_status = s, ev_proposed = None, ev_progress = None,
     ev_verification = None, ev_allow_correction = False, ev_attempt = 0, ev_max_corrections = 0,
     ev_budget_exhausted = False, ev_fatal_error = False\<rparr>"

definition decide_completion :: "evidence \<Rightarrow> next_action option" where
  "decide_completion ev =
     (if ev_run_status ev \<in> {RunCANCELLED, RunINTERRUPTED} then None
      else if ev_budget_exhausted ev \<or> ev_fatal_error ev \<or> ev_run_status ev = RunFAILED
      then Some ActFAIL
      else if ev_progress ev = Some ProgressTERMINATE then Some ActFAIL
      else if ev_progress ev = Some ProgressRECOVER then Some ActCONTINUE
      else
        let action = (case ev_proposed ev of Some a \<Rightarrow> Some a
                        | None \<Rightarrow> action_for_status (ev_run_status ev))
        in case (action, ev_verification ev) of
             (Some ActCOMPLETE, Some v) \<Rightarrow>
               if v = VERIFIED \<or> v = NOT_APPLICABLE then Some ActCOMPLETE
               else if v = NOT_VERIFIED \<and> ev_allow_correction ev \<and>
                  ev_attempt ev \<le> ev_max_corrections ev
               then Some ActCONTINUE
               else Some ActFAIL
           | _ \<Rightarrow> action)"

text \<open>
  \<^verbatim>\<open>StepContext\<close> and \<^verbatim>\<open>StepResult\<close>; the tool invocation identifiers and the ownership are only
  carried for observability.
\<close>

record step_context =
  sc_run_id :: string
  sc_step_index :: int
  sc_strategy :: string
  sc_run_state :: run_state
  sc_control_state :: run_status

record step_result =
  sr_step_index :: int
  sr_run_state :: run_state
  sr_next_action :: "next_action option"

definition propose :: "int \<Rightarrow> run_state \<Rightarrow> next_action \<Rightarrow> step_result" where
  "propose i s a = \<lparr>sr_step_index = i, sr_run_state = s, sr_next_action = Some a\<rparr>"

definition from_run_state :: "int \<Rightarrow> run_state \<Rightarrow> step_result" where
  "from_run_state i s = \<lparr>sr_step_index = i, sr_run_state = s,
     sr_next_action = decide_completion (evidence_for (r_status s))\<rparr>"

end
