(* ===== verification/Permissions.thy ===== *)
theory Permissions
  imports PyText
begin

text \<open>
  \<^verbatim>\<open>policy/permissions.py\<close>, \<^verbatim>\<open>policy/network.py\<close>, \<^verbatim>\<open>policy/path_guard.py\<close>: whether a tool call may
  run, must be approved first, or is refused.
  The facts of the file system and of the network are the argument \<open>N\<close>: where a path
  resolves to, how a URL is parsed and which addresses a host name has.
\<close>

section \<open>Requests and decisions\<close>

datatype permission_action = PermALLOW | PermDENY | PermREQUIRE_APPROVAL

fun permission_action_value :: "permission_action \<Rightarrow> string" where
  "permission_action_value PermALLOW = ''allow''"
| "permission_action_value PermDENY = ''deny''"
| "permission_action_value PermREQUIRE_APPROVAL = ''require_approval''"

record permission_request =
  pq_run_id :: "string option"
  pq_thread_id :: "string option"
  pq_turn_id :: "string option"
  pq_invocation_id :: string
  pq_tool_name :: string
  pq_capabilities :: "string list"
  pq_arguments :: pydict
  pq_workspace :: string
  pq_cwd :: string
  pq_resource_paths :: "string list"
  pq_legacy_requires_approval :: bool

record permission_decision =
  pm_action :: permission_action
  pm_reason :: string
  pm_matched_rule :: "string option"

definition permission :: "permission_action \<Rightarrow> string \<Rightarrow> string \<Rightarrow> permission_decision" where
  "permission a reason rule = \<lparr>pm_action = a, pm_reason = reason, pm_matched_rule = Some rule\<rparr>"

section \<open>The surroundings\<close>

record parsed_url =
  url_scheme :: string
  url_username :: "string option"
  url_password :: "string option"
  url_hostname :: "string option"

text \<open>
  \<open>nf_private\<close> are the properties \<^verbatim>\<open>ipaddress\<close> gives an address (private, loopback,
  link-local, multicast, reserved or unspecified), \<open>nf_address\<close> reads a literal address,
  \<open>nf_resolve\<close> asks the name service (\<open>None\<close>: \<^verbatim>\<open>gaierror\<close>), \<open>nf_path\<close> is
  \<^verbatim>\<open>Path.resolve\<close> of a path inside a root, as its parts, and \<open>nf_name_matches\<close> is
  \<^verbatim>\<open>fnmatch\<close> of the case-folded name of a path against a case-folded pattern.
\<close>

record 'addr net_facts =
  nf_parse :: "string \<Rightarrow> parsed_url"
  nf_address :: "string \<Rightarrow> 'addr option"
  nf_resolve :: "string \<Rightarrow> 'addr list option"
  nf_private :: "'addr \<Rightarrow> bool"
  nf_path :: "string list \<Rightarrow> string \<Rightarrow> string list"
  nf_name_matches :: "string \<Rightarrow> string \<Rightarrow> bool"

section \<open>Network\<close>

record network_policy =
  np_access :: string
  np_allowed_hosts :: "string list"
  np_deny_private :: bool

definition strip_dots :: "string \<Rightarrow> string" where
  "strip_dots s = rev (dropWhile (\<lambda>c. c = CHR ''.'') (rev s))"

definition normalized_hosts :: "pyenv \<Rightarrow> network_policy \<Rightarrow> string list" where
  "normalized_hosts E p = map (\<lambda>h. casefold E (strip_dots (py_strip h)))
     (filter (\<lambda>h. py_strip h \<noteq> []) (np_allowed_hosts p))"

definition ends_with :: "string \<Rightarrow> string \<Rightarrow> bool" where
  "ends_with s suffix \<longleftrightarrow> (length suffix \<le> length s \<and> drop (length s - length suffix) s = suffix)"

definition host_allowed :: "pyenv \<Rightarrow> network_policy \<Rightarrow> string \<Rightarrow> bool" where
  "host_allowed E p host \<longleftrightarrow>
     list_ex (\<lambda>a. host = a \<or> ends_with host (''.'' @ a)) (normalized_hosts E p)"

fun non_empty :: "string option \<Rightarrow> bool" where
  "non_empty None = False"
| "non_empty (Some s) = (s \<noteq> [])"

text \<open>The error of \<^verbatim>\<open>NetworkPolicyError\<close>, or \<open>None\<close> when the URL is accepted.\<close>

definition validate_url :: "pyenv \<Rightarrow> 'addr net_facts \<Rightarrow> network_policy \<Rightarrow> string \<Rightarrow> string option" where
  "validate_url E N p url =
     (if np_access p = ''disabled'' then Some ''network access is disabled by policy''
      else if np_access p \<noteq> ''public'' \<and> np_access p \<noteq> ''allowlist''
      then Some (''unsupported network access mode: '' @ np_access p)
      else
        let u = nf_parse N url in
        if url_scheme u \<noteq> ''http'' \<and> url_scheme u \<noteq> ''https''
        then Some ''only http/https URLs are allowed''
        else if non_empty (url_username u) \<or> non_empty (url_password u)
        then Some ''URL credentials are not allowed''
        else
          let host = casefold E (strip_dots (case url_hostname u of None \<Rightarrow> [] | Some h \<Rightarrow> h)) in
          if host = [] then Some ''URL must include a hostname''
          else if np_access p = ''allowlist'' \<and> \<not> host_allowed E p host
          then Some (''host is not allowed by network policy: '' @ host)
          else if \<not> np_deny_private p then None
          else (case nf_address N host of
                  Some a \<Rightarrow> if nf_private N a
                            then Some ''URL resolves to a private or local address'' else None
                | None \<Rightarrow>
                    (case nf_resolve N host of
                       None \<Rightarrow> Some (''cannot resolve host: '' @ host)
                     | Some as \<Rightarrow> if list_ex (nf_private N) as
                                  then Some ''URL resolves to a private or local address'' else None)))"

text \<open>\<^verbatim>\<open>_url_values\<close>: the texts with a scheme below keys named \<^verbatim>\<open>url\<close> or \<^verbatim>\<open>uri\<close>.\<close>

definition is_url_key :: "string \<Rightarrow> bool" where
  "is_url_key k \<longleftrightarrow> k = ''url'' \<or> k = ''uri''"

fun url_values :: "pyenv \<Rightarrow> string \<Rightarrow> pyval \<Rightarrow> string list"
  and url_values_list :: "pyenv \<Rightarrow> string \<Rightarrow> pyval list \<Rightarrow> string list"
  and url_values_dict :: "pyenv \<Rightarrow> (string \<times> pyval) list \<Rightarrow> string list" where
  "url_values E key (PDict d) = url_values_dict E d"
| "url_values E key (PList xs) = url_values_list E key xs"
| "url_values E key (PStr s) = (if is_url_key key \<and> contains ''://'' s then [s] else [])"
| "url_values E key v = []"
| "url_values_list E key [] = []"
| "url_values_list E key (x # xs) = url_values E key x @ url_values_list E key xs"
| "url_values_dict E [] = []"
| "url_values_dict E ((k, x) # d) = url_values E (casefold E k) x @ url_values_dict E d"

definition validate_arguments :: "pyenv \<Rightarrow> 'addr net_facts \<Rightarrow> network_policy \<Rightarrow> pydict \<Rightarrow> string option" where
  "validate_arguments E N p args =
     foldr (\<lambda>u later. case validate_url E N p u of None \<Rightarrow> later | Some e \<Rightarrow> Some e)
       (url_values E [] (PDict args)) None"

text \<open>\<^verbatim>\<open>_has_url\<close> of \<^verbatim>\<open>policy/permissions.py\<close>: inside a list every text with a scheme counts.\<close>

fun has_url :: "pyenv \<Rightarrow> pyval \<Rightarrow> bool"
  and has_url_list :: "pyenv \<Rightarrow> pyval list \<Rightarrow> bool"
  and has_url_dict :: "pyenv \<Rightarrow> (string \<times> pyval) list \<Rightarrow> bool" where
  "has_url E (PDict d) = has_url_dict E d"
| "has_url E (PList xs) = has_url_list E xs"
| "has_url E (PStr s) = contains ''://'' s"
| "has_url E v = False"
| "has_url_list E [] = False"
| "has_url_list E (x # xs) = (has_url E x \<or> has_url_list E xs)"
| "has_url_dict E [] = False"
| "has_url_dict E ((k, x) # d) = (is_url_key (casefold E k) \<and> has_url E x \<or> has_url_dict E d)"

section \<open>Paths\<close>

text \<open>\<^verbatim>\<open>PathGuard.validate\<close>: the resolved path must lie below the resolved root.\<close>

definition path_inside :: "'addr net_facts \<Rightarrow> string list \<Rightarrow> string \<Rightarrow> bool" where
  "path_inside N base p \<longleftrightarrow> take (length base) (nf_path N base p) = base"

section \<open>The default policy\<close>

record permission_policy =
  pol_workspace :: "string list"
  pol_hitl_mode :: string
  pol_network :: network_policy
  pol_sensitive_patterns :: "string list"

definition FS_READ :: string where "FS_READ = ''filesystem.read''"
definition FS_WRITE :: string where "FS_WRITE = ''filesystem.write''"
definition SHELL :: string where "SHELL = ''shell.execute''"
definition NET_READ :: string where "NET_READ = ''network.read''"
definition NET_WRITE :: string where "NET_WRITE = ''network.write''"
definition SIDE_EFFECT :: string where "SIDE_EFFECT = ''external.side_effect''"

lemmas capability_defs = FS_READ_def FS_WRITE_def SHELL_def NET_READ_def NET_WRITE_def SIDE_EFFECT_def

definition known_capabilities :: "string list" where
  "known_capabilities = [FS_READ, FS_WRITE, SHELL, NET_READ, NET_WRITE, SIDE_EFFECT]"

definition risky_capabilities :: "string list" where
  "risky_capabilities = [FS_WRITE, SHELL, NET_WRITE, SIDE_EFFECT]"

definition network_refusal :: "pyenv \<Rightarrow> 'addr net_facts \<Rightarrow> network_policy \<Rightarrow> pydict \<Rightarrow> string option" where
  "network_refusal E N p args =
     (case validate_arguments E N p args of
        Some e \<Rightarrow> Some e
      | None \<Rightarrow>
          if np_access p = ''allowlist'' \<and> \<not> has_url E (PDict args)
          then Some ''network target is missing from the tool request''
          else if np_access p = ''disabled'' then Some ''network access is disabled by policy''
          else None)"

definition sensitive_path :: "'addr net_facts \<Rightarrow> permission_policy \<Rightarrow> string list \<Rightarrow> string option" where
  "sensitive_path N p paths =
     find (\<lambda>x. list_ex (nf_name_matches N x) (pol_sensitive_patterns p)) paths"

definition outside_workspace :: "'addr net_facts \<Rightarrow> permission_policy \<Rightarrow> string list \<Rightarrow> string option" where
  "outside_workspace N p paths = find (\<lambda>x. \<not> path_inside N (pol_workspace p) x) paths"

text \<open>The first refusal, in the order of \<^verbatim>\<open>evaluate\<close>: reason and rule.\<close>

definition refusal :: "pyenv \<Rightarrow> 'addr net_facts \<Rightarrow> permission_policy \<Rightarrow> permission_request
    \<Rightarrow> (string \<times> string) option" where
  "refusal E N p q =
     (let caps = pq_capabilities q;
          unknown = sorted_texts (filter (\<lambda>c. c \<notin> set known_capabilities) caps)
      in if unknown \<noteq> []
         then Some (''unknown capability: '' @ py_join '', '' unknown, ''capability.unknown'')
         else
           let fs = FS_READ \<in> set caps \<or> FS_WRITE \<in> set caps in
           case (if fs then sensitive_path N p (pq_resource_paths q) else None) of
             Some x \<Rightarrow> Some (''sensitive path is protected by policy: '' @ x, ''filesystem.sensitive_path'')
           | None \<Rightarrow>
               (case (if fs then outside_workspace N p (pq_resource_paths q) else None) of
                  Some x \<Rightarrow> Some (''filesystem path is outside workspace: '' @ x,
                                  ''filesystem.outside_workspace'')
                | None \<Rightarrow>
                    (case (if NET_READ \<in> set caps \<or> NET_WRITE \<in> set caps
                           then network_refusal E N (pol_network p) (pq_arguments q) else None) of
                       Some e \<Rightarrow> Some (e, ''network.policy'')
                     | None \<Rightarrow> None)))"

definition evaluate_permission :: "pyenv \<Rightarrow> 'addr net_facts \<Rightarrow> permission_policy \<Rightarrow> permission_request
    \<Rightarrow> permission_decision" where
  "evaluate_permission E N p q =
     (case refusal E N p q of
        Some (reason, rule) \<Rightarrow> permission PermDENY reason rule
      | None \<Rightarrow>
          if pol_hitl_mode p = ''always''
          then permission PermREQUIRE_APPROVAL ''all tool calls require approval by configuration''
                 ''hitl.always''
          else
            let risky = filter (\<lambda>c. c \<in> set risky_capabilities) (pq_capabilities q) in
            if risky \<noteq> [] \<or> pq_legacy_requires_approval q
            then if pol_hitl_mode p = ''never''
                 then permission PermALLOW ''approval disabled by configuration'' ''hitl.never''
                 else permission PermREQUIRE_APPROVAL
                        (''sensitive capability requires approval: ''
                         @ (if risky = [] then ''legacy tool metadata''
                            else py_join '', '' (sorted_texts risky)))
                        ''capability.sensitive''
            else if pq_capabilities q \<noteq> []
            then permission PermALLOW ''read-only capability allowed'' ''capability.read_only''
            else permission PermALLOW ''legacy tool has no sensitive security metadata''
                   ''legacy.compatible'')"

end
