(* ===== verification/Tools.thy ===== *)
theory Tools
  imports Permissions Dependency
begin

text \<open>
  \<^verbatim>\<open>tools/base.py\<close>, \<^verbatim>\<open>tools/registry.py\<close>, \<^verbatim>\<open>tools/executor.py\<close> and the helpers of
  \<^verbatim>\<open>runtime/durable.py\<close> on tool calls: how a call of the model becomes one execution of a
  registered tool. What a tool's handler does is the argument \<open>handler\<close>. The audit log, the
  display summary and the execution backend are not modelled.
\<close>

section \<open>Tools\<close>

record tool =
  tl_name :: string
  tl_is_read_only :: bool
  tl_requires_approval :: bool
  tl_timeout :: rat
  tl_required_keys :: "string list"
  tl_idempotency_key_parameter :: "string option"
  tl_retry_safety :: "string option"
  tl_capabilities :: "string list"
  tl_path_argument_names :: "string list"

record tool_result =
  tr_content :: string
  tr_is_error :: bool
  tr_tool_use_id :: string
  tr_metadata :: pydict

text \<open>What an exception of a handler shows: its class, its text, whether it is a timeout, and
  the attributes \<^verbatim>\<open>_safe_exception_metadata\<close> reads.\<close>

record handler_error =
  he_type :: string
  he_text :: string
  he_timeout :: bool
  he_status_code :: pyval
  he_response_status :: pyval
  he_headers :: "pydict option"

datatype handler_reply = Replied tool_result | HandlerRaised handler_error | HandlerCancelled

text \<open>The registry is a dictionary by name: a tool registered later replaces an earlier one.\<close>

definition register_tool :: "tool \<Rightarrow> (string \<times> tool) list \<Rightarrow> (string \<times> tool) list" where
  "register_tool t reg = dict_set (tl_name t) t reg"

definition get_tool :: "(string \<times> tool) list \<Rightarrow> string \<Rightarrow> tool option" where
  "get_tool reg name = map_of reg name"

definition list_names :: "(string \<times> tool) list \<Rightarrow> string list" where
  "list_names reg = sort (dict_keys reg)"

definition validate_payload :: "tool \<Rightarrow> pydict \<Rightarrow> pydict res" where
  "validate_payload t payload =
     (case find (\<lambda>k. k \<notin> set (dict_keys payload)) (tl_required_keys t) of
        None \<Rightarrow> Ok payload
      | Some k \<Rightarrow> Raise (ValueError (''tool \"'' @ tl_name t @ ''\" missing required input: '' @ k)))"

definition permission_request_of :: "pyenv \<Rightarrow> tool \<Rightarrow> pydict \<Rightarrow> string option \<Rightarrow> string option
    \<Rightarrow> string option \<Rightarrow> string \<Rightarrow> string \<Rightarrow> permission_request" where
  "permission_request_of E t payload run thread turn cwd invocation =
     \<lparr>pq_run_id = run, pq_thread_id = thread, pq_turn_id = turn, pq_invocation_id = invocation,
      pq_tool_name = tl_name t, pq_capabilities = tl_capabilities t, pq_arguments = payload,
      pq_workspace = cwd, pq_cwd = cwd,
      pq_resource_paths = map (\<lambda>n. py_str E (dict_get payload n))
        (filter (\<lambda>n. dict_get payload n \<noteq> PNone) (tl_path_argument_names t)),
      pq_legacy_requires_approval = tl_requires_approval t\<rparr>"

section \<open>Calls\<close>

definition dict_or_empty :: "pyval \<Rightarrow> pydict" where
  "dict_or_empty v = (case v of PDict d \<Rightarrow> d | _ \<Rightarrow> [])"

definition tool_call_name :: "pyenv \<Rightarrow> pydict \<Rightarrow> string" where
  "tool_call_name E call =
     py_str E (py_or (py_or (dict_get (dict_or_empty (dict_get call ''function'')) ''name'')
                            (dict_get call ''name'')) (PStr []))"

text \<open>\<^verbatim>\<open>json.loads\<close> is the argument \<open>loads\<close>; \<open>None\<close> is a decoding error.\<close>

definition tool_call_arguments :: "(string \<Rightarrow> pyval option) \<Rightarrow> pydict \<Rightarrow> pydict" where
  "tool_call_arguments loads call =
     (let raw = dict_get_default (dict_or_empty (dict_get call ''function'')) ''arguments''
                  (dict_get_default call ''arguments'' (PDict []))
      in case raw of
           PStr s \<Rightarrow>
             (case loads (if s = [] then ''{}'' else s) of
                None \<Rightarrow> [(''raw'', PStr s)]
              | Some (PDict d) \<Rightarrow> d
              | Some v \<Rightarrow> [(''value'', v)])
         | PDict d \<Rightarrow> d
         | _ \<Rightarrow> [])"

text \<open>\<^verbatim>\<open>_call_with_payload\<close>: the arguments handed to the executor, with the idempotency key of the
  invocation. The executor decodes exactly the dictionary that was encoded here.\<close>

definition call_payload :: "pydict \<Rightarrow> string \<Rightarrow> tool option \<Rightarrow> pydict" where
  "call_payload payload invocation t =
     (case t of
        None \<Rightarrow> payload
      | Some x \<Rightarrow>
          (case tl_idempotency_key_parameter x of
             None \<Rightarrow> payload
           | Some k \<Rightarrow> if k = [] then payload else dict_setdefault k (PStr invocation) payload))"

fun retry_safety_value :: "retry_safety \<Rightarrow> string" where
  "retry_safety_value SAFE = ''safe''"
| "retry_safety_value IDEMPOTENT = ''idempotent''"
| "retry_safety_value UNSAFE = ''unsafe''"

definition RetrySafety :: "string \<Rightarrow> retry_safety res" where
  "RetrySafety = enum_parse retry_safety_value [SAFE, IDEMPOTENT, UNSAFE]"

definition tool_retry_safety :: "tool option \<Rightarrow> retry_safety res" where
  "tool_retry_safety t =
     (case t of
        None \<Rightarrow> Ok UNSAFE
      | Some x \<Rightarrow>
          (case tl_retry_safety x of
             Some s \<Rightarrow> RetrySafety s
           | None \<Rightarrow>
               if tl_is_read_only x then Ok SAFE
               else if non_empty (tl_idempotency_key_parameter x) then Ok IDEMPOTENT
               else Ok UNSAFE))"

section \<open>The executor\<close>

definition safe_exception_metadata :: "pyenv \<Rightarrow> handler_error \<Rightarrow> pydict" where
  "safe_exception_metadata E x =
     (let status = (if he_status_code x = PNone then he_response_status x else he_status_code x);
          parsed = (case py_int E status of Inl _ \<Rightarrow> 0 | Inr n \<Rightarrow> n);
          code = (if 100 \<le> parsed \<and> parsed \<le> 599 then [(''status_code'', PInt parsed)] else [])
      in code @
         (case he_headers x of
            None \<Rightarrow> []
          | Some h \<Rightarrow>
              (case py_float E (py_or (dict_get h ''retry-after'') (dict_get h ''Retry-After'')) of
                 Inl _ \<Rightarrow> []
               | Inr r \<Rightarrow> if 0 \<le> r then [(''retry_after_seconds'', PFloat r)] else [])))"

definition error_result :: "string \<Rightarrow> string \<Rightarrow> pydict \<Rightarrow> tool_result" where
  "error_result call_id text metadata =
     \<lparr>tr_content = text, tr_is_error = True, tr_tool_use_id = call_id, tr_metadata = metadata\<rparr>"

definition handler_failure :: "pyenv \<Rightarrow> string \<Rightarrow> string \<Rightarrow> handler_error \<Rightarrow> tool_result" where
  "handler_failure E call_id name x =
     (let text = (if py_strip (he_text x) \<noteq> [] then py_strip (he_text x)
                  else if he_timeout x then ''timed out'' else he_type x)
      in error_result call_id (''Tool \"'' @ name @ ''\" execution error: '' @ text)
           ([(''error_type'', PStr (he_type x)), (''dependency_timeout'', PBool (he_timeout x))]
            @ safe_exception_metadata E x))"

definition not_found_result :: "(string \<times> tool) list \<Rightarrow> string \<Rightarrow> string \<Rightarrow> tool_result" where
  "not_found_result reg call_id name =
     error_result call_id (''Tool \"'' @ name @ ''\" not found. Available tools: ''
         @ py_join '', '' (list_names reg))
       [(''error_type'', PStr ''ToolNotFoundError''), (''failure_category'', PStr ''validation_error'')]"

text \<open>
  \<^verbatim>\<open>_execute_single\<close> for an invocation the durable runtime has authorised, so that the
  permission step answers ALLOW, up to the call of the handler: \<open>Inl\<close> is the error the model
  is given without a call, \<open>Inr\<close> the validated data the handler is called with.
\<close>

definition admit_call :: "pyenv \<Rightarrow> (string \<times> tool) list \<Rightarrow> string \<Rightarrow> string
    \<Rightarrow> pydict \<Rightarrow> tool_result + pydict" where
  "admit_call E reg call_id name payload =
     (case get_tool reg name of
        None \<Rightarrow> Inl (not_found_result reg call_id name)
      | Some t \<Rightarrow>
          (case validate_payload t payload of
             Inl e \<Rightarrow> Inl (error_result call_id
                 (''Tool \"'' @ name @ ''\" execution error: '' @ py_strip (exn_str E e))
                 [(''error_type'', PStr ''ValueError''), (''dependency_timeout'', PBool False)])
           | Inr data \<Rightarrow> Inr data))"

text \<open>What the caller sees of a handler's reply; a cancellation passes through.\<close>

definition reply_result :: "pyenv \<Rightarrow> string \<Rightarrow> string \<Rightarrow> handler_reply \<Rightarrow> tool_result option" where
  "reply_result E call_id name r =
     (case r of
        Replied x \<Rightarrow> Some (x\<lparr>tr_tool_use_id := call_id\<rparr>)
      | HandlerRaised x \<Rightarrow> Some (handler_failure E call_id name x)
      | HandlerCancelled \<Rightarrow> None)"

end
