(* ===== verification/Runtime.thy ===== *)
theory Runtime
  imports Effects Steps Tools Checkpoints
begin

text \<open>
  The life cycle of a run in \<^verbatim>\<open>DurableAgentRuntime\<close> (\<^verbatim>\<open>runtime/durable.py\<close>): reading and saving the
  durable state, cancellation and its propagation from ancestors, interrupts, the transition
  applied after a step, failures, and what a client may do to a waiting run.
  Traces, spans and emitted events are not modelled: they change neither the durable state
  nor the control flow.
\<close>

section \<open>The runtime object\<close>

text \<open>
  The collaborators given to the constructor. Functions of a \<open>nat\<close> answer the read with that
  number: the clock, the random source, the wall-time budget and the tool handlers may answer
  differently each time. \<open>rt_loads\<close> is \<^verbatim>\<open>json.loads\<close>, \<open>rt_hash\<close> the digest of the canonical
  arguments, the \<open>rt_..._fp\<close> are the fingerprints of \<^verbatim>\<open>runtime/progress.py\<close> (digests too),
  \<open>rt_parse_time\<close> and \<open>rt_format_time\<close> convert ISO texts. \<open>rt_on_cancel\<close> and \<open>rt_after_cancel\<close>
  are the hooks of the execution strategy. \<open>rt_lineage\<close> bounds the ancestors looked at.
\<close>

record 's runtime =
  rt_strategy :: string
  rt_py :: pyenv
  rt_clock :: "nat \<Rightarrow> string \<times> rat"
  rt_random :: "nat \<Rightarrow> rat"
  rt_parse_time :: "string \<Rightarrow> rat option"
  rt_format_time :: "rat \<Rightarrow> string"
  rt_ownership :: "run_ownership option"
  rt_load :: "pyenv \<Rightarrow> string \<Rightarrow> 's \<Rightarrow> run_state option res"
  rt_save :: "pyenv \<Rightarrow> run_ownership option \<Rightarrow> run_state \<Rightarrow> 's \<Rightarrow> 's \<times> run_state \<times> unit res"
  rt_load_tool :: "pyenv \<Rightarrow> string \<Rightarrow> 's \<Rightarrow> tool_record option res"
  rt_save_tool :: "pyenv \<Rightarrow> run_ownership option \<Rightarrow> tool_record \<Rightarrow> 's \<Rightarrow> 's \<times> tool_record \<times> unit res"
  rt_validate :: "nat \<Rightarrow> run_ownership \<Rightarrow> 's \<Rightarrow> unit res"
  rt_initialize :: "nat \<Rightarrow> run_state \<Rightarrow> 's \<Rightarrow> 's \<times> run_state res"
  rt_consume_step :: "nat \<Rightarrow> run_state \<Rightarrow> string \<Rightarrow> 's \<Rightarrow> 's \<times> unit res"
  rt_consume_tool :: "nat \<Rightarrow> run_state \<Rightarrow> string \<Rightarrow> 's \<Rightarrow> 's \<times> unit res"
  rt_wall_time :: "nat \<Rightarrow> run_state \<Rightarrow> 's \<Rightarrow> 's \<times> rat option res"
  rt_ensure_wall_time :: "nat \<Rightarrow> run_state \<Rightarrow> 's \<Rightarrow> 's \<times> rat option res"
  rt_record_hard :: "nat \<Rightarrow> run_state \<Rightarrow> exn \<Rightarrow> 's \<Rightarrow> 's \<times> unit res"
  rt_verify :: "run_state \<Rightarrow> contract \<Rightarrow> int \<Rightarrow> 's \<Rightarrow> verification_result"
  rt_on_cancel :: "run_state \<Rightarrow> 's world \<Rightarrow> 's world \<times> run_state outcome"
  rt_after_cancel :: "run_state \<Rightarrow> 's world \<Rightarrow> 's world \<times> unit outcome"
  rt_lineage :: nat
  rt_retry_policy :: retry_policy
  rt_registry :: "(string \<times> tool) list"
  rt_permission :: "permission_request \<Rightarrow> permission_decision"
  rt_handler :: "nat \<Rightarrow> string \<Rightarrow> pydict \<Rightarrow> handler_reply"
  rt_cwd :: string
  rt_tool_timeout :: rat
  rt_loads :: "string \<Rightarrow> pyval option"
  rt_hash :: "pydict \<Rightarrow> string"
  rt_action_fp :: "string \<Rightarrow> pydict \<Rightarrow> string"
  rt_error_fp :: "string \<Rightarrow> string \<Rightarrow> string \<Rightarrow> string \<Rightarrow> string"
  rt_evidence_fp :: "string \<Rightarrow> string option"
  rt_progress_policy :: progress_policy
  rt_max_turns :: int

definition env_at :: "'s runtime \<Rightarrow> nat \<Rightarrow> pyenv" where
  "env_at R n = (rt_py R)\<lparr>now_text := fst (rt_clock R n), now_time := snd (rt_clock R n)\<rparr>"

definition nowE :: "'s runtime \<Rightarrow> ('s, string) eff" where
  "nowE R = bindE tickE (\<lambda>n. retE (now_text (env_at R n)))"

section \<open>Durable state\<close>

text \<open>\<^verbatim>\<open>load_run_state\<close>, \<^verbatim>\<open>_require\<close>, \<^verbatim>\<open>_save_checkpoint\<close>, \<^verbatim>\<open>_save_tool_execution\<close>\<close>

definition load_run :: "'s runtime \<Rightarrow> string \<Rightarrow> ('s, run_state option) eff" where
  "load_run R i = readE (rt_load R (rt_py R) i)"

definition require_run :: "'s runtime \<Rightarrow> string \<Rightarrow> ('s, run_state) eff" where
  "require_run R i = bindE (load_run R i) (\<lambda>s.
     case s of None \<Rightarrow> raiseE (ValueError (''run not found: '' @ i)) | Some st \<Rightarrow> retE st)"

definition save_checkpoint :: "'s runtime \<Rightarrow> run_state \<Rightarrow> ('s, run_state) eff" where
  "save_checkpoint R st = storeE (\<lambda>n s.
     case rt_save R (env_at R n) (rt_ownership R) st s of (s', st', r) \<Rightarrow> (s', bindR r (\<lambda>_. Ok st')))"

definition load_tool :: "'s runtime \<Rightarrow> string \<Rightarrow> ('s, tool_record option) eff" where
  "load_tool R i = readE (rt_load_tool R (rt_py R) i)"

definition save_tool :: "'s runtime \<Rightarrow> tool_record \<Rightarrow> ('s, tool_record) eff" where
  "save_tool R q = storeE (\<lambda>n s.
     case rt_save_tool R (env_at R n) (rt_ownership R) q s of (s', q', r) \<Rightarrow> (s', bindR r (\<lambda>_. Ok q')))"

definition validate_ownershipE :: "'s runtime \<Rightarrow> ('s, unit) eff" where
  "validate_ownershipE R =
     (case rt_ownership R of
        None \<Rightarrow> retE ()
      | Some w \<Rightarrow> bindE tickE (\<lambda>n. readE (rt_validate R n w)))"

definition refresh :: "'s runtime \<Rightarrow> run_state \<Rightarrow> ('s, run_state) eff" where
  "refresh R st =
     bindE (validate_ownershipE R) (\<lambda>_.
     bindE (require_run R (r_run_id st)) (\<lambda>current.
     if r_sequence current = r_sequence st then retE st
     else if r_status current \<noteq> RunRUNNING then retE current
     else raiseE (RuntimeErr (''run '' @ r_run_id st @ '' was concurrently advanced''))))"

section \<open>Cancellation\<close>

definition cancel_durable :: "'s runtime \<Rightarrow> string \<Rightarrow> ('s, run_state) eff" where
  "cancel_durable R i =
     bindE (require_run R i) (\<lambda>st.
     if r_status st = RunCANCELLED then retE st
     else if r_status st \<in> {RunCOMPLETED, RunFAILED}
     then raiseE (ValueError (''run in '' @ run_status_value (r_status st) @ '' cannot be cancelled''))
     else
       bindE (rt_on_cancel R (st\<lparr>r_status := RunCANCELLED, r_interrupt := None\<rparr>)) (\<lambda>st1.
       bindE (save_checkpoint R st1) (\<lambda>st2.
       bindE (rt_after_cancel R st2) (\<lambda>_.
       retE st2))))"

text \<open>
  The walk of \<^verbatim>\<open>reconcile_run_control_state\<close> over the ancestors: the first cancelled one, if any.
  \<open>fuel\<close> is the number of ancestors looked at.
\<close>

fun cancelled_ancestor_of :: "(string \<Rightarrow> run_state option res) \<Rightarrow> nat \<Rightarrow> string list \<Rightarrow> string option
    \<Rightarrow> string option res option" where
  "cancelled_ancestor_of load fuel visited None = Some (Ok None)"
| "cancelled_ancestor_of load 0 visited (Some i) = None"
| "cancelled_ancestor_of load (Suc fuel) visited (Some i) =
     (if i \<in> set visited
      then Some (Raise (ValueError (''run lineage cycle detected at '' @ i)))
      else case load i of
             Inl e \<Rightarrow> Some (Raise e)
           | Inr None \<Rightarrow> Some (Ok None)
           | Inr (Some a) \<Rightarrow>
               if r_status a = RunCANCELLED then Some (Ok (Some (r_run_id a)))
               else cancelled_ancestor_of load fuel (i # visited) (r_parent_run_id a))"

definition find_cancelled_ancestor :: "'s runtime \<Rightarrow> run_state \<Rightarrow> ('s, string option) eff" where
  "find_cancelled_ancestor R st w =
     (case cancelled_ancestor_of (\<lambda>i. rt_load R (rt_py R) i (w_store w)) (rt_lineage R)
             [r_run_id st] (r_parent_run_id st) of
        None \<Rightarrow> (w, OutOfFuel)
      | Some r \<Rightarrow> liftR r w)"

definition reconcile :: "'s runtime \<Rightarrow> string \<Rightarrow> ('s, run_state) eff" where
  "reconcile R i =
     bindE (require_run R i) (\<lambda>st.
     if run_finished st \<or> r_parent_run_id st = None then retE st
     else bindE (find_cancelled_ancestor R st) (\<lambda>a.
          case a of None \<Rightarrow> retE st | Some _ \<Rightarrow> cancel_durable R i))"

section \<open>Interrupts\<close>

definition interrupt_of :: "string \<Rightarrow> string \<Rightarrow> string option \<Rightarrow> string option \<Rightarrow> pydict \<Rightarrow> string \<Rightarrow> interrupt" where
  "interrupt_of kind reason invocation tool args now =
     \<lparr>i_kind = kind, i_reason = reason, i_invocation_id = invocation, i_tool_name = tool,
      i_arguments = args, i_created_at = now\<rparr>"

definition interrupt_run :: "'s runtime \<Rightarrow> string \<Rightarrow> string \<Rightarrow> ('s, run_state) eff" where
  "interrupt_run R i reason =
     bindE (require_run R i) (\<lambda>st.
     if r_status st \<noteq> RunRUNNING
     then raiseE (ValueError (''run in '' @ run_status_value (r_status st) @ '' cannot be interrupted''))
     else bindE (nowE R) (\<lambda>now.
          save_checkpoint R (st\<lparr>r_status := RunINTERRUPTED,
            r_interrupt := Some (interrupt_of ''manual'' reason None None [] now)\<rparr>)))"

definition wait_for_approval :: "'s runtime \<Rightarrow> run_state \<Rightarrow> string \<Rightarrow> string \<Rightarrow> pydict \<Rightarrow> string \<Rightarrow> string
    \<Rightarrow> ('s, run_state) eff" where
  "wait_for_approval R st invocation name args kind reason =
     bindE (nowE R) (\<lambda>now.
     save_checkpoint R (st\<lparr>r_status := RunWAITING_APPROVAL,
       r_interrupt := Some (interrupt_of kind reason (Some invocation) (Some name) args now)\<rparr>))"

section \<open>Completion and failure\<close>

definition evaluate_completion :: "'s runtime \<Rightarrow> run_state \<Rightarrow> bool
    \<Rightarrow> ('s, run_state \<times> next_action) eff" where
  "evaluate_completion R st allow_correction =
     (if r_completion_contract st = []
      then retE (st, case decide_completion ((evidence_for (r_status st))
                            \<lparr>ev_proposed := Some ActCOMPLETE, ev_verification := Some NOT_APPLICABLE\<rparr>)
                     of None \<Rightarrow> ActFAIL | Some a \<Rightarrow> a)
      else
        bindE (liftR (contract_from_dict (rt_py R) (r_completion_contract st))) (\<lambda>c.
        let attempt = r_completion_verification_attempts st + 1;
            st1 = st\<lparr>r_completion_verification_attempts := attempt\<rparr> in
        bindE (readE (\<lambda>s. Ok (rt_verify R st1 c attempt s))) (\<lambda>v.
        let st2 = st1\<lparr>r_completion_verification := verification_to_dict v\<rparr> in
        case decide_completion ((evidence_for (r_status st2))
               \<lparr>ev_proposed := Some ActCOMPLETE, ev_verification := Some (vr_status v),
                ev_allow_correction := allow_correction, ev_attempt := attempt,
                ev_max_corrections := co_max_correction_attempts c\<rparr>) of
          Some ActCOMPLETE \<Rightarrow> retE (st2\<lparr>r_error := None\<rparr>, ActCOMPLETE)
        | Some ActCONTINUE \<Rightarrow>
            retE (st2\<lparr>r_messages := r_messages st2 @ [\<lparr>m_role = ''user'',
                      m_content = TextContent (verification_feedback v), m_name = None,
                      m_tool_call_id = None, m_tool_calls = []\<rparr>]\<rparr>, ActCONTINUE)
        | None \<Rightarrow> retE (st2, ActFAIL)
        | Some _ \<Rightarrow>
            retE (st2\<lparr>r_error := Some \<lparr>e_type = COMPLETION_NOT_VERIFIED,
                       e_message = (if vr_status v = NOT_VERIFIED
                                    then ''completion verification did not pass''
                                    else ''completion verification errored''),
                       e_step = Some ''completion_verification'',
                       e_metadata = [
                         (''verification_status'', PStr (verification_status_value (vr_status v))),
                         (''attempt'', PInt (vr_attempt v)),
                         (''failed_check_ids'', PList (map PStr (failed_check_ids v)))]\<rparr>\<rparr>,
                  ActFAIL))))"

text \<open>
  Python's equality of decoded values: numbers by value, dictionaries without order. It
  decides whether a candidate differs from the durable record.
\<close>

fun py_number :: "pyval \<Rightarrow> rat option" where
  "py_number (PInt i) = Some (of_int i)"
| "py_number (PBool b) = Some (if b then 1 else 0)"
| "py_number (PFloat q) = Some q"
| "py_number v = None"

fun py_eq :: "pyval \<Rightarrow> pyval \<Rightarrow> bool"
  and py_eq_list :: "pyval list \<Rightarrow> pyval list \<Rightarrow> bool"
  and py_eq_items :: "(string \<times> pyval) list \<Rightarrow> (string \<times> pyval) list \<Rightarrow> bool" where
  "py_eq (PList xs) v = (case v of PList ys \<Rightarrow> py_eq_list xs ys | _ \<Rightarrow> False)"
| "py_eq (PTuple xs) v = (case v of PTuple ys \<Rightarrow> py_eq_list xs ys | _ \<Rightarrow> False)"
| "py_eq (PDict d) v = (case v of PDict e \<Rightarrow> length d = length e \<and> py_eq_items d e | _ \<Rightarrow> False)"
| "py_eq (PInt i) v = (py_number v = Some (of_int i))"
| "py_eq (PBool b) v = (py_number v = Some (if b then 1 else 0))"
| "py_eq (PFloat q) v = (py_number v = Some q)"
| "py_eq u v = (u = v)"
| "py_eq_list [] ys = (ys = [])"
| "py_eq_list (x # xs) ys = (case ys of [] \<Rightarrow> False | y # ys' \<Rightarrow> py_eq x y \<and> py_eq_list xs ys')"
| "py_eq_items [] e = True"
| "py_eq_items ((k, x) # d) e =
     ((case map_of e k of None \<Rightarrow> False | Some y \<Rightarrow> py_eq x y) \<and> py_eq_items d e)"

definition states_differ :: "run_state \<Rightarrow> run_state \<Rightarrow> bool res" where
  "states_differ a b =
     bindR (run_state_to_dict a) (\<lambda>d. bindR (run_state_to_dict b) (\<lambda>e.
     Ok (\<not> py_eq (PDict d) (PDict e))))"

text \<open>The transition itself, on the candidate and the action that remained.\<close>

definition transition :: "run_state \<Rightarrow> next_action \<Rightarrow> run_state res" where
  "transition st action =
     (case action of
        ActCOMPLETE \<Rightarrow> Ok (st\<lparr>r_status := RunCOMPLETED, r_error := None\<rparr>)
      | ActFAIL \<Rightarrow>
          Ok (st\<lparr>r_status := RunFAILED,
                 r_error := (case r_error st of
                    Some e \<Rightarrow> Some e
                  | None \<Rightarrow> Some \<lparr>e_type = ''RuntimeFailure'',
                      e_message = ''Runtime policy rejected the Step outcome'',
                      e_step = Some ''step_transition'', e_metadata = []\<rparr>)\<rparr>)
      | ActWAIT \<Rightarrow>
          if r_status st \<in> {RunWAITING_CHILD, RunWAITING_APPROVAL, RunINTERRUPTED} then Ok st
          else Raise (RuntimeErr ''WAIT requires a specific durable wait/control status'')
      | ActCONTINUE \<Rightarrow> Ok (st\<lparr>r_status := RunRUNNING\<rparr>))"

text \<open>
  \<^verbatim>\<open>_apply_next_action\<close> changes its candidate in place and usually returns it, but returns the
  durable record when the run was controlled meanwhile. \<open>apply_action\<close> gives both: the candidate
  as the caller's object now is, and the value returned.
\<close>

definition apply_action :: "'s runtime \<Rightarrow> step_result \<Rightarrow> ('s, run_state \<times> run_state) eff" where
  "apply_action R res =
     (let st = sr_run_state res in
      bindE (require_run R (r_run_id st)) (\<lambda>current.
      if r_status current \<in> {RunCANCELLED, RunINTERRUPTED} then retE (st, current)
      else
        bindE (validate_ownershipE R) (\<lambda>_.
        if r_status current \<in> {RunCOMPLETED, RunFAILED} then retE (st, current)
        else if r_sequence current \<noteq> r_sequence st
        then raiseE (CheckpointConflictError (''stale StepResult for run '' @ r_run_id st
               @ '': expected sequence '' @ int_repr (r_sequence st) @ '', current sequence ''
               @ int_repr (r_sequence current)))
        else case sr_next_action res of
               None \<Rightarrow> retE (st, st)
             | Some proposed \<Rightarrow>
                 bindE (if proposed = ActCOMPLETE
                        then evaluate_completion R st (r_execution_strategy st = ''react'')
                        else retE (st, proposed)) (\<lambda>(st1, action).
                 bindE (liftR (transition st1 action)) (\<lambda>st2.
                 bindE (liftR (states_differ current st2)) (\<lambda>differ.
                 bindE (if differ then save_checkpoint R st2 else retE st2) (\<lambda>st3.
                 retE (st3, st3))))))))"

definition apply_next_action :: "'s runtime \<Rightarrow> step_result \<Rightarrow> ('s, run_state) eff" where
  "apply_next_action R res = bindE (apply_action R res) (\<lambda>x. retE (snd x))"

text \<open>
  \<^verbatim>\<open>_fail\<close> looks at its exception through these: the code or class name, the text and the
  metadata of a budget or no-progress error. The metadata of a budget error holds numbers
  formatted by the decimal module: \<open>budget_metadata\<close> stands for it.
\<close>

record failure_cause =
  fc_type :: string
  fc_message :: string
  fc_metadata :: pydict
  fc_budget :: "exn option"

definition budget_metadata :: "pyenv \<Rightarrow> exn \<Rightarrow> pydict" where
  "budget_metadata E e =
     (case e of
        BudgetExceededError code d limit used run \<Rightarrow>
          [(''dimension'', PStr d), (''limit'', PFloat limit), (''used'', PFloat used),
           (''remaining'', PStr (repr_text E (PFloat (max 0 (limit - used))))), (''run_id'', PStr run)]
      | _ \<Rightarrow> [])"

definition cause_of :: "pyenv \<Rightarrow> exn \<Rightarrow> failure_cause" where
  "cause_of E e =
     \<lparr>fc_type = (case e of BudgetExceededError code d limit used run \<Rightarrow> code | _ \<Rightarrow> exn_class e),
      fc_message = safe_error E e, fc_metadata = budget_metadata E e,
      fc_budget = (if is_budget_exceeded e then Some e else None)\<rparr>"

definition no_progress_cause :: "string \<Rightarrow> int \<Rightarrow> progress_state \<Rightarrow> failure_cause" where
  "no_progress_cause run step ps =
     \<lparr>fc_type = ''NO_PROGRESS'',
      fc_message = take 4000 (''no progress after bounded recovery: ''
        @ (case ps_detector_type ps of None \<Rightarrow> ''unknown'' | Some t \<Rightarrow> if t = [] then ''unknown'' else t)),
      fc_metadata = no_progress_metadata run step ps, fc_budget = None\<rparr>"

text \<open>Again both the caller's object and the value returned.\<close>

definition fail_both :: "'s runtime \<Rightarrow> run_state \<Rightarrow> failure_cause \<Rightarrow> string
    \<Rightarrow> ('s, run_state \<times> run_state) eff" where
  "fail_both R st c step =
     (case decide_completion ((evidence_for (r_status st))
             \<lparr>ev_proposed := Some ActCONTINUE, ev_budget_exhausted := (fc_budget c \<noteq> None),
              ev_fatal_error := (fc_budget c = None)\<rparr>) of
        None \<Rightarrow> retE (st, st)
      | Some _ \<Rightarrow>
          let st1 = st\<lparr>r_error := Some \<lparr>e_type = fc_type c, e_message = fc_message c,
                        e_step = Some step, e_metadata = fc_metadata c\<rparr>\<rparr> in
          bindE (case fc_budget c of
                   None \<Rightarrow> retE () | Some e \<Rightarrow> storeE (\<lambda>n. rt_record_hard R n st1 e)) (\<lambda>_.
          apply_action R (propose (r_step_index st1) st1 ActFAIL)))"

definition fail_run :: "'s runtime \<Rightarrow> run_state \<Rightarrow> failure_cause \<Rightarrow> string \<Rightarrow> ('s, run_state) eff" where
  "fail_run R st c step = bindE (fail_both R st c step) (\<lambda>x. retE (snd x))"

section \<open>Decisions of a client\<close>

definition ascii_lower :: "char \<Rightarrow> char" where
  "ascii_lower c = (if (65::nat) \<le> of_char c \<and> of_char c \<le> (90::nat) then char_of (of_char c + 32::nat) else c)"

text \<open>\<^verbatim>\<open>_normalize_decision\<close>; lower case of ASCII letters.\<close>

definition normalize_decision :: "string option \<Rightarrow> string option" where
  "normalize_decision d =
     (case d of
        None \<Rightarrow> None
      | Some s \<Rightarrow>
          let t = py_strip (map ascii_lower s) in
          if t \<in> {''approve'', ''approved'', ''allow'', ''retry''} then Some ''approve''
          else if t \<in> {''reject'', ''rejected'', ''deny'', ''denied'', ''skip''} then Some ''reject''
          else None)"

definition lower :: "string \<Rightarrow> string" where
  "lower s = map ascii_lower s"

text \<open>The part \<^verbatim>\<open>queue_resume\<close> and \<^verbatim>\<open>_resume_inner\<close> share: refusals, and the decision recorded.\<close>

definition resume_refused :: "run_state \<Rightarrow> exn option" where
  "resume_refused st =
     (if r_status st = RunCANCELLED then Some (ValueError ''cancelled run cannot be resumed'')
      else if r_status st \<in> {RunCOMPLETED, RunFAILED}
      then Some (ValueError (lower (run_status_value (r_status st)) @ '' run cannot be resumed''))
      else None)"

definition record_decision :: "run_state \<Rightarrow> string option \<Rightarrow> run_state res" where
  "record_decision st decision =
     (case normalize_decision decision of
        None \<Rightarrow> Raise (ValueError ''approval decision must be approve or reject'')
      | Some d \<Rightarrow>
          Ok (case r_interrupt st of
                None \<Rightarrow> st
              | Some i \<Rightarrow>
                  (case i_invocation_id i of
                     None \<Rightarrow> st
                   | Some k \<Rightarrow> if k = [] then st
                       else st\<lparr>r_decisions := dict_set k d (r_decisions st)\<rparr>)))"

definition queue_resume :: "'s runtime \<Rightarrow> (string \<Rightarrow> nat \<Rightarrow> 's \<Rightarrow> 's \<times> unit res) \<Rightarrow> string
    \<Rightarrow> string option \<Rightarrow> ('s, run_state) eff" where
  "queue_resume R mark_runnable i decision =
     bindE (require_run R i) (\<lambda>st.
     case resume_refused st of
       Some e \<Rightarrow> raiseE e
     | None \<Rightarrow>
         bindE (liftR (if r_status st = RunWAITING_APPROVAL then record_decision st decision else Ok st)) (\<lambda>st1.
         if r_status st = RunINTERRUPTED \<and> decision \<noteq> None \<and> normalize_decision decision = Some ''reject''
         then save_checkpoint R (st1\<lparr>r_status := RunCANCELLED, r_interrupt := None\<rparr>)
         else
           bindE (save_checkpoint R (st1\<lparr>r_status := RunRUNNING, r_interrupt := None, r_error := None\<rparr>)) (\<lambda>st2.
           bindE (storeE (mark_runnable i)) (\<lambda>_.
           retE st2))))"

text \<open>
  \<^verbatim>\<open>_resume_inner\<close> up to the point where the strategy takes over: the durable claim of the run.
  The boolean says whether to advance it.
\<close>

definition resume_claim :: "'s runtime \<Rightarrow> string \<Rightarrow> string option \<Rightarrow> ('s, run_state \<times> bool) eff" where
  "resume_claim R i decision =
     bindE (require_run R i) (\<lambda>st.
     if r_execution_strategy st \<noteq> rt_strategy R
     then raiseE (ValueError (''runtime execution strategy does not match persisted checkpoint: ''
            @ rt_strategy R @ '' != '' @ r_execution_strategy st))
     else case resume_refused st of
       Some e \<Rightarrow> raiseE e
     | None \<Rightarrow>
         bindE (storeE (\<lambda>n. rt_initialize R n st)) (\<lambda>st0.
         bindE (liftR (if r_status st = RunWAITING_APPROVAL then record_decision st0 decision else Ok st0)) (\<lambda>st1.
         if r_status st = RunINTERRUPTED \<and> decision \<noteq> None \<and> normalize_decision decision = Some ''reject''
         then bindE (save_checkpoint R (st1\<lparr>r_status := RunCANCELLED, r_interrupt := None\<rparr>))
                (\<lambda>st2. retE (st2, False))
         else if r_status st = RunRUNNING
         then bindE (save_checkpoint R st1) (\<lambda>st2. retE (st2, True))
         else bindE (save_checkpoint R (st1\<lparr>r_status := RunRUNNING, r_interrupt := None, r_error := None\<rparr>))
                (\<lambda>st2. retE (st2, True)))))"

end
