(* ===== verification/ToolProtocol.thy ===== *)
theory ToolProtocol
  imports Runtime
begin

text \<open>
  \<^verbatim>\<open>_execute_pending_tool\<close> of \<^verbatim>\<open>runtime/durable.py\<close>: one tool call of the model, executed under a
  durable record so that a worker that takes over after a crash knows what may have happened.
  The definitions follow the method branch by branch: reuse of a decided outcome, the record
  of an execution whose end is unknown, the permission, and the loop of attempts.
\<close>

section \<open>The call at hand\<close>

definition list_item :: "'a list \<Rightarrow> int \<Rightarrow> 'a res" where
  "list_item xs i =
     (if 0 \<le> i \<and> i < int (length xs) then Ok (xs ! nat i)
      else if i < 0 \<and> 0 \<le> i + int (length xs) then Ok (xs ! nat (i + int (length xs)))
      else Raise (IndexError ''list index out of range''))"

definition list_put :: "'a list \<Rightarrow> int \<Rightarrow> 'a \<Rightarrow> 'a list" where
  "list_put xs i x = (if 0 \<le> i then xs[nat i := x] else xs[nat (i + int (length xs)) := x])"

record pending =
  pc_call_id :: string
  pc_name :: string
  pc_payload :: pydict
  pc_hash :: string
  pc_invocation :: string
  pc_tool :: "tool option"

definition pending_call_id :: "'s runtime \<Rightarrow> run_state \<Rightarrow> pydict \<Rightarrow> string" where
  "pending_call_id R st call = str_or (rt_py R) (dict_get call ''id'')
     (''call_'' @ int_repr (r_agent_turn st) @ ''_'' @ int_repr (r_next_tool_index st))"

definition invocation_of :: "run_state \<Rightarrow> string \<Rightarrow> string" where
  "invocation_of st call_id = r_run_id st @ '':'' @ call_id"

text \<open>The head of \<^verbatim>\<open>_execute_pending_tool_inner\<close>; the call keeps the identifier it was given.\<close>

definition prepare_call :: "'s runtime \<Rightarrow> run_state \<Rightarrow> (run_state \<times> pending) res" where
  "prepare_call R st =
     bindR (list_item (r_pending_tool_calls st) (r_next_tool_index st)) (\<lambda>call.
     let call_id = pending_call_id R st call;
         call1 = dict_set ''id'' (PStr call_id) call;
         name = tool_call_name (rt_py R) call1;
         payload = tool_call_arguments (rt_loads R) call1
     in Ok (st\<lparr>r_pending_tool_calls := list_put (r_pending_tool_calls st) (r_next_tool_index st) call1\<rparr>,
            \<lparr>pc_call_id = call_id, pc_name = name, pc_payload = payload, pc_hash = rt_hash R payload,
             pc_invocation = invocation_of st call_id, pc_tool = get_tool (rt_registry R) name\<rparr>))"

definition new_record :: "run_state \<Rightarrow> pending \<Rightarrow> tool_status \<Rightarrow> tool_record" where
  "new_record st p status =
     \<lparr>t_invocation_id = pc_invocation p, t_run_id = r_run_id st, t_tool_call_id = pc_call_id p,
      t_tool_name = pc_name p, t_arguments_hash = pc_hash p, t_status = status, t_attempt = 0,
      t_result = None, t_is_error = False, t_error = None, t_last_failure_category = None,
      t_last_error_code = None, t_retry_state = RetryNONE, t_retry_suppressed_reason = None,
      t_next_retry_at = None, t_retry_backoff_seconds = 0, t_started_at = None,
      t_completed_at = None, t_updated_at = []\<rparr>"

definition text_or :: "string option \<Rightarrow> string \<Rightarrow> string" where
  "text_or x dflt = (case x of None \<Rightarrow> dflt | Some s \<Rightarrow> if s = [] then dflt else s)"

section \<open>The result enters the run\<close>

text \<open>\<^verbatim>\<open>observe_progress\<close>\<close>

definition observe_progress :: "'s runtime \<Rightarrow> run_state \<Rightarrow> observation
    \<Rightarrow> ('s, run_state \<times> progress_decision_type) eff" where
  "observe_progress R st ob =
     bindE (liftR (if r_progress_policy st \<noteq> []
                   then progress_policy_from_dict (rt_py R) (r_progress_policy st)
                   else Ok (rt_progress_policy R))) (\<lambda>pol.
     bindE (liftR (progress_state_from_dict (rt_py R) (r_progress_state st))) (\<lambda>ps.
     case observe pol ps ob of (d, ps') \<Rightarrow>
       let st1 = st\<lparr>r_progress_state := progress_state_to_dict ps'\<rparr> in
       if decide_completion ((evidence_for (r_status st1))
            \<lparr>ev_proposed := Some ActCONTINUE, ev_progress := Some (pd_decision d)\<rparr>) = Some ActFAIL
       then bindE (fail_both R st1 (no_progress_cause (r_run_id st1) (ob_step ob) ps') ''progress'')
              (\<lambda>x. retE (fst x, pd_decision d))
       else retE (st1, pd_decision d)))"

definition tool_message :: "string \<Rightarrow> tool_result \<Rightarrow> message" where
  "tool_message name r =
     \<lparr>m_role = ''tool'', m_content = TextContent (tr_content r),
      m_name = Some (name @ (if tr_is_error r then '' (error)'' else [])),
      m_tool_call_id = Some (tr_tool_use_id r), m_tool_calls = []\<rparr>"

text \<open>The changes \<^verbatim>\<open>_apply_tool_result\<close> makes to the run before it observes progress.\<close>

definition with_tool_result :: "run_state \<Rightarrow> pending \<Rightarrow> tool_result \<Rightarrow> run_state" where
  "with_tool_result st p r =
     st\<lparr>r_messages := r_messages st @ [tool_message (pc_name p) r],
        r_next_tool_index := r_next_tool_index st + 1, r_step_index := r_step_index st + 1,
        r_interrupt := None,
        r_decisions := filter (\<lambda>kv. fst kv \<noteq> pc_invocation p) (r_decisions st)\<rparr>"

definition tool_observation :: "'s runtime \<Rightarrow> run_state \<Rightarrow> pending \<Rightarrow> tool_result \<Rightarrow> observation" where
  "tool_observation R st p r =
     \<lparr>ob_operation_id = ''tool:'' @ pc_invocation p, ob_step = r_step_index st,
      ob_action = Some (rt_action_fp R (pc_name p) (pc_payload p)),
      ob_error = (if tr_is_error r
        then Some (rt_error_fp R (str_or (rt_py R) (dict_get (tr_metadata r) ''error_type'') ''tool_error'')
               (tr_content r) (pc_name p) (str_or (rt_py R) (dict_get (tr_metadata r) ''category'') []))
        else None),
      ob_state = (if tr_is_error r then None else rt_evidence_fp R (tr_content r)),
      ob_eligible = True\<rparr>"

definition apply_tool_result :: "'s runtime \<Rightarrow> run_state \<Rightarrow> pending \<Rightarrow> tool_result \<Rightarrow> bool
    \<Rightarrow> ('s, run_state) eff" where
  "apply_tool_result R st p r reused =
     (let st1 = with_tool_result st p r in
      if reused then save_checkpoint R st1
      else bindE (observe_progress R st1 (tool_observation R st1 p r)) (\<lambda>(st2, d).
           if d = ProgressTERMINATE then retE st2 else save_checkpoint R st2))"

section \<open>Decided outcomes\<close>

definition success_result :: "pending \<Rightarrow> tool_record \<Rightarrow> tool_result" where
  "success_result p q = \<lparr>tr_content = text_or (t_result q) [], tr_is_error = False,
     tr_tool_use_id = pc_call_id p, tr_metadata = []\<rparr>"

text \<open>A failed or unknown outcome that may not be retried any more.\<close>

definition failure_decided :: "retry_policy \<Rightarrow> tool_record \<Rightarrow> bool" where
  "failure_decided rp q \<longleftrightarrow> t_status q \<in> {ToolFAILED, ToolUNKNOWN} \<and>
     (t_retry_state q \<in> {RETRY_SUPPRESSED, RETRY_EXHAUSTED} \<or> max_attempts rp \<le> t_attempt q)"

definition failure_result :: "pending \<Rightarrow> tool_record \<Rightarrow> tool_result" where
  "failure_result p q = error_result (pc_call_id p)
     (text_or (t_result q) (text_or (t_error q) ''tool dependency failed''))
     [(''failure_category'', opt_val PStr (t_last_failure_category q)),
      (''error_code'', opt_val PStr (t_last_error_code q)),
      (''retry_exhausted'', PBool (retry_exhausted q)),
      (''unsafe_retry_suppressed'', PBool (t_retry_suppressed_reason q = Some ''unsafe''))]"

text \<open>An execution that was running when its process died, with no attempt left.\<close>

definition exhausted_record :: "tool_record \<Rightarrow> string \<Rightarrow> tool_record" where
  "exhausted_record q now =
     q\<lparr>t_status := ToolFAILED, t_is_error := True,
       t_result := Some (text_or (t_error q) ''tool result remained unknown after restart''),
       t_last_failure_category := Some (category_value UNKNOWN_FAILURE),
       t_last_error_code := Some ''DEPENDENCY_RETRY_EXHAUSTED'',
       t_retry_state := RETRY_EXHAUSTED, t_completed_at := Some now\<rparr>"

section \<open>Permission\<close>

definition permission_decision_of :: "'s runtime \<Rightarrow> run_state \<Rightarrow> pending \<Rightarrow> permission_decision" where
  "permission_decision_of R st p =
     (case pc_tool p of
        None \<Rightarrow> permission PermALLOW ''unknown tool will be rejected by the executor'' ''tool.not_found''
      | Some t \<Rightarrow>
          let policy = rt_permission R (permission_request_of (rt_py R) t (pc_payload p)
                (Some (r_run_id st)) (Some (r_thread_id st)) (Some (r_turn_id st)) (rt_cwd R)
                (pc_invocation p));
              approved = map_of (r_decisions st) (pc_invocation p)
          in if approved = Some ''reject''
             then permission PermDENY ''this invocation was explicitly rejected'' ''invocation.rejected''
             else if approved = Some ''approve'' \<and> pm_action policy \<noteq> PermDENY
             then permission PermALLOW ''this invocation was explicitly approved'' ''invocation.approved''
             else policy)"

definition denied_record :: "tool_record \<Rightarrow> string \<Rightarrow> string \<Rightarrow> tool_record" where
  "denied_record q reason now =
     q\<lparr>t_status := ToolFAILED, t_error := Some (''denied by permission policy: '' @ reason),
       t_is_error := True, t_completed_at := Some now\<rparr>"

definition denied_result :: "pending \<Rightarrow> string \<Rightarrow> tool_result" where
  "denied_result p reason = error_result (pc_call_id p)
     (''Tool \"'' @ pc_name p @ ''\" execution denied by permission policy: '' @ reason) []"

section \<open>Attempts\<close>

definition seconds_until :: "'s runtime \<Rightarrow> nat \<Rightarrow> string \<Rightarrow> rat" where
  "seconds_until R n value =
     (case rt_parse_time R value of None \<Rightarrow> 0 | Some t \<Rightarrow> max 0 (t - now_time (env_at R n)))"

definition after_seconds :: "'s runtime \<Rightarrow> nat \<Rightarrow> rat \<Rightarrow> string" where
  "after_seconds R n delay = rt_format_time R (now_time (env_at R n) + max 0 delay)"

text \<open>\<^verbatim>\<open>try: m except BudgetExceededError\<close>; other exceptions pass.\<close>

definition budgetE :: "('s, 'a) eff \<Rightarrow> ('s, exn + 'a) eff" where
  "budgetE m = catchE (bindE m (\<lambda>a. retE (Inr a)))
     (\<lambda>e. if is_budget_exceeded e then retE (Inl e) else raiseE e)"

text \<open>
  The wait for a pending retry: \<open>Inl\<close> is the result reported when the wait does not fit into
  the wall-time budget of the run, \<open>Inr\<close> the record cleared for the next attempt.
\<close>

definition await_retry :: "'s runtime \<Rightarrow> run_state \<Rightarrow> pending \<Rightarrow> tool_record
    \<Rightarrow> ('s, tool_result + tool_record) eff" where
  "await_retry R st p q =
     (case t_next_retry_at q of
        None \<Rightarrow> retE (Inr q)
      | Some at_time \<Rightarrow>
          if at_time = [] then retE (Inr q)
          else
            bindE tickE (\<lambda>n.
            let delay = seconds_until R n at_time in
            bindE (storeE (\<lambda>n. rt_ensure_wall_time R n st)) (\<lambda>remaining.
            if (case remaining of None \<Rightarrow> False | Some r \<Rightarrow> r \<le> delay)
            then
              bindE (save_tool R (q\<lparr>t_retry_state := RETRY_SUPPRESSED,
                  t_retry_suppressed_reason := Some ''deadline'',
                  t_last_error_code := Some ''DEPENDENCY_DEADLINE_EXCEEDED'',
                  t_next_retry_at := None\<rparr>)) (\<lambda>q1.
              retE (Inl (error_result (pc_call_id p)
                (text_or (t_result q1) (text_or (t_error q1) ''tool retry missed Run deadline''))
                [(''error_code'', PStr ''DEPENDENCY_DEADLINE_EXCEEDED''),
                 (''failure_category'', opt_val PStr (t_last_failure_category q1)),
                 (''retry_blocked_by_deadline'', PBool True)])))
            else bindE (save_tool R (q\<lparr>t_next_retry_at := None, t_retry_state := RetryNONE\<rparr>)) (\<lambda>q1.
                 retE (Inr q1)))))"

text \<open>The record of an attempt that is about to start.\<close>

definition started_record :: "tool_record \<Rightarrow> string \<Rightarrow> tool_record" where
  "started_record q now =
     q\<lparr>t_attempt := t_attempt q + 1, t_status := ToolRUNNING,
       t_started_at := Some (text_or (t_started_at q) now), t_error := None\<rparr>"

definition operation_timeout :: "'s runtime \<Rightarrow> pending \<Rightarrow> rat option \<Rightarrow> operation_deadline" where
  "operation_timeout R p remaining =
     \<lparr>configured_timeout_seconds =
        min (case pc_tool p of Some t \<Rightarrow> tl_timeout t | None \<Rightarrow> rt_tool_timeout R) (rt_tool_timeout R),
      remaining_run_seconds = remaining\<rparr>"

text \<open>
  The call of the executor. Calling the handler is an effect of its own: the process may die
  before it, and the call is in the history from the moment the handler starts.
\<close>

definition call_tool :: "'s runtime \<Rightarrow> pending \<Rightarrow> int \<Rightarrow> ('s, tool_result option) eff" where
  "call_tool R p attempt =
     (case admit_call (rt_py R) (rt_registry R) (pc_call_id p) (pc_name p)
             (call_payload (pc_payload p) (pc_invocation p) (pc_tool p)) of
        Inl r \<Rightarrow> retE (Some r)
      | Inr data \<Rightarrow>
          effectE (bindE (logE (pc_invocation p) attempt) (\<lambda>_.
            bindE tickE (\<lambda>n.
            retE (reply_result (rt_py R) (pc_call_id p) (pc_name p) (rt_handler R n (pc_name p) data))))))"

definition cancelled_record :: "retry_safety \<Rightarrow> tool_record \<Rightarrow> string \<Rightarrow> tool_record" where
  "cancelled_record safety q now =
     q\<lparr>t_status := (if safety = UNSAFE then ToolUNKNOWN else ToolFAILED), t_is_error := True,
       t_error := Some ''tool execution cancelled'',
       t_last_failure_category := Some (category_value UNKNOWN_FAILURE),
       t_last_error_code := Some ''CancelledError'', t_retry_state := RETRY_SUPPRESSED,
       t_retry_suppressed_reason := Some (if safety = UNSAFE then ''unsafe'' else ''cancelled''),
       t_next_retry_at := None, t_completed_at := Some now\<rparr>"

definition succeeded_record :: "tool_record \<Rightarrow> tool_result \<Rightarrow> string \<Rightarrow> tool_record" where
  "succeeded_record q r now =
     q\<lparr>t_status := ToolSUCCEEDED, t_result := Some (tr_content r), t_is_error := False,
       t_error := None, t_completed_at := Some now, t_last_failure_category := None,
       t_last_error_code := None, t_retry_state := RetryNONE, t_retry_suppressed_reason := None,
       t_next_retry_at := None\<rparr>"

text \<open>\<^verbatim>\<open>_dependency_error_code\<close> of an exception of class \<open>cls\<close> that is no budget error.\<close>

definition dependency_error_code :: "string \<Rightarrow> retry_decision \<Rightarrow> string" where
  "dependency_error_code cls d =
     (if rd_blocked_by_deadline d then ''DEPENDENCY_DEADLINE_EXCEEDED''
      else if rd_exhausted d then ''DEPENDENCY_RETRY_EXHAUSTED''
      else if rd_category d = TIMEOUT then ''DEPENDENCY_TIMEOUT''
      else cls)"

text \<open>\<^verbatim>\<open>_retry_metadata\<close>; the delay is not rounded to three digits here.\<close>

definition retry_metadata :: "string \<Rightarrow> int \<Rightarrow> retry_decision \<Rightarrow> pydict" where
  "retry_metadata kind attempt d = [
     (''dependency_type'', PStr kind), (''failure_category'', PStr (category_value (rd_category d))),
     (''attempt_count'', PInt attempt), (''backoff_ms'', PFloat (rd_delay_seconds d * 1000)),
     (''retryable'', PBool (rd_retry d)), (''retry_exhausted'', PBool (rd_exhausted d)),
     (''retry_blocked_by_deadline'', PBool (rd_blocked_by_deadline d)),
     (''unsafe_retry_suppressed'', PBool (rd_unsafe_suppressed d))]"

definition dict_update :: "pydict \<Rightarrow> pydict \<Rightarrow> pydict" where
  "dict_update d e = foldl (\<lambda>acc kv. dict_set (fst kv) (snd kv) acc) d e"

definition failed_record :: "tool_record \<Rightarrow> tool_result \<Rightarrow> retry_decision \<Rightarrow> string \<Rightarrow> string \<Rightarrow> tool_record" where
  "failed_record q r d now next_at =
     q\<lparr>t_status := (if rd_unsafe_suppressed d then ToolUNKNOWN else ToolFAILED),
       t_result := Some (tr_content r), t_is_error := True, t_error := Some (tr_content r),
       t_completed_at := Some now,
       t_last_failure_category := Some (category_value (rd_category d)),
       t_last_error_code := Some (dependency_error_code ''RuntimeError'' d),
       t_retry_suppressed_reason :=
         (if rd_exhausted d then None else if rd_unsafe_suppressed d then Some ''unsafe''
          else if rd_blocked_by_deadline d then Some ''deadline''
          else if \<not> rd_retry d then Some ''not_retryable'' else None),
       t_retry_state := (if rd_retry d then RETRY_PENDING
                         else if rd_exhausted d then RETRY_EXHAUSTED else RETRY_SUPPRESSED),
       t_retry_backoff_seconds :=
         (if rd_retry d then t_retry_backoff_seconds q + rd_delay_seconds d else t_retry_backoff_seconds q),
       t_next_retry_at := (if rd_retry d then Some next_at else None)\<rparr>"

definition failed_result :: "tool_result \<Rightarrow> int \<Rightarrow> retry_decision \<Rightarrow> tool_result" where
  "failed_result r attempt d = r\<lparr>tr_metadata := dict_update (tr_metadata r)
     ((''error_code'', PStr (dependency_error_code ''RuntimeError'' d)) # retry_metadata ''tool'' attempt d)\<rparr>"

definition failure_evidence :: "tool_result \<Rightarrow> failure" where
  "failure_evidence r = (if tr_metadata r \<noteq> [] then FailureDict (tr_metadata r) else FailureText (tr_content r))"

text \<open>The retry decision after a failed attempt.\<close>

definition decide_tool_retry :: "'s runtime \<Rightarrow> run_state \<Rightarrow> retry_safety \<Rightarrow> tool_record \<Rightarrow> tool_result
    \<Rightarrow> ('s, retry_decision) eff" where
  "decide_tool_retry R st safety q r =
     bindE (storeE (\<lambda>n. rt_wall_time R n st)) (\<lambda>remaining.
     bindE tickE (\<lambda>n.
     liftR (decide_retry (rt_retry_policy R) (classify (rt_py R) (failure_evidence r)) (t_attempt q) safety
       (tr_content r) (rt_random R n) remaining (retry_after_of_dict (rt_py R) (tr_metadata r)))))"

definition cancelE :: "('s, 'a) eff" where
  "cancelE w = (w, Cancelled)"

text \<open>
  What follows the reply of the executor (\<open>None\<close>: the task was cancelled meanwhile). \<open>Inl\<close>
  ends the loop with the state of the run, \<open>Inr\<close> is the record for the next attempt.
\<close>

definition settle_reply :: "'s runtime \<Rightarrow> run_state \<Rightarrow> pending \<Rightarrow> retry_safety \<Rightarrow> tool_record
    \<Rightarrow> tool_result option \<Rightarrow> ('s, run_state + tool_record) eff" where
  "settle_reply R st p safety q reply =
     bindE (nowE R) (\<lambda>now.
     case reply of
       None \<Rightarrow> bindE (save_tool R (cancelled_record safety q now)) (\<lambda>_. cancelE)
     | Some r \<Rightarrow>
         if \<not> tr_is_error r
         then bindE (save_tool R (succeeded_record q r now)) (\<lambda>_.
              bindE (apply_tool_result R st p r False) (\<lambda>s. retE (Inl s)))
         else
           bindE (decide_tool_retry R st safety q r) (\<lambda>d.
           bindE tickE (\<lambda>n.
           bindE (save_tool R (failed_record q r d now (after_seconds R n (rd_delay_seconds d)))) (\<lambda>q'.
           if rd_retry d then retE (Inr q')
           else bindE (apply_tool_result R st p (failed_result r (t_attempt q) d) False)
                  (\<lambda>s. retE (Inl s))))))"

text \<open>The attempt itself, after it was charged to the budget.\<close>

definition start_attempt :: "'s runtime \<Rightarrow> run_state \<Rightarrow> pending \<Rightarrow> retry_safety \<Rightarrow> tool_record
    \<Rightarrow> ('s, run_state + tool_record) eff" where
  "start_attempt R st p safety q =
     bindE (nowE R) (\<lambda>now.
     bindE (save_tool R (started_record q now)) (\<lambda>q1.
     bindE (storeE (\<lambda>n. rt_ensure_wall_time R n st)) (\<lambda>remaining.
     if deadline_exhausted (operation_timeout R p remaining)
     then raiseE (TimeoutErr ''Tool operation deadline exhausted'')
     else
       bindE (call_tool R p (t_attempt q1)) (\<lambda>reply.
       settle_reply R st p safety q1 reply))))"

definition tool_attempt :: "'s runtime \<Rightarrow> run_state \<Rightarrow> pending \<Rightarrow> retry_safety \<Rightarrow> tool_record
    \<Rightarrow> ('s, run_state + tool_record) eff" where
  "tool_attempt R st p safety q =
     bindE (await_retry R st p q) (\<lambda>waited.
     case waited of
       Inl r \<Rightarrow> bindE (apply_tool_result R st p r False) (\<lambda>s. retE (Inl s))
     | Inr q1 \<Rightarrow>
         bindE (budgetE (storeE (\<lambda>n. rt_consume_tool R n st
             (''tool:'' @ pc_invocation p @ '':attempt:'' @ int_repr (t_attempt q1 + 1))))) (\<lambda>charged.
         case charged of
           Inl e \<Rightarrow> bindE (fail_run R st (cause_of (rt_py R) e) ''tool'') (\<lambda>s. retE (Inl s))
         | Inr _ \<Rightarrow> start_attempt R st p safety q1))"

fun tool_attempts :: "nat \<Rightarrow> 's runtime \<Rightarrow> run_state \<Rightarrow> pending \<Rightarrow> retry_safety \<Rightarrow> tool_record
    \<Rightarrow> ('s, run_state) eff" where
  "tool_attempts 0 R st p safety q = (\<lambda>w. (w, OutOfFuel))"
| "tool_attempts (Suc fuel) R st p safety q =
     bindE (tool_attempt R st p safety q) (\<lambda>x.
     case x of Inl s \<Rightarrow> retE s | Inr q' \<Rightarrow> tool_attempts fuel R st p safety q')"

text \<open>The retry policy allows no more than its number of attempts, so this many iterations suffice.\<close>

definition attempts_fuel :: "'s runtime \<Rightarrow> nat" where
  "attempts_fuel R = Suc (Suc (nat (max_attempts (rt_retry_policy R))))"

section \<open>The method\<close>

text \<open>After the permission: denied, to be approved, or executed.\<close>

definition run_permitted :: "'s runtime \<Rightarrow> run_state \<Rightarrow> pending \<Rightarrow> retry_safety \<Rightarrow> tool_record option
    \<Rightarrow> ('s, run_state) eff" where
  "run_permitted R st p safety existing =
     (let d = permission_decision_of R st p in
      case pm_action d of
        PermREQUIRE_APPROVAL \<Rightarrow>
          wait_for_approval R st (pc_invocation p) (pc_name p) (pc_payload p) ''tool_approval'' (pm_reason d)
      | PermDENY \<Rightarrow>
          bindE (nowE R) (\<lambda>now.
          bindE (save_tool R (denied_record (case existing of Some q \<Rightarrow> q
                                             | None \<Rightarrow> new_record st p ToolFAILED) (pm_reason d) now)) (\<lambda>_.
          apply_tool_result R st p (denied_result p (pm_reason d)) False))
      | PermALLOW \<Rightarrow>
          bindE (case existing of
                   Some q \<Rightarrow> retE q
                 | None \<Rightarrow> save_tool R (new_record st p ToolPENDING)) (\<lambda>q.
          tool_attempts (attempts_fuel R) R st p safety q))"

definition ambiguous_reason :: string where
  "ambiguous_reason = ''The process stopped after tool execution started but before success was '' @
     ''persisted. Retrying may duplicate an external side effect.''"

text \<open>
  \<^verbatim>\<open>_execute_pending_tool_inner\<close>. It calls itself once, after it gave up a running execution;
  \<open>again\<close> is that call.
\<close>

definition pending_tool_step :: "'s runtime \<Rightarrow> (run_state \<Rightarrow> ('s, run_state) eff) \<Rightarrow> run_state
    \<Rightarrow> ('s, run_state) eff" where
  "pending_tool_step R again st0 =
     bindE (liftR (prepare_call R st0)) (\<lambda>(st, p).
     bindE (load_tool R (pc_invocation p)) (\<lambda>existing.
     if (case existing of None \<Rightarrow> False | Some q \<Rightarrow> t_arguments_hash q \<noteq> pc_hash p)
     then fail_run R st (cause_of (rt_py R)
            (RuntimeErr ''tool invocation arguments changed after checkpoint'')) ''tool''
     else case existing of
       Some q \<Rightarrow>
         if t_status q = ToolSUCCEEDED then apply_tool_result R st p (success_result p q) True
         else
           bindE (liftR (tool_retry_safety (pc_tool p))) (\<lambda>safety.
           if failure_decided (rt_retry_policy R) q
           then apply_tool_result R st p (failure_result p q) True
           else if t_status q = ToolRUNNING \<and> max_attempts (rt_retry_policy R) \<le> t_attempt q
           then bindE (nowE R) (\<lambda>now.
                bindE (save_tool R (exhausted_record q now)) (\<lambda>_. again st))
           else if t_status q = ToolRUNNING \<and> safety = UNSAFE
             \<and> map_of (r_decisions st) (pc_invocation p) \<noteq> Some ''approve''
           then wait_for_approval R st (pc_invocation p) (pc_name p) (pc_payload p)
                  ''ambiguous_tool_execution'' ambiguous_reason
           else run_permitted R st p safety (Some q))
     | None \<Rightarrow>
         bindE (liftR (tool_retry_safety (pc_tool p))) (\<lambda>safety. run_permitted R st p safety None)))"

fun execute_pending_tool_inner :: "nat \<Rightarrow> 's runtime \<Rightarrow> run_state \<Rightarrow> ('s, run_state) eff" where
  "execute_pending_tool_inner 0 R st = (\<lambda>w. (w, OutOfFuel))"
| "execute_pending_tool_inner (Suc fuel) R st =
     pending_tool_step R (execute_pending_tool_inner fuel R) st"

text \<open>The record is FAILED and exhausted when the method calls itself, so two levels suffice.\<close>

definition execute_pending_tool :: "'s runtime \<Rightarrow> run_state \<Rightarrow> ('s, run_state) eff" where
  "execute_pending_tool R st =
     bindE (budgetE (storeE (\<lambda>n. rt_consume_step R n st
        (''step:'' @ r_run_id st @ '':'' @ int_repr (r_step_index st) @ '':tool'')))) (\<lambda>charged.
     case charged of
       Inl e \<Rightarrow> fail_run R st (cause_of (rt_py R) e) ''tool''
     | Inr _ \<Rightarrow> execute_pending_tool_inner 2 R st)"

end
