(* ===== verification/ToolLaws.thy ===== *)
theory ToolLaws
  imports ToolProtocol ToolStore
begin

text \<open>
  What the tool protocol relies on of its collaborators, as an interface: the contract of the
  tool store (\<open>tool_store\<close>), and that saving a run or charging its budget leaves the tool
  records alone. Inside it: which invariants of tool records and handler calls every part of
  the runtime keeps, and the two invariants behind the safety of tool execution.
\<close>

section \<open>Invariants of the store and the call history\<close>

text \<open>\<open>keeps J m\<close>: \<open>m\<close> keeps \<open>J\<close> of the store and the history, however it ends.\<close>

definition on_world :: "('s \<Rightarrow> (string \<times> int) list \<Rightarrow> bool) \<Rightarrow> 's world \<Rightarrow> bool" where
  "on_world J w = J (w_store w) (w_calls w)"

definition keeps :: "('s \<Rightarrow> (string \<times> int) list \<Rightarrow> bool) \<Rightarrow> ('s, 'a) eff \<Rightarrow> bool" where
  "keeps J m \<longleftrightarrow> triple (on_world J) m (\<lambda>_. on_world J) (on_world J)"

lemma on_world_simps [simp]:
  "on_world J (w\<lparr>w_lives := n\<rparr>) = on_world J w"
  "on_world J (w\<lparr>w_tick := k\<rparr>) = on_world J w"
  "on_world J (w\<lparr>w_tick := k, w_store := s\<rparr>) = J s (w_calls w)"
  by (simp_all add: on_world_def)

named_theorems keeps_intros \<open>rules that reduce what a computation keeps to its parts\<close>

lemma keeps_ret [keeps_intros]: "keeps J (retE a)"
  by (simp add: keeps_def triple_ret)

lemma keeps_raise [keeps_intros]: "keeps J (raiseE e)"
  by (simp add: keeps_def triple_raise)

lemma keeps_liftR [keeps_intros]: "keeps J (liftR r)"
  by (simp add: keeps_def triple_liftR)

lemma keeps_read [keeps_intros]: "keeps J (readE f)"
  by (simp add: keeps_def triple_read)

lemma keeps_tick [keeps_intros]: "keeps J tickE"
  by (simp add: keeps_def triple_tick)

lemma keeps_bind [keeps_intros]: "keeps J m \<Longrightarrow> (\<And>a. keeps J (f a)) \<Longrightarrow> keeps J (bindE m f)"
  unfolding keeps_def by (rule triple_bind)

lemma keeps_catch: "keeps J m \<Longrightarrow> (\<And>e. keeps J (h e)) \<Longrightarrow> keeps J (catchE m h)"
  unfolding keeps_def by (rule triple_catch)

lemma keeps_store [keeps_intros]:
  assumes "\<And>n s s' r c. J s c \<Longrightarrow> f n s = (s', r) \<Longrightarrow> J s' c"
  shows "keeps J (storeE f)"
  unfolding keeps_def
proof (rule triple_store)
  fix w n s r assume "on_world J w" "f n (w_store w) = (s, r)"
  with assms have "J s (w_calls w)" by (simp add: on_world_def)
  then show "case r of Inl e \<Rightarrow> on_world J (w\<lparr>w_tick := Suc (w_tick w), w_store := s\<rparr>)
      | Inr a \<Rightarrow> on_world J (w\<lparr>w_tick := Suc (w_tick w), w_store := s\<rparr>)"
    by (cases r) simp_all
qed simp_all

lemma keeps_cases:
  "keeps J (if b then m1 else m2)" if "b \<Longrightarrow> keeps J m1" "\<not> b \<Longrightarrow> keeps J m2"
  using that by simp

lemma keeps_budget [keeps_intros]: "keeps J m \<Longrightarrow> keeps J (budgetE m)"
  unfolding budgetE_def by (intro keeps_catch keeps_intros keeps_cases)

lemma keeps_now [keeps_intros]: "keeps J (nowE R)"
  unfolding nowE_def by (intro keeps_intros)

lemma keeps_cancel [keeps_intros]: "keeps J cancelE"
  by (simp add: keeps_def triple_def cancelE_def)

lemma keeps_load [keeps_intros]: "keeps J (load_run R i)" "keeps J (load_tool R i)"
  unfolding load_run_def load_tool_def by (intro keeps_intros)+

lemma keeps_require [keeps_intros]: "keeps J (require_run R i)"
  unfolding require_run_def by (intro keeps_intros) (auto split: option.splits intro: keeps_intros)

lemma keeps_validate [keeps_intros]: "keeps J (validate_ownershipE R)"
  unfolding validate_ownershipE_def by (auto split: option.splits intro!: keeps_intros)

lemma keepsD: "keeps J m \<Longrightarrow> on_world J w \<Longrightarrow> on_world J (fst (m w))"
  unfolding keeps_def by (cases "m w") (auto dest!: tripleD)

text \<open>The parts of the runtime that only touch the checkpoints and the budget.\<close>

locale run_writes =
  fixes R :: "'s runtime" and J :: "'s \<Rightarrow> (string \<times> int) list \<Rightarrow> bool"
  assumes save_run: "J s c \<Longrightarrow> J (fst (rt_save R E w st s)) c"
    and record_hard: "J s c \<Longrightarrow> J (fst (rt_record_hard R n st e s)) c"
    and consume_step: "J s c \<Longrightarrow> J (fst (rt_consume_step R n st i s)) c"
    and consume_tool: "J s c \<Longrightarrow> J (fst (rt_consume_tool R n st i s)) c"
    and wall_time: "J s c \<Longrightarrow> J (fst (rt_wall_time R n st s)) c"
    and ensure_wall_time: "J s c \<Longrightarrow> J (fst (rt_ensure_wall_time R n st s)) c"
begin

lemma keeps_budget_ops [keeps_intros]:
  "keeps J (storeE (\<lambda>n. rt_record_hard R n st e))" "keeps J (storeE (\<lambda>n. rt_consume_step R n st i))"
  "keeps J (storeE (\<lambda>n. rt_consume_tool R n st i))" "keeps J (storeE (\<lambda>n. rt_wall_time R n st))"
  "keeps J (storeE (\<lambda>n. rt_ensure_wall_time R n st))"
  by (rule keeps_store, metis record_hard consume_step consume_tool wall_time ensure_wall_time fst_conv)+

lemma keeps_save_checkpoint [keeps_intros]: "keeps J (save_checkpoint R st)"
  unfolding save_checkpoint_def
proof (rule keeps_store)
  fix n s s' r c assume J: "J s c" and
    save: "(case rt_save R (env_at R n) (rt_ownership R) st s of (s', st', r) \<Rightarrow>
      (s', bindR r (\<lambda>_. Ok st'))) = (s', r)"
  then have "s' = fst (rt_save R (env_at R n) (rt_ownership R) st s)" by (auto split: prod.splits)
  with save_run[OF J] show "J s' c" by simp
qed

lemma keeps_evaluate [keeps_intros]: "keeps J (evaluate_completion R st b)"
  unfolding evaluate_completion_def Let_def
  by (auto intro!: keeps_intros split: option.splits next_action.splits)

lemma keeps_apply_action [keeps_intros]: "keeps J (apply_action R res)"
  unfolding apply_action_def Let_def
  by (auto intro!: keeps_intros split: option.splits)

lemma keeps_fail [keeps_intros]: "keeps J (fail_both R st c step)" "keeps J (fail_run R st c step)"
  unfolding fail_run_def fail_both_def Let_def
  by (auto intro!: keeps_intros split: option.splits)

lemma keeps_observe [keeps_intros]: "keeps J (observe_progress R st ob)"
  unfolding observe_progress_def Let_def
  by (auto intro!: keeps_intros split: prod.splits)

lemma keeps_apply_tool_result [keeps_intros]: "keeps J (apply_tool_result R st p r reused)"
  unfolding apply_tool_result_def Let_def
  by (auto intro!: keeps_intros)

lemma keeps_wait [keeps_intros]: "keeps J (wait_for_approval R st i name args kind reason)"
  unfolding wait_for_approval_def by (intro keeps_intros)

lemma keeps_decide_retry [keeps_intros]: "keeps J (decide_tool_retry R st safety q r)"
  unfolding decide_tool_retry_def by (intro keeps_intros)

end

section \<open>The tool records of a runtime\<close>

text \<open>What a store gives back of a record \<open>r\<close> that was saved.\<close>

definition reads_as :: "tool_record \<Rightarrow> tool_record \<Rightarrow> bool" where
  "reads_as r x \<longleftrightarrow> (\<exists>E. outcome x = outcome (settled (stamped E r)))"

lemma outcome_fields:
  "outcome x = outcome y \<Longrightarrow> t_status x = t_status y \<and> t_attempt x = t_attempt y \<and>
     t_retry_state x = t_retry_state y \<and> t_invocation_id x = t_invocation_id y"
  unfolding outcome_def by (metis (no_types, lifting) tool_record.select_convs(1,6,7,13)
      tool_record.surjective tool_record.update_convs(2,3,4))

lemma reads_as_fields:
  assumes "reads_as r x"
  shows "t_status x = t_status r" "t_attempt x = t_attempt r" "t_invocation_id x = t_invocation_id r"
    "t_retry_state r \<noteq> RetryNONE \<Longrightarrow> t_retry_state x = t_retry_state r"
proof -
  from assms obtain E where "outcome x = outcome (settled (stamped E r))" by (auto simp: reads_as_def)
  note f = outcome_fields[OF this]
  show "t_status x = t_status r" "t_attempt x = t_attempt r" "t_invocation_id x = t_invocation_id r"
    using f by (simp_all add: stamped_def)
  show "t_retry_state x = t_retry_state r" if "t_retry_state r \<noteq> RetryNONE"
    using f that by (simp add: settled_def stamped_def Let_def)
qed

definition attempts_of :: "string \<Rightarrow> (string \<times> int) list \<Rightarrow> int list" where
  "attempts_of i c = map snd (filter (\<lambda>x. fst x = i) c)"

lemma attempts_of_snoc [simp]:
  "attempts_of i (c @ [(j, k)]) = attempts_of i c @ (if j = i then [k] else [])"
  by (simp add: attempts_of_def)

lemma nat_text_nonempty [simp]: "nat_text n \<noteq> []"
  by (subst nat_text.simps) simp

lemma int_repr_nonempty [simp]: "int_repr k \<noteq> []"
  by (simp add: int_repr_def)

locale tool_runtime =
  tool_store "\<lambda>E. rt_save_tool R E (rt_ownership R)" "rt_load_tool R" tinv
  for R :: "'s runtime" and tinv :: "'s \<Rightarrow> bool" +
  assumes load_invocation:
      "tinv s \<Longrightarrow> rt_load_tool R E i s = Ok (Some q) \<Longrightarrow> t_invocation_id q = i"
    and save_run_tools:
      "tinv s \<Longrightarrow> tinv (fst (rt_save R E w st s)) \<and>
         rt_load_tool R F i (fst (rt_save R E w st s)) = rt_load_tool R F i s"
    and record_hard_tools:
      "tinv s \<Longrightarrow> tinv (fst (rt_record_hard R n st e s)) \<and>
         rt_load_tool R F i (fst (rt_record_hard R n st e s)) = rt_load_tool R F i s"
    and consume_step_tools:
      "tinv s \<Longrightarrow> tinv (fst (rt_consume_step R n st op s)) \<and>
         rt_load_tool R F i (fst (rt_consume_step R n st op s)) = rt_load_tool R F i s"
    and consume_tool_tools:
      "tinv s \<Longrightarrow> tinv (fst (rt_consume_tool R n st op s)) \<and>
         rt_load_tool R F i (fst (rt_consume_tool R n st op s)) = rt_load_tool R F i s"
    and wall_time_tools:
      "tinv s \<Longrightarrow> tinv (fst (rt_wall_time R n st s)) \<and>
         rt_load_tool R F i (fst (rt_wall_time R n st s)) = rt_load_tool R F i s"
    and ensure_wall_time_tools:
      "tinv s \<Longrightarrow> tinv (fst (rt_ensure_wall_time R n st s)) \<and>
         rt_load_tool R F i (fst (rt_ensure_wall_time R n st s)) = rt_load_tool R F i s"
    and clock_text: "fst (rt_clock R n) \<noteq> []"
    and value_text: "repr_text (rt_py R) v \<noteq> []"
begin

definition stored :: "string \<Rightarrow> 's \<Rightarrow> tool_record option" where
  "stored i s = (case rt_load_tool R (rt_py R) i s of Inl e \<Rightarrow> None | Inr x \<Rightarrow> x)"

text \<open>An invariant of the record of invocation \<open>i\<close> and of the attempts its handler was called with.\<close>

definition view :: "string \<Rightarrow> (tool_record option \<Rightarrow> int list \<Rightarrow> bool) \<Rightarrow> 's \<Rightarrow> (string \<times> int) list \<Rightarrow> bool" where
  "view i Q s c \<longleftrightarrow> tinv s \<and> Q (stored i s) (attempts_of i c)"

text \<open>Preparing the call again, after it kept its identifier, gives the same call.\<close>

lemma str_or_nonempty: "dflt \<noteq> [] \<Longrightarrow> str_or (rt_py R) v dflt \<noteq> []"
  by (cases v) (auto simp: str_or_def py_or_def value_text int_repr_nonempty)

lemma update_again: "AList.update k v (AList.update k v d) = AList.update k v d"
  by (induction d) auto

lemma prepare_call_item:
  "list_item (r_pending_tool_calls st) (r_next_tool_index st) = Ok call \<Longrightarrow>
   prepare_call R st =
     (let i = pending_call_id R st call; c = dict_set ''id'' (PStr i) call;
        nm = tool_call_name (rt_py R) c; v = tool_call_arguments (rt_loads R) c
      in Ok (st\<lparr>r_pending_tool_calls := list_put (r_pending_tool_calls st) (r_next_tool_index st) c\<rparr>,
         \<lparr>pc_call_id = i, pc_name = nm, pc_payload = v, pc_hash = rt_hash R v,
          pc_invocation = invocation_of st i, pc_tool = get_tool (rt_registry R) nm\<rparr>))"
  by (simp only: prepare_call_def bindR_Inr Let_def)

lemma prepare_again:
  assumes "prepare_call R st = Ok (st', p)"
  shows "prepare_call R st' = Ok (st', p)"
proof -
  let ?i = "r_next_tool_index st" and ?calls = "r_pending_tool_calls st"
  from assms obtain call where call: "list_item ?calls ?i = Ok call"
    by (cases "list_item ?calls ?i") (simp_all add: prepare_call_def)
  let ?id = "pending_call_id R st call"
  let ?call = "dict_set ''id'' (PStr ?id) call"
  have id: "?id \<noteq> []" unfolding pending_call_id_def by (rule str_or_nonempty) simp
  note eq = assms[unfolded prepare_call_item[OF call] Let_def, simplified]
  have st': "st' = st\<lparr>r_pending_tool_calls := list_put ?calls ?i ?call\<rparr>"
    using eq by simp
  have index: "r_next_tool_index st' = ?i" and calls: "r_pending_tool_calls st' = list_put ?calls ?i ?call"
    and runs: "invocation_of st' = invocation_of st"
    by (simp_all add: st' invocation_of_def fun_eq_iff)
  have item: "list_item (r_pending_tool_calls st') (r_next_tool_index st') = Ok ?call"
    using call unfolding index calls by (auto simp: list_item_def list_put_def split: if_splits)
  have again: "pending_call_id R st' ?call = ?id"
    using id by (simp add: pending_call_id_def dict_get_def str_or_def st')
  have put: "list_put (list_put ?calls ?i ?call) ?i ?call = list_put ?calls ?i ?call"
    by (simp add: list_put_def)
  have same: "st'\<lparr>r_pending_tool_calls := list_put (r_pending_tool_calls st') (r_next_tool_index st') ?call\<rparr> = st'"
    unfolding index calls put by (simp add: st')
  show ?thesis
    using eq
    unfolding prepare_call_item[OF item] Let_def again update_again same runs by simp
qed

lemma load_stored: "tinv s \<Longrightarrow> rt_load_tool R E i s = Ok (stored i s)"
  using load_defined[of s i] by (auto simp: stored_def)

lemma stored_id: "tinv s \<Longrightarrow> stored i s = Some q \<Longrightarrow> t_invocation_id q = i"
  using load_invocation[of s "rt_py R" i q] load_stored[of s "rt_py R" i] by simp

lemma view_writes: "run_writes R (view i Q)"
  by unfold_locales
    (auto simp: view_def stored_def save_run_tools record_hard_tools consume_step_tools
      consume_tool_tools wall_time_tools ensure_wall_time_tools)

lemmas keeps_run_parts =
  run_writes.keeps_budget_ops[OF view_writes] run_writes.keeps_save_checkpoint[OF view_writes]
  run_writes.keeps_fail[OF view_writes] run_writes.keeps_apply_tool_result[OF view_writes]
  run_writes.keeps_wait[OF view_writes] run_writes.keeps_decide_retry[OF view_writes]

lemma view_weaken: "on_world (view i Q) w \<Longrightarrow> (\<And>old a. Q old a \<Longrightarrow> Q' old a) \<Longrightarrow> on_world (view i Q') w"
  by (auto simp: on_world_def view_def)

text \<open>Saving a record of the invocation.\<close>

lemma save_own:
  assumes "t_invocation_id r = i" "\<And>old x a. Q old a \<Longrightarrow> reads_as r x \<Longrightarrow> Q' (Some x) a"
  shows "triple (on_world (view i Q)) (save_tool R r)
    (\<lambda>q w. on_world (view i Q') w \<and> (\<exists>E. q = stamped E r)) (on_world (view i Q))"
  unfolding save_tool_def
proof (rule triple_store)
  fix w n s q
  assume pre: "on_world (view i Q) w" and
    run: "(case rt_save_tool R (env_at R n) (rt_ownership R) r (w_store w) of (s', q', res) \<Rightarrow>
      (s', bindR res (\<lambda>_. Ok q'))) = (s, q)"
  have inv: "tinv (w_store w)" using pre by (simp add: on_world_def view_def)
  have clock: "now_text (env_at R n) \<noteq> []" by (simp add: env_at_def clock_text)
  from inv clock show "case q of
      Inl e \<Rightarrow> on_world (view i Q) (w\<lparr>w_tick := Suc (w_tick w), w_store := s\<rparr>)
    | Inr q \<Rightarrow> on_world (view i Q') (w\<lparr>w_tick := Suc (w_tick w), w_store := s\<rparr>) \<and> (\<exists>E. q = stamped E r)"
  proof (cases rule: save_cases[of "w_store w" "env_at R n" r])
    case (saved s' x)
    have q: "s = s'" "q = Ok (stamped (env_at R n) r)" using run saved(1) by auto
    have "reads_as r x" using saved(3) by (auto simp: reads_as_def)
    moreover have "stored i s' = Some x" using saved(4) assms(1) by (simp add: stored_def)
    moreover have "Q (stored i (w_store w)) (attempts_of i (w_calls w))"
      using pre by (simp add: on_world_def view_def)
    ultimately have "view i Q' s' (w_calls w)"
      using assms(2) saved(2) by (simp add: view_def)
    with q show ?thesis by auto
  next
    case (refused r')
    with run pre show ?thesis by (auto simp: on_world_def)
  qed
qed simp_all

lemma save_other:
  assumes "t_invocation_id r \<noteq> i"
  shows "keeps (view i Q) (save_tool R r)"
  unfolding save_tool_def
proof (rule keeps_store)
  fix n s s' q c
  assume pre: "view i Q s c" and
    run: "(case rt_save_tool R (env_at R n) (rt_ownership R) r s of (s', q', res) \<Rightarrow>
      (s', bindR res (\<lambda>_. Ok q'))) = (s', q)"
  have inv: "tinv s" using pre by (simp add: view_def)
  have clock: "now_text (env_at R n) \<noteq> []" by (simp add: env_at_def clock_text)
  from inv clock show "view i Q s' c"
  proof (cases rule: save_cases[of s "env_at R n" r])
    case (saved s1 x)
    with run pre assms show ?thesis by (auto simp: view_def stored_def)
  next
    case (refused r')
    with run pre show ?thesis by auto
  qed
qed

text \<open>Calling the handler.\<close>

lemma call_own:
  assumes "pc_invocation p = i" "\<And>old a. Q old a \<Longrightarrow> Q' old (a @ [k])" "\<And>old a. Q old a \<Longrightarrow> Q' old a"
  shows "triple (on_world (view i Q)) (call_tool R p k) (\<lambda>_. on_world (view i Q')) (on_world (view i Q'))"
proof -
  have log: "triple (on_world (view i Q)) (logE i k) (\<lambda>_. on_world (view i Q')) (on_world (view i Q'))"
    using assms(2) by (auto simp: triple_def logE_def on_world_def view_def)
  have rest: "triple (on_world (view i Q')) (bindE tickE (\<lambda>n. retE (f n))) (\<lambda>_. on_world (view i Q'))
      (on_world (view i Q'))" for f :: "nat \<Rightarrow> tool_result option"
    using keeps_bind[OF keeps_tick keeps_ret, of "view i Q'"] by (simp add: keeps_def)
  have weaken: "on_world (view i Q) w \<Longrightarrow> on_world (view i Q') w" for w
    by (erule view_weaken) (rule assms(3))
  show ?thesis
    unfolding call_tool_def assms(1)
    by (auto split: sum.splits intro!: triple_ret triple_effect triple_bind[OF log rest] weaken)
qed

lemma call_other:
  assumes "pc_invocation p \<noteq> i"
  shows "keeps (view i Q) (call_tool R p k)"
proof -
  have "keeps (view i Q) (logE (pc_invocation p) k)"
    using assms by (auto simp: keeps_def triple_def logE_def on_world_def view_def)
  then have "keeps (view i Q) (bindE (logE (pc_invocation p) k) (\<lambda>_. bindE tickE (\<lambda>n. retE (f n))))"
    for f :: "nat \<Rightarrow> tool_result option"
    by (intro keeps_intros)
  then show ?thesis
    unfolding call_tool_def
    by (auto split: sum.splits simp: keeps_def intro!: triple_effect triple_ret)
qed

end

end
