(* ===== verification/ToolSafety.thy ===== *)
theory ToolSafety
  imports ToolLaws DependencyProps
begin

text \<open>
  Safety of tool execution across crashes: the rules for one attempt, for the loop of attempts
  and for the whole method, over any runtime whose collaborators keep \<open>tool_runtime\<close>.
\<close>

text \<open>The runtime's writes keep every invariant of a tool record.\<close>

sublocale tool_runtime \<subseteq> writes: run_writes R "view i Q" for i Q
  by (rule view_writes)

section \<open>Small rules\<close>

lemma triple_pure: "(\<phi> \<Longrightarrow> triple P m Q X) \<Longrightarrow> triple (\<lambda>w. P w \<and> \<phi>) m Q X"
  by (auto simp: triple_def)

lemma triple_stamped:
  "(\<And>E. triple P (f (stamped E r)) Q X) \<Longrightarrow> triple (\<lambda>w. P w \<and> (\<exists>E. a = stamped E r)) (f a) Q X"
  by (auto simp: triple_def)

lemma triple_post:
  "triple P m Q' X \<Longrightarrow> (\<And>a w. Q' a w \<Longrightarrow> Q a w) \<Longrightarrow> triple P m Q X"
  by (erule triple_weaken) auto

lemma triple_if: "(b \<Longrightarrow> triple P m1 Q X) \<Longrightarrow> (\<not> b \<Longrightarrow> triple P m2 Q X) \<Longrightarrow> triple P (if b then m1 else m2) Q X"
  by simp

lemma decide_retry_permits:
  assumes "decide_retry rp c attempt safety e sample remaining ra = Ok d" "rd_retry d"
  shows "attempt < max_attempts rp \<and> safety \<noteq> UNSAFE \<and> \<not> rd_unsafe_suppressed d"
  using assms by (auto simp: decide_retry_def RetryDecision_def Let_def bindR_Ok_iff split: if_splits)

context tool_runtime
begin

definition retry_permitted :: "retry_safety \<Rightarrow> int \<Rightarrow> retry_decision \<Rightarrow> bool" where
  "retry_permitted safety attempt d \<longleftrightarrow> attempt < max_attempts (rt_retry_policy R) \<and> safety \<noteq> UNSAFE \<and>
     \<not> rd_unsafe_suppressed d"

lemma keeps_triple:
  "keeps (view i Q) m \<Longrightarrow> (\<And>old a. Q old a \<Longrightarrow> QX old a) \<Longrightarrow>
     triple (on_world (view i Q)) m (\<lambda>_. on_world (view i Q)) (on_world (view i QX))"
  unfolding keeps_def by (erule triple_weaken) (auto elim: view_weaken)

lemma save_triple:
  assumes "t_invocation_id r = i" "\<And>old x a. Q old a \<Longrightarrow> reads_as r x \<Longrightarrow> Q' (Some x) a"
    "\<And>old a. Q old a \<Longrightarrow> QX old a"
  shows "triple (on_world (view i Q)) (save_tool R r)
    (\<lambda>q w. on_world (view i Q') w \<and> (\<exists>E. q = stamped E r)) (on_world (view i QX))"
proof (rule triple_weaken[where P' = "on_world (view i Q)" and X' = "on_world (view i Q)"])
  show "triple (on_world (view i Q)) (save_tool R r)
    (\<lambda>q w. on_world (view i Q') w \<and> (\<exists>E. q = stamped E r)) (on_world (view i Q))"
    using assms(1,2) by (rule save_own)
  show "on_world (view i Q) w \<Longrightarrow> on_world (view i QX) w" for w
    by (erule view_weaken) (rule assms(3))
qed

lemma decide_triple:
  "triple (on_world (view i Q)) (decide_tool_retry R st safety q r)
    (\<lambda>d w. on_world (view i Q) w \<and>
       (rd_retry d \<longrightarrow> retry_permitted safety (t_attempt q) d))
    (on_world (view i Q))"
  unfolding decide_tool_retry_def
proof (rule triple_bind)
  show "triple (on_world (view i Q)) (storeE (\<lambda>n. rt_wall_time R n st)) (\<lambda>_. on_world (view i Q))
      (on_world (view i Q))"
    using keeps_run_parts(4)[of i Q st] by (simp add: keeps_def)
next
  fix remaining
  show "triple (on_world (view i Q)) (bindE tickE (\<lambda>n. liftR (decide_retry (rt_retry_policy R)
       (classify (rt_py R) (failure_evidence r)) (t_attempt q) safety (tr_content r) (rt_random R n)
       remaining (retry_after_of_dict (rt_py R) (tr_metadata r)))))
     (\<lambda>d w. on_world (view i Q) w \<and>
       (rd_retry d \<longrightarrow> retry_permitted safety (t_attempt q) d))
     (on_world (view i Q))"
  proof (rule triple_bind)
    show "triple (on_world (view i Q)) tickE (\<lambda>_. on_world (view i Q)) (on_world (view i Q))"
      using keeps_tick[of "view i Q"] by (simp add: keeps_def)
  next
    fix n
    show "triple (on_world (view i Q)) (liftR (decide_retry (rt_retry_policy R)
       (classify (rt_py R) (failure_evidence r)) (t_attempt q) safety (tr_content r) (rt_random R n)
       remaining (retry_after_of_dict (rt_py R) (tr_metadata r))))
     (\<lambda>d w. on_world (view i Q) w \<and>
       (rd_retry d \<longrightarrow> retry_permitted safety (t_attempt q) d))
     (on_world (view i Q))"
      by (rule triple_liftR) (use decide_retry_permits in \<open>auto simp: retry_permitted_def\<close>)
  qed
qed

section \<open>Calls of other invocations\<close>

text \<open>Executing one invocation leaves the record and the history of every other one alone.\<close>

definition next_of :: "string \<Rightarrow> 'b + tool_record \<Rightarrow> bool" where
  "next_of j x \<longleftrightarrow> (case x of Inl r \<Rightarrow> True | Inr y \<Rightarrow> t_invocation_id y = j)"

lemma next_of_simps [simp]: "next_of j (Inl r)" "next_of j (Inr y) = (t_invocation_id y = j)"
  by (simp_all add: next_of_def)

lemma keeps_post: "keeps J m \<Longrightarrow> (\<And>a. \<phi> a) \<Longrightarrow> triple (on_world J) m (\<lambda>a w. on_world J w \<and> \<phi> a) (on_world J)"
  unfolding keeps_def by (erule triple_post) simp

lemma keeps_bind_post:
  "triple (on_world J) m (\<lambda>a w. on_world J w \<and> \<phi> a) (on_world J) \<Longrightarrow>
   (\<And>a. \<phi> a \<Longrightarrow> triple (on_world J) (f a) Q (on_world J)) \<Longrightarrow> triple (on_world J) (bindE m f) Q (on_world J)"
  by (erule triple_bind) (rule triple_pure)

lemma save_other_post:
  assumes "t_invocation_id r = j" "j \<noteq> i"
  shows "triple (on_world (view i Q)) (save_tool R r)
    (\<lambda>q w. on_world (view i Q) w \<and> t_invocation_id q = j) (on_world (view i Q))"
  unfolding triple_def
proof (intro allI impI)
  fix w w' x
  assume pre: "on_world (view i Q) w" and run: "save_tool R r w = (w', x)"
  have other: "keeps (view i Q) (save_tool R r)" using assms by (intro save_other) simp
  have own: "triple (on_world (view j (\<lambda>_ _. True))) (save_tool R r)
      (\<lambda>q w. on_world (view j (\<lambda>_ _. True)) w \<and> (\<exists>E. q = stamped E r)) (on_world (view j (\<lambda>_ _. True)))"
    by (rule save_own[OF assms(1)]) simp
  have "on_world (view j (\<lambda>_ _. True)) w" using pre by (simp add: on_world_def view_def)
  from triple_apply[OF own this run] triple_apply[OF other[unfolded keeps_def] pre run] assms(1)
  show "case x of Done q \<Rightarrow> on_world (view i Q) w' \<and> t_invocation_id q = j | _ \<Rightarrow> on_world (view i Q) w'"
    by (cases x) auto
qed

lemma save_next_other:
  assumes "t_invocation_id r = j" "j \<noteq> i"
  shows "triple (on_world (view i Q)) (bindE (save_tool R r) (\<lambda>y. retE (Inr y)))
      (\<lambda>x w. on_world (view i Q) w \<and> next_of j x) (on_world (view i Q))"
    and "triple (on_world (view i Q)) (bindE (save_tool R r) (\<lambda>y. retE (Inl (f y))))
      (\<lambda>x w. on_world (view i Q) w \<and> next_of j (x :: 'b + tool_record)) (on_world (view i Q))"
  by (rule keeps_bind_post[OF save_other_post[OF assms]], rule triple_ret, simp)+

lemma ends_other:
  "keeps (view i Q) m \<Longrightarrow> triple (on_world (view i Q)) (bindE m (\<lambda>s. retE (Inl s)))
     (\<lambda>x w. on_world (view i Q) w \<and> next_of j (x :: 'b + tool_record)) (on_world (view i Q))"
  unfolding keeps_def by (erule triple_bind) (rule triple_ret, simp)

lemma keeps_next:
  "keeps (view i Q) m \<Longrightarrow> (\<And>a. triple (on_world (view i Q)) (f a) Q' (on_world (view i Q))) \<Longrightarrow>
     triple (on_world (view i Q)) (bindE m f) Q' (on_world (view i Q))"
  unfolding keeps_def by (rule triple_bind)

lemma raises_other: "triple P (raiseE e) Q P" "triple P cancelE Q P"
  by (rule triple_raise, assumption) (simp add: triple_def cancelE_def)

lemma await_other:
  assumes "t_invocation_id q = j" "j \<noteq> i"
  shows "triple (on_world (view i Q)) (await_retry R st p q)
    (\<lambda>x w. on_world (view i Q) w \<and> next_of j x) (on_world (view i Q))"
  unfolding await_retry_def Let_def
  by (auto split: option.split intro!: triple_ret triple_if keeps_next[OF keeps_tick]
      keeps_next[OF keeps_run_parts(5)] save_next_other[OF _ assms(2)] simp: assms(1))

lemma settle_other:
  assumes "t_invocation_id q = j" "j \<noteq> i"
  shows "triple (on_world (view i Q)) (settle_reply R st p safety q reply)
    (\<lambda>x w. on_world (view i Q) w \<and> next_of j x) (on_world (view i Q))"
proof -
  have ids: "t_invocation_id (cancelled_record safety q now) = j"
    "t_invocation_id (succeeded_record q r now) = j" "t_invocation_id (failed_record q r d now nx) = j"
    for r d now nx
    using assms(1) by (simp_all add: cancelled_record_def succeeded_record_def failed_record_def)
  show ?thesis
    unfolding settle_reply_def
    by (rule keeps_next[OF keeps_now])
      (auto split: option.split intro!: raises_other ends_other keeps_run_parts triple_ret triple_if
        keeps_bind_post[OF save_other_post[OF _ assms(2)]] keeps_next[OF keeps_tick]
        keeps_next[OF keeps_run_parts(11)] simp: ids)
qed

lemma start_other:
  assumes "t_invocation_id q = j" "pc_invocation p = j" "j \<noteq> i"
  shows "triple (on_world (view i Q)) (start_attempt R st p safety q)
    (\<lambda>x w. on_world (view i Q) w \<and> next_of j x) (on_world (view i Q))"
proof -
  have start: "t_invocation_id (started_record q now) = j" for now
    using assms(1) by (simp add: started_record_def)
  have call: "keeps (view i Q) (call_tool R p k)" for k using assms by (intro call_other) simp
  show ?thesis
    unfolding start_attempt_def
    by (rule keeps_next[OF keeps_now], rule keeps_bind_post[OF save_other_post[OF start assms(3)]],
        rule keeps_next[OF keeps_run_parts(5)], rule triple_if, rule raises_other,
        rule keeps_next[OF call], rule settle_other[OF _ assms(3)])
qed

lemma attempt_other:
  assumes "t_invocation_id q = j" "pc_invocation p = j" "j \<noteq> i"
  shows "triple (on_world (view i Q)) (tool_attempt R st p safety q)
    (\<lambda>x w. on_world (view i Q) w \<and> next_of j x) (on_world (view i Q))"
  unfolding tool_attempt_def
proof (rule keeps_bind_post[OF await_other[OF assms(1,3)]])
  fix x :: "tool_result + tool_record" assume x: "next_of j x"
  show "triple (on_world (view i Q))
     (case x of Inl r \<Rightarrow> bindE (apply_tool_result R st p r False) (\<lambda>s. retE (Inl s))
      | Inr q1 \<Rightarrow> bindE (budgetE (storeE (\<lambda>n. rt_consume_tool R n st
             (''tool:'' @ pc_invocation p @ '':attempt:'' @ int_repr (t_attempt q1 + 1))))) (\<lambda>charged.
           case charged of
             Inl e \<Rightarrow> bindE (fail_run R st (cause_of (rt_py R) e) ''tool'') (\<lambda>s. retE (Inl s))
           | Inr _ \<Rightarrow> start_attempt R st p safety q1))
     (\<lambda>x w. on_world (view i Q) w \<and> next_of j x) (on_world (view i Q))"
  proof (cases x)
    case (Inr y)
    with x have y: "t_invocation_id y = j" by simp
    show ?thesis
      unfolding Inr sum.case
      by (rule keeps_next[OF keeps_budget[OF keeps_run_parts(3)]])
        (auto split: sum.split intro!: ends_other keeps_run_parts start_other[OF y assms(2,3)])
  qed (auto intro!: ends_other keeps_run_parts)
qed

lemma attempts_other:
  assumes "pc_invocation p = j" "j \<noteq> i"
  shows "t_invocation_id q = j \<Longrightarrow> keeps (view i Q) (tool_attempts fuel R st p safety q)"
proof (induction fuel arbitrary: q)
  case 0
  have "keeps (view i Q) (\<lambda>w. (w, OutOfFuel))" by (simp add: keeps_def triple_def)
  then show ?case by (simp only: tool_attempts.simps)
next
  case (Suc fuel)
  show ?case
    unfolding tool_attempts.simps keeps_def
    by (rule keeps_bind_post[OF attempt_other[OF Suc.prems assms]])
      (auto split: sum.split intro!: triple_ret Suc.IH[unfolded keeps_def])
qed

lemma method_other:
  assumes "\<And>st' p. prepare_call R st = Ok (st', p) \<Longrightarrow> pc_invocation p \<noteq> i"
  shows "keeps (view i Q) (execute_pending_tool R st)"
proof -
  have permitted: "keeps (view i Q) (run_permitted R st p safety x)"
    if "pc_invocation p \<noteq> i" "\<And>q. x = Some q \<Longrightarrow> t_invocation_id q = pc_invocation p" for st p safety x
  proof -
    have deny: "t_invocation_id (denied_record (case x of Some q \<Rightarrow> q | None \<Rightarrow> new_record st p ToolFAILED) reason now)
        = pc_invocation p" for reason now
      using that(2) by (auto simp: denied_record_def new_record_def split: option.split)
    have fresh: "t_invocation_id (new_record st p ToolPENDING) = pc_invocation p" by (simp add: new_record_def)
    have execute: "keeps (view i Q) (bindE (case x of Some q \<Rightarrow> retE q | None \<Rightarrow> save_tool R (new_record st p ToolPENDING))
        (\<lambda>q. tool_attempts n R st p safety q))" for n
      using that(2) attempts_other[OF refl that(1)]
      by (auto simp: keeps_def split: option.split
          intro!: keeps_bind_post[OF save_other_post[OF fresh that(1)]])
    show ?thesis
      unfolding run_permitted_def Let_def
      using deny that(1)
      by (auto split: permission_action.split intro!: keeps_intros keeps_run_parts execute save_other)
  qed
  have step: "keeps (view i Q) (pending_tool_step R again st0)"
    if prepared: "prepare_call R st0 = Ok (st', p)" and p: "pc_invocation p \<noteq> i" and again: "keeps (view i Q) (again st')"
    for again st0 st' p
  proof -
    have pick: "triple (on_world (view i Q)) (load_tool R (pc_invocation p))
        (\<lambda>x w. on_world (view i Q) w \<and> (\<forall>q. x = Some q \<longrightarrow> t_invocation_id q = pc_invocation p)) (on_world (view i Q))"
      unfolding load_tool_def
      by (rule triple_read) (auto simp: on_world_def view_def dest: load_invocation)
    have give_up: "keeps (view i Q) (save_tool R (exhausted_record q now))"
      if "t_invocation_id q = pc_invocation p" for q now
      using that p by (intro save_other) (simp add: exhausted_record_def)
    show ?thesis
      unfolding pending_tool_step_def prepared liftR_simps bindE_ret prod.case keeps_def
      by (rule keeps_bind_post[OF pick], unfold keeps_def[symmetric])
        (auto split: option.split intro!: keeps_intros keeps_run_parts permitted[OF p] give_up again)
  qed
  have fuel: "keeps (view i Q) (execute_pending_tool_inner n R st0)"
    if "\<And>st' p. prepare_call R st0 = Ok (st', p) \<Longrightarrow> pc_invocation p \<noteq> i" for n st0
    using that
  proof (induction n arbitrary: st0)
    case 0
    have "keeps (view i Q) (\<lambda>w. (w, OutOfFuel))" by (simp add: keeps_def triple_def)
    then show ?case by (simp only: execute_pending_tool_inner.simps)
  next
    case (Suc n)
    show ?case
    proof (cases "prepare_call R st0")
      case (Inl e)
      then show ?thesis by (auto simp: pending_tool_step_def intro: keeps_intros)
    next
      case (Inr sp)
      obtain st' p where sp: "prepare_call R st0 = Ok (st', p)" using Inr by (cases sp) simp
      have "keeps (view i Q) (execute_pending_tool_inner n R st')"
        by (rule Suc.IH) (use prepare_again[OF sp] Suc.prems[OF sp] in auto)
      from step[where again = "execute_pending_tool_inner n R", OF sp Suc.prems[OF sp] this]
      show ?thesis by simp
    qed
  qed
  show ?thesis
    unfolding execute_pending_tool_def
    by (auto split: sum.split intro!: keeps_intros keeps_run_parts fuel assms)
qed

end

section \<open>One attempt\<close>

text \<open>An outcome that ends the loop of attempts.\<close>

definition decided :: "tool_record \<Rightarrow> bool" where
  "decided x \<longleftrightarrow> t_status x = ToolSUCCEEDED \<or>
     t_status x \<in> {ToolFAILED, ToolUNKNOWN} \<and> t_retry_state x \<in> {RETRY_SUPPRESSED, RETRY_EXHAUSTED}"

lemma protocol_record_fields [simp]:
  "t_attempt (started_record q now) = t_attempt q + 1" "t_status (started_record q now) = ToolRUNNING"
  "t_attempt (cancelled_record safety q now) = t_attempt q" "decided (cancelled_record safety q now)"
  "t_attempt (succeeded_record q r now) = t_attempt q" "decided (succeeded_record q r now)"
  "t_attempt (failed_record q r d now nx) = t_attempt q"
  "t_status (failed_record q r d now nx) = (if rd_unsafe_suppressed d then ToolUNKNOWN else ToolFAILED)"
  "decided (failed_record q r d now nx) = (\<not> rd_retry d)"
  "t_attempt (stamped E q) = t_attempt q" "t_status (stamped E q) = t_status q"
  by (auto simp: started_record_def cancelled_record_def succeeded_record_def failed_record_def
      stamped_def decided_def)

text \<open>
  An invariant of one invocation through the protocol: \<open>Q0 q\<close> describes the situation before
  an attempt with record \<open>q\<close>, \<open>Q1 k\<close> and \<open>Q2 k\<close> the one with attempt \<open>k\<close> recorded, before and
  after the call, and \<open>QX\<close> is what holds whenever the method can stop.
\<close>

locale attempt_invariant = tool_runtime R tinv
  for R :: "'s runtime" and tinv :: "'s \<Rightarrow> bool" +
  fixes i :: string and safety :: retry_safety
    and Q0 :: "tool_record \<Rightarrow> tool_record option \<Rightarrow> int list \<Rightarrow> bool"
    and Q1 Q2 :: "int \<Rightarrow> tool_record option \<Rightarrow> int list \<Rightarrow> bool"
    and QX :: "tool_record option \<Rightarrow> int list \<Rightarrow> bool"
    and may_repeat :: bool
  assumes waiting:
      "Q0 q old a \<Longrightarrow> t_attempt q' = t_attempt q \<Longrightarrow> t_status q' = t_status q \<Longrightarrow>
       t_attempt x = t_attempt q \<Longrightarrow> t_status x = t_status q \<Longrightarrow> Q0 q' (Some x) a"
    and starting:
      "Q0 q old a \<Longrightarrow> t_attempt x = t_attempt q + 1 \<Longrightarrow> t_status x = ToolRUNNING \<Longrightarrow>
       Q1 (t_attempt q + 1) (Some x) a"
    and calling: "Q1 k old a \<Longrightarrow> Q2 k old (a @ [k])" "Q1 k old a \<Longrightarrow> Q2 k old a"
    and finishing: "Q2 k old a \<Longrightarrow> t_attempt x = k \<Longrightarrow> decided x \<Longrightarrow> QX (Some x) a"
    and retrying:
      "Q2 k old a \<Longrightarrow> k < max_attempts (rt_retry_policy R) \<Longrightarrow> safety \<noteq> UNSAFE \<Longrightarrow>
       t_attempt x = k \<Longrightarrow> t_status x = ToolFAILED \<Longrightarrow> t_attempt q = k \<Longrightarrow> t_status q = ToolFAILED \<Longrightarrow>
       Q0 q (Some x) a"
    and fresh: "QX None a \<Longrightarrow> t_attempt x = 0 \<Longrightarrow> t_status x = ToolPENDING \<Longrightarrow> t_attempt q = 0 \<Longrightarrow>
       t_status q = ToolPENDING \<Longrightarrow> Q0 q (Some x) a"
    and refused: "QX None a \<Longrightarrow> t_attempt x = 0 \<Longrightarrow> t_status x = ToolFAILED \<Longrightarrow> QX (Some x) a"
      "Q0 q old a \<Longrightarrow> t_attempt x = t_attempt q \<Longrightarrow> t_status x = ToolFAILED \<Longrightarrow> QX (Some x) a"
    and exhausting: "QX (Some q) a \<Longrightarrow> t_status q = ToolRUNNING \<Longrightarrow>
       t_attempt x = t_attempt q \<Longrightarrow> t_status x = ToolFAILED \<Longrightarrow> t_retry_state x = RETRY_EXHAUSTED \<Longrightarrow>
       QX (Some x) a"
    and entering: "QX (Some q) a \<Longrightarrow> t_status q \<noteq> ToolSUCCEEDED \<Longrightarrow>
       \<not> failure_decided (rt_retry_policy R) q \<Longrightarrow>
       (t_status q = ToolRUNNING \<Longrightarrow>
          t_attempt q < max_attempts (rt_retry_policy R) \<and> (safety \<noteq> UNSAFE \<or> may_repeat)) \<Longrightarrow>
       Q0 q (Some q) a"
    and stopping: "Q0 q old a \<Longrightarrow> QX old a" "Q1 k old a \<Longrightarrow> QX old a" "Q2 k old a \<Longrightarrow> QX old a"
begin

definition own :: "tool_record \<Rightarrow> bool" where
  "own q \<longleftrightarrow> t_invocation_id q = i"

text \<open>\<open>Inl\<close>: the method has ended; \<open>Inr\<close>: the record for the next attempt.\<close>

definition ends_well :: "'b + tool_record \<Rightarrow> 's world \<Rightarrow> bool" where
  "ends_well x w \<longleftrightarrow> (case x of Inl r \<Rightarrow> on_world (view i QX) w
     | Inr y \<Rightarrow> on_world (view i (Q0 y)) w \<and> own y)"

lemma ends_well_simps [simp]:
  "ends_well (Inl r) = on_world (view i QX)"
  "ends_well (Inr y) = (\<lambda>w. on_world (view i (Q0 y)) w \<and> own y)"
  by (simp_all add: ends_well_def fun_eq_iff)

lemma own_simps [simp]:
  "own (started_record q now) = own q" "own (cancelled_record safety q now) = own q"
  "own (succeeded_record q r now) = own q" "own (failed_record q r d now nx) = own q"
  "own (stamped E q) = own q" "own (q\<lparr>t_next_retry_at := n, t_retry_state := s\<rparr>) = own q"
  "own (q\<lparr>t_retry_state := s, t_retry_suppressed_reason := u, t_last_error_code := v,
      t_next_retry_at := n\<rparr>) = own q"
  by (simp_all add: own_def started_record_def cancelled_record_def succeeded_record_def
      failed_record_def stamped_def)

lemma stop_worlds:
  "on_world (view i (Q0 q)) w \<Longrightarrow> on_world (view i QX) w"
  "on_world (view i (Q1 k)) w \<Longrightarrow> on_world (view i QX) w"
  "on_world (view i (Q2 k)) w \<Longrightarrow> on_world (view i QX) w"
  by (erule view_weaken, erule stopping)+

lemma keeps_own:
  "(\<And>Q. keeps (view i Q) m) \<Longrightarrow> triple (on_world (view i (Q0 q))) m (\<lambda>_. on_world (view i (Q0 q))) (on_world (view i QX))"
  "(\<And>Q. keeps (view i Q) m) \<Longrightarrow> triple (on_world (view i (Q1 k))) m (\<lambda>_. on_world (view i (Q1 k))) (on_world (view i QX))"
  "(\<And>Q. keeps (view i Q) m) \<Longrightarrow> triple (on_world (view i (Q2 k))) m (\<lambda>_. on_world (view i (Q2 k))) (on_world (view i QX))"
  "(\<And>Q. keeps (view i Q) m) \<Longrightarrow> triple (on_world (view i QX)) m (\<lambda>_. on_world (view i QX)) (on_world (view i QX))"
  by (rule keeps_triple; (blast | erule stopping)?)+

lemma save_waiting:
  assumes "own r" "t_attempt r = t_attempt q" "t_status r = t_status q"
  shows "triple (on_world (view i (Q0 q))) (save_tool R r)
    (\<lambda>y w. on_world (view i (Q0 y)) w \<and> own y) (on_world (view i QX))"
proof (rule triple_post[OF save_triple[where Q' = "\<lambda>old a. \<forall>E. Q0 (stamped E r) old a"]])
  show "t_invocation_id r = i" using assms(1) by (simp add: own_def)
  show "\<forall>E. Q0 (stamped E r) (Some x) a" if "Q0 q old a" "reads_as r x" for old x a
    using waiting[OF that(1)] reads_as_fields[OF that(2)] assms by simp
  show "Q0 q old a \<Longrightarrow> QX old a" for old a by (rule stopping)
  show "on_world (view i (Q0 y)) w \<and> own y"
    if "on_world (view i (\<lambda>old a. \<forall>E. Q0 (stamped E r) old a)) w \<and> (\<exists>E. y = stamped E r)" for y w
    using that assms(1) by (auto simp: on_world_def view_def)
qed

lemma save_starting:
  assumes "own q"
  shows "triple (on_world (view i (Q0 q))) (save_tool R (started_record q now))
    (\<lambda>y w. on_world (view i (Q1 (t_attempt y))) w \<and> own y) (on_world (view i QX))"
proof (rule triple_post[OF save_triple[where Q' = "Q1 (t_attempt q + 1)"]])
  show "t_invocation_id (started_record q now) = i" using assms by (simp add: started_record_def own_def)
  show "Q1 (t_attempt q + 1) (Some x) a" if "Q0 q old a" "reads_as (started_record q now) x" for old x a
    using starting[OF that(1)] reads_as_fields[OF that(2)] by simp
  show "Q0 q old a \<Longrightarrow> QX old a" for old a by (rule stopping)
  show "on_world (view i (Q1 (t_attempt y))) w \<and> own y"
    if "on_world (view i (Q1 (t_attempt q + 1))) w \<and> (\<exists>E. y = stamped E (started_record q now))" for y w
    using that assms by auto
qed

lemma save_finishing:
  assumes "own r" "t_attempt r = k" "decided r"
  shows "triple (on_world (view i (Q2 k))) (save_tool R r) (\<lambda>_. on_world (view i QX)) (on_world (view i QX))"
proof (rule triple_post[OF save_triple[where Q' = QX]])
  show "QX (Some x) a" if "Q2 k old a" "reads_as r x" for old x a
    using finishing[OF that(1)] reads_as_fields[OF that(2)] assms(2,3)
    by (auto simp: decided_def)
qed (use assms(1) stopping in \<open>auto simp: own_def\<close>)

lemma save_failed:
  assumes "own q"
    and "rd_retry d \<longrightarrow> retry_permitted safety (t_attempt q) d"
  shows "triple (on_world (view i (Q2 (t_attempt q)))) (save_tool R (failed_record q r d now nx))
    (\<lambda>y w. if rd_retry d then on_world (view i (Q0 y)) w \<and> own y
           else on_world (view i QX) w) (on_world (view i QX))"
proof (cases "rd_retry d")
  case False
  then have "triple (on_world (view i (Q2 (t_attempt q)))) (save_tool R (failed_record q r d now nx))
      (\<lambda>_. on_world (view i QX)) (on_world (view i QX))"
    by (intro save_finishing) (simp_all add: assms(1))
  with False show ?thesis by simp
next
  case True
  let ?r = "failed_record q r d now nx"
  have "triple (on_world (view i (Q2 (t_attempt q)))) (save_tool R ?r)
    (\<lambda>y w. on_world (view i (Q0 y)) w \<and> own y) (on_world (view i QX))"
  proof (rule triple_post[OF save_triple[where Q' = "\<lambda>old a. \<forall>E. Q0 (stamped E ?r) old a"]])
    show "t_invocation_id ?r = i" using assms(1) by (simp add: failed_record_def own_def)
    show "\<forall>E. Q0 (stamped E ?r) (Some x) a" if "Q2 (t_attempt q) old a" "reads_as ?r x" for old x a
    proof
      fix E
      show "Q0 (stamped E ?r) (Some x) a"
        by (rule retrying[OF that(1)])
          (use assms(2) True reads_as_fields[OF that(2)] in
            \<open>simp_all add: retry_permitted_def\<close>)
    qed
    show "Q2 (t_attempt q) old a \<Longrightarrow> QX old a" for old a by (rule stopping)
    show "on_world (view i (Q0 y)) w \<and> own y"
      if "on_world (view i (\<lambda>old a. \<forall>E. Q0 (stamped E ?r) old a)) w \<and> (\<exists>E. y = stamped E ?r)" for y w
      using that assms(1) by (auto simp: on_world_def view_def)
  qed
  with True show ?thesis by simp
qed

lemma await_own:
  assumes "own q"
  shows "triple (on_world (view i (Q0 q))) (await_retry R st p q)
    ends_well (on_world (view i QX))"
    (is "triple ?P _ ?Q ?X")
proof -
  have ready: "triple ?P (retE (Inr q)) ?Q ?X" using assms by (auto intro: triple_ret)
  have late: "triple ?P (bindE (save_tool R (q\<lparr>t_retry_state := RETRY_SUPPRESSED,
        t_retry_suppressed_reason := Some ''deadline'', t_last_error_code := Some ''DEPENDENCY_DEADLINE_EXCEEDED'',
        t_next_retry_at := None\<rparr>)) (\<lambda>y. retE (Inl (f y)))) ?Q ?X" for f :: "tool_record \<Rightarrow> tool_result"
    by (rule triple_bind[OF save_waiting[where q = q]])
      (simp_all add: assms, rule triple_ret, auto intro: stop_worlds)
  have clear: "triple ?P (bindE (save_tool R (q\<lparr>t_next_retry_at := None, t_retry_state := RetryNONE\<rparr>))
        (\<lambda>y. retE (Inr y))) ?Q ?X"
    by (rule triple_bind[OF save_waiting[where q = q]]) (use assms in \<open>auto intro!: triple_ret\<close>)
  have tick: "triple ?P tickE (\<lambda>_. ?P) ?X" by (rule keeps_own) (rule keeps_tick)
  have wall: "triple ?P (storeE (\<lambda>n. rt_ensure_wall_time R n st)) (\<lambda>_. ?P) ?X"
    by (rule keeps_own) (rule keeps_run_parts)
  show ?thesis
    unfolding await_retry_def Let_def
    by (auto split: option.split intro!: ready triple_if triple_bind[OF tick] triple_bind[OF wall] late clear)
qed

lemma call_phase:
  assumes "pc_invocation p = i" "own q"
  shows "triple (on_world (view i (Q1 (t_attempt q)))) (call_tool R p (t_attempt q))
    (\<lambda>_. on_world (view i (Q2 (t_attempt q)))) (on_world (view i QX))"
proof (rule triple_weaken)
  show "triple (on_world (view i (Q1 (t_attempt q)))) (call_tool R p (t_attempt q))
    (\<lambda>_. on_world (view i (Q2 (t_attempt q)))) (on_world (view i (Q2 (t_attempt q))))"
    by (rule call_own[OF assms(1)]) (use calling in auto)
qed (auto elim: stop_worlds)

lemma applied_own:
  "triple (on_world (view i QX)) (bindE (apply_tool_result R st p r False) (\<lambda>s. retE (Inl s)))
     ends_well
     (on_world (view i QX))"
  by (rule triple_bind[OF keeps_own(4)[OF keeps_run_parts(9)]]) (auto intro!: triple_ret)

lemma settle_own:
  assumes "own q"
  shows "triple (on_world (view i (Q2 (t_attempt q)))) (settle_reply R st p safety q reply)
    ends_well (on_world (view i QX))"
    (is "triple ?P _ ?Q ?X")
proof -
  have cancelled: "triple ?X cancelE ?Q ?X" by (simp add: triple_def cancelE_def)
  have decide: "triple ?P (decide_tool_retry R st safety q r)
      (\<lambda>d w. ?P w \<and> (rd_retry d \<longrightarrow> retry_permitted safety (t_attempt q) d)) ?X" for r
    by (rule triple_weaken[OF decide_triple[where Q = "Q2 (t_attempt q)" and i = i]])
      (auto elim: stop_worlds)
  have give_up: "triple ?P (bindE (save_tool R (cancelled_record safety q now)) (\<lambda>_. cancelE)) ?Q ?X" for now
    by (rule triple_bind[OF save_finishing]) (simp_all add: assms cancelled)
  have success: "triple ?P (bindE (save_tool R (succeeded_record q r now)) (\<lambda>_.
              bindE (apply_tool_result R st p r False) (\<lambda>s. retE (Inl s)))) ?Q ?X" for r now
    by (rule triple_bind[OF save_finishing])
      (simp_all add: assms applied_own)
  have failure: "triple (\<lambda>w. ?P w \<and> (rd_retry d \<longrightarrow> retry_permitted safety (t_attempt q) d))
       (bindE tickE (\<lambda>n.
        bindE (save_tool R (failed_record q r d now (after_seconds R n (rd_delay_seconds d)))) (\<lambda>q'.
        if rd_retry d then retE (Inr q')
        else bindE (apply_tool_result R st p (failed_result r (t_attempt q) d) False)
               (\<lambda>s. retE (Inl s))))) ?Q ?X" for r d now
    by (rule triple_pure, rule triple_bind[OF keeps_own(3)[OF keeps_tick]],
        rule triple_bind[OF save_failed[OF assms]]) (auto intro!: triple_ret applied_own)
  show ?thesis
    unfolding settle_reply_def
    by (rule triple_bind[OF keeps_own(3)[OF keeps_now]])
      (auto split: option.split intro!: give_up success triple_bind[OF decide] failure)
qed

lemma start_own:
  assumes "pc_invocation p = i" "own q"
  shows "triple (on_world (view i (Q0 q))) (start_attempt R st p safety q)
    ends_well (on_world (view i QX))"
  unfolding start_attempt_def
  by (rule triple_bind[OF keeps_own(1)[OF keeps_now]], rule triple_bind[OF save_starting[OF assms(2)]],
      rule triple_pure, rule triple_bind[OF keeps_own(2)[OF keeps_run_parts(5)]], rule triple_if,
      rule triple_raise, erule stop_worlds, rule triple_bind[OF call_phase[OF assms(1)]], assumption,
      rule settle_own)

lemma attempt_own:
  assumes "pc_invocation p = i" "own q"
  shows "triple (on_world (view i (Q0 q))) (tool_attempt R st p safety q)
    ends_well (on_world (view i QX))"
    (is "triple ?P _ ?Q ?X")
proof -
  have failed: "triple (on_world (view i (Q0 y))) (bindE (fail_run R st c step) (\<lambda>s. retE (Inl s))) ?Q ?X"
    for y c step
    by (rule triple_bind[OF keeps_own(1)[OF keeps_run_parts(8)]])
      (auto intro!: triple_ret intro: stop_worlds)
  show ?thesis
    unfolding tool_attempt_def
    by (rule triple_bind[OF await_own[OF assms(2)]])
      (auto split: sum.split intro!: applied_own failed start_own[OF assms(1)] triple_pure
        triple_bind[OF keeps_own(1)[OF keeps_budget[OF keeps_run_parts(3)]]])
qed

lemma attempts_own:
  assumes "pc_invocation p = i"
  shows "own q \<Longrightarrow>
    triple (on_world (view i (Q0 q))) (tool_attempts fuel R st p safety q)
      (\<lambda>_. on_world (view i QX)) (on_world (view i QX))"
proof (induction fuel arbitrary: q)
  case 0
  have "triple (on_world (view i (Q0 q))) (\<lambda>w. (w, OutOfFuel)) (\<lambda>_. on_world (view i QX)) (on_world (view i QX))"
    using stop_worlds(1) by (simp add: triple_def)
  then show ?case by (simp only: tool_attempts.simps)
next
  case (Suc fuel)
  show ?case
    unfolding tool_attempts.simps
    by (rule triple_bind[OF attempt_own[OF assms Suc.prems]])
      (auto intro!: triple_ret triple_pure Suc.IH split: sum.split)
qed

text \<open>The whole method.\<close>

abbreviation found :: "tool_record option \<Rightarrow> tool_record option \<Rightarrow> int list \<Rightarrow> bool" where
  "found x \<equiv> (\<lambda>old a. QX old a \<and> old = x)"

lemma found_stops: "on_world (view i (found x)) w \<Longrightarrow> on_world (view i QX) w"
  by (erule view_weaken) simp

lemma load_own:
  "triple (on_world (view i QX)) (load_tool R i) (\<lambda>x. on_world (view i (found x))) (on_world (view i QX))"
  unfolding load_tool_def
  by (rule triple_read) (auto simp: on_world_def view_def load_stored)

lemma keeps_found:
  "(\<And>Q. keeps (view i Q) m) \<Longrightarrow>
     triple (on_world (view i (found x))) m (\<lambda>_. on_world (view i QX)) (on_world (view i QX))"
  by (rule triple_post[OF keeps_triple[where Q = "found x"]]) (auto intro: found_stops)

lemma permitted_own:
  assumes p: "pc_invocation p = i" and q: "\<And>q. x = Some q \<Longrightarrow> own q \<and> t_status q \<noteq> ToolSUCCEEDED \<and>
      \<not> failure_decided (rt_retry_policy R) q \<and>
      (t_status q = ToolRUNNING \<longrightarrow>
         t_attempt q < max_attempts (rt_retry_policy R) \<and> (safety \<noteq> UNSAFE \<or> may_repeat))"
  shows "triple (on_world (view i (found x))) (run_permitted R st p safety x)
    (\<lambda>_. on_world (view i QX)) (on_world (view i QX))" (is "triple ?P _ _ ?X")
proof -
  have enter: "Q0 y old a" if "found x old a" "x = Some y" for y old a
    using that q[OF that(2)] entering[of y a] by auto
  have result: "triple ?X (apply_tool_result R st p r False) (\<lambda>_. ?X) ?X" for r
    by (rule keeps_own(4)) (rule keeps_run_parts)
  have deny: "triple ?P (bindE (nowE R) (\<lambda>now.
        bindE (save_tool R (denied_record (case x of Some q \<Rightarrow> q | None \<Rightarrow> new_record st p ToolFAILED) reason now)) (\<lambda>_.
        apply_tool_result R st p r False))) (\<lambda>_. ?X) ?X" for reason r
  proof (rule triple_bind[OF keeps_triple[OF keeps_now]])
    fix now
    let ?r = "denied_record (case x of Some q \<Rightarrow> q | None \<Rightarrow> new_record st p ToolFAILED) reason now"
    have own: "own ?r"
      using p q by (auto simp: denied_record_def own_def new_record_def split: option.split)
    have save: "triple ?P (save_tool R ?r) (\<lambda>y w. ?X w \<and> (\<exists>E. y = stamped E ?r)) ?X"
    proof (rule save_triple)
      show "t_invocation_id ?r = i" using own by (simp add: own_def)
      show "QX (Some y) a" if "found x old a" "reads_as ?r y" for old y a
      proof (cases x)
        case None
        with that reads_as_fields[OF that(2)] show ?thesis
          by (intro refused(1)) (auto simp: denied_record_def new_record_def)
      next
        case (Some z)
        with that reads_as_fields[OF that(2)] show ?thesis
          by (intro refused(2)[OF enter[OF that(1) Some]]) (auto simp: denied_record_def)
      qed
    qed auto
    show "triple ?P (bindE (save_tool R ?r) (\<lambda>_. apply_tool_result R st p r False)) (\<lambda>_. ?X) ?X"
      by (rule triple_bind[OF save]) (rule triple_pure, rule result)
  qed auto
  have create: "triple ?P (case x of Some q \<Rightarrow> retE q | None \<Rightarrow> save_tool R (new_record st p ToolPENDING))
      (\<lambda>y w. on_world (view i (Q0 y)) w \<and> own y) ?X"
  proof (cases x)
    case None
    let ?r = "new_record st p ToolPENDING"
    have "triple ?P (save_tool R ?r) (\<lambda>y w. on_world (view i (\<lambda>old a. \<forall>E. Q0 (stamped E ?r) old a)) w \<and>
        (\<exists>E. y = stamped E ?r)) ?X"
    proof (rule save_triple)
      show "t_invocation_id ?r = i" using p by (simp add: new_record_def)
      show "\<forall>E. Q0 (stamped E ?r) (Some y) a" if "found x old a" "reads_as ?r y" for old y a
      proof
        fix E
        show "Q0 (stamped E ?r) (Some y) a"
          by (rule fresh) (use that None reads_as_fields[OF that(2)] in \<open>auto simp: new_record_def stamped_def\<close>)
      qed
    qed auto
    then have "triple ?P (save_tool R ?r) (\<lambda>y w. on_world (view i (Q0 y)) w \<and> own y) ?X"
      by (rule triple_post) (use p in \<open>auto simp: on_world_def view_def own_def new_record_def stamped_def\<close>)
    with None show ?thesis by simp
  next
    case (Some z)
    then show ?thesis
      using q[OF Some] enter[OF _ Some] by (auto intro!: triple_ret elim: view_weaken)
  qed
  have execute: "triple ?P (bindE (case x of Some q \<Rightarrow> retE q | None \<Rightarrow> save_tool R (new_record st p ToolPENDING))
      (\<lambda>q. tool_attempts (attempts_fuel R) R st p safety q)) (\<lambda>_. ?X) ?X"
    by (rule triple_bind[OF create], rule triple_pure, rule attempts_own[OF p])
  show ?thesis
    unfolding run_permitted_def Let_def
    by (auto split: permission_action.split intro!: deny execute keeps_found keeps_run_parts)
qed

lemma step_own:
  assumes prepared: "prepare_call R st0 = Ok (st, p)" and p: "pc_invocation p = i"
    and safety: "tool_retry_safety (pc_tool p) = Ok safety"
    and approved: "map_of (r_decisions st) i = Some ''approve'' \<longrightarrow> may_repeat"
    and again: "triple (on_world (view i QX)) (again st) (\<lambda>_. on_world (view i QX)) (on_world (view i QX))"
  shows "triple (on_world (view i QX)) (pending_tool_step R again st0)
    (\<lambda>_. on_world (view i QX)) (on_world (view i QX))" (is "triple ?X _ _ _")
proof -
  have give_up: "triple (on_world (view i (found (Some q)))) (bindE (nowE R) (\<lambda>now.
      bindE (save_tool R (exhausted_record q now)) (\<lambda>_. again st))) (\<lambda>_. ?X) ?X"
    if q: "own q" "t_status q = ToolRUNNING" for q
  proof (rule triple_bind[OF keeps_triple[OF keeps_now]])
    fix now
    show "triple (on_world (view i (found (Some q))))
      (bindE (save_tool R (exhausted_record q now)) (\<lambda>_. again st)) (\<lambda>_. ?X) ?X"
    proof (rule triple_bind[OF save_triple[where Q' = QX]])
      show "t_invocation_id (exhausted_record q now) = i" using q by (simp add: exhausted_record_def own_def)
      show "QX (Some x) a" if "found (Some q) old a" "reads_as (exhausted_record q now) x" for old x a
      proof (rule exhausting[of q a x])
        show "t_status q = ToolRUNNING" using q by simp
        show "QX (Some q) a" using that(1) by auto
        show "t_status x = ToolFAILED" "t_attempt x = t_attempt q" "t_retry_state x = RETRY_EXHAUSTED"
          using reads_as_fields[OF that(2)] by (simp_all add: exhausted_record_def)
      qed
    qed (auto intro!: triple_pure again)
  qed auto
  have lift: "liftR (prepare_call R st0) = retE (st, p)" by (simp add: prepared)
  have main: "triple (on_world (view i (found x)))
    (if (case x of None \<Rightarrow> False | Some q \<Rightarrow> t_arguments_hash q \<noteq> pc_hash p)
     then fail_run R st (cause_of (rt_py R)
            (RuntimeErr ''tool invocation arguments changed after checkpoint'')) ''tool''
     else case x of
       Some q \<Rightarrow>
         if t_status q = ToolSUCCEEDED then apply_tool_result R st p (success_result p q) True
         else
           bindE (liftR (tool_retry_safety (pc_tool p))) (\<lambda>safety.
           if failure_decided (rt_retry_policy R) q
           then apply_tool_result R st p (failure_result p q) True
           else if t_status q = ToolRUNNING \<and> max_attempts (rt_retry_policy R) \<le> t_attempt q
           then bindE (nowE R) (\<lambda>now.
                bindE (save_tool R (exhausted_record q now)) (\<lambda>_. again st))
           else if t_status q = ToolRUNNING \<and> safety = UNSAFE
             \<and> map_of (r_decisions st) (pc_invocation p) \<noteq> Some ''approve''
           then wait_for_approval R st (pc_invocation p) (pc_name p) (pc_payload p)
                  ''ambiguous_tool_execution'' ambiguous_reason
           else run_permitted R st p safety (Some q))
     | None \<Rightarrow>
         bindE (liftR (tool_retry_safety (pc_tool p))) (\<lambda>safety. run_permitted R st p safety None))
    (\<lambda>_. ?X) ?X" if x: "\<And>q. x = Some q \<Longrightarrow> own q" for x
  proof (cases x)
    case None
    then show ?thesis using permitted_own[OF p, of None] by (simp add: safety)
  next
    case (Some q)
    have own: "own q" by (rule x[OF Some])
    note fails = keeps_found[OF keeps_run_parts(8)] and replays = keeps_found[OF keeps_run_parts(9)]
      and waits = keeps_found[OF keeps_run_parts(10)]
    show ?thesis
      unfolding Some option.case safety liftR_simps bindE_ret
    proof (intro triple_if fails replays waits)
      show "triple (on_world (view i (found (Some q)))) (run_permitted R st p safety (Some q))
          (\<lambda>_. ?X) ?X"
        if "t_status q \<noteq> ToolSUCCEEDED" "\<not> failure_decided (rt_retry_policy R) q"
          "\<not> (t_status q = ToolRUNNING \<and> max_attempts (rt_retry_policy R) \<le> t_attempt q)"
          "\<not> (t_status q = ToolRUNNING \<and> safety = UNSAFE \<and>
              map_of (r_decisions st) (pc_invocation p) \<noteq> Some ''approve'')"
        by (rule permitted_own[OF p]) (use that own approved in \<open>auto simp: p\<close>)
    qed (use own give_up in blast)
  qed
  have pick: "triple ?X (load_tool R i) (\<lambda>x w. on_world (view i (found x)) w \<and> (\<forall>q. x = Some q \<longrightarrow> own q)) ?X"
    unfolding load_tool_def own_def
    by (rule triple_read) (auto simp: on_world_def view_def load_stored dest: stored_id)
  show ?thesis
    unfolding pending_tool_step_def lift bindE_ret prod.case p
    by (rule triple_bind[OF pick], rule triple_pure, rule main[unfolded p], blast)
qed

lemma method_own:
  assumes "prepare_call R st0 = Ok (st, p)" "pc_invocation p = i"
    and "tool_retry_safety (pc_tool p) = Ok safety"
    and "map_of (r_decisions st) i = Some ''approve'' \<longrightarrow> may_repeat"
  shows "triple (on_world (view i QX)) (execute_pending_tool R st0)
    (\<lambda>_. on_world (view i QX)) (on_world (view i QX))" (is "triple ?X _ _ _")
proof -
  have fuel: "triple ?X (execute_pending_tool_inner n R st') (\<lambda>_. ?X) ?X"
    if "prepare_call R st' = Ok (st, p)" for n st'
    using that
  proof (induction n arbitrary: st')
    case 0
    have "triple ?X (\<lambda>w. (w, OutOfFuel)) (\<lambda>_. ?X) ?X" by (simp add: triple_def)
    then show ?case by (simp only: execute_pending_tool_inner.simps)
  next
    case (Suc n)
    show ?case
      unfolding execute_pending_tool_inner.simps
      by (rule step_own[OF Suc.prems assms(2-4)]) (rule Suc.IH[OF prepare_again[OF assms(1)]])
  qed
  show ?thesis
    unfolding execute_pending_tool_def
    by (rule triple_bind[OF keeps_own(4)[OF keeps_budget[OF keeps_run_parts(2)]]])
      (split sum.split, intro conjI allI impI, rule keeps_own(4)[OF keeps_run_parts(8)], rule fuel[OF assms(1)])
qed

end

end
