(* ===== verification/LocalRuntime.thy ===== *)
theory LocalRuntime
  imports Verification ToolSafety BudgetProps
begin

text \<open>
  The runtime as a single machine runs it: the SQLite store of \<^verbatim>\<open>runtime/checkpoints.py\<close> for the
  checkpoints, the tool records and the budget ledgers, the budget manager of
  \<^verbatim>\<open>runtime/budget.py\<close> over that store, and the default permission policy. The invariants of
  tool execution are interpreted on it.
\<close>

section \<open>Frames\<close>

text \<open>A budget operation changes the store only through the save of the ledger.\<close>

definition ledger_frame :: "(ledger ledger_record \<Rightarrow> 's \<Rightarrow> 's \<times> ledger ledger_record \<times> unit res)
    \<Rightarrow> ('s \<Rightarrow> bool) \<Rightarrow> bool" where
  "ledger_frame save P \<longleftrightarrow> (\<forall>r s. P s \<longrightarrow> P (fst (save r s)))"

lemma other_writes_frame: "ledger_frame save P \<Longrightarrow> P s \<Longrightarrow> P (other_writes save rs s)"
  by (induction rs arbitrary: s) (auto simp: ledger_frame_def)

lemma mutate_loop_frame:
  "ledger_frame save P \<Longrightarrow> P s \<Longrightarrow> P (fst (mutate_loop load save owner fresh f attempts ws s))"
proof (induction attempts arbitrary: ws s)
  case (Cons others attempts)
  let ?r = "case load owner s of
      None \<Rightarrow> \<lparr>lr_owner_run_id = owner, lr_version = 0, lr_state = fresh\<rparr> | Some r \<Rightarrow> r"
  show ?case
  proof (cases "f (lr_state ?r)")
    case (Inl e)
    then show ?thesis using Cons.prems(2) by (simp add: Let_def)
  next
    case (Inr p)
    obtain l new where p: "p = (l, new)" by fastforce
    obtain s' r' u where saved: "save (?r\<lparr>lr_state := l\<rparr>) (other_writes save others s) = (s', r', u)"
      by (cases "save (?r\<lparr>lr_state := l\<rparr>) (other_writes save others s)") auto
    have "P s'"
      using Cons.prems(1) other_writes_frame[OF Cons.prems, of others] saved
      unfolding ledger_frame_def by (metis fst_conv)
    then show ?thesis
      using Inr p saved Cons.IH[OF Cons.prems(1)]
      by (auto simp: Let_def split: sum.split exn.split)
  qed
qed simp

lemma budget_operation_frame:
  "ledger_frame save P \<Longrightarrow> P s \<Longrightarrow> P (fst (budget_operation load save others c owner run f s))"
  using mutate_loop_frame[of save P s load owner "fresh_ledger owner" f "map others [0..<MUTATE_ATTEMPTS]" "[]"]
  by (auto simp: budget_operation_def mutate_def split: prod.split sum.split)

lemma fst_split [simp]:
  "fst (case x of (a, b) \<Rightarrow> (a, g a b)) = fst x"
  "fst (case y of (a, b, c) \<Rightarrow> (a, h a b c)) = fst y"
  by (simp_all split: prod.split)

lemma budget_initialize_frame:
  "ledger_frame save P \<Longrightarrow> P s \<Longrightarrow> P (fst (budget_initialize E D m load save others c st s))"
  using budget_operation_frame[of save P s]
  by (simp add: budget_initialize_def Let_def split: sum.split)

lemma budget_snapshot_frame:
  "ledger_frame save P \<Longrightarrow> P s \<Longrightarrow> P (fst (budget_snapshot_of E D m load save others c st s))"
  by (auto simp: budget_snapshot_of_def budget_initialize_frame split: option.split)

lemma ensure_wall_time_frame:
  assumes "ledger_frame save P" "P s"
  shows "P (fst (ensure_wall_time E D m load save others c1 c2 c3 st s))"
proof -
  obtain s1 st1 r1 where 1: "budget_snapshot_of E D m load save others c1 st s = (s1, st1, r1)"
    by (cases "budget_snapshot_of E D m load save others c1 st s") auto
  obtain s2 st2 r2 where 2: "budget_snapshot_of E D m load save others c2 st1 s1 = (s2, st2, r2)"
    by (cases "budget_snapshot_of E D m load save others c2 st1 s1") auto
  obtain s3 r3 where 3: "record_hard load save others c3 st2 ELAPSED_SECONDS s2 = (s3, r3)"
    by (cases "record_hard load save others c3 st2 ELAPSED_SECONDS s2") auto
  have "P s1" using budget_snapshot_frame[OF assms] 1 by (metis fst_conv)
  moreover have "P s2" using budget_snapshot_frame[OF assms(1) \<open>P s1\<close>] 2 by (metis fst_conv)
  moreover have "P s3"
    using budget_operation_frame[OF assms(1) \<open>P s2\<close>] 3 unfolding record_hard_def by (metis fst_conv)
  ultimately show ?thesis
    by (auto simp: ensure_wall_time_def 1 2 3 split: sum.split)
qed

lemma sqlite_ledger_frame: "ledger_frame (sqlite_save_ledger own) (\<lambda>s. Q (sq_tools s))"
  by (auto simp: ledger_frame_def sqlite_save_ledger_def Let_def)

lemma sqlite_save_frame: "sq_tools (fst (sqlite_save E own cp s)) = sq_tools s"
  by (auto simp: sqlite_save_def Let_def split: sum.split)

section \<open>The local runtime\<close>

text \<open>
  What the budget manager and the verifier need besides the store. \<open>lp_clock n k\<close> is the clock at its \<open>k\<close>-th
  reading during the effect \<open>n\<close>.
\<close>

record local_parts =
  lp_decimal :: decimal_text
  lp_manager :: budget_manager
  lp_clock :: "nat \<Rightarrow> nat \<Rightarrow> budget_clock"
  lp_files :: workspace_files

definition no_others :: "nat \<Rightarrow> ledger ledger_record list" where
  "no_others k = []"

text \<open>The exception names its dimension; the ledger operation takes it.\<close>

definition exceeded_dimension :: "exn \<Rightarrow> dimension option" where
  "exceeded_dimension e = (case e of
       BudgetExceededError code name limit used run \<Rightarrow> find (\<lambda>d. dim_name d = name) dimensions
     | _ \<Rightarrow> None)"

definition dropped :: "'s \<times> 'a res \<Rightarrow> 's \<times> unit res" where
  "dropped x = (fst x, bindR (snd x) (\<lambda>_. Ok ()))"

definition sqlite_verifier :: "pyenv \<Rightarrow> workspace_files \<Rightarrow> 'l sqlite_store \<Rightarrow> verifier" where
  "sqlite_verifier E A s = \<lparr>ve_py = E, ve_files = A, ve_load = (\<lambda>i. sqlite_load E i s),
     ve_list_tools = (\<lambda>i. sqlite_list_tools E i s)\<rparr>"

definition on_sqlite :: "local_parts \<Rightarrow> ledger sqlite_store runtime \<Rightarrow> ledger sqlite_store runtime" where
  "on_sqlite B R = (let load = sqlite_load_ledger; save = sqlite_save_ledger None in
     R\<lparr>rt_ownership := None, rt_load := sqlite_load, rt_save := sqlite_save,
       rt_load_tool := sqlite_load_tool, rt_save_tool := sqlite_save_tool,
       rt_verify := (\<lambda>st c k s. verify_completion (sqlite_verifier (rt_py R) (lp_files B) s) RunCOMPLETED st c k),
       rt_initialize := (\<lambda>n st s. case budget_initialize (env_at R n) (lp_decimal B) (lp_manager B) load save
            no_others (lp_clock B n 0) st s of (s', st', r) \<Rightarrow> (s', bindR r (\<lambda>_. Ok st'))),
       rt_consume_step := (\<lambda>n st i s. dropped (consume_step load save no_others (lp_clock B n 0) st i s)),
       rt_consume_tool := (\<lambda>n st i s. dropped (consume_tool_call load save no_others (lp_clock B n 0) st i s)),
       rt_wall_time := (\<lambda>n st s. case budget_snapshot_of (env_at R n) (lp_decimal B) (lp_manager B) load save
            no_others (lp_clock B n 0) st s of
            (s', st', r) \<Rightarrow> (s', bindR r (\<lambda>snap. Ok (remaining_wall_time snap)))),
       rt_ensure_wall_time := (\<lambda>n st s. case ensure_wall_time (env_at R n) (lp_decimal B) (lp_manager B) load
            save no_others (lp_clock B n 0) (lp_clock B n 1) (lp_clock B n 2) st s of
            (s', st', r) \<Rightarrow> (s', r)),
       rt_record_hard := (\<lambda>n st e s. case exceeded_dimension e of
            None \<Rightarrow> (s, Ok ())
          | Some d \<Rightarrow> dropped (record_hard load save no_others (lp_clock B n 0) st d s))\<rparr>)"

lemma on_sqlite_fields [simp]:
  "rt_ownership (on_sqlite B R) = None" "rt_load (on_sqlite B R) = sqlite_load"
  "rt_save (on_sqlite B R) = sqlite_save" "rt_load_tool (on_sqlite B R) = sqlite_load_tool"
  "rt_save_tool (on_sqlite B R) = sqlite_save_tool" "rt_clock (on_sqlite B R) = rt_clock R"
  "rt_py (on_sqlite B R) = rt_py R" "rt_registry (on_sqlite B R) = rt_registry R"
  "rt_retry_policy (on_sqlite B R) = rt_retry_policy R" "rt_permission (on_sqlite B R) = rt_permission R"
  by (simp_all add: on_sqlite_def Let_def)

lemma on_sqlite_frame:
  fixes Q :: "tool_record list \<Rightarrow> bool"
  assumes "Q (sq_tools s)"
  shows "Q (sq_tools (fst (rt_record_hard (on_sqlite B R) n st e s)))"
    "Q (sq_tools (fst (rt_consume_step (on_sqlite B R) n st i s)))"
    "Q (sq_tools (fst (rt_consume_tool (on_sqlite B R) n st i s)))"
    "Q (sq_tools (fst (rt_wall_time (on_sqlite B R) n st s)))"
    "Q (sq_tools (fst (rt_ensure_wall_time (on_sqlite B R) n st s)))"
proof -
  note frame = sqlite_ledger_frame[where Q = Q]
  note ops = budget_operation_frame[OF frame assms] budget_snapshot_frame[OF frame assms]
    ensure_wall_time_frame[OF frame assms]
  show "Q (sq_tools (fst (rt_record_hard (on_sqlite B R) n st e s)))"
    using assms by (auto simp: on_sqlite_def Let_def dropped_def record_hard_def ops split: option.split)
  show "Q (sq_tools (fst (rt_consume_step (on_sqlite B R) n st i s)))"
    by (simp add: on_sqlite_def Let_def dropped_def consume_step_def ops)
  show "Q (sq_tools (fst (rt_consume_tool (on_sqlite B R) n st i s)))"
    by (simp add: on_sqlite_def Let_def dropped_def consume_tool_call_def ops)
  show "Q (sq_tools (fst (rt_wall_time (on_sqlite B R) n st s)))"
    by (simp add: on_sqlite_def Let_def ops)
  show "Q (sq_tools (fst (rt_ensure_wall_time (on_sqlite B R) n st s)))"
    by (simp add: on_sqlite_def Let_def ops)
qed

text \<open>The clock and the printed values are texts with characters.\<close>

definition readable :: "'s runtime \<Rightarrow> bool" where
  "readable R \<longleftrightarrow> (\<forall>n. fst (rt_clock R n) \<noteq> []) \<and> (\<forall>v. repr_text (rt_py R) v \<noteq> [])"


lemma sqlite_load_tool_rows:
  "sq_tools s' = sq_tools s \<Longrightarrow> sqlite_load_tool E i s' = sqlite_load_tool E i s"
  "sq_tools s' = sq_tools s \<Longrightarrow> sqlite_tools_inv s' = sqlite_tools_inv s"
  by (simp_all add: sqlite_load_tool_def find_tool_def sqlite_tools_inv_def)

lemma sqlite_load_tool_invocation:
  "sqlite_tools_inv s \<Longrightarrow> sqlite_load_tool E i s = Ok (Some q) \<Longrightarrow> t_invocation_id q = i"
  using find_tool_in[of s i] by (auto simp: sqlite_load_tool_inv settled_def Let_def)

lemma local_tool_runtime:
  assumes "readable R"
  shows "tool_runtime (on_sqlite B R) sqlite_tools_inv"
proof -
  have rows: "sq_tools (fst (rt_record_hard (on_sqlite B R) n st e s)) = sq_tools s"
    "sq_tools (fst (rt_consume_step (on_sqlite B R) n st i s)) = sq_tools s"
    "sq_tools (fst (rt_consume_tool (on_sqlite B R) n st i s)) = sq_tools s"
    "sq_tools (fst (rt_wall_time (on_sqlite B R) n st s)) = sq_tools s"
    "sq_tools (fst (rt_ensure_wall_time (on_sqlite B R) n st s)) = sq_tools s" for n st e i s
    by (rule on_sqlite_frame[where Q = "\<lambda>t. t = sq_tools s"], rule refl)+
  note same = sqlite_load_tool_rows[OF rows(1)] sqlite_load_tool_rows[OF rows(2)]
    sqlite_load_tool_rows[OF rows(3)] sqlite_load_tool_rows[OF rows(4)]
    sqlite_load_tool_rows[OF rows(5)] sqlite_load_tool_rows[OF sqlite_save_frame]
  have "tool_store (\<lambda>E. rt_save_tool (on_sqlite B R) E (rt_ownership (on_sqlite B R)))
      (rt_load_tool (on_sqlite B R)) sqlite_tools_inv"
    using sqlite_tools.tool_store_axioms by simp
  then show ?thesis
    using assms sqlite_load_tool_invocation
    by (intro tool_runtime.intro tool_runtime_axioms.intro) (simp_all add: same readable_def)
qed

section \<open>Two invariants of an invocation\<close>

text \<open>
  A tool that must not be retried: the handler was not called, or once and then the record
  says so, as running or as decided.
\<close>

definition once_QX :: "tool_record option \<Rightarrow> int list \<Rightarrow> bool" where
  "once_QX old a \<longleftrightarrow> a = [] \<or>
     length a = 1 \<and> (\<exists>q. old = Some q \<and> (t_status q = ToolRUNNING \<or> decided q))"

definition once_running :: "nat \<Rightarrow> int \<Rightarrow> tool_record option \<Rightarrow> int list \<Rightarrow> bool" where
  "once_running n k old a \<longleftrightarrow> (a = [] \<or> length a = n) \<and> (\<exists>q. old = Some q \<and> t_status q = ToolRUNNING)"

text \<open>Any tool: the attempts are increasing, within the policy, and recorded.\<close>

definition tries :: "int \<Rightarrow> int \<Rightarrow> int list \<Rightarrow> bool" where
  "tries M cap a \<longleftrightarrow> sorted_wrt (<) a \<and> (\<forall>k \<in> set a. 1 \<le> k \<and> k \<le> M \<and> k \<le> cap)"

definition tries_QX :: "int \<Rightarrow> tool_record option \<Rightarrow> int list \<Rightarrow> bool" where
  "tries_QX M old a \<longleftrightarrow> (case old of
       None \<Rightarrow> a = []
     | Some q \<Rightarrow> 0 \<le> t_attempt q \<and> tries M (t_attempt q) a \<and>
         (t_status q = ToolPENDING \<longrightarrow> t_attempt q = 0))"

definition tries_Q0 :: "int \<Rightarrow> tool_record \<Rightarrow> tool_record option \<Rightarrow> int list \<Rightarrow> bool" where
  "tries_Q0 M q old a \<longleftrightarrow> t_attempt q < M \<and> tries_QX M old a \<and>
     (\<exists>x. old = Some x \<and> t_attempt x = t_attempt q \<and> t_status x = t_status q)"

definition tries_running :: "int \<Rightarrow> int \<Rightarrow> int \<Rightarrow> tool_record option \<Rightarrow> int list \<Rightarrow> bool" where
  "tries_running M cap k old a \<longleftrightarrow> 1 \<le> k \<and> k \<le> M \<and> tries M (cap + k) a \<and>
     (\<exists>x. old = Some x \<and> t_attempt x = k \<and> t_status x = ToolRUNNING)"

lemma tries_simps [simp]: "tries M cap []"
  by (simp add: tries_def)

lemma tries_mono: "tries M cap a \<Longrightarrow> cap \<le> cap' \<Longrightarrow> tries M cap' a"
  by (auto simp: tries_def)

lemma tries_snoc: "tries M (k - 1) a \<Longrightarrow> 1 \<le> k \<Longrightarrow> k \<le> M \<Longrightarrow> tries M k (a @ [k])"
  by (fastforce simp: tries_def sorted_wrt_append)

text \<open>\<^verbatim>\<open>datetime.isoformat\<close> and \<^verbatim>\<open>repr\<close> give texts with characters; the policy allows an attempt.\<close>

locale local_runtime =
  fixes B :: local_parts and R :: "ledger sqlite_store runtime"
  assumes readable: "readable R"
    and attempts: "0 < max_attempts (rt_retry_policy R)"

sublocale local_runtime \<subseteq> local: tool_runtime "on_sqlite B R" sqlite_tools_inv
  by (rule local_tool_runtime[OF readable])

lemma once_entering:
  assumes "once_QX (Some q) a" "t_status q \<noteq> ToolSUCCEEDED" "\<not> failure_decided rp q" "t_status q \<noteq> ToolRUNNING"
  shows "a = []"
  using assms by (cases "t_status q") (auto simp: once_QX_def decided_def failure_decided_def)

sublocale local_runtime \<subseteq> once: attempt_invariant "on_sqlite B R" sqlite_tools_inv i UNSAFE
  "\<lambda>q old a. a = []" "once_running 0" "once_running 1" once_QX False for i
proof (unfold_locales, goal_cases)
  case (11 q a)
  then show ?case using once_entering by blast
qed (auto simp: once_QX_def once_running_def decided_def)

sublocale local_runtime \<subseteq> tries: attempt_invariant "on_sqlite B R" sqlite_tools_inv i safety
  "tries_Q0 (max_attempts (rt_retry_policy R))" "tries_running (max_attempts (rt_retry_policy R)) (- 1)"
  "tries_running (max_attempts (rt_retry_policy R)) 0" "tries_QX (max_attempts (rt_retry_policy R))" True
  for i safety
proof (unfold_locales, goal_cases)
  case (1 q old a q' x)
  then show ?case by (auto simp: tries_Q0_def tries_QX_def)
next
  case (2 q old a x)
  then show ?case by (auto simp: tries_Q0_def tries_QX_def tries_running_def)
next
  case (3 k old a)
  then show ?case by (auto simp: tries_running_def intro: tries_snoc)
next
  case (4 k old a)
  then show ?case by (auto simp: tries_running_def intro: tries_mono)
next
  case (5 k old a x)
  then show ?case by (auto simp: tries_running_def tries_QX_def decided_def)
next
  case (6 k old a x q)
  then show ?case by (auto simp: tries_running_def tries_QX_def tries_Q0_def)
next
  case (7 a x q)
  then show ?case using attempts by (auto simp: tries_QX_def tries_Q0_def)
next
  case (8 a x)
  then show ?case by (auto simp: tries_QX_def)
next
  case (9 q old a x)
  then show ?case by (auto simp: tries_QX_def tries_Q0_def)
next
  case (10 q a x)
  then show ?case by (auto simp: tries_QX_def)
next
  case (11 q a)
  then show ?case using attempts
    by (cases "t_status q") (auto simp: tries_QX_def tries_Q0_def failure_decided_def)
next
  case (12 q old a)
  then show ?case by (auto simp: tries_Q0_def)
next
  case (13 k old a)
  then show ?case using tries_mono[of "max_attempts (rt_retry_policy R)" "k - 1" a k]
    by (auto simp: tries_QX_def tries_running_def)
next
  case (14 k old a)
  then show ?case by (auto simp: tries_QX_def tries_running_def)
qed

section \<open>A concrete runtime\<close>

text \<open>
  A registry with one tool that must not be retried, a run about to call it, and a store that
  holds the run's budget ledger. The handler answers, and its answer is \<open>ok\<close>.
\<close>

definition send_tool :: tool where
  "send_tool = \<lparr>tl_name = ''send'', tl_is_read_only = False, tl_requires_approval = True,
     tl_timeout = 1, tl_required_keys = [], tl_idempotency_key_parameter = None,
     tl_retry_safety = None, tl_capabilities = [], tl_path_argument_names = []\<rparr>"

definition demo_reply :: handler_reply where
  "demo_reply = Replied \<lparr>tr_content = ''ok'', tr_is_error = False, tr_tool_use_id = [], tr_metadata = []\<rparr>"

definition demo_runtime :: "permission_action \<Rightarrow> ledger sqlite_store runtime" where
  "demo_runtime action = \<lparr>rt_strategy = ''react'', rt_py = demo_env, rt_clock = (\<lambda>n. (''t'', 0)),
     rt_random = (\<lambda>n. 0), rt_parse_time = (\<lambda>s. None), rt_format_time = (\<lambda>q. ''t''),
     rt_ownership = None, rt_load = sqlite_load, rt_save = sqlite_save,
     rt_load_tool = sqlite_load_tool, rt_save_tool = sqlite_save_tool,
     rt_validate = (\<lambda>n w s. Ok ()), rt_initialize = (\<lambda>n st s. (s, Ok st)),
     rt_consume_step = (\<lambda>n st i s. (s, Ok ())), rt_consume_tool = (\<lambda>n st i s. (s, Ok ())),
     rt_wall_time = (\<lambda>n st s. (s, Ok None)), rt_ensure_wall_time = (\<lambda>n st s. (s, Ok None)),
     rt_record_hard = (\<lambda>n st e s. (s, Ok ())),
     rt_verify = (\<lambda>st c k s. \<lparr>vr_status = NOT_APPLICABLE, vr_attempt = k, vr_checks = [], vr_error = None\<rparr>),
     rt_on_cancel = retE, rt_after_cancel = (\<lambda>st. retE ()), rt_lineage = 8,
     rt_retry_policy = default_retry_policy, rt_registry = register_tool send_tool [],
     rt_permission = (\<lambda>q. permission action ''demo'' ''demo''),
     rt_handler = (\<lambda>n name data. demo_reply), rt_cwd = ''w'', rt_tool_timeout = 1,
     rt_loads = (\<lambda>s. None), rt_hash = (\<lambda>d. ''h''), rt_action_fp = (\<lambda>name d. ''a''),
     rt_error_fp = (\<lambda>a b c d. ''e''), rt_evidence_fp = (\<lambda>s. Some s),
     rt_progress_policy = default_progress_policy, rt_max_turns = 3\<rparr>"

definition demo_parts :: local_parts where
  "demo_parts = \<lparr>lp_decimal = \<lparr>dec_read = (\<lambda>s. None), dec_format = (\<lambda>q. [])\<rparr>,
     lp_manager = \<lparr>bm_policy = two_steps, bm_pricing = None\<rparr>, lp_clock = (\<lambda>n k. demo_clock),
     lp_files = \<lparr>wf_root = [''w''], wf_resolve = (\<lambda>p. [''w'', p]), wf_exists = (\<lambda>p. True)\<rparr>\<rparr>"

definition demo_local :: "permission_action \<Rightarrow> ledger sqlite_store runtime" where
  "demo_local action = on_sqlite demo_parts (demo_runtime action)"

definition send_run :: run_state where
  "send_run = demo_run\<lparr>r_run_id := ''root'', r_pending_tool_calls := [[(''id'', PStr ''c''), (''name'', PStr ''send'')]]\<rparr>"

definition send_store :: "ledger sqlite_store" where
  "send_store = sqlite_empty\<lparr>sq_ledgers := [(''root'', 1, demo_ledger)]\<rparr>"

interpretation demo: local_runtime demo_parts "demo_runtime action" for action
  by unfold_locales (simp_all add: readable_def demo_runtime_def demo_env_def default_retry_policy_def)

end
