(* ===== verification/ToolProps.thy ===== *)
theory ToolProps
  imports LocalRuntime
begin

text \<open>
  The guarantees of tool execution on the local runtime, over any sequence of processes that
  execute pending tool calls and die in the middle, and what happens to an ambiguous call.
\<close>

section \<open>Processes that come and go\<close>

text \<open>
  \<open>Execute B R st n\<close>: a process with the configuration \<open>B\<close>, \<open>R\<close> executes the pending tool call
  of the run state \<open>st\<close> and dies before its effect number \<open>n\<close>, if it gets that far.
  \<open>Meanwhile f\<close>: anything else that changes the store.
\<close>

datatype event =
    Execute local_parts "ledger sqlite_store runtime" run_state "nat option"
  | Meanwhile "ledger sqlite_store \<Rightarrow> ledger sqlite_store"

fun happen :: "event \<Rightarrow> ledger sqlite_store world \<Rightarrow> ledger sqlite_store world" where
  "happen (Execute B R st n) w = fst (execute_pending_tool (on_sqlite B R) st (w\<lparr>w_lives := n\<rparr>))"
| "happen (Meanwhile f) w = w\<lparr>w_store := f (w_store w)\<rparr>"

definition history :: "event list \<Rightarrow> ledger sqlite_store \<Rightarrow> ledger sqlite_store world" where
  "history es s = fold happen es (fresh_world s)"

text \<open>What a process may rely on, whatever it executes; other activity leaves the tool records alone.\<close>

definition registry_ok :: "'s runtime \<Rightarrow> bool" where
  "registry_ok R \<longleftrightarrow> list_all (\<lambda>(k, t). \<exists>s \<in> {SAFE, IDEMPOTENT, UNSAFE}. tool_retry_safety (Some t) = Ok s)
     (rt_registry R)"

lemma registry_okD: "registry_ok R \<Longrightarrow> \<exists>s. tool_retry_safety (get_tool (rt_registry R) name) = Ok s"
proof (cases "get_tool (rt_registry R) name")
  case None
  then show ?thesis by (simp add: tool_retry_safety_def)
next
  case (Some t)
  then have "(name, t) \<in> set (rt_registry R)" by (simp add: get_tool_def map_of_SomeD)
  then show "registry_ok R \<Longrightarrow> ?thesis" using Some by (auto simp: registry_ok_def list_all_iff)
qed

fun configured :: "event \<Rightarrow> bool" where
  "configured (Execute B R st n) = (readable R \<and> 0 < max_attempts (rt_retry_policy R) \<and> registry_ok R)"
| "configured (Meanwhile f) = (\<forall>s. sq_tools (f s) = sq_tools s)"

text \<open>The call a process is about to execute, if it is the one of invocation \<open>i\<close>.\<close>

definition call_of :: "string \<Rightarrow> 's runtime \<Rightarrow> run_state \<Rightarrow> (run_state \<times> pending) option" where
  "call_of i R st = (case prepare_call R st of
       Inl e \<Rightarrow> None
     | Inr (st', p) \<Rightarrow> if pc_invocation p = i then Some (st', p) else None)"

text \<open>Invocation \<open>i\<close> calls a tool that must not be retried, and nobody has approved it.\<close>

fun unapproved :: "string \<Rightarrow> event \<Rightarrow> bool" where
  "unapproved i (Execute B R st n) = (case call_of i (on_sqlite B R) st of
       None \<Rightarrow> True
     | Some (st', p) \<Rightarrow> tool_retry_safety (pc_tool p) = Ok UNSAFE \<and>
         map_of (r_decisions st') i \<noteq> Some ''approve'')"
| "unapproved i (Meanwhile f) = True"

fun allows_attempts :: "int \<Rightarrow> event \<Rightarrow> bool" where
  "allows_attempts M (Execute B R st n) = (max_attempts (rt_retry_policy R) = M)"
| "allows_attempts M (Meanwhile f) = True"

section \<open>The invariants through a history\<close>

text \<open>\<open>tool_view i Q\<close>: \<open>Q\<close> holds of the stored record of \<open>i\<close> and of the attempts it was called with.\<close>

definition tool_view :: "string \<Rightarrow> (tool_record option \<Rightarrow> int list \<Rightarrow> bool) \<Rightarrow> ledger sqlite_store world \<Rightarrow> bool" where
  "tool_view i Q w \<longleftrightarrow> sqlite_tools_inv (w_store w) \<and>
     Q (map_option settled (find_tool (w_store w) i)) (attempts_of i (w_calls w))"

lemma tool_view_lives [simp]: "tool_view i Q (w\<lparr>w_lives := n\<rparr>) = tool_view i Q w"
  by (simp add: tool_view_def)

lemma tool_view_meanwhile:
  "sq_tools (f (w_store w)) = sq_tools (w_store w) \<Longrightarrow>
     tool_view i Q (w\<lparr>w_store := f (w_store w)\<rparr>) = tool_view i Q w"
  by (simp add: tool_view_def sqlite_tools_inv_def find_tool_def)

lemma tool_view_fresh:
  "sq_tools s = [] \<Longrightarrow> tool_view i Q (fresh_world s) = Q None []"
  by (simp add: tool_view_def sqlite_tools_inv_def find_tool_def fresh_world_def attempts_of_def)

context local_runtime
begin

lemma view_local: "on_world (local.view i Q) w = tool_view i Q w"
  by (auto simp: on_world_def local.view_def local.stored_def tool_view_def sqlite_load_tool_inv)

lemma triple_keeps: "triple (tool_view i Q) m (\<lambda>_. tool_view i Q) (tool_view i Q) \<Longrightarrow>
    tool_view i Q w \<Longrightarrow> tool_view i Q (fst (m w))"
  by (cases "m w") (auto dest!: tripleD)

lemma elsewhere:
  assumes "call_of i (on_sqlite B R) st = None" "tool_view i Q w"
  shows "tool_view i Q (fst (execute_pending_tool (on_sqlite B R) st w))"
proof (rule triple_keeps)
  have "pc_invocation p \<noteq> i" if "prepare_call (on_sqlite B R) st = Ok (st', p)" for st' p
    using assms(1) that by (auto simp: call_of_def)
  from local.method_other[OF this, where Q = Q]
  show "triple (tool_view i Q) (execute_pending_tool (on_sqlite B R) st) (\<lambda>_. tool_view i Q) (tool_view i Q)"
    unfolding keeps_def view_local .
qed (rule assms(2))

lemma executed:
  assumes call: "call_of i (on_sqlite B R) st = Some (st', p)" and w: "tool_view i Q w"
    and own: "\<And>st' p. prepare_call (on_sqlite B R) st = Ok (st', p) \<Longrightarrow> pc_invocation p = i \<Longrightarrow>
      triple (on_world (local.view i Q)) (execute_pending_tool (on_sqlite B R) st)
        (\<lambda>_. on_world (local.view i Q)) (on_world (local.view i Q))"
  shows "tool_view i Q (fst (execute_pending_tool (on_sqlite B R) st w))"
proof (rule triple_keeps)
  have "prepare_call (on_sqlite B R) st = Ok (st', p)" "pc_invocation p = i"
    using call by (auto simp: call_of_def split: sum.splits if_splits)
  from own[OF this]
  show "triple (tool_view i Q) (execute_pending_tool (on_sqlite B R) st) (\<lambda>_. tool_view i Q) (tool_view i Q)"
    unfolding view_local .
qed (rule w)

lemma once_step:
  assumes "unapproved i (Execute B R st n)" "tool_view i once_QX w"
  shows "tool_view i once_QX (happen (Execute B R st n) w)"
proof (cases "call_of i (on_sqlite B R) st")
  case None
  then show ?thesis using assms(2) by (simp add: elsewhere)
next
  case (Some sp)
  obtain st' p where sp: "sp = (st', p)" by fastforce
  show ?thesis
    unfolding happen.simps
  proof (rule executed[OF Some[unfolded sp]])
    fix st1 p1 assume *: "prepare_call (on_sqlite B R) st = Ok (st1, p1)" "pc_invocation p1 = i"
    then have "st1 = st'" "p1 = p" using Some sp by (simp_all add: call_of_def)
    with assms(1) Some sp have "tool_retry_safety (pc_tool p1) = Ok UNSAFE"
      "map_of (r_decisions st1) i \<noteq> Some ''approve''" by simp_all
    with * show "triple (on_world (local.view i once_QX)) (execute_pending_tool (on_sqlite B R) st)
        (\<lambda>_. on_world (local.view i once_QX)) (on_world (local.view i once_QX))"
      by (intro once.method_own) auto
  qed (use assms(2) in simp)
qed

lemma tries_step:
  assumes "registry_ok R" "tool_view i (tries_QX (max_attempts (rt_retry_policy R))) w"
  shows "tool_view i (tries_QX (max_attempts (rt_retry_policy R))) (happen (Execute B R st n) w)"
proof (cases "call_of i (on_sqlite B R) st")
  case None
  then show ?thesis using assms(2) by (simp add: elsewhere)
next
  case (Some sp)
  obtain st' p where sp: "sp = (st', p)" by fastforce
  show ?thesis
    unfolding happen.simps
  proof (rule executed[OF Some[unfolded sp]])
    fix st1 p1 assume *: "prepare_call (on_sqlite B R) st = Ok (st1, p1)" "pc_invocation p1 = i"
    then have "pc_tool p1 = get_tool (rt_registry R) (pc_name p1)"
      by (auto simp: prepare_call_def Let_def bindR_Ok_iff)
    with registry_okD[OF assms(1)] obtain s where "tool_retry_safety (pc_tool p1) = Ok s" by metis
    with * show "triple (on_world (local.view i (tries_QX (max_attempts (rt_retry_policy R)))))
        (execute_pending_tool (on_sqlite B R) st)
        (\<lambda>_. on_world (local.view i (tries_QX (max_attempts (rt_retry_policy R)))))
        (on_world (local.view i (tries_QX (max_attempts (rt_retry_policy R)))))"
      by (intro tries.method_own) auto
  qed (use assms(2) in simp)
qed

end

lemma fold_keeps: "(\<And>e w. e \<in> set es \<Longrightarrow> P w \<Longrightarrow> P (happen e w)) \<Longrightarrow> P w \<Longrightarrow> P (fold happen es w)"
  by (induction es arbitrary: w) auto

lemma configured_local: "configured (Execute B R st n) \<Longrightarrow> local_runtime R"
  by (simp add: local_runtime_def)

section \<open>A history\<close>

text \<open>The process dies with the handler called and nothing recorded; another one takes over.\<close>

definition crash_and_recover :: "permission_action \<Rightarrow> (string \<times> string) list \<Rightarrow> event list" where
  "crash_and_recover action decisions =
     [Execute demo_parts (demo_runtime action) (send_run\<lparr>r_decisions := decisions\<rparr>) (Some 6),
      Execute demo_parts (demo_runtime action) (send_run\<lparr>r_decisions := decisions\<rparr>) None]"

lemma demo_configured:
  "readable (demo_runtime action) \<and> 0 < max_attempts (rt_retry_policy (demo_runtime action)) \<and>
     registry_ok (demo_runtime action)"
  by (simp add: readable_def demo_runtime_def demo_env_def default_retry_policy_def registry_ok_def
      send_tool_def register_tool_def tool_retry_safety_def)

lemma send_call:
  "call_of ''root:c'' (on_sqlite demo_parts (demo_runtime action)) (send_run\<lparr>r_decisions := d\<rparr>) =
     Some (send_run\<lparr>r_decisions := d\<rparr>, \<lparr>pc_call_id = ''c'', pc_name = ''send'', pc_payload = [],
       pc_hash = ''h'', pc_invocation = ''root:c'', pc_tool = Some send_tool\<rparr>)"
  by (simp add: call_of_def prepare_call_def send_run_def demo_run_def create_run_def on_sqlite_def Let_def
      demo_runtime_def list_item_def list_put_def pending_call_id_def str_or_def dict_get_def py_or_def
      demo_env_def invocation_of_def tool_call_name_def tool_call_arguments_def dict_or_empty_def
      dict_get_default_def get_tool_def register_tool_def send_tool_def)

lemma send_unapproved:
  "e \<in> set (crash_and_recover action []) \<Longrightarrow> configured e \<and> unapproved ''root:c'' e"
  using demo_configured[of action] send_call[of action "[]"]
  by (auto simp: crash_and_recover_def send_tool_def tool_retry_safety_def send_run_def)

lemma send_store_tools: "sq_tools send_store = []"
  by (simp add: send_store_def sqlite_empty_def)

section \<open>At most once\<close>

text \<open>
  C1: A tool that must not be retried is executed at most once for one invocation, over any
  sequence of processes that execute it, die at any point and are replaced, whatever else
  happens to the store in between, as long as no one approved the invocation.
\<close>

theorem unsafe_tool_runs_at_most_once:
  assumes "sq_tools s = []" "\<forall>e \<in> set es. configured e \<and> unapproved i e"
  shows "length (attempts_of i (w_calls (history es s))) \<le> 1"
proof -
  have "tool_view i once_QX (history es s)"
    unfolding history_def
  proof (rule fold_keeps)
    fix e w assume e: "e \<in> set es" and w: "tool_view i once_QX w"
    show "tool_view i once_QX (happen e w)"
    proof (cases e)
      case (Execute B R st n)
      with e assms(2) have "local_runtime R" "unapproved i (Execute B R st n)"
        using configured_local by blast+
      with w Execute show ?thesis using local_runtime.once_step by blast
    next
      case (Meanwhile f)
      with e w assms(2) show ?thesis by (auto simp: tool_view_meanwhile)
    qed
  qed (simp add: tool_view_fresh assms(1) once_QX_def)
  then show ?thesis by (auto simp: tool_view_def once_QX_def)
qed

theorem unsafe_tool_runs_at_most_once_witness:
  "length (attempts_of ''root:c'' (w_calls (history (crash_and_recover PermALLOW []) send_store))) \<le> 1 \<and>
     w_calls (history (crash_and_recover PermALLOW []) send_store) = [(''root:c'', 1)]"
proof
  show "length (attempts_of ''root:c'' (w_calls (history (crash_and_recover PermALLOW []) send_store))) \<le> 1"
    by (rule unsafe_tool_runs_at_most_once) (simp_all add: send_store_tools send_unapproved)
  show "w_calls (history (crash_and_recover PermALLOW []) send_store) = [(''root:c'', 1)]"
    by code_simp
qed

text \<open>
  C2: However often processes die and are replaced, and whatever is approved, the attempts
  one invocation is executed with are increasing, and within the retry policy.
\<close>

theorem tool_attempts_within_policy:
  assumes "sq_tools s = []" "\<forall>e \<in> set es. configured e \<and> allows_attempts M e"
  shows "sorted_wrt (<) (attempts_of i (w_calls (history es s))) \<and>
    set (attempts_of i (w_calls (history es s))) \<subseteq> {1..M}"
proof -
  have "tool_view i (tries_QX M) (history es s)"
    unfolding history_def
  proof (rule fold_keeps)
    fix e w assume e: "e \<in> set es" and w: "tool_view i (tries_QX M) w"
    show "tool_view i (tries_QX M) (happen e w)"
    proof (cases e)
      case (Execute B R st n)
      with e assms(2) have c: "configured (Execute B R st n)" "max_attempts (rt_retry_policy R) = M" by auto
      from local_runtime.tries_step[OF configured_local[OF c(1)], of i w B st n] c w Execute
      show ?thesis by simp
    next
      case (Meanwhile f)
      with e w assms(2) show ?thesis by (auto simp: tool_view_meanwhile)
    qed
  qed (simp add: tool_view_fresh assms(1) tries_QX_def)
  then show ?thesis by (auto simp: tool_view_def tries_QX_def tries_def split: option.splits)
qed

theorem tool_attempts_within_policy_witness:
  "set (attempts_of ''root:c'' (w_calls (history
     (crash_and_recover PermALLOW [(''root:c'', ''approve'')]) send_store))) \<subseteq> {1..3}"
proof -
  have "\<forall>e \<in> set (crash_and_recover PermALLOW [(''root:c'', ''approve'')]).
      configured e \<and> allows_attempts 3 e"
    using demo_configured[of PermALLOW]
    by (simp add: crash_and_recover_def demo_runtime_def default_retry_policy_def)
  from tool_attempts_within_policy[OF send_store_tools this] show ?thesis by blast
qed

section \<open>After a decision\<close>


text \<open>The record another process left, with its attempt running or finished.\<close>

definition left_record :: "tool_status \<Rightarrow> tool_record" where
  "left_record status = (new_record send_run \<lparr>pc_call_id = ''c'', pc_name = ''send'', pc_payload = [],
       pc_hash = ''h'', pc_invocation = ''root:c'', pc_tool = Some send_tool\<rparr> status)
     \<lparr>t_attempt := 1, t_result := Some ''sent'', t_updated_at := ''t''\<rparr>"

definition left_world :: "tool_status \<Rightarrow> ledger sqlite_store world" where
  "left_world status = fresh_world (send_store\<lparr>sq_tools := [left_record status]\<rparr>)"

lemma load_left:
  "rt_load_tool (demo_local action) (rt_py (demo_local action)) ''root:c'' (w_store (left_world status)) =
     Ok (Some (settled (left_record status)))"
  using sqlite_load_tool_inv[of "w_store (left_world status)" demo_env "''root:c''"]
  by (simp add: demo_local_def demo_runtime_def left_world_def fresh_world_def sqlite_tools_inv_def
      find_tool_def left_record_def new_record_def)

lemma left_fields [simp]:
  "t_arguments_hash (left_record status) = ''h''" "t_status (left_record status) = status"
  "t_attempt (left_record status) = 1"
  "t_arguments_hash (settled (left_record status)) = ''h''" "t_status (settled (left_record status)) = status"
  "t_attempt (settled (left_record status)) = 1"
  by (simp_all add: left_record_def new_record_def settled_def Let_def)

lemma prepared_send:
  "prepare_call (demo_local action) (send_run\<lparr>r_decisions := d\<rparr>) =
     Ok (send_run\<lparr>r_decisions := d\<rparr>, \<lparr>pc_call_id = ''c'', pc_name = ''send'', pc_payload = [],
       pc_hash = ''h'', pc_invocation = ''root:c'', pc_tool = Some send_tool\<rparr>)"
  using send_call[of action d] by (auto simp: call_of_def demo_local_def split: sum.splits if_splits)

lemma calls_saved: "w_calls (fst (save_checkpoint R st w)) = w_calls w"
proof -
  have "keeps (\<lambda>s c. c = w_calls w) (save_checkpoint R st)"
    unfolding save_checkpoint_def by (rule keeps_store) simp
  from keepsD[OF this] show ?thesis by (simp add: on_world_def)
qed

text \<open>
  Rejecting an execution whose end is unknown does not settle it: with the decision
  recorded, the method asks for approval of the same invocation again.
\<close>

theorem rejected_ambiguous_call_waits_again:
  assumes "prepare_call R st0 = Ok (st, p)"
    and "rt_load_tool R (rt_py R) (pc_invocation p) (w_store w) = Ok (Some q)"
    and "t_arguments_hash q = pc_hash p" "t_status q = ToolRUNNING"
    and "t_attempt q < max_attempts (rt_retry_policy R)"
    and "tool_retry_safety (pc_tool p) = Ok UNSAFE"
    and "map_of (r_decisions st) (pc_invocation p) = Some ''reject''"
  shows "execute_pending_tool_inner (Suc n) R st0 w =
    wait_for_approval R st (pc_invocation p) (pc_name p) (pc_payload p)
      ''ambiguous_tool_execution'' ambiguous_reason w"
  using assms
  by (simp add: pending_tool_step_def load_tool_def readE_def bindE_def retE_def failure_decided_def)

theorem rejected_ambiguous_call_waits_again_witness:
  "let st = send_run\<lparr>r_decisions := [(''root:c'', ''reject'')]\<rparr>; w = left_world ToolRUNNING
   in execute_pending_tool_inner 2 (demo_local PermALLOW) st w =
        wait_for_approval (demo_local PermALLOW) st ''root:c'' ''send'' []
          ''ambiguous_tool_execution'' ambiguous_reason w"
proof -
  have max: "max_attempts (rt_retry_policy (demo_local action)) = 3" for action
    by (simp add: demo_local_def demo_runtime_def default_retry_policy_def)
  note waits = rejected_ambiguous_call_waits_again[OF prepared_send, where w = "left_world ToolRUNNING" and n = 1,
      unfolded pending.select_convs, OF load_left]
  show ?thesis
    unfolding Let_def numeral_2_eq_2 One_nat_def[symmetric] Suc_eq_plus1[symmetric]
    by (rule waits) (simp_all add: max tool_retry_safety_def send_tool_def)
qed

text \<open>
  Once an outcome is recorded as succeeded, executing the call again only enters the stored
  text into the run: the handler is not called.
\<close>

theorem succeeded_call_is_reused:
  assumes "prepare_call R st0 = Ok (st, p)"
    and "rt_load_tool R (rt_py R) (pc_invocation p) (w_store w) = Ok (Some q)"
    and "t_arguments_hash q = pc_hash p" "t_status q = ToolSUCCEEDED"
  shows "execute_pending_tool_inner (Suc n) R st0 w =
      save_checkpoint R (with_tool_result st p (success_result p q)) w \<and>
    w_calls (fst (execute_pending_tool_inner (Suc n) R st0 w)) = w_calls w"
proof -
  have run: "execute_pending_tool_inner (Suc n) R st0 w =
      save_checkpoint R (with_tool_result st p (success_result p q)) w"
    using assms by (simp add: pending_tool_step_def load_tool_def readE_def bindE_def retE_def
        apply_tool_result_def Let_def)
  then show ?thesis by (simp add: calls_saved)
qed

theorem succeeded_call_is_reused_witness:
  "w_calls (fst (execute_pending_tool_inner 2 (demo_local PermALLOW) (send_run\<lparr>r_decisions := []\<rparr>)
     (left_world ToolSUCCEEDED))) = []"
proof -
  note reused = succeeded_call_is_reused[OF prepared_send, where w = "left_world ToolSUCCEEDED" and n = 1,
      unfolded pending.select_convs, OF load_left, THEN conjunct2]
  have "w_calls (left_world ToolSUCCEEDED) = []" by (simp add: left_world_def fresh_world_def)
  then show ?thesis
    unfolding numeral_2_eq_2 One_nat_def[symmetric] by (subst reused) simp_all
qed

end
