(* ===== verification/PermissionProps.thy ===== *)
theory PermissionProps
  imports ToolProps
begin

text \<open>
  What a permission guarantees: a call that is not refused stays inside the workspace and the
  network policy, a risky call is not allowed silently, and a refusal is final.
\<close>

section \<open>Network\<close>

text \<open>What an accepted URL is: the reference the guard is compared with.\<close>

definition url_host :: "pyenv \<Rightarrow> 'addr net_facts \<Rightarrow> string \<Rightarrow> string" where
  "url_host E N url = casefold E (strip_dots (case url_hostname (nf_parse N url) of None \<Rightarrow> [] | Some h \<Rightarrow> h))"

definition host_addresses :: "'addr net_facts \<Rightarrow> string \<Rightarrow> 'addr list option" where
  "host_addresses N host = (case nf_address N host of Some a \<Rightarrow> Some [a] | None \<Rightarrow> nf_resolve N host)"

definition public_url :: "pyenv \<Rightarrow> 'addr net_facts \<Rightarrow> network_policy \<Rightarrow> string \<Rightarrow> bool" where
  "public_url E N p url \<longleftrightarrow>
     np_access p \<in> {''public'', ''allowlist''} \<and>
     url_scheme (nf_parse N url) \<in> {''http'', ''https''} \<and>
     \<not> non_empty (url_username (nf_parse N url)) \<and> \<not> non_empty (url_password (nf_parse N url)) \<and>
     url_host E N url \<noteq> [] \<and>
     (np_access p = ''allowlist'' \<longrightarrow> host_allowed E p (url_host E N url)) \<and>
     (np_deny_private p \<longrightarrow> (\<exists>as. host_addresses N (url_host E N url) = Some as \<and>
        list_all (\<lambda>a. \<not> nf_private N a) as))"

lemma validate_url_public: "validate_url E N p url = None \<longleftrightarrow> public_url E N p url"
  by (auto simp: validate_url_def public_url_def url_host_def host_addresses_def Let_def
      list_ex_iff list_all_iff split: option.splits if_splits)

lemma validate_arguments_None:
  "validate_arguments E N p args = None \<longleftrightarrow> list_all (public_url E N p) (url_values E [] (PDict args))"
proof -
  have "foldr (\<lambda>u later. case validate_url E N p u of None \<Rightarrow> later | Some e \<Rightarrow> Some e) us None = None
      \<longleftrightarrow> list_all (public_url E N p) us" for us
    by (induction us) (auto simp: validate_url_public[symmetric] split: option.splits)
  then show ?thesis by (simp add: validate_arguments_def)
qed

lemma has_url_values:
  "is_url_key k \<Longrightarrow> has_url E v \<Longrightarrow> url_values E k v \<noteq> []"
  "is_url_key k \<Longrightarrow> has_url_list E xs \<Longrightarrow> url_values_list E k xs \<noteq> []"
  "has_url_dict E d \<Longrightarrow> url_values_dict E d \<noteq> []"
  by (induction E v and E xs and E d arbitrary: k and k rule: has_url_has_url_list_has_url_dict.induct) auto

text \<open>
  The network guard accepts exactly the URLs of the policy: over http or https, without
  credentials, with a host that is on the allowlist when there is one and that has no private
  address when those are denied.
\<close>

theorem network_guard_exact:
  "validate_url E N p url = None \<longleftrightarrow> public_url E N p url"
  by (rule validate_url_public)

section \<open>Confinement\<close>

definition confined :: "pyenv \<Rightarrow> 'addr net_facts \<Rightarrow> permission_policy \<Rightarrow> permission_request \<Rightarrow> bool" where
  "confined E N p q \<longleftrightarrow>
     set (pq_capabilities q) \<subseteq> set known_capabilities \<and>
     (FS_READ \<in> set (pq_capabilities q) \<or> FS_WRITE \<in> set (pq_capabilities q) \<longrightarrow>
        list_all (\<lambda>x. path_inside N (pol_workspace p) x \<and>
          \<not> list_ex (nf_name_matches N x) (pol_sensitive_patterns p)) (pq_resource_paths q)) \<and>
     (NET_READ \<in> set (pq_capabilities q) \<or> NET_WRITE \<in> set (pq_capabilities q) \<longrightarrow>
        np_access (pol_network p) \<noteq> ''disabled'' \<and>
        list_all (public_url E N (pol_network p)) (url_values E [] (PDict (pq_arguments q))) \<and>
        (np_access (pol_network p) = ''allowlist'' \<longrightarrow> url_values E [] (PDict (pq_arguments q)) \<noteq> []))"

lemma sorted_texts_Nil [simp]: "sorted_texts xs = [] \<longleftrightarrow> xs = []"
  by (simp add: sorted_texts_def) (metis set_remdups set_sort set_empty)

lemma network_refusal_None:
  "network_refusal E N p args = None \<longleftrightarrow>
     list_all (public_url E N p) (url_values E [] (PDict args)) \<and> np_access p \<noteq> ''disabled'' \<and>
     (np_access p = ''allowlist'' \<longrightarrow> has_url E (PDict args))"
  using validate_arguments_None[of E N p args]
  by (cases "validate_arguments E N p args") (auto simp: network_refusal_def)

lemma find_None_all: "find P xs = None \<longleftrightarrow> list_all (\<lambda>x. \<not> P x) xs"
  by (induction xs) auto

lemma refusal_None:
  "refusal E N p q = None \<longleftrightarrow>
     list_all (\<lambda>c. c \<in> set known_capabilities) (pq_capabilities q) \<and>
     (FS_READ \<in> set (pq_capabilities q) \<or> FS_WRITE \<in> set (pq_capabilities q) \<longrightarrow>
        sensitive_path N p (pq_resource_paths q) = None \<and> outside_workspace N p (pq_resource_paths q) = None) \<and>
     (NET_READ \<in> set (pq_capabilities q) \<or> NET_WRITE \<in> set (pq_capabilities q) \<longrightarrow>
        network_refusal E N (pol_network p) (pq_arguments q) = None)"
  by (auto simp: refusal_def Let_def list_all_iff filter_empty_conv split: option.split)

lemma refusal_confined: "refusal E N p q = None \<Longrightarrow> confined E N p q"
  unfolding refusal_None confined_def network_refusal_None sensitive_path_def outside_workspace_def find_None_all
  using has_url_values(3) by (auto simp: list_all_iff)

lemma evaluate_action:
  "pm_action (evaluate_permission E N p q) =
     (if refusal E N p q \<noteq> None then PermDENY
      else if pol_hitl_mode p = ''always'' then PermREQUIRE_APPROVAL
      else if (\<exists>c \<in> set (pq_capabilities q). c \<in> set risky_capabilities) \<or> pq_legacy_requires_approval q
      then (if pol_hitl_mode p = ''never'' then PermALLOW else PermREQUIRE_APPROVAL)
      else PermALLOW)"
proof (cases "refusal E N p q")
  case None
  then show ?thesis by (auto simp: evaluate_permission_def permission_def Let_def filter_empty_conv)
next
  case (Some x)
  then show ?thesis by (cases x) (simp add: evaluate_permission_def permission_def)
qed

text \<open>A policy with an allowlist, and two requests.\<close>

definition demo_facts :: "nat net_facts" where
  "demo_facts = \<lparr>nf_parse = (\<lambda>u. \<lparr>url_scheme = ''https'', url_username = None, url_password = None,
       url_hostname = Some ''docs''\<rparr>), nf_address = (\<lambda>h. None), nf_resolve = (\<lambda>h. Some [8]),
     nf_private = (\<lambda>a. a = 10), nf_path = (\<lambda>root p. root @ [p]), nf_name_matches = (\<lambda>p pat. p = pat)\<rparr>"

definition demo_policy :: permission_policy where
  "demo_policy = \<lparr>pol_workspace = [''w''], pol_hitl_mode = ''auto'',
     pol_network = \<lparr>np_access = ''allowlist'', np_allowed_hosts = [''docs''], np_deny_private = True\<rparr>,
     pol_sensitive_patterns = [''.env'']\<rparr>"

definition demo_request :: permission_request where
  "demo_request = \<lparr>pq_run_id = None, pq_thread_id = None, pq_turn_id = None, pq_invocation_id = ''i'',
     pq_tool_name = ''fetch'', pq_capabilities = [NET_READ, FS_READ],
     pq_arguments = [(''url'', PStr ''https://docs'')], pq_workspace = ''w'', pq_cwd = ''w'',
     pq_resource_paths = [''a''], pq_legacy_requires_approval = False\<rparr>"

lemma demo_allowed: "pm_action (evaluate_permission demo_env demo_facts demo_policy demo_request) = PermALLOW"
  by code_simp



text \<open>
  A risky call is never allowed silently: without an approval, a call with a capability
  that writes, executes or acts outside, or with a tool that asks for approval, is allowed
  only when the configuration turned approvals off; with approvals always on nothing is.
\<close>

theorem risky_call_needs_approval:
  assumes "pm_action (evaluate_permission E N p q) = PermALLOW"
  shows "pol_hitl_mode p \<noteq> ''always'' \<and>
    (pol_hitl_mode p \<noteq> ''never'' \<longrightarrow>
       set (pq_capabilities q) \<inter> set risky_capabilities = {} \<and> \<not> pq_legacy_requires_approval q)"
  using assms by (auto simp: evaluate_action split: if_splits)

theorem risky_call_needs_approval_witness:
  "set (pq_capabilities demo_request) \<inter> set risky_capabilities = {}"
  using risky_call_needs_approval[OF demo_allowed] by (simp add: demo_policy_def)

section \<open>Refusals are final\<close>

text \<open>What the method does besides calling the handler leaves the history of calls as it is.\<close>

definition no_calls :: "(string \<times> int) list \<Rightarrow> 's \<Rightarrow> (string \<times> int) list \<Rightarrow> bool" where
  "no_calls c s c' \<longleftrightarrow> c' = c"

lemma no_calls_writes: "run_writes R (no_calls c)"
  by unfold_locales (simp_all add: no_calls_def)

lemmas silent_parts =
  run_writes.keeps_budget_ops[OF no_calls_writes] run_writes.keeps_fail[OF no_calls_writes]
  run_writes.keeps_apply_tool_result[OF no_calls_writes] run_writes.keeps_wait[OF no_calls_writes]

lemma save_tool_silent: "keeps (no_calls c) (save_tool R q)"
  unfolding save_tool_def by (rule keeps_store) (simp add: no_calls_def)

lemma denied_silent:
  "pm_action (permission_decision_of R st p) = PermDENY \<Longrightarrow> keeps (no_calls c) (run_permitted R st p safety x)"
  unfolding run_permitted_def Let_def by (auto intro!: keeps_intros save_tool_silent silent_parts)

lemma step_silent:
  assumes "prepare_call R st0 = Ok (st, p)" "keeps (no_calls c) (again st)"
    and "\<And>safety x. keeps (no_calls c) (run_permitted R st p safety x)"
  shows "keeps (no_calls c) (pending_tool_step R again st0)"
  unfolding pending_tool_step_def assms(1) liftR_simps bindE_ret prod.case
  by (auto split: option.split intro!: keeps_intros save_tool_silent silent_parts assms(2,3))

text \<open>A refused call: the tool exists and the default policy refuses the request for it.\<close>

definition refused_call :: "'s runtime \<Rightarrow> 'addr net_facts \<Rightarrow> permission_policy \<Rightarrow> run_state \<Rightarrow> pending \<Rightarrow> bool" where
  "refused_call R N pol st p \<longleftrightarrow> (case pc_tool p of None \<Rightarrow> False
     | Some t \<Rightarrow> refusal (rt_py R) N pol (permission_request_of (rt_py R) t (pc_payload p)
         (Some (r_run_id st)) (Some (r_thread_id st)) (Some (r_turn_id st)) (rt_cwd R)
         (pc_invocation p)) \<noteq> None)"

lemma refused_decision:
  assumes "rt_permission R = evaluate_permission (rt_py R) N pol" "refused_call R N pol st p"
  shows "pm_action (permission_decision_of R st p) = PermDENY"
  using assms by (auto simp: refused_call_def permission_decision_of_def permission_def Let_def evaluate_action
      split: option.splits)

text \<open>
  C17: A refusal of the policy is final: an approval, an earlier attempt or a crash does not
  make the runtime call the handler of a call its policy refuses.
\<close>

theorem refused_call_is_never_executed:
  assumes "readable R" "rt_permission R = evaluate_permission (rt_py R) N pol"
    and "prepare_call (on_sqlite B R) st0 = Ok (st, p)" "refused_call (on_sqlite B R) N pol st p"
  shows "w_calls (fst (execute_pending_tool (on_sqlite B R) st0 w)) = w_calls w"
proof -
  let ?R = "on_sqlite B R"
  note again = tool_runtime.prepare_again[OF local_tool_runtime[OF assms(1)] assms(3)]
  have denied: "pm_action (permission_decision_of ?R st p) = PermDENY"
    using refused_decision[OF _ assms(4)] assms(2) by simp
  have inner: "keeps (no_calls c) (execute_pending_tool_inner n ?R st')"
    if "prepare_call ?R st' = Ok (st, p)" for n c st'
    using that
  proof (induction n arbitrary: st')
    case 0
    have "keeps (no_calls c) (\<lambda>w. (w, OutOfFuel))" by (simp add: keeps_def triple_def)
    then show ?case by (simp only: execute_pending_tool_inner.simps)
  next
    case (Suc n)
    show ?case
      unfolding execute_pending_tool_inner.simps
      by (rule step_silent[OF Suc.prems], rule Suc.IH[OF again], rule denied_silent[OF denied])
  qed
  have "keeps (no_calls (w_calls w)) (execute_pending_tool ?R st0)"
    unfolding execute_pending_tool_def
    by (auto split: sum.split intro!: keeps_intros silent_parts inner[OF assms(3)])
  from keepsD[OF this] show ?thesis by (simp add: on_world_def no_calls_def)
qed

definition guarded_runtime :: "ledger sqlite_store runtime" where
  "guarded_runtime = (demo_runtime PermALLOW)
     \<lparr>rt_permission := evaluate_permission demo_env demo_facts demo_policy,
       rt_registry := register_tool (send_tool\<lparr>tl_capabilities := [''teleport'']\<rparr>) []\<rparr>"

theorem refused_call_is_never_executed_witness:
  "w_calls (fst (execute_pending_tool (on_sqlite demo_parts guarded_runtime)
     (send_run\<lparr>r_decisions := [(''root:c'', ''approve'')]\<rparr>) (fresh_world send_store))) = []"
proof -
  let ?st = "send_run\<lparr>r_decisions := [(''root:c'', ''approve'')]\<rparr>"
  let ?p = "\<lparr>pc_call_id = ''c'', pc_name = ''send'', pc_payload = [], pc_hash = ''h'',
      pc_invocation = ''root:c'', pc_tool = Some (send_tool\<lparr>tl_capabilities := [''teleport'']\<rparr>)\<rparr>"
  have readable: "readable guarded_runtime"
    by (simp add: readable_def guarded_runtime_def demo_runtime_def demo_env_def)
  have policy: "rt_permission guarded_runtime = evaluate_permission (rt_py guarded_runtime) demo_facts demo_policy"
    by (simp add: guarded_runtime_def demo_runtime_def)
  have prepared: "prepare_call (on_sqlite demo_parts guarded_runtime) ?st = Ok (?st, ?p)"
    by (simp add: prepare_call_def send_run_def demo_run_def create_run_def on_sqlite_def Let_def
        guarded_runtime_def demo_runtime_def list_item_def list_put_def pending_call_id_def str_or_def
        dict_get_def py_or_def demo_env_def invocation_of_def tool_call_name_def tool_call_arguments_def
        dict_or_empty_def dict_get_default_def get_tool_def register_tool_def send_tool_def)
  have refused: "refused_call (on_sqlite demo_parts guarded_runtime) demo_facts demo_policy ?st ?p"
    by (simp add: refused_call_def refusal_def permission_request_of_def known_capabilities_def capability_defs)
  from refused_call_is_never_executed[OF readable policy prepared refused, of "fresh_world send_store"]
  show ?thesis by (simp add: fresh_world_def)
qed

end
