(* ===== verification/ControlStore.thy ===== *)
theory ControlStore
  imports RunState PyText
begin

text \<open>
  The durable records of control operations, \<^verbatim>\<open>runtime/control_plane.py\<close>: the operations a client
  may request, structured errors, and the two stores of the protocol \<^verbatim>\<open>ControlOperationStore\<close>,
  SQLite and PostgreSQL (\<^verbatim>\<open>runtime/postgres.py\<close>). A table is the list of its rows in order of
  insertion. Identifiers and times drawn by the code are arguments.
\<close>

section \<open>Operations, statuses, errors\<close>

definition CONTROL_OPERATION_SCHEMA_VERSION :: int where
  "CONTROL_OPERATION_SCHEMA_VERSION = 1"

datatype control_operation = CtlRESUME | CtlAPPROVE | CtlREJECT | CtlCANCEL | CtlREQUEUE

datatype control_status = CtlIN_PROGRESS | CtlCOMPLETED | CtlFAILED

fun control_operation_value :: "control_operation \<Rightarrow> string" where
  "control_operation_value CtlRESUME = ''resume''"
| "control_operation_value CtlAPPROVE = ''approve''"
| "control_operation_value CtlREJECT = ''reject''"
| "control_operation_value CtlCANCEL = ''cancel''"
| "control_operation_value CtlREQUEUE = ''requeue''"

lemma control_operation_value_inj [simp]:
  "control_operation_value a = control_operation_value b \<longleftrightarrow> a = b"
  by (cases a; cases b) simp_all

text \<open>\<^verbatim>\<open>ApiError.to_dict\<close>, \<^verbatim>\<open>ApiError.from_dict\<close>, and what \<^verbatim>\<open>fail\<close> stores of an error.\<close>

definition present_items :: "(string \<times> string option) list \<Rightarrow> pydict" where
  "present_items kvs = concat (map (\<lambda>(k, v). case v of None \<Rightarrow> [] | Some s \<Rightarrow> [(k, PStr s)]) kvs)"

definition api_error_body :: "api_error \<Rightarrow> pydict" where
  "api_error_body a =
     [(''code'', PStr (ae_code a)), (''message'', PStr (ae_message a))]
     @ present_items [(''run_id'', ae_run_id a), (''status'', ae_status a),
                      (''operation'', ae_operation a)]
     @ (if ae_details a = [] then [] else [(''details'', PDict (ae_details a))])"

definition api_error_to_dict :: "api_error \<Rightarrow> pydict" where
  "api_error_to_dict a = [(''error'', PDict (api_error_body a))]"

definition stored_error :: "api_error \<Rightarrow> pydict" where
  "stored_error a = api_error_body a @ [(''http_status'', PInt (ae_http_status a))]"

definition api_error_from_dict :: "pyenv \<Rightarrow> pydict \<Rightarrow> api_error res" where
  "api_error_from_dict E d =
     bindR (py_int E (py_or (dict_get d ''http_status'') (PInt 409))) (\<lambda>http.
     Ok \<lparr>ae_code = str_or E (dict_get d ''code'') ''operation_failed'',
         ae_message = str_or E (dict_get d ''message'') ''control operation failed'',
         ae_http_status = http,
         ae_run_id = py_optional_str E (dict_get d ''run_id''),
         ae_status = py_optional_str E (dict_get d ''status''),
         ae_operation = py_optional_str E (dict_get d ''operation''),
         ae_details = as_dict (dict_get d ''details'')\<rparr>)"

section \<open>Canonical JSON\<close>

text \<open>
  \<^verbatim>\<open>_json\<close>: the text is identified with the value \<^verbatim>\<open>json.loads\<close> reads from it. Tuples become
  lists, keys are sorted, and an object that is not JSON raises \<open>TypeError\<close>. A jsonb column
  does not keep the order of keys either: it is read back sorted.
\<close>

fun canon :: "pyval \<Rightarrow> pyval res"
  and canon_list :: "pyval list \<Rightarrow> pyval list res"
  and canon_items :: "(string \<times> pyval) list \<Rightarrow> (string \<times> pyval) list res" where
  "canon (PList xs) = bindR (canon_list xs) (\<lambda>ys. Ok (PList ys))"
| "canon (PTuple xs) = bindR (canon_list xs) (\<lambda>ys. Ok (PList ys))"
| "canon (PDict d) = bindR (canon_items d) (\<lambda>e. Ok (PDict (sort_key fst e)))"
| "canon (PObj ty) = Raise (TypeError (''Object of type '' @ ty @ '' is not JSON serializable''))"
| "canon v = Ok v"
| "canon_list [] = Ok []"
| "canon_list (x # xs) = bindR (canon x) (\<lambda>y. bindR (canon_list xs) (\<lambda>ys. Ok (y # ys)))"
| "canon_items [] = Ok []"
| "canon_items ((k, x) # d) = bindR (canon x) (\<lambda>y. bindR (canon_items d) (\<lambda>e. Ok ((k, y) # e)))"

definition canon_dict :: "pydict \<Rightarrow> pydict res" where
  "canon_dict d = bindR (canon_items d) (\<lambda>e. Ok (sort_key fst e))"

text \<open>The digest of canonical texts, SHA-256 in the code, is the argument \<open>D\<close>.\<close>

definition operation_request_hash :: "(pydict \<Rightarrow> string) \<Rightarrow> control_operation \<Rightarrow> pydict \<Rightarrow> string res" where
  "operation_request_hash D op request =
     bindR (canon_dict [(''operation'', PStr (control_operation_value op)), (''request'', PDict request)])
       (\<lambda>c. Ok (D c))"

section \<open>Records\<close>

record control_row =
  ct_operation_id :: string
  ct_idempotency_key :: string
  ct_run_id :: string
  ct_operation :: control_operation
  ct_status :: control_status
  ct_request_hash :: string
  ct_request :: pydict
  ct_result :: "pydict option"
  ct_error :: "pydict option"
  ct_created_at :: string
  ct_completed_at :: "string option"
  ct_schema_version :: int

type_synonym control_table = "control_row list"

definition new_control_row :: "string \<Rightarrow> string \<Rightarrow> string \<Rightarrow> string \<Rightarrow> control_operation \<Rightarrow> string
    \<Rightarrow> pydict \<Rightarrow> control_row" where
  "new_control_row fresh now run key op h request =
     \<lparr>ct_operation_id = fresh, ct_idempotency_key = key, ct_run_id = run, ct_operation = op,
      ct_status = CtlIN_PROGRESS, ct_request_hash = h, ct_request = request, ct_result = None,
      ct_error = None, ct_created_at = now, ct_completed_at = None,
      ct_schema_version = CONTROL_OPERATION_SCHEMA_VERSION\<rparr>"

definition completed_row :: "pydict \<Rightarrow> string \<Rightarrow> control_row \<Rightarrow> control_row" where
  "completed_row result now r =
     r\<lparr>ct_status := CtlCOMPLETED, ct_result := Some result, ct_error := None, ct_completed_at := Some now\<rparr>"

definition failed_row :: "pydict \<Rightarrow> string \<Rightarrow> control_row \<Rightarrow> control_row" where
  "failed_row payload now r =
     r\<lparr>ct_status := CtlFAILED, ct_error := Some payload, ct_completed_at := Some now\<rparr>"

definition find_control :: "control_table \<Rightarrow> string \<Rightarrow> string \<Rightarrow> control_row option" where
  "find_control rows run key =
     find (\<lambda>r. ct_run_id r = run \<and> ct_idempotency_key r = key) rows"

definition update_control :: "string \<Rightarrow> (control_row \<Rightarrow> control_row) \<Rightarrow> control_table \<Rightarrow> control_table" where
  "update_control i f rows = map (\<lambda>r. if ct_operation_id r = i then f r else r) rows"

definition require_operation :: "string \<Rightarrow> control_table \<Rightarrow> control_row res" where
  "require_operation i rows =
     (case find (\<lambda>r. ct_operation_id r = i) rows of
        None \<Rightarrow> Raise (RuntimeErr ''control operation disappeared'') | Some r \<Rightarrow> Ok r)"

definition key_conflict :: "string \<Rightarrow> control_operation \<Rightarrow> exn" where
  "key_conflict run op = ApiError
     ((plain_api_error ''idempotency_key_conflict''
         ''idempotency key was already used with a different request'' 409)
       \<lparr>ae_run_id := Some run, ae_operation := Some (control_operation_value op)\<rparr>)"

definition known_operation :: "control_row \<Rightarrow> string \<Rightarrow> control_operation \<Rightarrow> string
    \<Rightarrow> (control_row \<times> bool) res" where
  "known_operation r run op h =
     (if ct_operation r \<noteq> op \<or> ct_request_hash r \<noteq> h then Raise (key_conflict run op) else Ok (r, False))"

text \<open>The primary key of the table refuses a second use of an operation identifier.\<close>

definition insert_control :: "control_row \<Rightarrow> control_table \<Rightarrow> control_table res" where
  "insert_control r rows =
     (if ct_operation_id r \<in> set (map ct_operation_id rows)
      then Raise (RuntimeErr ''UNIQUE constraint failed: control_operations.operation_id'')
      else Ok (rows @ [r]))"

section \<open>The SQLite store\<close>

definition sqlite_begin_control :: "(pydict \<Rightarrow> string) \<Rightarrow> string \<Rightarrow> string \<Rightarrow> string \<Rightarrow> string
    \<Rightarrow> control_operation \<Rightarrow> pydict \<Rightarrow> control_table \<Rightarrow> control_table \<times> (control_row \<times> bool) res" where
  "sqlite_begin_control D fresh now run key op request rows =
     (case operation_request_hash D op request of
        Inl e \<Rightarrow> (rows, Raise e)
      | Inr h \<Rightarrow>
          (case find_control rows run key of
             Some r \<Rightarrow> (rows, known_operation r run op h)
           | None \<Rightarrow>
               let r = new_control_row fresh now run key op h request in
               (case bindR (canon_dict request) (\<lambda>c. insert_control (r\<lparr>ct_request := c\<rparr>) rows) of
                  Inl e \<Rightarrow> (rows, Raise e)
                | Inr rows' \<Rightarrow> (rows', Ok (r, True)))))"

definition sqlite_complete_control :: "string \<Rightarrow> string \<Rightarrow> pydict \<Rightarrow> control_table
    \<Rightarrow> control_table \<times> control_row res" where
  "sqlite_complete_control now i result rows =
     (case canon_dict result of
        Inl e \<Rightarrow> (rows, Raise e)
      | Inr c \<Rightarrow> let rows' = update_control i (completed_row c now) rows in (rows', require_operation i rows'))"

definition sqlite_fail_control :: "string \<Rightarrow> string \<Rightarrow> api_error \<Rightarrow> control_table
    \<Rightarrow> control_table \<times> control_row res" where
  "sqlite_fail_control now i a rows =
     (case canon_dict (stored_error a) of
        Inl e \<Rightarrow> (rows, Raise e)
      | Inr c \<Rightarrow> let rows' = update_control i (failed_row c now) rows in (rows', require_operation i rows'))"

definition find_interrupt_resolution :: "control_table \<Rightarrow> string \<Rightarrow> string \<Rightarrow> control_row option" where
  "find_interrupt_resolution rows run invocation =
     find (\<lambda>r. dict_get (ct_request r) ''invocation_id'' = PStr invocation)
       (rev (sort_key ct_created_at
         (filter (\<lambda>r. ct_run_id r = run \<and> ct_operation r \<in> {CtlAPPROVE, CtlREJECT}
                     \<and> ct_status r = CtlCOMPLETED) rows)))"

section \<open>The PostgreSQL store\<close>

text \<open>
  The insert comes first and does nothing on a conflict of the key; only then the existing row
  is read. The updates return the identifier and so notice a missing row themselves.
\<close>

definition pg_begin_control :: "(pydict \<Rightarrow> string) \<Rightarrow> string \<Rightarrow> string \<Rightarrow> string \<Rightarrow> string
    \<Rightarrow> control_operation \<Rightarrow> pydict \<Rightarrow> control_table \<Rightarrow> control_table \<times> (control_row \<times> bool) res" where
  "pg_begin_control D fresh now run key op request rows =
     (case bindR (operation_request_hash D op request) (\<lambda>h. bindR (canon_dict request) (\<lambda>c. Ok (h, c))) of
        Inl e \<Rightarrow> (rows, Raise e)
      | Inr (h, c) \<Rightarrow>
          let r = new_control_row fresh now run key op h request in
          if (\<forall>q \<in> set rows. \<not> (ct_run_id q = run \<and> ct_idempotency_key q = key))
          then (case insert_control (r\<lparr>ct_request := c\<rparr>) rows of
                  Inl e \<Rightarrow> (rows, Raise e) | Inr rows' \<Rightarrow> (rows', Ok (r, True)))
          else (case find_control rows run key of
                  None \<Rightarrow> (rows, Raise (TypeError ''object is not subscriptable''))
                | Some q \<Rightarrow> (rows, known_operation q run op h)))"

definition pg_set_control :: "string \<Rightarrow> (control_row \<Rightarrow> control_row) \<Rightarrow> control_table
    \<Rightarrow> control_table \<times> control_row res" where
  "pg_set_control i f rows =
     (if i \<notin> set (map ct_operation_id rows)
      then (rows, Raise (RuntimeErr ''control operation disappeared''))
      else let rows' = update_control i f rows in (rows', require_operation i rows'))"

definition pg_complete_control :: "string \<Rightarrow> string \<Rightarrow> pydict \<Rightarrow> control_table
    \<Rightarrow> control_table \<times> control_row res" where
  "pg_complete_control now i result rows =
     (case canon_dict result of Inl e \<Rightarrow> (rows, Raise e) | Inr c \<Rightarrow> pg_set_control i (completed_row c now) rows)"

definition pg_fail_control :: "string \<Rightarrow> string \<Rightarrow> api_error \<Rightarrow> control_table
    \<Rightarrow> control_table \<times> control_row res" where
  "pg_fail_control now i a rows =
     (case canon_dict (stored_error a) of
        Inl e \<Rightarrow> (rows, Raise e) | Inr c \<Rightarrow> pg_set_control i (failed_row c now) rows)"

section \<open>The protocol\<close>

record control_backend =
  cb_lookup :: "control_table \<Rightarrow> string \<Rightarrow> string \<Rightarrow> control_row option"
  cb_begin :: "string \<Rightarrow> string \<Rightarrow> string \<Rightarrow> string \<Rightarrow> control_operation \<Rightarrow> pydict \<Rightarrow> control_table
    \<Rightarrow> control_table \<times> (control_row \<times> bool) res"
  cb_complete :: "string \<Rightarrow> string \<Rightarrow> pydict \<Rightarrow> control_table \<Rightarrow> control_table \<times> control_row res"
  cb_fail :: "string \<Rightarrow> string \<Rightarrow> api_error \<Rightarrow> control_table \<Rightarrow> control_table \<times> control_row res"
  cb_resolution :: "control_table \<Rightarrow> string \<Rightarrow> string \<Rightarrow> control_row option"

definition sqlite_control :: "(pydict \<Rightarrow> string) \<Rightarrow> control_backend" where
  "sqlite_control D = \<lparr>cb_lookup = find_control, cb_begin = sqlite_begin_control D,
     cb_complete = sqlite_complete_control, cb_fail = sqlite_fail_control,
     cb_resolution = find_interrupt_resolution\<rparr>"

definition postgres_control :: "(pydict \<Rightarrow> string) \<Rightarrow> control_backend" where
  "postgres_control D = \<lparr>cb_lookup = find_control, cb_begin = pg_begin_control D,
     cb_complete = pg_complete_control, cb_fail = pg_fail_control,
     cb_resolution = find_interrupt_resolution\<rparr>"

end
