(* ===== verification/ControlLaws.thy ===== *)
theory ControlLaws
  imports ControlStore
begin

text \<open>
  The contract of \<^verbatim>\<open>ControlOperationStore\<close> as a locale, its interpretations on the SQLite and the
  PostgreSQL store, and the lemmas on canonical JSON that both need.
\<close>

section \<open>Canonical JSON\<close>

lemma map_of_sort_key:
  "distinct (map fst d) \<Longrightarrow> map_of (sort_key fst d) = map_of d"
  by (rule map_of_inject_set[THEN iffD2]) (simp_all add: distinct_map inj_on_def distinct_sort)

lemma canon_items_keys: "canon_items d = Ok e \<Longrightarrow> map fst e = map fst d"
  by (induction d arbitrary: e) (auto simp: bindR_Ok_iff)

lemma canon_items_map_of:
  "canon_items d = Ok e \<Longrightarrow> map_of d k = Some v \<Longrightarrow> \<exists>w. canon v = Ok w \<and> map_of e k = Some w"
  by (induction d arbitrary: e) (auto simp: bindR_Ok_iff)

lemma canon_items_map_of_None:
  "canon_items d = Ok e \<Longrightarrow> map_of e k = None \<longleftrightarrow> map_of d k = None"
  using canon_items_keys[of d e] map_of_eq_keys[of e d] by blast

text \<open>A dictionary that has been through JSON answers a key with the canonical form of its value.\<close>

lemma dict_get_canon_dict:
  assumes "canon_dict d = Ok c" "distinct (map fst d)"
  shows "canon (dict_get d k) = Ok (dict_get c k)"
proof -
  from assms(1) obtain e where e: "canon_items d = Ok e" "c = sort_key fst e"
    by (auto simp: canon_dict_def bindR_Ok_iff)
  with assms(2) have m: "map_of c = map_of e"
    using map_of_sort_key canon_items_keys by metis
  show ?thesis
  proof (cases "map_of d k")
    case None
    then have "map_of c k = None" using m canon_items_map_of_None[OF e(1)] by simp
    with None show ?thesis by (simp add: dict_get_def)
  next
    case (Some v)
    then show ?thesis using m canon_items_map_of[OF e(1) Some] by (auto simp: dict_get_def)
  qed
qed

section \<open>Errors survive the store\<close>

lemma present_items_Cons [simp]:
  "present_items ((k, None) # kvs) = present_items kvs"
  "present_items ((k, Some s) # kvs) = (k, PStr s) # present_items kvs"
  "present_items [] = []"
  by (simp_all add: present_items_def)

lemma stored_error_keys: "distinct (map fst (stored_error a))"
  by (cases "ae_run_id a"; cases "ae_status a"; cases "ae_operation a"; cases "ae_details a = []")
    (simp_all add: stored_error_def api_error_body_def)

lemma stored_error_get:
  "dict_get (stored_error a) ''code'' = PStr (ae_code a)"
  "dict_get (stored_error a) ''message'' = PStr (ae_message a)"
  "dict_get (stored_error a) ''http_status'' = PInt (ae_http_status a)"
  "dict_get (stored_error a) ''run_id'' = opt_val PStr (ae_run_id a)"
  "dict_get (stored_error a) ''status'' = opt_val PStr (ae_status a)"
  "dict_get (stored_error a) ''operation'' = opt_val PStr (ae_operation a)"
  "dict_get (stored_error a) ''details'' = (if ae_details a = [] then PNone else PDict (ae_details a))"
  by (cases "ae_run_id a"; cases "ae_status a"; cases "ae_operation a"; cases "ae_details a = []";
      simp add: stored_error_def api_error_body_def)+

lemma canon_opt_str [simp]: "canon (opt_val PStr x) = Ok (opt_val PStr x)"
  by (cases x) simp_all

text \<open>An error read back from the store is the error that was stored, its details canonical.\<close>

lemma stored_error_from_dict:
  assumes stored: "canon_dict (stored_error a) = Ok c"
    and a: "ae_code a \<noteq> []" "ae_message a \<noteq> []" "ae_http_status a \<noteq> 0"
  shows "\<exists>d. canon_dict (ae_details a) = Ok d \<and> api_error_from_dict E c = Ok (a\<lparr>ae_details := d\<rparr>)"
proof -
  note get = dict_get_canon_dict[OF stored stored_error_keys]
  have fields: "dict_get c ''code'' = PStr (ae_code a)" "dict_get c ''message'' = PStr (ae_message a)"
    "dict_get c ''http_status'' = PInt (ae_http_status a)"
    "dict_get c ''run_id'' = opt_val PStr (ae_run_id a)"
    "dict_get c ''status'' = opt_val PStr (ae_status a)"
    "dict_get c ''operation'' = opt_val PStr (ae_operation a)"
    using get[of "''code''"] get[of "''message''"] get[of "''http_status''"] get[of "''run_id''"]
      get[of "''status''"] get[of "''operation''"] by (simp_all add: stored_error_get)
  have "canon (if ae_details a = [] then PNone else PDict (ae_details a)) = Ok (dict_get c ''details'')"
    using get[of "''details''"] by (simp add: stored_error_get)
  then obtain d where "canon_dict (ae_details a) = Ok d" "as_dict (dict_get c ''details'') = d"
    by (cases "ae_details a = []") (auto simp: canon_dict_def bindR_Ok_iff dest!: sym[of "PDict _"])
  with a show ?thesis by (auto simp: api_error_from_dict_def fields py_or_def)
qed

section \<open>The contract\<close>

definition control_ok :: "control_table \<Rightarrow> bool" where
  "control_ok rows \<longleftrightarrow> distinct (map ct_operation_id rows) \<and>
     distinct (map (\<lambda>r. (ct_run_id r, ct_idempotency_key r)) rows)"

text \<open>
  A key that is in use is answered from its record and nothing changes; a key that is not gets a
  record; completing or failing an operation changes its record alone.
\<close>

locale control_store =
  fixes B :: control_backend and D :: "pydict \<Rightarrow> string"
  assumes begin_known: "control_ok s \<Longrightarrow> cb_lookup B s run key = Some r \<Longrightarrow>
      operation_request_hash D op request = Ok h \<Longrightarrow>
      cb_begin B fresh now run key op request s = (s, known_operation r run op h)"
    and begin_new: "control_ok s \<Longrightarrow> cb_lookup B s run key = None \<Longrightarrow>
      operation_request_hash D op request = Ok h \<Longrightarrow> canon_dict request = Ok c \<Longrightarrow>
      fresh \<notin> set (map ct_operation_id s) \<Longrightarrow>
      \<exists>s'. cb_begin B fresh now run key op request s =
             (s', Ok (new_control_row fresh now run key op h request, True)) \<and>
        control_ok s' \<and> set (map ct_operation_id s') = insert fresh (set (map ct_operation_id s)) \<and>
        (\<forall>run' key'. cb_lookup B s' run' key' =
           (if run' = run \<and> key' = key then Some (new_control_row fresh now run key op h c)
            else cb_lookup B s run' key'))"
    and begin_used: "cb_lookup B s run key = None \<Longrightarrow> fresh \<in> set (map ct_operation_id s) \<Longrightarrow>
      \<exists>e. cb_begin B fresh now run key op request s = (s, Raise e)"
    and begin_unhashable: "operation_request_hash D op request = Raise e \<Longrightarrow>
      cb_begin B fresh now run key op request s = (s, Raise e)"
    and begin_error: "cb_begin B fresh now run key op request s = (s', Raise e) \<Longrightarrow> s' = s"
    and complete_known: "control_ok s \<Longrightarrow> cb_lookup B s run key = Some r \<Longrightarrow> canon_dict result = Ok c \<Longrightarrow>
      \<exists>s'. cb_complete B now (ct_operation_id r) result s = (s', Ok (completed_row c now r)) \<and>
        control_ok s' \<and> set (map ct_operation_id s') = set (map ct_operation_id s) \<and>
        (\<forall>run' key'. cb_lookup B s' run' key' =
           (if run' = run \<and> key' = key then Some (completed_row c now r)
            else cb_lookup B s run' key'))"
    and complete_unserializable: "canon_dict result = Raise e \<Longrightarrow>
      cb_complete B now i result s = (s, Raise e)"
    and fail_unserializable: "canon_dict (stored_error a) = Raise e \<Longrightarrow>
      cb_fail B now i a s = (s, Raise e)"
    and fail_known: "control_ok s \<Longrightarrow> cb_lookup B s run key = Some r \<Longrightarrow> canon_dict (stored_error a) = Ok c \<Longrightarrow>
      \<exists>s'. cb_fail B now (ct_operation_id r) a s = (s', Ok (failed_row c now r)) \<and>
        control_ok s' \<and> set (map ct_operation_id s') = set (map ct_operation_id s) \<and>
        (\<forall>run' key'. cb_lookup B s' run' key' =
           (if run' = run \<and> key' = key then Some (failed_row c now r)
            else cb_lookup B s run' key'))"
    and lookup_key: "cb_lookup B s run key = Some r \<Longrightarrow>
      ct_run_id r = run \<and> ct_idempotency_key r = key \<and> r \<in> set s"
    and lookup_empty: "cb_lookup B [] run key = None"

section \<open>The two stores\<close>

lemma find_control_Some: "find_control s run key = Some r \<Longrightarrow>
    ct_run_id r = run \<and> ct_idempotency_key r = key \<and> r \<in> set s"
  by (auto simp: find_control_def find_Some_iff)

lemma find_control_None: "find_control s run key = None \<longleftrightarrow>
    (\<forall>q \<in> set s. \<not> (ct_run_id q = run \<and> ct_idempotency_key q = key))"
  by (auto simp: find_control_def find_None_iff)

lemma find_control_unique:
  "control_ok s \<Longrightarrow> r \<in> set s \<Longrightarrow> find_control s (ct_run_id r) (ct_idempotency_key r) = Some r"
  by (induction s) (auto simp: control_ok_def find_control_def)

lemma find_control_append:
  "find_control (s @ [r]) run key = (case find_control s run key of
     Some q \<Rightarrow> Some q
   | None \<Rightarrow> if ct_run_id r = run \<and> ct_idempotency_key r = key then Some r else None)"
  by (induction s) (auto simp: find_control_def)

lemma operation_of_key:
  "control_ok s \<Longrightarrow> r \<in> set s \<Longrightarrow> q \<in> set s \<Longrightarrow> ct_operation_id q = ct_operation_id r \<Longrightarrow> q = r"
  by (auto simp: control_ok_def distinct_map inj_on_def)

lemma update_control_keys:
  assumes "\<And>q. ct_operation_id (f q) = ct_operation_id q \<and> ct_run_id (f q) = ct_run_id q \<and>
      ct_idempotency_key (f q) = ct_idempotency_key q"
  shows "map ct_operation_id (update_control i f s) = map ct_operation_id s"
    "control_ok (update_control i f s) = control_ok s"
    "find_control (update_control i f s) run key =
       map_option (\<lambda>q. if ct_operation_id q = i then f q else q) (find_control s run key)"
proof -
  have ids: "map ct_operation_id (update_control i f s) = map ct_operation_id s"
    and keys: "map (\<lambda>r. (ct_run_id r, ct_idempotency_key r)) (update_control i f s) =
      map (\<lambda>r. (ct_run_id r, ct_idempotency_key r)) s"
    using assms by (simp_all add: update_control_def)
  show "map ct_operation_id (update_control i f s) = map ct_operation_id s" by (fact ids)
  show "control_ok (update_control i f s) = control_ok s" by (simp only: control_ok_def ids keys)
  show "find_control (update_control i f s) run key =
      map_option (\<lambda>q. if ct_operation_id q = i then f q else q) (find_control s run key)"
    using assms by (induction s) (auto simp: update_control_def find_control_def)
qed

lemma find_updated:
  assumes f: "\<And>q. ct_operation_id (f q) = ct_operation_id q"
  shows "distinct (map ct_operation_id s) \<Longrightarrow> r \<in> set s \<Longrightarrow>
    find (\<lambda>q. ct_operation_id q = ct_operation_id r) (update_control (ct_operation_id r) f s) = Some (f r)"
proof (induction s)
  case (Cons q s)
  show ?case
  proof (cases "q = r")
    case False
    with Cons.prems have "r \<in> set s" "ct_operation_id q \<noteq> ct_operation_id r" by force+
    with Cons show ?thesis by (simp add: update_control_def)
  qed (simp add: update_control_def f)
qed simp

lemma update_known:
  assumes ok: "control_ok s" and r: "find_control s run key = Some r"
    and f: "\<And>q. ct_operation_id (f q) = ct_operation_id q \<and> ct_run_id (f q) = ct_run_id q \<and>
      ct_idempotency_key (f q) = ct_idempotency_key q"
  shows "require_operation (ct_operation_id r) (update_control (ct_operation_id r) f s) = Ok (f r)"
    "find_control (update_control (ct_operation_id r) f s) run' key' =
       (if run' = run \<and> key' = key then Some (f r) else find_control s run' key')"
proof -
  note in_s = find_control_Some[OF r]
  have "find (\<lambda>q. ct_operation_id q = ct_operation_id r) (update_control (ct_operation_id r) f s) = Some (f r)"
    using ok in_s f by (intro find_updated) (simp_all add: control_ok_def)
  then show "require_operation (ct_operation_id r) (update_control (ct_operation_id r) f s) = Ok (f r)"
    by (simp add: require_operation_def)
  show "find_control (update_control (ct_operation_id r) f s) run' key' =
      (if run' = run \<and> key' = key then Some (f r) else find_control s run' key')"
  proof (cases "find_control s run' key'")
    case None
    then show ?thesis using r by (auto simp: update_control_keys[OF f])
  next
    case (Some q)
    note q = find_control_Some[OF Some]
    have "ct_operation_id q = ct_operation_id r \<longleftrightarrow> run' = run \<and> key' = key"
    proof
      assume "ct_operation_id q = ct_operation_id r"
      then have "q = r" using operation_of_key[OF ok] in_s q by blast
      with in_s q show "run' = run \<and> key' = key" by simp
    next
      assume "run' = run \<and> key' = key"
      with Some r show "ct_operation_id q = ct_operation_id r" by simp
    qed
    with Some r show ?thesis by (auto simp: update_control_keys[OF f])
  qed
qed

lemma insert_control_new:
  assumes "control_ok s" "find_control s (ct_run_id r) (ct_idempotency_key r) = None"
    "ct_operation_id r \<notin> set (map ct_operation_id s)"
  shows "insert_control r s = Ok (s @ [r])" "control_ok (s @ [r])"
  using assms by (auto simp: insert_control_def control_ok_def find_control_None)

lemma row_changes:
  "ct_operation_id (completed_row c now q) = ct_operation_id q \<and> ct_run_id (completed_row c now q) = ct_run_id q
     \<and> ct_idempotency_key (completed_row c now q) = ct_idempotency_key q"
  "ct_operation_id (failed_row c now q) = ct_operation_id q \<and> ct_run_id (failed_row c now q) = ct_run_id q
     \<and> ct_idempotency_key (failed_row c now q) = ct_idempotency_key q"
  by (simp_all add: completed_row_def failed_row_def)

lemma new_control_row_sel [simp]:
  "ct_operation_id (new_control_row fresh now run key op h req) = fresh"
  "ct_run_id (new_control_row fresh now run key op h req) = run"
  "ct_idempotency_key (new_control_row fresh now run key op h req) = key"
  "(new_control_row fresh now run key op h req)\<lparr>ct_request := c\<rparr> = new_control_row fresh now run key op h c"
  by (simp_all add: new_control_row_def)

lemmas backend_defs = sqlite_control_def postgres_control_def sqlite_begin_control_def pg_begin_control_def
  sqlite_complete_control_def pg_complete_control_def sqlite_fail_control_def pg_fail_control_def

lemma update_law:
  assumes "control_ok s" "find_control s run key = Some r"
    and f: "\<And>q. ct_operation_id (f q) = ct_operation_id q \<and> ct_run_id (f q) = ct_run_id q \<and>
      ct_idempotency_key (f q) = ct_idempotency_key q"
  shows "\<exists>s'. (update_control (ct_operation_id r) f s, require_operation (ct_operation_id r)
        (update_control (ct_operation_id r) f s)) = (s', Ok (f r)) \<and>
      control_ok s' \<and> set (map ct_operation_id s') = set (map ct_operation_id s) \<and>
      (\<forall>run' key'. find_control s' run' key' =
         (if run' = run \<and> key' = key then Some (f r) else find_control s run' key'))"
proof (intro exI conjI allI)
  show "(update_control (ct_operation_id r) f s, require_operation (ct_operation_id r)
      (update_control (ct_operation_id r) f s)) = (update_control (ct_operation_id r) f s, Ok (f r))"
    by (simp only: update_known(1)[OF assms])
qed (simp_all only: update_known(2)[OF assms] update_control_keys(1,2)[OF f] assms(1))

lemma insert_new_law:
  assumes "control_ok s" "find_control s run key = None" "fresh \<notin> set (map ct_operation_id s)"
    "r = new_control_row fresh now run key op h c"
  shows "insert_control r s = Ok (s @ [r])" "control_ok (s @ [r])"
    "find_control (s @ [r]) run' key' =
       (if run' = run \<and> key' = key then Some r else find_control s run' key')"
  using insert_control_new[of s r] assms
  by (auto simp: find_control_append split: option.split)

interpretation sqlite_ops: control_store "sqlite_control D" D for D
proof (unfold_locales, goal_cases)
  case (2 s run key op request h c fresh now)
  with insert_new_law[OF _ _ _ refl, of s run key fresh] show ?case
    by (auto simp: backend_defs Let_def)
next
  case (3 s run key fresh now op request)
  then show ?case
    by (cases "operation_request_hash D op request"; cases "canon_dict request")
      (auto simp: backend_defs Let_def insert_control_def)
next
  case (5 fresh now run key op request s s' e)
  then show ?case by (auto simp: backend_defs Let_def split: sum.splits option.splits)
next
  case (6 s run key r result c now)
  then show ?case
    using update_law[OF 6(1), of run key r "completed_row c now"]
    by (simp add: backend_defs Let_def row_changes)
next
  case (9 s run key r a c now)
  then show ?case
    using update_law[OF 9(1), of run key r "failed_row c now"]
    by (simp add: backend_defs Let_def row_changes)
next
  case (10 s run key r)
  then show ?case using find_control_Some by (simp add: backend_defs)
qed (auto simp: backend_defs find_control_def)

lemma hashed_request: "operation_request_hash D op request = Ok h \<Longrightarrow> \<exists>c. canon_dict request = Ok c"
  by (auto simp: operation_request_hash_def canon_dict_def bindR_Ok_iff)

lemma pg_set_known:
  assumes "control_ok s" "find_control s run key = Some r"
  shows "pg_set_control (ct_operation_id r) f s =
     (let s' = update_control (ct_operation_id r) f s in (s', require_operation (ct_operation_id r) s'))"
  using find_control_Some[OF assms(2)] by (force simp: pg_set_control_def Let_def)

interpretation pg_ops: control_store "postgres_control D" D for D
proof (unfold_locales, goal_cases)
  case (1 s run key r op request h fresh now)
  with find_control_Some[OF 1(2)[unfolded postgres_control_def, simplified]] hashed_request[OF 1(3)] show ?case
    by (auto simp: backend_defs Let_def)
next
  case (2 s run key op request h c fresh now)
  with insert_new_law[OF _ _ _ refl, of s run key fresh] show ?case
    by (auto simp: backend_defs Let_def find_control_None)
next
  case (3 s run key fresh now op request)
  then show ?case
    by (cases "operation_request_hash D op request"; cases "canon_dict request")
      (auto simp: backend_defs Let_def insert_control_def find_control_None)
next
  case (5 fresh now run key op request s s' e)
  then show ?case by (auto simp: backend_defs Let_def split: sum.splits option.splits if_splits)
next
  case (6 s run key r result c now)
  then show ?case
    using update_law[OF 6(1), of run key r "completed_row c now"]
    by (simp add: backend_defs Let_def row_changes pg_set_known)
next
  case (9 s run key r a c now)
  then show ?case
    using update_law[OF 9(1), of run key r "failed_row c now"]
    by (simp add: backend_defs Let_def row_changes pg_set_known)
next
  case (10 s run key r)
  then show ?case using find_control_Some by (simp add: backend_defs)
qed (auto simp: backend_defs find_control_def)

text \<open>The two implementations are one function.\<close>

lemma begin_backends_agree: "pg_begin_control D fresh now run key op request rows =
    sqlite_begin_control D fresh now run key op request rows"
  using hashed_request[of D op request]
  unfolding pg_begin_control_def sqlite_begin_control_def find_control_None[symmetric] Let_def
  by (cases "operation_request_hash D op request"; cases "find_control rows run key") auto

lemma set_backends_agree:
  "pg_set_control i f rows = (update_control i f rows, require_operation i (update_control i f rows))"
  if "\<And>q. ct_operation_id (f q) = ct_operation_id q"
proof (cases "i \<in> set (map ct_operation_id rows)")
  case False
  then have "update_control i f rows = rows" by (auto simp: update_control_def intro!: map_idI)
  with False show ?thesis
    by (auto simp: pg_set_control_def require_operation_def find_None_iff image_iff split: option.split
        dest: find_Some_iff[THEN iffD1])
qed (simp add: pg_set_control_def Let_def)

end
