(* ===== verification/ControlViews.thy ===== *)
theory ControlViews
  imports ControlStore PlanCodec
begin

text \<open>
  What the control plane (\<^verbatim>\<open>runtime/control_plane.py\<close>) tells clients about a run: the operations a
  status allows, pending interrupts, and the view of a run and of a child.
\<close>

section \<open>Allowed operations\<close>

fun allowed_operations :: "run_status \<Rightarrow> control_operation list" where
  "allowed_operations RunRUNNING = [CtlRESUME, CtlCANCEL]"
| "allowed_operations RunINTERRUPTED = [CtlRESUME, CtlCANCEL]"
| "allowed_operations RunWAITING_APPROVAL = [CtlAPPROVE, CtlREJECT, CtlCANCEL]"
| "allowed_operations RunWAITING_CHILD = [CtlRESUME, CtlCANCEL]"
| "allowed_operations RunCOMPLETED = []"
| "allowed_operations RunFAILED = []"
| "allowed_operations RunCANCELLED = [CtlCANCEL]"

text \<open>The run waits in the failure queue of exhausted deliveries.\<close>

definition requeueable :: "run_state \<Rightarrow> bool" where
  "requeueable st \<longleftrightarrow> r_status st = RunFAILED \<and>
     (case r_error st of None \<Rightarrow> False | Some e \<Rightarrow> e_type e = ''RUN_DELIVERY_EXHAUSTED'') \<and>
     r_failure_queued_at st \<noteq> None"

definition offered_operations :: "run_state \<Rightarrow> control_operation list" where
  "offered_operations st =
     allowed_operations (r_status st) @ (if requeueable st then [CtlREQUEUE] else [])"

section \<open>Views\<close>

definition opt_str :: "string option \<Rightarrow> pyval" where
  "opt_str = opt_val PStr"

definition interrupt_summary :: "run_state \<Rightarrow> pydict option" where
  "interrupt_summary st =
     (case r_interrupt st of
        None \<Rightarrow> None
      | Some i \<Rightarrow> Some
          [(''run_id'', PStr (r_run_id st)), (''invocation_id'', opt_str (i_invocation_id i)),
           (''interrupt_type'', PStr (i_kind i)), (''tool_name'', opt_str (i_tool_name i)),
           (''reason'', PStr (i_reason i)), (''created_at'', PStr (i_created_at i))])"

definition pending_interrupts :: "run_state \<Rightarrow> run_state list \<Rightarrow> pydict list" where
  "pending_interrupts st children = List.map_filter interrupt_summary (st # children)"

definition waiting_reason :: "run_state \<Rightarrow> string option" where
  "waiting_reason st =
     (case r_status st of
        RunWAITING_APPROVAL \<Rightarrow> Some ''approval''
      | RunWAITING_CHILD \<Rightarrow> Some ''child''
      | RunINTERRUPTED \<Rightarrow> Some ''manual_interrupt''
      | RunRUNNING \<Rightarrow> Some ''recovery''
      | _ \<Rightarrow> None)"

definition recovery_action :: "run_state \<Rightarrow> run_state list \<Rightarrow> string option" where
  "recovery_action st children =
     (case r_status st of
        RunWAITING_APPROVAL \<Rightarrow> Some ''approval_required''
      | RunINTERRUPTED \<Rightarrow> Some ''client_resume''
      | RunRUNNING \<Rightarrow> Some ''client_resume''
      | RunWAITING_CHILD \<Rightarrow>
          if r_execution_strategy st \<in> {''multi_agent'', ''plan_execute''} then Some ''reconcile_parent''
          else if children \<noteq> [] \<and> (\<forall>c \<in> set children. run_finished c) then Some ''resume_parent''
          else Some ''wait_for_children''
      | _ \<Rightarrow> None)"

text \<open>\<^verbatim>\<open>_summary\<close>: stripped, and cut at 4000 characters.\<close>

definition text_summary :: "string \<Rightarrow> string" where
  "text_summary s = (let t = py_strip s in if length t \<le> 4000 then t else take 3997 t @ ''...'')"

definition sort_children :: "run_state list \<Rightarrow> run_state list" where
  "sort_children cs = sort_key r_created_at (sort_key r_run_id cs)"

definition run_view :: "run_state \<Rightarrow> run_state list \<Rightarrow> (string \<times> pydict) list \<Rightarrow> pydict res" where
  "run_view st children metadata =
     (let cs = sort_children children;
          active = filter (\<lambda>c. \<not> run_finished c) cs;
          waiting = filter (\<lambda>c. r_status c \<in> {RunWAITING_APPROVAL, RunWAITING_CHILD, RunINTERRUPTED}) cs in
      bindR (case r_error st of
               None \<Rightarrow> Ok PNone | Some e \<Rightarrow> bindR (run_error_to_dict e) (\<lambda>d. Ok (PDict d))) (\<lambda>err.
      Ok [(''run_id'', PStr (r_run_id st)), (''thread_id'', PStr (r_thread_id st)),
          (''turn_id'', PStr (r_turn_id st)), (''run_kind'', PStr (r_run_kind st)),
          (''execution_strategy'', PStr (r_execution_strategy st)),
          (''status'', PStr (run_status_value (r_status st))),
          (''waiting_reason'', opt_str (waiting_reason st)),
          (''recovery_action'', opt_str (recovery_action st cs)),
          (''parent_run_id'', opt_str (r_parent_run_id st)),
          (''parent_step_id'', opt_str (r_parent_step_id st)),
          (''created_at'', PStr (r_created_at st)), (''updated_at'', PStr (r_updated_at st)),
          (''started_at'', PStr (r_created_at st)),
          (''completed_at'', if run_finished st then PStr (r_updated_at st) else PNone),
          (''output'', PStr (text_summary (r_output_text st))), (''error'', err),
          (''interrupt'', opt_val PDict (interrupt_summary st)),
          (''children_count'', PInt (int (length cs))),
          (''active_children_count'', PInt (int (length active))),
          (''waiting_children_count'', PInt (int (length waiting))),
          (''terminal_children_count'', PInt (int (length (filter run_finished cs)))),
          (''active_child_run_ids'', PList (map (\<lambda>c. PStr (r_run_id c)) active)),
          (''pending_interrupts'', PList (map PDict (pending_interrupts st cs))),
          (''assignment'', opt_val PDict (map_of metadata (r_run_id st))),
          (''allowed_operations'',
             PList (map PStr (sort (map control_operation_value (offered_operations st)))))]))"

definition child_view :: "run_state \<Rightarrow> pydict option \<Rightarrow> pydict" where
  "child_view st assignment =
     (let field = (\<lambda>k. case assignment of None \<Rightarrow> PNone | Some a \<Rightarrow> if a = [] then PNone else dict_get a k) in
      [(''child_run_id'', PStr (r_run_id st)), (''run_kind'', PStr (r_run_kind st)),
       (''status'', PStr (run_status_value (r_status st))),
       (''parent_run_id'', opt_str (r_parent_run_id st)), (''parent_step_id'', opt_str (r_parent_step_id st)),
       (''assignment_id'', field ''assignment_id''), (''worker_role'', field ''worker_role''),
       (''attempt'', field ''attempt''), (''interrupt'', opt_val PDict (interrupt_summary st)),
       (''created_at'', PStr (r_created_at st)), (''updated_at'', PStr (r_updated_at st))])"

section \<open>Assignments\<close>

text \<open>
  \<^verbatim>\<open>_assignment_metadata\<close> of \<^verbatim>\<open>runtime/api.py\<close> for a plan: the child of each task. What a
  multi-agent orchestration assigned is the argument \<open>orchestration\<close>.
\<close>

definition plan_assignments :: "plan \<Rightarrow> (string \<times> pydict) list" where
  "plan_assignments p = fold (\<lambda>t d. case task.t_child_run_id t of
       None \<Rightarrow> d
     | Some c \<Rightarrow> if c = [] then d
         else dict_set c [(''assignment_id'', PStr (task.t_id t)), (''worker_role'', PStr ''plan_task''),
                          (''attempt'', PInt (task.t_attempt t))] d) (all_tasks p) []"

definition assignment_metadata :: "pyenv \<Rightarrow> (run_state \<Rightarrow> (string \<times> pydict) list res) \<Rightarrow> run_state
    \<Rightarrow> (string \<times> pydict) list res" where
  "assignment_metadata E orchestration parent =
     (if r_execution_strategy parent = ''multi_agent'' then orchestration parent
      else if r_execution_strategy parent = ''plan_execute''
      then (case dict_get (r_strategy_state parent) ''plan'' of
              PDict raw \<Rightarrow> bindR (plan_from_dict E raw) (\<lambda>p. Ok (plan_assignments p))
            | _ \<Rightarrow> Ok [])
      else Ok [])"

end
