(* ===== verification/Events.thy ===== *)
theory Events
  imports RunState PyText
begin

text \<open>
  Threads and their events: \<^verbatim>\<open>ThreadEventRepository\<close> of \<^verbatim>\<open>runtime/events.py\<close> (SQLite),
  \<^verbatim>\<open>PostgresEventRepository\<close> of \<^verbatim>\<open>runtime/postgres.py\<close>, and the clients that follow the events of
  a run through \<^verbatim>\<open>_send_events\<close> of \<^verbatim>\<open>runtime/api.py\<close>. Bytes on the wire, keepalives and the
  metrics are not modelled.
\<close>

section \<open>Payloads\<close>

text \<open>\<^verbatim>\<open>_jsonable\<close> followed by \<^verbatim>\<open>json.dumps\<close>, as the value that is read back.\<close>

fun jsonable :: "pyval \<Rightarrow> pyval res"
  and jsonable_list :: "pyval list \<Rightarrow> pyval list res"
  and jsonable_items :: "(string \<times> pyval) list \<Rightarrow> (string \<times> pyval) list res" where
  "jsonable (PList xs) = bindR (jsonable_list xs) (\<lambda>ys. Ok (PList ys))"
| "jsonable (PTuple xs) = bindR (jsonable_list xs) (\<lambda>ys. Ok (PList ys))"
| "jsonable (PDict d) = bindR (jsonable_items d) (\<lambda>e. Ok (PDict e))"
| "jsonable (PObj ty) = Raise (TypeError (''Object of type '' @ ty @ '' is not JSON serializable''))"
| "jsonable v = Ok v"
| "jsonable_list [] = Ok []"
| "jsonable_list (x # xs) = bindR (jsonable x) (\<lambda>y. bindR (jsonable_list xs) (\<lambda>ys. Ok (y # ys)))"
| "jsonable_items [] = Ok []"
| "jsonable_items ((k, x) # d) =
     bindR (jsonable x) (\<lambda>y. bindR (jsonable_items d) (\<lambda>e. Ok ((k, y) # e)))"

lemma jsonable_serializable:
  "serializable v \<Longrightarrow> jsonable v = Ok v"
  "list_all serializable xs \<Longrightarrow> jsonable_list xs = Ok xs"
  "serializable_dict d \<Longrightarrow> jsonable_items d = Ok d"
  by (induction v and xs and d rule: jsonable_jsonable_list_jsonable_items.induct) auto

section \<open>The repository\<close>

text \<open>
  \<open>el_next\<close> is the next value of the identity column. \<open>el_pending\<close> holds the rows of PostgreSQL
  transactions that have inserted, and drawn their identity, but not committed; SQLite has one
  writer at a time and leaves it empty.
\<close>

record event_row =
  et_id :: int
  et_thread_id :: string
  et_turn_id :: "string option"
  et_run_id :: "string option"
  et_parent_run_id :: "string option"
  et_parent_step_id :: "string option"
  et_assignment_id :: "string option"
  et_type :: string
  et_payload :: pydict
  et_created_at :: string

record event_log =
  el_threads :: "(string \<times> string) list"
  el_rows :: "event_row list"
  el_pending :: "event_row list"
  el_next :: int

definition empty_log :: event_log where
  "empty_log = \<lparr>el_threads = [], el_rows = [], el_pending = [], el_next = 1\<rparr>"

definition thread_exists :: "string \<Rightarrow> event_log \<Rightarrow> bool" where
  "thread_exists thread l \<longleftrightarrow> thread \<in> fst ` set (el_threads l)"

definition list_threads :: "event_log \<Rightarrow> string list" where
  "list_threads l = map fst (sort_key snd (sort_key fst (el_threads l)))"

definition event_row_of :: "pyenv \<Rightarrow> int \<Rightarrow> string \<Rightarrow> string \<Rightarrow> pydict \<Rightarrow> pydict \<Rightarrow> event_row" where
  "event_row_of E i thread ty payload stored =
     (let text = (\<lambda>k. py_optional_str E (dict_get payload k)) in
      \<lparr>et_id = i, et_thread_id = thread, et_turn_id = text ''turn_id'', et_run_id = text ''run_id'',
       et_parent_run_id = text ''parent_run_id'', et_parent_step_id = text ''parent_step_id'',
       et_assignment_id = text ''assignment_id'', et_type = ty, et_payload = stored,
       et_created_at = now_text E\<rparr>)"

definition append_event :: "pyenv \<Rightarrow> string \<Rightarrow> string \<Rightarrow> pydict \<Rightarrow> event_log \<Rightarrow> event_log \<times> int res" where
  "append_event E thread ty payload l =
     (if \<not> thread_exists thread l then (l, Raise (ValueError ''thread not found''))
      else case jsonable_items payload of
             Inl e \<Rightarrow> (l, Raise e)
           | Inr stored \<Rightarrow>
               (l\<lparr>el_rows := el_rows l @ [event_row_of E (el_next l) thread ty payload stored],
                  el_next := el_next l + 1\<rparr>, Ok (el_next l)))"

text \<open>\<open>fresh\<close> is the identifier drawn. The two writes are two transactions.\<close>

definition create_thread :: "pyenv \<Rightarrow> string \<Rightarrow> event_log \<Rightarrow> event_log \<times> string res" where
  "create_thread E fresh l =
     (if thread_exists fresh l then (l, Raise (RuntimeErr ''UNIQUE constraint failed: threads.id''))
      else case append_event E fresh ''thread.created'' [(''id'', PStr fresh)]
                  (l\<lparr>el_threads := el_threads l @ [(fresh, now_text E)]\<rparr>) of
             (l', r) \<Rightarrow> (l', bindR r (\<lambda>_. Ok fresh)))"

definition event_selected :: "string \<Rightarrow> int option \<Rightarrow> string option \<Rightarrow> event_row \<Rightarrow> bool" where
  "event_selected thread after run e \<longleftrightarrow> et_thread_id e = thread \<and>
     (case after of None \<Rightarrow> True | Some a \<Rightarrow> a < et_id e) \<and>
     (case run of None \<Rightarrow> True | Some i \<Rightarrow> et_run_id e = Some i)"

definition list_events :: "string \<Rightarrow> int option \<Rightarrow> string option \<Rightarrow> event_log \<Rightarrow> event_row list" where
  "list_events thread after run l =
     (if \<not> thread_exists thread l then []
      else sort_key et_id (filter (event_selected thread after run) (el_rows l)))"

text \<open>
  PostgreSQL: the statement inserts and draws the identity, the end of the \<^verbatim>\<open>with\<close> block commits.
  Readers see committed rows.
\<close>

definition pg_insert_event :: "pyenv \<Rightarrow> string \<Rightarrow> string \<Rightarrow> pydict \<Rightarrow> event_log \<Rightarrow> event_log \<times> int res" where
  "pg_insert_event E thread ty payload l =
     (case jsonable_items payload of
        Inl e \<Rightarrow> (l, Raise e)
      | Inr stored \<Rightarrow>
          if \<not> thread_exists thread l then (l, Raise (ValueError ''thread not found''))
          else (l\<lparr>el_pending := el_pending l @ [event_row_of E (el_next l) thread ty payload stored],
                  el_next := el_next l + 1\<rparr>, Ok (el_next l)))"

definition pg_commit_event :: "int \<Rightarrow> event_log \<Rightarrow> event_log" where
  "pg_commit_event i l =
     l\<lparr>el_rows := el_rows l @ filter (\<lambda>e. et_id e = i) (el_pending l),
       el_pending := filter (\<lambda>e. et_id e \<noteq> i) (el_pending l)\<rparr>"

definition pg_append_event :: "pyenv \<Rightarrow> string \<Rightarrow> string \<Rightarrow> pydict \<Rightarrow> event_log \<Rightarrow> event_log \<times> int res" where
  "pg_append_event E thread ty payload l =
     (case pg_insert_event E thread ty payload l of
        (l', Inl e) \<Rightarrow> (l', Raise e)
      | (l', Inr i) \<Rightarrow> (pg_commit_event i l', Ok i))"

section \<open>Following a run\<close>

text \<open>
  The loop of \<^verbatim>\<open>_send_events\<close> in follow mode. Each element of the list is what one turn of the
  loop sees: the log it lists and the run it loads after that; at the end of the list the server
  stops. The result is the rows written and the number of polls.
\<close>

fun follow_events :: "string \<Rightarrow> string \<Rightarrow> int option \<Rightarrow> bool \<Rightarrow> (event_log \<times> run_state option) list
    \<Rightarrow> event_row list \<times> nat" where
  "follow_events thread run cursor terminal [] = ([], 0)"
| "follow_events thread run cursor terminal ((l, st) # polls) =
     (let rows = list_events thread cursor (Some run) l;
          cursor' = (if rows = [] then cursor else Some (et_id (last rows)));
          continue = (\<lambda>t. case follow_events thread run cursor' t polls of (es, n) \<Rightarrow> (rows @ es, Suc n)) in
      case st of
        None \<Rightarrow> (rows, 1)
      | Some s \<Rightarrow>
          if run_finished s then (if terminal \<and> rows = [] then (rows, 1) else continue True)
          else continue terminal)"

text \<open>What a client of \<^verbatim>\<open>GET .../events?follow=true\<close> receives; \<open>st\<close> is the run loaded first.\<close>

definition send_events :: "string \<Rightarrow> string option \<Rightarrow> int option \<Rightarrow> run_state option
    \<Rightarrow> (event_log \<times> run_state option) list \<Rightarrow> event_row list res" where
  "send_events thread run after st polls =
     (case run of
        None \<Rightarrow> Raise (ApiError (plain_api_error ''invalid_request''
                  ''SSE follow mode requires a run_id filter'' 400))
      | Some i \<Rightarrow>
          (case st of
             None \<Rightarrow> Raise (ApiError ((plain_api_error ''run_not_found'' ''run not found'' 404)\<lparr>ae_run_id := Some i\<rparr>))
           | Some s \<Rightarrow>
               if r_thread_id s \<noteq> thread
               then Raise (ApiError ((plain_api_error ''run_not_found'' ''run not found'' 404)\<lparr>ae_run_id := Some i\<rparr>))
               else Ok (fst (follow_events thread i after False polls))))"

section \<open>The log of one writer\<close>

inductive log_grows :: "event_log \<Rightarrow> event_log \<Rightarrow> bool" where
  log_same: "log_grows l l"
| log_thread: "log_grows l l' \<Longrightarrow> log_grows l (fst (create_thread E fresh l'))"
| log_append: "log_grows l l' \<Longrightarrow> log_grows l (fst (append_event E thread ty payload l'))"

definition log_ok :: "event_log \<Rightarrow> bool" where
  "log_ok l \<longleftrightarrow> sorted (map et_id (el_rows l)) \<and> distinct (map et_id (el_rows l)) \<and>
     (\<forall>e \<in> set (el_rows l). et_id e < el_next l)"

lemma log_ok_empty: "log_ok empty_log"
  by (simp add: log_ok_def empty_log_def)

lemma event_row_of_sel [simp]:
  "et_id (event_row_of E i thread ty payload stored) = i"
  "et_thread_id (event_row_of E i thread ty payload stored) = thread"
  by (simp_all add: event_row_of_def Let_def)

lemma append_event_shape:
  "append_event E thread ty payload l = (l', r) \<Longrightarrow>
     l' = l \<or> (thread_exists thread l \<and> (\<exists>e. et_id e = el_next l \<and> et_thread_id e = thread \<and>
       l' = l\<lparr>el_rows := el_rows l @ [e], el_next := el_next l + 1\<rparr>))"
  by (auto simp: append_event_def split: if_splits sum.splits intro!: exI[of _ "event_row_of _ _ _ _ _ _"])

text \<open>What one write does to the log: new rows at the end, with new identities.\<close>

definition log_extends :: "event_log \<Rightarrow> event_log \<Rightarrow> bool" where
  "log_extends l l' \<longleftrightarrow> set (el_threads l) \<subseteq> set (el_threads l') \<and> el_next l \<le> el_next l' \<and>
     (\<exists>es. el_rows l' = el_rows l @ es \<and> sorted (map et_id es) \<and> distinct (map et_id es) \<and>
        (\<forall>e \<in> set es. el_next l \<le> et_id e \<and> et_id e < el_next l' \<and> thread_exists (et_thread_id e) l'))"

lemma thread_exists_rows [simp]:
  "thread_exists t (l\<lparr>el_rows := es, el_next := n\<rparr>) = thread_exists t l"
  by (simp add: thread_exists_def)

lemma log_extends_refl: "log_extends l l"
  by (simp add: log_extends_def)

lemma log_extends_trans:
  assumes "log_extends a b" "log_extends b c"
  shows "log_extends a c"
proof -
  from assms obtain es fs where es: "el_rows b = el_rows a @ es" "el_rows c = el_rows b @ fs"
    by (auto simp: log_extends_def)
  moreover have "thread_exists (et_thread_id e) c" if "thread_exists (et_thread_id e) b" for e
    using assms(2) that by (auto simp: log_extends_def thread_exists_def)
  ultimately show ?thesis
    using assms by (fastforce simp: log_extends_def sorted_append)
qed

lemma append_event_extends: "log_extends l (fst (append_event E thread ty payload l))"
  using append_event_shape[of E thread ty payload l]
  by (cases "append_event E thread ty payload l")
    (auto simp: log_extends_def log_extends_refl)

lemma create_thread_extends: "log_extends l (fst (create_thread E fresh l))"
proof (cases "thread_exists fresh l")
  case True
  then show ?thesis by (simp add: create_thread_def log_extends_refl)
next
  case False
  let ?l = "l\<lparr>el_threads := el_threads l @ [(fresh, now_text E)]\<rparr>"
  have "log_extends l ?l" by (auto simp: log_extends_def)
  then have "log_extends l (fst (append_event E fresh ''thread.created'' [(''id'', PStr fresh)] ?l))"
    using append_event_extends log_extends_trans by blast
  with False show ?thesis by (auto simp: create_thread_def split: prod.split)
qed

lemma log_grows_extends: "log_grows l l' \<Longrightarrow> log_extends l l'"
  by (induction rule: log_grows.induct)
    (blast intro: log_extends_refl log_extends_trans append_event_extends create_thread_extends)+

lemma log_extends_ok: "log_ok l \<Longrightarrow> log_extends l l' \<Longrightarrow> log_ok l'"
  by (fastforce simp: log_ok_def log_extends_def sorted_append)

lemma log_grows_ok: "log_grows empty_log l \<Longrightarrow> log_ok l"
  using log_extends_ok log_ok_empty log_grows_extends by blast

section \<open>The stream of one writer\<close>

lemma sorted_last: "sorted (map f xs) \<Longrightarrow> x \<in> set xs \<Longrightarrow> f x \<le> f (last xs)"
  by (induction xs rule: rev_induct) (auto simp: sorted_append)

lemma list_events_sorted:
  "log_ok l \<Longrightarrow> list_events thread after run l =
     (if thread_exists thread l then filter (event_selected thread after run) (el_rows l) else [])"
  by (simp add: list_events_def log_ok_def sort_key_id_if_sorted sorted_filter)

text \<open>The rows after the cursor of a later log are those of the poll and those after the new cursor.\<close>

lemma list_events_later:
  assumes ok: "log_ok l" and ext: "log_extends l l'"
    and rows_def: "rows = list_events thread after run l"
  shows "list_events thread after run l' =
     rows @ list_events thread (if rows = [] then after else Some (et_id (last rows))) run l'"
proof (cases "thread_exists thread l")
  case False
  then show ?thesis by (simp add: rows_def list_events_def)
next
  case True
  note ok' = log_extends_ok[OF ok ext]
  from True ext have exists': "thread_exists thread l'" by (auto simp: log_extends_def thread_exists_def)
  from ext obtain es where es: "el_rows l' = el_rows l @ es" "\<forall>e \<in> set es. el_next l \<le> et_id e"
    by (auto simp: log_extends_def)
  have rows: "rows = filter (event_selected thread after run) (el_rows l)"
    using True by (simp add: rows_def list_events_sorted[OF ok])
  show ?thesis
  proof (cases "rows = []")
    case False
    let ?c = "et_id (last rows)"
    have selected: "\<forall>e \<in> set rows. event_selected thread after run e" by (simp add: rows)
    have last: "last rows \<in> set rows" using False by simp
    have old: "et_id e < el_next l" if "e \<in> set (el_rows l)" for e using ok that by (simp add: log_ok_def)
    have le: "et_id e \<le> ?c" if "e \<in> set rows" for e
      using sorted_last[OF _ that, of et_id] ok
      by (simp add: rows log_ok_def sorted_filter)
    have after: "case after of None \<Rightarrow> True | Some a \<Rightarrow> a < ?c"
      using bspec[OF selected last] by (simp add: event_selected_def)
    have "filter (event_selected thread (Some ?c) run) (el_rows l) = []"
    proof -
      have False if e: "e \<in> set (el_rows l)" "event_selected thread (Some ?c) run e" for e
      proof -
        have "event_selected thread after run e"
          using e(2) after by (cases after) (auto simp: event_selected_def)
        with e(1) have "e \<in> set rows" by (simp add: rows)
        from le[OF this] e(2) show False by (simp add: event_selected_def)
      qed
      then show ?thesis by (auto simp: filter_empty_conv)
    qed
    moreover have "filter (event_selected thread (Some ?c) run) es = filter (event_selected thread after run) es"
    proof (rule filter_cong[OF refl])
      fix e assume "e \<in> set es"
      with es(2) have "el_next l \<le> et_id e" by blast
      moreover have "?c < el_next l" using old last by (simp add: rows)
      ultimately show "event_selected thread (Some ?c) run e = event_selected thread after run e"
        using after by (cases after) (auto simp: event_selected_def)
    qed
    ultimately show ?thesis
      using False exists' by (simp add: list_events_sorted[OF ok'] es(1) rows)
  qed simp
qed

lemma polls_extend:
  "successively log_grows (map fst (p # polls)) \<Longrightarrow> q \<in> set polls \<Longrightarrow> log_extends (fst p) (fst q)"
proof (induction polls arbitrary: p)
  case (Cons a polls)
  then have pa: "log_extends (fst p) (fst a)" using log_grows_extends by simp
  show ?case
  proof (cases "q \<in> set polls")
    case True
    then have "log_extends (fst a) (fst q)" using Cons.IH[of a] Cons.prems(1) by simp
    with pa show ?thesis by (rule log_extends_trans)
  next
    case False
    with Cons.prems(2) pa show ?thesis by simp
  qed
qed simp

lemma follow_events_step:
  assumes "follow_events thread run cursor terminal ((l, st) # polls) = (es, n)"
  defines "rows \<equiv> list_events thread cursor (Some run) l"
  shows "(es = rows \<and> n = 1) \<or> (\<exists>t es' n'. es = rows @ es' \<and> n = Suc n' \<and>
    follow_events thread run (if rows = [] then cursor else Some (et_id (last rows))) t polls = (es', n'))"
proof -
  let ?f = "\<lambda>t. follow_events thread run (if rows = [] then cursor else Some (et_id (last rows))) t polls"
  define G where "G t = (case ?f t of (fs, m) \<Rightarrow> (rows @ fs, Suc m))" for t
  have step: "follow_events thread run cursor terminal ((l, st) # polls) = (case st of None \<Rightarrow> (rows, 1) | Some s \<Rightarrow>
      if run_finished s then (if terminal \<and> rows = [] then (rows, 1) else G True) else G terminal)"
    by (simp only: follow_events.simps Let_def G_def rows_def)
  have "(es, n) = (rows, 1) \<or> (\<exists>t. (es, n) = G t)"
    using assms(1)[symmetric] unfolding step
    by (cases st) (simp_all split: if_splits, (blast | metis)+)
  then show ?thesis
  proof (elim disjE exE)
    fix t assume "(es, n) = G t"
    moreover obtain es' n' where "?f t = (es', n')" by fastforce
    ultimately show ?thesis unfolding G_def by auto
  qed simp
qed

lemma follow_events_exact:
  assumes "polls \<noteq> []" "log_ok (fst (hd polls))" "successively log_grows (map fst polls)"
    "follow_events thread run after terminal polls = (es, n)"
  shows "0 < n \<and> n \<le> length polls \<and> es = list_events thread after (Some run) (fst (polls ! (n - 1)))"
  using assms
proof (induction polls arbitrary: after terminal es n)
  case (Cons p polls)
  obtain l st where p: "p = (l, st)" by fastforce
  let ?rows = "list_events thread after (Some run) l"
  let ?c = "if ?rows = [] then after else Some (et_id (last ?rows))"
  have ok: "log_ok l" using Cons.prems(2) p by simp
  show ?case
  proof (cases "es = ?rows \<and> n = 1")
    case True
    then show ?thesis by (simp add: p)
  next
    case False
    note step = follow_events_step[OF Cons.prems(4)[unfolded p]]
    have "\<exists>t es' n'. es = ?rows @ es' \<and> n = Suc n' \<and> follow_events thread run ?c t polls = (es', n')"
      by (rule mp[OF iffD1[OF disj_imp step] False])
    then obtain t es' n' where rest: "follow_events thread run ?c t polls = (es', n')"
      and es: "es = ?rows @ es'" "n = Suc n'" by (elim exE conjE)
    show ?thesis
    proof (cases "polls = []")
      case True
      with rest es show ?thesis by (simp add: p)
    next
      case False
      from Cons.prems(3) p have later: "successively log_grows (map fst polls)"
        and grows: "log_grows l (fst (hd polls))"
        using False by (cases polls; simp)+
      have "log_ok (fst (hd polls))"
        using log_extends_ok[OF ok log_grows_extends[OF grows]] .
      note IH = Cons.IH[OF False this later rest]
      have n': "0 < n'" "n' \<le> length polls" by (simp_all only: IH)
      have es': "es' = list_events thread ?c (Some run) (fst (polls ! (n' - 1)))"
        by (rule conjunct2[OF conjunct2[OF IH]])
      have "log_extends (fst p) (fst (polls ! (n' - 1)))"
        by (rule polls_extend[OF Cons.prems(3)]) (use n' in simp)
      then have "list_events thread after (Some run) (fst (polls ! (n' - 1))) = ?rows @ es'"
        unfolding p fst_conv es' by (rule list_events_later[OF ok _ refl])
      moreover have "fst ((p # polls) ! (n - 1)) = fst (polls ! (n' - 1))"
        using n'(1) es(2) by (simp add: nth_Cons')
      ultimately show ?thesis using n'(2) es by (simp only:) simp
    qed
  qed
qed simp

end
