(* ===== verification/ApiText.thy ===== *)
theory ApiText
  imports PyText
begin

text \<open>Error texts of \<^verbatim>\<open>runtime/api.py\<close>: \<^verbatim>\<open>_safe_error\<close>, which blots out the names of secrets.\<close>

text \<open>
  \<^verbatim>\<open>s.replace(pat, rep)\<close> for a pattern that is not empty; \<open>skip\<close> counts the characters of the
  current occurrence that are still to be passed over.
\<close>

fun replace_from :: "nat \<Rightarrow> string \<Rightarrow> string \<Rightarrow> string \<Rightarrow> string" where
  "replace_from skip pat rep [] = []"
| "replace_from (Suc k) pat rep (c # s) = replace_from k pat rep s"
| "replace_from 0 pat rep (c # s) =
     (if take (length pat) (c # s) = pat then rep @ replace_from (length pat - 1) pat rep s
      else c # replace_from 0 pat rep s)"

definition py_replace :: "string \<Rightarrow> string \<Rightarrow> string \<Rightarrow> string" where
  "py_replace pat rep s = replace_from 0 pat rep s"

definition api_safe_error :: "pyenv \<Rightarrow> exn \<Rightarrow> string" where
  "api_safe_error E e = fold (\<lambda>secret. py_replace secret ''[redacted]'')
     [''AXIOM_RUNTIME_API_KEY'', ''Authorization'', ''Bearer''] (exn_str E e)"

lemma replace_from_skip: "k \<le> length s \<Longrightarrow> replace_from k pat rep s = replace_from 0 pat rep (drop k s)"
proof (induction s arbitrary: k)
  case (Cons c s)
  then show ?case by (cases k) simp_all
qed simp

text \<open>The two equations of \<^verbatim>\<open>replace\<close>.\<close>

lemma py_replace_match: "pat \<noteq> [] \<Longrightarrow> py_replace pat rep (pat @ s) = rep @ py_replace pat rep s"
  using replace_from_skip[of "length pat - 1" "tl pat @ s" pat rep]
  by (cases pat) (simp_all add: py_replace_def)

lemma py_replace_other:
  "take (length pat) (c # s) \<noteq> pat \<Longrightarrow> py_replace pat rep (c # s) = c # py_replace pat rep s"
  by (simp add: py_replace_def)

end
