(* ===== verification/ControlApi.thy ===== *)
theory ControlApi
  imports ControlLaws ControlViews Events ApiText Runtime
begin

text \<open>
  Control requests of clients, \<^verbatim>\<open>_execute_control_operation\<close> and what it calls in
  \<^verbatim>\<open>runtime/api.py\<close>: resume, approve, reject, cancel and requeue under an idempotency key. The
  effects act on the store of the runs, the table of control operations and the event log
  together; the process can die before any of them.
\<close>

section \<open>The server\<close>

record 's api_store =
  as_runs :: 's
  as_control :: control_table
  as_events :: event_log

text \<open>
  \<open>ap_fresh n\<close> is the identifier drawn at the tick \<open>n\<close>. \<open>ap_runtime\<close> builds the runtime of an
  execution strategy. \<open>ap_engine\<close> builds the engine of a run: it may raise, and \<open>False\<close> is an
  engine that is not a \<^verbatim>\<open>QueryEngine\<close>. \<open>ap_resume\<close> is the resumption in this process, which runs
  the agent, for a server without distributed workers. \<open>ap_requeue\<close> is the method of the store,
  if it has one.
\<close>

record 's api_server =
  ap_py :: pyenv
  ap_clock :: "nat \<Rightarrow> string \<times> rat"
  ap_fresh :: "nat \<Rightarrow> string"
  ap_load :: "pyenv \<Rightarrow> string \<Rightarrow> 's \<Rightarrow> run_state option res"
  ap_list :: "pyenv \<Rightarrow> string \<Rightarrow> 's \<Rightarrow> run_state list res"
  ap_requeue :: "(pyenv \<Rightarrow> nat \<Rightarrow> string \<Rightarrow> 's \<Rightarrow> 's \<times> run_state res) option"
  ap_mark_runnable :: "string \<Rightarrow> nat \<Rightarrow> 's \<Rightarrow> 's \<times> unit res"
  ap_runtime :: "string \<Rightarrow> 's runtime"
  ap_control :: control_backend
  ap_append :: "pyenv \<Rightarrow> string \<Rightarrow> string \<Rightarrow> pydict \<Rightarrow> event_log \<Rightarrow> event_log \<times> int res"
  ap_engine :: "run_state \<Rightarrow> bool res"
  ap_orchestration :: "run_state \<Rightarrow> (string \<times> pydict) list res"
  ap_resume :: "string \<Rightarrow> string option \<Rightarrow> ('s, pydict) eff"
  ap_distributed :: bool
  ap_postgres :: bool

definition api_env :: "'s api_server \<Rightarrow> nat \<Rightarrow> pyenv" where
  "api_env A n = (ap_py A)\<lparr>now_text := fst (ap_clock A n), now_time := snd (ap_clock A n)\<rparr>"

text \<open>An effect of the runtime, on the runs of the server.\<close>

definition on_runs :: "('s, 'a) eff \<Rightarrow> ('s api_store, 'a) eff" where
  "on_runs m w =
     (case m \<lparr>w_store = as_runs (w_store w), w_lives = w_lives w, w_tick = w_tick w, w_calls = w_calls w\<rparr> of
        (v, r) \<Rightarrow> (\<lparr>w_store = (w_store w)\<lparr>as_runs := w_store v\<rparr>, w_lives = w_lives v,
                    w_tick = w_tick v, w_calls = w_calls v\<rparr>, r))"

definition on_control :: "(nat \<Rightarrow> control_table \<Rightarrow> control_table \<times> 'a res) \<Rightarrow> ('s api_store, 'a) eff" where
  "on_control f = storeE (\<lambda>n s. case f n (as_control s) of (c, r) \<Rightarrow> (s\<lparr>as_control := c\<rparr>, r))"

definition on_events :: "(nat \<Rightarrow> event_log \<Rightarrow> event_log \<times> 'a res) \<Rightarrow> ('s api_store, 'a) eff" where
  "on_events f = storeE (\<lambda>n s. case f n (as_events s) of (l, r) \<Rightarrow> (s\<lparr>as_events := l\<rparr>, r))"

section \<open>Requests\<close>

text \<open>\<open>rq_key_header\<close> is the header \<^verbatim>\<open>Idempotency-Key\<close>. Lengths count ASCII characters.\<close>

record control_request =
  rq_key_header :: "string option"
  rq_body :: pydict

definition invalid_request :: "string \<Rightarrow> string option \<Rightarrow> exn" where
  "invalid_request m op = ApiError ((plain_api_error ''invalid_request'' m 400)\<lparr>ae_operation := op\<rparr>)"

definition idempotency_key_of :: "pyenv \<Rightarrow> control_request \<Rightarrow> string option res" where
  "idempotency_key_of E q =
     (let v = dict_get (rq_body q) ''request_id'';
          v' = (if v = PNone then opt_val PStr (rq_key_header q) else v) in
      if v' = PNone then Ok None
      else let key = py_strip (py_str E v') in
           if key = [] \<or> 200 < length key
           then Raise (invalid_request ''idempotency key must contain 1 to 200 characters'' None)
           else Ok (Some key))"

definition resume_operation :: "pyenv \<Rightarrow> pydict \<Rightarrow> control_operation res" where
  "resume_operation E body =
     (let d = dict_get body ''decision'';
          d' = (if d = PNone \<and> map_of body ''approved'' \<noteq> None
                then PStr (if truthy (dict_get body ''approved'') then ''approve'' else ''reject'') else d) in
      if d' = PNone then Ok CtlRESUME
      else let t = lower (py_strip (py_str E d')) in
           if t \<in> {''approve'', ''approved'', ''allow''} then Ok CtlAPPROVE
           else if t \<in> {''reject'', ''rejected'', ''deny''} then Ok CtlREJECT
           else Raise (invalid_request ''decision must be approve or reject'' (Some ''resume'')))"

definition decision_request :: "control_operation \<Rightarrow> string option \<Rightarrow> pydict" where
  "decision_request op invocation =
     [(''decision'', PStr (control_operation_value op)), (''invocation_id'', opt_str invocation)]"

definition control_request_of :: "pyenv \<Rightarrow> control_operation \<Rightarrow> pydict \<Rightarrow> control_row option \<Rightarrow> pydict" where
  "control_request_of E op body existing =
     (if op \<in> {CtlAPPROVE, CtlREJECT}
      then decision_request op
             (case py_optional_str E (dict_get body ''invocation_id'') of
                Some i \<Rightarrow> Some i
              | None \<Rightarrow> (case existing of
                           None \<Rightarrow> None
                         | Some r \<Rightarrow> py_optional_str E (dict_get (ct_request r) ''invocation_id'')))
      else [])"

definition normalize_request :: "pyenv \<Rightarrow> run_state \<Rightarrow> control_operation \<Rightarrow> pydict \<Rightarrow> pydict" where
  "normalize_request E st op request =
     (if op \<notin> {CtlAPPROVE, CtlREJECT} then request
      else decision_request op
             (case py_optional_str E (dict_get request ''invocation_id'') of
                Some i \<Rightarrow> Some i
              | None \<Rightarrow> (case r_interrupt st of None \<Rightarrow> None | Some i \<Rightarrow> i_invocation_id i)))"

text \<open>\<^verbatim>\<open>_replay_operation\<close>: the recorded outcome of an operation.\<close>

definition replay_operation :: "pyenv \<Rightarrow> control_row \<Rightarrow> pydict res" where
  "replay_operation E r =
     (case (ct_status r, ct_result r, ct_error r) of
        (CtlCOMPLETED, Some result, _) \<Rightarrow> Ok result
      | (CtlFAILED, _, Some e) \<Rightarrow> bindR (api_error_from_dict E e) (\<lambda>a. Raise (ApiError a))
      | _ \<Rightarrow> Raise (ApiError
               ((plain_api_error ''operation_in_progress'' ''control operation has not completed'' 409)
                 \<lparr>ae_run_id := Some (ct_run_id r),
                  ae_operation := Some (control_operation_value (ct_operation r))\<rparr>)))"

section \<open>Validation\<close>

definition run_error_of :: "run_state \<Rightarrow> control_operation \<Rightarrow> string \<Rightarrow> string \<Rightarrow> int \<Rightarrow> api_error" where
  "run_error_of st op code m http =
     (plain_api_error code m http)\<lparr>ae_run_id := Some (r_run_id st),
        ae_status := Some (run_status_value (r_status st)),
        ae_operation := Some (control_operation_value op)\<rparr>"

definition children_of :: "'s api_server \<Rightarrow> run_state \<Rightarrow> ('s api_store, run_state list) eff" where
  "children_of A st =
     bindE (readE (\<lambda>s. ap_list A (ap_py A) (r_thread_id st) (as_runs s))) (\<lambda>runs.
     retE (sort_children (filter (\<lambda>c. r_parent_run_id c = Some (r_run_id st)) runs)))"

definition validate_decision :: "control_backend \<Rightarrow> control_table \<Rightarrow> run_state \<Rightarrow> control_operation
    \<Rightarrow> string option \<Rightarrow> unit res" where
  "validate_decision B rows st op invocation =
     (case (r_status st, r_interrupt st) of
        (RunWAITING_APPROVAL, Some i) \<Rightarrow>
          if i_invocation_id i = None \<or> i_invocation_id i = Some []
          then Raise (ApiError (run_error_of st op ''interrupt_not_found'' ''run has no approvable invocation'' 404))
          else guardR (invocation = i_invocation_id i)
            (ApiError (run_error_of st op ''interrupt_not_found''
              ''invocation does not match the pending interrupt'' 404))
      | _ \<Rightarrow>
          guardR (case invocation of
                    None \<Rightarrow> True
                  | Some i \<Rightarrow> i = [] \<or> cb_resolution B rows (r_run_id st) i = None)
            (ApiError (run_error_of st op ''interrupt_already_resolved'' ''interrupt was already resolved'' 409)))"

definition operation_allowed :: "run_state \<Rightarrow> control_operation \<Rightarrow> unit res" where
  "operation_allowed st op =
     guardR (op \<in> set (allowed_operations (r_status st)))
       (ApiError (run_error_of st op ''invalid_run_transition''
          (control_operation_value op @ '' is not allowed while run is '' @ run_status_value (r_status st)) 409))"

definition validate_operation :: "'s api_server \<Rightarrow> run_state \<Rightarrow> control_operation \<Rightarrow> pydict
    \<Rightarrow> ('s api_store, unit) eff" where
  "validate_operation A st op request =
     (if op = CtlREQUEUE
      then liftR (guardR (requeueable st) (ApiError (run_error_of st op ''invalid_run_transition''
             ''only a delivery-exhausted Run may be manually requeued'' 409)))
      else
        bindE (if op \<in> {CtlAPPROVE, CtlREJECT}
               then readE (\<lambda>s. validate_decision (ap_control A) (as_control s) st op
                      (py_optional_str (ap_py A) (dict_get request ''invocation_id'')))
               else retE ()) (\<lambda>_.
        bindE (liftR (operation_allowed st op)) (\<lambda>_.
        if r_status st = RunWAITING_CHILD \<and> op = CtlRESUME
        then bindE (children_of A st) (\<lambda>cs.
             let active = map r_run_id (filter (\<lambda>c. \<not> run_finished c) cs) in
             if active \<noteq> [] \<and> r_execution_strategy st \<notin> {''multi_agent'', ''plan_execute''}
             then raiseE (ApiError ((run_error_of st op ''invalid_run_transition''
                    ''parent cannot resume while child runs are non-terminal'' 409)
                    \<lparr>ae_details := [(''active_child_run_ids'', PList (map PStr active))]\<rparr>))
             else retE ())
        else retE ())))"

section \<open>Performing an operation\<close>

definition load_api :: "'s api_server \<Rightarrow> string \<Rightarrow> ('s api_store, run_state option) eff" where
  "load_api A i = readE (\<lambda>s. ap_load A (ap_py A) i (as_runs s))"

definition run_view_of :: "'s api_server \<Rightarrow> run_state \<Rightarrow> ('s api_store, pydict) eff" where
  "run_view_of A st =
     bindE (children_of A st) (\<lambda>cs.
     bindE (case r_parent_run_id st of
              None \<Rightarrow> retE (Some st) | Some i \<Rightarrow> if i = [] then retE (Some st) else load_api A i) (\<lambda>parent.
     bindE (liftR (case parent of
              None \<Rightarrow> Ok [] | Some p \<Rightarrow> assignment_metadata (ap_py A) (ap_orchestration A) p)) (\<lambda>metadata.
     liftR (run_view st cs metadata))))"

definition requeue_failed_run :: "'s api_server \<Rightarrow> run_state \<Rightarrow> ('s api_store, pydict) eff" where
  "requeue_failed_run A st =
     (case (ap_requeue A, ap_postgres A) of
        (Some requeue, True) \<Rightarrow>
          bindE (on_runs (storeE (\<lambda>n. requeue (api_env A n) n (r_run_id st)))) (\<lambda>requeued.
          bindE (on_events (\<lambda>n. ap_append A (api_env A n) (r_thread_id requeued) ''run.requeued''
             [(''run_id'', PStr (r_run_id requeued)), (''turn_id'', PStr (r_turn_id requeued)),
              (''previous_delivery_attempt'', PInt (r_delivery_attempt st)),
              (''delivery_attempt'', PInt (r_delivery_attempt requeued))])) (\<lambda>_.
          bindE (run_view_of A requeued) (\<lambda>view.
          retE (dict_set ''queued'' (PBool True) view))))
      | _ \<Rightarrow> raiseE (ApiError ((plain_api_error ''requeue_requires_postgres''
               ''failure-queue requeue requires PostgreSQL storage'' 422)
               \<lparr>ae_run_id := Some (r_run_id st), ae_operation := Some (control_operation_value CtlREQUEUE)\<rparr>)))"

definition cancel_run :: "'s api_server \<Rightarrow> run_state \<Rightarrow> ('s api_store, pydict) eff" where
  "cancel_run A st =
     (if r_status st = RunCANCELLED then run_view_of A st
      else
        bindE (liftR (ap_engine A st)) (\<lambda>durable.
        if \<not> durable
        then raiseE (ApiError ((plain_api_error ''invalid_request''
               ''custom engine does not support durable cancellation'' 422)
               \<lparr>ae_run_id := Some (r_run_id st), ae_operation := Some (control_operation_value CtlCANCEL)\<rparr>))
        else
          bindE (on_runs (cancel_durable (ap_runtime A (r_execution_strategy st)) (r_run_id st)))
            (run_view_of A)))"

definition queue_distributed_resume :: "'s api_server \<Rightarrow> run_state \<Rightarrow> string option
    \<Rightarrow> ('s api_store, pydict) eff" where
  "queue_distributed_resume A st decision =
     bindE (liftR (ap_engine A st)) (\<lambda>durable.
     if \<not> durable then raiseE (ValueError ''custom engine does not support durable resume'')
     else if \<not> ap_postgres A then raiseE (ValueError ''distributed Run resume requires PostgreSQL storage'')
     else
       bindE (on_runs (queue_resume (ap_runtime A (r_execution_strategy st)) (ap_mark_runnable A)
                (r_run_id st) decision)) (\<lambda>queued.
       bindE (run_view_of A queued) (\<lambda>view.
       retE (dict_set ''queued'' (PBool (\<not> run_finished queued)) view))))"

definition decision_of :: "control_operation \<Rightarrow> string option" where
  "decision_of op = (if op \<in> {CtlAPPROVE, CtlREJECT} then Some (control_operation_value op) else None)"

definition perform_operation :: "'s api_server \<Rightarrow> run_state \<Rightarrow> control_operation
    \<Rightarrow> ('s api_store, pydict) eff" where
  "perform_operation A st op =
     (if op = CtlREQUEUE then requeue_failed_run A st
      else if op = CtlCANCEL then cancel_run A st
      else if ap_distributed A then queue_distributed_resume A st (decision_of op)
      else on_runs (ap_resume A (r_run_id st) (decision_of op)))"

section \<open>The request\<close>

text \<open>The three \<^verbatim>\<open>except\<close> clauses: the structured error of an exception, if it has one.\<close>

definition control_error :: "pyenv \<Rightarrow> string \<Rightarrow> control_operation \<Rightarrow> run_state option \<Rightarrow> exn
    \<Rightarrow> api_error option" where
  "control_error E run op st e =
     (case e of
        ApiError a \<Rightarrow> Some a
      | CheckpointConflictError m \<Rightarrow>
          Some ((plain_api_error ''checkpoint_conflict'' (api_safe_error E e) 409)
            \<lparr>ae_run_id := Some run, ae_operation := Some (control_operation_value op)\<rparr>)
      | _ \<Rightarrow>
          if value_error e
          then Some ((plain_api_error ''invalid_run_transition'' (api_safe_error E e) 409)
            \<lparr>ae_run_id := Some run, ae_status := map_option (\<lambda>s. run_status_value (r_status s)) st,
             ae_operation := Some (control_operation_value op)\<rparr>)
          else None)"

definition begin_operation :: "'s api_server \<Rightarrow> string \<Rightarrow> string \<Rightarrow> control_operation \<Rightarrow> pydict
    \<Rightarrow> ('s api_store, control_row \<times> bool) eff" where
  "begin_operation A run key op request =
     on_control (\<lambda>n. cb_begin (ap_control A) (ap_fresh A n) (now_text (api_env A n)) run key op request)"

text \<open>The body of the \<^verbatim>\<open>try\<close> after the record exists, and its handlers.\<close>

definition complete_operation :: "'s api_server \<Rightarrow> run_state \<Rightarrow> control_operation \<Rightarrow> pydict
    \<Rightarrow> control_row \<Rightarrow> ('s api_store, pydict) eff" where
  "complete_operation A st op request r =
     bindE (validate_operation A st op request) (\<lambda>_.
     bindE (perform_operation A st op) (\<lambda>result.
     bindE (on_control (\<lambda>n. cb_complete (ap_control A) (now_text (api_env A n)) (ct_operation_id r) result)) (\<lambda>_.
     retE result)))"

definition record_failure :: "'s api_server \<Rightarrow> string \<Rightarrow> control_operation \<Rightarrow> run_state option
    \<Rightarrow> control_row option \<Rightarrow> exn \<Rightarrow> ('s api_store, 'a) eff" where
  "record_failure A run op st r e =
     (case control_error (ap_py A) run op st e of
        None \<Rightarrow> raiseE e
      | Some a \<Rightarrow>
          (case r of
             None \<Rightarrow> raiseE (ApiError a)
           | Some q \<Rightarrow>
               bindE (on_control (\<lambda>n. cb_fail (ap_control A) (now_text (api_env A n)) (ct_operation_id q) a)) (\<lambda>_.
               raiseE (ApiError a))))"

definition begun_operation :: "'s api_server \<Rightarrow> string \<Rightarrow> control_operation \<Rightarrow> run_state \<Rightarrow> pydict
    \<Rightarrow> string \<Rightarrow> ('s api_store, pydict) eff" where
  "begun_operation A run op st request key =
     bindE (catchE (begin_operation A run key op request) (record_failure A run op (Some st) None))
       (\<lambda>(r, created). catchE (complete_operation A st op request r) (record_failure A run op (Some st) (Some r)))"

text \<open>A request without a key gets one of its own.\<close>

definition operation_key :: "'s api_server \<Rightarrow> string option \<Rightarrow> ('s api_store, string) eff" where
  "operation_key A key = (case key of
       Some k \<Rightarrow> retE k | None \<Rightarrow> bindE tickE (\<lambda>n. retE (''implicit_'' @ ap_fresh A n)))"

text \<open>What runs while the lock of the run is held.\<close>

definition locked_operation :: "'s api_server \<Rightarrow> string \<Rightarrow> string option \<Rightarrow> control_operation \<Rightarrow> pydict
    \<Rightarrow> ('s api_store, pydict) eff" where
  "locked_operation A run key op request =
     bindE (catchE
         (bindE (load_api A run) (\<lambda>st.
          case st of
            None \<Rightarrow> raiseE (ApiError ((plain_api_error ''run_not_found'' ''run not found'' 404)\<lparr>ae_run_id := Some run\<rparr>))
          | Some s \<Rightarrow> retE s))
         (record_failure A run op None None)) (\<lambda>st.
     bindE (operation_key A key)
       (begun_operation A run op st (normalize_request (ap_py A) st op request)))"

text \<open>
  The whole handler. \<open>busy\<close> says whether another handler holds the lock of the run (the cancel
  lock, for a cancellation).
\<close>

definition known_or_locked :: "'s api_server \<Rightarrow> string \<Rightarrow> bool \<Rightarrow> string option \<Rightarrow> control_operation
    \<Rightarrow> pydict \<Rightarrow> control_row option \<Rightarrow> ('s api_store, pydict) eff" where
  "known_or_locked A run busy key op body existing =
     (let request = control_request_of (ap_py A) op body existing in
      case (existing, key) of
        (Some _, Some k) \<Rightarrow>
          bindE (begin_operation A run k op request) (\<lambda>(r, created). liftR (replay_operation (ap_py A) r))
      | _ \<Rightarrow>
          if busy
          then raiseE (ApiError ((plain_api_error ''operation_in_progress''
                 ''another control operation is advancing this run'' 409)
                 \<lparr>ae_run_id := Some run, ae_operation := Some (control_operation_value op)\<rparr>))
          else locked_operation A run key op request)"

definition execute_control :: "'s api_server \<Rightarrow> string \<Rightarrow> control_request \<Rightarrow> control_operation option \<Rightarrow> bool
    \<Rightarrow> ('s api_store, pydict) eff" where
  "execute_control A run q requested busy =
     bindE (liftR (idempotency_key_of (ap_py A) q)) (\<lambda>key.
     bindE (readE (\<lambda>s. Ok (case key of
              None \<Rightarrow> None | Some k \<Rightarrow> cb_lookup (ap_control A) (as_control s) run k))) (\<lambda>existing.
     bindE (liftR (case requested of
              Some op \<Rightarrow> Ok op | None \<Rightarrow> resume_operation (ap_py A) (rq_body q))) (\<lambda>op.
     known_or_locked A run busy key op (rq_body q) existing)))"

end
