(* ===== verification/ControlHistory.thy ===== *)
theory ControlHistory
  imports ControlApi ToolLaws
begin

text \<open>
  What a control request does to the records of other keys and of its own, over any store that
  satisfies the contract \<open>control_store\<close>.
\<close>

section \<open>Effects outside the table\<close>

definition table_only :: "('s api_store \<Rightarrow> (string \<times> int) list \<Rightarrow> bool) \<Rightarrow> bool" where
  "table_only J \<longleftrightarrow> (\<forall>s c c' x l. J s c \<longrightarrow> J (s\<lparr>as_runs := x\<rparr>) c' \<and> J (s\<lparr>as_events := l\<rparr>) c')"

lemma keeps_on_runs: "table_only J \<Longrightarrow> keeps J (on_runs m)"
  by (auto simp: keeps_def triple_def on_world_def on_runs_def table_only_def split: prod.splits outcome.splits)

lemma keeps_on_events: "table_only J \<Longrightarrow> keeps J (on_events f)"
  unfolding on_events_def by (rule keeps_store) (auto simp: table_only_def split: prod.splits)

lemma keeps_children: "keeps J (children_of A st)"
  unfolding children_of_def by (intro keeps_intros)

lemma keeps_load_api: "keeps J (load_api A i)"
  unfolding load_api_def by (intro keeps_intros)

lemma keeps_view: "keeps J (run_view_of A st)"
  unfolding run_view_of_def
  by (intro keeps_intros keeps_children) (auto split: option.splits intro: keeps_intros keeps_load_api)

lemma keeps_validate_operation: "keeps J (validate_operation A st op request)"
  unfolding validate_operation_def Let_def
  by (auto intro!: keeps_intros keeps_children)

lemma keeps_perform: "table_only J \<Longrightarrow> keeps J (perform_operation A st op)"
  unfolding perform_operation_def requeue_failed_run_def cancel_run_def queue_distributed_resume_def
  by (auto intro!: keeps_intros keeps_on_runs keeps_on_events keeps_view split: option.splits bool.splits)

lemma keeps_on_control:
  assumes "\<And>n s t r c. J s c \<Longrightarrow> f n (as_control s) = (t, r) \<Longrightarrow> J (s\<lparr>as_control := t\<rparr>) c"
  shows "keeps J (on_control f)"
  unfolding on_control_def by (rule keeps_store) (auto split: prod.splits intro: assms)

section \<open>Records of other keys\<close>

definition recorded :: "control_backend \<Rightarrow> string \<Rightarrow> string \<Rightarrow> control_row \<Rightarrow> 's api_store
    \<Rightarrow> (string \<times> int) list \<Rightarrow> bool" where
  "recorded B run key r s c \<longleftrightarrow> control_ok (as_control s) \<and> cb_lookup B (as_control s) run key = Some r"

text \<open>Besides, the operation \<open>i\<close> is the one recorded under another key.\<close>

definition works_on :: "control_backend \<Rightarrow> string \<Rightarrow> string \<Rightarrow> control_row \<Rightarrow> string \<Rightarrow> string \<Rightarrow> string
    \<Rightarrow> 's api_store \<Rightarrow> (string \<times> int) list \<Rightarrow> bool" where
  "works_on B run key r run' key' i s c \<longleftrightarrow> recorded B run key r s c \<and>
     (\<exists>q. cb_lookup B (as_control s) run' key' = Some q \<and> ct_operation_id q = i)"

lemma table_only_recorded [simp]:
  "table_only (recorded B run key r)" "table_only (works_on B run key r run' key' i)"
  by (auto simp: table_only_def recorded_def works_on_def)

text \<open>A request under a recorded key changes nothing and is answered from the record.\<close>

definition recorded_answer :: "(pydict \<Rightarrow> string) \<Rightarrow> pyenv \<Rightarrow> string \<Rightarrow> control_row \<Rightarrow> control_operation \<Rightarrow> pydict \<Rightarrow> pydict res" where
  "recorded_answer D E run r op body =
     bindR (operation_request_hash D op (control_request_of E op body (Some r))) (\<lambda>h.
     bindR (known_operation r run op h) (\<lambda>_. replay_operation E r))"

text \<open>The record a request begins with.\<close>

definition first_record :: "(pydict \<Rightarrow> string) \<Rightarrow> string \<Rightarrow> string \<Rightarrow> control_operation \<Rightarrow> pydict \<Rightarrow> control_row \<Rightarrow> bool" where
  "first_record D run key op request q \<longleftrightarrow> (\<exists>fresh now h c. operation_request_hash D op request = Ok h \<and>
     canon_dict request = Ok c \<and> q = new_control_row fresh now run key op h c)"

definition requested_operation :: "pyenv \<Rightarrow> control_request \<Rightarrow> control_operation option \<Rightarrow> control_operation res" where
  "requested_operation E q requested =
     (case requested of Some op \<Rightarrow> Ok op | None \<Rightarrow> resume_operation E (rq_body q))"

text \<open>A repeated request finds the request of its record.\<close>

lemma decision_request_get [simp]:
  "dict_get (decision_request op i) ''invocation_id'' = opt_val PStr i"
  "distinct (map fst (decision_request op i))"
  "canon_dict (decision_request op i) = Ok (decision_request op i)"
  by (simp_all add: decision_request_def opt_str_def canon_dict_def)

lemma canon_dict_Nil [simp]: "canon_dict [] = Ok []"
  by (simp add: canon_dict_def)

lemma py_optional_str_None: "py_optional_str E PNone = None"
  by (simp add: py_optional_str_def)

lemma same_request:
  assumes "canon_dict (normalize_request E st op (control_request_of E op body None)) = Ok (ct_request r)"
  shows "control_request_of E op body (Some r) = normalize_request E st op (control_request_of E op body None)"
  using assms
  by (auto simp: control_request_of_def normalize_request_def py_optional_str_None split: option.splits if_splits
      dest!: sym[of _ "ct_request r"])

lemma recorded_answer_first:
  assumes "first_record D run key op (normalize_request E st op (control_request_of E op body None)) q"
    and "ct_operation r = ct_operation q" "ct_request_hash r = ct_request_hash q" "ct_request r = ct_request q"
  shows "recorded_answer D E run r op body = replay_operation E r"
proof -
  from assms(1) obtain fresh now h c where
    h: "operation_request_hash D op (normalize_request E st op (control_request_of E op body None)) = Ok h"
    and c: "canon_dict (normalize_request E st op (control_request_of E op body None)) = Ok c"
    and q: "q = new_control_row fresh now run key op h c" by (auto simp: first_record_def)
  from c q assms(4) have "canon_dict (normalize_request E st op (control_request_of E op body None)) = Ok (ct_request r)"
    by (simp add: new_control_row_def)
  with same_request[OF this] h q assms(2,3) show ?thesis
    by (simp add: recorded_answer_def known_operation_def new_control_row_def)
qed

context control_store begin

lemma keeps_complete:
  assumes "(run', key') \<noteq> (run, key)"
  shows "keeps (works_on B run key r run' key' i) (on_control (\<lambda>n. cb_complete B (now n) i result))"
proof (rule keeps_on_control)
  fix n and s :: "'s api_store" and t q c
  assume J: "works_on B run key r run' key' i s c" and step: "cb_complete B (now n) i result (as_control s) = (t, q)"
  then obtain p where p: "cb_lookup B (as_control s) run' key' = Some p" "ct_operation_id p = i"
    by (auto simp: works_on_def)
  show "works_on B run key r run' key' i (s\<lparr>as_control := t\<rparr>) c"
  proof (cases "canon_dict result")
    case (Inl e)
    with complete_unserializable step have "t = as_control s" by (metis prod.inject)
    with J show ?thesis by simp
  next
    case (Inr d)
    from complete_known[OF _ p(1) this, of "now n"] step p(2) J assms show ?thesis
      by (auto simp: works_on_def recorded_def completed_row_def)
  qed
qed

lemma keeps_fail:
  assumes "(run', key') \<noteq> (run, key)"
  shows "keeps (works_on B run key r run' key' i) (on_control (\<lambda>n. cb_fail B (now n) i a))"
proof (rule keeps_on_control)
  fix n and s :: "'s api_store" and t q c
  assume J: "works_on B run key r run' key' i s c" and step: "cb_fail B (now n) i a (as_control s) = (t, q)"
  then obtain p where p: "cb_lookup B (as_control s) run' key' = Some p" "ct_operation_id p = i"
    by (auto simp: works_on_def)
  show "works_on B run key r run' key' i (s\<lparr>as_control := t\<rparr>) c"
  proof (cases "canon_dict (stored_error a)")
    case (Inl e)
    with fail_unserializable step have "t = as_control s" by (metis prod.inject)
    with J show ?thesis by simp
  next
    case (Inr d)
    from fail_known[OF _ p(1) this, of "now n"] step p(2) J assms show ?thesis
      by (auto simp: works_on_def recorded_def failed_row_def)
  qed
qed

lemma keeps_record_failure:
  assumes "(run', key') \<noteq> (run, key)" "ap_control A = B"
  shows "keeps (works_on B run key r run' key' (ct_operation_id q)) (record_failure A run' op st (Some q) e)"
    "keeps J (record_failure A run' op st None e)"
  unfolding record_failure_def assms(2)
  by (auto intro!: keeps_intros keeps_fail[OF assms(1)] split: option.splits)

lemma keeps_complete_operation:
  assumes "(run', key') \<noteq> (run, key)" "ap_control A = B"
  shows "keeps (works_on B run key r run' key' (ct_operation_id q)) (complete_operation A st op request q)"
  unfolding complete_operation_def assms(2)
  by (intro keeps_intros keeps_validate_operation keeps_perform keeps_complete[OF assms(1)]) simp

text \<open>What \<^verbatim>\<open>begin\<close> returns is recorded under its key, and no other record changes.\<close>

lemma begin_step:
  assumes "control_ok s" "cb_begin B fresh now run' key' op request s = (t, Ok (q, created))"
  shows "control_ok t \<and> (\<exists>p. cb_lookup B t run' key' = Some p \<and> ct_operation_id p = ct_operation_id q) \<and>
    (\<forall>run key. (run, key) \<noteq> (run', key') \<longrightarrow> cb_lookup B t run key = cb_lookup B s run key) \<and>
    (\<forall>p. cb_lookup B s run' key' = Some p \<longrightarrow> t = s \<and> q = p \<and> \<not> created) \<and>
    (cb_lookup B s run' key' = None \<longrightarrow> created \<and> (\<exists>h c. operation_request_hash D op request = Ok h \<and>
       canon_dict request = Ok c \<and> q = new_control_row fresh now run' key' op h request \<and>
       cb_lookup B t run' key' = Some (new_control_row fresh now run' key' op h c)))"
proof -
  obtain h where h: "operation_request_hash D op request = Ok h"
  proof (cases "operation_request_hash D op request")
    case (Inl e)
    from begin_unhashable[OF this] assms(2) show ?thesis by simp
  qed
  then obtain c where c: "canon_dict request = Ok c" using hashed_request by blast
  show ?thesis
  proof (cases "cb_lookup B s run' key'")
    case (Some p)
    have "t = s \<and> q = p \<and> \<not> created"
      using begin_known[OF assms(1) Some h, of fresh now] assms(2)
      by (simp add: known_operation_def split: if_splits)
    with assms(1) Some show ?thesis by simp
  next
    case None
    have "fresh \<notin> set (map ct_operation_id s)"
    proof
      assume "fresh \<in> set (map ct_operation_id s)"
      from begin_used[OF None this, of now op request] assms(2) show False by simp
    qed
    from begin_new[OF assms(1) None h c this, of now] obtain s'
      where s': "cb_begin B fresh now run' key' op request s =
          (s', Ok (new_control_row fresh now run' key' op h request, True))" "control_ok s'"
        "\<forall>run'' key''. cb_lookup B s' run'' key'' = (if run'' = run' \<and> key'' = key'
           then Some (new_control_row fresh now run' key' op h c) else cb_lookup B s run'' key'')"
      by (elim exE conjE)
    with assms(2) have "t = s'" "q = new_control_row fresh now run' key' op h request" "created" by simp_all
    with s'(2,3) None h c show ?thesis by (simp add: exI[of _ h])
  qed
qed

lemma triple_begin:
  assumes "(run', key') \<noteq> (run, key)" "ap_control A = B"
  shows "triple (on_world (recorded B run key r)) (begin_operation A run' key' op request)
    (\<lambda>(q, created). on_world (works_on B run key r run' key' (ct_operation_id q)))
    (on_world (recorded B run key r))"
  unfolding begin_operation_def on_control_def assms(2)
proof (rule triple_store)
  fix w :: "'s api_store world" and n s and x :: "(control_row \<times> bool) res"
  assume J: "on_world (recorded B run key r) w"
    and step: "(case cb_begin B (ap_fresh A n) (now_text (api_env A n)) run' key' op request (as_control (w_store w))
      of (c, r) \<Rightarrow> ((w_store w)\<lparr>as_control := c\<rparr>, r)) = (s, x)"
  obtain t where t: "cb_begin B (ap_fresh A n) (now_text (api_env A n)) run' key' op request
      (as_control (w_store w)) = (t, x)" and s: "s = (w_store w)\<lparr>as_control := t\<rparr>"
    using step by (auto split: prod.splits)
  show "case x of Inl e \<Rightarrow> on_world (recorded B run key r) (w\<lparr>w_tick := Suc (w_tick w), w_store := s\<rparr>)
    | Inr a \<Rightarrow> (case a of (q, created) \<Rightarrow> on_world (works_on B run key r run' key' (ct_operation_id q)))
        (w\<lparr>w_tick := Suc (w_tick w), w_store := s\<rparr>)"
  proof (cases x)
    case (Inl e)
    with begin_error t s have "s = w_store w" by fastforce
    with J Inl show ?thesis by (simp add: on_world_def)
  next
    case (Inr a)
    obtain q created where a: "a = (q, created)" by fastforce
    from J have ok: "control_ok (as_control (w_store w))" by (simp add: on_world_def recorded_def)
    from begin_step[OF ok t[unfolded Inr a]] J assms(1) show ?thesis
      by (auto simp: Inr a on_world_def works_on_def recorded_def s)
  qed
qed simp_all

lemma triple_record_failure_None: "triple P (record_failure A run' op st None e) Q P"
  by (auto simp: record_failure_def triple_def raiseE_def split: option.splits)

lemma keeps_begun:
  assumes "(run', key') \<noteq> (run, key)" "ap_control A = B"
  shows "keeps (recorded B run key r) (begun_operation A run' op st request key')"
  unfolding keeps_def begun_operation_def
proof (rule triple_bind)
  show "triple (on_world (recorded B run key r))
      (catchE (begin_operation A run' key' op request) (record_failure A run' op (Some st) None))
      (\<lambda>(q, created). on_world (works_on B run key r run' key' (ct_operation_id q)))
      (on_world (recorded B run key r))"
    by (rule triple_catch[OF triple_begin[OF assms] triple_record_failure_None])
next
  fix x :: "control_row \<times> bool"
  obtain q created where x: "x = (q, created)" by fastforce
  have "keeps (works_on B run key r run' key' (ct_operation_id q))
      (catchE (complete_operation A st op request q) (record_failure A run' op (Some st) (Some q)))"
    by (intro keeps_catch keeps_complete_operation keeps_record_failure assms)
  then show "triple ((\<lambda>(q, created). on_world (works_on B run key r run' key' (ct_operation_id q))) x)
      ((\<lambda>(q, created). catchE (complete_operation A st op request q) (record_failure A run' op (Some st) (Some q))) x)
      (\<lambda>_. on_world (recorded B run key r)) (on_world (recorded B run key r))"
    unfolding keeps_def x prod.case by (rule triple_weaken) (auto simp: on_world_def works_on_def)
qed

lemma keeps_locked:
  assumes "ap_control A = B" "\<And>k. key' = Some k \<Longrightarrow> (run', k) \<noteq> (run, key)"
    and "\<And>n. key \<noteq> ''implicit_'' @ ap_fresh A n"
  shows "keeps (recorded B run key r) (locked_operation A run' key' op request)"
proof -
  let ?J = "recorded B run key r"
  have key: "triple (on_world ?J) (operation_key A key')
      (\<lambda>k w. on_world ?J w \<and> (run', k) \<noteq> (run, key)) (on_world ?J)"
    using assms(2,3) by (cases key') (auto simp: operation_key_def triple_def bindE_def tickE_def retE_def)
  have "keeps ?J (bindE (operation_key A key') (begun_operation A run' op st q))" for st q
    unfolding keeps_def
  proof (rule triple_bind[OF key])
    fix k
    show "triple (\<lambda>w. on_world ?J w \<and> (run', k) \<noteq> (run, key)) (begun_operation A run' op st q k)
        (\<lambda>_. on_world ?J) (on_world ?J)"
    proof (cases "(run', k) = (run, key)")
      case False
      from keeps_begun[OF False assms(1)] show ?thesis
        unfolding keeps_def by (rule triple_weaken) auto
    qed (simp add: triple_def)
  qed
  note body = this
  show ?thesis
    unfolding locked_operation_def
  proof (rule keeps_bind[OF _ body])
    show "keeps ?J (catchE (bindE (load_api A run') (\<lambda>st. case st of
          None \<Rightarrow> raiseE (ApiError ((plain_api_error ''run_not_found'' ''run not found'' 404)\<lparr>ae_run_id := Some run'\<rparr>))
        | Some s \<Rightarrow> retE s)) (record_failure A run' op None None))"
      by (intro keeps_bind keeps_catch keeps_load_api)
        (auto split: option.split intro!: keeps_intros simp: record_failure_def)
  qed
qed

lemma begin_known_key:
  assumes "recorded B run key r (w_store w) c" "ap_control A = B"
    and "begin_operation A run key op request w = (w', out)"
  shows "w_store w' = w_store w \<and> (w_lives w = None \<longrightarrow> out = (case operation_request_hash D op request of
      Inl e \<Rightarrow> Failed e
    | Inr h \<Rightarrow> (case known_operation r run op h of Inl e \<Rightarrow> Failed e | Inr x \<Rightarrow> Done x)) \<and> w_lives w' = None) \<and>
    (\<forall>x. out = Done x \<longrightarrow> x = (r, False))"
proof -
  from assms(1) have ok: "control_ok (as_control (w_store w))"
    and r: "cb_lookup B (as_control (w_store w)) run key = Some r" by (simp_all add: recorded_def)
  have step: "cb_begin B fresh now run key op request (as_control (w_store w)) = (as_control (w_store w),
      bindR (operation_request_hash D op request) (known_operation r run op))" for fresh now
    using begin_known[OF ok r, of op request] begin_unhashable[of op request]
    by (cases "operation_request_hash D op request") simp_all
  show ?thesis
    using assms(3) unfolding begin_operation_def on_control_def assms(2)
    by (cases "operation_request_hash D op request"; cases "w_lives w")
      (auto simp: storeE_def effectE_def bindE_def tickE_def step retE_def raiseE_def known_operation_def
        split: nat.splits if_splits)
qed

lemma known_request:
  assumes r: "recorded B run key r (w_store w) c" and A: "ap_control A = B"
    and key: "idempotency_key_of (ap_py A) q = Ok (Some key)"
    and run: "execute_control A run q requested busy w = (w', out)"
  shows "w_store w' = w_store w \<and> (w_lives w = None \<longrightarrow> out =
    (case requested_operation (ap_py A) q requested of
       Inl e \<Rightarrow> Failed e
     | Inr op \<Rightarrow> (case recorded_answer D (ap_py A) run r op (rq_body q) of
                   Inl e \<Rightarrow> Failed e | Inr x \<Rightarrow> Done x)))"
proof -
  have existing: "readE (\<lambda>s. Ok (cb_lookup B (as_control s) run key)) w = (w, Done (Some r))"
    using r by (simp add: readE_def recorded_def retE_def)
  show ?thesis
  proof (cases "requested_operation (ap_py A) q requested")
    case (Inl e)
    with run existing show ?thesis
      unfolding execute_control_def key A requested_operation_def by (simp add: bindE_def raiseE_def)
  next
    case (Inr op)
    let ?request = "control_request_of (ap_py A) op (rq_body q) (Some r)"
    obtain w1 out1 where b: "begin_operation A run key op ?request w = (w1, out1)" by fastforce
    have run': "bindE (begin_operation A run key op ?request)
        (\<lambda>(r, created). liftR (replay_operation (ap_py A) r)) w = (w', out)"
      using run existing Inr unfolding execute_control_def key A known_or_locked_def Let_def requested_operation_def
      by (simp add: bindE_def retE_def)
    note known = begin_known_key[OF r A b]
    show ?thesis
    proof (cases out1)
      case (Done x)
      with known have x: "x = (r, False)" "w_store w1 = w_store w" by simp_all
      with run' b Done have "w' = w1 \<and> out = (case replay_operation (ap_py A) r of Inl e \<Rightarrow> Failed e | Inr a \<Rightarrow> Done a)"
        by (cases "replay_operation (ap_py A) r") (auto simp: bindE_def retE_def raiseE_def)
      with known x Inr Done show ?thesis
        by (auto simp: recorded_answer_def split: sum.splits)
    qed (use run' b known Inr in
      \<open>auto simp: bindE_def recorded_answer_def split: sum.splits\<close>)
  qed
qed

section \<open>The record of a first request\<close>

lemma triple_raises: "triple P (record_failure A run op st r e) (\<lambda>_ _. False) (\<lambda>_. True)"
  by (auto simp: record_failure_def triple_def bindE_def raiseE_def split: option.splits prod.splits outcome.splits)

lemma triple_complete:
  assumes "ap_control A = B" "ct_operation_id p = ct_operation_id q"
  shows "triple (on_world (recorded B run key q)) (complete_operation A st op request p)
    (\<lambda>result. on_world (\<lambda>s c. \<exists>d now. canon_dict result = Ok d \<and> recorded B run key (completed_row d now q) s c))
    (on_world (recorded B run key q))"
  unfolding complete_operation_def assms(1)
proof (rule triple_bind)
  show "triple (on_world (recorded B run key q)) (validate_operation A st op request)
      (\<lambda>_. on_world (recorded B run key q)) (on_world (recorded B run key q))"
    using keeps_validate_operation by (simp add: keeps_def)
next
  show "triple (on_world (recorded B run key q)) (bindE (perform_operation A st op) (\<lambda>result.
      bindE (on_control (\<lambda>n. cb_complete B (now_text (api_env A n)) (ct_operation_id p) result)) (\<lambda>_. retE result)))
    (\<lambda>result. on_world (\<lambda>s c. \<exists>d now. canon_dict result = Ok d \<and> recorded B run key (completed_row d now q) s c))
    (on_world (recorded B run key q))"
  proof (rule triple_bind)
    show "triple (on_world (recorded B run key q)) (perform_operation A st op)
        (\<lambda>_. on_world (recorded B run key q)) (on_world (recorded B run key q))"
      by (rule keeps_perform[unfolded keeps_def, OF table_only_recorded(1)])
  next
    fix result
    let ?done = "on_world (\<lambda>s c. \<exists>d now. canon_dict result = Ok d \<and> recorded B run key (completed_row d now q) s c)"
    have "triple (on_world (recorded B run key q))
        (on_control (\<lambda>n. cb_complete B (now_text (api_env A n)) (ct_operation_id p) result))
        (\<lambda>_. ?done) (on_world (recorded B run key q))"
      unfolding on_control_def
    proof (rule triple_store)
      fix w :: "'s api_store world" and n s x
      assume J: "on_world (recorded B run key q) w"
        and step: "(case cb_complete B (now_text (api_env A n)) (ct_operation_id p) result (as_control (w_store w)) of
          (c, r) \<Rightarrow> ((w_store w)\<lparr>as_control := c\<rparr>, r)) = (s, x)"
      from J have ok: "control_ok (as_control (w_store w))"
        "cb_lookup B (as_control (w_store w)) run key = Some q" by (simp_all add: on_world_def recorded_def)
      show "case x of Inl e \<Rightarrow> on_world (recorded B run key q) (w\<lparr>w_tick := Suc (w_tick w), w_store := s\<rparr>)
        | Inr a \<Rightarrow> ?done (w\<lparr>w_tick := Suc (w_tick w), w_store := s\<rparr>)"
      proof (cases "canon_dict result")
        case (Inl e)
        with complete_unserializable step have "x = Inl e" "s = w_store w" by auto
        with J show ?thesis by (simp add: on_world_def)
      next
        case (Inr d)
        from complete_known[OF ok this, of "now_text (api_env A n)"] step assms(2) Inr show ?thesis
          by (auto simp: on_world_def recorded_def intro!: exI[of _ "now_text (api_env A n)"])
      qed
    qed simp_all
    then show "triple (on_world (recorded B run key q))
        (bindE (on_control (\<lambda>n. cb_complete B (now_text (api_env A n)) (ct_operation_id p) result)) (\<lambda>_. retE result))
        (\<lambda>result. on_world (\<lambda>s c. \<exists>d now. canon_dict result = Ok d \<and> recorded B run key (completed_row d now q) s c))
        (on_world (recorded B run key q))"
      by (rule triple_bind) (rule triple_ret)
  qed
qed

lemma record_failure_exits:
  assumes r: "recorded B run key q (w_store w) c" and A: "ap_control A = B"
    and p: "ct_operation_id p = ct_operation_id q"
    and run: "record_failure A run' op st (Some p) e w = (w', out)"
  shows "(\<exists>a. out = Failed (ApiError a)) \<or> recorded B run key q (w_store w') c"
proof (cases "control_error (ap_py A) run' op st e")
  case None
  with r run show ?thesis by (simp add: record_failure_def raiseE_def)
next
  case (Some a)
  show ?thesis
  proof (cases "canon_dict (stored_error a)")
    case (Inl x)
    with r run Some fail_unserializable[OF Inl] A show ?thesis
      by (auto simp: record_failure_def on_control_def storeE_def effectE_def bindE_def tickE_def raiseE_def
          split: option.splits nat.splits)
  next
    case (Inr d)
    from r have ok: "control_ok (as_control (w_store w))"
      "cb_lookup B (as_control (w_store w)) run key = Some q" by (simp_all add: recorded_def)
    have "\<exists>t. cb_fail B now (ct_operation_id p) a (as_control (w_store w)) = (t, Ok (failed_row d now q))" for now
      using fail_known[OF ok Inr, of now] p by auto
    then obtain t where "\<And>now. cb_fail B now (ct_operation_id p) a (as_control (w_store w)) = (t now, Ok (failed_row d now q))"
      by metis
    with r run Some A show ?thesis
      by (auto simp: record_failure_def on_control_def storeE_def effectE_def bindE_def tickE_def raiseE_def retE_def
          split: option.splits nat.splits)
  qed
qed

lemma triple_begin_first:
  fixes A :: "'s api_server"
  assumes "ap_control A = B"
  shows "triple (on_world (\<lambda>s c. control_ok (as_control s) \<and> cb_lookup B (as_control s) run key = None))
    (begin_operation A run key op request)
    (\<lambda>(p, created). on_world (\<lambda>s c. \<exists>q. first_record D run key op request q \<and>
       ct_operation_id p = ct_operation_id q \<and> recorded B run key q s c))
    (on_world (\<lambda>s c. control_ok (as_control s) \<and> cb_lookup B (as_control s) run key = None))"
  (is "triple (on_world ?J) _ ?Q _")
  unfolding begin_operation_def on_control_def assms
proof (rule triple_store)
  fix w :: "'s api_store world" and n s and x :: "(control_row \<times> bool) res"
  assume J: "on_world ?J w"
    and step: "(case cb_begin B (ap_fresh A n) (now_text (api_env A n)) run key op request (as_control (w_store w))
      of (c, r) \<Rightarrow> ((w_store w)\<lparr>as_control := c\<rparr>, r)) = (s, x)"
  obtain t where t: "cb_begin B (ap_fresh A n) (now_text (api_env A n)) run key op request
      (as_control (w_store w)) = (t, x)" and s: "s = (w_store w)\<lparr>as_control := t\<rparr>"
    using step by (auto split: prod.splits)
  show "case x of Inl e \<Rightarrow> on_world ?J (w\<lparr>w_tick := Suc (w_tick w), w_store := s\<rparr>)
    | Inr a \<Rightarrow> ?Q a (w\<lparr>w_tick := Suc (w_tick w), w_store := s\<rparr>)"
  proof (cases x)
    case (Inl e)
    with begin_error t s have "s = w_store w" by fastforce
    with J Inl show ?thesis by (simp add: on_world_def)
  next
    case (Inr a)
    obtain p created where a: "a = (p, created)" by fastforce
    from J have ok: "control_ok (as_control (w_store w))" "cb_lookup B (as_control (w_store w)) run key = None"
      by (simp_all add: on_world_def)
    from begin_step[OF ok(1) t[unfolded Inr a]] ok(2) obtain h c where
      "operation_request_hash D op request = Ok h" "canon_dict request = Ok c" "control_ok t"
      "p = new_control_row (ap_fresh A n) (now_text (api_env A n)) run key op h request"
      "cb_lookup B t run key = Some (new_control_row (ap_fresh A n) (now_text (api_env A n)) run key op h c)"
      by auto
    then have "first_record D run key op request (new_control_row (ap_fresh A n) (now_text (api_env A n)) run key op h c) \<and>
        ct_operation_id p = ct_operation_id (new_control_row (ap_fresh A n) (now_text (api_env A n)) run key op h c) \<and>
        recorded B run key (new_control_row (ap_fresh A n) (now_text (api_env A n)) run key op h c) s (w_calls w)"
      by (auto simp: first_record_def recorded_def s)
    then show ?thesis by (auto simp: Inr a on_world_def)
  qed
qed simp_all

text \<open>
  What a first request leaves under its key: a completed record when it returns, and otherwise,
  when no structured error is raised, nothing or a record in progress.
\<close>

lemma begun_outcome:
  assumes A: "ap_control A = B"
    and w: "control_ok (as_control (w_store w))" "cb_lookup B (as_control (w_store w)) run key = None"
    and run: "begun_operation A run op st request key w = (w', out)"
  shows "case out of
      Done result \<Rightarrow> \<exists>q d now. first_record D run key op request q \<and> canon_dict result = Ok d \<and>
        recorded B run key (completed_row d now q) (w_store w') []
    | Failed (ApiError a) \<Rightarrow> True
    | _ \<Rightarrow> cb_lookup B (as_control (w_store w')) run key = None \<or>
        (\<exists>q. first_record D run key op request q \<and> recorded B run key q (w_store w') [])"
proof -
  obtain w1 r1 where b: "begin_operation A run key op request w = (w1, r1)" by fastforce
  note begun = triple_apply[OF triple_begin_first[OF A] _ b]
  show ?thesis
  proof (cases r1)
    case (Done x)
    obtain p created where x: "x = (p, created)" by fastforce
    from begun w Done x obtain q where q: "first_record D run key op request q"
      "ct_operation_id p = ct_operation_id q" "recorded B run key q (w_store w1) []"
      by (auto simp: on_world_def recorded_def)
    obtain w2 r2 where m: "complete_operation A st op request p w1 = (w2, r2)" by fastforce
    have ended: "case r2 of Done result \<Rightarrow> on_world (\<lambda>s c. \<exists>d now. canon_dict result = Ok d \<and>
          recorded B run key (completed_row d now q) s c) w2
        | _ \<Rightarrow> on_world (recorded B run key q) w2"
      by (rule triple_apply[OF triple_complete[OF A q(2)] _ m]) (use q(3) in \<open>simp add: on_world_def recorded_def\<close>)
    have run': "catchE (complete_operation A st op request p) (record_failure A run op (Some st) (Some p)) w1 = (w', out)"
      using run b Done x by (simp add: begun_operation_def bindE_def catchE_def)
    show ?thesis
    proof (cases r2)
      case (Done result)
      with run' m have "w' = w2" "out = Done result" by (simp_all add: catchE_def)
      with ended Done q(1) show ?thesis by (simp add: on_world_def recorded_def) blast
    next
      case (Failed e)
      with run' m have f: "record_failure A run op (Some st) (Some p) e w2 = (w', out)" by (simp add: catchE_def)
      have "recorded B run key q (w_store w2) []" using ended Failed by (simp add: on_world_def recorded_def)
      from record_failure_exits[OF this A q(2) f] triple_apply[OF triple_raises _ f, of "\<lambda>_. True"] q(1)
      show ?thesis by (auto split: outcome.splits exn.splits)
    qed (use run' m ended q(1) in \<open>auto simp: catchE_def on_world_def recorded_def\<close>)
  next
    case (Failed e)
    with run b have "record_failure A run op (Some st) None e w1 = (w', out)"
      by (auto simp: begun_operation_def bindE_def catchE_def record_failure_def raiseE_def split: option.splits)
    then have "w' = w1" "\<exists>e. out = Failed e" by (auto simp: record_failure_def raiseE_def split: option.splits)
    with begun w Failed show ?thesis by (auto simp: on_world_def split: exn.splits)
  qed (use run b begun w in \<open>auto simp: begun_operation_def bindE_def catchE_def on_world_def\<close>)
qed

lemma executed_first:
  assumes A: "ap_control A = B" and key: "idempotency_key_of (ap_py A) q = Ok (Some key)"
    and w: "control_ok (as_control (w_store w))" "cb_lookup B (as_control (w_store w)) run key = None"
    and run: "execute_control A run q requested busy w = (w', out)"
  shows "case out of
      Done result \<Rightarrow> \<exists>op st p d now. requested_operation (ap_py A) q requested = Ok op \<and>
        first_record D run key op (normalize_request (ap_py A) st op
          (control_request_of (ap_py A) op (rq_body q) None)) p \<and>
        canon_dict result = Ok d \<and> recorded B run key (completed_row d now p) (w_store w') []
    | Failed (ApiError a) \<Rightarrow> True
    | _ \<Rightarrow> cb_lookup B (as_control (w_store w')) run key = None \<or>
        (\<exists>op st p. requested_operation (ap_py A) q requested = Ok op \<and>
          first_record D run key op (normalize_request (ap_py A) st op
            (control_request_of (ap_py A) op (rq_body q) None)) p \<and> recorded B run key p (w_store w') [])"
proof (cases "requested_operation (ap_py A) q requested")
  case (Inl e)
  with run w show ?thesis unfolding execute_control_def key A requested_operation_def
    by (auto simp: bindE_def readE_def retE_def raiseE_def split: exn.splits)
next
  case (Inr op)
  let ?request = "control_request_of (ap_py A) op (rq_body q) None"
  have known: "known_or_locked A run busy (Some key) op (rq_body q) None w = (w', out)"
    using run w Inr unfolding execute_control_def key A requested_operation_def
    by (simp add: bindE_def readE_def retE_def)
  show ?thesis
  proof (cases busy)
    case True
    with known show ?thesis by (auto simp: known_or_locked_def Let_def raiseE_def)
  next
    case False
    let ?load = "catchE (bindE (load_api A run) (\<lambda>st. case st of
          None \<Rightarrow> raiseE (ApiError ((plain_api_error ''run_not_found'' ''run not found'' 404)\<lparr>ae_run_id := Some run\<rparr>))
        | Some s \<Rightarrow> retE s)) (record_failure A run op None None)"
    have load: "?load w = (w, snd (?load w)) \<and> ((\<exists>st. snd (?load w) = Done st) \<or> (\<exists>e. snd (?load w) = Failed e))"
      by (cases "ap_load A (ap_py A) run (as_runs (w_store w))")
        (auto simp: load_api_def readE_def bindE_def catchE_def retE_def raiseE_def record_failure_def
          split: option.splits)
    show ?thesis
    proof (cases "snd (?load w)")
      case (Done st)
      with load have "?load w = (w, Done st)" by simp
      with known False have "begun_operation A run op st (normalize_request (ap_py A) st op ?request) key w = (w', out)"
        by (simp add: known_or_locked_def locked_operation_def bindE_def operation_key_def retE_def)
      from begun_outcome[OF A w this] Inr show ?thesis
        by (cases out) (auto split: exn.splits)
    next
      case (Failed e)
      with load have "?load w = (w, Failed e)" by simp
      with known False have "w' = w \<and> out = Failed e"
        by (simp add: known_or_locked_def locked_operation_def bindE_def)
      with w show ?thesis by (auto split: exn.splits)
    qed (use load in auto)
  qed
qed

end

section \<open>A history of requests\<close>

text \<open>
  \<open>ControlRequest run q op busy n\<close>: a client's request, served by a process that dies before its
  effect number \<open>n\<close>, if it gets that far. \<open>Elsewhere f g\<close>: anything else that changes the runs and
  the events.
\<close>

datatype 's api_event =
    ControlRequest string control_request "control_operation option" bool "nat option"
  | Elsewhere "'s \<Rightarrow> 's" "event_log \<Rightarrow> event_log"

fun api_happen :: "'s api_server \<Rightarrow> 's api_event \<Rightarrow> 's api_store world \<Rightarrow> 's api_store world" where
  "api_happen A (ControlRequest run q requested busy n) w =
     fst (execute_control A run q requested busy (w\<lparr>w_lives := n\<rparr>))"
| "api_happen A (Elsewhere f g) w =
     w\<lparr>w_store := (w_store w)\<lparr>as_runs := f (as_runs (w_store w)), as_events := g (as_events (w_store w))\<rparr>\<rparr>"

definition api_history :: "'s api_server \<Rightarrow> 's api_event list \<Rightarrow> 's api_store world \<Rightarrow> 's api_store world" where
  "api_history A es w = fold (api_happen A) es w"

context control_store begin

lemma recorded_happen:
  assumes A: "ap_control A = B" and implicit: "\<And>n. key \<noteq> ''implicit_'' @ ap_fresh A n"
    and r: "recorded B run key r (w_store w) []"
  shows "recorded B run key r (w_store (api_happen A ev w)) []"
proof (cases ev)
  case (Elsewhere f g)
  with r show ?thesis by (simp add: recorded_def)
next
  case (ControlRequest run' q requested busy n)
  let ?w = "w\<lparr>w_lives := n\<rparr>"
  show ?thesis
  proof (cases "idempotency_key_of (ap_py A) q")
    case (Inl e)
    with ControlRequest r show ?thesis by (simp add: execute_control_def raiseE_def bindE_def)
  next
    case (Inr key')
    show ?thesis
    proof (cases "key' = Some key \<and> run' = run")
      case True
      obtain w' out where run: "execute_control A run q requested busy ?w = (w', out)" by fastforce
      have "recorded B run key r (w_store ?w) []" using r by simp
      from known_request[OF this A _ run] Inr True have "w_store w' = w_store w" by simp
      moreover have "api_happen A ev w = w'" using ControlRequest True run by simp
      ultimately show ?thesis using r by simp
    next
      case False
      have begun: "keeps (recorded B run key r) (begin_operation A run' k op request)" if "(run', k) \<noteq> (run, key)" for k op request
        unfolding keeps_def by (rule triple_weaken[OF triple_begin[OF that A]])
          (auto simp: on_world_def works_on_def)
      have locked: "keeps (recorded B run key r) (locked_operation A run' key' op request)" for op request
        by (rule keeps_locked[OF A _ implicit]) (use False in auto)
      have "keeps (recorded B run key r) (known_or_locked A run' busy key' op (rq_body q) existing)" for op existing
      proof (cases key')
        case None
        then show ?thesis using locked[of op "control_request_of (ap_py A) op (rq_body q) existing"]
          by (cases existing) (simp_all add: known_or_locked_def Let_def keeps_raise)
      next
        case (Some k)
        with False have "(run', k) \<noteq> (run, key)" by blast
        note begun = begun[OF this, of op "control_request_of (ap_py A) op (rq_body q) existing"]
        show ?thesis
        proof (cases existing)
          case None
          with Some locked[of op "control_request_of (ap_py A) op (rq_body q) None"] show ?thesis
            by (simp add: known_or_locked_def Let_def keeps_raise)
        next
          case (Some p)
          have "keeps (recorded B run key r) (bindE (begin_operation A run' k op
              (control_request_of (ap_py A) op (rq_body q) existing))
            (\<lambda>(r, created). liftR (replay_operation (ap_py A) r)))"
            by (rule keeps_bind[OF begun]) (auto intro: keeps_liftR split: prod.split)
          with Some \<open>key' = Some k\<close> show ?thesis by (simp add: known_or_locked_def Let_def)
        qed
      qed
      note body = this
      have "keeps (recorded B run key r) (execute_control A run' q requested busy)"
        unfolding execute_control_def Inr liftR_simps bindE_ret
        by (rule keeps_bind[OF keeps_read keeps_bind[OF keeps_liftR body]])
      from keepsD[OF this, of ?w] r have "recorded B run key r (w_store (fst (execute_control A run' q requested busy ?w))) []"
        by (simp add: on_world_def recorded_def)
      then show ?thesis by (simp only: ControlRequest api_happen.simps)
    qed
  qed
qed

lemma recorded_history:
  assumes "ap_control A = B" "\<And>n. key \<noteq> ''implicit_'' @ ap_fresh A n"
    and "recorded B run key r (w_store w) []"
  shows "recorded B run key r (w_store (api_history A es w)) []"
  using assms(3) unfolding api_history_def
  by (induction es arbitrary: w) (simp_all add: recorded_happen[OF assms(1,2)])

end

end
