(* ===== verification/ControlProps.thy ===== *)
theory ControlProps
  imports ControlHistory RunStateProps
begin

text \<open>
  The guarantees of the control API: a recorded outcome is final and is replayed, an operation
  that never ended blocks its key, two requests that race under one key, and the agreement of the
  API's table of transitions with the runtime.
\<close>

section \<open>The two stores\<close>

lemma backends_equal: "postgres_control D = sqlite_control D"
  by (simp add: sqlite_control_def postgres_control_def fun_eq_iff begin_backends_agree
      pg_complete_control_def sqlite_complete_control_def pg_fail_control_def sqlite_fail_control_def
      set_backends_agree completed_row_def failed_row_def Let_def split: sum.split)

definition durable_control :: "(pydict \<Rightarrow> string) \<Rightarrow> 's api_server \<Rightarrow> bool" where
  "durable_control D A \<longleftrightarrow> ap_control A = sqlite_control D \<or> ap_control A = postgres_control D"

lemma durable_control_sqlite: "durable_control D A \<Longrightarrow> ap_control A = sqlite_control D"
  by (auto simp: durable_control_def backends_equal)

lemma sqlite_lookup [simp]: "cb_lookup (sqlite_control D) = find_control"
  by (simp add: sqlite_control_def)

text \<open>No client uses a key that the server may draw itself.\<close>

definition client_key :: "'s api_server \<Rightarrow> string \<Rightarrow> bool" where
  "client_key A key \<longleftrightarrow> (\<forall>n. key \<noteq> ''implicit_'' @ ap_fresh A n)"

section \<open>Replay\<close>

lemma replayed:
  assumes "durable_control D A" "idempotency_key_of (ap_py A) q = Ok (Some key)"
    and "recorded (sqlite_control D) run key r (w_store w) []"
    and "requested_operation (ap_py A) q requested = Ok op"
    and "first_record D run key op (normalize_request (ap_py A) st op
      (control_request_of (ap_py A) op (rq_body q) None)) p"
    and "ct_operation r = ct_operation p" "ct_request_hash r = ct_request_hash p" "ct_request r = ct_request p"
    and "w_lives w = None"
  shows "\<exists>w'. execute_control A run q requested busy w = (w', (case replay_operation (ap_py A) r of
      Inl e \<Rightarrow> Failed e | Inr x \<Rightarrow> Done x)) \<and> w_store w' = w_store w"
proof -
  obtain w' out where run: "execute_control A run q requested busy w = (w', out)" by fastforce
  from sqlite_ops.known_request[OF assms(3) durable_control_sqlite[OF assms(1)] assms(2) run] assms(4,9)
    recorded_answer_first[OF assms(5-8)]
  show ?thesis using run by simp
qed


text \<open>C20: When a request ends without a result and without a structured error, because its process
  died or an exception escaped that the API does not translate, and it left a record, then that
  record stays in progress for ever: the same request is answered \<^verbatim>\<open>operation_in_progress\<close> after any
  history.\<close>

theorem unfinished_operation_blocks_its_key:
  assumes "durable_control D A" "client_key A key" "idempotency_key_of (ap_py A) q = Ok (Some key)"
    and "control_ok (as_control (w_store w))" "find_control (as_control (w_store w)) run key = None"
    and "execute_control A run q requested busy w = (w1, out)"
    and "\<forall>result. out \<noteq> Done result" "\<forall>a. out \<noteq> Failed (ApiError a)"
    and "find_control (as_control (w_store w1)) run key = Some r"
    and "w2 = (api_history A es w1)\<lparr>w_lives := None\<rparr>"
  shows "\<exists>w3 a. execute_control A run q requested busy' w2 = (w3, Failed (ApiError a)) \<and>
    ae_code a = ''operation_in_progress'' \<and> w_store w3 = w_store w2"
proof -
  note A = durable_control_sqlite[OF assms(1)]
  from sqlite_ops.executed_first[OF A assms(3,4) _ assms(6)] assms(5,7-9)
  obtain op st p where op: "requested_operation (ap_py A) q requested = Ok op"
    and p: "first_record D run key op (normalize_request (ap_py A) st op
        (control_request_of (ap_py A) op (rq_body q) None)) p"
    and r: "recorded (sqlite_control D) run key p (w_store w1) []"
    by (auto split: outcome.splits exn.splits)
  have "recorded (sqlite_control D) run key p (w_store w2) []"
    using sqlite_ops.recorded_history[OF A _ r, of es] assms(2) by (simp add: assms(10) client_key_def)
  from replayed[OF assms(1,3) this op p, of busy'] obtain w3
    where "execute_control A run q requested busy' w2 =
      (w3, (case replay_operation (ap_py A) p of Inl e \<Rightarrow> Failed e | Inr x \<Rightarrow> Done x))"
      "w_store w3 = w_store w2" by (auto simp: assms(10))
  with p show ?thesis
    by (auto simp: replay_operation_def first_record_def new_control_row_def plain_api_error_def)
qed

section \<open>A refused operation\<close>

text \<open>What the table holds after a validation refused, and how it is told to the client.\<close>

lemma storeE_lives: "w_lives w = None \<Longrightarrow> storeE f w =
    (case f (w_tick w) (w_store w) of (s, r) \<Rightarrow>
      liftR r (w\<lparr>w_tick := Suc (w_tick w), w_store := s\<rparr>))"
  by (simp add: storeE_def effectE_def bindE_def tickE_def split: prod.split)

lemma refused_record:
  assumes A: "ap_control A = sqlite_control D" and lives: "w_lives w = None"
    and r: "recorded (sqlite_control D) run key r (w_store w) []" and p: "ct_operation_id p = ct_operation_id r"
    and refused: "\<And>v. w_store v = w_store w \<Longrightarrow> validate_operation A st op request v = (v, Failed (ApiError a))"
    and a: "canon_dict (stored_error a) = Ok c"
  shows "\<exists>w' now. catchE (complete_operation A st op request p) (record_failure A run' op st' (Some p)) w =
      (w', Failed (ApiError a)) \<and> recorded (sqlite_control D) run key (failed_row c now r) (w_store w') [] \<and>
      w_lives w' = None \<and> as_runs (w_store w') = as_runs (w_store w)"
proof -
  have failed: "complete_operation A st op request p w = (w, Failed (ApiError a))"
    by (simp add: complete_operation_def bindE_def refused[OF refl])
  from r have ok: "control_ok (as_control (w_store w))"
    "cb_lookup (sqlite_control D) (as_control (w_store w)) run key = Some r" by (simp_all add: recorded_def)
  from sqlite_ops.fail_known[OF ok a, of "now_text (api_env A (w_tick w))"] obtain t
    where "cb_fail (sqlite_control D) (now_text (api_env A (w_tick w))) (ct_operation_id p) a (as_control (w_store w)) =
        (t, Ok (failed_row c (now_text (api_env A (w_tick w))) r))"
      "recorded (sqlite_control D) run key (failed_row c (now_text (api_env A (w_tick w))) r)
        ((w_store w)\<lparr>as_control := t\<rparr>) []"
    by (auto simp: p recorded_def)
  with failed lives show ?thesis
    by (auto simp: catchE_def record_failure_def control_error_def on_control_def A bindE_def storeE_lives
        retE_def raiseE_def intro!: exI[of _ "now_text (api_env A (w_tick w))"])
qed

text \<open>The handler up to the point where the operation is begun.\<close>

lemma locked_from_load:
  assumes "ap_load A (ap_py A) run (as_runs (w_store w)) = Ok (Some st)"
  shows "known_or_locked A run False (Some key) op body None w =
    begun_operation A run op st
      (normalize_request (ap_py A) st op (control_request_of (ap_py A) op body None)) key w"
  using assms by (simp add: known_or_locked_def locked_operation_def load_api_def readE_def bindE_def catchE_def
      operation_key_def retE_def Let_def)

lemma executed_unknown:
  assumes "idempotency_key_of (ap_py A) q = Ok (Some key)" "cb_lookup (ap_control A) (as_control (w_store w)) run key = None"
    and "requested_operation (ap_py A) q requested = Ok op"
  shows "execute_control A run q requested busy w = known_or_locked A run busy (Some key) op (rq_body q) None w"
  using assms by (simp add: execute_control_def requested_operation_def bindE_def readE_def retE_def)

text \<open>C21: Two requests under one key can both find the key unused before either is served. The second is
  then served after the first returned; when the run has moved on, so that its validation refuses,
  it replaces the completed record by a failed one, and from then on the key replays an error for
  an operation that was carried out.\<close>

theorem late_duplicate_replaces_result:
  assumes "durable_control D A" "w_lives w = None" "control_ok (as_control (w_store w))"
    and "find_control (as_control (w_store w)) run key = Some r" "ct_status r = CtlCOMPLETED" "ct_operation r = op"
    and "ap_load A (ap_py A) run (as_runs (w_store w)) = Ok (Some st)"
    and "request = normalize_request (ap_py A) st op (control_request_of (ap_py A) op body None)"
    and "operation_request_hash D op request = Ok (ct_request_hash r)"
    and "\<And>v. w_store v = w_store w \<Longrightarrow> validate_operation A st op request v = (v, Failed (ApiError a))"
    and "canon_dict (stored_error a) = Ok c"
    and "known_or_locked A run False (Some key) op body None w = (w', out)"
  shows "out = Failed (ApiError a) \<and> (\<exists>r'. find_control (as_control (w_store w')) run key = Some r' \<and>
    ct_operation_id r' = ct_operation_id r \<and> ct_status r' = CtlFAILED \<and>
    (\<exists>e. replay_operation (ap_py A) r' = Raise e))"
proof -
  note A = durable_control_sqlite[OF assms(1)]
  have r: "recorded (sqlite_control D) run key r (w_store w) []"
    using assms(3,4) by (simp add: recorded_def)
  obtain w1 x where b: "begin_operation A run key op request w = (w1, x)" by fastforce
  have known: "known_operation r run op (ct_request_hash r) = Ok (r, False)"
    by (simp add: known_operation_def assms(6))
  have w1: "w_store w1 = w_store w" "x = Done (r, False)" "w_lives w1 = None"
  proof -
    note kn = sqlite_ops.begin_known_key[OF r A b]
    show "w_store w1 = w_store w" by (rule conjunct1[OF kn])
    have "x = Done (r, False) \<and> w_lives w1 = None"
      using mp[OF conjunct1[OF conjunct2[OF kn]] assms(2)] unfolding assms(9) sum.case known .
    then show "x = Done (r, False)" "w_lives w1 = None" by (rule conjunct1, rule conjunct2)
  qed
  have run: "catchE (complete_operation A st op request r) (record_failure A run op (Some st) (Some r)) w1 = (w', out)"
    using assms(12) b w1(2) unfolding locked_from_load[OF assms(7)] assms(8)[symmetric]
    unfolding begun_operation_def
    by (subst (asm) bindE_simps(1)[where w' = w1 and a = "(r, False)"]) (simp_all add: catchE_def)
  have r1: "recorded (sqlite_control D) run key r (w_store w1) []" using r w1(1) by simp
  have refused: "validate_operation A st op request v = (v, Failed (ApiError a))" if "w_store v = w_store w1" for v
    using assms(10) that w1(1) by simp
  from refused_record[OF A w1(3) r1 refl refused assms(11), of run "Some st"] obtain w'' now
    where "catchE (complete_operation A st op request r) (record_failure A run op (Some st) (Some r)) w1 =
        (w'', Failed (ApiError a))" "recorded (sqlite_control D) run key (failed_row c now r) (w_store w'') []" by blast
  with run have out: "out = Failed (ApiError a)"
    and r': "recorded (sqlite_control D) run key (failed_row c now r) (w_store w') []" by simp_all
  have "\<exists>e. replay_operation (ap_py A) (failed_row c now r) = Raise e"
    by (cases "api_error_from_dict (ap_py A) c") (simp_all add: replay_operation_def failed_row_def)
  with out r' show ?thesis
    by (intro conjI exI[of _ "failed_row c now r"]) (simp_all add: recorded_def failed_row_def)
qed

text \<open>The error of a refused request is stored and replayed: after any history the same request is
  answered by the same error, its details in canonical form.\<close>

theorem refused_operation_replays:
  assumes "durable_control D A" "client_key A key" "idempotency_key_of (ap_py A) q = Ok (Some key)"
    and "control_ok (as_control (w_store w))" "find_control (as_control (w_store w)) run key = None"
    and "requested_operation (ap_py A) q requested = Ok op" "w_lives w = None"
    and "ap_load A (ap_py A) run (as_runs (w_store w)) = Ok (Some st)"
    and "request = normalize_request (ap_py A) st op (control_request_of (ap_py A) op (rq_body q) None)"
    and "begin_operation A run key op request w = (w1, Done (p, created))"
    and "\<And>v. w_store v = w_store w1 \<Longrightarrow> validate_operation A st op request v = (v, Failed (ApiError a))"
    and "ae_code a \<noteq> []" "ae_message a \<noteq> []" "ae_http_status a \<noteq> 0" "canon_dict (stored_error a) = Ok c"
    and "execute_control A run q requested False w = (w2, out)"
    and "w3 = (api_history A es w2)\<lparr>w_lives := None\<rparr>"
  shows "out = Failed (ApiError a) \<and> (\<exists>d w4. canon_dict (ae_details a) = Ok d \<and>
    execute_control A run q requested busy w3 = (w4, Failed (ApiError (a\<lparr>ae_details := d\<rparr>))) \<and>
    w_store w4 = w_store w3)"
proof -
  note A = durable_control_sqlite[OF assms(1)]
  have "on_world (\<lambda>s c. control_ok (as_control s) \<and> cb_lookup (sqlite_control D) (as_control s) run key = None) w"
    using assms(4,5) by (simp add: on_world_def)
  from triple_apply[OF sqlite_ops.triple_begin_first[OF A] this assms(10)] obtain z
    where z: "first_record D run key op request z" "ct_operation_id p = ct_operation_id z"
      "recorded (sqlite_control D) run key z (w_store w1) []"
    by (auto simp: on_world_def recorded_def)
  have lives: "w_lives w1 = None"
    using assms(7,10) by (auto simp: begin_operation_def on_control_def storeE_lives liftR_def retE_def raiseE_def
        split: prod.splits sum.splits)
  from refused_record[OF A lives z(3,2) assms(11,15), of run "Some st"] obtain w' now
    where fin: "catchE (complete_operation A st op request p) (record_failure A run op (Some st) (Some p)) w1 =
        (w', Failed (ApiError a))" "recorded (sqlite_control D) run key (failed_row c now z) (w_store w') []" by blast
  have lookup: "cb_lookup (ap_control A) (as_control (w_store w)) run key = None" using A assms(5) by simp
  have "begun_operation A run op st request key w = (w2, out)"
    using assms(16) unfolding executed_unknown[OF assms(3) lookup assms(6)] locked_from_load[OF assms(8)] assms(9)[symmetric] .
  with assms(10) fin(1) have w2: "w2 = w'" "out = Failed (ApiError a)"
    by (auto simp: begun_operation_def bindE_def catchE_def)
  have r: "recorded (sqlite_control D) run key (failed_row c now z) (w_store w3) []"
    using sqlite_ops.recorded_history[OF A _ fin(2), of es] assms(2) w2 by (simp add: assms(17) client_key_def)
  from stored_error_from_dict[OF assms(15) assms(12-14), of "ap_py A"] obtain d
    where d: "canon_dict (ae_details a) = Ok d" "api_error_from_dict (ap_py A) c = Ok (a\<lparr>ae_details := d\<rparr>)" by blast
  have "w_lives w3 = None" by (simp add: assms(17))
  from replayed[OF assms(1,3) r assms(6) z(1)[unfolded assms(9)] _ _ _ this, of busy] d w2(2)
  show ?thesis by (auto simp: failed_row_def replay_operation_def)
qed

section \<open>Decisions\<close>

text \<open>The run does not wait for a decision on the invocation \<open>i\<close>.\<close>

definition other_decision :: "run_state \<Rightarrow> string \<Rightarrow> bool" where
  "other_decision st i \<longleftrightarrow> r_status st \<noteq> RunWAITING_APPROVAL \<or>
     (\<exists>k. r_interrupt st = Some k \<and> i_invocation_id k \<noteq> Some i)"

lemma decision_not_allowed:
  assumes "other_decision st i" "op \<in> {CtlAPPROVE, CtlREJECT}"
  shows "(\<exists>e. validate_decision B rows st op (Some i) = Raise e) \<or> (\<exists>e. operation_allowed st op = Raise e)"
  using assms
  by (cases "r_status st"; cases "r_interrupt st")
    (auto simp: other_decision_def validate_decision_def operation_allowed_def guardR_def)

lemma decision_refused:
  assumes "other_decision st i" "op \<in> {CtlAPPROVE, CtlREJECT}"
    and "py_optional_str (ap_py A) (dict_get request ''invocation_id'') = Some i"
  shows "triple P (validate_operation A st op request) (\<lambda>_ _. False) P"
proof -
  let ?rest = "\<lambda>_. bindE (liftR (operation_allowed st op)) (\<lambda>_.
      if r_status st = RunWAITING_CHILD \<and> op = CtlRESUME
      then bindE (children_of A st) (\<lambda>cs.
        let active = map r_run_id (filter (\<lambda>c. \<not> run_finished c) cs) in
        if active \<noteq> [] \<and> r_execution_strategy st \<notin> {''multi_agent'', ''plan_execute''}
        then raiseE (ApiError ((run_error_of st op ''invalid_run_transition''
               ''parent cannot resume while child runs are non-terminal'' 409)
               \<lparr>ae_details := [(''active_child_run_ids'', PList (map PStr active))]\<rparr>))
        else retE ())
      else retE ())"
  have eq: "validate_operation A st op request = bindE (readE (\<lambda>s. validate_decision (ap_control A) (as_control s) st op (Some i))) ?rest"
    using assms(2,3) by (auto simp: validate_operation_def)
  show ?thesis
  proof (cases "\<exists>e. operation_allowed st op = Raise e")
    case True
    then show ?thesis unfolding eq
      by (auto simp: triple_def readE_def bindE_def liftR_def retE_def raiseE_def split: sum.splits)
  next
    case False
    with decision_not_allowed[OF assms(1,2)]
    have "\<exists>e. validate_decision (ap_control A) rows st op (Some i) = Raise e" for rows by blast
    then obtain e where "\<And>rows. validate_decision (ap_control A) rows st op (Some i) = Raise (e rows)" by metis
    then show ?thesis unfolding eq
      by (auto simp: triple_def readE_def bindE_def raiseE_def)
  qed
qed

lemma triple_both:
  assumes "triple P m Q X" "triple P m Q' X'"
  shows "triple P m (\<lambda>a w. Q a w \<and> Q' a w) (\<lambda>w. X w \<and> X' w)"
proof (rule tripleI)
  fix w w' r assume w: "P w" "m w = (w', r)"
  from triple_apply[OF assms(1) w] triple_apply[OF assms(2) w]
  show "case r of Done a \<Rightarrow> Q a w' \<and> Q' a w' | _ \<Rightarrow> X w' \<and> X' w'" by (cases r) simp_all
qed

lemma record_failure_runs: "keeps (\<lambda>s c. K (as_runs s) (as_events s)) (record_failure A run op st r e)"
  unfolding record_failure_def
  by (auto intro!: keeps_intros keeps_on_control split: option.split)

lemma py_optional_str_PStr: "py_optional_str E (PStr s) = Some s"
  by (simp add: py_optional_str_def)

text \<open>The part of the server that a refused decision leaves alone.\<close>

definition same_runs :: "'s api_store world \<Rightarrow> 's api_store \<Rightarrow> (string \<times> int) list \<Rightarrow> bool" where
  "same_runs w s c \<longleftrightarrow> as_runs s = as_runs (w_store w) \<and> as_events s = as_events (w_store w)"

lemma record_failure_refuses: "triple (on_world (same_runs w)) (record_failure A run op s r e) (\<lambda>_ _. False) (on_world (same_runs w))"
  by (rule triple_weaken[OF triple_both[OF record_failure_runs[of "\<lambda>a b. a = as_runs (w_store w) \<and>
          b = as_events (w_store w)", unfolded keeps_def] sqlite_ops.triple_raises]])
    (simp_all add: on_world_def same_runs_def)

lemma begun_decision_refused:
  assumes "other_decision st i" "op \<in> {CtlAPPROVE, CtlREJECT}"
    and "py_optional_str (ap_py A) (dict_get request ''invocation_id'') = Some i"
  shows "triple (on_world (same_runs w)) (begun_operation A run op st request k) (\<lambda>_ _. False) (on_world (same_runs w))"
  unfolding begun_operation_def
proof (rule triple_bind)
  have "keeps (same_runs w) (begin_operation A run k op request)"
    unfolding begin_operation_def by (rule keeps_on_control) (simp add: same_runs_def)
  then show "triple (on_world (same_runs w)) (catchE (begin_operation A run k op request) (record_failure A run op (Some st) None))
      (\<lambda>_. on_world (same_runs w)) (on_world (same_runs w))"
    by (intro triple_catch[of _ _ _ "on_world (same_runs w)"])
      (simp_all add: keeps_def triple_weaken[OF record_failure_refuses])
  have "triple (on_world (same_runs w)) (complete_operation A st op request r) (\<lambda>_ _. False) (on_world (same_runs w))" for r
    unfolding complete_operation_def
    by (rule triple_bind[OF decision_refused[OF assms]]) (simp add: triple_def)
  then show "triple (on_world (same_runs w)) ((\<lambda>(r, created). catchE (complete_operation A st op request r)
      (record_failure A run op (Some st) (Some r))) x) (\<lambda>_ _. False) (on_world (same_runs w))" for x
    by (cases x) (simp add: triple_catch[OF _ record_failure_refuses])
qed

text \<open>A decision that names an invocation the run is not waiting for, under a key not used before or
  without a key, changes neither the runs nor the events, and is never answered by a result.\<close>

theorem stale_decision_changes_no_run:
  assumes "requested_operation (ap_py A) q requested = Ok op" "op \<in> {CtlAPPROVE, CtlREJECT}"
    and "idempotency_key_of (ap_py A) q = Ok key"
    and "\<And>k. key = Some k \<Longrightarrow> cb_lookup (ap_control A) (as_control (w_store w)) run k = None"
    and "ap_load A (ap_py A) run (as_runs (w_store w)) = Ok (Some st)"
    and "py_optional_str (ap_py A) (dict_get (rq_body q) ''invocation_id'') = Some i" "other_decision st i"
    and "execute_control A run q requested busy w = (w', out)"
  shows "as_runs (w_store w') = as_runs (w_store w) \<and> as_events (w_store w') = as_events (w_store w) \<and>
    (\<forall>result. out \<noteq> Done result)"
proof -
  let ?request = "normalize_request (ap_py A) st op (control_request_of (ap_py A) op (rq_body q) None)"
  let ?m = "bindE (operation_key A key) (begun_operation A run op st ?request)"
  have inv: "py_optional_str (ap_py A) (dict_get ?request ''invocation_id'') = Some i"
    using assms(2,6) by (auto simp: control_request_of_def normalize_request_def py_optional_str_PStr)
  have run': "known_or_locked A run busy key op (rq_body q) None w = (w', out)"
    using assms(8,1,3,4)
    by (cases key) (simp_all add: execute_control_def requested_operation_def bindE_def readE_def retE_def)
  have key: "triple (on_world (same_runs w)) ?m (\<lambda>_ _. False) (on_world (same_runs w))"
    by (rule triple_bind[OF _ begun_decision_refused[OF assms(7,2) inv]])
      (cases key; simp add: operation_key_def triple_def bindE_def tickE_def retE_def on_world_def)
  have locked: "locked_operation A run key op (control_request_of (ap_py A) op (rq_body q) None) w = ?m w"
    unfolding locked_operation_def
    by (rule bindE_simps(1)) (use assms(5) in \<open>simp add: load_api_def readE_def bindE_def catchE_def retE_def\<close>)
  show ?thesis
    using run' locked triple_apply[OF key, of w w' out]
    by (cases busy; cases out) (simp_all add: on_world_def same_runs_def raiseE_def known_or_locked_def Let_def)
qed

section \<open>A concrete server\<close>

text \<open>A server with one run, kept as a value; resuming completes it.\<close>

definition demo_resume :: "string \<Rightarrow> string option \<Rightarrow> (run_state, pydict) eff" where
  "demo_resume i d = storeE (\<lambda>n st. (st\<lparr>r_status := RunCOMPLETED\<rparr>,
     Ok [(''status'', PStr (run_status_value RunCOMPLETED))]))"

definition idle_runtime :: "run_state runtime" where
  "idle_runtime = \<lparr>rt_strategy = ''react'', rt_py = demo_env, rt_clock = (\<lambda>n. (''t'', 0)),
     rt_random = (\<lambda>n. 0), rt_parse_time = (\<lambda>s. None), rt_format_time = (\<lambda>q. ''t''),
     rt_ownership = None, rt_load = (\<lambda>E i st. Ok (Some st)), rt_save = (\<lambda>E w st s. (st, st, Ok ())),
     rt_load_tool = (\<lambda>E i s. Ok None), rt_save_tool = (\<lambda>E w q s. (s, q, Ok ())),
     rt_validate = (\<lambda>n w s. Ok ()), rt_initialize = (\<lambda>n st s. (s, Ok st)),
     rt_consume_step = (\<lambda>n st i s. (s, Ok ())), rt_consume_tool = (\<lambda>n st i s. (s, Ok ())),
     rt_wall_time = (\<lambda>n st s. (s, Ok None)), rt_ensure_wall_time = (\<lambda>n st s. (s, Ok None)),
     rt_record_hard = (\<lambda>n st e s. (s, Ok ())),
     rt_verify = (\<lambda>st c k s. \<lparr>vr_status = NOT_APPLICABLE, vr_attempt = k, vr_checks = [], vr_error = None\<rparr>),
     rt_on_cancel = retE, rt_after_cancel = (\<lambda>st. retE ()), rt_lineage = 8,
     rt_retry_policy = default_retry_policy, rt_registry = [],
     rt_permission = (\<lambda>q. permission PermALLOW ''demo'' ''demo''),
     rt_handler = (\<lambda>n name data. Replied \<lparr>tr_content = ''ok'', tr_is_error = False,
        tr_tool_use_id = [], tr_metadata = []\<rparr>),
     rt_cwd = ''w'', rt_tool_timeout = 1, rt_loads = (\<lambda>s. None), rt_hash = (\<lambda>d. ''h''),
     rt_action_fp = (\<lambda>name d. ''a''), rt_error_fp = (\<lambda>a b c d. ''e''), rt_evidence_fp = (\<lambda>s. Some s),
     rt_progress_policy = default_progress_policy, rt_max_turns = 3\<rparr>"

definition demo_api :: "run_state api_server" where
  "demo_api = \<lparr>ap_py = demo_env, ap_clock = (\<lambda>n. (''t'', 0)), ap_fresh = (\<lambda>n. replicate n CHR ''x''),
     ap_load = (\<lambda>E i st. Ok (Some st)), ap_list = (\<lambda>E thread st. Ok [st]), ap_requeue = None,
     ap_mark_runnable = (\<lambda>i n s. (s, Ok ())), ap_runtime = (\<lambda>_. idle_runtime),
     ap_control = sqlite_control (\<lambda>d. ''digest''), ap_append = append_event, ap_engine = (\<lambda>st. Ok True),
     ap_orchestration = (\<lambda>st. Ok []), ap_resume = demo_resume, ap_distributed = False, ap_postgres = False\<rparr>"

definition demo_api_world :: "run_status \<Rightarrow> run_state api_store world" where
  "demo_api_world status = fresh_world \<lparr>as_runs = demo_run\<lparr>r_status := status\<rparr>,
     as_control = [], as_events = empty_log\<rparr>"

definition demo_request :: "string \<Rightarrow> pydict \<Rightarrow> control_request" where
  "demo_request key body = \<lparr>rq_key_header = Some key, rq_body = body\<rparr>"

lemma demo_api_keys: "durable_control (\<lambda>d. ''digest'') demo_api" "client_key demo_api ''k''"
  by (simp_all add: durable_control_def demo_api_def client_key_def)

lemma demo_world_empty: "control_ok (as_control (w_store (demo_api_world status)))"
  "find_control (as_control (w_store (demo_api_world status))) run key = None"
  by (simp_all add: demo_api_world_def fresh_world_def control_ok_def find_control_def)

lemma demo_key: "idempotency_key_of (ap_py demo_api) (demo_request ''k'' []) = Ok (Some ''k'')"
  by code_simp

abbreviation resumed_world :: "run_state api_store world" where
  "resumed_world \<equiv> fst (execute_control demo_api ''root'' (demo_request ''k'' []) None False (demo_api_world RunRUNNING))"

lemma resumed: "execute_control demo_api ''root'' (demo_request ''k'' []) None False (demo_api_world RunRUNNING) =
    (resumed_world, Done [(''status'', PStr ''COMPLETED'')])"
proof -
  have "snd (execute_control demo_api ''root'' (demo_request ''k'' []) None False (demo_api_world RunRUNNING)) =
      Done [(''status'', PStr ''COMPLETED'')]" by code_simp
  then show ?thesis by (metis prod.collapse)
qed


lemma unfinished_operation_blocks_its_key_witness:
  "\<exists>w3 a. execute_control demo_api ''root'' (demo_request ''k'' []) None False
     ((api_history demo_api [] (fst (execute_control demo_api ''root'' (demo_request ''k'' []) None False
         ((demo_api_world RunRUNNING)\<lparr>w_lives := Some 1\<rparr>))))\<lparr>w_lives := None\<rparr>) = (w3, Failed (ApiError a)) \<and>
     ae_code a = ''operation_in_progress''"
proof -
  let ?run = "execute_control demo_api ''root'' (demo_request ''k'' []) None False
      ((demo_api_world RunRUNNING)\<lparr>w_lives := Some 1\<rparr>)"
  have "snd ?run = Crashed" "\<not> Option.is_none (find_control (as_control (w_store (fst ?run))) ''root'' ''k'')" by code_simp+
  then obtain r where run: "?run = (fst ?run, Crashed)"
    and r: "find_control (as_control (w_store (fst ?run))) ''root'' ''k'' = Some r"
    by (metis option.exhaust is_none_simps(1) prod.collapse)
  have "control_ok (as_control (w_store ((demo_api_world RunRUNNING)\<lparr>w_lives := Some 1\<rparr>)))"
    "find_control (as_control (w_store ((demo_api_world RunRUNNING)\<lparr>w_lives := Some 1\<rparr>))) ''root'' ''k'' = None"
    using demo_world_empty by simp_all
  from unfinished_operation_blocks_its_key[OF demo_api_keys demo_key this run _ _ r refl] show ?thesis by blast
qed

lemma demo_api_load: "ap_load demo_api (ap_py demo_api) i st = Ok (Some st)"
  by (simp add: demo_api_def)

lemma resume_refused_when_completed:
  "r_status st = RunCOMPLETED \<Longrightarrow> validate_operation A st CtlRESUME request v =
     (v, Failed (ApiError (run_error_of st CtlRESUME ''invalid_run_transition''
        ''resume is not allowed while run is COMPLETED'' 409)))"
  by (simp add: validate_operation_def operation_allowed_def guardR_def raiseE_def)

lemma run_error_stored:
  "canon_dict (stored_error (run_error_of st op code m http)) = Ok (sort_key fst (stored_error (run_error_of st op code m http)))"
  by (simp add: run_error_of_def plain_api_error_def stored_error_def api_error_body_def canon_dict_def)

lemma late_duplicate_replaces_result_witness:
  "\<exists>r'. find_control (as_control (w_store (fst (known_or_locked demo_api ''root'' False (Some ''k'') CtlRESUME [] None
     resumed_world)))) ''root'' ''k'' = Some r' \<and> ct_status r' = CtlFAILED"
proof -
  let ?st = "as_runs (w_store resumed_world)"
  have st: "r_status ?st = RunCOMPLETED" by code_simp
  have row: "case find_control (as_control (w_store resumed_world)) ''root'' ''k'' of
      Some r \<Rightarrow> ct_status r = CtlCOMPLETED \<and> ct_operation r = CtlRESUME \<and> ct_request_hash r = ''digest''
    | None \<Rightarrow> False" by code_simp
  then obtain r where r: "find_control (as_control (w_store resumed_world)) ''root'' ''k'' = Some r"
    "ct_status r = CtlCOMPLETED" "ct_operation r = CtlRESUME" "ct_request_hash r = ''digest''"
    by (auto split: option.splits)
  have ok: "control_ok (as_control (w_store resumed_world))" "w_lives resumed_world = None"
    unfolding control_ok_def by code_simp+
  have hash: "operation_request_hash (\<lambda>d. ''digest'') CtlRESUME (normalize_request (ap_py demo_api) ?st CtlRESUME
      (control_request_of (ap_py demo_api) CtlRESUME [] None)) = Ok (ct_request_hash r)"
    by (simp add: r(4) operation_request_hash_def control_request_of_def normalize_request_def canon_dict_def)
  from late_duplicate_replaces_result[OF demo_api_keys(1) ok(2,1) r(1-3) demo_api_load refl hash
      resume_refused_when_completed[OF st] run_error_stored prod.collapse[symmetric]]
  show ?thesis by blast
qed

lemma refused_operation_replays_witness:
  "\<exists>w4 a. execute_control demo_api ''root'' (demo_request ''k'' []) None False
     ((api_history demo_api [] (fst (execute_control demo_api ''root'' (demo_request ''k'' []) None False
        (demo_api_world RunCOMPLETED))))\<lparr>w_lives := None\<rparr>) = (w4, Failed (ApiError a))"
proof -
  let ?w = "demo_api_world RunCOMPLETED"
  let ?st = "as_runs (w_store ?w)"
  have st: "r_status ?st = RunCOMPLETED" by (simp add: demo_api_world_def fresh_world_def)
  have op: "requested_operation (ap_py demo_api) (demo_request ''k'' []) None = Ok CtlRESUME"
    "w_lives ?w = None" by code_simp+
  have request: "[] = normalize_request (ap_py demo_api) ?st CtlRESUME
      (control_request_of (ap_py demo_api) CtlRESUME (rq_body (demo_request ''k'' [])) None)"
    by (simp add: control_request_of_def normalize_request_def)
  have "case snd (begin_operation demo_api ''root'' ''k'' CtlRESUME [] ?w) of Done x \<Rightarrow> True | _ \<Rightarrow> False" by code_simp
  then obtain w1 p created where b: "begin_operation demo_api ''root'' ''k'' CtlRESUME [] ?w = (w1, Done (p, created))"
    by (cases "begin_operation demo_api ''root'' ''k'' CtlRESUME [] ?w") (auto split: outcome.splits)
  from refused_operation_replays[OF demo_api_keys demo_key demo_world_empty op demo_api_load request b
      resume_refused_when_completed[OF st] _ _ _ run_error_stored prod.collapse[symmetric] refl, where es = "[]" and busy = False]
  show ?thesis by (auto simp: run_error_of_def plain_api_error_def)
qed

lemma stale_decision_changes_no_run_witness:
  "as_runs (w_store (fst (execute_control demo_api ''root'' (demo_request ''k'' [(''decision'', PStr ''approve''),
     (''invocation_id'', PStr ''old'')]) None False (demo_api_world RunRUNNING)))) = as_runs (w_store (demo_api_world RunRUNNING))"
proof -
  let ?q = "demo_request ''k'' [(''decision'', PStr ''approve''), (''invocation_id'', PStr ''old'')]"
  have 1: "requested_operation (ap_py demo_api) ?q None = Ok CtlAPPROVE"
    "idempotency_key_of (ap_py demo_api) ?q = Ok (Some ''k'')"
    "py_optional_str (ap_py demo_api) (dict_get (rq_body ?q) ''invocation_id'') = Some ''old''" by code_simp+
  have 2: "other_decision (as_runs (w_store (demo_api_world RunRUNNING))) ''old''"
    by (simp add: other_decision_def demo_api_world_def fresh_world_def)
  have 3: "cb_lookup (ap_control demo_api) (as_control (w_store (demo_api_world RunRUNNING))) ''root'' k = None" for k
    by (simp add: demo_api_def demo_world_empty)
  from stale_decision_changes_no_run[OF 1(1) _ 1(2) 3 demo_api_load 1(3) 2 prod.collapse[symmetric]] show ?thesis by simp
qed

end
