(* ===== verification/Tasks.thy ===== *)
theory Tasks
  imports RunState ApiText
begin

text \<open>
  Background tasks: the table of \<^verbatim>\<open>DurableTaskManager\<close> (\<^verbatim>\<open>runtime/tasks.py\<close>) and the worker threads of
  the API server that execute its rows (\<^verbatim>\<open>_worker_loop\<close> in \<^verbatim>\<open>runtime/api.py\<close>), with every
  interleaving of clients and workers.
\<close>

section \<open>The table\<close>

record bg_task =
  bt_id :: string
  bt_prompt :: string
  bt_status :: string
  bt_created_at :: string
  bt_updated_at :: string
  bt_result :: "string option"
  bt_error :: "string option"

definition task_insert :: "string \<Rightarrow> string \<Rightarrow> string \<Rightarrow> bg_task list \<Rightarrow> bg_task list res" where
  "task_insert fresh prompt now rows =
     (if fresh \<in> set (map bt_id rows) then Raise (RuntimeErr ''UNIQUE constraint failed: tasks.id'')
      else Ok (rows @ [\<lparr>bt_id = fresh, bt_prompt = prompt, bt_status = ''queued'', bt_created_at = now,
                        bt_updated_at = now, bt_result = None, bt_error = None\<rparr>]))"

definition task_get :: "string \<Rightarrow> bg_task list \<Rightarrow> bg_task option" where
  "task_get i rows = find (\<lambda>t. bt_id t = i) rows"

definition task_list :: "int \<Rightarrow> bg_task list \<Rightarrow> bg_task list" where
  "task_list limit rows =
     (let ts = rev (sort_key bt_created_at rows) in if limit < 0 then ts else take (nat limit) ts)"

definition task_update :: "string \<Rightarrow> (bg_task \<Rightarrow> bg_task) \<Rightarrow> bg_task list \<Rightarrow> bg_task list" where
  "task_update i f rows = map (\<lambda>t. if bt_id t = i then f t else t) rows"

text \<open>
  \<^verbatim>\<open>claim_next\<close> is two statements: the \<^verbatim>\<open>select\<close> runs outside the transaction that the
  \<^verbatim>\<open>update\<close> opens, so others may write in between.
\<close>

definition task_select_next :: "bg_task list \<Rightarrow> bg_task option" where
  "task_select_next rows =
     (case sort_key bt_created_at (filter (\<lambda>t. bt_status t = ''queued'') rows) of [] \<Rightarrow> None | t # _ \<Rightarrow> Some t)"

definition task_mark_running :: "string \<Rightarrow> string \<Rightarrow> bg_task list \<Rightarrow> bg_task list" where
  "task_mark_running i now = task_update i (\<lambda>t. t\<lparr>bt_status := ''running'', bt_updated_at := now\<rparr>)"

definition task_claim_next :: "string \<Rightarrow> string \<Rightarrow> bg_task list \<Rightarrow> bg_task list \<times> bg_task option" where
  "task_claim_next now now' rows =
     (case task_select_next rows of
        None \<Rightarrow> (rows, None)
      | Some t \<Rightarrow> (task_mark_running (bt_id t) now rows,
                   Some (t\<lparr>bt_status := ''running'', bt_updated_at := now'\<rparr>)))"

definition task_set :: "string \<Rightarrow> string \<Rightarrow> string option \<Rightarrow> string option \<Rightarrow> string
    \<Rightarrow> bg_task list \<Rightarrow> bg_task list" where
  "task_set i status result err now = task_update i (\<lambda>t. t\<lparr>bt_status := status, bt_result := result,
     bt_error := err, bt_updated_at := now\<rparr>)"

definition task_complete :: "string \<Rightarrow> string \<Rightarrow> string \<Rightarrow> bg_task list \<Rightarrow> bg_task list" where
  "task_complete i result now = task_set i ''completed'' (Some result) None now"

definition task_fail :: "string \<Rightarrow> string \<Rightarrow> string \<Rightarrow> bg_task list \<Rightarrow> bg_task list" where
  "task_fail i err now = task_set i ''failed'' None (Some err) now"

definition task_cancel :: "string \<Rightarrow> string \<Rightarrow> bg_task list \<Rightarrow> bg_task list \<times> bool" where
  "task_cancel i now rows =
     (task_update i (\<lambda>t. if bt_status t \<in> {''queued'', ''running''}
                         then t\<lparr>bt_status := ''canceled'', bt_updated_at := now\<rparr> else t) rows,
      list_ex (\<lambda>t. bt_id t = i \<and> bt_status t \<in> {''queued'', ''running''}) rows)"

section \<open>The worker loop\<close>

text \<open>
  What a worker decides after the run of its task ended: \<open>outcome\<close> is the text the run returned or
  the exception it raised, \<open>current\<close> the row as \<^verbatim>\<open>get\<close> then finds it, \<open>run\<close> what loading
  the run of the task gives.
\<close>

datatype task_end = TaskLeave | TaskCancel | TaskFail string | TaskComplete string

definition task_ending :: "pyenv \<Rightarrow> string res \<Rightarrow> bg_task option \<Rightarrow> run_state option res \<Rightarrow> task_end" where
  "task_ending E outcome current run =
     (case bindR outcome (\<lambda>result. bindR run (\<lambda>st.
        Ok (if (case current of None \<Rightarrow> False | Some t \<Rightarrow> bt_status t = ''canceled'') then TaskLeave
            else case st of
              None \<Rightarrow> TaskComplete result
            | Some s \<Rightarrow>
                if r_status s = RunCANCELLED then TaskCancel
                else if r_status s \<noteq> RunCOMPLETED then TaskFail (''run stopped in '' @ run_status_value (r_status s))
                else TaskComplete result))) of
        Inl e \<Rightarrow> TaskFail (api_safe_error E e)
      | Inr d \<Rightarrow> d)"

fun task_write :: "task_end \<Rightarrow> string \<Rightarrow> string \<Rightarrow> bg_task list \<Rightarrow> bg_task list" where
  "task_write TaskLeave i now rows = rows"
| "task_write TaskCancel i now rows = fst (task_cancel i now rows)"
| "task_write (TaskFail m) i now rows = task_fail i m now rows"
| "task_write (TaskComplete result) i now rows = task_complete i result now rows"

datatype worker_phase =
    WorkerIdle | WorkerSelected bg_task | WorkerRunning string | WorkerEnding string task_end

record task_system =
  ts_rows :: "bg_task list"
  ts_workers :: "nat \<Rightarrow> worker_phase"

text \<open>
  One step: a client adds or cancels a task; the worker \<open>w\<close> does one of the four things between
  which others can act. How the run ends is up to the run.
\<close>

inductive task_step :: "task_system \<Rightarrow> task_system \<Rightarrow> bool" where
  client_add: "task_insert fresh prompt now (ts_rows s) = Ok rows \<Longrightarrow> task_step s (s\<lparr>ts_rows := rows\<rparr>)"
| client_cancel: "task_step s (s\<lparr>ts_rows := fst (task_cancel i now (ts_rows s))\<rparr>)"
| worker_select: "ts_workers s w = WorkerIdle \<Longrightarrow> task_select_next (ts_rows s) = Some t \<Longrightarrow>
    task_step s (s\<lparr>ts_workers := (ts_workers s)(w := WorkerSelected t)\<rparr>)"
| worker_mark: "ts_workers s w = WorkerSelected t \<Longrightarrow>
    task_step s (s\<lparr>ts_rows := task_mark_running (bt_id t) now (ts_rows s),
                   ts_workers := (ts_workers s)(w := WorkerRunning (bt_id t))\<rparr>)"
| worker_read: "ts_workers s w = WorkerRunning i \<Longrightarrow>
    task_step s (s\<lparr>ts_workers := (ts_workers s)
       (w := WorkerEnding i (task_ending E outcome (task_get i (ts_rows s)) run))\<rparr>)"
| worker_write: "ts_workers s w = WorkerEnding i d \<Longrightarrow>
    task_step s (s\<lparr>ts_rows := task_write d i now (ts_rows s),
                   ts_workers := (ts_workers s)(w := WorkerIdle)\<rparr>)"

inductive_cases task_step_cases: "task_step s t"

definition task_start :: task_system where
  "task_start = \<lparr>ts_rows = [], ts_workers = (\<lambda>w. WorkerIdle)\<rparr>"

inductive task_reachable :: "task_system \<Rightarrow> bool" where
  start: "task_reachable task_start"
| further: "task_reachable s \<Longrightarrow> task_step s t \<Longrightarrow> task_reachable t"

section \<open>Well-typed rows\<close>

text \<open>
  What the rows of a reachable table look like, and what a worker remembers of its task.
\<close>

definition task_typed :: "bg_task \<Rightarrow> bool" where
  "task_typed t \<longleftrightarrow> bt_status t \<in> {''queued'', ''running'', ''completed'', ''failed'', ''canceled''} \<and>
     (bt_status t = ''queued'' \<longrightarrow> bt_result t = None \<and> bt_error t = None) \<and>
     (bt_status t = ''completed'' \<longrightarrow> bt_result t \<noteq> None \<and> bt_error t = None) \<and>
     (bt_status t = ''failed'' \<longrightarrow> bt_result t = None \<and> bt_error t \<noteq> None) \<and>
     (bt_result t = None \<or> bt_error t = None)"

definition worker_task :: "worker_phase \<Rightarrow> string option" where
  "worker_task p = (case p of WorkerIdle \<Rightarrow> None | WorkerSelected t \<Rightarrow> Some (bt_id t)
     | WorkerRunning i \<Rightarrow> Some i | WorkerEnding i d \<Rightarrow> Some i)"

definition task_system_ok :: "task_system \<Rightarrow> bool" where
  "task_system_ok s \<longleftrightarrow> distinct (map bt_id (ts_rows s)) \<and> list_all task_typed (ts_rows s) \<and>
     (\<forall>w i. worker_task (ts_workers s w) = Some i \<longrightarrow> i \<in> set (map bt_id (ts_rows s)))"

lemma task_update_ids:
  assumes "\<And>t. bt_id (f t) = bt_id t"
  shows "map bt_id (task_update i f rows) = map bt_id rows"
  using assms by (simp add: task_update_def)

lemma task_update_typed:
  "list_all task_typed rows \<Longrightarrow> (\<And>t. task_typed t \<Longrightarrow> task_typed (f t)) \<Longrightarrow> list_all task_typed (task_update i f rows)"
  by (auto simp: task_update_def list_all_iff)

lemma task_writes_ids [simp]:
  "map bt_id (task_mark_running i now rows) = map bt_id rows"
  "map bt_id (fst (task_cancel i now rows)) = map bt_id rows"
  "map bt_id (task_write d i now rows) = map bt_id rows"
  by (cases d; simp add: task_mark_running_def task_cancel_def task_fail_def task_complete_def task_set_def
      task_update_ids)+

lemma task_writes_id_sets [simp]:
  "bt_id ` set (task_mark_running i now rows) = bt_id ` set rows"
  "bt_id ` set (fst (task_cancel i now rows)) = bt_id ` set rows"
  "bt_id ` set (task_write d i now rows) = bt_id ` set rows"
  by (simp_all only: task_writes_ids flip: list.set_map)

lemma task_writes_typed:
  assumes "list_all task_typed rows"
  shows "list_all task_typed (task_mark_running i now rows)" "list_all task_typed (fst (task_cancel i now rows))"
    "list_all task_typed (task_write d i now rows)"
proof -
  show "list_all task_typed (task_mark_running i now rows)"
    unfolding task_mark_running_def by (rule task_update_typed[OF assms]) (auto simp: task_typed_def)
  show cancel: "list_all task_typed (fst (task_cancel i now rows))"
    unfolding task_cancel_def fst_conv by (rule task_update_typed[OF assms]) (auto simp: task_typed_def)
  show "list_all task_typed (task_write d i now rows)"
    using assms cancel
    by (cases d) (auto simp: task_fail_def task_complete_def task_set_def task_typed_def intro!: task_update_typed)
qed

lemma task_select_next_in: "task_select_next rows = Some t \<Longrightarrow> t \<in> set rows \<and> bt_status t = ''queued''"
proof -
  assume "task_select_next rows = Some t"
  then obtain ts where "sort_key bt_created_at (filter (\<lambda>t. bt_status t = ''queued'') rows) = t # ts"
    by (auto simp: task_select_next_def split: list.splits)
  then have "t \<in> set (sort_key bt_created_at (filter (\<lambda>t. bt_status t = ''queued'') rows))"
    by (simp only: list.set_intros(1))
  then show ?thesis by simp
qed

lemma worker_task_simps [simp]:
  "worker_task WorkerIdle = None" "worker_task (WorkerSelected t) = Some (bt_id t)"
  "worker_task (WorkerRunning i) = Some i" "worker_task (WorkerEnding i d) = Some i"
  by (simp_all add: worker_task_def)

lemma task_system_okD:
  "task_system_ok s \<Longrightarrow> worker_task (ts_workers s w) = Some i \<Longrightarrow> i \<in> bt_id ` set (ts_rows s)"
  by (auto simp: task_system_ok_def)

lemma task_step_ok: "task_step s t \<Longrightarrow> task_system_ok s \<Longrightarrow> task_system_ok t"
proof (induction rule: task_step.induct)
  case (client_add fresh prompt now s rows)
  then show ?case
    by (auto simp: task_insert_def task_system_ok_def task_typed_def split: if_splits)
next
  case (worker_select s w t)
  with task_select_next_in[of "ts_rows s" t] show ?case
    by (auto simp: task_system_ok_def)
next
  case (worker_mark s w t now)
  with task_system_okD[of s w] show ?case by (auto simp: task_system_ok_def task_writes_typed)
next
  case (worker_read s w i E outcome run)
  with task_system_okD[of s w] show ?case by (auto simp: task_system_ok_def)
qed (auto simp: task_system_ok_def task_writes_typed)

lemma task_reachable_ok: "task_reachable s \<Longrightarrow> task_system_ok s"
proof (induction rule: task_reachable.induct)
  case start
  then show ?case by (simp add: task_start_def task_system_ok_def)
next
  case (further s t)
  then show ?case using task_step_ok by blast
qed

text \<open>C22: In every reachable state, whatever clients and workers interleave, the identifiers of the tasks are
  unique, every status is one of the five, no row has both a result and an error, completed rows
  have a result, failed rows an error, queued rows neither, and every worker works on a row of the
  table.\<close>

theorem reachable_tasks_typed: "task_reachable s \<Longrightarrow> task_system_ok s"
  by (rule task_reachable_ok)

text \<open>The state a client leaves who adds a task.\<close>

definition one_task :: task_system where
  "one_task = task_start\<lparr>ts_rows := [\<lparr>bt_id = ''task_1'', bt_prompt = ''p'', bt_status = ''queued'',
     bt_created_at = ''t'', bt_updated_at = ''t'', bt_result = None, bt_error = None\<rparr>]\<rparr>"

lemma one_task_reachable: "task_reachable one_task"
proof -
  have "task_insert ''task_1'' ''p'' ''t'' (ts_rows task_start) = Ok (ts_rows one_task)"
    by (simp add: task_insert_def task_start_def one_task_def)
  from task_reachable.further[OF start client_add[OF this]] show ?thesis
    by (simp add: one_task_def)
qed

lemma reachable_tasks_typed_witness: "task_system_ok one_task"
  by (rule reachable_tasks_typed[OF one_task_reachable])

section \<open>A cancelled task that runs\<close>

text \<open>
  A worker that claims the only task of the table while a client cancels it: the client's
  statement comes between the two of the worker.
\<close>

definition cancel_between :: "pyenv \<Rightarrow> string \<Rightarrow> string \<Rightarrow> task_system \<Rightarrow> task_system list" where
  "cancel_between E result now s =
     (case task_select_next (ts_rows s) of
        None \<Rightarrow> []
      | Some t \<Rightarrow>
          let s1 = s\<lparr>ts_workers := (ts_workers s)(0 := WorkerSelected t)\<rparr>;
              s2 = s1\<lparr>ts_rows := fst (task_cancel (bt_id t) now (ts_rows s1))\<rparr>;
              s3 = s2\<lparr>ts_rows := task_mark_running (bt_id t) now (ts_rows s2),
                      ts_workers := (ts_workers s2)(0 := WorkerRunning (bt_id t))\<rparr>;
              s4 = s3\<lparr>ts_workers := (ts_workers s3)(0 := WorkerEnding (bt_id t)
                      (task_ending E (Ok result) (task_get (bt_id t) (ts_rows s3)) (Ok None)))\<rparr>;
              s5 = s4\<lparr>ts_rows := task_write (task_ending E (Ok result) (task_get (bt_id t) (ts_rows s3)) (Ok None))
                      (bt_id t) now (ts_rows s4), ts_workers := (ts_workers s4)(0 := WorkerIdle)\<rparr>
          in [s1, s2, s3, s4, s5])"

lemma task_get_update:
  assumes "\<And>t. bt_id (f t) = bt_id t"
  shows "task_get i (task_update i f rows) = map_option f (task_get i rows)"
  using assms by (induction rows) (auto simp: task_get_def task_update_def)

lemma task_get_in: "distinct (map bt_id rows) \<Longrightarrow> t \<in> set rows \<Longrightarrow> task_get (bt_id t) rows = Some t"
  by (induction rows) (auto simp: task_get_def)

lemma task_get_Some: "task_get i rows = Some t \<Longrightarrow> t \<in> set rows \<and> bt_id t = i"
  by (auto simp: task_get_def find_Some_iff)

lemma task_get_cancel:
  "task_get i rows = Some t \<Longrightarrow> bt_status t \<in> {''queued'', ''running''} \<Longrightarrow>
     snd (task_cancel i now rows) \<and>
     task_get i (fst (task_cancel i now rows)) = Some (t\<lparr>bt_status := ''canceled'', bt_updated_at := now\<rparr>)"
  using task_get_Some[of i rows t] by (auto simp: task_cancel_def task_get_update list_ex_iff)

text \<open>C23: The answer \<^verbatim>\<open>canceled: true\<close> does not keep a task from running: from any reachable state in which
  a worker is idle and a task is queued, there is an interleaving of the worker's claim with a
  successful cancellation of the task it claims, after which the task is marked running, is executed
  and ends as completed.\<close>

theorem cancelled_task_is_executed:
  assumes "task_reachable s" "ts_workers s 0 = WorkerIdle" "task_select_next (ts_rows s) = Some t"
    and "cancel_between E result now s = [s1, s2, s3, s4, s5]"
  shows "task_reachable s5 \<and> snd (task_cancel (bt_id t) now (ts_rows s1)) \<and>
    map_option bt_status (task_get (bt_id t) (ts_rows s2)) = Some ''canceled'' \<and>
    ts_workers s3 0 = WorkerRunning (bt_id t) \<and>
    map_option bt_status (task_get (bt_id t) (ts_rows s5)) = Some ''completed''"
proof -
  note s = assms(4)[symmetric, unfolded cancel_between_def assms(3) Let_def option.case, simplified]
  have "task_reachable s1"
    using s further[OF assms(1) worker_select[OF assms(2,3)]] by simp
  moreover have "task_step s1 s2" using s client_cancel[of s1 "bt_id t" now] by simp
  moreover have "task_step s2 s3" using s worker_mark[of s2 0 t now] by simp
  moreover have "task_step s3 s4" using s worker_read[of s3 0 "bt_id t" E "Ok result" "Ok None"] by simp
  moreover have "task_step s4 s5"
    using s worker_write[of s4 0 "bt_id t" "task_ending E (Ok result) (task_get (bt_id t) (ts_rows s3)) (Ok None)" now]
    by simp
  ultimately have reach: "task_reachable s5" by (blast intro: further)
  note found = task_select_next_in[OF assms(3)]
  have ok: "distinct (map bt_id (ts_rows s))"
    using task_reachable_ok[OF assms(1)] by (simp add: task_system_ok_def)
  note cancelled = task_get_cancel[OF task_get_in[OF ok], of t now]
  have rows: "ts_rows s1 = ts_rows s" "ts_rows s2 = fst (task_cancel (bt_id t) now (ts_rows s))"
    "ts_rows s3 = task_mark_running (bt_id t) now (ts_rows s2)"
    "ts_rows s5 = task_write (task_ending E (Ok result) (task_get (bt_id t) (ts_rows s3)) (Ok None)) (bt_id t) now (ts_rows s3)"
    using s by simp_all
  have "ts_workers s3 0 = WorkerRunning (bt_id t)" using s by simp
  with reach cancelled found show ?thesis
    by (simp add: rows task_mark_running_def task_get_update task_ending_def task_complete_def task_set_def)
qed

lemma cancelled_task_is_executed_witness:
  "map_option bt_status (task_get ''task_1'' (ts_rows (cancel_between demo_env ''done'' ''t'' one_task ! 4))) = Some ''completed''"
proof -
  have "ts_workers one_task 0 = WorkerIdle" by (simp add: one_task_def task_start_def)
  moreover have "task_select_next (ts_rows one_task) = Some (hd (ts_rows one_task))"
    by (simp add: one_task_def task_select_next_def)
  moreover obtain s1 s2 s3 s4 s5 where "cancel_between demo_env ''done'' ''t'' one_task = [s1, s2, s3, s4, s5]"
    using calculation(2) by (simp add: cancel_between_def Let_def)
  ultimately show ?thesis
    using cancelled_task_is_executed[OF one_task_reachable, of "hd (ts_rows one_task)" demo_env "''done''" "''t''"]
    by (simp add: one_task_def)
qed

end
