(* ===== verification/EventProps.thy ===== *)
theory EventProps
  imports Events
begin

text \<open>
  What a client that follows the events of a run receives: every event once and in order when
  events are written one after the other, as on SQLite; not so on PostgreSQL, where identities
  are drawn before transactions commit.
\<close>

lemma follow_events_closed:
  "follow_events thread run cursor terminal polls = (es, n) \<Longrightarrow> n < length polls \<Longrightarrow>
     0 < n \<and> (case snd (polls ! (n - 1)) of None \<Rightarrow> True | Some s \<Rightarrow> run_finished s)"
proof (induction polls arbitrary: cursor terminal es n)
  case (Cons p polls)
  obtain l st where p: "p = (l, st)" by fastforce
  show ?case
  proof (cases "\<exists>t c es' n'. n = Suc n' \<and> n' \<noteq> 0 \<and> follow_events thread run c t polls = (es', n')")
    case True
    then obtain t c es' n' where n: "n = Suc n'" "n' \<noteq> 0" "follow_events thread run c t polls = (es', n')"
      by (elim exE conjE)
    moreover have "n' < length polls" using Cons.prems(2) n(1) by simp
    ultimately show ?thesis using Cons.IH[OF n(3)] by (simp add: nth_Cons')
  next
    case False
    have stays: "n' = 0 \<Longrightarrow> polls = []" if "follow_events thread run c t polls = (es', n')" for c t es' n'
      using that by (cases polls) (auto simp: Let_def split: option.splits if_splits prod.splits)
    from Cons.prems False p stays show ?thesis
      by (cases st) (fastforce simp: Let_def split: if_splits prod.splits)+
  qed
qed simp

lemma follow_events_after:
  "follow_events thread run (Some c) terminal polls = (es, n) \<Longrightarrow> e \<in> set es \<Longrightarrow> c < et_id e"
proof (induction polls arbitrary: c terminal es n)
  case (Cons p polls)
  obtain l st where p: "p = (l, st)" by fastforce
  let ?rows = "list_events thread (Some c) (Some run) l"
  have rows: "c < et_id x" if "x \<in> set ?rows" for x
    using that by (auto simp: list_events_def event_selected_def split: if_splits)
  from follow_events_step[OF Cons.prems(1)[unfolded p]] show ?case
  proof (elim disjE exE conjE)
    fix t es' n'
    let ?c = "if ?rows = [] then c else et_id (last ?rows)"
    assume es: "es = ?rows @ es'"
      and "follow_events thread run (if ?rows = [] then Some c else Some (et_id (last ?rows))) t polls = (es', n')"
    then have rest: "follow_events thread run (Some ?c) t polls = (es', n')" by (simp split: if_splits)
    have "c \<le> ?c" using rows[of "last ?rows"] by (simp add: less_imp_le)
    with Cons.IH[OF rest] Cons.prems(2) rows es show "c < et_id e" by fastforce
  qed (use Cons.prems(2) rows in blast)
qed simp


definition followed_run :: run_state where
  "followed_run = create_run demo_env ''r'' ''u'' ''t'' ''hi'' [] None None ''react'' None None ''root''
     ''default'' 0 None [] [] [] []"

definition demo_thread :: event_log where
  "demo_thread = fst (create_thread demo_env ''t'' empty_log)"

definition demo_event :: event_log where
  "demo_event = fst (append_event demo_env ''t'' ''run.started'' [(''run_id'', PStr ''r'')] demo_thread)"

lemma demo_logs: "log_grows empty_log demo_thread" "log_grows demo_thread demo_event"
  unfolding demo_thread_def demo_event_def by (rule log_thread log_append log_same)+


text \<open>C25: On PostgreSQL the transactions of two events can commit in the opposite order of their
  identities. A client that polls in between receives the second and never, by any later poll, the
  first, which a client that connects afterwards receives.\<close>

theorem late_commit_never_delivered:
  assumes "thread_exists thread l" "el_pending l = []" "log_ok l"
    and "jsonable_items p = Ok p'" "jsonable_items q = Ok q'"
    and "dict_get p ''run_id'' = PStr run" "dict_get q ''run_id'' = PStr run"
    and first: "pg_insert_event E thread ty p l = (l1, Ok i)"
    and second: "pg_insert_event E thread ty' q l1 = (l2, Ok j)"
    and polls: "follow_events thread run None False ((pg_commit_event j l2, st) # polls) = (es, n)"
  shows "j \<in> et_id ` set es \<and> i \<notin> et_id ` set es \<and>
    i \<in> et_id ` set (list_events thread None (Some run) (pg_commit_event i (pg_commit_event j l2)))"
proof -
  let ?l = "pg_commit_event j l2"
  from first second assms(1,2,4,5) have i: "i = el_next l" "j = i + 1"
    and l2: "el_threads l2 = el_threads l" "el_rows l2 = el_rows l"
      "el_pending l2 = [event_row_of E i thread ty p p', event_row_of E j thread ty' q q']"
    by (auto simp: pg_insert_event_def thread_exists_def split: if_splits)
  have run: "et_run_id (event_row_of E k thread t d d') = Some run" if "dict_get d ''run_id'' = PStr run" for k t d d'
    using that by (simp add: event_row_of_def Let_def py_optional_str_def)
  let ?rows = "list_events thread None (Some run) ?l"
  have exists: "thread_exists thread ?l" "thread_exists thread (pg_commit_event i ?l)"
    using assms(1) by (simp_all add: pg_commit_event_def l2 thread_exists_def)
  have rows: "et_id e \<noteq> i" if "e \<in> set ?rows" for e
    using that assms(3) exists by (auto simp: list_events_def pg_commit_event_def l2 i log_ok_def split: if_splits)
  have j: "event_row_of E j thread ty' q q' \<in> set ?rows"
    using exists run assms(7) by (simp add: list_events_def pg_commit_event_def l2 event_selected_def)
  have "et_id (last ?rows) = j \<and> ?rows \<noteq> []"
  proof -
    have "et_id e \<le> j" if "e \<in> set ?rows" for e
      using that assms(3) exists by (fastforce simp: list_events_def pg_commit_event_def l2 i log_ok_def split: if_splits)
    moreover have "j \<le> et_id (last ?rows)"
      using sorted_last[OF _ j, of et_id] exists by (simp add: list_events_def)
    ultimately show ?thesis using j by (metis antisym empty_iff last_in_set list.set(1))
  qed
  with follow_events_step[OF polls] have "\<exists>es' n' t. es = ?rows @ es' \<and>
      (es' = [] \<or> follow_events thread run (Some j) t polls = (es', n'))" by fastforce
  then obtain es' where es: "es = ?rows @ es'" "\<forall>e \<in> set es'. j < et_id e"
    using follow_events_after by fastforce
  have "i \<in> et_id ` set (list_events thread None (Some run) (pg_commit_event i ?l))"
    using exists run assms(6) i
    by (force simp: list_events_def pg_commit_event_def l2 event_selected_def)
  moreover have "j \<in> et_id ` set es" using j es by force
  moreover have "i \<notin> et_id ` set es" using rows es i by fastforce
  ultimately show ?thesis by blast
qed

lemma late_commit_never_delivered_witness:
  "3 \<in> et_id ` set (fst (follow_events ''t'' ''r'' None False
     [(pg_commit_event 3 (fst (pg_insert_event demo_env ''t'' ''b'' [(''run_id'', PStr ''r'')]
        (fst (pg_insert_event demo_env ''t'' ''a'' [(''run_id'', PStr ''r'')] demo_thread)))), Some followed_run)]))"
proof -
  have ok: "log_ok demo_thread" by (rule log_grows_ok[OF demo_logs(1)])
  have 1: "pg_insert_event demo_env ''t'' ''a'' [(''run_id'', PStr ''r'')] demo_thread =
      (fst (pg_insert_event demo_env ''t'' ''a'' [(''run_id'', PStr ''r'')] demo_thread), Ok 2)" by code_simp
  have 2: "pg_insert_event demo_env ''t'' ''b'' [(''run_id'', PStr ''r'')]
      (fst (pg_insert_event demo_env ''t'' ''a'' [(''run_id'', PStr ''r'')] demo_thread)) =
    (fst (pg_insert_event demo_env ''t'' ''b'' [(''run_id'', PStr ''r'')]
      (fst (pg_insert_event demo_env ''t'' ''a'' [(''run_id'', PStr ''r'')] demo_thread))), Ok 3)" by code_simp
  have "thread_exists ''t'' demo_thread" "el_pending demo_thread = []" by code_simp+
  from late_commit_never_delivered[OF this ok _ _ _ _ 1 2 prod.collapse[symmetric],
      where run = "''r''" and st = "Some followed_run" and polls = "[]"]
  show ?thesis by simp
qed

end
