(* ===== verification/Planner.thy ===== *)
theory Planner
  imports PlanProps ApiText
begin

text \<open>
  The parser of the planner's answer, \<^verbatim>\<open>plan/planner.py\<close>: the fenced JSON text, the task nodes,
  their new identifiers and the dependencies that survive. What the scheduler relies on follows
  at the end: an accepted answer gives an acyclic plan whose dependencies are all tasks of the
  plan. The calls of the model around it are in the theory \<open>PlanStrategy\<close>.
\<close>

section \<open>The text\<close>

text \<open>
  \<^verbatim>\<open>re.sub\<close> of a code fence: three backticks, optionally \<^verbatim>\<open>json\<close>, and white space. After a
  match the search goes on behind it.
\<close>

definition fence :: string where
  "fence = ''```''"

definition drop_prefix :: "string \<Rightarrow> string \<Rightarrow> string" where
  "drop_prefix p s = (if take (length p) s = p then drop (length p) s else s)"

fun strip_fences_from :: "nat \<Rightarrow> string \<Rightarrow> string" where
  "strip_fences_from 0 s = s"
| "strip_fences_from (Suc n) [] = []"
| "strip_fences_from (Suc n) (c # s) =
     (if take 3 (c # s) = fence
      then strip_fences_from n (dropWhile is_space (drop_prefix ''json'' (drop 3 (c # s))))
      else c # strip_fences_from n s)"

definition strip_fences :: "string \<Rightarrow> string" where
  "strip_fences s = py_strip (py_replace fence [] (strip_fences_from (length s) s))"

text \<open>\<open>loads\<close> is \<^verbatim>\<open>json.loads\<close>, whose error is a \<^verbatim>\<open>ValueError\<close>.\<close>

definition parse_json_object :: "(string \<Rightarrow> pyval res) \<Rightarrow> string \<Rightarrow> pyval res" where
  "parse_json_object loads s =
     (let cleaned = strip_fences s in
      if cleaned = [] then Raise (ValueError ''empty planner output'') else loads cleaned)"

section \<open>The tasks\<close>

definition ascii_upper :: "char \<Rightarrow> char" where
  "ascii_upper c = (if (97::nat) \<le> of_char c \<and> of_char c \<le> (122::nat) then char_of (of_char c - 32::nat) else c)"

definition parse_task_type :: "string \<Rightarrow> task_type" where
  "parse_task_type s = (case TaskType (map ascii_upper s) of Inl e \<Rightarrow> ANALYSIS | Inr t \<Rightarrow> t)"

definition task_key :: "nat \<Rightarrow> string" where
  "task_key i = ''task_'' @ nat_text i"

text \<open>The first loop: one task for each node that is an object, and the identifiers it renames.\<close>

definition node_id :: "pyenv \<Rightarrow> nat \<Rightarrow> pydict \<Rightarrow> string" where
  "node_id E i node = str_or E (dict_get node ''id'') (task_key i)"

definition node_task :: "pyenv \<Rightarrow> nat \<Rightarrow> pydict \<Rightarrow> task" where
  "node_task E i node =
     (new_task (task_key i) (str_or E (dict_get node ''description'') (node_id E i node)) [])
       \<lparr>t_type := parse_task_type (str_or E (dict_get node ''type'') ''ANALYSIS'')\<rparr>"

fun add_nodes :: "pyenv \<Rightarrow> nat \<Rightarrow> pyval list \<Rightarrow> plan \<times> (string \<times> string) list \<Rightarrow> plan \<times> (string \<times> string) list" where
  "add_nodes E i [] s = s"
| "add_nodes E i (v # vs) (p, ids) =
     add_nodes E (Suc i) vs (case v of
         PDict node \<Rightarrow> (add_task (node_task E i node) p, dict_set (node_id E i node) (task_key i) ids)
       | _ \<Rightarrow> (p, ids))"

text \<open>The second loop: dependencies that name a task of the plan.\<close>

definition link_dependency :: "pyenv \<Rightarrow> (string \<times> string) list \<Rightarrow> string \<Rightarrow> pyval \<Rightarrow> tasks \<Rightarrow> tasks" where
  "link_dependency E ids k raw ts =
     (let d = (case map_of ids (py_str E raw) of None \<Rightarrow> py_str E raw | Some d \<Rightarrow> d) in
      if d \<in> set (dict_keys ts)
      then modify_task d (add_dependent k) (modify_task k (add_dependency d) ts) else ts)"

fun link_nodes :: "pyenv \<Rightarrow> (string \<times> string) list \<Rightarrow> nat \<Rightarrow> pyval list \<Rightarrow> tasks \<Rightarrow> tasks" where
  "link_nodes E ids i [] ts = ts"
| "link_nodes E ids i (v # vs) ts =
     link_nodes E ids (Suc i) vs
       (case (v, map_of ts (task_key i)) of
          (PDict node, Some t) \<Rightarrow>
            (case py_or (dict_get node ''dependencies'') (PList []) of
               PList raws \<Rightarrow> foldl (\<lambda>ts raw. link_dependency E ids (task_key i) raw ts) ts raws
             | _ \<Rightarrow> ts)
        | _ \<Rightarrow> ts)"

text \<open>
  \<^verbatim>\<open>parse_plan\<close>. \<open>stamp\<close> and \<open>created\<close> are the two reads of the clock. The answer may be JSON
  that is no object: then \<^verbatim>\<open>data.get\<close> fails.
\<close>

definition planned_header :: "pyenv \<Rightarrow> rat \<Rightarrow> rat \<Rightarrow> string \<Rightarrow> pydict \<Rightarrow> plan" where
  "planned_header E stamp created goal data =
     (new_plan created (''plan_'' @ int_repr (py_trunc (stamp * 1000))) goal)
       \<lparr>p_summary := str_or E (dict_get data ''summary'') []\<rparr>"

definition plan_of_nodes :: "pyenv \<Rightarrow> plan \<Rightarrow> pyval list \<Rightarrow> plan res" where
  "plan_of_nodes E p0 nodes =
     (let (p1, ids) = add_nodes E 1 nodes (p0, []);
          p2 = p1\<lparr>p_tasks := link_nodes E ids 1 nodes (p_tasks p1)\<rparr> in
      case compute_execution_order p2 of
        Some (True, p3) \<Rightarrow> Ok p3
      | _ \<Rightarrow> Raise (ValueError ''plan contains a cyclic dependency''))"

definition parse_plan :: "pyenv \<Rightarrow> (string \<Rightarrow> pyval res) \<Rightarrow> rat \<Rightarrow> rat \<Rightarrow> string \<Rightarrow> string \<Rightarrow> plan res" where
  "parse_plan E loads stamp created goal text =
     bindR (parse_json_object loads text) (\<lambda>v.
     case v of
       PDict data \<Rightarrow>
         (case py_or (py_or (dict_get data ''tasks'') (dict_get data ''steps'')) (PList []) of
            PList (n # ns) \<Rightarrow> plan_of_nodes E (planned_header E stamp created goal data) (n # ns)
          | _ \<Rightarrow> Raise (ValueError ''planner output did not contain a non-empty tasks/steps array''))
     | _ \<Rightarrow> Raise (AttributeError ''get''))"

section \<open>What an accepted answer gives\<close>

text \<open>Every dependency of a task is a task of the plan.\<close>

definition closed_tasks :: "tasks \<Rightarrow> bool" where
  "closed_tasks ts \<longleftrightarrow> (\<forall>k t. map_of ts k = Some t \<longrightarrow> set (t_dependencies t) \<subseteq> set (dict_keys ts))"

definition pending_tasks :: "tasks \<Rightarrow> bool" where
  "pending_tasks ts \<longleftrightarrow> (\<forall>k t. map_of ts k = Some t \<longrightarrow> t_status t = PENDING \<and> t_child_run_id t = None)"

definition parsed_tasks :: "tasks \<Rightarrow> bool" where
  "parsed_tasks ts \<longleftrightarrow> tasks_wf ts \<and> closed_tasks ts \<and> pending_tasks ts"

lemma parsed_tasks_map:
  assumes "parsed_tasks ts" "dict_keys ts' = dict_keys ts"
    and "\<And>k t'. map_of ts' k = Some t' \<Longrightarrow> \<exists>t. map_of ts k = Some t \<and> t_id t' = t_id t \<and>
        t_status t' = t_status t \<and> t_child_run_id t' = t_child_run_id t \<and>
        set (t_dependencies t') \<subseteq> set (t_dependencies t) \<union> set (dict_keys ts)"
  shows "parsed_tasks ts'"
proof -
  have "tasks_wf ts'"
  proof (rule tasks_wfI)
    show "distinct (dict_keys ts')" using assms(1,2) by (simp add: parsed_tasks_def tasks_wf_def)
    show "t_id t = k" if "map_of ts' k = Some t" for k t
      using assms(3)[OF that] assms(1) by (auto simp: parsed_tasks_def tasks_wf_map_of)
  qed
  moreover have "closed_tasks ts'" "pending_tasks ts'"
    using assms(1,2) by (fastforce simp: parsed_tasks_def closed_tasks_def pending_tasks_def dest!: assms(3))+
  ultimately show ?thesis by (simp add: parsed_tasks_def)
qed

lemma parsed_add_task:
  assumes "parsed_tasks ts" "t_dependencies t = []" "t_status t = PENDING" "t_child_run_id t = None"
  shows "parsed_tasks (added_tasks t ts)"
proof -
  let ?s = "dict_set (t_id t) t ts"
  have "tasks_wf ?s" using assms(1) by (simp add: parsed_tasks_def tasks_wf_set)
  moreover have "closed_tasks ?s" "pending_tasks ?s"
    using assms by (auto simp: parsed_tasks_def closed_tasks_def pending_tasks_def key_iff_map_of split: if_splits)
  ultimately have s: "parsed_tasks ?s" by (simp add: parsed_tasks_def)
  note ext = added_tasks_extends[of t ts]
  show ?thesis
  proof (rule parsed_tasks_map[OF s])
    show "dict_keys (added_tasks t ts) = dict_keys ?s" using ext by (simp add: extends_tasks_def)
    fix k t' assume "map_of (added_tasks t ts) k = Some t'"
    from extends_tasks_obtain[OF ext this] obtain u where u: "map_of ?s k = Some u"
      "t' = u\<lparr>t_dependents := t_dependents t'\<rparr>" by blast
    show "\<exists>u. map_of ?s k = Some u \<and> t_id t' = t_id u \<and> t_status t' = t_status u \<and>
        t_child_run_id t' = t_child_run_id u \<and>
        set (t_dependencies t') \<subseteq> set (t_dependencies u) \<union> set (dict_keys ?s)"
      using u(1) by (intro exI[of _ u]) (subst (1 2 3 4) u(2), auto)
  qed
qed

lemma add_nodes_parsed:
  "parsed_tasks (p_tasks p) \<Longrightarrow> parsed_tasks (p_tasks (fst (add_nodes E i vs (p, ids))))"
proof (induction E i vs "(p, ids)" arbitrary: p ids rule: add_nodes.induct)
  case (2 E i v vs p ids)
  show ?case
  proof (cases "\<exists>node. v = PDict node")
    case True
    then obtain node where v: "v = PDict node" by blast
    have "parsed_tasks (added_tasks (node_task E i node) (p_tasks p))"
      by (rule parsed_add_task[OF 2(2)]) (simp_all add: node_task_def new_task_def)
    with 2(1) v show ?thesis by simp
  next
    case False
    with 2 show ?thesis by (cases v) simp_all
  qed
qed simp

lemma add_dependent_keeps [simp]:
  "t_status (add_dependent i t) = t_status t" "t_child_run_id (add_dependent i t) = t_child_run_id t"
  "t_reused_from (add_dependent i t) = t_reused_from t"
  by (simp_all add: add_dependent_def)

lemma add_dependency_keeps [simp]:
  "t_id (add_dependency i t) = t_id t" "t_dependents (add_dependency i t) = t_dependents t"
  "t_status (add_dependency i t) = t_status t" "t_child_run_id (add_dependency i t) = t_child_run_id t"
  "set (t_dependencies (add_dependency i t)) = insert i (set (t_dependencies t))"
  by (auto simp: add_dependency_def)

lemma link_dependency_parsed:
  assumes "parsed_tasks ts"
  shows "parsed_tasks (link_dependency E ids k raw ts)"
proof -
  define d where "d = (case map_of ids (py_str E raw) of None \<Rightarrow> py_str E raw | Some d \<Rightarrow> d)"
  have "parsed_tasks (modify_task d (add_dependent k) (modify_task k (add_dependency d) ts))"
    if "d \<in> set (dict_keys ts)"
    by (rule parsed_tasks_map[OF assms])
      (use that in \<open>auto simp del: set_map simp: map_of_modify_task split: if_splits\<close>)
  with assms show ?thesis unfolding link_dependency_def Let_def d_def[symmetric] by simp
qed

lemma link_nodes_parsed: "parsed_tasks ts \<Longrightarrow> parsed_tasks (link_nodes E ids i vs ts)"
proof (induction vs arbitrary: i ts)
  case (Cons v vs)
  have "parsed_tasks (foldl (\<lambda>ts raw. link_dependency E ids k raw ts) ts raws)" for k raws
    using Cons.prems by (induction raws arbitrary: ts) (simp_all add: link_dependency_parsed)
  with Cons show ?case
    by (cases v) (auto split: option.splits pyval.splits)
qed simp

lemma parse_plan_nodes:
  assumes "parse_plan E loads stamp created goal text = Ok p"
  obtains vs data where "plan_of_nodes E (planned_header E stamp created goal data) vs = Ok p"
proof -
  from assms obtain v where v: "(case v of
       PDict data \<Rightarrow>
         (case py_or (py_or (dict_get data ''tasks'') (dict_get data ''steps'')) (PList []) of
            PList (n # ns) \<Rightarrow> plan_of_nodes E (planned_header E stamp created goal data) (n # ns)
          | _ \<Rightarrow> Raise (ValueError ''planner output did not contain a non-empty tasks/steps array''))
     | _ \<Rightarrow> Raise (AttributeError ''get'')) = Ok p"
    unfolding parse_plan_def bindR_Ok_iff by blast
  then obtain data where data: "v = PDict data" by (cases v) simp_all
  then obtain vs where "plan_of_nodes E (planned_header E stamp created goal data) vs = Ok p"
    using v by (cases "py_or (py_or (dict_get data ''tasks'') (dict_get data ''steps'')) (PList [])")
      (auto split: list.splits)
  then show thesis by (rule that)
qed

lemma parse_plan_ok:
  assumes "parse_plan E loads stamp created goal text = Ok p"
  shows "parsed_tasks (p_tasks p) \<and> acyclic_tasks (p_tasks p) \<and>
    topological (p_tasks p) (p_execution_order p)"
proof -
  from assms obtain vs data where "plan_of_nodes E (planned_header E stamp created goal data) vs = Ok p"
    by (rule parse_plan_nodes)
  moreover define p0 where "p0 = planned_header E stamp created goal data"
  ultimately obtain p1 ids p2 where p1: "(p1, ids) = add_nodes E 1 vs (p0, [])"
    and p2: "p2 = p1\<lparr>p_tasks := link_nodes E ids 1 vs (p_tasks p1)\<rparr>"
    and c: "compute_execution_order p2 = Some (True, p)"
    unfolding plan_of_nodes_def by (cases "add_nodes E 1 vs (p0, [])") (auto simp: Let_def split: option.splits bool.splits)
  have p0: "p_tasks p0 = []" by (simp add: p0_def planned_header_def new_plan_def)
  have parsed0: "parsed_tasks (p_tasks p0)"
    by (simp add: p0 parsed_tasks_def tasks_wf_def closed_tasks_def pending_tasks_def)
  have "fst (add_nodes E 1 vs (p0, [])) = p1" by (simp only: p1[symmetric] fst_conv)
  with link_nodes_parsed[OF add_nodes_parsed[OF parsed0, of E 1 vs "[]"], of E ids 1 vs]
  have parsed: "parsed_tasks (p_tasks p2)" by (simp add: p2)
  then have "plan_wf p2" by (simp add: plan_wf_def parsed_tasks_def)
  then show ?thesis
  proof (cases rule: compute_order_cases)
    case (sorted p')
    with c have "p' = p" by simp
    with sorted have "p_tasks p = p_tasks p2" "topological (p_tasks p2) (p_execution_order p)" by (metis plan.select_convs(3) plan.surjective plan.update_convs(13), simp)
    with parsed topological_acyclic show ?thesis by metis
  next
    case cyclic
    with c show ?thesis by simp
  qed
qed

end
