(* ===== verification/Texts.thy ===== *)
theory Texts
  imports ApiText
begin

text \<open>
  String methods of Python that several components use, on ASCII texts: \<^verbatim>\<open>split\<close>,
  \<^verbatim>\<open>splitlines\<close>, \<^verbatim>\<open>lower\<close> and the newline.
\<close>

fun words_from :: "string \<Rightarrow> string \<Rightarrow> string list" where
  "words_from w [] = (if w = [] then [] else [w])"
| "words_from w (c # s) =
     (if is_space c then (if w = [] then words_from [] s else w # words_from [] s)
      else words_from (w @ [c]) s)"

definition lower_char :: "char \<Rightarrow> char" where
  "lower_char c = (if (65::nat) \<le> of_char c \<and> of_char c \<le> (90::nat) then char_of (of_char c + 32::nat) else c)"

definition newline :: string where
  "newline = [CHR 0x0A]"

text \<open>
  The number of lines of \<^verbatim>\<open>splitlines\<close>: a carriage return and a line feed end one line, a text
  that ends with its last line has no further one. \<open>open\<close> says whether a line has begun.
\<close>

definition line_end :: "char \<Rightarrow> bool" where
  "line_end c \<longleftrightarrow> of_char c \<in> {10::nat, 11, 12, 13, 28, 29, 30}"

fun lines_from :: "bool \<Rightarrow> string \<Rightarrow> nat" where
  "lines_from begun [] = (if begun then 1 else 0)"
| "lines_from begun (c # s) =
     (if c = CHR 0x0D \<and> s \<noteq> [] \<and> hd s = CHR 0x0A then lines_from False s
      else if line_end c then Suc (lines_from False s) else lines_from True s)"

definition line_count :: "string \<Rightarrow> nat" where
  "line_count s = lines_from False s"

text \<open>\<^verbatim>\<open>re.split\<close> at runs of carriage returns and line feeds, without the empty parts.\<close>

fun rows_from :: "string \<Rightarrow> string \<Rightarrow> string list" where
  "rows_from w [] = (if w = [] then [] else [w])"
| "rows_from w (c # s) =
     (if c \<in> {CHR 0x0D, CHR 0x0A} then (if w = [] then rows_from [] s else w # rows_from [] s)
      else rows_from (w @ [c]) s)"

end
