(* ===== verification/PlanSchedule.thy ===== *)
theory PlanSchedule
  imports PlanCodec Planner RunState Texts
begin

text \<open>
  What \<^verbatim>\<open>PlanExecuteStrategy\<close> of \<^verbatim>\<open>runtime/plan_strategy.py\<close> does to a plan: which tasks are ready,
  how they are given child runs, what a finished child makes of its task, the skipping of tasks
  whose dependencies failed, what a replacement plan takes over, and the texts built from a plan.
\<close>

section \<open>Texts\<close>

text \<open>\<^verbatim>\<open>casefold\<close>, of ASCII letters.\<close>

definition normalized_description :: "string \<Rightarrow> string" where
  "normalized_description s = py_join '' '' (words_from [] (map lower_char s))"

definition preview :: "nat \<Rightarrow> string \<Rightarrow> string" where
  "preview n s =
     (let v = py_strip (py_replace [CHR 0x0D, CHR 0x0A] newline s) in
      if length v \<le> n then v else take (n - 3) v @ ''...'')"

text \<open>Identifiers of children and spans; \<open>D\<close> is the hexadecimal SHA-256 digest.\<close>

definition plan_task_key :: "string \<Rightarrow> int \<Rightarrow> string \<Rightarrow> int \<Rightarrow> string" where
  "plan_task_key parent version i attempt =
     parent @ '':plan_v'' @ int_repr version @ '':'' @ i @ '':'' @ int_repr attempt"

definition plan_task_child_run_id :: "(string \<Rightarrow> string) \<Rightarrow> string \<Rightarrow> int \<Rightarrow> string \<Rightarrow> int \<Rightarrow> string" where
  "plan_task_child_run_id D parent version i attempt =
     ''run_plan_'' @ take 32 (D (plan_task_key parent version i attempt))"

definition plan_task_span_id :: "(string \<Rightarrow> string) \<Rightarrow> string \<Rightarrow> int \<Rightarrow> string \<Rightarrow> int \<Rightarrow> string" where
  "plan_task_span_id D parent version i attempt =
     ''span_plan_'' @ take 32 (D (plan_task_key parent version i attempt))"

section \<open>The snapshot of the scheduler\<close>

text \<open>\<^verbatim>\<open>_tasks_in_plan_order\<close>; the order it caches in the plan is not stored.\<close>

definition tasks_in_order :: "plan \<Rightarrow> task list res" where
  "tasks_in_order p =
     mapR (\<lambda>i. case map_of (p_tasks p) i of None \<Rightarrow> Raise (KeyError i) | Some t \<Rightarrow> Ok t)
       (fst (execution_order p))"

record scheduler_snapshot =
  sn_ready :: "string list"
  sn_active :: "string list"
  sn_waiting :: "string list"
  sn_terminal :: "string list"

type_synonym child_states = "(string \<times> run_state option) list"

definition child_status :: "child_states \<Rightarrow> string \<Rightarrow> run_status option" where
  "child_status cs i = (case map_of cs i of Some (Some c) \<Rightarrow> Some (r_status c) | _ \<Rightarrow> None)"

definition task_terminal :: "task \<Rightarrow> bool" where
  "task_terminal t \<longleftrightarrow> t_status t \<in> {COMPLETED, FAILED, SKIPPED, CANCELLED}"

definition paused_child :: "child_states \<Rightarrow> string \<Rightarrow> bool" where
  "paused_child cs i \<longleftrightarrow> child_status cs i \<in> {Some RunWAITING_APPROVAL, Some RunINTERRUPTED}"

text \<open>The dictionary from identifiers to statuses: a later entry replaces an earlier one.\<close>

definition task_statuses :: "plan \<Rightarrow> (string \<times> task_status) list" where
  "task_statuses p = rev (map (\<lambda>t. (t_id t, t_status t)) (all_tasks p))"

definition task_ready :: "(string \<times> task_status) list \<Rightarrow> task \<Rightarrow> bool" where
  "task_ready statuses t \<longleftrightarrow> t_status t = PENDING \<and>
     list_all (\<lambda>d. map_of statuses d = Some COMPLETED) (t_dependencies t)"

definition plan_scheduler_snapshot :: "plan \<Rightarrow> child_states \<Rightarrow> scheduler_snapshot res" where
  "plan_scheduler_snapshot p cs =
     bindR (tasks_in_order p) (\<lambda>ts. Ok
       \<lparr>sn_ready = map t_id (filter (task_ready (task_statuses p)) ts),
        sn_active = map t_id (filter (\<lambda>t. \<not> task_terminal t \<and> \<not> paused_child cs (t_id t) \<and> t_status t = RUNNING) ts),
        sn_waiting = map t_id (filter (\<lambda>t. \<not> task_terminal t \<and> paused_child cs (t_id t)) ts),
        sn_terminal = map t_id (filter task_terminal ts)\<rparr>)"

text \<open>The tasks whose child is to be started or resumed.\<close>

definition launchable_tasks :: "plan \<Rightarrow> child_states \<Rightarrow> task list res" where
  "launchable_tasks p cs =
     bindR (tasks_in_order p) (\<lambda>ts.
     Ok (filter (\<lambda>t. t_status t = RUNNING \<and> t_child_run_id t \<noteq> None \<and> t_child_run_id t \<noteq> Some [] \<and>
                     child_status cs (t_id t) \<in> {None, Some RunRUNNING}) ts))"

section \<open>Tasks and their children\<close>

definition set_task :: "string \<Rightarrow> task \<Rightarrow> plan \<Rightarrow> plan" where
  "set_task i t p = p\<lparr>p_tasks := dict_set i t (p_tasks p)\<rparr>"

definition schedule_task :: "(string \<Rightarrow> string) \<Rightarrow> rat \<Rightarrow> string \<Rightarrow> int \<Rightarrow> task \<Rightarrow> task" where
  "schedule_task D now parent version t =
     (if t_child_run_id t = None
      then let t1 = task_mark_started now t in
           t1\<lparr>t_child_run_id := Some (plan_task_child_run_id D parent version (t_id t1) (t_attempt t1))\<rparr>
      else t\<lparr>t_status := RUNNING, t_start_time := (if t_start_time t = 0 then now else t_start_time t)\<rparr>)
     \<lparr>t_execution_state := ''ASSIGNED''\<rparr>"

text \<open>
  The loop of \<^verbatim>\<open>_persist_ready_tasks\<close>; \<open>clock i\<close> is the time read for the task \<open>i\<close>. The second
  component lists the tasks it scheduled.
\<close>

definition schedule_next :: "(string \<Rightarrow> string) \<Rightarrow> (string \<Rightarrow> rat) \<Rightarrow> string \<Rightarrow> plan \<times> string list \<Rightarrow> string \<Rightarrow> plan \<times> string list" where
  "schedule_next D clock parent s i =
     (case get_task i (fst s) of
        None \<Rightarrow> s
      | Some t \<Rightarrow>
          if t_status t \<noteq> PENDING then s
          else (set_task i (schedule_task D (clock i) parent (p_version (fst s)) t) (fst s), snd s @ [i]))"

definition schedule_ready :: "(string \<Rightarrow> string) \<Rightarrow> (string \<Rightarrow> rat) \<Rightarrow> string \<Rightarrow> string list \<Rightarrow> plan \<Rightarrow> plan \<times> string list" where
  "schedule_ready D clock parent ids p =
     foldl (schedule_next D clock parent)
       (if p_status p = PlanCREATED then plan_mark_started (clock []) p else p, []) ids"

text \<open>
  What \<^verbatim>\<open>_observe_child\<close> makes of a task whose child is not running any more, with the name of
  the operation it saves under. \<open>None\<close>: the pause of the child is known already.
\<close>

definition child_error_text :: "run_state \<Rightarrow> string" where
  "child_error_text c = (case r_error c of
       Some e \<Rightarrow> e_message e | None \<Rightarrow> map lower_char (run_status_value (r_status c)))"

definition observed_task :: "rat \<Rightarrow> run_state \<Rightarrow> task \<Rightarrow> (task \<times> string) option" where
  "observed_task now c t =
     (let state = run_status_value (r_status c) in
      if r_status c \<in> {RunWAITING_APPROVAL, RunINTERRUPTED}
      then (if t_execution_state t = state then None
            else Some (t\<lparr>t_execution_state := state\<rparr>, ''plan.step.waiting''))
      else if r_status c = RunCOMPLETED
      then Some ((task_mark_completed now (r_output_text c) t)\<lparr>t_error := [], t_execution_state := state\<rparr>,
                 ''plan.step.completed'')
      else if r_status c = RunCANCELLED
      then Some ((task_mark_cancelled now (child_error_text c) t)\<lparr>t_execution_state := state\<rparr>, ''plan.step.cancelled'')
      else Some ((task_mark_failed now (child_error_text c) t)\<lparr>t_execution_state := state\<rparr>, ''plan.step.failed''))"

section \<open>The barrier before a replan\<close>

text \<open>\<^verbatim>\<open>_release_unstarted_tasks\<close>: a task without a stored child goes back. \<open>True\<close>: the plan changed.\<close>

definition unstarted :: "child_states \<Rightarrow> task \<Rightarrow> bool" where
  "unstarted cs t \<longleftrightarrow> t_status t = RUNNING \<and> t_child_run_id t \<noteq> None \<and> t_child_run_id t \<noteq> Some [] \<and>
     child_status cs (t_id t) = None"

definition map_tasks :: "(task \<Rightarrow> task) \<Rightarrow> tasks \<Rightarrow> tasks" where
  "map_tasks f ts = map (\<lambda>(k, t). (k, f t)) ts"

definition release_unstarted :: "child_states \<Rightarrow> plan \<Rightarrow> plan \<times> bool" where
  "release_unstarted cs p =
     (p\<lparr>p_tasks := map_tasks (\<lambda>t. if unstarted cs t
          then t\<lparr>t_status := PENDING, t_execution_state := []\<rparr> else t) (p_tasks p)\<rparr>,
      list_ex (unstarted cs) (all_tasks p))"

text \<open>
  \<^verbatim>\<open>_skip_failed_dependents\<close>: rounds over all tasks, each with the statuses from its beginning,
  until a round changes nothing.
\<close>

definition failed_dependencies :: "(string \<times> task_status) list \<Rightarrow> task \<Rightarrow> string list" where
  "failed_dependencies statuses t =
     filter (\<lambda>d. map_of statuses d \<in> {Some FAILED, Some CANCELLED, Some SKIPPED}) (t_dependencies t)"

definition to_skip :: "(string \<times> task_status) list \<Rightarrow> task \<Rightarrow> bool" where
  "to_skip statuses t \<longleftrightarrow> t_status t = PENDING \<and> failed_dependencies statuses t \<noteq> []"

definition skip_task :: "rat \<Rightarrow> (string \<times> task_status) list \<Rightarrow> task \<Rightarrow> task" where
  "skip_task now statuses t =
     (if to_skip statuses t
      then (task_mark_skipped now t)
             \<lparr>t_error := ''dependency did not complete successfully: ''
                         @ py_join '', '' (failed_dependencies statuses t),
              t_execution_state := task_status_value SKIPPED\<rparr>
      else t)"

definition statuses_of :: "tasks \<Rightarrow> (string \<times> task_status) list" where
  "statuses_of ts = rev (map (\<lambda>t. (t_id t, t_status t)) (dict_values ts))"

definition pending_count :: "tasks \<Rightarrow> nat" where
  "pending_count ts = length (filter (\<lambda>t. t_status t = PENDING) (dict_values ts))"

lemma map_tasks_simps [simp]:
  "map_of (map_tasks f ts) k = map_option f (map_of ts k)"
  "dict_keys (map_tasks f ts) = dict_keys ts"
  "dict_values (map_tasks f ts) = map f (dict_values ts)"
  by (induction ts) (auto simp: map_tasks_def)

lemma pending_count_map:
  assumes "\<And>t. t_status (f t) = PENDING \<Longrightarrow> t_status t = PENDING"
    and "t \<in> set (dict_values ts)" "t_status t = PENDING" "t_status (f t) \<noteq> PENDING"
  shows "pending_count (map_tasks f ts) < pending_count ts"
proof -
  have le: "length (filter (\<lambda>t. t_status t = PENDING) (map f xs)) \<le> length (filter (\<lambda>t. t_status t = PENDING) xs)" for xs
    using assms(1) by (induction xs) (auto simp: le_SucI)
  have "length (filter (\<lambda>t. t_status t = PENDING) (map f xs)) < length (filter (\<lambda>t. t_status t = PENDING) xs)"
    if "t \<in> set xs" for xs using that
  proof (induction xs)
    case (Cons x xs)
    show ?case
    proof (cases "t = x")
      case True
      then show ?thesis using le[of xs] assms(3,4) by simp
    next
      case False
      then show ?thesis using Cons assms(1)[of x] by auto
    qed
  qed simp
  from this[OF assms(2)] show ?thesis unfolding pending_count_def map_tasks_simps .
qed

function skip_failed :: "rat \<Rightarrow> tasks \<Rightarrow> tasks" where
  "skip_failed now ts =
     (if list_ex (to_skip (statuses_of ts)) (dict_values ts)
      then skip_failed now (map_tasks (skip_task now (statuses_of ts)) ts) else ts)"
  by pat_completeness auto
termination
proof (relation "measure (\<lambda>(now, ts). pending_count ts)")
  fix now :: rat and ts :: tasks
  assume "list_ex (to_skip (statuses_of ts)) (dict_values ts)"
  then obtain t where "t \<in> set (dict_values ts)" "to_skip (statuses_of ts) t"
    unfolding list_ex_iff by blast
  then show "((now, map_tasks (skip_task now (statuses_of ts)) ts), now, ts) \<in> measure (\<lambda>(now, ts). pending_count ts)"
    unfolding in_measure prod.case
    by (intro pending_count_map[of _ t]) (auto simp del: set_map simp: skip_task_def to_skip_def task_mark_skipped_def split: if_splits)
qed simp

declare skip_failed.simps [simp del]

definition skip_failed_dependents :: "rat \<Rightarrow> plan \<Rightarrow> plan \<times> bool" where
  "skip_failed_dependents now p =
     (p\<lparr>p_tasks := skip_failed now (p_tasks p)\<rparr>,
      list_ex (to_skip (statuses_of (p_tasks p))) (all_tasks p))"

section \<open>Cancelling and replanning\<close>

text \<open>\<^verbatim>\<open>on_cancel\<close>, on the plan.\<close>

definition cancel_plan :: "rat \<Rightarrow> plan \<Rightarrow> plan" where
  "cancel_plan now p =
     p\<lparr>p_tasks := map_tasks (\<lambda>t. if task_terminal t then t
          else (task_mark_cancelled now ''cancelled'' t)\<lparr>t_execution_state := run_status_value RunCANCELLED\<rparr>) (p_tasks p),
       p_status := PlanCANCELLED, p_end_time := now\<rparr>"

definition completed_by_description :: "plan \<Rightarrow> (string \<times> task) list" where
  "completed_by_description p =
     rev (map (\<lambda>t. (normalized_description (t_description t), t))
           (filter (\<lambda>t. t_status t = COMPLETED) (all_tasks p)))"

definition reuse_task :: "plan \<Rightarrow> task \<Rightarrow> task" where
  "reuse_task previous t =
     (case map_of (completed_by_description previous) (normalized_description (t_description t)) of
        None \<Rightarrow> t
      | Some u \<Rightarrow>
          t\<lparr>t_status := COMPLETED, t_result := t_result u, t_error := [], t_attempt := t_attempt u,
            t_child_run_id := t_child_run_id u,
            t_reused_from := Some (''plan_v'' @ int_repr (p_version previous) @ '':'' @ t_id u),
            t_execution_state := t_execution_state u, t_start_time := t_start_time u,
            t_end_time := t_end_time u\<rparr>)"

definition reuse_completed_tasks :: "plan \<Rightarrow> plan \<Rightarrow> plan" where
  "reuse_completed_tasks previous p = p\<lparr>p_tasks := map_tasks (reuse_task previous) (p_tasks p)\<rparr>"

definition failed_task :: "plan \<Rightarrow> task option" where
  "failed_task p = find (\<lambda>t. t_status t \<in> {FAILED, CANCELLED}) (all_tasks p)"

definition replan_reason :: "plan \<Rightarrow> string" where
  "replan_reason p = (case failed_task p of
       Some t \<Rightarrow> if t_error t = [] then ''plan step failed'' else t_error t
     | None \<Rightarrow> ''plan step failed'')"

text \<open>The plan of the planner becomes the next version of the failed one.\<close>

definition replacement_plan :: "pyenv \<Rightarrow> string \<Rightarrow> plan \<Rightarrow> plan \<Rightarrow> plan res" where
  "replacement_plan E reason failed p =
     bindR (plan_snapshot E reason failed) (\<lambda>v.
     Ok (reuse_completed_tasks failed
           (p\<lparr>p_version := p_version failed + 1, p_replan_count := p_replan_count failed + 1,
              p_history := p_history failed @ [v]\<rparr>)))"

section \<open>Texts built from a plan\<close>

fun collect_history :: "string list \<Rightarrow> task list \<Rightarrow> (string \<times> string) list" where
  "collect_history seen [] = []"
| "collect_history seen (t # ts) =
     (let key = normalized_description (t_description t) in
      if t_status t \<noteq> COMPLETED \<or> t_result t = [] \<or> key \<in> set seen then collect_history seen ts
      else (t_description t, t_result t) # collect_history (key # seen) ts)"

definition completed_history :: "plan \<Rightarrow> (string \<times> string) list" where
  "completed_history p = collect_history [] (concat (map pv_tasks (p_history p)))"

definition dependency_line :: "plan \<Rightarrow> string \<Rightarrow> string list" where
  "dependency_line p i =
     (case get_task i p of
        Some d \<Rightarrow> if t_status d = COMPLETED
                  then [''- ['' @ t_id d @ ''] '' @ t_description d @ '': '' @ preview 800 (t_result d)] else []
      | None \<Rightarrow> [])"

definition task_context :: "plan \<Rightarrow> task \<Rightarrow> string" where
  "task_context p t =
     (let carried = completed_history p in
      py_join newline
        ([''Goal: '' @ p_goal p, ''Plan version: '' @ int_repr (p_version p),
          ''Current task ['' @ t_id t @ '']: '' @ t_description t, [], ''Completed dependency results:'']
         @ concat (map (dependency_line p) (t_dependencies t))
         @ (if carried = [] then []
            else [[], ''Completed work from earlier plan versions:'']
                 @ map (\<lambda>(d, r). ''- '' @ d @ '': '' @ preview 800 r) carried)))"

definition task_system_prompt :: "string \<Rightarrow> task \<Rightarrow> string" where
  "task_system_prompt prompt t =
     prompt @ newline @ newline
     @ ''You are executing one durable task inside a Plan-and-Execute strategy.'' @ newline
     @ ''Task id: '' @ t_id t @ newline @ ''Task type: '' @ task_type_value (t_type t) @ newline
     @ ''Complete only this task. Use tools when needed and return the concrete result.''"

definition build_plan_result :: "plan \<Rightarrow> string" where
  "build_plan_result p =
     py_join newline
       ([''Plan execution completed.'', [], ''Task summary:'']
        @ concat (map (\<lambda>t. [''- ['' @ t_id t @ ''] '' @ task_status_value (t_status t) @ '': '' @ t_description t]
            @ (if t_result t = [] then [] else [''  Result: '' @ preview 160 (t_result t)])) (all_tasks p)))
     @ newline"

section \<open>The plan in the state of the run\<close>

definition load_plan :: "pyenv \<Rightarrow> run_state \<Rightarrow> plan option res" where
  "load_plan E st = (case dict_get (r_strategy_state st) ''plan'' of
       PDict d \<Rightarrow> bindR (plan_from_dict E d) (\<lambda>p. Ok (Some p)) | _ \<Rightarrow> Ok None)"

definition store_plan :: "plan \<Rightarrow> run_state \<Rightarrow> run_state" where
  "store_plan p st =
     st\<lparr>r_strategy_state := dict_set ''plan'' (PDict (plan_to_dict p)) (r_strategy_state st)\<rparr>"

definition LEGACY_TASK_KEYS :: "string list" where
  "LEGACY_TASK_KEYS = [''current_task_id'', ''current_task_output'', ''current_task_error'',
     ''current_task_complete'', ''current_task_turn_start'', ''current_task_message_start'']"

definition legacy_plan_state :: "pyenv \<Rightarrow> run_state \<Rightarrow> bool res" where
  "legacy_plan_state E st =
     (let keys = list_ex (\<lambda>k. map_of (r_strategy_state st) k \<noteq> None) LEGACY_TASK_KEYS in
      case dict_get (r_strategy_state st) ''plan'' of
        PDict d \<Rightarrow> bindR (py_int E (py_or (dict_get d ''schema_version'') (PInt 0))) (\<lambda>v. Ok (v = 1 \<or> keys))
      | _ \<Rightarrow> Ok keys)"

definition clear_legacy_task_state :: "run_state \<Rightarrow> run_state" where
  "clear_legacy_task_state st =
     st\<lparr>r_strategy_state := filter (\<lambda>(k, v). k \<notin> set LEGACY_TASK_KEYS) (r_strategy_state st),
        r_pending_tool_calls := [], r_next_tool_index := 0, r_error := None\<rparr>"

end
