(* ===== verification/PlanFlow.thy ===== *)
theory PlanFlow
  imports PlanSchedule
begin

text \<open>
  What holds of every plan the strategy can reach, whatever its children do: tasks run after
  their dependencies, a plan that is not finished has something to do or to wait for, and the
  skipping of blocked tasks is exact.
\<close>

section \<open>Sound plans\<close>

definition deps_completed :: "tasks \<Rightarrow> task \<Rightarrow> bool" where
  "deps_completed ts t \<longleftrightarrow> (\<forall>d \<in> set (t_dependencies t). \<exists>u. map_of ts d = Some u \<and> t_status u = COMPLETED)"

definition unsuccessful :: "task_status \<Rightarrow> bool" where
  "unsuccessful s \<longleftrightarrow> s \<in> {FAILED, CANCELLED, SKIPPED}"

definition has_failed_dependency :: "tasks \<Rightarrow> task \<Rightarrow> bool" where
  "has_failed_dependency ts t \<longleftrightarrow>
     (\<exists>d \<in> set (t_dependencies t). \<exists>u. map_of ts d = Some u \<and> unsuccessful (t_status u))"

text \<open>A task that was given a child in this version of the plan.\<close>

definition has_run :: "task \<Rightarrow> bool" where
  "has_run t \<longleftrightarrow> t_status t \<in> {RUNNING, FAILED} \<or> t_status t = COMPLETED \<and> t_reused_from t = None"

definition task_sound :: "tasks \<Rightarrow> task \<Rightarrow> bool" where
  "task_sound ts t \<longleftrightarrow> (has_run t \<longrightarrow> deps_completed ts t) \<and>
     (t_status t = RUNNING \<longrightarrow> t_child_run_id t \<noteq> None) \<and>
     (t_status t = SKIPPED \<longrightarrow> has_failed_dependency ts t)"

definition tasks_sound :: "tasks \<Rightarrow> bool" where
  "tasks_sound ts \<longleftrightarrow> tasks_wf ts \<and> acyclic_tasks ts \<and> closed_tasks ts \<and> dependents_complete ts \<and>
     (\<forall>k t. map_of ts k = Some t \<longrightarrow> task_sound ts t)"

definition plan_sound :: "plan \<Rightarrow> bool" where
  "plan_sound p \<longleftrightarrow> tasks_sound (p_tasks p) \<and> p_schema_version p = PLAN_SCHEMA_VERSION \<and> order_cache_ok p"

text \<open>How one task may change while the others are as in \<open>ts\<close>.\<close>

definition task_moves :: "tasks \<Rightarrow> task \<Rightarrow> task \<Rightarrow> bool" where
  "task_moves ts t t' \<longleftrightarrow>
     t_id t' = t_id t \<and> t_dependencies t' = t_dependencies t \<and> t_dependents t' = t_dependents t \<and>
     t_reused_from t' = t_reused_from t \<and>
     (t_status t' = t_status t \<and> t_child_run_id t' = t_child_run_id t \<or>
      t_status t = PENDING \<and> t_status t' = RUNNING \<and> deps_completed ts t \<and> t_child_run_id t' \<noteq> None \<or>
      t_status t = RUNNING \<and> t_status t' \<in> {PENDING, COMPLETED, FAILED, CANCELLED} \<or>
      t_status t = PENDING \<and> t_status t' = SKIPPED \<and> has_failed_dependency ts t \<or>
      t_status t = PENDING \<and> t_status t' = CANCELLED)"

lemma task_moves_refl [simp]: "task_moves ts t t"
  by (simp add: task_moves_def)

lemma task_moves_fields:
  assumes "task_moves ts t t'"
  shows "t_id t' = t_id t" "t_dependencies t' = t_dependencies t" "t_dependents t' = t_dependents t"
    "t_reused_from t' = t_reused_from t"
  using assms by (simp_all add: task_moves_def)

lemma task_moves_completed: "task_moves ts t t' \<Longrightarrow> t_status t = COMPLETED \<Longrightarrow> t_status t' = COMPLETED"
  by (auto simp: task_moves_def)

lemma task_moves_unsuccessful:
  "task_moves ts t t' \<Longrightarrow> unsuccessful (t_status t) \<Longrightarrow> unsuccessful (t_status t')"
  by (auto simp: task_moves_def unsuccessful_def)

definition tasks_move :: "tasks \<Rightarrow> tasks \<Rightarrow> bool" where
  "tasks_move ts ts' \<longleftrightarrow> dict_keys ts' = dict_keys ts \<and>
     (\<forall>k t. map_of ts k = Some t \<longrightarrow> (\<exists>t'. map_of ts' k = Some t' \<and> task_moves ts t t'))"

text \<open>The links between the tasks alone.\<close>

definition same_links :: "task \<Rightarrow> task \<Rightarrow> bool" where
  "same_links t t' \<longleftrightarrow> t_id t' = t_id t \<and> t_dependencies t' = t_dependencies t \<and> t_dependents t' = t_dependents t"

definition same_shape :: "tasks \<Rightarrow> tasks \<Rightarrow> bool" where
  "same_shape ts ts' \<longleftrightarrow> dict_keys ts' = dict_keys ts \<and>
     (\<forall>k t. map_of ts k = Some t \<longrightarrow> (\<exists>t'. map_of ts' k = Some t' \<and> same_links t t'))"

lemma tasks_moveD:
  assumes "tasks_move ts ts'"
  shows "dict_keys ts' = dict_keys ts"
    and "map_of ts k = Some t \<Longrightarrow> \<exists>t'. map_of ts' k = Some t' \<and> task_moves ts t t'"
  using assms unfolding tasks_move_def by blast+

lemma tasks_move_back:
  assumes "tasks_move ts ts'" "map_of ts' k = Some t'"
  obtains t where "map_of ts k = Some t" "task_moves ts t t'"
proof -
  have "map_of ts k \<noteq> None"
    using map_of_eq_keys[OF tasks_moveD(1)[OF assms(1)], of k] assms(2) by simp
  then obtain t where t: "map_of ts k = Some t" by blast
  from tasks_moveD(2)[OF assms(1) t] assms(2) have "task_moves ts t t'" by simp
  with t show thesis by (rule that)
qed

lemma same_shapeD:
  assumes "same_shape ts ts'"
  shows "dict_keys ts' = dict_keys ts"
    and "map_of ts k = Some t \<Longrightarrow> \<exists>t'. map_of ts' k = Some t' \<and> same_links t t'"
  using assms unfolding same_shape_def by blast+

lemma same_shape_back:
  assumes "same_shape ts ts'" "map_of ts' k = Some t'"
  obtains t where "map_of ts k = Some t" "same_links t t'"
proof -
  have "map_of ts k \<noteq> None"
    using map_of_eq_keys[OF same_shapeD(1)[OF assms(1)], of k] assms(2) by simp
  then obtain t where t: "map_of ts k = Some t" by blast
  from same_shapeD(2)[OF assms(1) t] assms(2) have "same_links t t'" by simp
  with t show thesis by (rule that)
qed

lemma same_links_fields:
  assumes "same_links t t'"
  shows "t_id t' = t_id t" "t_dependencies t' = t_dependencies t" "t_dependents t' = t_dependents t"
  using assms by (simp_all add: same_links_def)

lemma tasks_move_shape: "tasks_move ts ts' \<Longrightarrow> same_shape ts ts'"
  unfolding tasks_move_def same_shape_def same_links_def task_moves_def by blast

lemma same_shape_map: "(\<And>t. same_links t (f t)) \<Longrightarrow> same_shape ts (map_tasks f ts)"
  by (simp add: same_shape_def)

lemma tasks_move_map:
  "(\<And>k t. map_of ts k = Some t \<Longrightarrow> task_moves ts t (f t)) \<Longrightarrow> tasks_move ts (map_tasks f ts)"
  by (simp add: tasks_move_def)

lemma tasks_move_set:
  assumes "map_of ts i = Some t" "task_moves ts t t'"
  shows "tasks_move ts (dict_set i t' ts)"
  unfolding tasks_move_def
proof (intro conjI allI impI)
  show "dict_keys (dict_set i t' ts) = dict_keys ts"
    by (rule dict_keys_set_present) (simp add: key_iff_map_of assms(1))
  fix k u assume "map_of ts k = Some u"
  with assms show "\<exists>t''. map_of (dict_set i t' ts) k = Some t'' \<and> task_moves ts u t''"
    by (cases "k = i") simp_all
qed

lemma same_shape_edge:
  assumes "same_shape ts ts'" "(a, b) \<in> dep_edges ts"
  shows "(a, b) \<in> dep_edges ts'"
proof -
  from assms(2) obtain t where t: "map_of ts a = Some t" "b \<in> set (t_dependencies t)" "map_of ts b \<noteq> None"
    unfolding dep_edges_def by blast
  from same_shapeD(2)[OF assms(1) t(1)] obtain t' where "map_of ts' a = Some t'" "same_links t t'" by blast
  moreover have "map_of ts' b \<noteq> None"
    using map_of_eq_keys[OF same_shapeD(1)[OF assms(1)], of b] t(3) by blast
  ultimately show ?thesis using t(2) same_links_fields(2) unfolding dep_edges_def by fastforce
qed

lemma same_shape_edge_back:
  assumes "same_shape ts ts'" "(a, b) \<in> dep_edges ts'"
  shows "(a, b) \<in> dep_edges ts"
proof -
  from assms(2) obtain t' where t': "map_of ts' a = Some t'" "b \<in> set (t_dependencies t')" "map_of ts' b \<noteq> None"
    unfolding dep_edges_def by blast
  from assms(1) t'(1) obtain t where "map_of ts a = Some t" "same_links t t'" by (rule same_shape_back)
  moreover have "map_of ts b \<noteq> None"
    using map_of_eq_keys[OF same_shapeD(1)[OF assms(1)], of b] t'(3) by blast
  ultimately show ?thesis using t'(2) same_links_fields(2) unfolding dep_edges_def by fastforce
qed

lemma same_shape_edges: "same_shape ts ts' \<Longrightarrow> dep_edges ts' = dep_edges ts"
  by (intro equalityI subrelI) (blast intro: same_shape_edge same_shape_edge_back)+

lemma same_shape_wf:
  assumes m: "same_shape ts ts'" and wf: "tasks_wf ts"
  shows "tasks_wf ts'"
proof (rule tasks_wfI)
  show "distinct (dict_keys ts')" unfolding same_shapeD(1)[OF m] by (rule tasks_wf_distinct[OF wf])
  fix k t' assume t': "map_of ts' k = Some t'"
  obtain t where t: "map_of ts k = Some t" "same_links t t'" using m t' by (rule same_shape_back)
  from tasks_wf_map_of[OF wf t(1)] same_links_fields(1)[OF t(2)] show "t_id t' = k" by simp
qed

lemma same_shape_closed:
  assumes m: "same_shape ts ts'" and c: "closed_tasks ts"
  shows "closed_tasks ts'"
  unfolding closed_tasks_def same_shapeD(1)[OF m]
proof (intro allI impI)
  fix k t' assume t': "map_of ts' k = Some t'"
  obtain t where t: "map_of ts k = Some t" "same_links t t'" using m t' by (rule same_shape_back)
  from c t(1) have "set (t_dependencies t) \<subseteq> set (dict_keys ts)" unfolding closed_tasks_def by blast
  with same_links_fields(2)[OF t(2)] show "set (t_dependencies t') \<subseteq> set (dict_keys ts)" by simp
qed

lemma same_shape_dependents:
  assumes m: "same_shape ts ts'" and d: "dependents_complete ts"
  shows "dependents_complete ts'"
  unfolding dependents_complete_def
proof (intro allI impI)
  fix a b t' u' assume t': "map_of ts' a = Some t'" and u': "map_of ts' b = Some u'" and dep: "b \<in> set (t_dependencies t')"
  obtain t where t: "map_of ts a = Some t" "same_links t t'" using m t' by (rule same_shape_back)
  obtain u where u: "map_of ts b = Some u" "same_links u u'" using m u' by (rule same_shape_back)
  have "a \<in> set (t_dependents u)"
    using d t(1) u(1) dep unfolding dependents_complete_def same_links_fields(2)[OF t(2)] by blast
  then show "a \<in> set (t_dependents u')" unfolding same_links_fields(3)[OF u(2)] .
qed

lemma deps_completed_move:
  assumes m: "tasks_move ts ts'" and t: "task_moves ts t t'" and d: "deps_completed ts t"
  shows "deps_completed ts' t'"
  unfolding deps_completed_def task_moves_fields(2)[OF t]
proof
  fix i assume "i \<in> set (t_dependencies t)"
  with d obtain u where u: "map_of ts i = Some u" "t_status u = COMPLETED" unfolding deps_completed_def by blast
  from tasks_moveD(2)[OF m u(1)] obtain u' where "map_of ts' i = Some u'" "task_moves ts u u'" by blast
  with task_moves_completed[OF _ u(2)] show "\<exists>u. map_of ts' i = Some u \<and> t_status u = COMPLETED" by blast
qed

lemma has_failed_dependency_move:
  assumes m: "tasks_move ts ts'" and t: "task_moves ts t t'" and d: "has_failed_dependency ts t"
  shows "has_failed_dependency ts' t'"
proof -
  from d obtain i u where u: "i \<in> set (t_dependencies t)" "map_of ts i = Some u" "unsuccessful (t_status u)"
    unfolding has_failed_dependency_def by blast
  from tasks_moveD(2)[OF m u(2)] obtain u' where "map_of ts' i = Some u'" "task_moves ts u u'" by blast
  with task_moves_unsuccessful[OF _ u(3)] u(1) task_moves_fields(2)[OF t] show ?thesis
    unfolding has_failed_dependency_def by metis
qed

lemma task_sound_move:
  assumes "tasks_move ts ts'" "task_moves ts t t'" "task_sound ts t"
  shows "task_sound ts' t'"
proof -
  have "(deps_completed ts t \<longrightarrow> deps_completed ts' t') \<and> (has_failed_dependency ts t \<longrightarrow> has_failed_dependency ts' t')"
    using deps_completed_move[OF assms(1,2)] has_failed_dependency_move[OF assms(1,2)] by blast
  moreover have "has_run t' \<Longrightarrow> has_run t \<or> deps_completed ts t"
    "t_status t' = RUNNING \<Longrightarrow> t_child_run_id t' \<noteq> None"
    "t_status t' = SKIPPED \<Longrightarrow> has_failed_dependency ts t"
    using assms(2,3) by (auto simp: task_sound_def has_run_def task_moves_def)
  ultimately show ?thesis using assms(3) unfolding task_sound_def by blast
qed

lemma tasks_move_sound:
  assumes m: "tasks_move ts ts'" and s: "tasks_sound ts"
  shows "tasks_sound ts'"
  unfolding tasks_sound_def
proof (intro conjI allI impI)
  note sh = tasks_move_shape[OF m]
  show "tasks_wf ts'" "closed_tasks ts'" "dependents_complete ts'"
    using s by (simp_all add: tasks_sound_def same_shape_wf[OF sh] same_shape_closed[OF sh] same_shape_dependents[OF sh])
  show "acyclic_tasks ts'"
    using s by (simp add: tasks_sound_def acyclic_tasks_def same_shape_edges[OF sh])
  fix k t' assume t': "map_of ts' k = Some t'"
  obtain t where t: "map_of ts k = Some t" "task_moves ts t t'" using m t' by (rule tasks_move_back)
  from s t(1) have "task_sound ts t" unfolding tasks_sound_def by blast
  with m t(2) show "task_sound ts' t'" by (rule task_sound_move)
qed

lemma plan_move_sound:
  assumes "plan_sound p" "tasks_move (p_tasks p) (p_tasks p')"
    and "p_schema_version p' = p_schema_version p" "p_execution_order p' = p_execution_order p"
  shows "plan_sound p'"
proof -
  have "order_cache_ok p'"
    using assms same_shape_edges[OF tasks_move_shape[OF assms(2)]]
    by (auto simp: plan_sound_def order_cache_ok_def topological_def tasks_move_def)
  with assms tasks_move_sound show ?thesis by (auto simp: plan_sound_def)
qed

section \<open>The operations\<close>

lemma map_of_rev_distinct: "distinct (map fst xs) \<Longrightarrow> map_of (rev xs) k = map_of xs k"
proof (induction xs)
  case (Cons x xs)
  obtain a b where x: "x = (a, b)" by fastforce
  have none: "map_of xs k = None" if "a = k" using Cons.prems that x by (simp add: map_of_eq_None_iff)
  have IH: "map_of (rev xs) k = map_of xs k" using Cons.prems by (intro Cons.IH) simp
  show ?case
  proof (cases "a = k")
    case True
    then show ?thesis by (simp add: x map_add_def IH none)
  next
    case False
    then show ?thesis by (cases "map_of xs k") (simp_all add: x map_add_def IH)
  qed
qed simp

lemma statuses_lookup:
  assumes "tasks_wf ts" shows "map_of (statuses_of ts) d = map_option t_status (map_of ts d)"
proof -
  have ids: "map (\<lambda>t. (t_id t, t_status t)) (dict_values ts) = map (\<lambda>(k, t). (k, t_status t)) ts"
    using assms by (auto simp: tasks_wf_def)
  have "distinct (map fst (map (\<lambda>(k, t). (k, t_status t)) ts))"
    using tasks_wf_distinct[OF assms] by (simp add: comp_def case_prod_unfold)
  from map_of_rev_distinct[OF this, of d] show ?thesis
    unfolding statuses_of_def ids by (simp add: map_of_map)
qed

lemma task_statuses_of: "task_statuses p = statuses_of (p_tasks p)"
  by (simp add: task_statuses_def statuses_of_def all_tasks_def)

lemma task_ready_deps:
  assumes "tasks_wf ts" "task_ready (statuses_of ts) t"
  shows "t_status t = PENDING \<and> deps_completed ts t"
  using assms by (auto simp: task_ready_def deps_completed_def statuses_lookup list_all_iff)

lemma to_skip_deps:
  assumes "tasks_wf ts"
  shows "to_skip (statuses_of ts) t \<longleftrightarrow> t_status t = PENDING \<and> has_failed_dependency ts t"
  using assms
  by (auto simp: to_skip_def failed_dependencies_def has_failed_dependency_def statuses_lookup
      filter_empty_conv unsuccessful_def)

lemma tasks_in_order_sound:
  assumes "plan_sound p"
  shows "\<exists>ts. tasks_in_order p = Ok ts \<and> distinct ts \<and>
    set ts = {t. map_of (p_tasks p) (t_id t) = Some t}"
proof -
  have wf: "plan_wf p" and twf: "tasks_wf (p_tasks p)" and ac: "acyclic_tasks (p_tasks p)"
    using assms by (simp_all add: plan_sound_def tasks_sound_def plan_wf_def)
  have top: "topological (p_tasks p) (fst (execution_order p)) \<or> p_tasks p = [] \<and> fst (execution_order p) = []"
  proof (cases "p_execution_order p = []")
    case True
    from wf show ?thesis
    proof (cases rule: compute_order_cases)
      case (sorted p') with True show ?thesis by (simp add: execution_order_def)
    next
      case cyclic with ac show ?thesis by simp
    qed
  next
    case False
    with assms show ?thesis by (simp add: plan_sound_def order_cache_ok_def execution_order_def)
  qed
  then have ord: "distinct (fst (execution_order p))" "set (fst (execution_order p)) = set (dict_keys (p_tasks p))"
    by (auto simp: topological_def)
  let ?get = "\<lambda>i. the (map_of (p_tasks p) i)"
  have get: "map_of (p_tasks p) i = Some (?get i)" "t_id (?get i) = i" if "i \<in> set (dict_keys (p_tasks p))" for i
    using that tasks_wf_map_of[OF twf] by (auto simp: key_iff_map_of)
  have "mapR (\<lambda>i. case map_of (p_tasks p) i of None \<Rightarrow> Raise (KeyError i) | Some t \<Rightarrow> Ok t) xs = Ok (map ?get xs)"
    if "set xs \<subseteq> set (dict_keys (p_tasks p))" for xs
    using that
  proof (induction xs)
    case (Cons x xs)
    then have x: "map_of (p_tasks p) x = Some (?get x)" by (intro get(1)) simp
    from Cons show ?case by (subst mapR.simps, subst x) simp
  qed simp
  from this[OF equalityD1[OF ord(2)]] have "tasks_in_order p = Ok (map ?get (fst (execution_order p)))"
    unfolding tasks_in_order_def .
  moreover have "distinct (map ?get (fst (execution_order p)))"
  proof -
    have "inj_on ?get (set (fst (execution_order p)))"
      unfolding ord(2) by (rule inj_on_inverseI[of _ t_id]) (rule get(2))
    with ord(1) show ?thesis unfolding distinct_map by blast
  qed
  moreover have "set (map ?get (fst (execution_order p))) = {t. map_of (p_tasks p) (t_id t) = Some t}"
  proof (intro equalityI subsetI)
    fix t assume "t \<in> set (map ?get (fst (execution_order p)))"
    then obtain i where i: "i \<in> set (dict_keys (p_tasks p))" "t = ?get i" using ord(2) unfolding set_map by blast
    with get[OF i(1)] show "t \<in> {t. map_of (p_tasks p) (t_id t) = Some t}" by simp
  next
    fix t assume "t \<in> {t. map_of (p_tasks p) (t_id t) = Some t}"
    then have t: "map_of (p_tasks p) (t_id t) = Some t" by simp
    then have "t_id t \<in> set (fst (execution_order p))" unfolding ord(2) by (simp add: key_iff_map_of)
    moreover have "t = ?get (t_id t)" using t by simp
    ultimately show "t \<in> set (map ?get (fst (execution_order p)))" unfolding set_map by blast
  qed
  ultimately show ?thesis by blast
qed

lemma schedule_task_moves:
  assumes "t_status t = PENDING" "deps_completed ts t"
  shows "task_moves ts t (schedule_task D now parent v t)"
  using assms by (simp add: task_moves_def schedule_task_def Let_def task_mark_started_def)

lemma set_task_tasks [simp]:
  "p_tasks (set_task i t p) = dict_set i t (p_tasks p)"
  "p_schema_version (set_task i t p) = p_schema_version p"
  "p_execution_order (set_task i t p) = p_execution_order p"
  by (simp_all add: set_task_def)

lemma set_task_sound:
  assumes "plan_sound p" "map_of (p_tasks p) i = Some t" "task_moves (p_tasks p) t t'"
  shows "plan_sound (set_task i t' p)"
  by (rule plan_move_sound[OF assms(1)]) (simp_all add: tasks_move_set[OF assms(2,3)])

definition may_run :: "plan \<Rightarrow> string \<Rightarrow> bool" where
  "may_run p i \<longleftrightarrow> (\<forall>t. map_of (p_tasks p) i = Some t \<longrightarrow> t_status t = PENDING \<longrightarrow> deps_completed (p_tasks p) t)"

lemma schedule_next_sound:
  assumes "plan_sound p" "may_run p i"
  shows "plan_sound (fst (schedule_next D clock parent (p, done') i)) \<and>
    (may_run p j \<longrightarrow> may_run (fst (schedule_next D clock parent (p, done') i)) j)"
proof (cases "\<exists>t. map_of (p_tasks p) i = Some t \<and> t_status t = PENDING")
  case True
  then obtain t where t: "map_of (p_tasks p) i = Some t" "t_status t = PENDING" by blast
  let ?t = "schedule_task D (clock i) parent (p_version p) t"
  have m: "task_moves (p_tasks p) t ?t"
    using schedule_task_moves[OF t(2)] assms(2) t by (simp add: may_run_def)
  have r: "fst (schedule_next D clock parent (p, done') i) = set_task i ?t p"
    using t by (simp add: schedule_next_def get_task_def)
  have "may_run (set_task i ?t p) j" if j: "may_run p j"
    unfolding may_run_def
  proof (intro allI impI)
    fix u assume u: "map_of (p_tasks (set_task i ?t p)) j = Some u" "t_status u = PENDING"
    have ij: "j \<noteq> i"
    proof
      assume "j = i"
      then have "t_status u = RUNNING" using u(1) by (auto simp: schedule_task_def Let_def task_mark_started_def)
      with u(2) show False by simp
    qed
    with u j have "deps_completed (p_tasks p) u" by (simp add: may_run_def)
    from deps_completed_move[OF tasks_move_set[OF t(1) m] task_moves_refl this]
    show "deps_completed (p_tasks (set_task i ?t p)) u" by simp
  qed
  with r set_task_sound[OF assms(1) t(1) m] show ?thesis by simp
next
  case False
  then have "schedule_next D clock parent (p, done') i = (p, done')"
    by (auto simp: schedule_next_def get_task_def split: option.split)
  with assms(1) show ?thesis by simp
qed

lemma schedule_sound_fold:
  "plan_sound (fst s) \<Longrightarrow> (\<And>i. i \<in> set ids \<Longrightarrow> may_run (fst s) i) \<Longrightarrow>
    plan_sound (fst (foldl (schedule_next D clock parent) s ids))"
proof (induction ids arbitrary: s)
  case (Cons i ids)
  obtain p d where s: "s = (p, d)" by fastforce
  have step: "plan_sound (fst (schedule_next D clock parent s i)) \<and>
      (may_run p j \<longrightarrow> may_run (fst (schedule_next D clock parent s i)) j)" for j
    unfolding s by (rule schedule_next_sound) (use Cons.prems s in auto)
  show ?case unfolding foldl.simps
    by (rule Cons.IH) (use step Cons.prems(2) s in auto)
qed simp

lemma snapshot_ready:
  assumes "plan_sound p" "plan_scheduler_snapshot p cs = Ok sn" "i \<in> set (sn_ready sn)"
  shows "may_run p i"
proof -
  have wf: "tasks_wf (p_tasks p)" using assms(1) by (simp add: plan_sound_def tasks_sound_def)
  from tasks_in_order_sound[OF assms(1)] obtain ts where ts: "tasks_in_order p = Ok ts"
    "set ts = {t. map_of (p_tasks p) (t_id t) = Some t}" by blast
  from assms(2,3) ts(1) obtain t where t: "t \<in> set ts" "task_ready (task_statuses p) t" "i = t_id t"
    by (auto simp: plan_scheduler_snapshot_def)
  with ts(2) task_ready_deps[OF wf, of t] show ?thesis by (simp add: may_run_def task_statuses_of)
qed

lemma schedule_ready_sound:
  assumes "plan_sound p" "plan_scheduler_snapshot p cs = Ok sn"
  shows "plan_sound (fst (schedule_ready D clock parent (sn_ready sn) p))"
proof -
  let ?p = "if p_status p = PlanCREATED then plan_mark_started (clock []) p else p"
  have tasks: "p_tasks ?p = p_tasks p" by (simp add: plan_mark_started_def)
  have "plan_sound ?p"
    using assms(1) by (simp add: plan_sound_def plan_mark_started_def order_cache_ok_def)
  moreover have "may_run ?p i" if "i \<in> set (sn_ready sn)" for i
    using snapshot_ready[OF assms that] unfolding may_run_def tasks .
  ultimately show ?thesis unfolding schedule_ready_def by (intro schedule_sound_fold) simp_all
qed

lemma observed_task_moves:
  "t_status t = RUNNING \<Longrightarrow> observed_task now c t = Some (t', op) \<Longrightarrow> task_moves ts t t'"
  by (auto simp: observed_task_def Let_def task_moves_def task_mark_completed_def task_mark_failed_def
      task_mark_cancelled_def split: if_splits)

lemma release_unstarted_sound: "plan_sound p \<Longrightarrow> plan_sound (fst (release_unstarted cs p))"
  by (rule plan_move_sound)
    (auto simp: release_unstarted_def unstarted_def task_moves_def intro!: tasks_move_map)

lemma cancel_plan_sound:
  assumes "plan_sound p" shows "plan_sound (cancel_plan now p)"
proof (rule plan_move_sound[OF assms])
  show "tasks_move (p_tasks p) (p_tasks (cancel_plan now p))"
  proof -
    have "task_moves ts t (if task_terminal t then t
        else (task_mark_cancelled now ''cancelled'' t)\<lparr>t_execution_state := run_status_value RunCANCELLED\<rparr>)" for ts t
      by (cases "t_status t") (simp_all add: task_terminal_def task_moves_def task_mark_cancelled_def)
    then show ?thesis by (simp add: cancel_plan_def tasks_move_map)
  qed
qed (simp_all add: cancel_plan_def)

lemma skip_task_moves:
  "tasks_wf ts \<Longrightarrow> task_moves ts t (skip_task now (statuses_of ts) t)"
  by (simp add: skip_task_def to_skip_deps task_moves_def task_mark_skipped_def)

lemma skip_failed_sound: "tasks_sound ts \<Longrightarrow> tasks_sound (skip_failed now ts)"
proof (induction now ts rule: skip_failed.induct)
  case (1 now ts)
  have "tasks_sound (map_tasks (skip_task now (statuses_of ts)) ts)"
    using 1(2) by (intro tasks_move_sound[OF tasks_move_map]) (simp_all add: skip_task_moves tasks_sound_def)
  with 1 show ?case by (subst skip_failed.simps) simp
qed

lemma skip_failed_shape: "same_shape ts (skip_failed now ts)"
proof (induction now ts rule: skip_failed.induct)
  case (1 now ts)
  have "same_links t (skip_task now (statuses_of ts) t)" for t
    by (simp add: same_links_def skip_task_def task_mark_skipped_def)
  then have one: "same_shape ts (map_tasks (skip_task now (statuses_of ts)) ts)" by (rule same_shape_map)
  show ?case
  proof (cases "list_ex (to_skip (statuses_of ts)) (dict_values ts)")
    case True
    have trans: "same_shape a b \<Longrightarrow> same_shape b c \<Longrightarrow> same_shape a c" for a b c
      unfolding same_shape_def same_links_def by metis
    from trans[OF one 1[OF True]] True show ?thesis by (subst skip_failed.simps) simp
  next
    case False
    then show ?thesis by (subst skip_failed.simps) (simp add: same_shape_def same_links_def)
  qed
qed

lemma skip_failed_dependents_sound:
  assumes "plan_sound p" shows "plan_sound (fst (skip_failed_dependents now p))"
proof -
  have "order_cache_ok (fst (skip_failed_dependents now p))"
    using assms same_shape_edges[OF skip_failed_shape] same_shapeD(1)[OF skip_failed_shape]
    by (simp add: plan_sound_def order_cache_ok_def topological_def skip_failed_dependents_def)
  with assms skip_failed_sound show ?thesis by (simp add: plan_sound_def skip_failed_dependents_def)
qed

end
