(* ===== verification/PlanFlowProps.thy ===== *)
theory PlanFlowProps
  imports PlanFlow RunStateProps
begin

text \<open>
  The plans a run can reach, from the parser through every operation of the strategy, the store
  and the replans, and what holds of all of them.
\<close>

section \<open>Parsed plans, replacements and reloads\<close>

lemma link_dependency_complete:
  assumes "dependents_complete ts" "k \<in> set (dict_keys ts)"
  shows "dependents_complete (link_dependency E ids k raw ts)"
proof -
  define d where "d = (case map_of ids (py_str E raw) of None \<Rightarrow> py_str E raw | Some d \<Rightarrow> d)"
  have "dependents_complete (modify_task d (add_dependent k) (modify_task k (add_dependency d) ts))"
    unfolding dependents_complete_def
  proof (intro allI impI)
    fix a b x y
    assume x: "map_of (modify_task d (add_dependent k) (modify_task k (add_dependency d) ts)) a = Some x"
      and y: "map_of (modify_task d (add_dependent k) (modify_task k (add_dependency d) ts)) b = Some y"
      and dep: "b \<in> set (t_dependencies x)"
    from x obtain x0 where x0: "map_of ts a = Some x0"
      "set (t_dependencies x) = (if a = k then insert d (set (t_dependencies x0)) else set (t_dependencies x0))"
      by (auto simp: map_of_modify_task split: if_splits)
    have "\<exists>y0. map_of ts b = Some y0 \<and> set (t_dependents y0) \<subseteq> set (t_dependents y) \<and>
        (b = d \<longrightarrow> k \<in> set (t_dependents y))"
      using y by (auto simp: map_of_modify_task split: if_splits)
    then obtain y0 where y0: "map_of ts b = Some y0" "set (t_dependents y0) \<subseteq> set (t_dependents y)"
      "b = d \<Longrightarrow> k \<in> set (t_dependents y)" by blast
    show "a \<in> set (t_dependents y)"
    proof (cases "b \<in> set (t_dependencies x0)")
      case True
      then have "a \<in> set (t_dependents y0)" using assms(1) x0(1) y0(1) unfolding dependents_complete_def by blast
      with y0(2) show ?thesis by blast
    next
      case False
      with dep x0(2) have "a = k" "b = d" by (simp_all split: if_splits)
      with y0(3) show ?thesis by simp
    qed
  qed
  with assms(1) show ?thesis unfolding link_dependency_def Let_def d_def[symmetric] by simp
qed

lemma link_dependency_keys [simp]: "dict_keys (link_dependency E ids k raw ts) = dict_keys ts"
  by (simp add: link_dependency_def Let_def)

lemma link_nodes_complete: "dependents_complete ts \<Longrightarrow> dependents_complete (link_nodes E ids i vs ts)"
proof (induction vs arbitrary: i ts)
  case (Cons v vs)
  have fold: "dependents_complete (foldl (\<lambda>ts raw. link_dependency E ids k raw ts) ts raws)"
    if "k \<in> set (dict_keys ts)" "dependents_complete ts" for k raws ts
    using that
  proof (induction raws arbitrary: ts)
    case (Cons raw raws)
    show ?case unfolding foldl.simps
      by (rule Cons.IH) (simp_all only: link_dependency_keys Cons.prems link_dependency_complete)
  qed simp
  have "dependents_complete (case (v, map_of ts (task_key i)) of
      (PDict node, Some t) \<Rightarrow> (case py_or (dict_get node ''dependencies'') (PList []) of
         PList raws \<Rightarrow> foldl (\<lambda>ts raw. link_dependency E ids (task_key i) raw ts) ts raws | _ \<Rightarrow> ts)
    | _ \<Rightarrow> ts)"
  proof (cases "map_of ts (task_key i)")
    case None
    then show ?thesis using Cons.prems by (cases v) simp_all
  next
    case (Some t)
    then have "task_key i \<in> set (dict_keys ts)" by (simp add: key_iff_map_of)
    from fold[OF this Cons.prems] Some Cons.prems show ?thesis
      by (cases v) (simp_all split: pyval.split)
  qed
  with Cons.IH show ?case by simp
qed simp

lemma add_nodes_complete:
  "tasks_wf (p_tasks p) \<Longrightarrow> dependents_complete (p_tasks p) \<Longrightarrow>
    tasks_wf (p_tasks (fst (add_nodes E i vs (p, ids)))) \<and> dependents_complete (p_tasks (fst (add_nodes E i vs (p, ids))))"
proof (induction E i vs "(p, ids)" arbitrary: p ids rule: add_nodes.induct)
  case (2 E i v vs p ids)
  show ?case
  proof (cases "\<exists>node. v = PDict node")
    case True
    then obtain node where v: "v = PDict node" by blast
    from 2(1)[of "add_task (node_task E i node) p"] 2(2,3) v show ?thesis
      by (simp add: added_tasks_wf added_tasks_complete)
  next
    case False
    with 2 show ?thesis by (cases v) simp_all
  qed
qed simp

lemma parsed_plan_sound:
  assumes "parse_plan E loads stamp created goal text = Ok p"
  shows "plan_sound p"
proof -
  note ok = parse_plan_ok[OF assms]
  from assms obtain vs data where run: "plan_of_nodes E (planned_header E stamp created goal data) vs = Ok p"
    by (rule parse_plan_nodes)
  obtain p1 ids where p1: "add_nodes E 1 vs (planned_header E stamp created goal data, []) = (p1, ids)" by fastforce
  have h: "p_tasks (planned_header E stamp created goal data) = []" by (simp add: planned_header_def new_plan_def)
  have "dependents_complete (p_tasks p1)"
    using add_nodes_complete[of "planned_header E stamp created goal data" E 1 vs "[]"] p1
    by (simp add: h tasks_wf_def dependents_complete_def)
  then have "dependents_complete (link_nodes E ids 1 vs (p_tasks p1))" by (rule link_nodes_complete)
  moreover have "p_tasks p = link_nodes E ids 1 vs (p_tasks p1)" "p_schema_version p = p_schema_version p1"
    using run p1 by (auto simp: plan_of_nodes_def Let_def compute_execution_order_def split: option.splits bool.splits)
  moreover have "p_schema_version (fst (add_nodes E i vs (q, ids))) = p_schema_version q" for i q ids
    by (induction E i vs "(q, ids)" arbitrary: q ids rule: add_nodes.induct)
      (auto simp: add_task_def split: pyval.splits)
  from this[of 1 "planned_header E stamp created goal data" "[]"] p1
  have "p_schema_version p1 = PLAN_SCHEMA_VERSION" by (simp add: planned_header_def new_plan_def)
  ultimately show ?thesis using ok
    by (simp add: plan_sound_def tasks_sound_def order_cache_ok_def parsed_tasks_def pending_tasks_def
        task_sound_def has_run_def)
qed

lemma reuse_task_links: "same_links t (reuse_task previous t)"
  by (simp add: same_links_def reuse_task_def split: option.split)

lemma replacement_sound:
  assumes "parse_plan E loads stamp created goal text = Ok q" "replacement_plan E' reason failed q = Ok p"
  shows "plan_sound p"
proof -
  note ok = parse_plan_ok[OF assms(1)] and sound = parsed_plan_sound[OF assms(1)]
  from assms(2) have p: "p_tasks p = map_tasks (reuse_task failed) (p_tasks q)"
    "p_schema_version p = p_schema_version q" "p_execution_order p = p_execution_order q"
    by (auto simp: replacement_plan_def reuse_completed_tasks_def bindR_Ok_iff)
  have sh: "same_shape (p_tasks q) (p_tasks p)" unfolding p by (rule same_shape_map[OF reuse_task_links])
  have "tasks_sound (p_tasks p)"
    unfolding tasks_sound_def
  proof (intro conjI allI impI)
    show "tasks_wf (p_tasks p)" "closed_tasks (p_tasks p)" "dependents_complete (p_tasks p)"
      using sound same_shape_wf[OF sh] same_shape_closed[OF sh] same_shape_dependents[OF sh]
      by (simp_all add: plan_sound_def tasks_sound_def)
    show "acyclic_tasks (p_tasks p)" using ok by (simp add: acyclic_tasks_def same_shape_edges[OF sh])
    fix k t assume "map_of (p_tasks p) k = Some t"
    then obtain u where u: "map_of (p_tasks q) k = Some u" "t = reuse_task failed u" by (auto simp: p)
    with ok have "t_status u = PENDING" by (auto simp: parsed_tasks_def pending_tasks_def)
    then show "task_sound (p_tasks p) t"
      unfolding u by (simp add: reuse_task_def task_sound_def has_run_def split: option.split)
  qed
  moreover have "order_cache_ok p"
    using sound same_shape_edges[OF sh] same_shapeD(1)[OF sh] p
    by (simp add: plan_sound_def order_cache_ok_def topological_def)
  ultimately show ?thesis using sound p by (simp add: plan_sound_def)
qed

text \<open>Writing a plan to the state of the run and reading it back.\<close>

lemma reload_sound:
  assumes "plan_sound p" "plan_from_dict E (plan_to_dict p) = Ok p'"
  shows "plan_sound p' \<and> p_tasks p' = p_tasks p"
proof -
  let ?hdr = "\<lambda>p0. p_tasks p0 = [] \<and> p_schema_version p0 = PLAN_SCHEMA_VERSION"
  have schema: "p_schema_version p = 2" using assms(1) by (simp add: plan_sound_def PLAN_SCHEMA_VERSION_def)
  obtain p0 q hist where hdr: "plan_header E (plan_to_dict p) = Ok p0"
    and load: "load_tasks E 2 (map task_to_dict (all_tasks p)) p0 = Ok q"
    and chk: "check_order (q\<lparr>p_history := hist\<rparr>) = Ok p'"
    using assms(2) by (auto simp: plan_from_dict_def bindR_Ok_iff plan_to_dict_get schema PLAN_SCHEMA_VERSION_def)
  have p0: "p_tasks p0 = []" "p_schema_version p0 = PLAN_SCHEMA_VERSION" "p_execution_order p0 = []"
    using hdr by (auto simp: plan_header_def bindR_Ok_iff)
  have wf: "tasks_wf (p_tasks p)" "dependents_complete (p_tasks p)"
    using assms(1) by (simp_all add: plan_sound_def tasks_sound_def)
  have "load_tasks E 2 (map task_to_dict (dict_values (p_tasks p))) p0 = Ok (p0\<lparr>p_tasks := [] @ p_tasks p\<rparr>)"
    by (rule load_tasks_readd) (simp_all add: wf p0)
  with load have "p_tasks q = p_tasks p" by (auto simp: all_tasks_def)
  moreover have "p_tasks p' = p_tasks q"
    using chk by (auto simp: check_order_def compute_execution_order_def split: option.splits bool.splits)
  ultimately have tasks: "p_tasks p' = p_tasks p" by simp
  have "p_schema_version p' = PLAN_SCHEMA_VERSION \<and> order_cache_ok p'"
    using plan_from_dict_invariant[OF assms(2)] by blast
  with assms(1) tasks show ?thesis by (simp add: plan_sound_def)
qed

section \<open>Reachable plans\<close>

inductive plan_step :: "plan \<Rightarrow> plan \<Rightarrow> bool" where
  scheduled: "plan_scheduler_snapshot p cs = Ok sn \<Longrightarrow>
    plan_step p (fst (schedule_ready D clock parent (sn_ready sn) p))"
| observed: "get_task i p = Some t \<Longrightarrow> t_status t = RUNNING \<Longrightarrow> observed_task now c t = Some (t', op) \<Longrightarrow>
    plan_step p (set_task i t' p)"
| released: "plan_step p (fst (release_unstarted cs p))"
| skipped: "plan_step p (fst (skip_failed_dependents now p))"
| cancelled: "plan_step p (cancel_plan now p)"
| completed: "plan_step p (plan_mark_completed now p)"
| failed: "plan_step p (plan_mark_failed now p)"
| replanned: "parse_plan E loads stamp created goal text = Ok q \<Longrightarrow> replacement_plan E' reason p q = Ok p' \<Longrightarrow>
    plan_step p p'"
| reloaded: "plan_from_dict E (plan_to_dict p) = Ok p' \<Longrightarrow> plan_step p p'"

inductive plan_reached :: "plan \<Rightarrow> bool" where
  planned: "parse_plan E loads stamp created goal text = Ok p \<Longrightarrow> plan_reached p"
| continued: "plan_reached p \<Longrightarrow> plan_step p p' \<Longrightarrow> plan_reached p'"

lemma plan_step_sound: "plan_step p p' \<Longrightarrow> plan_sound p \<Longrightarrow> plan_sound p'"
proof (induction rule: plan_step.induct)
  case (observed i p t now c t' op)
  then show ?case by (intro set_task_sound observed_task_moves) (simp_all add: get_task_def)
next
  case (completed p now)
  then show ?case by (simp add: plan_sound_def plan_mark_completed_def order_cache_ok_def)
next
  case (failed p now)
  then show ?case by (simp add: plan_sound_def plan_mark_failed_def order_cache_ok_def)
next
  case (reloaded E p p')
  then show ?case by (blast dest: reload_sound)
qed (simp_all add: schedule_ready_sound release_unstarted_sound skip_failed_dependents_sound
      cancel_plan_sound replacement_sound)

lemma plan_reached_sound: "plan_reached p \<Longrightarrow> plan_sound p"
  by (induction rule: plan_reached.induct) (simp_all add: parsed_plan_sound plan_step_sound)


section \<open>No plan stalls\<close>

lemma first_not_completed:
  assumes "tasks_sound ts" "map_of ts k = Some t" "t_status t \<noteq> COMPLETED"
  shows "\<exists>k t. map_of ts k = Some t \<and> t_status t \<noteq> COMPLETED \<and> deps_completed ts t"
proof -
  have "finite (dep_edges ts)"
    by (rule finite_subset[of _ "set (dict_keys ts) \<times> set (dict_keys ts)"]) (auto dest: dep_edges_dom)
  then have wf: "wf ((dep_edges ts)\<inverse>)"
    using assms(1) by (intro finite_acyclic_wf_converse) (simp_all add: tasks_sound_def acyclic_tasks_def)
  then have "wfp (\<lambda>b a. (a, b) \<in> dep_edges ts)" by (simp add: wfp_def wf_def converse_unfold)
  then show ?thesis using assms(2,3)
  proof (induction k arbitrary: t rule: wfp_induct_rule)
    case (less k)
    show ?case
    proof (cases "deps_completed ts t")
      case True
      with less.prems show ?thesis by blast
    next
      case False
      then obtain d where d: "d \<in> set (t_dependencies t)"
        "\<not> (\<exists>u. map_of ts d = Some u \<and> t_status u = COMPLETED)" unfolding deps_completed_def by blast
      have "d \<in> set (dict_keys ts)"
        using assms(1) less.prems(1) d(1) unfolding tasks_sound_def closed_tasks_def by blast
      then obtain u where u: "map_of ts d = Some u" by (auto simp: key_iff_map_of)
      have "(k, d) \<in> dep_edges ts" using less.prems(1) d(1) u unfolding dep_edges_def by blast
      from less.IH[OF this u] d(2) u show ?thesis by blast
    qed
  qed
qed


section \<open>What a failure skips\<close>

text \<open>
  The tasks a failure blocks: those that wait for an unsuccessful task or for a blocked one.
\<close>

inductive blocked :: "tasks \<Rightarrow> string \<Rightarrow> bool" for ts where
  failed_dependency: "map_of ts k = Some t \<Longrightarrow> t_status t = PENDING \<Longrightarrow> has_failed_dependency ts t \<Longrightarrow> blocked ts k"
| blocked_dependency: "map_of ts k = Some t \<Longrightarrow> t_status t = PENDING \<Longrightarrow> d \<in> set (t_dependencies t) \<Longrightarrow>
    blocked ts d \<Longrightarrow> blocked ts k"

abbreviation skip_round :: "rat \<Rightarrow> tasks \<Rightarrow> tasks" where
  "skip_round now ts \<equiv> map_tasks (skip_task now (statuses_of ts)) ts"

lemma blocked_pending: "blocked ts k \<Longrightarrow> map_of ts k = Some t \<Longrightarrow> t_status t = PENDING"
  by (auto elim: blocked.cases)

lemma skip_task_cases:
  assumes "tasks_wf ts"
  shows "t_status t = PENDING \<and> has_failed_dependency ts t \<and> t_status (skip_task now (statuses_of ts) t) = SKIPPED \<or>
    \<not> (t_status t = PENDING \<and> has_failed_dependency ts t) \<and> skip_task now (statuses_of ts) t = t"
  by (simp add: skip_task_def to_skip_deps[OF assms] task_mark_skipped_def)

lemma skip_task_dependencies [simp]: "t_dependencies (skip_task now ss t) = t_dependencies t"
  by (simp add: skip_task_def task_mark_skipped_def)

lemma round_blocked:
  assumes wf: "tasks_wf ts" and b: "blocked (skip_round now ts) k"
  shows "blocked ts k"
  using b
proof (induction rule: blocked.induct)
  case (failed_dependency k t1)
  then obtain t where t: "map_of ts k = Some t" "t1 = skip_task now (statuses_of ts) t" by auto
  with failed_dependency(2) skip_task_cases[OF wf, of t now] have same: "t1 = t" "t_status t = PENDING" by auto
  from failed_dependency(3) same obtain d u where u: "d \<in> set (t_dependencies t)" "map_of ts d = Some u"
    "unsuccessful (t_status (skip_task now (statuses_of ts) u))" unfolding has_failed_dependency_def by auto
  from skip_task_cases[OF wf, of u now] show ?case
  proof
    assume "t_status u = PENDING \<and> has_failed_dependency ts u \<and> t_status (skip_task now (statuses_of ts) u) = SKIPPED"
    then have "blocked ts d" by (intro blocked.failed_dependency[OF u(2)]) simp_all
    then show ?case by (rule blocked.blocked_dependency[OF t(1) same(2) u(1)])
  next
    assume "\<not> (t_status u = PENDING \<and> has_failed_dependency ts u) \<and> skip_task now (statuses_of ts) u = u"
    with u have "has_failed_dependency ts t" unfolding has_failed_dependency_def by auto
    then show ?case by (rule blocked.failed_dependency[OF t(1) same(2)])
  qed
next
  case (blocked_dependency k t1 d)
  then obtain t where t: "map_of ts k = Some t" "t1 = skip_task now (statuses_of ts) t" by auto
  with blocked_dependency(2) skip_task_cases[OF wf, of t now] have "t1 = t" "t_status t = PENDING" by auto
  with blocked_dependency t show ?case by (auto intro: blocked.blocked_dependency)
qed

lemma blocked_round:
  assumes wf: "tasks_wf ts" and b: "blocked ts k"
  shows "map_of (skip_round now ts) k = Some t1 \<Longrightarrow> t_status t1 = PENDING \<Longrightarrow> blocked (skip_round now ts) k"
  using b
proof (induction arbitrary: t1 rule: blocked.induct)
  case (failed_dependency k t)
  with skip_task_cases[OF wf, of t now] show ?case by auto
next
  case (blocked_dependency k t d)
  then have t1: "t1 = skip_task now (statuses_of ts) t" by simp
  obtain u where u: "map_of ts d = Some u" "t_status u = PENDING"
    using blocked_dependency(4) by (auto elim: blocked.cases)
  let ?u = "skip_task now (statuses_of ts) u"
  have u1: "map_of (skip_round now ts) d = Some ?u" using u by simp
  have d: "d \<in> set (t_dependencies t1)" using blocked_dependency(3) t1 by simp
  from skip_task_cases[OF wf, of u now] show ?case
  proof
    assume "t_status u = PENDING \<and> has_failed_dependency ts u \<and> t_status ?u = SKIPPED"
    with u1 d have "has_failed_dependency (skip_round now ts) t1"
      unfolding has_failed_dependency_def unsuccessful_def by blast
    with blocked_dependency(6,7) show ?case by (rule blocked.failed_dependency)
  next
    assume "\<not> (t_status u = PENDING \<and> has_failed_dependency ts u) \<and> ?u = u"
    with u(2) have "t_status ?u = PENDING" by simp
    from blocked_dependency(5)[OF u1 this] show ?case
      by (rule blocked.blocked_dependency[OF blocked_dependency(6,7) d])
  qed
qed

lemma settled_not_blocked:
  assumes wf: "tasks_wf ts" and none: "\<not> list_ex (to_skip (statuses_of ts)) (dict_values ts)"
  shows "\<not> blocked ts k"
proof
  assume "blocked ts k" then show False
  proof (induction rule: blocked.induct)
    case (failed_dependency k t)
    then have "to_skip (statuses_of ts) t" "t \<in> set (dict_values ts)"
      by (auto simp: to_skip_deps[OF wf] dest: map_of_SomeD intro: image_eqI[rotated])
    with none show ?case unfolding list_ex_iff by blast
  qed
qed

lemma skip_failed_blocked:
  "tasks_wf ts \<Longrightarrow> map_of ts k = Some t \<Longrightarrow>
    \<exists>t'. map_of (skip_failed now ts) k = Some t' \<and> (if blocked ts k then t_status t' = SKIPPED else t' = t)"
proof (induction now ts arbitrary: t rule: skip_failed.induct)
  case (1 now ts)
  note wf = 1(2) and t = 1(3)
  show ?case
  proof (cases "list_ex (to_skip (statuses_of ts)) (dict_values ts)")
    case False
    with settled_not_blocked[OF wf False] t show ?thesis by (subst skip_failed.simps) simp
  next
    case True
    let ?ts = "skip_round now ts" and ?t = "skip_task now (statuses_of ts) t"
    have t1: "map_of ?ts k = Some ?t" using t by simp
    have links: "same_links u (skip_task now (statuses_of ts) u)" for u
      by (simp add: same_links_def skip_task_def task_mark_skipped_def)
    have round: "skip_failed now ts = skip_failed now ?ts"
      by (subst skip_failed.simps) (simp only: True if_True)
    from 1(1)[OF True same_shape_wf[OF same_shape_map[OF links] wf] t1] obtain t' where
      t': "map_of (skip_failed now ts) k = Some t'" "if blocked ?ts k then t_status t' = SKIPPED else t' = ?t"
      unfolding round by blast
    from skip_task_cases[OF wf, of t now] show ?thesis
    proof
      assume s: "t_status t = PENDING \<and> has_failed_dependency ts t \<and> t_status ?t = SKIPPED"
      then have "\<not> blocked ?ts k" using blocked_pending[OF _ t1] by auto
      moreover have "blocked ts k" using s by (intro failed_dependency[OF t]) simp_all
      ultimately show ?thesis using t' s by auto
    next
      assume s: "\<not> (t_status t = PENDING \<and> has_failed_dependency ts t) \<and> ?t = t"
      have "blocked ?ts k \<longleftrightarrow> blocked ts k"
        using round_blocked[OF wf] blocked_round[OF wf _ t1] blocked_pending[OF _ t] s by metis
      with t' s show ?thesis by auto
    qed
  qed
qed

text \<open>C39: Once a task has failed, been cancelled or skipped, exactly the tasks that wait for it, directly or
  through other waiting tasks, are skipped, and every other task is left as it was.\<close>

theorem skip_failed_exact:
  assumes "tasks_wf (p_tasks p)" "get_task k p = Some t"
  shows "\<exists>t'. get_task k (fst (skip_failed_dependents now p)) = Some t' \<and>
    (if blocked (p_tasks p) k then t_status t' = SKIPPED else t' = t)"
  using skip_failed_blocked[OF assms(1), of k t now] assms(2)
  by (simp add: get_task_def skip_failed_dependents_def)

section \<open>A plan of two tasks\<close>

text \<open>The second task of the answer waits for the first; the child of the first ends.\<close>

definition demo_answer :: pyval where
  "demo_answer = PDict [(''tasks'', PList
     [PDict [(''id'', PStr ''a''), (''description'', PStr ''read'')],
      PDict [(''id'', PStr ''b''), (''description'', PStr ''write''), (''dependencies'', PList [PStr ''a''])]])]"

definition planned_demo :: "plan res" where
  "planned_demo = parse_plan demo_env (\<lambda>_. Ok demo_answer) 1 1 ''goal'' ''{}''"

definition demo_schedule :: "plan \<Rightarrow> plan res" where
  "demo_schedule p = bindR (plan_scheduler_snapshot p []) (\<lambda>sn.
     Ok (fst (schedule_ready (\<lambda>s. s) (\<lambda>_. 1) ''run'' (sn_ready sn) p)))"

definition demo_observe :: "run_status \<Rightarrow> plan \<Rightarrow> plan res" where
  "demo_observe s p = (case get_task ''task_1'' p of
       Some t \<Rightarrow> if t_status t \<noteq> RUNNING then Raise (KeyError [])
         else (case observed_task 2 (demo_run\<lparr>r_status := s\<rparr>) t of
           Some (t', operation) \<Rightarrow> Ok (set_task ''task_1'' t' p) | None \<Rightarrow> Raise (KeyError []))
     | None \<Rightarrow> Raise (KeyError []))"

definition observed_demo :: "run_status \<Rightarrow> plan res" where
  "observed_demo s = bindR planned_demo (\<lambda>p. bindR (demo_schedule p) (demo_observe s))"

definition running_demo :: "plan res" where
  "running_demo = bindR (observed_demo RunCOMPLETED) demo_schedule"

lemma planned_demo_reached: "planned_demo = Ok p \<Longrightarrow> plan_reached p"
  unfolding planned_demo_def by (rule planned)

lemma demo_schedule_reached: "plan_reached p \<Longrightarrow> demo_schedule p = Ok q \<Longrightarrow> plan_reached q"
  by (auto simp: demo_schedule_def bindR_Ok_iff intro: continued scheduled)

lemma demo_observe_reached: "plan_reached p \<Longrightarrow> demo_observe s p = Ok q \<Longrightarrow> plan_reached q"
  by (auto simp: demo_observe_def split: option.splits if_splits intro: continued observed)

lemma running_demo_reached:
  assumes "running_demo = Ok p" shows "plan_reached p"
proof -
  from assms obtain p0 p1 p2 where "planned_demo = Ok p0" "demo_schedule p0 = Ok p1"
    "demo_observe RunCOMPLETED p1 = Ok p2" "demo_schedule p2 = Ok p"
    unfolding running_demo_def observed_demo_def bindR_Ok_iff by blast
  then show ?thesis using planned_demo_reached demo_schedule_reached demo_observe_reached by metis
qed

definition demo_holds :: "(plan \<Rightarrow> bool) \<Rightarrow> plan res \<Rightarrow> bool" where
  "demo_holds P r = (case r of Inr p \<Rightarrow> P p | Inl e \<Rightarrow> False)"

lemma demo_holdsD: "demo_holds P r \<Longrightarrow> \<exists>p. r = Ok p \<and> P p"
  by (auto simp: demo_holds_def split: sum.splits)

definition second_runs :: "plan \<Rightarrow> bool" where
  "second_runs p = (case get_task ''task_2'' p of
     Some t \<Rightarrow> t_status t = RUNNING \<and> ''task_1'' \<in> set (t_dependencies t) | None \<Rightarrow> False)"

lemma running_demo_second: "demo_holds second_runs running_demo"
  by code_simp


lemma running_demo_unfinished: "demo_holds (\<lambda>p. \<not> is_all_completed p \<and> \<not> has_failed p) running_demo"
  by code_simp


definition failed_demo :: tasks where
  "failed_demo = [(''a'', (new_task ''a'' ''read'' [])\<lparr>t_status := FAILED\<rparr>),
     (''b'', new_task ''b'' ''check'' [''a'']), (''c'', new_task ''c'' ''write'' [''b''])]"

lemma failed_demo_lookup:
  "map_of failed_demo ''a'' = Some ((new_task ''a'' ''read'' [])\<lparr>t_status := FAILED\<rparr>)"
  "map_of failed_demo ''b'' = Some (new_task ''b'' ''check'' [''a''])"
  "map_of failed_demo ''c'' = Some (new_task ''c'' ''write'' [''b''])"
  by (simp_all add: failed_demo_def)

lemma failed_demo_blocked: "blocked failed_demo ''c''"
proof (rule blocked.blocked_dependency[OF failed_demo_lookup(3)])
  have "has_failed_dependency failed_demo (new_task ''b'' ''check'' [''a''])"
    using failed_demo_lookup(1) by (simp add: has_failed_dependency_def unsuccessful_def new_task_def)
  then show "blocked failed_demo ''b''"
    by (intro blocked.failed_dependency[OF failed_demo_lookup(2)]) (simp_all add: new_task_def)
qed (simp_all add: new_task_def)

lemma failed_demo_wf: "tasks_wf failed_demo"
  by (simp add: failed_demo_def tasks_wf_def new_task_def)

theorem skip_failed_exact_witness:
  "\<exists>t. get_task ''c'' (fst (skip_failed_dependents 1 ((new_plan 1 ''p'' ''g'')\<lparr>p_tasks := failed_demo\<rparr>))) = Some t \<and>
     t_status t = SKIPPED"
proof -
  let ?p = "(new_plan 1 ''p'' ''g'')\<lparr>p_tasks := failed_demo\<rparr>"
  have "tasks_wf (p_tasks ?p)" "get_task ''c'' ?p = Some (new_task ''c'' ''write'' [''b''])"
    by (simp_all add: failed_demo_wf get_task_def failed_demo_lookup)
  from skip_failed_exact[OF this, of 1] failed_demo_blocked show ?thesis by simp
qed

end
