(* ===== verification/ChildPool.thy ===== *)
theory ChildPool
  imports RunStateProps Effects
begin

text \<open>
  The local schedulers of child runs: \<^verbatim>\<open>LocalPlanTaskScheduler.execute\<close> of
  \<^verbatim>\<open>runtime/plan_strategy.py\<close> and \<^verbatim>\<open>LocalChildRunScheduler.execute\<close> of
  \<^verbatim>\<open>runtime/multi_agent_strategy.py\<close>. A pool holds what is queued, running and done; each turn of
  the loop launches up to the limit and waits until some of the running children complete.
\<close>

section \<open>The pool\<close>

record 'a pool =
  po_queue :: "'a list"
  po_running :: "'a list"
  po_results :: "('a \<times> run_state) list"
  po_stopped :: bool

definition new_pool :: "'a list \<Rightarrow> 'a pool" where
  "new_pool xs = \<lparr>po_queue = xs, po_running = [], po_results = [], po_stopped = False\<rparr>"

definition pool_limit :: "int \<Rightarrow> nat" where
  "pool_limit configured = nat (max 1 configured)"

definition launch :: "nat \<Rightarrow> 'a pool \<Rightarrow> 'a pool" where
  "launch limit p =
     (let n = limit - length (po_running p) in
      if po_stopped p then p
      else p\<lparr>po_queue := drop n (po_queue p), po_running := po_running p @ take n (po_queue p)\<rparr>)"

text \<open>
  \<open>stops\<close> tells which results stop the launching: failed and cancelled children for a plan, none
  for multi-agent assignments. \<open>accepted\<close> is what the observers of the completed children say.
\<close>

definition settle :: "(run_state \<Rightarrow> bool) \<Rightarrow> ('a \<times> run_state) list \<Rightarrow> bool \<Rightarrow> 'a pool \<Rightarrow> 'a pool" where
  "settle stops completed accepted p =
     p\<lparr>po_running := filter (\<lambda>x. x \<notin> fst ` set completed) (po_running p),
       po_results := po_results p @ completed,
       po_stopped := po_stopped p \<or> list_ex (\<lambda>(x, c). stops c) completed \<or> \<not> accepted\<rparr>"

definition plan_halts :: "run_state \<Rightarrow> bool" where
  "plan_halts c \<longleftrightarrow> r_status c \<in> {RunFAILED, RunCANCELLED}"

definition pool_idle :: "'a pool \<Rightarrow> bool" where
  "pool_idle p \<longleftrightarrow> po_running p = [] \<and> (po_queue p = [] \<or> po_stopped p)"

text \<open>Where a loop can be when it tests its condition.\<close>

inductive pool_reached :: "nat \<Rightarrow> (run_state \<Rightarrow> bool) \<Rightarrow> 'a list \<Rightarrow> 'a pool \<Rightarrow> bool" for limit stops xs where
  pool_start: "pool_reached limit stops xs (new_pool xs)"
| pool_launch: "pool_reached limit stops xs p \<Longrightarrow> \<not> pool_idle p \<Longrightarrow> pool_reached limit stops xs (launch limit p)"
| pool_settle: "pool_reached limit stops xs p \<Longrightarrow> completed \<noteq> [] \<Longrightarrow> distinct (map fst completed) \<Longrightarrow>
    fst ` set completed \<subseteq> set (po_running p) \<Longrightarrow> pool_reached limit stops xs (settle stops completed accepted p)"

definition started :: "'a pool \<Rightarrow> 'a list" where
  "started p = po_running p @ map fst (po_results p)"

definition pool_ok :: "nat \<Rightarrow> (run_state \<Rightarrow> bool) \<Rightarrow> 'a list \<Rightarrow> 'a pool \<Rightarrow> bool" where
  "pool_ok limit stops xs p \<longleftrightarrow> length (po_running p) \<le> limit \<and>
     distinct (started p) \<and> set (started p) \<union> set (po_queue p) = set xs \<and>
     set (started p) \<inter> set (po_queue p) = {} \<and> distinct (po_queue p) \<and>
     (list_ex (\<lambda>(x, c). stops c) (po_results p) \<longrightarrow> po_stopped p)"

lemma pool_ok_launch: "pool_ok limit stops xs p \<Longrightarrow> pool_ok limit stops xs (launch limit p)"
proof -
  assume ok: "pool_ok limit stops xs p"
  let ?n = "limit - length (po_running p)"
  have "po_queue p = take ?n (po_queue p) @ drop ?n (po_queue p)" by simp
  then have "set (po_queue p) = set (take ?n (po_queue p)) \<union> set (drop ?n (po_queue p))"
    by (metis set_append)
  moreover have "set (take ?n (po_queue p)) \<inter> set (drop ?n (po_queue p)) = {}"
    using ok by (simp add: pool_ok_def set_take_disj_set_drop_if_distinct)
  ultimately show ?thesis using ok by (auto simp: pool_ok_def launch_def Let_def started_def)
qed

lemma pool_ok_settle:
  assumes "pool_ok limit stops xs p" "distinct (map fst completed)" "fst ` set completed \<subseteq> set (po_running p)"
  shows "pool_ok limit stops xs (settle stops completed accepted p)"
proof -
  have "length (filter (\<lambda>x. x \<notin> fst ` set completed) (po_running p)) \<le> limit"
    using assms(1) le_trans[OF length_filter_le] by (auto simp: pool_ok_def)
  moreover have "set (filter (\<lambda>x. x \<notin> fst ` set completed) (po_running p)) \<union> fst ` set completed = set (po_running p)"
    using assms(3) by auto
  ultimately show ?thesis using assms by (auto simp: pool_ok_def settle_def started_def)
qed

lemma pool_reached_ok: "pool_reached limit stops xs p \<Longrightarrow> distinct xs \<Longrightarrow> pool_ok limit stops xs p"
proof (induction rule: pool_reached.induct)
  case pool_start
  then show ?case by (simp add: pool_ok_def new_pool_def started_def)
next
  case (pool_launch p)
  then show ?case by (simp add: pool_ok_launch)
next
  case (pool_settle p completed accepted)
  then show ?case by (simp add: pool_ok_settle)
qed

text \<open>A stopped pool launches nothing more.\<close>

lemma launch_stopped: "po_stopped p \<Longrightarrow> launch limit p = p"
  by (simp add: launch_def)

section \<open>The loop\<close>

text \<open>
  The loop with its effects. \<open>pick\<close> picks, from the running children, those that complete next:
  \<^verbatim>\<open>asyncio.wait\<close> returns at least one. The effects of a child count at the moment it completes.
  When a runner or an observer raises, the exception ends the loop. \<open>fuel\<close> bounds the turns.
\<close>

fun mapE :: "('a \<Rightarrow> ('s, 'b) eff) \<Rightarrow> 'a list \<Rightarrow> ('s, 'b list) eff" where
  "mapE f [] = retE []"
| "mapE f (x # xs) = bindE (f x) (\<lambda>y. bindE (mapE f xs) (\<lambda>ys. retE (y # ys)))"

definition completed_next :: "'a list \<Rightarrow> 'a list \<Rightarrow> 'a list" where
  "completed_next chosen running =
     (let c = filter (\<lambda>x. x \<in> set chosen) running in if c = [] then take 1 running else c)"

definition outOfFuelE :: "('s, 'a) eff" where
  "outOfFuelE w = (w, OutOfFuel)"

fun run_pool :: "nat \<Rightarrow> nat \<Rightarrow> (run_state \<Rightarrow> bool) \<Rightarrow> (nat \<Rightarrow> 'a list \<Rightarrow> 'a list)
    \<Rightarrow> ('a \<Rightarrow> ('s, run_state) eff) \<Rightarrow> ('a \<Rightarrow> run_state \<Rightarrow> ('s, bool) eff) \<Rightarrow> 'a pool
    \<Rightarrow> ('s, ('a \<times> run_state) list) eff" where
  "run_pool 0 limit stops pick runner observer p = outOfFuelE"
| "run_pool (Suc fuel) limit stops pick runner observer p =
     (if pool_idle p then retE (po_results p)
      else
        let p1 = launch limit p in
        bindE tickE (\<lambda>n.
        let done' = completed_next (pick n (po_running p1)) (po_running p1) in
        bindE (mapE runner done') (\<lambda>cs.
        bindE (mapE (\<lambda>(x, c). observer x c) (zip done' cs)) (\<lambda>oks.
        run_pool fuel limit stops pick runner observer
          (settle stops (zip done' cs) (list_all (\<lambda>ok. ok) oks) p1)))))"

definition execute_pool :: "nat \<Rightarrow> (run_state \<Rightarrow> bool) \<Rightarrow> (nat \<Rightarrow> 'a list \<Rightarrow> 'a list)
    \<Rightarrow> ('a \<Rightarrow> ('s, run_state) eff) \<Rightarrow> ('a \<Rightarrow> run_state \<Rightarrow> ('s, bool) eff) \<Rightarrow> 'a list
    \<Rightarrow> ('s, ('a \<times> run_state) list) eff" where
  "execute_pool limit stops pick runner observer xs =
     run_pool (Suc (length xs)) limit stops pick runner observer (new_pool xs)"

section \<open>It ends\<close>

lemma halts_mapE: "(\<And>x. x \<in> set xs \<Longrightarrow> halts (f x)) \<Longrightarrow> halts (mapE f xs)"
  by (induction xs) (auto intro!: halts_bind simp: halts_basic)

lemma mapE_length: "mapE f xs w = (w', Done ys) \<Longrightarrow> length ys = length xs"
proof (induction xs arbitrary: w ys)
  case (Cons x xs)
  then show ?case by (auto simp: bindE_def retE_def split: prod.splits outcome.splits)
qed (simp add: retE_def)

lemma completed_next_some: "running \<noteq> [] \<Longrightarrow> completed_next chosen running \<noteq> []"
  and completed_next_sub: "set (completed_next chosen running) \<subseteq> set running"
  and completed_next_distinct: "distinct running \<Longrightarrow> distinct (completed_next chosen running)"
  by (auto simp: completed_next_def Let_def dest: in_set_takeD)

text \<open>What is left to do.\<close>

definition pool_left :: "'a pool \<Rightarrow> nat" where
  "pool_left p = length (po_queue p) + length (po_running p)"

lemma launch_left [simp]: "pool_left (launch limit p) = pool_left p"
  by (auto simp: pool_left_def launch_def Let_def min_def)

lemma settle_left:
  assumes "completed \<noteq> []" "fst ` set completed \<subseteq> set (po_running p)"
  shows "pool_left (settle stops completed accepted p) < pool_left p"
proof -
  obtain x c rest where "completed = (x, c) # rest" using assms(1) by (cases completed) auto
  with assms(2) have "x \<in> set (po_running p)" "x \<in> fst ` set completed" by auto
  then have "length (filter (\<lambda>x. x \<notin> fst ` set completed) (po_running p)) < length (po_running p)"
    by (intro length_filter_less) auto
  then show ?thesis by (simp add: pool_left_def settle_def)
qed

lemma launched_running:
  assumes "\<not> pool_idle p" "0 < limit" shows "po_running (launch limit p) \<noteq> []"
  using assms by (auto simp: pool_idle_def launch_def Let_def)

lemma run_pool_ends:
  assumes "\<And>x. halts (runner x)" "\<And>x c. halts (observer x c)" "0 < limit"
  shows "pool_left p < fuel \<Longrightarrow> halts (run_pool fuel limit stops pick runner observer p)"
proof (induction fuel arbitrary: p)
  case (Suc fuel)
  show ?case
  proof (cases "pool_idle p")
    case False
    define p1 where "p1 = launch limit p"
    have running: "po_running p1 \<noteq> []" using launched_running[OF False assms(3)] by (simp add: p1_def)
    have turn: "halts (bindE (mapE runner xs) (\<lambda>cs. bindE (mapE (\<lambda>(x, c). observer x c) (zip xs cs)) (\<lambda>oks.
        run_pool fuel limit stops pick runner observer (settle stops (zip xs cs) (list_all (\<lambda>ok. ok) oks) p1))))"
      if xs: "xs = completed_next (pick n (po_running p1)) (po_running p1)" for xs n
    proof (rule halts_bind_value[where Q = "\<lambda>cs. length cs = length xs"])
      show "halts (mapE runner xs)" using assms(1) by (rule halts_mapE)
      show "mapE runner xs w = (w', Done cs) \<Longrightarrow> length cs = length xs" for cs w w' by (rule mapE_length)
      fix cs :: "run_state list" assume len: "length cs = length xs"
      have nonempty: "zip xs cs \<noteq> []"
        using completed_next_some[OF running] len xs by (cases xs; cases cs) auto
      have "fst ` set (zip xs cs) = set xs" using len by (metis image_set map_fst_zip)
      then have sub: "fst ` set (zip xs cs) \<subseteq> set (po_running p1)"
        using completed_next_sub xs by metis
      have "pool_left (settle stops (zip xs cs) ok p1) < fuel" for ok
        using settle_left[OF nonempty sub, of stops ok] Suc.prems by (simp add: p1_def)
      then show "halts (bindE (mapE (\<lambda>(x, c). observer x c) (zip xs cs)) (\<lambda>oks.
          run_pool fuel limit stops pick runner observer (settle stops (zip xs cs) (list_all (\<lambda>ok. ok) oks) p1)))"
        by (intro halts_bind halts_mapE Suc.IH) (auto simp: assms(2))
    qed
    show ?thesis using False by (auto intro!: halts_bind turn simp: halts_basic Let_def p1_def[symmetric])
  qed (simp add: halts_basic)
qed simp

section \<open>What it promises\<close>

lemma mapE_accepted:
  "mapE f xs w = (w', Done ys) \<Longrightarrow> (\<And>x v v'. x \<in> set xs \<Longrightarrow> f x v \<noteq> (v', Done False)) \<Longrightarrow> list_all (\<lambda>ok. ok) ys"
proof (induction xs arbitrary: w ys)
  case (Cons x xs)
  from Cons.prems(1) obtain w1 y zs where y: "f x w = (w1, Done y)" "mapE f xs w1 = (w', Done zs)" "ys = y # zs"
    by (auto simp: bindE_def retE_def split: prod.splits outcome.splits)
  have "y" using Cons.prems(2)[of x w w1] y(1) by (cases y) simp_all
  moreover have "list_all (\<lambda>ok. ok) zs" by (rule Cons.IH[OF y(2)]) (simp add: Cons.prems(2))
  ultimately show ?case by (simp add: y(3))
qed (simp add: retE_def)

text \<open>A pool that stopped without an observer that said no has a result that stops.\<close>

definition stop_explained :: "(run_state \<Rightarrow> bool) \<Rightarrow> 'a pool \<Rightarrow> bool" where
  "stop_explained stops p \<longleftrightarrow> (po_stopped p \<longrightarrow> list_ex (\<lambda>(x, c). stops c) (po_results p))"

lemma stop_explained_settle: "stop_explained stops p \<Longrightarrow> stop_explained stops (settle stops completed True p)"
  by (auto simp: stop_explained_def settle_def)

lemma stop_explained_launch: "stop_explained stops p \<Longrightarrow> stop_explained stops (launch limit p)"
  by (auto simp: stop_explained_def launch_def Let_def)

definition never_refuses :: "('a \<Rightarrow> run_state \<Rightarrow> ('s, bool) eff) \<Rightarrow> bool" where
  "never_refuses observer \<longleftrightarrow> (\<forall>x c w w'. observer x c w \<noteq> (w', Done False))"

lemma run_pool_reached:
  "run_pool fuel limit stops pick runner observer p w = (w', Done rs) \<Longrightarrow> pool_reached limit stops xs p \<Longrightarrow>
    distinct xs \<Longrightarrow> 0 < limit \<Longrightarrow> \<exists>q. pool_reached limit stops xs q \<and> pool_idle q \<and> po_results q = rs \<and>
      (never_refuses observer \<longrightarrow> stop_explained stops p \<longrightarrow> stop_explained stops q)"
proof (induction fuel arbitrary: p w)
  case (Suc fuel)
  show ?case
  proof (cases "pool_idle p")
    case True
    with Suc.prems show ?thesis by (auto simp: retE_def)
  next
    case False
    define p1 where "p1 = launch limit p"
    have p1: "pool_reached limit stops xs p1" unfolding p1_def by (rule pool_launch[OF Suc.prems(2) False])
    from Suc.prems(1) False obtain n w1 xs1 cs w2 oks w3 where
      xs1: "xs1 = completed_next (pick n (po_running p1)) (po_running p1)"
      and cs: "mapE runner xs1 w1 = (w2, Done cs)"
      and oks: "mapE (\<lambda>(x, c). observer x c) (zip xs1 cs) w2 = (w3, Done oks)"
      and rest: "run_pool fuel limit stops pick runner observer
        (settle stops (zip xs1 cs) (list_all (\<lambda>ok. ok) oks) p1) w3 = (w', Done rs)"
      by (auto simp: Let_def p1_def[symmetric] bindE_def split: prod.splits outcome.splits)
    have run: "distinct (po_running p1)"
      using pool_reached_ok[OF p1 Suc.prems(3)] by (simp add: pool_ok_def started_def)
    have fsts: "map fst (zip xs1 cs) = xs1" using mapE_length[OF cs] by simp
    then have set_fsts: "fst ` set (zip xs1 cs) = set xs1" by (metis set_map)
    have dist: "distinct (map fst (zip xs1 cs))"
      unfolding fsts unfolding xs1 by (rule completed_next_distinct[OF run])
    have sub: "fst ` set (zip xs1 cs) \<subseteq> set (po_running p1)"
      unfolding set_fsts unfolding xs1 by (rule completed_next_sub)
    have "zip xs1 cs \<noteq> []"
      using completed_next_some[OF launched_running[OF False Suc.prems(4)]] mapE_length[OF cs]
      by (cases xs1; cases cs) (auto simp: xs1 p1_def)
    from Suc.IH[OF rest pool_settle[OF p1 this dist sub] Suc.prems(3,4)] obtain q where
      q: "pool_reached limit stops xs q" "pool_idle q" "po_results q = rs"
      "never_refuses observer \<longrightarrow> stop_explained stops (settle stops (zip xs1 cs) (list_all (\<lambda>ok. ok) oks) p1) \<longrightarrow>
        stop_explained stops q" by blast
    have "never_refuses observer \<Longrightarrow> list_all (\<lambda>ok. ok) oks"
      by (rule mapE_accepted[OF oks]) (auto simp: never_refuses_def)
    then have "never_refuses observer \<Longrightarrow> stop_explained stops p \<Longrightarrow>
        stop_explained stops (settle stops (zip xs1 cs) (list_all (\<lambda>ok. ok) oks) p1)"
      unfolding p1_def by (simp add: stop_explained_settle stop_explained_launch)
    with q show ?thesis by blast
  qed
qed (simp add: outOfFuelE_def)

text \<open>At every moment at most the configured number of children run (one when the configured limit is
  less), every child is started at most once, and once a child of a plan has failed or was cancelled no
  further child is launched.\<close>

theorem parallelism_bounded:
  assumes "pool_reached (pool_limit configured) stops xs p" "distinct xs"
  shows "int (length (po_running p)) \<le> max 1 configured \<and> distinct (started p) \<and> set (started p) \<subseteq> set xs \<and>
    ((\<exists>(x, c) \<in> set (po_results p). stops c) \<longrightarrow> launch (pool_limit configured) p = p)"
proof -
  note ok = pool_reached_ok[OF assms]
  have "(\<exists>(x, c) \<in> set (po_results p). stops c) \<longrightarrow> po_stopped p"
    using ok by (auto simp: pool_ok_def list_ex_iff)
  with ok launch_stopped show ?thesis by (auto simp: pool_ok_def pool_limit_def nat_le_iff)
qed

lemma execute_pool_reached:
  assumes "execute_pool (pool_limit configured) stops pick runner observer xs w = (w', Done rs)" "distinct xs"
  shows "distinct (map fst rs) \<and> set (map fst rs) \<subseteq> set xs \<and>
    (never_refuses observer \<and> (\<forall>(x, c) \<in> set rs. \<not> stops c) \<longrightarrow> set (map fst rs) = set xs)"
proof -
  have limit: "0 < pool_limit configured" by (simp add: pool_limit_def)
  from run_pool_reached[OF assms(1)[unfolded execute_pool_def] pool_start assms(2) limit]
  obtain q where q: "pool_reached (pool_limit configured) stops xs q" "pool_idle q" "po_results q = rs"
    "never_refuses observer \<longrightarrow> stop_explained stops q" by (auto simp: stop_explained_def new_pool_def)
  note ok = pool_reached_ok[OF q(1) assms(2)]
  have "po_queue q = []" if "never_refuses observer" "\<forall>(x, c) \<in> set rs. \<not> stops c"
    using that q(2,3,4) by (fastforce simp: stop_explained_def list_ex_iff pool_idle_def)
  then show ?thesis using ok q(2,3) by (auto simp: pool_ok_def started_def pool_idle_def)
qed

text \<open>A scheduler whose children and observers end ends. What it returns are results of distinct children
  it was given, of all of them when no result stops the launching and no observer says no.\<close>

theorem execute_pool_ends:
  assumes "\<And>x. halts (runner x)" "\<And>x c. halts (observer x c)" "distinct xs"
  shows "halts (execute_pool (pool_limit configured) stops pick runner observer xs) \<and>
    (\<forall>w w' rs. execute_pool (pool_limit configured) stops pick runner observer xs w = (w', Done rs) \<longrightarrow>
      distinct (map fst rs) \<and> set (map fst rs) \<subseteq> set xs \<and>
      (never_refuses observer \<and> (\<forall>(x, c) \<in> set rs. \<not> stops c) \<longrightarrow> set (map fst rs) = set xs))"
proof (intro conjI)
  have limit: "0 < pool_limit configured" by (simp add: pool_limit_def)
  show "halts (execute_pool (pool_limit configured) stops pick runner observer xs)"
    unfolding execute_pool_def
    by (rule run_pool_ends[OF assms(1,2) limit]) (simp add: pool_left_def new_pool_def)
qed (use execute_pool_reached[OF _ assms(3)] in blast)

lemma demo_pool: "pool_reached (pool_limit 2) plan_halts [1, 2, 3::nat] (launch (pool_limit 2) (new_pool [1, 2, 3]))"
  by (rule pool_launch[OF pool_start]) (simp add: pool_idle_def new_pool_def)

theorem parallelism_bounded_witness:
  "po_running (launch (pool_limit 2) (new_pool [1, 2, 3::nat])) = [1, 2] \<and>
   int (length (po_running (launch (pool_limit 2) (new_pool [1, 2, 3::nat])))) \<le> max 1 2"
proof -
  have "po_running (launch (pool_limit 2) (new_pool [1, 2, 3::nat])) = [1, 2]" by code_simp
  with parallelism_bounded[OF demo_pool] show ?thesis by simp
qed

theorem execute_pool_ends_witness:
  "halts (execute_pool (pool_limit 2) plan_halts (\<lambda>n xs. xs) (\<lambda>x. retE demo_run) (\<lambda>x c. retE True) [1, 2, 3::nat])"
  by (rule conjunct1[OF execute_pool_ends]) (simp_all add: halts_basic)

end
