(* ===== verification/MultiAgent.thy ===== *)
theory MultiAgent
  imports PlanSchedule
begin

text \<open>
  The durable state of the multi-agent strategy, \<^verbatim>\<open>runtime/multi_agent_strategy.py\<close>: assignments
  and their codec, the snapshot of the scheduler, what a child or a review makes of an
  assignment, the parsing of what the models answer, and the final text.
\<close>

section \<open>The durable state\<close>

definition MULTI_AGENT_SCHEMA_VERSION :: int where
  "MULTI_AGENT_SCHEMA_VERSION = 2"

datatype multi_agent_status =
    MaPLANNING | MaRUNNING | MaWAITING_CHILD | MaREVIEWING | MaSYNTHESIZED | MaCOMPLETED | MaFAILED | MaCANCELLED

datatype assignment_status =
    AsPENDING | AsASSIGNED | AsWAITING_CHILD | AsREVIEWING | AsCOMPLETED | AsFAILED | AsSKIPPED | AsCANCELLED

fun multi_agent_status_value :: "multi_agent_status \<Rightarrow> string" where
  "multi_agent_status_value MaPLANNING = ''PLANNING''"
| "multi_agent_status_value MaRUNNING = ''RUNNING''"
| "multi_agent_status_value MaWAITING_CHILD = ''WAITING_CHILD''"
| "multi_agent_status_value MaREVIEWING = ''REVIEWING''"
| "multi_agent_status_value MaSYNTHESIZED = ''SYNTHESIZED''"
| "multi_agent_status_value MaCOMPLETED = ''COMPLETED''"
| "multi_agent_status_value MaFAILED = ''FAILED''"
| "multi_agent_status_value MaCANCELLED = ''CANCELLED''"

fun assignment_status_value :: "assignment_status \<Rightarrow> string" where
  "assignment_status_value AsPENDING = ''PENDING''"
| "assignment_status_value AsASSIGNED = ''ASSIGNED''"
| "assignment_status_value AsWAITING_CHILD = ''WAITING_CHILD''"
| "assignment_status_value AsREVIEWING = ''REVIEWING''"
| "assignment_status_value AsCOMPLETED = ''COMPLETED''"
| "assignment_status_value AsFAILED = ''FAILED''"
| "assignment_status_value AsSKIPPED = ''SKIPPED''"
| "assignment_status_value AsCANCELLED = ''CANCELLED''"

definition MultiAgentStatus :: "string \<Rightarrow> multi_agent_status res" where
  "MultiAgentStatus = enum_parse multi_agent_status_value
     [MaPLANNING, MaRUNNING, MaWAITING_CHILD, MaREVIEWING, MaSYNTHESIZED, MaCOMPLETED, MaFAILED, MaCANCELLED]"

definition AssignmentStatus :: "string \<Rightarrow> assignment_status res" where
  "AssignmentStatus = enum_parse assignment_status_value
     [AsPENDING, AsASSIGNED, AsWAITING_CHILD, AsREVIEWING, AsCOMPLETED, AsFAILED, AsSKIPPED, AsCANCELLED]"

lemma MultiAgentStatus_value [simp, enum_roundtrip]: "MultiAgentStatus (multi_agent_status_value s) = Ok s"
  by (cases s) (simp_all add: MultiAgentStatus_def enum_parse_def)

lemma AssignmentStatus_value [simp, enum_roundtrip]: "AssignmentStatus (assignment_status_value s) = Ok s"
  by (cases s) (simp_all add: AssignmentStatus_def enum_parse_def)

lemma multi_agent_values_nonempty [simp]: "multi_agent_status_value m \<noteq> []" "assignment_status_value a \<noteq> []"
  by (cases m, simp_all) (cases a, simp_all)

record assignment =
  a_id :: string
  a_worker_role :: string
  a_task :: string
  a_dependencies :: "string list"
  a_status :: assignment_status
  a_child_run_id :: "string option"
  a_result :: string
  a_error :: string
  a_attempt :: int
  a_review_output :: string
  a_review_approved :: "bool option"
  a_review_issues :: string

definition new_assignment :: "string \<Rightarrow> string \<Rightarrow> string \<Rightarrow> assignment" where
  "new_assignment i role task' =
     \<lparr>a_id = i, a_worker_role = role, a_task = task', a_dependencies = [], a_status = AsPENDING,
      a_child_run_id = None, a_result = [], a_error = [], a_attempt = 1, a_review_output = [],
      a_review_approved = None, a_review_issues = []\<rparr>"

definition assignment_to_dict :: "assignment \<Rightarrow> pydict" where
  "assignment_to_dict a = [
     (''assignment_id'', PStr (a_id a)), (''worker_role'', PStr (a_worker_role a)),
     (''task'', PStr (a_task a)), (''dependencies'', PList (map PStr (a_dependencies a))),
     (''status'', PStr (assignment_status_value (a_status a))),
     (''child_run_id'', opt_val PStr (a_child_run_id a)), (''result'', PStr (a_result a)),
     (''error'', PStr (a_error a)), (''attempt'', PInt (a_attempt a)),
     (''review_output'', PStr (a_review_output a)),
     (''review_approved'', opt_val PBool (a_review_approved a)),
     (''review_issues'', PStr (a_review_issues a))]"

definition assignment_from_dict :: "pyenv \<Rightarrow> pydict \<Rightarrow> assignment res" where
  "assignment_from_dict E d =
     bindR (dict_item d ''assignment_id'') (\<lambda>i.
     bindR (AssignmentStatus (str_or E (dict_get d ''status'') (assignment_status_value AsPENDING))) (\<lambda>st.
     bindR (py_int E (py_or (dict_get d ''attempt'') (PInt 1))) (\<lambda>att.
     Ok \<lparr>a_id = py_str E i,
        a_worker_role = str_or E (dict_get d ''worker_role'') ''worker'',
        a_task = str_or E (dict_get d ''task'') [],
        a_dependencies = (case dict_get d ''dependencies'' of PList vs \<Rightarrow> map (py_str E) vs | _ \<Rightarrow> []),
        a_status = st,
        a_child_run_id = py_optional_str E (dict_get d ''child_run_id''),
        a_result = str_or E (dict_get d ''result'') [],
        a_error = str_or E (dict_get d ''error'') [],
        a_attempt = max 1 att,
        a_review_output = str_or E (dict_get d ''review_output'') [],
        a_review_approved = (case dict_get d ''review_approved'' of PBool b \<Rightarrow> Some b | _ \<Rightarrow> None),
        a_review_issues = str_or E (dict_get d ''review_issues'') []\<rparr>)))"

record multi_agent_state =
  ma_goal :: string
  ma_status :: multi_agent_status
  ma_assignments :: "assignment list"
  ma_active_ids :: "string list"
  ma_current_id :: "string option"
  ma_planner_output :: string
  ma_review_rounds :: int
  ma_synthesis_result :: string
  ma_max_parallelism :: int
  ma_schema_version :: int

definition new_multi_agent_state :: "string \<Rightarrow> multi_agent_state" where
  "new_multi_agent_state goal =
     \<lparr>ma_goal = goal, ma_status = MaPLANNING, ma_assignments = [], ma_active_ids = [],
      ma_current_id = None, ma_planner_output = [], ma_review_rounds = 0, ma_synthesis_result = [],
      ma_max_parallelism = 0, ma_schema_version = MULTI_AGENT_SCHEMA_VERSION\<rparr>"

definition multi_agent_to_dict :: "multi_agent_state \<Rightarrow> pydict" where
  "multi_agent_to_dict s = [
     (''schema_version'', PInt (ma_schema_version s)),
     (''orchestration_goal'', PStr (ma_goal s)),
     (''status'', PStr (multi_agent_status_value (ma_status s))),
     (''assignments'', PList (map (\<lambda>a. PDict (assignment_to_dict a)) (ma_assignments s))),
     (''active_assignment_ids'', PList (map PStr (ma_active_ids s))),
     (''current_assignment_id'', opt_val PStr (ma_current_id s)),
     (''planner_output'', PStr (ma_planner_output s)),
     (''review_rounds'', PInt (ma_review_rounds s)),
     (''synthesis_result'', PStr (ma_synthesis_result s)),
     (''max_parallelism_observed'', PInt (ma_max_parallelism s))]"

definition multi_agent_from_dict :: "pyenv \<Rightarrow> pydict \<Rightarrow> multi_agent_state res" where
  "multi_agent_from_dict E d =
     bindR (int_or_zero E (dict_get d ''schema_version'')) (\<lambda>schema.
     if schema \<notin> {1, MULTI_AGENT_SCHEMA_VERSION}
     then Raise (ValueError (''unsupported multi-agent schema version: '' @ int_repr schema))
     else
     bindR (mapR (assignment_from_dict E) (py_dicts (dict_get d ''assignments''))) (\<lambda>as.
     bindR (MultiAgentStatus (str_or E (dict_get d ''status'') (multi_agent_status_value MaPLANNING))) (\<lambda>st.
     bindR (int_or_zero E (dict_get d ''review_rounds'')) (\<lambda>rounds.
     bindR (int_or_zero E (dict_get d ''max_parallelism_observed'')) (\<lambda>par.
     Ok \<lparr>ma_goal = str_or E (dict_get d ''orchestration_goal'') [], ma_status = st, ma_assignments = as,
         ma_active_ids = (case dict_get d ''active_assignment_ids'' of
             PList vs \<Rightarrow> map (py_str E) vs
           | _ \<Rightarrow> map a_id (filter (\<lambda>a. a_status a \<in> {AsASSIGNED, AsWAITING_CHILD}) as)),
         ma_current_id = py_optional_str E (dict_get d ''current_assignment_id''),
         ma_planner_output = str_or E (dict_get d ''planner_output'') [],
         ma_review_rounds = rounds,
         ma_synthesis_result = str_or E (dict_get d ''synthesis_result'') [],
         ma_max_parallelism = par, ma_schema_version = MULTI_AGENT_SCHEMA_VERSION\<rparr>)))))"

definition load_multi_agent :: "pyenv \<Rightarrow> run_state \<Rightarrow> multi_agent_state option res" where
  "load_multi_agent E st = (case dict_get (r_strategy_state st) ''multi_agent'' of
       PDict d \<Rightarrow> bindR (multi_agent_from_dict E d) (\<lambda>s. Ok (Some s)) | _ \<Rightarrow> Ok None)"

definition store_multi_agent :: "multi_agent_state \<Rightarrow> run_state \<Rightarrow> run_state" where
  "store_multi_agent s st =
     st\<lparr>r_strategy_state := dict_set ''multi_agent'' (PDict (multi_agent_to_dict s)) (r_strategy_state st)\<rparr>"

definition find_assignment :: "multi_agent_state \<Rightarrow> string \<Rightarrow> assignment option" where
  "find_assignment s i = find (\<lambda>a. a_id a = i) (ma_assignments s)"

definition activate :: "string \<Rightarrow> multi_agent_state \<Rightarrow> multi_agent_state" where
  "activate i s = (if i \<in> set (ma_active_ids s) then s else s\<lparr>ma_active_ids := ma_active_ids s @ [i]\<rparr>)"

definition deactivate :: "string \<Rightarrow> multi_agent_state \<Rightarrow> multi_agent_state" where
  "deactivate i s = s\<lparr>ma_active_ids := filter (\<lambda>j. j \<noteq> i) (ma_active_ids s)\<rparr>"

text \<open>\<^verbatim>\<open>assignment()\<close> gives the first with the identifier, and the caller changes that object.\<close>

fun modify_first :: "('a \<Rightarrow> bool) \<Rightarrow> ('a \<Rightarrow> 'a) \<Rightarrow> 'a list \<Rightarrow> 'a list" where
  "modify_first P f [] = []"
| "modify_first P f (x # xs) = (if P x then f x # xs else x # modify_first P f xs)"

definition modify_assignment :: "string \<Rightarrow> (assignment \<Rightarrow> assignment) \<Rightarrow> multi_agent_state \<Rightarrow> multi_agent_state" where
  "modify_assignment i f s = s\<lparr>ma_assignments := modify_first (\<lambda>a. a_id a = i) f (ma_assignments s)\<rparr>"

section \<open>The scheduler\<close>

definition assignment_terminal :: "assignment \<Rightarrow> bool" where
  "assignment_terminal a \<longleftrightarrow> a_status a \<in> {AsCOMPLETED, AsFAILED, AsSKIPPED, AsCANCELLED}"

definition assignment_in_flight :: "assignment \<Rightarrow> bool" where
  "assignment_in_flight a \<longleftrightarrow> a_status a \<in> {AsASSIGNED, AsWAITING_CHILD}"

definition assignment_statuses :: "multi_agent_state \<Rightarrow> (string \<times> assignment_status) list" where
  "assignment_statuses s = rev (map (\<lambda>a. (a_id a, a_status a)) (ma_assignments s))"

definition assignment_ready :: "(string \<times> assignment_status) list \<Rightarrow> assignment \<Rightarrow> bool" where
  "assignment_ready statuses a \<longleftrightarrow> a_status a = AsPENDING \<and>
     list_all (\<lambda>d. map_of statuses d = Some AsCOMPLETED) (a_dependencies a)"

definition multi_agent_snapshot :: "multi_agent_state \<Rightarrow> child_states \<Rightarrow> scheduler_snapshot" where
  "multi_agent_snapshot s cs =
     \<lparr>sn_ready = map a_id (filter (assignment_ready (assignment_statuses s)) (ma_assignments s)),
      sn_active = map a_id (filter (\<lambda>a. \<not> assignment_terminal a \<and> \<not> paused_child cs (a_id a) \<and> assignment_in_flight a) (ma_assignments s)),
      sn_waiting = map a_id (filter (\<lambda>a. \<not> assignment_terminal a \<and> paused_child cs (a_id a)) (ma_assignments s)),
      sn_terminal = map a_id (filter assignment_terminal (ma_assignments s))\<rparr>"

definition launchable_assignments :: "multi_agent_state \<Rightarrow> child_states \<Rightarrow> assignment list" where
  "launchable_assignments s cs =
     filter (\<lambda>a. assignment_in_flight a \<and> a_child_run_id a \<noteq> None \<and> a_child_run_id a \<noteq> Some [] \<and>
                 child_status cs (a_id a) \<in> {None, Some RunRUNNING}) (ma_assignments s)"

definition assignment_key :: "string \<Rightarrow> string \<Rightarrow> int \<Rightarrow> string" where
  "assignment_key parent i attempt = parent @ '':'' @ i @ '':'' @ int_repr attempt"

definition child_run_id :: "(string \<Rightarrow> string) \<Rightarrow> string \<Rightarrow> string \<Rightarrow> int \<Rightarrow> string" where
  "child_run_id D parent i attempt = ''run_child_'' @ take 32 (D (assignment_key parent i attempt))"

definition worker_span_id :: "(string \<Rightarrow> string) \<Rightarrow> string \<Rightarrow> string \<Rightarrow> int \<Rightarrow> string" where
  "worker_span_id D parent i attempt =
     ''span_multi_'' @ take 32 (D (parent @ '':worker:'' @ i @ '':'' @ int_repr attempt))"

text \<open>The loop of \<^verbatim>\<open>_persist_ready_assignments\<close>, with the identifiers it assigned.\<close>

definition assign_ready :: "(string \<Rightarrow> string) \<Rightarrow> string \<Rightarrow> string list \<Rightarrow> multi_agent_state
    \<Rightarrow> multi_agent_state \<times> string list" where
  "assign_ready D parent ids s =
     foldl (\<lambda>(s, ids) i. case find_assignment s i of
              None \<Rightarrow> (s, ids)
            | Some a \<Rightarrow> if a_status a \<noteq> AsPENDING then (s, ids)
                else (activate i (modify_assignment i (\<lambda>a. a\<lparr>a_status := AsASSIGNED,
                        a_child_run_id := Some (child_run_id D parent (a_id a) (a_attempt a))\<rparr>) s), ids @ [i]))
       (s, []) ids"

text \<open>\<^verbatim>\<open>_skip_blocked_assignments\<close>: one pass, with the statuses from its beginning.\<close>

definition blocking_dependencies :: "(string \<times> assignment_status) list \<Rightarrow> assignment \<Rightarrow> string list" where
  "blocking_dependencies statuses a =
     filter (\<lambda>d. map_of statuses d \<in> {Some AsFAILED, Some AsCANCELLED, Some AsSKIPPED}) (a_dependencies a)"

definition blocked_assignment :: "(string \<times> assignment_status) list \<Rightarrow> assignment \<Rightarrow> bool" where
  "blocked_assignment statuses a \<longleftrightarrow> a_status a = AsPENDING \<and> blocking_dependencies statuses a \<noteq> []"

definition skip_blocked :: "multi_agent_state \<Rightarrow> multi_agent_state \<times> bool" where
  "skip_blocked s =
     (let statuses = assignment_statuses s in
      (s\<lparr>ma_assignments := map (\<lambda>a. if blocked_assignment statuses a
           then a\<lparr>a_status := AsSKIPPED,
                  a_error := ''dependency did not complete successfully: ''
                             @ py_join '', '' (blocking_dependencies statuses a)\<rparr>
           else a) (ma_assignments s)\<rparr>,
       list_ex (blocked_assignment statuses) (ma_assignments s)))"

section \<open>Children, reviews, cancellation\<close>

text \<open>
  What \<^verbatim>\<open>_observe_child\<close> makes of an assignment in flight whose child is not running any more,
  and the operation it saves under. \<open>None\<close>: its pause is known already.
\<close>

definition observed_assignment :: "run_state \<Rightarrow> assignment \<Rightarrow> multi_agent_state \<Rightarrow> (multi_agent_state \<times> string) option" where
  "observed_assignment c a s =
     (let s' = s\<lparr>ma_status := MaRUNNING\<rparr>; i = a_id a in
      if r_status c \<in> {RunWAITING_APPROVAL, RunINTERRUPTED}
      then (if a_status a = AsWAITING_CHILD then None
            else Some (activate i (modify_assignment i (\<lambda>a. a\<lparr>a_status := AsWAITING_CHILD\<rparr>) s'), ''worker.waiting''))
      else if r_status c = RunCOMPLETED
      then Some (deactivate i (modify_assignment i (\<lambda>a. a\<lparr>a_result := r_output_text c, a_error := [],
                   a_status := AsREVIEWING\<rparr>) s'), ''worker.completed'')
      else Some (deactivate i (modify_assignment i (\<lambda>a. a\<lparr>a_error := child_error_text c,
                   a_status := (if r_status c = RunCANCELLED then AsCANCELLED else AsFAILED)\<rparr>) s'), ''worker.failed''))"

definition reviewed_assignment :: "string \<Rightarrow> bool \<Rightarrow> string \<Rightarrow> string \<Rightarrow> multi_agent_state \<Rightarrow> multi_agent_state" where
  "reviewed_assignment text approved issues i s =
     (modify_assignment i (\<lambda>a. a\<lparr>a_review_output := text, a_review_approved := Some approved,
        a_review_issues := issues\<rparr>) s)\<lparr>ma_review_rounds := ma_review_rounds s + 1\<rparr>"

text \<open>The decision after a review: accept, or a new attempt. The feedback of the reviewer stays.\<close>

definition review_accepts :: "int \<Rightarrow> assignment \<Rightarrow> bool" where
  "review_accepts max_retries a \<longleftrightarrow> a_review_approved a = Some True \<or> max_retries < a_attempt a"

definition accept_assignment :: "string \<Rightarrow> multi_agent_state \<Rightarrow> multi_agent_state" where
  "accept_assignment i s =
     (deactivate i (modify_assignment i (\<lambda>a. a\<lparr>a_status := AsCOMPLETED\<rparr>) s))
       \<lparr>ma_current_id := None, ma_status := MaRUNNING\<rparr>"

definition reassign :: "string \<Rightarrow> multi_agent_state \<Rightarrow> multi_agent_state" where
  "reassign i s =
     (deactivate i (modify_assignment i (\<lambda>a. a\<lparr>a_attempt := a_attempt a + 1, a_status := AsPENDING,
        a_child_run_id := None, a_result := [], a_error := [], a_review_output := [],
        a_review_approved := None\<rparr>) s))\<lparr>ma_current_id := None, ma_status := MaRUNNING\<rparr>"

definition decide_review :: "int \<Rightarrow> assignment \<Rightarrow> multi_agent_state \<Rightarrow> multi_agent_state" where
  "decide_review max_retries a s =
     (if review_accepts max_retries a then accept_assignment (a_id a) s else reassign (a_id a) s)"

text \<open>\<^verbatim>\<open>on_cancel\<close>\<close>

definition cancel_assignments :: "multi_agent_state \<Rightarrow> multi_agent_state" where
  "cancel_assignments s =
     s\<lparr>ma_assignments := map (\<lambda>a. if assignment_terminal a then a else a\<lparr>a_status := AsCANCELLED\<rparr>) (ma_assignments s),
       ma_active_ids := filter (\<lambda>i. i \<notin> a_id ` set (ma_assignments s)) (ma_active_ids s),
       ma_status := MaCANCELLED\<rparr>"

section \<open>The step\<close>

text \<open>
  What \<^verbatim>\<open>_advance_step\<close> decides after the reconciliation of the children. \<open>cs1\<close>, \<open>cs2\<close> and \<open>cs3\<close> are the
  states of the children as it loads them before the assignment, after it, and before the last
  snapshot.
\<close>

datatype ma_action =
    MaReview assignment
  | MaLaunch "assignment list"
  | MaWait scheduler_snapshot
  | MaSynthesize
  | MaComplete

definition assigned_state :: "(string \<Rightarrow> string) \<Rightarrow> string \<Rightarrow> child_states \<Rightarrow> multi_agent_state \<Rightarrow> multi_agent_state" where
  "assigned_state D parent cs s =
     (case assign_ready D parent (sn_ready (multi_agent_snapshot s cs)) s of
        (s', []) \<Rightarrow> s'
      | (s', i # ids) \<Rightarrow> s'\<lparr>ma_status := MaRUNNING\<rparr>)"

definition multi_agent_decision :: "multi_agent_state \<Rightarrow> child_states \<Rightarrow> child_states \<Rightarrow> ma_action" where
  "multi_agent_decision s cs2 cs3 =
     (if launchable_assignments s cs2 \<noteq> [] then MaLaunch (launchable_assignments s cs2)
      else
        let sn = multi_agent_snapshot s cs3 in
        if sn_active sn \<noteq> [] \<or> sn_waiting sn \<noteq> [] then MaWait sn
        else if ma_synthesis_result s = [] then MaSynthesize else MaComplete)"

definition multi_agent_step :: "(string \<Rightarrow> string) \<Rightarrow> string \<Rightarrow> child_states \<Rightarrow> child_states \<Rightarrow> child_states
    \<Rightarrow> multi_agent_state \<Rightarrow> multi_agent_state \<times> ma_action" where
  "multi_agent_step D parent cs1 cs2 cs3 s =
     (case find (\<lambda>a. a_status a = AsREVIEWING) (ma_assignments s) of
        Some a \<Rightarrow> (s\<lparr>ma_current_id := Some (a_id a), ma_status := MaREVIEWING\<rparr>, MaReview a)
      | None \<Rightarrow>
          let s' = assigned_state D parent cs1 (fst (skip_blocked s)) in
          (s', multi_agent_decision s' cs2 cs3))"

text \<open>What the last actions do to the orchestration.\<close>

definition waiting_state :: "scheduler_snapshot \<Rightarrow> multi_agent_state \<Rightarrow> multi_agent_state" where
  "waiting_state sn s = s\<lparr>ma_status := MaWAITING_CHILD,
     ma_current_id := Some (if sn_waiting sn \<noteq> [] then hd (sn_waiting sn) else hd (sn_active sn))\<rparr>"

definition launched_state :: "int \<Rightarrow> assignment list \<Rightarrow> multi_agent_state \<Rightarrow> multi_agent_state" where
  "launched_state max_workers launchable s =
     s\<lparr>ma_max_parallelism := max (ma_max_parallelism s) (min (int (length launchable)) max_workers)\<rparr>"

section \<open>Answers of the models\<close>

text \<open>\<^verbatim>\<open>json.loads\<close> of the text without code fences; its error is a \<^verbatim>\<open>ValueError\<close>.\<close>

definition fenced_json :: "(string \<Rightarrow> pyval res) \<Rightarrow> string \<Rightarrow> pyval option" where
  "fenced_json loads text = (case loads (strip_fences text) of Inl e \<Rightarrow> None | Inr v \<Rightarrow> Some v)"

definition assignment_name :: "nat \<Rightarrow> string" where
  "assignment_name i = ''assignment_'' @ nat_text i"

definition node_original_id :: "pyenv \<Rightarrow> nat \<Rightarrow> pydict \<Rightarrow> string" where
  "node_original_id E i node = str_or E (dict_get node ''id'') (assignment_name i)"

definition node_assignment :: "pyenv \<Rightarrow> nat \<Rightarrow> pydict \<Rightarrow> assignment" where
  "node_assignment E i node =
     new_assignment (assignment_name i)
       (str_or E (py_or (dict_get node ''worker_role'') (dict_get node ''type'')) ''worker'')
       (str_or E (py_or (dict_get node ''description'') (dict_get node ''task'')) (node_original_id E i node))"

definition node_dependencies :: "pyenv \<Rightarrow> (string \<times> string) list \<Rightarrow> pydict \<Rightarrow> string list" where
  "node_dependencies E ids node =
     (case py_or (dict_get node ''dependencies'') (PList []) of
        PList raws \<Rightarrow> map (\<lambda>d. case map_of ids (py_str E d) of None \<Rightarrow> py_str E d | Some i \<Rightarrow> i)
                        (filter (\<lambda>d. py_str E d \<noteq> []) raws)
      | _ \<Rightarrow> [])"

definition parse_assignments :: "pyenv \<Rightarrow> (string \<Rightarrow> pyval res) \<Rightarrow> string \<Rightarrow> assignment list" where
  "parse_assignments E loads text =
     (case fenced_json loads text of
        Some (PDict data) \<Rightarrow>
          (case py_or (py_or (dict_get data ''steps'') (dict_get data ''tasks'')) (PList []) of
             PList vs \<Rightarrow>
               (let nodes = zip [1..<Suc (length (py_dicts (PList vs)))] (py_dicts (PList vs));
                    ids = rev (map (\<lambda>(i, node). (node_original_id E i node, assignment_name i)) nodes) in
                map (\<lambda>(i, node). (node_assignment E i node)\<lparr>a_dependencies := node_dependencies E ids node\<rparr>) nodes)
           | _ \<Rightarrow> [])
      | _ \<Rightarrow> [])"

text \<open>
  The reviewer's answer. Without JSON the text is searched for phrases; those in Chinese do not
  occur in the texts of the model, which are ASCII.
\<close>

definition parse_review_approval :: "(string \<Rightarrow> pyval res) \<Rightarrow> string \<Rightarrow> bool" where
  "parse_review_approval loads text =
     (case fenced_json loads text of
        Some (PDict data) \<Rightarrow> truthy (dict_get data ''approved'')
      | Some v \<Rightarrow> False
      | None \<Rightarrow>
          let l = map lower_char text in
          \<not> contains ''\"approved\": false'' l \<and> contains ''\"approved\": true'' l)"

definition parse_review_issues :: "pyenv \<Rightarrow> (string \<Rightarrow> pyval res) \<Rightarrow> string \<Rightarrow> string" where
  "parse_review_issues E loads text =
     (case fenced_json loads text of
        Some (PDict data) \<Rightarrow>
          (case dict_get data ''issues'' of
             PList (v # vs) \<Rightarrow> py_join newline (map (\<lambda>x. ''- '' @ py_str E x) (v # vs))
           | _ \<Rightarrow> str_or E (dict_get data ''summary'') ''review rejected the result'')
      | _ \<Rightarrow> ''review rejected the result'')"

section \<open>Texts\<close>

definition worker_input :: "multi_agent_state \<Rightarrow> assignment \<Rightarrow> string" where
  "worker_input s a =
     py_join (newline @ newline)
       ([''Overall goal: '' @ ma_goal s]
        @ concat (map (\<lambda>d. case find_assignment s d of
              None \<Rightarrow> []
            | Some p \<Rightarrow> if a_result p = [] then []
                else [''Dependency ['' @ d @ ''] result: '' @ preview 800 (a_result p)]) (a_dependencies a))
        @ (if a_review_issues a = [] then [] else [''Reviewer feedback: '' @ a_review_issues a])
        @ [''Current task:'' @ newline @ a_task a])"

definition worker_system_prompt :: "string \<Rightarrow> assignment \<Rightarrow> string" where
  "worker_system_prompt prompt a =
     prompt @ newline @ newline
     @ ''You are a tool-capable Worker running as a durable child Run. ''
     @ ''Execute only the assigned task, use tools when needed, and return a concrete result.'' @ newline
     @ ''Worker role: '' @ a_worker_role a @ newline @ ''Assignment: '' @ a_id a @ newline
     @ ''Attempt: '' @ int_repr (a_attempt a)"

definition build_final_result :: "multi_agent_state \<Rightarrow> string" where
  "build_final_result s =
     py_join newline
       ([if list_all (\<lambda>a. a_status a = AsCOMPLETED) (ma_assignments s)
         then ''Multi-Agent task completed.''
         else ''Multi-Agent task did not fully complete; failed or blocked assignments remain.'',
         [], ''Execution summary:'']
        @ concat (map (\<lambda>a. [''- ['' @ a_id a @ ''] '' @ assignment_status_value (a_status a) @ '': '' @ a_task a]
            @ (if a_result a \<noteq> [] then [''  Result: '' @ preview 160 (a_result a)]
               else if a_error a \<noteq> [] then [''  Error: '' @ preview 160 (a_error a)] else [])) (ma_assignments s)))
     @ newline"

text \<open>\<^verbatim>\<open>_synthesize\<close> and \<^verbatim>\<open>_complete\<close>, on the orchestration.\<close>

definition synthesized_state :: "multi_agent_state \<Rightarrow> multi_agent_state" where
  "synthesized_state s = s\<lparr>ma_synthesis_result := build_final_result s, ma_status := MaSYNTHESIZED\<rparr>"

definition completed_state :: "multi_agent_state \<Rightarrow> multi_agent_state" where
  "completed_state s = s\<lparr>ma_status := MaCOMPLETED\<rparr>"

text \<open>\<^verbatim>\<open>_create_assignments\<close>: an answer without assignments fails the run.\<close>

definition created_assignments :: "pyenv \<Rightarrow> (string \<Rightarrow> pyval res) \<Rightarrow> string \<Rightarrow> multi_agent_state \<Rightarrow> multi_agent_state" where
  "created_assignments E loads text s =
     (case parse_assignments E loads text of
        [] \<Rightarrow> s\<lparr>ma_status := MaFAILED\<rparr>
      | a # as \<Rightarrow> s\<lparr>ma_planner_output := text, ma_assignments := a # as, ma_status := MaRUNNING\<rparr>)"

end
