(* ===== verification/MultiAgentFlow.thy ===== *)
theory MultiAgentFlow
  imports MultiAgent PlanFlow
begin

text \<open>
  What holds of every orchestration a multi-agent run can reach: identifiers stay distinct,
  workers start after their dependencies, the attempts of an assignment are bounded, and the
  list of active assignments is exact.
\<close>

section \<open>Lookup\<close>

definition ids_distinct :: "multi_agent_state \<Rightarrow> bool" where
  "ids_distinct s \<longleftrightarrow> distinct (map a_id (ma_assignments s))"

lemma find_id: "find (\<lambda>a. a_id a = i) as = Some a \<Longrightarrow> a \<in> set as \<and> a_id a = i"
  by (induction as) (auto split: if_splits)

lemma find_assignmentD:
  assumes "find_assignment s i = Some a" shows "a \<in> set (ma_assignments s)" "a_id a = i"
  using find_id assms unfolding find_assignment_def by blast+

lemma find_own_assignment: "distinct (map a_id as) \<Longrightarrow> a \<in> set as \<Longrightarrow> find (\<lambda>b. a_id b = a_id a) as = Some a"
  by (induction as) (auto simp: rev_image_eqI)

lemma find_assignment_mem:
  "ids_distinct s \<Longrightarrow> a \<in> set (ma_assignments s) \<Longrightarrow> find_assignment s (a_id a) = Some a"
  by (simp add: ids_distinct_def find_assignment_def find_own_assignment)

lemma find_modify_first:
  assumes "\<And>a. a_id (f a) = a_id a"
  shows "find (\<lambda>a. a_id a = j) (modify_first (\<lambda>a. a_id a = i) f as) =
    (if j = i then map_option f (find (\<lambda>a. a_id a = i) as) else find (\<lambda>a. a_id a = j) as)"
  by (induction as) (auto simp: assms)

lemma find_modify_assignment [simp]:
  assumes "\<And>a. a_id (f a) = a_id a"
  shows "find_assignment (modify_assignment i f s) j =
    (if j = i then map_option f (find_assignment s i) else find_assignment s j)"
  using assms by (simp add: find_assignment_def modify_assignment_def find_modify_first)

lemma modify_first_ids: "(\<And>a. a_id (f a) = a_id a) \<Longrightarrow> map a_id (modify_first P f as) = map a_id as"
  by (induction as) auto

lemma modify_assignment_ids:
  "(\<And>a. a_id (f a) = a_id a) \<Longrightarrow> map a_id (ma_assignments (modify_assignment i f s)) = map a_id (ma_assignments s)"
  by (simp add: modify_assignment_def modify_first_ids)

lemma find_map:
  assumes "\<And>a. a_id (f a) = a_id a"
  shows "find (\<lambda>a. a_id a = i) (map f as) = map_option f (find (\<lambda>a. a_id a = i) as)"
  by (induction as) (auto simp: assms)

lemma find_header [simp]:
  "find_assignment (s\<lparr>ma_status := st\<rparr>) i = find_assignment s i"
  "find_assignment (s\<lparr>ma_current_id := c\<rparr>) i = find_assignment s i"
  "find_assignment (s\<lparr>ma_review_rounds := r\<rparr>) i = find_assignment s i"
  "find_assignment (activate j s) i = find_assignment s i"
  "find_assignment (deactivate j s) i = find_assignment s i"
  by (simp_all add: find_assignment_def activate_def deactivate_def)

lemma assignments_header [simp]:
  "ma_assignments (activate j s) = ma_assignments s" "ma_assignments (deactivate j s) = ma_assignments s"
  by (simp_all add: activate_def deactivate_def)

lemma assignment_statuses_lookup:
  assumes "ids_distinct s"
  shows "map_of (assignment_statuses s) i = map_option a_status (find_assignment s i)"
proof -
  have "distinct (map fst (map (\<lambda>a. (a_id a, a_status a)) (ma_assignments s)))"
    using assms by (simp add: ids_distinct_def comp_def)
  from map_of_rev_distinct[OF this, of i]
  have "map_of (assignment_statuses s) i = map_of (map (\<lambda>a. (a_id a, a_status a)) (ma_assignments s)) i"
    by (simp add: assignment_statuses_def)
  also have "\<dots> = map_option a_status (find (\<lambda>a. a_id a = i) as)" if "as = ma_assignments s" for as
    unfolding that[symmetric] by (induction as) auto
  finally show ?thesis by (simp add: find_assignment_def)
qed

section \<open>Sound assignments\<close>

definition deps_done :: "multi_agent_state \<Rightarrow> assignment \<Rightarrow> bool" where
  "deps_done s a \<longleftrightarrow> (\<forall>d \<in> set (a_dependencies a). \<exists>b. find_assignment s d = Some b \<and> a_status b = AsCOMPLETED)"

definition dep_lost :: "multi_agent_state \<Rightarrow> assignment \<Rightarrow> bool" where
  "dep_lost s a \<longleftrightarrow> (\<exists>d \<in> set (a_dependencies a). \<exists>b. find_assignment s d = Some b \<and>
     a_status b \<in> {AsFAILED, AsCANCELLED, AsSKIPPED})"

text \<open>The statuses of an assignment that was given to a worker.\<close>

definition given :: "assignment_status \<Rightarrow> bool" where
  "given st \<longleftrightarrow> st \<in> {AsASSIGNED, AsWAITING_CHILD, AsREVIEWING, AsCOMPLETED, AsFAILED}"

definition assignment_sound :: "int \<Rightarrow> multi_agent_state \<Rightarrow> assignment \<Rightarrow> bool" where
  "assignment_sound retries s a \<longleftrightarrow> (given (a_status a) \<longrightarrow> deps_done s a) \<and>
     (a_status a = AsSKIPPED \<longrightarrow> dep_lost s a) \<and>
     (assignment_in_flight a \<longrightarrow> a_child_run_id a \<noteq> None \<and> a_child_run_id a \<noteq> Some []) \<and>
     1 \<le> a_attempt a \<and> a_attempt a \<le> max 0 retries + 1"

definition active_exact :: "multi_agent_state \<Rightarrow> bool" where
  "active_exact s \<longleftrightarrow> distinct (ma_active_ids s) \<and>
     (\<forall>i. i \<in> set (ma_active_ids s) \<longleftrightarrow> (\<exists>a. find_assignment s i = Some a \<and> assignment_in_flight a))"

definition ma_sound :: "int \<Rightarrow> multi_agent_state \<Rightarrow> bool" where
  "ma_sound retries s \<longleftrightarrow> ids_distinct s \<and> active_exact s \<and> ma_schema_version s = MULTI_AGENT_SCHEMA_VERSION \<and>
     (\<forall>i a. find_assignment s i = Some a \<longrightarrow> assignment_sound retries s a)"

definition assignment_moves :: "int \<Rightarrow> multi_agent_state \<Rightarrow> assignment \<Rightarrow> assignment \<Rightarrow> bool" where
  "assignment_moves retries s a a' \<longleftrightarrow>
     a_id a' = a_id a \<and> a_dependencies a' = a_dependencies a \<and>
     (a_status a' = a_status a \<and> a_child_run_id a' = a_child_run_id a \<and> a_attempt a' = a_attempt a \<or>
      a_status a = AsPENDING \<and> a_status a' = AsASSIGNED \<and> deps_done s a \<and> a_attempt a' = a_attempt a \<and>
        a_child_run_id a' \<noteq> None \<and> a_child_run_id a' \<noteq> Some [] \<or>
      assignment_in_flight a \<and> a_status a' \<in> {AsWAITING_CHILD, AsREVIEWING, AsFAILED, AsCANCELLED} \<and>
        a_child_run_id a' = a_child_run_id a \<and> a_attempt a' = a_attempt a \<or>
      a_status a = AsREVIEWING \<and> a_status a' = AsCOMPLETED \<and> a_attempt a' = a_attempt a \<or>
      a_status a = AsREVIEWING \<and> a_status a' = AsPENDING \<and> a_attempt a' = a_attempt a + 1 \<and> a_attempt a \<le> retries \<or>
      a_status a = AsPENDING \<and> a_status a' = AsSKIPPED \<and> dep_lost s a \<and> a_attempt a' = a_attempt a \<or>
      \<not> assignment_terminal a \<and> a_status a' = AsCANCELLED \<and> a_attempt a' = a_attempt a)"

definition assignments_move :: "int \<Rightarrow> multi_agent_state \<Rightarrow> multi_agent_state \<Rightarrow> bool" where
  "assignments_move retries s s' \<longleftrightarrow>
     map a_id (ma_assignments s') = map a_id (ma_assignments s) \<and>
     ma_schema_version s' = ma_schema_version s \<and>
     (\<forall>i a'. find_assignment s' i = Some a' \<longrightarrow> (\<exists>a. find_assignment s i = Some a \<and> assignment_moves retries s a a')) \<and>
     (\<forall>i a. find_assignment s i = Some a \<longrightarrow> (\<exists>a'. find_assignment s' i = Some a' \<and> assignment_moves retries s a a'))"

lemma assignment_moves_refl [simp]: "assignment_moves retries s a a"
  by (simp add: assignment_moves_def)

lemma moves_completed: "assignment_moves retries s a a' \<Longrightarrow> a_status a = AsCOMPLETED \<Longrightarrow> a_status a' = AsCOMPLETED"
  by (auto simp: assignment_moves_def assignment_terminal_def assignment_in_flight_def)

lemma moves_lost:
  "assignment_moves retries s a a' \<Longrightarrow> a_status a \<in> {AsFAILED, AsCANCELLED, AsSKIPPED} \<Longrightarrow>
    a_status a' \<in> {AsFAILED, AsCANCELLED, AsSKIPPED}"
  by (auto simp: assignment_moves_def assignment_terminal_def assignment_in_flight_def)

lemma moves_dependencies: "assignment_moves retries s a a' \<Longrightarrow> a_dependencies a' = a_dependencies a"
  by (simp add: assignment_moves_def)

lemma assignments_moveD:
  assumes "assignments_move retries s s'"
  shows "map a_id (ma_assignments s') = map a_id (ma_assignments s)"
    "ma_schema_version s' = ma_schema_version s"
    "find_assignment s' i = Some a' \<Longrightarrow> \<exists>a. find_assignment s i = Some a \<and> assignment_moves retries s a a'"
    "find_assignment s i = Some a \<Longrightarrow> \<exists>a'. find_assignment s' i = Some a' \<and> assignment_moves retries s a a'"
  using assms unfolding assignments_move_def by blast+

lemma deps_done_move:
  assumes m: "assignments_move retries s s'" and a: "assignment_moves retries s a a'" and d: "deps_done s a"
  shows "deps_done s' a'"
  unfolding deps_done_def moves_dependencies[OF a]
proof
  fix i assume "i \<in> set (a_dependencies a)"
  with d obtain b where b: "find_assignment s i = Some b" "a_status b = AsCOMPLETED" unfolding deps_done_def by blast
  from assignments_moveD(4)[OF m b(1)] moves_completed b(2)
  show "\<exists>b. find_assignment s' i = Some b \<and> a_status b = AsCOMPLETED" by blast
qed

lemma dep_lost_move:
  assumes m: "assignments_move retries s s'" and a: "assignment_moves retries s a a'" and d: "dep_lost s a"
  shows "dep_lost s' a'"
proof -
  from d obtain i b where b: "i \<in> set (a_dependencies a)" "find_assignment s i = Some b"
    "a_status b \<in> {AsFAILED, AsCANCELLED, AsSKIPPED}" unfolding dep_lost_def by blast
  from assignments_moveD(4)[OF m b(2)] moves_lost[OF _ b(3)] obtain b' where
    "find_assignment s' i = Some b'" "a_status b' \<in> {AsFAILED, AsCANCELLED, AsSKIPPED}" by blast
  with b(1) show ?thesis unfolding dep_lost_def moves_dependencies[OF a] by blast
qed

lemma assignment_sound_move:
  assumes m: "assignments_move retries s s'" and a: "assignment_moves retries s a a'"
    and sound: "assignment_sound retries s a"
  shows "assignment_sound retries s' a'"
proof -
  have "(deps_done s a \<longrightarrow> deps_done s' a') \<and> (dep_lost s a \<longrightarrow> dep_lost s' a')"
    using deps_done_move[OF m a] dep_lost_move[OF m a] by blast
  moreover have "given (a_status a') \<Longrightarrow> given (a_status a) \<or> deps_done s a"
    "a_status a' = AsSKIPPED \<Longrightarrow> a_status a = AsSKIPPED \<or> dep_lost s a"
    using a unfolding assignment_moves_def given_def assignment_in_flight_def
    by (elim conjE disjE, simp_all)+
  moreover have "assignment_in_flight a' \<Longrightarrow> a_child_run_id a' \<noteq> None \<and> a_child_run_id a' \<noteq> Some []"
    using a sound unfolding assignment_moves_def assignment_sound_def assignment_in_flight_def
    by (elim conjE disjE, simp_all)
  moreover have "1 \<le> a_attempt a' \<and> a_attempt a' \<le> max 0 retries + 1"
    using a sound unfolding assignment_moves_def assignment_sound_def
    by (elim conjE disjE, simp_all)
  ultimately show ?thesis using sound unfolding assignment_sound_def by blast
qed

lemma assignments_move_sound:
  assumes "assignments_move retries s s'" "ma_sound retries s" "active_exact s'"
  shows "ma_sound retries s'"
  unfolding ma_sound_def
proof (intro conjI allI impI)
  show "ids_distinct s'" "ma_schema_version s' = MULTI_AGENT_SCHEMA_VERSION"
    using assms(2) assignments_moveD(1,2)[OF assms(1)] by (simp_all add: ma_sound_def ids_distinct_def)
  fix i a' assume "find_assignment s' i = Some a'"
  from assignments_moveD(3)[OF assms(1) this] obtain a where
    a: "find_assignment s i = Some a" "assignment_moves retries s a a'" by blast
  from assms(2) a(1) have "assignment_sound retries s a" unfolding ma_sound_def by blast
  with assms(1) a(2) show "assignment_sound retries s' a'" by (rule assignment_sound_move)
qed (rule assms(3))

text \<open>Changing one assignment, or all of them.\<close>

lemma modify_moves:
  assumes "find_assignment s i = Some a" "\<And>b. a_id (f b) = a_id b" "assignment_moves retries s a (f a)"
    and "ma_assignments s' = ma_assignments (modify_assignment i f s)" "ma_schema_version s' = ma_schema_version s"
  shows "assignments_move retries s s'"
proof -
  have "find_assignment s' j = find_assignment (modify_assignment i f s) j" for j
    using assms(4) by (simp add: find_assignment_def)
  then show ?thesis
    unfolding assignments_move_def assms(4)
    using assms(1,3,5) modify_assignment_ids[OF assms(2)] by (auto simp: assms(2))
qed

lemma map_moves:
  assumes "\<And>b. a_id (f b) = a_id b" "\<And>i a. find_assignment s i = Some a \<Longrightarrow> assignment_moves retries s a (f a)"
    and "ma_assignments s' = map f (ma_assignments s)" "ma_schema_version s' = ma_schema_version s"
  shows "assignments_move retries s s'"
proof -
  have "find_assignment s' j = map_option f (find_assignment s j)" for j
    using assms(3) by (simp add: find_assignment_def find_map[OF assms(1)])
  then show ?thesis
    unfolding assignments_move_def assms(3) using assms(2,4) by (auto simp: assms(1))
qed

section \<open>The operations\<close>

lemma active_exact_modify:
  assumes "active_exact s" "find_assignment s i = Some a" "\<And>b. a_id (f b) = a_id b"
    and "ma_assignments s' = ma_assignments (modify_assignment i f s)"
    and "ma_active_ids s' = (if assignment_in_flight (f a) then ma_active_ids (activate i s)
                             else ma_active_ids (deactivate i s))"
  shows "active_exact s'"
proof -
  have look: "find_assignment s' j = (if j = i then Some (f a) else find_assignment s j)" for j
    using assms(2,4) find_modify_assignment[OF assms(3), of i s j] by (simp add: find_assignment_def)
  have ids: "distinct (ma_active_ids s') \<and> (\<forall>j. j \<in> set (ma_active_ids s') \<longleftrightarrow>
      (if j = i then assignment_in_flight (f a) else j \<in> set (ma_active_ids s)))"
  proof -
    have "distinct (ma_active_ids s)" using assms(1) by (simp add: active_exact_def)
    then show ?thesis unfolding assms(5) by (auto simp: activate_def deactivate_def)
  qed
  show ?thesis
    unfolding active_exact_def
  proof (intro conjI allI)
    show "distinct (ma_active_ids s')" using ids by blast
    fix j show "(j \<in> set (ma_active_ids s')) = (\<exists>a. find_assignment s' j = Some a \<and> assignment_in_flight a)"
      using ids look[of j] assms(1) unfolding active_exact_def by (cases "j = i") simp_all
  qed
qed

lemma active_exact_same:
  assumes "active_exact s" "ma_active_ids s' = ma_active_ids s"
    and "\<And>i. map_option assignment_in_flight (find_assignment s' i) = map_option assignment_in_flight (find_assignment s i)"
  shows "active_exact s'"
  unfolding active_exact_def assms(2)
proof (intro conjI allI)
  show "distinct (ma_active_ids s)" using assms(1) by (simp add: active_exact_def)
  fix i
  have flight: "(\<exists>a. find_assignment u i = Some a \<and> assignment_in_flight a) \<longleftrightarrow>
      map_option assignment_in_flight (find_assignment u i) = Some True" for u
    by (cases "find_assignment u i") simp_all
  have "i \<in> set (ma_active_ids s) \<longleftrightarrow> (\<exists>a. find_assignment s i = Some a \<and> assignment_in_flight a)"
    using assms(1) unfolding active_exact_def by blast
  then show "(i \<in> set (ma_active_ids s)) = (\<exists>a. find_assignment s' i = Some a \<and> assignment_in_flight a)"
    by (simp only: flight assms(3))
qed

lemma inactive_deactivate:
  assumes "active_exact s" "find_assignment s i = Some a" "\<not> assignment_in_flight a"
  shows "ma_active_ids (deactivate i s) = ma_active_ids s"
proof -
  have "i \<notin> set (ma_active_ids s)" using assms unfolding active_exact_def by fastforce
  then have "filter (\<lambda>j. j \<noteq> i) (ma_active_ids s) = ma_active_ids s"
    unfolding filter_id_conv by blast
  then show ?thesis by (simp add: deactivate_def)
qed

text \<open>Steps that touch neither the assignments nor the list of active ones.\<close>

definition same_assignments :: "multi_agent_state \<Rightarrow> multi_agent_state \<Rightarrow> bool" where
  "same_assignments s s' \<longleftrightarrow> ma_assignments s' = ma_assignments s \<and> ma_active_ids s' = ma_active_ids s \<and>
     ma_schema_version s' = ma_schema_version s"

lemma same_assignments_sound:
  assumes "same_assignments s s'" "ma_sound retries s" shows "ma_sound retries s'"
proof -
  have "find_assignment s' i = find_assignment s i" for i
    using assms(1) by (simp add: same_assignments_def find_assignment_def)
  moreover from this have "deps_done s' a = deps_done s a" "dep_lost s' a = dep_lost s a" for a
    by (simp_all add: deps_done_def dep_lost_def)
  ultimately show ?thesis
    using assms by (simp add: ma_sound_def ids_distinct_def active_exact_def assignment_sound_def same_assignments_def)
qed

lemma ready_deps_done:
  assumes "ids_distinct s" "assignment_ready (assignment_statuses s) a"
  shows "a_status a = AsPENDING" "deps_done s a"
  using assms by (auto simp: assignment_ready_def deps_done_def assignment_statuses_lookup list_all_iff)

lemma blocking_lookup:
  assumes "ids_distinct s"
  shows "blocked_assignment (assignment_statuses s) a \<longleftrightarrow> a_status a = AsPENDING \<and> dep_lost s a"
  unfolding blocked_assignment_def blocking_dependencies_def dep_lost_def assignment_statuses_lookup[OF assms]
  by (auto simp: filter_empty_conv)

lemma skip_blocked_sound:
  assumes "ma_sound retries s" shows "ma_sound retries (fst (skip_blocked s))"
proof -
  have d: "ids_distinct s" and act: "active_exact s" using assms by (simp_all add: ma_sound_def)
  define f where "f = (\<lambda>a. if blocked_assignment (assignment_statuses s) a
      then a\<lparr>a_status := AsSKIPPED, a_error := ''dependency did not complete successfully: ''
        @ py_join '', '' (blocking_dependencies (assignment_statuses s) a)\<rparr> else a)"
  have s': "ma_assignments (fst (skip_blocked s)) = map f (ma_assignments s)"
    "ma_active_ids (fst (skip_blocked s)) = ma_active_ids s"
    "ma_schema_version (fst (skip_blocked s)) = ma_schema_version s"
    by (simp_all add: skip_blocked_def Let_def f_def)
  have f: "a_id (f a) = a_id a" "assignment_moves retries s a (f a)" "assignment_in_flight (f a) = assignment_in_flight a" for a
    by (simp_all add: f_def assignment_moves_def blocking_lookup[OF d] assignment_in_flight_def)
  have "find_assignment (fst (skip_blocked s)) i = map_option f (find_assignment s i)" for i
    by (simp add: find_assignment_def s'(1) find_map f(1))
  then have "active_exact (fst (skip_blocked s))"
    by (intro active_exact_same[OF act s'(2)]) (simp add: option.map_comp comp_def f(3))
  with assms show ?thesis
    using map_moves[OF f(1) f(2) s'(1,3)] by (blast intro: assignments_move_sound)
qed

definition may_assign :: "multi_agent_state \<Rightarrow> string \<Rightarrow> bool" where
  "may_assign s i \<longleftrightarrow> (\<forall>a. find_assignment s i = Some a \<longrightarrow> a_status a = AsPENDING \<longrightarrow> deps_done s a)"

definition assign_next :: "(string \<Rightarrow> string) \<Rightarrow> string \<Rightarrow> string \<Rightarrow> multi_agent_state \<Rightarrow> multi_agent_state" where
  "assign_next D parent i s = activate i (modify_assignment i (\<lambda>a. a\<lparr>a_status := AsASSIGNED,
     a_child_run_id := Some (child_run_id D parent (a_id a) (a_attempt a))\<rparr>) s)"

lemma assign_next_sound:
  assumes "ma_sound retries s" "find_assignment s i = Some a" "a_status a = AsPENDING" "deps_done s a"
  shows "ma_sound retries (assign_next D parent i s) \<and> (may_assign s j \<longrightarrow> may_assign (assign_next D parent i s) j)"
proof -
  let ?s = "assign_next D parent i s"
  define f :: "assignment \<Rightarrow> assignment" where "f = (\<lambda>a. a\<lparr>a_status := AsASSIGNED,
     a_child_run_id := Some (child_run_id D parent (a_id a) (a_attempt a))\<rparr>)"
  have s': "?s = activate i (modify_assignment i f s)" by (simp add: assign_next_def f_def)
  have id: "a_id (f b) = a_id b" for b by (simp add: f_def)
  have "assignment_moves retries s a (f a)"
    using assms(3,4) by (simp add: f_def assignment_moves_def child_run_id_def)
  from modify_moves[OF assms(2) id this, of ?s]
  have m: "assignments_move retries s ?s" by (simp add: s' modify_assignment_def activate_def)
  have "active_exact ?s"
    by (rule active_exact_modify[OF _ assms(2) id])
      (use assms(1) in \<open>simp_all add: s' ma_sound_def f_def assignment_in_flight_def activate_def modify_assignment_def\<close>)
  with m assms(1) have "ma_sound retries ?s" by (blast intro: assignments_move_sound)
  moreover have "may_assign ?s j" if "may_assign s j"
    unfolding may_assign_def
  proof (intro allI impI)
    fix b assume b: "find_assignment ?s j = Some b" "a_status b = AsPENDING"
    then have "j \<noteq> i" using assms(2) by (auto simp: s' id f_def)
    with b that have "deps_done s b" by (simp add: s' id may_assign_def)
    then show "deps_done ?s b" by (rule deps_done_move[OF m assignment_moves_refl])
  qed
  ultimately show ?thesis by blast
qed

lemma assign_ready_sound:
  assumes "ma_sound retries s" "\<And>i. i \<in> set ids \<Longrightarrow> may_assign s i"
  shows "ma_sound retries (fst (assign_ready D parent ids s))"
proof -
  let ?step = "\<lambda>(s, ids) i. case find_assignment s i of
              None \<Rightarrow> (s, ids)
            | Some a \<Rightarrow> if a_status a \<noteq> AsPENDING then (s, ids)
                else (assign_next D parent i s, ids @ [i])"
  have step: "ma_sound retries (fst (?step (s, acc) i)) \<and> (\<forall>j. may_assign s j \<longrightarrow> may_assign (fst (?step (s, acc) i)) j)"
    if "ma_sound retries s" "may_assign s i" for s acc i
    using that assign_next_sound[of retries s i] unfolding may_assign_def[of s i] by (simp split: option.split)
  have "ma_sound retries (fst (foldl ?step (s, acc) ids))"
    if "ma_sound retries s" "\<And>i. i \<in> set ids \<Longrightarrow> may_assign s i" for s acc
    using that
  proof (induction ids arbitrary: s acc)
    case (Cons i ids)
    obtain s' acc' where s': "?step (s, acc) i = (s', acc')" by (cases "?step (s, acc) i")
    have "ma_sound retries s'" "\<And>j. may_assign s j \<Longrightarrow> may_assign s' j"
      using step[OF Cons.prems(1) Cons.prems(2)[of i], of acc] unfolding s' by simp_all
    with Cons.IH[of s' acc'] Cons.prems(2) show ?case unfolding foldl.simps s' by simp
  qed simp
  with assms show ?thesis unfolding assign_ready_def assign_next_def[symmetric] by blast
qed

lemma snapshot_may_assign:
  assumes "ma_sound retries s" "i \<in> set (sn_ready (multi_agent_snapshot s cs))"
  shows "may_assign s i"
proof -
  have d: "ids_distinct s" using assms(1) by (simp add: ma_sound_def)
  from assms(2) obtain a where a: "a \<in> set (ma_assignments s)" "assignment_ready (assignment_statuses s) a" "i = a_id a"
    by (auto simp: multi_agent_snapshot_def)
  with find_assignment_mem[OF d a(1)] ready_deps_done[OF d a(2)] show ?thesis by (simp add: may_assign_def)
qed

lemma assigned_state_sound:
  assumes "ma_sound retries s" shows "ma_sound retries (assigned_state D parent cs s)"
proof -
  have "ma_sound retries (fst (assign_ready D parent (sn_ready (multi_agent_snapshot s cs)) s))"
    using assms snapshot_may_assign[OF assms] by (rule assign_ready_sound)
  moreover have "ma_sound retries (u\<lparr>ma_status := x\<rparr>)" if "ma_sound retries u" for u x
    by (rule same_assignments_sound[OF _ that]) (simp add: same_assignments_def)
  ultimately show ?thesis
    unfolding assigned_state_def by (auto split: prod.split list.split)
qed

lemma modified_sound:
  assumes "ma_sound retries s" "find_assignment s i = Some a" "\<And>b. a_id (f b) = a_id b"
    and "assignment_moves retries s a (f a)"
    and "ma_assignments s' = ma_assignments (modify_assignment i f s)" "ma_schema_version s' = ma_schema_version s"
    and "ma_active_ids s' = (if assignment_in_flight (f a) then ma_active_ids (activate i s)
                             else ma_active_ids (deactivate i s))"
  shows "ma_sound retries s'"
proof (rule assignments_move_sound[OF modify_moves[OF assms(2,3,4,5,6)] assms(1)])
  show "active_exact s'"
    using assms(1) active_exact_modify[OF _ assms(2,3,5,7)] by (simp add: ma_sound_def)
qed

lemma observed_assignment_sound:
  assumes "ma_sound retries s" "find_assignment s i = Some a" "assignment_in_flight a"
    and "observed_assignment c a s = Some (s', operation)"
  shows "ma_sound retries s'"
proof -
  have i: "a_id a = i" using find_assignmentD(2)[OF assms(2)] .
  note defs = assignment_moves_def modify_assignment_def activate_def deactivate_def assignment_in_flight_def
  from assms(3,4) consider
      "s' = activate i (modify_assignment i (\<lambda>a. a\<lparr>a_status := AsWAITING_CHILD\<rparr>) (s\<lparr>ma_status := MaRUNNING\<rparr>))"
    | "s' = deactivate i (modify_assignment i (\<lambda>a. a\<lparr>a_result := r_output_text c, a_error := [],
         a_status := AsREVIEWING\<rparr>) (s\<lparr>ma_status := MaRUNNING\<rparr>))"
    | st where "st \<in> {AsCANCELLED, AsFAILED}"
        "s' = deactivate i (modify_assignment i (\<lambda>a. a\<lparr>a_error := child_error_text c, a_status := st\<rparr>)
          (s\<lparr>ma_status := MaRUNNING\<rparr>))"
    by (auto simp: observed_assignment_def Let_def i split: if_splits)
  then show ?thesis
  proof cases
    case 1
    show ?thesis
      by (rule modified_sound[OF assms(1,2), where f = "\<lambda>a. a\<lparr>a_status := AsWAITING_CHILD\<rparr>"])
        (use assms(3) 1 in \<open>simp_all add: defs\<close>)
  next
    case 2
    show ?thesis
      by (rule modified_sound[OF assms(1,2), where f = "\<lambda>a. a\<lparr>a_result := r_output_text c, a_error := [], a_status := AsREVIEWING\<rparr>"])
        (use assms(3) 2 in \<open>simp_all add: defs\<close>)
  next
    case 3
    show ?thesis
      by (rule modified_sound[OF assms(1,2), where f = "\<lambda>a. a\<lparr>a_error := child_error_text c, a_status := st\<rparr>"])
        (use assms(3) 3 in \<open>auto simp: defs\<close>)
  qed
qed

lemma not_flight_active:
  assumes "ma_sound retries s" "find_assignment s i = Some a" "\<not> assignment_in_flight a"
  shows "ma_active_ids (deactivate i s) = ma_active_ids s"
  using assms inactive_deactivate by (simp add: ma_sound_def)

lemma reviewed_assignment_sound:
  assumes "ma_sound retries s" "find_assignment s i = Some a" "a_status a = AsREVIEWING"
  shows "ma_sound retries (reviewed_assignment text approved issues i s)"
proof -
  have nf: "\<not> assignment_in_flight a" using assms(3) by (simp add: assignment_in_flight_def)
  show ?thesis
    by (rule modified_sound[OF assms(1,2), where f = "\<lambda>a. a\<lparr>a_review_output := text, a_review_approved := Some approved, a_review_issues := issues\<rparr>"])
      (use assms(3) not_flight_active[OF assms(1,2) nf] in
        \<open>simp_all add: reviewed_assignment_def modify_assignment_def assignment_moves_def assignment_in_flight_def\<close>)
qed

lemma decide_review_sound:
  assumes "ma_sound retries s" "find_assignment s i = Some a" "a_status a = AsREVIEWING"
  shows "ma_sound retries (decide_review retries a s)"
proof -
  have i: "a_id a = i" using find_assignmentD(2)[OF assms(2)] .
  show ?thesis
  proof (cases "review_accepts retries a")
    case True
    show ?thesis
      by (rule modified_sound[OF assms(1,2), where f = "\<lambda>a. a\<lparr>a_status := AsCOMPLETED\<rparr>"])
        (use True assms(3) in \<open>simp_all add: decide_review_def accept_assignment_def i modify_assignment_def deactivate_def
          assignment_moves_def assignment_in_flight_def\<close>)
  next
    case False
    then have "a_attempt a \<le> retries" by (simp add: review_accepts_def)
    then show ?thesis
      by (intro modified_sound[OF assms(1,2), where f = "\<lambda>a. a\<lparr>a_attempt := a_attempt a + 1, a_status := AsPENDING,
            a_child_run_id := None, a_result := [], a_error := [], a_review_output := [], a_review_approved := None\<rparr>"])
        (use False assms(3) in \<open>simp_all add: decide_review_def reassign_def i modify_assignment_def deactivate_def
          assignment_moves_def assignment_in_flight_def\<close>)
  qed
qed

lemma cancel_assignments_sound:
  assumes "ma_sound retries s" shows "ma_sound retries (cancel_assignments s)"
proof -
  define f :: "assignment \<Rightarrow> assignment" where "f = (\<lambda>a. if assignment_terminal a then a else a\<lparr>a_status := AsCANCELLED\<rparr>)"
  have s': "ma_assignments (cancel_assignments s) = map f (ma_assignments s)"
    "ma_schema_version (cancel_assignments s) = ma_schema_version s"
    by (simp_all add: cancel_assignments_def f_def)
  have id: "a_id (f a) = a_id a" for a by (simp add: f_def)
  have "assignment_moves retries s a (f a)" for a by (simp add: f_def assignment_moves_def)
  from map_moves[OF id this s'] have m: "assignments_move retries s (cancel_assignments s)" .
  have "ma_active_ids (cancel_assignments s) = []"
  proof -
    have "i \<in> a_id ` set (ma_assignments s)" if "i \<in> set (ma_active_ids s)" for i
      using that assms find_assignmentD[of s i] unfolding ma_sound_def active_exact_def by blast
    then show ?thesis by (simp add: cancel_assignments_def filter_empty_conv)
  qed
  moreover have "\<not> assignment_in_flight (f a)" for a
    by (cases "a_status a") (simp_all add: f_def assignment_in_flight_def assignment_terminal_def)
  then have "\<not> (\<exists>a. find_assignment (cancel_assignments s) i = Some a \<and> assignment_in_flight a)" for i
    by (auto simp: find_assignment_def s' find_map[OF id])
  ultimately have "active_exact (cancel_assignments s)" by (simp add: active_exact_def)
  with m assms show ?thesis by (rule assignments_move_sound)
qed

end
