(* ===== verification/MultiAgentProps.thy ===== *)
theory MultiAgentProps
  imports MultiAgentFlow RunStateProps
begin

text \<open>
  The orchestrations a multi-agent run can reach, from the planner's answer through assignment,
  observation, review, retries, skipping, cancellation and restarts, and what holds of them.
\<close>

section \<open>Writing and reading back\<close>

lemma assignment_reads_back:
  "assignment_from_dict E (assignment_to_dict a) =
    Ok (a\<lparr>a_worker_role := (if a_worker_role a = [] then ''worker'' else a_worker_role a), a_attempt := max 1 (a_attempt a)\<rparr>)"
  by (cases "a_child_run_id a"; cases "a_review_approved a"; cases "a_attempt a = 0")
    (simp_all add: assignment_from_dict_def assignment_to_dict_def dict_item_def dict_get_def str_or_def
      py_or_def py_optional_str_def opt_val_def)

definition multi_agent_wf :: "multi_agent_state \<Rightarrow> bool" where
  "multi_agent_wf s \<longleftrightarrow> ma_schema_version s = MULTI_AGENT_SCHEMA_VERSION \<and>
     list_all (\<lambda>a. 1 \<le> a_attempt a \<and> a_worker_role a \<noteq> []) (ma_assignments s)"

lemma multi_agent_reads_back:
  assumes "ma_schema_version s = MULTI_AGENT_SCHEMA_VERSION"
  shows "multi_agent_from_dict E (multi_agent_to_dict s) =
    Ok (s\<lparr>ma_assignments := map (\<lambda>a. a\<lparr>a_worker_role := (if a_worker_role a = [] then ''worker'' else a_worker_role a),
          a_attempt := max 1 (a_attempt a)\<rparr>) (ma_assignments s)\<rparr>)"
proof -
  let ?f = "\<lambda>a. a\<lparr>a_worker_role := (if a_worker_role a = [] then ''worker'' else a_worker_role a), a_attempt := max 1 (a_attempt a)\<rparr>"
  have "mapR (assignment_from_dict E) (map assignment_to_dict as) = Ok (map ?f as)" for as
    by (induction as) (simp_all add: assignment_reads_back)
  with assms show ?thesis
    by (cases "ma_current_id s"; cases "ma_review_rounds s = 0"; cases "ma_max_parallelism s = 0")
      (simp_all add: multi_agent_from_dict_def multi_agent_to_dict_def dict_get_def int_or_zero_def str_or_def
        py_or_def py_optional_str_def opt_val_def MULTI_AGENT_SCHEMA_VERSION_def)
qed

text \<open>An orchestration whose assignments have a role and a positive attempt comes back unchanged from
  the checkpoint it is written to: its assignments, their reviews, retries and children, and the
  active identifiers.\<close>

theorem multi_agent_roundtrip:
  assumes "multi_agent_wf s"
  shows "load_multi_agent E (store_multi_agent s st) = Ok (Some s)"
proof -
  let ?f = "\<lambda>a. a\<lparr>a_worker_role := (if a_worker_role a = [] then ''worker'' else a_worker_role a), a_attempt := max 1 (a_attempt a)\<rparr>"
  have "map ?f (ma_assignments s) = ma_assignments s"
    by (rule map_idI) (use assms in \<open>auto simp: multi_agent_wf_def list_all_iff\<close>)
  then have "multi_agent_from_dict E (multi_agent_to_dict s) = Ok s"
    using assms multi_agent_reads_back[of s E] by (simp add: multi_agent_wf_def)
  then show ?thesis by (simp add: load_multi_agent_def store_multi_agent_def dict_get_def)
qed

section \<open>The parsed assignments\<close>

lemma digit_char_value: "n < 10 \<Longrightarrow> (of_char (digit_char n) :: nat) = 48 + n"
  by (simp add: digit_char_def)

definition text_nat :: "string \<Rightarrow> nat" where
  "text_nat s = foldl (\<lambda>n c. 10 * n + (of_char c - 48)) 0 s"

lemma text_nat_text [simp]: "text_nat (nat_text n) = n"
proof (induction n rule: nat_text.induct)
  case (1 n)
  show ?case
    using 1 by (subst nat_text.simps) (auto simp: text_nat_def digit_char_value)
qed

lemma assignment_name_inj: "assignment_name i = assignment_name j \<Longrightarrow> i = j"
proof -
  assume "assignment_name i = assignment_name j"
  then have "text_nat (nat_text i) = text_nat (nat_text j)" by (simp add: assignment_name_def)
  then show ?thesis by simp
qed

lemma parsed_ids: "distinct (map a_id (parse_assignments E loads text))"
proof -
  have "distinct (map a_id (map (\<lambda>(i, node). (node_assignment E i node)\<lparr>a_dependencies := deps node\<rparr>)
      (zip [1..<Suc (length ds)] ds)))" for ds and deps :: "pydict \<Rightarrow> string list"
  proof -
    have len: "length [1..<Suc (length ds)] = length ds" by (simp del: upt_Suc)
    have "map a_id (map (\<lambda>(i, node). (node_assignment E i node)\<lparr>a_dependencies := deps node\<rparr>) (zip [1..<Suc (length ds)] ds))
        = map assignment_name (map fst (zip [1..<Suc (length ds)] ds))"
      by (simp add: node_assignment_def new_assignment_def split_beta)
    also have "\<dots> = map assignment_name [1..<Suc (length ds)]" by (simp only: map_fst_zip[OF len])
    finally show ?thesis
      using assignment_name_inj by (simp add: distinct_map inj_on_def del: upt_Suc)
  qed
  then show ?thesis
    unfolding parse_assignments_def Let_def by (auto split: option.split pyval.split)
qed

lemma parsed_fresh:
  "a \<in> set (parse_assignments E loads text) \<Longrightarrow> a_status a = AsPENDING \<and> a_attempt a = 1 \<and> a_child_run_id a = None"
  by (auto simp: parse_assignments_def Let_def node_assignment_def new_assignment_def
      split: option.splits pyval.splits)

lemma fresh_sound:
  assumes "distinct (map a_id as)" "\<And>a. a \<in> set as \<Longrightarrow> a_status a = AsPENDING \<and> a_attempt a = 1 \<and> a_child_run_id a = None"
    and "ma_assignments s = as" "ma_active_ids s = []" "ma_schema_version s = MULTI_AGENT_SCHEMA_VERSION"
  shows "ma_sound retries s"
proof -
  have pending: "a_status a = AsPENDING" "a_attempt a = 1" if "find_assignment s i = Some a" for i a
    using assms(2,3) find_assignmentD(1)[OF that] by simp_all
  then have "\<not> (\<exists>a. find_assignment s i = Some a \<and> assignment_in_flight a)" for i
    by (auto simp: assignment_in_flight_def)
  then show ?thesis
    using assms(1,3-5) pending
    by (auto simp: ma_sound_def ids_distinct_def active_exact_def assignment_sound_def given_def assignment_in_flight_def)
qed

lemma created_sound:
  assumes "ma_assignments s = []" "ma_active_ids s = []" "ma_schema_version s = MULTI_AGENT_SCHEMA_VERSION"
  shows "ma_sound retries (created_assignments E loads text s)"
proof (cases "parse_assignments E loads text")
  case Nil
  with assms show ?thesis by (intro fresh_sound[of "[]"]) (simp_all add: created_assignments_def)
next
  case (Cons a as)
  then show ?thesis
    using parsed_ids[of E loads "text"] parsed_fresh[of _ E loads "text"] assms(2,3)
    by (intro fresh_sound[of "a # as"]) (simp_all add: created_assignments_def)
qed

lemma reload_ma_sound:
  assumes "ma_sound retries s" "multi_agent_from_dict E (multi_agent_to_dict s) = Ok s'"
  shows "ma_sound retries s'"
proof -
  define f :: "assignment \<Rightarrow> assignment" where
    "f = (\<lambda>a. a\<lparr>a_worker_role := (if a_worker_role a = [] then ''worker'' else a_worker_role a), a_attempt := max 1 (a_attempt a)\<rparr>)"
  have s': "s' = s\<lparr>ma_assignments := map f (ma_assignments s)\<rparr>"
    using assms multi_agent_reads_back[of s E] by (simp add: ma_sound_def f_def)
  have id: "a_id (f a) = a_id a" for a by (simp add: f_def)
  have look: "find_assignment s' i = map_option f (find_assignment s i)" for i
    by (simp add: s' find_assignment_def find_map[OF id])
  have m: "assignments_move retries s s'"
  proof (rule map_moves[OF id])
    fix i a assume "find_assignment s i = Some a"
    with assms(1) have "1 \<le> a_attempt a" unfolding ma_sound_def assignment_sound_def by blast
    then show "assignment_moves retries s a (f a)" by (simp add: assignment_moves_def f_def)
  qed (simp_all add: s')
  have "active_exact s'"
  proof (rule active_exact_same)
    show "active_exact s" using assms(1) by (simp add: ma_sound_def)
    have "assignment_in_flight (f a) = assignment_in_flight a" for a by (simp add: f_def assignment_in_flight_def)
    then show "map_option assignment_in_flight (find_assignment s' i) = map_option assignment_in_flight (find_assignment s i)" for i
      by (simp add: look option.map_comp comp_def)
  qed (simp add: s')
  with m assms(1) show ?thesis by (rule assignments_move_sound)
qed

section \<open>Reachable orchestrations\<close>

inductive ma_step :: "int \<Rightarrow> multi_agent_state \<Rightarrow> multi_agent_state \<Rightarrow> bool" for retries where
  created: "ma_assignments s = [] \<Longrightarrow> ma_step retries s (created_assignments E loads text s)"
| skipped: "ma_step retries s (fst (skip_blocked s))"
| assigned: "ma_step retries s (assigned_state D parent cs s)"
| launched: "ma_step retries s (launched_state max_workers launchable s)"
| observed: "find_assignment s i = Some a \<Longrightarrow> assignment_in_flight a \<Longrightarrow>
    observed_assignment c a s = Some (s', operation) \<Longrightarrow> ma_step retries s s'"
| reviewed: "find_assignment s i = Some a \<Longrightarrow> a_status a = AsREVIEWING \<Longrightarrow>
    ma_step retries s (reviewed_assignment text approved issues i s)"
| decided: "find_assignment s i = Some a \<Longrightarrow> a_status a = AsREVIEWING \<Longrightarrow> ma_step retries s (decide_review retries a s)"
| waited: "ma_step retries s (waiting_state sn s)"
| synthesized: "ma_step retries s (synthesized_state s)"
| completed: "ma_step retries s (completed_state s)"
| cancelled: "ma_step retries s (cancel_assignments s)"
| reloaded: "multi_agent_from_dict E (multi_agent_to_dict s) = Ok s' \<Longrightarrow> ma_step retries s s'"

inductive ma_reached :: "int \<Rightarrow> multi_agent_state \<Rightarrow> bool" for retries where
  ma_start: "ma_reached retries (new_multi_agent_state goal)"
| ma_continue: "ma_reached retries s \<Longrightarrow> ma_step retries s s' \<Longrightarrow> ma_reached retries s'"

lemma ma_step_sound: "ma_step retries s s' \<Longrightarrow> ma_sound retries s \<Longrightarrow> ma_sound retries s'"
proof (induction rule: ma_step.induct)
  case (created s E loads answer)
  have "ma_active_ids s = []"
    using created unfolding ma_sound_def active_exact_def find_assignment_def
    by (cases "ma_active_ids s") auto
  with created show ?case by (intro created_sound) (simp_all add: ma_sound_def)
next
  case (launched s max_workers launchable)
  then show ?case by (intro same_assignments_sound[OF _ launched]) (simp add: same_assignments_def launched_state_def)
next
  case (waited s sn)
  show ?case by (rule same_assignments_sound[OF _ waited]) (simp add: same_assignments_def waiting_state_def)
next
  case (synthesized s)
  show ?case by (rule same_assignments_sound[OF _ synthesized]) (simp add: same_assignments_def synthesized_state_def)
next
  case (completed s)
  show ?case by (rule same_assignments_sound[OF _ completed]) (simp add: same_assignments_def completed_state_def)
next
  case (observed s i a c s' operation)
  show ?case by (rule observed_assignment_sound[OF observed(4,1,2,3)])
next
  case (reloaded E s s')
  show ?case by (rule reload_ma_sound[OF reloaded(2,1)])
qed (simp_all add: skip_blocked_sound assigned_state_sound reviewed_assignment_sound decide_review_sound
      cancel_assignments_sound)

lemma ma_reached_sound: "ma_reached retries s \<Longrightarrow> ma_sound retries s"
proof (induction rule: ma_reached.induct)
  case (ma_start goal)
  show ?case by (rule fresh_sound[of "[]"]) (simp_all add: new_multi_agent_state_def)
next
  case (ma_continue s s')
  then show ?case by (blast intro: ma_step_sound)
qed

text \<open>C12: In every orchestration a run can reach, an assignment that was given to a worker, is reviewed,
  completed or failed has all its dependencies completed, a skipped one has lost one, and the
  active identifiers are exactly those of the assignments in flight, each once.\<close>

theorem workers_follow_dependencies:
  assumes "ma_reached retries s"
  shows "(\<forall>i a. find_assignment s i = Some a \<longrightarrow>
      (given (a_status a) \<longrightarrow> deps_done s a) \<and> (a_status a = AsSKIPPED \<longrightarrow> dep_lost s a)) \<and>
    distinct (ma_active_ids s) \<and>
    (\<forall>i. i \<in> set (ma_active_ids s) \<longleftrightarrow> (\<exists>a. find_assignment s i = Some a \<and> assignment_in_flight a))"
  using ma_reached_sound[OF assms] unfolding ma_sound_def assignment_sound_def active_exact_def by blast

text \<open>No assignment is tried more often than once and the configured number of retries, however its
  reviews end and however often the run is restarted.\<close>

theorem attempts_bounded:
  assumes "ma_reached retries s" "find_assignment s i = Some a"
  shows "1 \<le> a_attempt a \<and> a_attempt a \<le> max 0 retries + 1"
  using ma_reached_sound[OF assms(1)] assms(2) unfolding ma_sound_def assignment_sound_def by blast

section \<open>When a run synthesizes\<close>

lemma assign_ready_active:
  assumes "i \<in> set ids" "find_assignment s i = Some a" "a_status a = AsPENDING"
  shows "ma_active_ids (fst (assign_ready D parent ids s)) \<noteq> []"
proof -
  let ?step = "\<lambda>(s, ids) i. case find_assignment s i of
              None \<Rightarrow> (s, ids)
            | Some a \<Rightarrow> if a_status a \<noteq> AsPENDING then (s, ids)
                else (assign_next D parent i s, ids @ [i])"
  have grows: "set (ma_active_ids s) \<subseteq> set (ma_active_ids (fst (?step (s, acc) j)))" for s acc j
    by (auto simp: assign_next_def activate_def modify_assignment_def split: option.split)
  have keeps: "ma_active_ids s \<noteq> [] \<Longrightarrow> ma_active_ids (fst (foldl ?step (s, acc) ids)) \<noteq> []" for s acc ids
  proof (induction ids arbitrary: s acc)
    case (Cons j ids)
    obtain s' acc' where s': "?step (s, acc) j = (s', acc')" by (cases "?step (s, acc) j")
    have "ma_active_ids s' \<noteq> []" using grows[of s acc j] Cons.prems unfolding s' by (cases "ma_active_ids s") auto
    from Cons.IH[OF this] show ?case unfolding foldl.simps s' .
  qed simp
  have "ma_active_ids (fst (foldl ?step (s, acc) ids)) \<noteq> []"
    if "i \<in> set ids" "find_assignment s i = Some a" "a_status a = AsPENDING" for s acc
    using that
  proof (induction ids arbitrary: s acc)
    case (Cons j ids)
    obtain s' acc' where s': "?step (s, acc) j = (s', acc')" by (cases "?step (s, acc) j")
    show ?case
    proof (cases "ma_active_ids s' = []")
      case False
      from keeps[OF this] show ?thesis unfolding foldl.simps s' .
    next
      case True
      then have eq: "s' = s" "j \<noteq> i"
        using s' Cons.prems(2,3) by (auto simp: assign_next_def activate_def split: option.splits if_splits)
      have "i \<in> set ids" using Cons.prems(1) eq(2) by simp
      from Cons.IH[OF this Cons.prems(2,3), of acc'] show ?thesis unfolding foldl.simps s' eq(1) .
    qed
  qed simp
  with assms show ?thesis unfolding assign_ready_def assign_next_def[symmetric] by blast
qed

lemma assigned_state_idle:
  assumes "ids_distinct s" "ma_active_ids (assigned_state D parent cs s) = []"
  shows "sn_ready (multi_agent_snapshot s cs) = [] \<and> assigned_state D parent cs s = s"
proof (cases "sn_ready (multi_agent_snapshot s cs)")
  case Nil
  then show ?thesis by (simp add: assigned_state_def assign_ready_def)
next
  case (Cons i ids)
  then have "i \<in> set (sn_ready (multi_agent_snapshot s cs))" by simp
  then obtain a where a: "a \<in> set (ma_assignments s)" "assignment_ready (assignment_statuses s) a" "i = a_id a"
    by (auto simp: multi_agent_snapshot_def)
  then have "find_assignment s i = Some a" "a_status a = AsPENDING"
    by (simp_all add: find_assignment_mem[OF assms(1)] assignment_ready_def)
  then have "ma_active_ids (fst (assign_ready D parent (sn_ready (multi_agent_snapshot s cs)) s)) \<noteq> []"
    by (intro assign_ready_active[of i]) (simp_all add: Cons)
  then have "ma_active_ids (assigned_state D parent cs s) \<noteq> []"
    unfolding assigned_state_def by (auto split: prod.split list.split)
  with assms(2) show ?thesis by simp
qed

lemma quiet_decision:
  assumes "multi_agent_decision s cs2 cs3 \<in> {MaSynthesize, MaComplete}" "a \<in> set (ma_assignments s)"
  shows "\<not> assignment_in_flight a"
proof
  assume fl: "assignment_in_flight a"
  then have "\<not> assignment_terminal a" by (auto simp: assignment_in_flight_def assignment_terminal_def)
  with fl assms(2) have "sn_active (multi_agent_snapshot s cs3) \<noteq> [] \<or> sn_waiting (multi_agent_snapshot s cs3) \<noteq> []"
    by (cases "paused_child cs3 (a_id a)") (auto simp: multi_agent_snapshot_def filter_empty_conv)
  with assms(1) show False by (auto simp: multi_agent_decision_def Let_def split: if_splits)
qed

text \<open>A run synthesizes or completes only when nothing is left to do: every assignment has ended, or it is
  pending and one of its dependencies is not completed.\<close>

theorem synthesis_when_quiet:
  assumes "ma_reached retries s" "multi_agent_step D parent cs1 cs2 cs3 s = (s', act)"
    and "act \<in> {MaSynthesize, MaComplete}" "find_assignment s' i = Some a"
  shows "assignment_terminal a \<or> a_status a = AsPENDING \<and> \<not> deps_done s' a"
proof -
  define s1 where "s1 = fst (skip_blocked s)"
  have none: "find (\<lambda>a. a_status a = AsREVIEWING) (ma_assignments s) = None"
    using assms(2,3) by (auto simp: multi_agent_step_def split: option.splits)
  then have s': "s' = assigned_state D parent cs1 s1" "act = multi_agent_decision s' cs2 cs3"
    using assms(2) by (auto simp: multi_agent_step_def Let_def s1_def)
  have sound1: "ma_sound retries s1" unfolding s1_def by (rule skip_blocked_sound[OF ma_reached_sound[OF assms(1)]])
  then have sound: "ma_sound retries s'" unfolding s'(1) by (rule assigned_state_sound)
  have idle: "\<not> assignment_in_flight b" if "find_assignment s' j = Some b" for j b
    using quiet_decision[of s' cs2 cs3 b] assms(3) s'(2) find_assignmentD(1)[OF that] by simp
  have "ma_active_ids s' = []"
  proof (rule ccontr)
    assume "ma_active_ids s' \<noteq> []"
    then obtain j where "j \<in> set (ma_active_ids s')" by (cases "ma_active_ids s'") auto
    with sound idle show False unfolding ma_sound_def active_exact_def by blast
  qed
  with assigned_state_idle[of s1] sound1 have ready: "sn_ready (multi_agent_snapshot s1 cs1) = []" and eq: "s' = s1"
    unfolding s'(1) ma_sound_def by blast+
  have a: "a \<in> set (ma_assignments s1)" using find_assignmentD(1)[OF assms(4)] eq by simp
  have "a_status a \<noteq> AsREVIEWING"
    using a none by (auto simp: s1_def skip_blocked_def Let_def find_None_iff split: if_splits)
  moreover have "a_status a = AsPENDING \<Longrightarrow> \<not> deps_done s1 a"
  proof
    assume "a_status a = AsPENDING" "deps_done s1 a"
    then have "assignment_ready (assignment_statuses s1) a"
      using sound1 by (auto simp: assignment_ready_def deps_done_def ma_sound_def assignment_statuses_lookup list_all_iff)
    with a ready show False by (auto simp: multi_agent_snapshot_def filter_empty_conv)
  qed
  ultimately show ?thesis
    using idle[OF assms(4)] eq by (cases "a_status a") (simp_all add: assignment_terminal_def assignment_in_flight_def)
qed

section \<open>A chain of four assignments\<close>

text \<open>Each waits for the one before; the worker of the first fails.\<close>

definition chain_answer :: pyval where
  "chain_answer = PDict [(''steps'', PList
     [PDict [(''id'', PStr ''a'')],
      PDict [(''id'', PStr ''b''), (''dependencies'', PList [PStr ''a''])],
      PDict [(''id'', PStr ''c''), (''dependencies'', PList [PStr ''b''])],
      PDict [(''id'', PStr ''d''), (''dependencies'', PList [PStr ''c''])]])]"

definition chain_created :: multi_agent_state where
  "chain_created = created_assignments demo_env (\<lambda>_. Ok chain_answer) ''{}'' (new_multi_agent_state ''goal'')"

definition chain_assigned :: multi_agent_state where
  "chain_assigned = assigned_state (\<lambda>s. s) ''run'' [] chain_created"

definition chain_failed :: "multi_agent_state option" where
  "chain_failed = (case find_assignment chain_assigned ''assignment_1'' of
     Some a \<Rightarrow> if assignment_in_flight a
       then map_option fst (observed_assignment (demo_run\<lparr>r_status := RunFAILED\<rparr>) a chain_assigned) else None
   | None \<Rightarrow> None)"

definition chain_step :: "multi_agent_state \<Rightarrow> multi_agent_state" where
  "chain_step s = assigned_state (\<lambda>s. s) ''run'' [] (fst (skip_blocked s))"

definition chain_synthesized :: "multi_agent_state \<Rightarrow> multi_agent_state" where
  "chain_synthesized s = synthesized_state (chain_step s)"

lemma chain_created_reached: "ma_reached retries chain_created"
  unfolding chain_created_def
  by (rule ma_continue[OF ma_start]) (rule created, simp add: new_multi_agent_state_def)

lemma chain_assigned_reached: "ma_reached retries chain_assigned"
  unfolding chain_assigned_def by (rule ma_continue[OF chain_created_reached assigned])

lemma chain_failed_reached: "chain_failed = Some s \<Longrightarrow> ma_reached retries s"
  by (auto simp: chain_failed_def split: option.splits if_splits
      intro: ma_continue[OF chain_assigned_reached] observed)

lemma chain_step_reached: "ma_reached retries s \<Longrightarrow> ma_reached retries (chain_step s)"
  unfolding chain_step_def by (rule ma_continue[OF ma_continue[OF _ skipped] assigned])

lemma chain_synthesized_reached: "ma_reached retries s \<Longrightarrow> ma_reached retries (chain_synthesized s)"
  unfolding chain_synthesized_def by (rule ma_continue[OF chain_step_reached synthesized])

definition chain_statuses :: "multi_agent_state \<Rightarrow> assignment_status list" where
  "chain_statuses s = map a_status (ma_assignments s)"

text \<open>The step after the failure, and the step after the synthesis.\<close>

definition chain_next :: "multi_agent_state \<Rightarrow> multi_agent_state \<times> ma_action" where
  "chain_next = multi_agent_step (\<lambda>s. s) ''run'' [] [] []"

definition is_synthesize :: "ma_action \<Rightarrow> bool" where
  "is_synthesize act = (case act of MaSynthesize \<Rightarrow> True | _ \<Rightarrow> False)"

definition is_complete :: "ma_action \<Rightarrow> bool" where
  "is_complete act = (case act of MaComplete \<Rightarrow> True | _ \<Rightarrow> False)"

definition chain_run :: "(bool \<times> assignment_status list \<times> bool \<times> assignment_status list) option" where
  "chain_run = map_option (\<lambda>s.
     (is_synthesize (snd (chain_next s)), chain_statuses (fst (chain_next s)),
      is_complete (snd (chain_next (chain_synthesized s))),
      chain_statuses (completed_state (fst (chain_next (chain_synthesized s)))))) chain_failed"

lemma chain_run_value:
  "chain_run = Some (True, [AsFAILED, AsSKIPPED, AsPENDING, AsPENDING],
     True, [AsFAILED, AsSKIPPED, AsSKIPPED, AsPENDING])"
  by code_simp

lemma chain_failed_some:
  obtains s where "chain_failed = Some s" "is_synthesize (snd (chain_next s))"
    "chain_statuses (fst (chain_next s)) = [AsFAILED, AsSKIPPED, AsPENDING, AsPENDING]"
    "is_complete (snd (chain_next (chain_synthesized s)))"
    "chain_statuses (completed_state (fst (chain_next (chain_synthesized s)))) = [AsFAILED, AsSKIPPED, AsSKIPPED, AsPENDING]"
  using chain_run_value unfolding chain_run_def map_option_eq_Some prod.inject by blast


section \<open>Witnesses\<close>

theorem multi_agent_roundtrip_witness:
  "load_multi_agent demo_env (store_multi_agent (new_multi_agent_state ''g'') demo_run) = Ok (Some (new_multi_agent_state ''g''))"
  by (rule multi_agent_roundtrip) (simp add: multi_agent_wf_def new_multi_agent_state_def)

theorem workers_follow_dependencies_witness:
  "distinct (ma_active_ids chain_assigned) \<and> ''assignment_1'' \<in> set (ma_active_ids chain_assigned)"
proof -
  have "ma_active_ids chain_assigned = [''assignment_1'']" by code_simp
  with workers_follow_dependencies[OF chain_assigned_reached[of 2]] show ?thesis by simp
qed

theorem attempts_bounded_witness:
  "\<exists>a. find_assignment chain_assigned ''assignment_1'' = Some a \<and> a_attempt a \<le> 1"
proof -
  have "map_option a_attempt (find_assignment chain_assigned ''assignment_1'') = Some 1" by code_simp
  then obtain a where a: "find_assignment chain_assigned ''assignment_1'' = Some a" by auto
  from attempts_bounded[OF chain_assigned_reached[of 0] a] a show ?thesis by simp
qed

theorem synthesis_when_quiet_witness:
  "\<exists>s s'. chain_failed = Some s \<and> chain_next s = (s', MaSynthesize) \<and>
    (\<forall>i a. find_assignment s' i = Some a \<longrightarrow> assignment_terminal a \<or> a_status a = AsPENDING \<and> \<not> deps_done s' a)"
proof -
  obtain s where s: "chain_failed = Some s" "is_synthesize (snd (chain_next s))" by (rule chain_failed_some)
  then obtain s' where s': "chain_next s = (s', MaSynthesize)"
    by (cases "chain_next s"; cases "snd (chain_next s)") (simp_all add: is_synthesize_def)
  from synthesis_when_quiet[OF chain_failed_reached[OF s(1)] s'[unfolded chain_next_def]] s(1) s'
  show ?thesis by blast
qed

end
