(* ===== verification/Supervisor.thy ===== *)
theory Supervisor
  imports PyText
begin

text \<open>
  The registry of the executions active in one process, \<^verbatim>\<open>runtime/supervisor.py\<close>, and how
  \<^verbatim>\<open>DurableAgentRuntime\<close> uses it around every execution of a run. Whether an asyncio task is done,
  whether a loop is closed or refuses a callback are answers of the surroundings. Every method
  holds the lock of the registry, so it is one step.
\<close>

section \<open>The registry\<close>

datatype cancellation_status = CancelSignalled | CancelNotActive | CancelAlreadyDone | CancelLoopUnavailable

fun cancellation_status_value :: "cancellation_status \<Rightarrow> string" where
  "cancellation_status_value CancelSignalled = ''signalled''"
| "cancellation_status_value CancelNotActive = ''not_active''"
| "cancellation_status_value CancelAlreadyDone = ''already_done''"
| "cancellation_status_value CancelLoopUnavailable = ''loop_unavailable''"

text \<open>\<open>eh_ref\<close> is the identity of the handle object, which \<^verbatim>\<open>is not\<close> compares.\<close>

record execution_handle =
  eh_ref :: nat
  eh_run_id :: string
  eh_thread_id :: string
  eh_turn_id :: string
  eh_parent_run_id :: "string option"
  eh_run_kind :: string
  eh_loop :: nat
  eh_task :: nat
  eh_owner_thread_id :: int
  eh_registered_at :: string
  eh_cancellation_requested :: bool
  eh_metadata :: pydict

text \<open>The handles by run, and the callbacks handed to event loops, as pairs of loop and task.\<close>

record supervisor =
  sv_handles :: "(string \<times> execution_handle) list"
  sv_callbacks :: "(nat \<times> nat) list"

type_synonym task_done = "nat \<Rightarrow> bool"

definition inspection_view :: "task_done \<Rightarrow> execution_handle \<Rightarrow> pydict" where
  "inspection_view done' h = [
     (''run_id'', PStr (eh_run_id h)), (''thread_id'', PStr (eh_thread_id h)),
     (''turn_id'', PStr (eh_turn_id h)), (''parent_run_id'', opt_val PStr (eh_parent_run_id h)),
     (''run_kind'', PStr (eh_run_kind h)),
     (''execution_strategy'', dict_get (eh_metadata h) ''execution_strategy''),
     (''registered_at'', PStr (eh_registered_at h)), (''owner_thread_id'', PInt (eh_owner_thread_id h)),
     (''task_done'', PBool (done' (eh_task h))),
     (''cancellation_requested'', PBool (eh_cancellation_requested h))]"

definition sup_find :: "string \<Rightarrow> supervisor \<Rightarrow> execution_handle option" where
  "sup_find i s = map_of (sv_handles s) i"

definition sup_remove :: "string \<Rightarrow> supervisor \<Rightarrow> supervisor" where
  "sup_remove i s = s\<lparr>sv_handles := filter (\<lambda>(k, h). k \<noteq> i) (sv_handles s)\<rparr>"

definition sup_put :: "execution_handle \<Rightarrow> supervisor \<Rightarrow> supervisor" where
  "sup_put h s = s\<lparr>sv_handles := dict_set (eh_run_id h) h (sv_handles s)\<rparr>"

definition sup_register :: "task_done \<Rightarrow> execution_handle \<Rightarrow> supervisor \<Rightarrow> supervisor \<times> execution_handle res" where
  "sup_register done' h s =
     (case sup_find (eh_run_id h) s of
        None \<Rightarrow> (sup_put h s, Ok h)
      | Some e \<Rightarrow>
          if \<not> done' (eh_task e)
          then (s, Raise (ActiveRunRegistrationError (''run already has an active execution: '' @ eh_run_id h)))
          else (sup_put h (sup_remove (eh_run_id h) s), Ok h))"

definition sup_unregister :: "string \<Rightarrow> nat option \<Rightarrow> supervisor \<Rightarrow> supervisor \<times> execution_handle option" where
  "sup_unregister i expected s =
     (case sup_find i s of
        None \<Rightarrow> (s, None)
      | Some e \<Rightarrow>
          if expected \<noteq> None \<and> expected \<noteq> Some (eh_ref e) then (s, None)
          else (sup_remove i s, Some e))"

definition sup_get :: "task_done \<Rightarrow> string \<Rightarrow> supervisor \<Rightarrow> supervisor \<times> execution_handle option" where
  "sup_get done' i s =
     (case sup_find i s of
        None \<Rightarrow> (s, None)
      | Some h \<Rightarrow> if done' (eh_task h) then (sup_remove i s, None) else (s, Some h))"

definition sup_is_active :: "task_done \<Rightarrow> string \<Rightarrow> supervisor \<Rightarrow> supervisor \<times> bool" where
  "sup_is_active done' i s = (case sup_get done' i s of (s', h) \<Rightarrow> (s', h \<noteq> None))"

definition sup_remove_done :: "task_done \<Rightarrow> supervisor \<Rightarrow> supervisor" where
  "sup_remove_done done' s = s\<lparr>sv_handles := filter (\<lambda>(k, h). \<not> done' (eh_task h)) (sv_handles s)\<rparr>"

definition sup_list_active :: "task_done \<Rightarrow> supervisor \<Rightarrow> supervisor \<times> execution_handle list" where
  "sup_list_active done' s =
     (let s' = sup_remove_done done' s in (s', dict_values (sv_handles s')))"

definition sup_inspect_active :: "task_done \<Rightarrow> supervisor \<Rightarrow> supervisor \<times> pydict list" where
  "sup_inspect_active done' s =
     (case sup_list_active done' s of (s', hs) \<Rightarrow> (s', map (inspection_view done') hs))"

text \<open>\<open>refuses\<close>: the loop is closed, or raises when a callback is handed to it.\<close>

definition sup_request_cancel :: "task_done \<Rightarrow> (nat \<Rightarrow> bool) \<Rightarrow> string \<Rightarrow> supervisor
    \<Rightarrow> supervisor \<times> cancellation_status" where
  "sup_request_cancel done' refuses i s =
     (case sup_find i s of
        None \<Rightarrow> (s, CancelNotActive)
      | Some h \<Rightarrow>
          if done' (eh_task h) then (sup_remove i s, CancelAlreadyDone)
          else
            let s1 = s\<lparr>sv_handles := dict_set i (h\<lparr>eh_cancellation_requested := True\<rparr>) (sv_handles s)\<rparr> in
            if refuses (eh_loop h) then (s1, CancelLoopUnavailable)
            else (s1\<lparr>sv_callbacks := sv_callbacks s1 @ [(eh_loop h, eh_task h)]\<rparr>, CancelSignalled))"

text \<open>\<^verbatim>\<open>dict.fromkeys\<close>: the first of each.\<close>

definition first_occurrences :: "'a list \<Rightarrow> 'a list" where
  "first_occurrences xs = rev (remdups (rev xs))"

fun sup_cancel_each :: "task_done \<Rightarrow> (nat \<Rightarrow> bool) \<Rightarrow> string list \<Rightarrow> supervisor
    \<Rightarrow> supervisor \<times> (string \<times> cancellation_status) list" where
  "sup_cancel_each done' refuses [] s = (s, [])"
| "sup_cancel_each done' refuses (i # is) s =
     (case sup_request_cancel done' refuses i s of (s1, c) \<Rightarrow>
        (case sup_cancel_each done' refuses is s1 of (s2, cs) \<Rightarrow> (s2, (i, c) # cs)))"

record cancel_many_result =
  cm_requested :: "string list"
  cm_signalled :: "string list"
  cm_not_active :: "string list"
  cm_already_done :: "string list"
  cm_loop_unavailable :: "string list"

definition bucket :: "cancellation_status \<Rightarrow> (string \<times> cancellation_status) list \<Rightarrow> string list" where
  "bucket c cs = map fst (filter (\<lambda>(i, d). d = c) cs)"

definition sup_request_cancel_many :: "task_done \<Rightarrow> (nat \<Rightarrow> bool) \<Rightarrow> string list \<Rightarrow> supervisor
    \<Rightarrow> supervisor \<times> cancel_many_result" where
  "sup_request_cancel_many done' refuses ids s =
     (let requested = first_occurrences ids in
      case sup_cancel_each done' refuses requested s of (s', cs) \<Rightarrow>
        (s', \<lparr>cm_requested = requested, cm_signalled = bucket CancelSignalled cs,
              cm_not_active = bucket CancelNotActive cs, cm_already_done = bucket CancelAlreadyDone cs,
              cm_loop_unavailable = bucket CancelLoopUnavailable cs\<rparr>))"

text \<open>
  \<^verbatim>\<open>drain\<close> waits: each element is what it finds when it looks again, the changes others made
  meanwhile, the tasks that are done and the time. \<open>None\<close>: it is still waiting.
\<close>

fun sup_drain :: "rat \<Rightarrow> ((supervisor \<Rightarrow> supervisor) \<times> task_done \<times> rat) list \<Rightarrow> supervisor
    \<Rightarrow> supervisor \<times> bool option" where
  "sup_drain deadline [] s = (s, None)"
| "sup_drain deadline ((change, done', now) # looks) s =
     (let s1 = sup_remove_done done' (change s) in
      if sv_handles s1 = [] then (s1, Some True)
      else if deadline - now \<le> 0 then (s1, Some False)
      else sup_drain deadline looks s1)"

definition sup_shutdown :: "task_done \<Rightarrow> (nat \<Rightarrow> bool) \<Rightarrow> rat \<Rightarrow> rat
    \<Rightarrow> ((supervisor \<Rightarrow> supervisor) \<times> task_done \<times> rat) list \<Rightarrow> supervisor \<Rightarrow> supervisor \<times> bool option" where
  "sup_shutdown done' refuses timeout start looks s =
     (case sup_list_active done' s of (s1, hs) \<Rightarrow>
      case sup_request_cancel_many done' refuses (map eh_run_id hs) s1 of (s2, r) \<Rightarrow>
        sup_drain (start + max 0 timeout) looks s2)"

section \<open>Executions\<close>

text \<open>
  The executions of one process: \<open>xs_live\<close> are those between the registration in
  \<^verbatim>\<open>_execute_registered\<close> and its \<^verbatim>\<open>finally\<close>, as identity of the handle, run and task.
  A task is done only after the executions it runs have left.
\<close>

record executions =
  xs_supervisor :: supervisor
  xs_done :: "nat set"
  xs_live :: "(nat \<times> string \<times> nat) set"

inductive exec_step :: "executions \<Rightarrow> executions \<Rightarrow> bool" where
  exec_begin: "sup_register (\<lambda>t. t \<in> xs_done x) h (xs_supervisor x) = (s, Ok h') \<Longrightarrow>
    eh_ref h \<notin> fst ` xs_live x \<Longrightarrow> eh_task h \<notin> xs_done x \<Longrightarrow>
    exec_step x (x\<lparr>xs_supervisor := s, xs_live := insert (eh_ref h, eh_run_id h, eh_task h) (xs_live x)\<rparr>)"
| exec_finally: "(ref, i, t) \<in> xs_live x \<Longrightarrow>
    exec_step x (x\<lparr>xs_supervisor := fst (sup_unregister i (Some ref) (xs_supervisor x)),
                   xs_live := xs_live x - {(ref, i, t)}\<rparr>)"
| exec_done: "t \<notin> snd ` snd ` xs_live x \<Longrightarrow> exec_step x (x\<lparr>xs_done := insert t (xs_done x)\<rparr>)"
| exec_get: "exec_step x (x\<lparr>xs_supervisor := fst (sup_get (\<lambda>t. t \<in> xs_done x) i (xs_supervisor x))\<rparr>)"
| exec_list: "exec_step x (x\<lparr>xs_supervisor := fst (sup_list_active (\<lambda>t. t \<in> xs_done x) (xs_supervisor x))\<rparr>)"
| exec_cancel: "exec_step x (x\<lparr>xs_supervisor := fst (sup_request_cancel (\<lambda>t. t \<in> xs_done x) refuses i (xs_supervisor x))\<rparr>)"

definition no_executions :: executions where
  "no_executions = \<lparr>xs_supervisor = \<lparr>sv_handles = [], sv_callbacks = []\<rparr>, xs_done = {}, xs_live = {}\<rparr>"

inductive exec_reached :: "executions \<Rightarrow> bool" where
  nothing: "exec_reached no_executions"
| further: "exec_reached x \<Longrightarrow> exec_step x y \<Longrightarrow> exec_reached y"

section \<open>Exclusive execution\<close>

definition executions_ok :: "executions \<Rightarrow> bool" where
  "executions_ok x \<longleftrightarrow> distinct (map fst (sv_handles (xs_supervisor x))) \<and>
     (\<forall>ref i t. (ref, i, t) \<in> xs_live x \<longrightarrow> t \<notin> xs_done x \<and>
        (\<exists>h. sup_find i (xs_supervisor x) = Some h \<and> eh_ref h = ref \<and> eh_task h = t))"

lemma sup_find_simps [simp]:
  "sup_find j (sup_remove i s) = (if j = i then None else sup_find j s)"
  "sup_find j (sup_put h s) = (if j = eh_run_id h then Some h else sup_find j s)"
proof -
  have "map_of (filter (\<lambda>(k, h). k \<noteq> i) xs) j = (if j = i then None else map_of xs j)" for xs :: "(string \<times> execution_handle) list"
    by (induction xs) auto
  then show "sup_find j (sup_remove i s) = (if j = i then None else sup_find j s)"
    by (simp add: sup_find_def sup_remove_def)
qed (simp add: sup_find_def sup_put_def)

lemma distinct_filter_keys: "distinct (map fst xs) \<Longrightarrow> distinct (map fst (filter P xs))"
  by (induction xs) auto

lemma sup_distinct [simp]:
  "distinct (map fst (sv_handles s)) \<Longrightarrow> distinct (map fst (sv_handles (sup_remove i s)))"
  "distinct (map fst (sv_handles s)) \<Longrightarrow> distinct (map fst (sv_handles (sup_put h s)))"
  "distinct (map fst (sv_handles s)) \<Longrightarrow> distinct (map fst (sv_handles (sup_remove_done d s)))"
  by (simp_all add: sup_remove_def sup_put_def sup_remove_done_def distinct_filter_keys distinct_update)

lemma sup_find_updates [simp]:
  "sup_find j (s\<lparr>sv_handles := dict_set i h (sv_handles s)\<rparr>) = (if j = i then Some h else sup_find j s)"
  "sup_find j (s\<lparr>sv_callbacks := c\<rparr>) = sup_find j s"
  by (simp_all add: sup_find_def)

lemma map_of_filter_value:
  "distinct (map fst xs) \<Longrightarrow> map_of (filter (\<lambda>(k, h). P h) xs) i =
    (case map_of xs i of None \<Rightarrow> None | Some h \<Rightarrow> if P h then Some h else None)"
proof (induction xs)
  case (Cons a xs)
  obtain k h where a: "a = (k, h)" by fastforce
  have IH: "map_of (filter (\<lambda>(k, h). P h) xs) i =
      (case map_of xs i of None \<Rightarrow> None | Some h \<Rightarrow> if P h then Some h else None)"
    using Cons.prems by (intro Cons.IH) simp
  have none: "map_of xs i = None" if "k = i" using Cons.prems a that by (simp add: map_of_eq_None_iff)
  show ?case by (cases "k = i") (simp_all add: a IH none)
qed simp

lemma sup_find_remove_done:
  assumes "distinct (map fst (sv_handles s))"
  shows "sup_find i (sup_remove_done d s) =
    (case sup_find i s of None \<Rightarrow> None | Some h \<Rightarrow> if d (eh_task h) then None else Some h)"
  using map_of_filter_value[OF assms, of "\<lambda>h. \<not> d (eh_task h)" i]
  by (cases "map_of (sv_handles s) i") (simp_all add: sup_find_def sup_remove_done_def)

lemma sup_request_cancel_distinct:
  "distinct (map fst (sv_handles s)) \<Longrightarrow> distinct (map fst (sv_handles (fst (sup_request_cancel d refuses i s))))"
  by (simp add: sup_request_cancel_def Let_def distinct_update split: option.split)

lemma executions_okD:
  assumes "executions_ok x"
  shows "distinct (map fst (sv_handles (xs_supervisor x)))"
    and "(ref, i, t) \<in> xs_live x \<Longrightarrow> t \<notin> xs_done x \<and>
      (\<exists>h. sup_find i (xs_supervisor x) = Some h \<and> eh_ref h = ref \<and> eh_task h = t)"
  using assms unfolding executions_ok_def by blast+

lemma executions_okI:
  assumes "distinct (map fst (sv_handles (xs_supervisor x)))"
    and "\<And>ref i t. (ref, i, t) \<in> xs_live x \<Longrightarrow> t \<notin> xs_done x \<and>
      (\<exists>h. sup_find i (xs_supervisor x) = Some h \<and> eh_ref h = ref \<and> eh_task h = t)"
  shows "executions_ok x"
  using assms unfolding executions_ok_def by blast

text \<open>A registry that still finds the handles of the tasks that are not done.\<close>

lemma executions_ok_registry:
  assumes "executions_ok x" "distinct (map fst (sv_handles s))"
    and "\<And>i h. sup_find i (xs_supervisor x) = Some h \<Longrightarrow> eh_task h \<notin> xs_done x \<Longrightarrow>
      \<exists>h'. sup_find i s = Some h' \<and> eh_ref h' = eh_ref h \<and> eh_task h' = eh_task h"
  shows "executions_ok (x\<lparr>xs_supervisor := s\<rparr>)"
proof (rule executions_okI)
  fix ref i t assume "(ref, i, t) \<in> xs_live (x\<lparr>xs_supervisor := s\<rparr>)"
  then have "(ref, i, t) \<in> xs_live x" by simp
  from executions_okD(2)[OF assms(1) this] assms(3)
  show "t \<notin> xs_done (x\<lparr>xs_supervisor := s\<rparr>) \<and> (\<exists>h. sup_find i (xs_supervisor (x\<lparr>xs_supervisor := s\<rparr>)) = Some h
      \<and> eh_ref h = ref \<and> eh_task h = t)" by fastforce
qed (simp add: assms(2))

lemma exec_step_ok: "exec_step x y \<Longrightarrow> executions_ok x \<Longrightarrow> executions_ok y"
proof (induction rule: exec_step.induct)
  case (exec_begin x h s h')
  note d = executions_okD(1)[OF exec_begin.prems] and live = executions_okD(2)[OF exec_begin.prems]
  have fresh: "eh_run_id h \<noteq> i" if "(ref, i, t) \<in> xs_live x" for ref i t
    using live[OF that] exec_begin.hyps(1) by (auto simp: sup_register_def split: option.splits if_splits)
  have s: "distinct (map fst (sv_handles s))" "sup_find (eh_run_id h) s = Some h"
      "i \<noteq> eh_run_id h \<Longrightarrow> sup_find i s = sup_find i (xs_supervisor x)" for i
    using exec_begin.hyps(1) d by (auto simp: sup_register_def split: option.splits if_splits)
  show ?case
  proof (rule executions_okI)
    fix ref i t assume "(ref, i, t) \<in> xs_live (x\<lparr>xs_supervisor := s,
        xs_live := insert (eh_ref h, eh_run_id h, eh_task h) (xs_live x)\<rparr>)"
    then consider "ref = eh_ref h" "i = eh_run_id h" "t = eh_task h" | "(ref, i, t) \<in> xs_live x" by auto
    then show "t \<notin> xs_done (x\<lparr>xs_supervisor := s, xs_live := insert (eh_ref h, eh_run_id h, eh_task h) (xs_live x)\<rparr>) \<and>
        (\<exists>h'. sup_find i (xs_supervisor (x\<lparr>xs_supervisor := s,
           xs_live := insert (eh_ref h, eh_run_id h, eh_task h) (xs_live x)\<rparr>)) = Some h' \<and> eh_ref h' = ref \<and> eh_task h' = t)"
    proof cases
      case 1
      then show ?thesis using s(2) exec_begin.hyps(3) by simp
    next
      case 2
      then show ?thesis using live[OF 2] fresh[OF 2] s(3)[of i] by simp
    qed
  qed (simp add: s(1))
next
  case (exec_finally ref i t x)
  note d = executions_okD(1)[OF exec_finally.prems] and live = executions_okD(2)[OF exec_finally.prems]
  from live[OF exec_finally.hyps] obtain h where h: "sup_find i (xs_supervisor x) = Some h" "eh_ref h = ref" "eh_task h = t"
    by blast
  have other: "j \<noteq> i" if "(ref', j, t') \<in> xs_live x" "(ref', j, t') \<noteq> (ref, i, t)" for ref' j t'
    using live[OF that(1)] h that(2) by auto
  have s: "fst (sup_unregister i (Some ref) (xs_supervisor x)) = sup_remove i (xs_supervisor x)"
    using h by (simp add: sup_unregister_def)
  show ?case unfolding s
  proof (rule executions_okI)
    fix ref' j t' assume "(ref', j, t') \<in> xs_live (x\<lparr>xs_supervisor := sup_remove i (xs_supervisor x),
        xs_live := xs_live x - {(ref, i, t)}\<rparr>)"
    then have m: "(ref', j, t') \<in> xs_live x" "(ref', j, t') \<noteq> (ref, i, t)" by auto
    show "t' \<notin> xs_done (x\<lparr>xs_supervisor := sup_remove i (xs_supervisor x), xs_live := xs_live x - {(ref, i, t)}\<rparr>) \<and>
        (\<exists>h. sup_find j (xs_supervisor (x\<lparr>xs_supervisor := sup_remove i (xs_supervisor x),
           xs_live := xs_live x - {(ref, i, t)}\<rparr>)) = Some h \<and> eh_ref h = ref' \<and> eh_task h = t')"
      using live[OF m(1)] other[OF m] by simp
  qed (simp add: d)
next
  case (exec_done t x)
  then show ?case
    by (intro executions_okI) (force dest: executions_okD)+
next
  case (exec_get x i)
  show ?case
    by (rule executions_ok_registry[OF exec_get])
      (use executions_okD(1)[OF exec_get] in \<open>auto simp del: map_of_eq_Some_iff simp: sup_get_def split: option.splits\<close>)
next
  case (exec_list x)
  show ?case
    by (rule executions_ok_registry[OF exec_list])
      (use executions_okD(1)[OF exec_list] in \<open>simp_all add: sup_list_active_def Let_def sup_find_remove_done\<close>)
next
  case (exec_cancel x refuses i)
  show ?case
    by (rule executions_ok_registry[OF exec_cancel sup_request_cancel_distinct[OF executions_okD(1)[OF exec_cancel]]])
      (cases "sup_find i (xs_supervisor x)"; auto simp: sup_request_cancel_def Let_def)
qed

lemma exec_reached_ok: "exec_reached x \<Longrightarrow> executions_ok x"
  by (induction rule: exec_reached.induct)
    (simp add: no_executions_def executions_ok_def, blast intro: exec_step_ok)

text \<open>Whatever is registered, unregistered, listed, cancelled and finished in one process, a run has at
  most one execution at a time; and a request to cancel a run that is being executed reaches that
  execution: its handle is flagged, and the loop of its task gets the callback unless it refuses.\<close>

theorem one_active_execution:
  assumes "exec_reached x" "(ref, i, t) \<in> xs_live x"
    and "sup_request_cancel (\<lambda>t. t \<in> xs_done x) refuses i (xs_supervisor x) = (s, c)"
  shows "(\<forall>ref' t'. (ref', i, t') \<in> xs_live x \<longrightarrow> ref' = ref \<and> t' = t) \<and>
    (\<exists>h. sup_find i s = Some h \<and> eh_ref h = ref \<and> eh_cancellation_requested h \<and>
      (if refuses (eh_loop h) then c = CancelLoopUnavailable
       else c = CancelSignalled \<and> (eh_loop h, t) \<in> set (sv_callbacks s)))"
proof -
  have ok: "\<And>ref i t. (ref, i, t) \<in> xs_live x \<Longrightarrow> t \<notin> xs_done x \<and>
      (\<exists>h. sup_find i (xs_supervisor x) = Some h \<and> eh_ref h = ref \<and> eh_task h = t)"
    using exec_reached_ok[OF assms(1)] by (auto simp: executions_ok_def)
  from ok[OF assms(2)] obtain h where h: "t \<notin> xs_done x" "sup_find i (xs_supervisor x) = Some h"
    "eh_ref h = ref" "eh_task h = t" by blast
  have "\<forall>ref' t'. (ref', i, t') \<in> xs_live x \<longrightarrow> ref' = ref \<and> t' = t"
    using ok h by fastforce
  moreover have "sup_find i s = Some (h\<lparr>eh_cancellation_requested := True\<rparr>) \<and>
      (if refuses (eh_loop h) then c = CancelLoopUnavailable
       else c = CancelSignalled \<and> (eh_loop h, t) \<in> set (sv_callbacks s))"
    using assms(3) h by (auto simp: sup_request_cancel_def Let_def sup_find_def split: if_splits)
  ultimately show ?thesis using h(3) by auto
qed

definition demo_handle :: "nat \<Rightarrow> execution_handle" where
  "demo_handle n = \<lparr>eh_ref = n, eh_run_id = ''run'', eh_thread_id = ''t'', eh_turn_id = ''u'',
     eh_parent_run_id = None, eh_run_kind = ''turn'', eh_loop = 1, eh_task = n, eh_owner_thread_id = 1,
     eh_registered_at = ''now'', eh_cancellation_requested = False, eh_metadata = []\<rparr>"

definition demo_executions :: executions where
  "demo_executions = no_executions\<lparr>xs_supervisor := \<lparr>sv_handles = [(''run'', demo_handle 7)], sv_callbacks = []\<rparr>,
     xs_live := {(7, ''run'', 7)}\<rparr>"

lemma demo_executions_reached: "exec_reached demo_executions"
proof -
  have "exec_step no_executions demo_executions"
    using exec_begin[of no_executions "demo_handle 7" "\<lparr>sv_handles = [(''run'', demo_handle 7)], sv_callbacks = []\<rparr>" "demo_handle 7"]
    by (simp add: demo_executions_def no_executions_def sup_register_def sup_find_def sup_put_def demo_handle_def)
  then show ?thesis by (rule exec_reached.further[OF exec_reached.nothing])
qed

lemma one_active_execution_witness:
  "\<exists>h. sup_find ''run'' (fst (sup_request_cancel (\<lambda>t. False) (\<lambda>l. False) ''run'' (xs_supervisor demo_executions))) = Some h \<and>
    eh_cancellation_requested h"
proof -
  obtain s c where sc: "sup_request_cancel (\<lambda>t. t \<in> xs_done demo_executions) (\<lambda>l. False) ''run'' (xs_supervisor demo_executions) = (s, c)"
    by fastforce
  moreover have "(7, ''run'', 7) \<in> xs_live demo_executions" by (simp add: demo_executions_def)
  ultimately show ?thesis
    using one_active_execution[OF demo_executions_reached _ sc] by (auto simp: demo_executions_def no_executions_def)
qed

end
