(* ===== verification/ContextText.thy ===== *)
theory ContextText
  imports Texts RunModels
begin

text \<open>
  The texts of \<^verbatim>\<open>context.py\<close> and \<^verbatim>\<open>memory/summarizer.py\<close>: the estimate of tokens, the summary that
  stands for earlier messages, its structured part read off the messages, the deterministic
  summarizer, and the bounded projection of a tool result.
\<close>

section \<open>Texts of messages\<close>

text \<open>\<open>J\<close> is \<^verbatim>\<open>_json_text\<close>, the canonical JSON text.\<close>

definition content_text :: "(pyval \<Rightarrow> string) \<Rightarrow> content \<Rightarrow> string" where
  "content_text J c = (case c of TextContent s \<Rightarrow> s | PartsContent vs \<Rightarrow> J (PList vs))"

text \<open>\<^verbatim>\<open>str(message.content)\<close>\<close>

definition content_str :: "pyenv \<Rightarrow> content \<Rightarrow> string" where
  "content_str E c = (case c of TextContent s \<Rightarrow> s | PartsContent vs \<Rightarrow> py_str E (PList vs))"

definition py_rstrip :: "string \<Rightarrow> string" where
  "py_rstrip s = rev (dropWhile is_space (rev s))"

definition clip :: "nat \<Rightarrow> string \<Rightarrow> string" where
  "clip n s = (let c = py_strip s in if length c \<le> n then c else py_rstrip (take (n - 3) c) @ ''...'')"

section \<open>Tokens\<close>

record token_estimator =
  chars_per_token :: int
  message_overhead_tokens :: int

definition default_estimator :: token_estimator where
  "default_estimator = \<lparr>chars_per_token = 4, message_overhead_tokens = 4\<rparr>"

definition estimate_text :: "token_estimator \<Rightarrow> string \<Rightarrow> int" where
  "estimate_text e s =
     (if s = [] then 0
      else let d = max 1 (chars_per_token e) in
        max 1 (max ((int (length s) + d - 1) div d) (int (line_count s))))"

definition estimate_message :: "(pyval \<Rightarrow> string) \<Rightarrow> token_estimator \<Rightarrow> message \<Rightarrow> int" where
  "estimate_message J e m =
     message_overhead_tokens e + estimate_text e (content_text J (m_content m))
     + (case m_name m of None \<Rightarrow> 0 | Some n \<Rightarrow> estimate_text e n)
     + (case m_tool_call_id m of None \<Rightarrow> 0 | Some i \<Rightarrow> estimate_text e i)
     + (if m_tool_calls m = [] then 0 else estimate_text e (J (PList (map PDict (m_tool_calls m)))))"

definition estimate_messages :: "(pyval \<Rightarrow> string) \<Rightarrow> token_estimator \<Rightarrow> message list \<Rightarrow> string
    \<Rightarrow> pydict list \<Rightarrow> int" where
  "estimate_messages J e ms system tools =
     estimate_text e system + sum_list (map (estimate_message J e) ms)
     + (if tools = [] then 0 else estimate_text e (J (PList (map PDict tools))))"

section \<open>The summary\<close>

record ctx_summary =
  cs_objective :: string
  cs_constraints :: "string list"
  cs_decisions :: "string list"
  cs_completed :: "string list"
  cs_open :: "string list"
  cs_files :: "string list"
  cs_evidence :: "string list"
  cs_failures :: "string list"
  cs_narrative :: string
  cs_covered :: int
  cs_fingerprint :: string

definition empty_summary :: ctx_summary where
  "empty_summary = \<lparr>cs_objective = [], cs_constraints = [], cs_decisions = [], cs_completed = [],
     cs_open = [], cs_files = [], cs_evidence = [], cs_failures = [], cs_narrative = [],
     cs_covered = 0, cs_fingerprint = []\<rparr>"

definition summary_rows :: "string \<Rightarrow> string list \<Rightarrow> string list" where
  "summary_rows key values =
     (key @ '':'') # (if values = [] then [''- none recorded''] else map (\<lambda>v. ''- '' @ v) values)"

definition summary_text :: "ctx_summary \<Rightarrow> string" where
  "summary_text s = py_join newline
     ([''[live runtime context summary]'',
       ''objective: '' @ (if cs_objective s = [] then ''not recorded'' else cs_objective s)]
      @ summary_rows ''constraints'' (cs_constraints s) @ summary_rows ''decisions'' (cs_decisions s)
      @ summary_rows ''completed_work'' (cs_completed s) @ summary_rows ''open_work'' (cs_open s)
      @ summary_rows ''modified_files'' (cs_files s)
      @ summary_rows ''important_evidence'' (cs_evidence s)
      @ summary_rows ''known_failures'' (cs_failures s)
      @ (if cs_narrative s = [] then [] else [''map_reduce_summary:'', cs_narrative s])
      @ [''[end live runtime context summary]''])"

definition strings_val :: "string list \<Rightarrow> pyval" where
  "strings_val xs = PList (map PStr xs)"

fun text_items :: "pyval \<Rightarrow> string list" where
  "text_items (PList []) = []"
| "text_items (PList (v # vs)) = (case v of PStr s \<Rightarrow> s # text_items (PList vs) | _ \<Rightarrow> text_items (PList vs))"
| "text_items v = []"

definition summary_to_dict :: "ctx_summary \<Rightarrow> pydict" where
  "summary_to_dict s = [
     (''objective'', PStr (cs_objective s)), (''constraints'', strings_val (cs_constraints s)),
     (''decisions'', strings_val (cs_decisions s)), (''completed_work'', strings_val (cs_completed s)),
     (''open_work'', strings_val (cs_open s)), (''modified_files'', strings_val (cs_files s)),
     (''important_evidence'', strings_val (cs_evidence s)), (''known_failures'', strings_val (cs_failures s)),
     (''narrative'', PStr (cs_narrative s)), (''covered_message_count'', PInt (cs_covered s)),
     (''source_fingerprint'', PStr (cs_fingerprint s))]"

definition summary_from_dict :: "pyenv \<Rightarrow> pydict \<Rightarrow> ctx_summary res" where
  "summary_from_dict E d =
     bindR (py_int E (py_or (dict_get d ''covered_message_count'') (PInt 0))) (\<lambda>covered.
     Ok \<lparr>cs_objective = str_or E (dict_get d ''objective'') [],
        cs_constraints = text_items (dict_get d ''constraints''),
        cs_decisions = text_items (dict_get d ''decisions''),
        cs_completed = text_items (dict_get d ''completed_work''),
        cs_open = text_items (dict_get d ''open_work''),
        cs_files = text_items (dict_get d ''modified_files''),
        cs_evidence = text_items (dict_get d ''important_evidence''),
        cs_failures = text_items (dict_get d ''known_failures''),
        cs_narrative = str_or E (dict_get d ''narrative'') [],
        cs_covered = max 0 covered,
        cs_fingerprint = str_or E (dict_get d ''source_fingerprint'') []\<rparr>)"

section \<open>What a message tells\<close>

definition append_unique :: "string \<Rightarrow> string list \<Rightarrow> string list" where
  "append_unique v values =
     (let c = clip 280 (py_join '' '' (words_from [] v)) in
      if c \<noteq> [] \<and> c \<notin> set values
      then (let xs = values @ [c] in drop (length xs - 8) xs) else values)"

definition mentions :: "string list \<Rightarrow> string \<Rightarrow> bool" where
  "mentions words s \<longleftrightarrow> list_ex (\<lambda>w. contains w s) words"

definition tool_is_error :: "message \<Rightarrow> string \<Rightarrow> bool" where
  "tool_is_error m raw \<longleftrightarrow>
     (case m_name m of None \<Rightarrow> False | Some n \<Rightarrow> contains ''error'' (map lower_char n)) \<or>
     mentions [''\"is_error\":true'', ''traceback'', ''exception'', ''error:''] (map lower_char raw)"

text \<open>The paths in a text: a drive, then segments with separators between them.\<close>

definition path_char :: "char \<Rightarrow> bool" where
  "path_char c \<longleftrightarrow> (let n = of_char c :: nat in
     48 \<le> n \<and> n \<le> 57 \<or> 65 \<le> n \<and> n \<le> 90 \<or> 97 \<le> n \<and> n \<le> 122 \<or> n \<in> {95, 46, 45})"

definition path_separator :: "char \<Rightarrow> bool" where
  "path_separator c \<longleftrightarrow> (of_char c :: nat) \<in> {47, 92}"

definition ascii_letter :: "char \<Rightarrow> bool" where
  "ascii_letter c \<longleftrightarrow> (let n = of_char c :: nat in 65 \<le> n \<and> n \<le> 90 \<or> 97 \<le> n \<and> n \<le> 122)"

fun path_rest :: "nat \<Rightarrow> string \<Rightarrow> nat" where
  "path_rest 0 s = 0"
| "path_rest (Suc fuel) s =
     (case s of
        [] \<Rightarrow> 0
      | c # r \<Rightarrow>
          let segment = takeWhile path_char r in
          if path_separator c \<and> segment \<noteq> []
          then Suc (length segment) + path_rest fuel (drop (length segment) r) else 0)"

definition path_body :: "string \<Rightarrow> nat" where
  "path_body s =
     (let segment = takeWhile path_char s; rest = path_rest (length s) (drop (length segment) s) in
      if segment = [] \<or> rest = 0 then 0 else length segment + rest)"

definition path_at :: "string \<Rightarrow> nat" where
  "path_at s =
     (case s of
        a # b # c # r \<Rightarrow>
          if ascii_letter a \<and> b = CHR 0x3A \<and> path_separator c \<and> path_body r \<noteq> 0
          then 3 + path_body r else path_body s
      | _ \<Rightarrow> path_body s)"

fun find_paths :: "nat \<Rightarrow> string \<Rightarrow> string list" where
  "find_paths skip [] = []"
| "find_paths (Suc k) (c # s) = find_paths k s"
| "find_paths 0 (c # s) =
     (let n = path_at (c # s) in if n = 0 then find_paths 0 s else take n (c # s) # find_paths (n - 1) s)"

text \<open>\<^verbatim>\<open>_structured_summary\<close>, message by message.\<close>

definition note_user :: "string \<Rightarrow> ctx_summary \<Rightarrow> ctx_summary" where
  "note_user snippet s =
     (let marker = map lower_char snippet;
          s1 = (if mentions [''must'', ''do not'', ''don'' @ [CHR 0x27] @ ''t'', ''never'', ''constraint'', ''required''] marker
                then s\<lparr>cs_constraints := append_unique snippet (cs_constraints s)\<rparr> else s) in
      if mentions [''todo'', ''pending'', ''open work'', ''next'', ''remaining''] marker
      then s1\<lparr>cs_open := append_unique snippet (cs_open s1)\<rparr> else s1)"

definition note_assistant :: "string \<Rightarrow> ctx_summary \<Rightarrow> ctx_summary" where
  "note_assistant snippet s =
     (let marker = map lower_char snippet;
          s1 = (if mentions [''decided'', ''decision'', ''chosen'', ''will use''] marker
                then s\<lparr>cs_decisions := append_unique snippet (cs_decisions s)\<rparr> else s);
          s2 = (if mentions [''completed'', ''implemented'', ''fixed'', ''created'', ''updated''] marker
                then s1\<lparr>cs_completed := append_unique snippet (cs_completed s1)\<rparr> else s1) in
      if mentions [''todo'', ''pending'', ''remaining'', ''next''] marker
      then s2\<lparr>cs_open := append_unique snippet (cs_open s2)\<rparr> else s2)"

definition note_message :: "(pyval \<Rightarrow> string) \<Rightarrow> message \<Rightarrow> ctx_summary \<Rightarrow> ctx_summary" where
  "note_message J m s =
     (let txt = py_strip (content_text J (m_content m)) in
      if txt = [] then s
      else
        let snippets = filter (\<lambda>p. p \<noteq> []) (map py_strip (rows_from [] txt));
            s1 = (if m_role m = ''user'' then fold note_user snippets s
                  else if m_role m = ''assistant'' then fold note_assistant snippets s
                  else if m_role m = ''tool''
                  then (if tool_is_error m txt then s\<lparr>cs_failures := append_unique txt (cs_failures s)\<rparr>
                        else s\<lparr>cs_evidence := append_unique txt (cs_evidence s)\<rparr>)
                  else s);
            s2 = s1\<lparr>cs_files := fold append_unique (find_paths 0 txt) (cs_files s1)\<rparr> in
        if mentions [''error'', ''failed'', ''exception''] (map lower_char txt)
        then s2\<lparr>cs_failures := append_unique txt (cs_failures s2)\<rparr> else s2)"

definition structured_summary :: "(pyval \<Rightarrow> string) \<Rightarrow> message list \<Rightarrow> string \<Rightarrow> ctx_summary option \<Rightarrow> string
    \<Rightarrow> ctx_summary" where
  "structured_summary J ms objective previous narrative =
     (let s = (case previous of None \<Rightarrow> empty_summary | Some p \<Rightarrow> p\<lparr>cs_covered := max 0 (cs_covered p)\<rparr>) in
      fold (note_message J) ms
        (s\<lparr>cs_objective := clip 600 (if objective = [] then cs_objective s else objective),
           cs_narrative := narrative\<rparr>))"

section \<open>Map and reduce\<close>

definition estimate_tokens :: "string \<Rightarrow> int" where
  "estimate_tokens s =
     (if s = [] then 0 else max 1 (max ((int (length s) + 3) div 4) (int (line_count s))))"

text \<open>\<^verbatim>\<open>segment_runtime_messages\<close>: the segments, the current one and its tokens.\<close>

definition segment_tokens :: "pyenv \<Rightarrow> message \<Rightarrow> int" where
  "segment_tokens E m =
     estimate_tokens (content_str E (m_content m))
     + (if m_tool_calls m = [] then 0
        else estimate_tokens (py_str E (PList (map PDict (m_tool_calls m)))))"

definition segment_next :: "pyenv \<Rightarrow> int \<Rightarrow> message \<Rightarrow> message list list \<times> message list \<times> int
    \<Rightarrow> message list list \<times> message list \<times> int" where
  "segment_next E limit m s =
     (case s of (segments, current, tokens) \<Rightarrow>
        if current \<noteq> [] \<and> limit < tokens + segment_tokens E m
        then (segments @ [current], [m], segment_tokens E m)
        else (segments, current @ [m], tokens + segment_tokens E m))"

definition segment_runtime_messages :: "pyenv \<Rightarrow> int \<Rightarrow> message list \<Rightarrow> message list list" where
  "segment_runtime_messages E max_tokens ms =
     (case fold (segment_next E (max 1 max_tokens)) ms ([], [], 0) of (segments, current, tokens) \<Rightarrow>
        if current = [] then segments else segments @ [current])"

definition short :: "nat \<Rightarrow> string \<Rightarrow> string" where
  "short n s = (if length s \<le> n then s else py_rstrip (take n s) @ ''...'')"

definition summarize_map :: "pyenv \<Rightarrow> message list \<Rightarrow> string option \<Rightarrow> string" where
  "summarize_map E ms previous =
     (let goals = map (\<lambda>m. short 120 (content_str E (m_content m))) (filter (\<lambda>m. m_role m = ''user'') ms);
          actions = map (\<lambda>m. short 120 (content_str E (m_content m))) (filter (\<lambda>m. m_role m = ''assistant'') ms) in
      py_join newline
        ([''Map summary:'']
         @ (case previous of None \<Rightarrow> [] | Some p \<Rightarrow> if p = [] then [] else [''Previous: '' @ short 160 p])
         @ (if goals = [] then [] else [''User goals: '' @ py_join '' | '' goals])
         @ (if actions = [] then [] else [''Completed actions: '' @ py_join '' | '' actions])
         @ [''Unresolved issues: none recorded by deterministic summarizer'']))"

definition summarize_reduce :: "string list \<Rightarrow> string option \<Rightarrow> string" where
  "summarize_reduce partials previous =
     py_join newline
       ([''Thread summary:'']
        @ (case previous of None \<Rightarrow> []
           | Some p \<Rightarrow> if p = [] then [] else [''Previous active summary:'', short 400 p])
        @ [''New summary fragments:'']
        @ map (\<lambda>(i, s). nat_text i @ ''. '' @ short 500 s) (zip [1..<Suc (length partials)] partials))"

section \<open>The projection of a tool result\<close>

definition tool_projection :: "string \<Rightarrow> string \<Rightarrow> bool \<Rightarrow> nat \<Rightarrow> string" where
  "tool_projection raw name is_error max_chars =
     (let header = ''[bounded historical tool result]'' @ newline @ ''tool: '' @ name @ newline
            @ ''status: '' @ (if is_error then ''error'' else ''success'') @ newline
            @ ''original_chars: '' @ nat_text (length raw) @ newline @ ''truncated: true'' @ newline;
          room = max 40 (max_chars - length header - 80);
          head = max 20 (room div 2);
          tail = max 20 (room - head) in
      header @ ''content_head:'' @ newline @ take head raw @ newline
      @ ''... [content truncated] ...'' @ newline @ ''content_tail:'' @ newline
      @ drop (length raw - tail) raw)"

end
