(* ===== verification/Context.thy ===== *)
theory Context
  imports ContextText
begin

text \<open>
  Model context under a token budget, \<^verbatim>\<open>context.py\<close>: the policy, the builder that selects what is
  wanted and what must stay, and the budget that fits it into one request, replacing an old prefix
  by a summary. What is sent is computed from the durable messages each time; they are not changed.
\<close>

section \<open>The policy\<close>

record context_policy =
  cp_window :: int
  cp_reserved :: int
  cp_high :: rat
  cp_target :: rat
  cp_recent :: int
  cp_hard :: "int option"
  cp_tool_chars :: int
  cp_compaction :: bool

definition default_context_policy :: context_policy where
  "default_context_policy = \<lparr>cp_window = 64000, cp_reserved = 8192, cp_high = 8 / 10, cp_target = 6 / 10,
     cp_recent = 6, cp_hard = None, cp_tool_chars = 2000, cp_compaction = True\<rparr>"

definition normalized_policy :: "context_policy \<Rightarrow> context_policy res" where
  "normalized_policy p =
     (let window = (if cp_window p \<le> 0 then 64000 else cp_window p);
          usable = window - cp_reserved p;
          hard = (case cp_hard p of None \<Rightarrow> usable | Some h \<Rightarrow> h) in
      if cp_reserved p < 0 \<or> window \<le> cp_reserved p
      then Raise (ValueError ''reserved_output_tokens must be >= 0 and below model_context_window'')
      else if \<not> (0 < cp_high p \<and> cp_high p \<le> 1)
      then Raise (ValueError ''high_watermark_ratio must be in (0, 1]'')
      else if \<not> (0 < cp_target p \<and> cp_target p < cp_high p)
      then Raise (ValueError ''target_after_compaction_ratio must be in (0, high_watermark_ratio)'')
      else if cp_recent p < 0 then Raise (ValueError ''recent_message_reserve must be >= 0'')
      else if hard \<le> 0 \<or> usable < hard
      then Raise (ValueError ''hard_input_limit must be in (0, usable_input]'')
      else if cp_tool_chars p < 200
      then Raise (ValueError ''max_tool_result_chars must be at least 200'')
      else Ok (p\<lparr>cp_window := window, cp_hard := Some hard\<rparr>))"

definition usable_input :: "context_policy \<Rightarrow> int" where
  "usable_input p = cp_window p - cp_reserved p"

definition high_watermark_tokens :: "context_policy \<Rightarrow> int" where
  "high_watermark_tokens p = py_trunc (of_int (usable_input p) * cp_high p)"

text \<open>The collaborators of \<^verbatim>\<open>ContextBudget\<close>: JSON texts, the digest, the estimator, the summarizer.\<close>

record context_tools =
  ct_py :: pyenv
  ct_json :: "pyval \<Rightarrow> string"
  ct_digest :: "string \<Rightarrow> string"
  ct_estimate :: "message list \<Rightarrow> string \<Rightarrow> pydict list \<Rightarrow> int"
  ct_map :: "message list \<Rightarrow> string option \<Rightarrow> string res"
  ct_reduce :: "string list \<Rightarrow> string option \<Rightarrow> string res"
  ct_chunk_tokens :: int
  ct_summary_chars :: nat

section \<open>Units of the message protocol\<close>

record msg_unit =
  mu_start :: nat
  mu_end :: nat
  mu_pending :: bool

definition is_tool :: "message \<Rightarrow> bool" where
  "is_tool m \<longleftrightarrow> m_role m = ''tool''"

definition calls_tools :: "message \<Rightarrow> bool" where
  "calls_tools m \<longleftrightarrow> m_role m = ''assistant'' \<and> m_tool_calls m \<noteq> []"

definition call_ids :: "pyenv \<Rightarrow> message \<Rightarrow> string list" where
  "call_ids E m = map (\<lambda>c. str_or E (dict_get c ''id'') []) (m_tool_calls m)"

definition result_ids :: "message list \<Rightarrow> string list" where
  "result_ids ms = map (\<lambda>m. case m_tool_call_id m of None \<Rightarrow> [] | Some i \<Rightarrow> i) ms"

function message_units :: "pyenv \<Rightarrow> nat \<Rightarrow> message list \<Rightarrow> msg_unit list" where
  "message_units E i [] = []"
| "message_units E i (m # ms) =
     (if calls_tools m
      then let n = Suc (length (takeWhile is_tool ms)) in
           \<lparr>mu_start = i, mu_end = i + n,
            mu_pending = \<not> set (call_ids E m) \<subseteq> set (result_ids (takeWhile is_tool ms))\<rparr>
           # message_units E (i + n) (dropWhile is_tool ms)
      else \<lparr>mu_start = i, mu_end = Suc i, mu_pending = is_tool m\<rparr> # message_units E (Suc i) ms)"
  by pat_completeness auto
termination
  by (relation "measure (\<lambda>(E, i, ms). length ms)") (auto simp: le_imp_less_Suc length_dropWhile_le)

section \<open>The builder\<close>

definition latest_user_index :: "message list \<Rightarrow> nat option" where
  "latest_user_index ms = find (\<lambda>i. m_role (ms ! i) = ''user'') (rev [0..<length ms])"

definition objective_index :: "(pyval \<Rightarrow> string) \<Rightarrow> message list \<Rightarrow> string \<Rightarrow> nat option" where
  "objective_index J ms objective =
     find (\<lambda>i. m_role (ms ! i) = ''user'' \<and> content_text J (m_content (ms ! i)) = objective) (rev [0..<length ms])"

definition unit_indexes :: "msg_unit \<Rightarrow> nat list" where
  "unit_indexes u = [mu_start u..<mu_end u]"

definition required_indexes :: "context_tools \<Rightarrow> message list \<Rightarrow> string \<Rightarrow> nat list" where
  "required_indexes T ms objective =
     (case latest_user_index ms of None \<Rightarrow> [] | Some i \<Rightarrow> [i])
     @ (if objective = [] then []
        else case objective_index (ct_json T) ms objective of None \<Rightarrow> [] | Some i \<Rightarrow> [i])
     @ concat (map unit_indexes (filter mu_pending (message_units (ct_py T) 0 ms)))"

definition message_row :: "message \<Rightarrow> pyval" where
  "message_row m = PDict [
     (''role'', PStr (m_role m)),
     (''content'', case m_content m of TextContent s \<Rightarrow> PStr s | PartsContent vs \<Rightarrow> PList vs),
     (''tool_call_id'', opt_val PStr (m_tool_call_id m)),
     (''tool_calls'', PList (map PDict (m_tool_calls m)))]"

definition message_fingerprint :: "context_tools \<Rightarrow> message list \<Rightarrow> string" where
  "message_fingerprint T ms = ct_digest T (ct_json T (PList (map message_row ms)))"

definition valid_previous :: "context_tools \<Rightarrow> message list \<Rightarrow> ctx_summary option \<Rightarrow> ctx_summary option" where
  "valid_previous T ms previous =
     (case previous of
        None \<Rightarrow> None
      | Some p \<Rightarrow>
          if cs_covered p \<le> 0 \<or> int (length ms) < cs_covered p then None
          else if message_fingerprint T (take (nat (cs_covered p)) ms) = cs_fingerprint p then Some p else None)"

record built_context =
  bc_messages :: "message list"
  bc_system :: string
  bc_tools :: "pydict list"
  bc_objective :: string
  bc_previous :: "ctx_summary option"
  bc_required :: "nat list"
  bc_sources :: "(string \<times> string \<times> string) list"

definition build_context :: "context_tools \<Rightarrow> message list \<Rightarrow> string \<Rightarrow> pydict list \<Rightarrow> string
    \<Rightarrow> ctx_summary option \<Rightarrow> built_context" where
  "build_context T ms system tools objective previous =
     (let valid = valid_previous T ms previous; required = required_indexes T ms objective in
      \<lparr>bc_messages = ms, bc_system = system, bc_tools = tools, bc_objective = objective,
       bc_previous = valid, bc_required = required,
       bc_sources = [(''system'', ''system_prompt'', ''required'')]
         @ (if tools = [] then [] else [(''tools'', ''tool_definitions'', ''required'')])
         @ (if valid = None then [] else [(''summary'', ''live_runtime_summary'', ''high'')])
         @ map (\<lambda>i. (''message'', nat_text i, if i \<in> set required then ''required'' else ''normal''))
             [0..<length ms]\<rparr>)"

section \<open>Projections\<close>

definition system_message :: "string \<Rightarrow> message" where
  "system_message s = \<lparr>m_role = ''system'', m_content = TextContent s, m_name = None,
     m_tool_call_id = None, m_tool_calls = []\<rparr>"

definition with_previous_summary :: "message list \<Rightarrow> ctx_summary option \<Rightarrow> message list" where
  "with_previous_summary ms previous =
     (case previous of None \<Rightarrow> ms
      | Some p \<Rightarrow> system_message (summary_text p) # drop (nat (cs_covered p)) ms)"

text \<open>\<^verbatim>\<open>_tool_names\<close>: a later call replaces an earlier one with its identifier.\<close>

definition call_names :: "pyenv \<Rightarrow> message list \<Rightarrow> (string \<times> string) list" where
  "call_names E ms = rev (concat (map (\<lambda>m. concat (map (\<lambda>c.
       let i = str_or E (dict_get c ''id'') [] in
       case dict_get c ''function'' of
         PDict f \<Rightarrow> if i = [] then [] else [(i, str_or E (dict_get f ''name'') ''unknown'')]
       | _ \<Rightarrow> []) (m_tool_calls m))) ms))"

definition recent_start :: "context_policy \<Rightarrow> message list \<Rightarrow> int" where
  "recent_start p ms = max 0 (int (length ms) - cp_recent p)"

definition oversized :: "context_tools \<Rightarrow> context_policy \<Rightarrow> message list \<Rightarrow> nat \<Rightarrow> message \<Rightarrow> bool" where
  "oversized T p ms i m \<longleftrightarrow> is_tool m \<and> int i < recent_start p ms \<and>
     cp_tool_chars p < int (length (content_text (ct_json T) (m_content m)))"

definition projected_message :: "context_tools \<Rightarrow> context_policy \<Rightarrow> message list \<Rightarrow> message \<Rightarrow> message" where
  "projected_message T p ms m =
     (let raw = content_text (ct_json T) (m_content m);
          name = (case map_of (call_names (ct_py T) ms)
                         (case m_tool_call_id m of None \<Rightarrow> [] | Some i \<Rightarrow> i) of
                    Some n \<Rightarrow> n
                  | None \<Rightarrow> (case m_name m of None \<Rightarrow> ''unknown'' | Some n \<Rightarrow> if n = [] then ''unknown'' else n)) in
      m\<lparr>m_content := TextContent (tool_projection raw name (tool_is_error m raw) (nat (cp_tool_chars p)))\<rparr>)"

definition project_tools :: "context_tools \<Rightarrow> context_policy \<Rightarrow> message list \<Rightarrow> message list \<times> nat" where
  "project_tools T p ms =
     (map (\<lambda>(i, m). if oversized T p ms i m then projected_message T p ms m else m) (enumerate 0 ms),
      length (filter (\<lambda>(i, m). oversized T p ms i m) (enumerate 0 ms)))"

section \<open>The prefix that may go\<close>

definition pinned :: "context_policy \<Rightarrow> message list \<Rightarrow> nat list \<Rightarrow> msg_unit \<Rightarrow> bool" where
  "pinned p ms required u \<longleftrightarrow>
     recent_start p ms < int (mu_end u) \<or>
     (case latest_user_index ms of None \<Rightarrow> False | Some i \<Rightarrow> mu_start u \<le> i \<and> i < mu_end u) \<or>
     mu_pending u \<or> list_ex (\<lambda>i. i \<in> set required) (unit_indexes u)"

fun eligible_end :: "(msg_unit \<Rightarrow> bool) \<Rightarrow> nat \<Rightarrow> msg_unit list \<Rightarrow> nat \<Rightarrow> nat" where
  "eligible_end pin covered [] e = e"
| "eligible_end pin covered (u # us) e =
     (if mu_end u \<le> covered then eligible_end pin covered us e
      else if pin u \<or> mu_start u \<noteq> e then e
      else eligible_end pin covered us (mu_end u))"

definition eligible_prefix_end :: "context_tools \<Rightarrow> context_policy \<Rightarrow> message list \<Rightarrow> nat \<Rightarrow> nat list \<Rightarrow> nat" where
  "eligible_prefix_end T p ms covered required =
     eligible_end (pinned p ms required) covered (message_units (ct_py T) 0 ms) covered"

section \<open>The summary of a prefix\<close>

text \<open>When the configured summarizer raises, the deterministic one takes over.\<close>

definition narrative_of :: "context_tools \<Rightarrow> message list \<Rightarrow> string option \<Rightarrow> string" where
  "narrative_of T ms previous =
     (let segments = segment_runtime_messages (ct_py T) (ct_chunk_tokens T) ms in
      case bindR (mapR (\<lambda>s. ct_map T s previous) segments) (\<lambda>partials. ct_reduce T partials previous) of
        Inr n \<Rightarrow> n
      | Inl e \<Rightarrow> summarize_reduce (map (\<lambda>s. summarize_map (ct_py T) s previous) segments) previous)"

definition summarize_prefix :: "context_tools \<Rightarrow> message list \<Rightarrow> ctx_summary option \<Rightarrow> string \<Rightarrow> nat
    \<Rightarrow> message list \<Rightarrow> ctx_summary" where
  "summarize_prefix T eligible previous objective covered all_messages =
     (structured_summary (ct_json T) eligible objective previous
        (clip (ct_summary_chars T) (narrative_of T eligible (map_option summary_text previous))))
       \<lparr>cs_covered := int covered, cs_fingerprint := message_fingerprint T (take covered all_messages)\<rparr>"

section \<open>Fitting\<close>

record fitted =
  fi_messages :: "message list"
  fi_compacted :: bool
  fi_trigger :: "string option"
  fi_before :: int
  fi_after :: int
  fi_evicted :: nat
  fi_preserved :: nat
  fi_projected :: nat
  fi_summary :: "ctx_summary option"
  fi_reused :: bool

text \<open>\<^verbatim>\<open>ContextBudgetExceededError\<close>: the estimate and the limit.\<close>

datatype context_exceeded = ContextExceeded int int

definition hard_limit :: "context_policy \<Rightarrow> int" where
  "hard_limit p = (case cp_hard p of None \<Rightarrow> usable_input p | Some h \<Rightarrow> if h = 0 then usable_input p else h)"

definition enforced :: "context_policy \<Rightarrow> fitted \<Rightarrow> context_exceeded + fitted" where
  "enforced p r = (if hard_limit p < fi_after r then Inl (ContextExceeded (fi_after r) (hard_limit p)) else Inr r)"

definition latest_user_text :: "(pyval \<Rightarrow> string) \<Rightarrow> message list \<Rightarrow> string" where
  "latest_user_text J ms =
     (case latest_user_index ms of None \<Rightarrow> [] | Some i \<Rightarrow> content_text J (m_content (ms ! i)))"

text \<open>The result when nothing is replaced.\<close>

definition uncompacted :: "message list \<Rightarrow> string option \<Rightarrow> int \<Rightarrow> int \<Rightarrow> nat \<Rightarrow> ctx_summary option \<Rightarrow> fitted" where
  "uncompacted candidate trigger initial projected_tokens projected previous =
     \<lparr>fi_messages = candidate, fi_compacted = False, fi_trigger = trigger, fi_before = initial,
      fi_after = projected_tokens, fi_evicted = 0, fi_preserved = length candidate,
      fi_projected = projected, fi_summary = previous, fi_reused = previous \<noteq> None\<rparr>"

definition covered_count :: "ctx_summary option \<Rightarrow> nat" where
  "covered_count previous = (case previous of None \<Rightarrow> 0 | Some s \<Rightarrow> nat (cs_covered s))"

definition compacted_context :: "context_tools \<Rightarrow> context_policy \<Rightarrow> built_context \<Rightarrow> int \<Rightarrow> nat \<Rightarrow> nat \<Rightarrow> fitted" where
  "compacted_context T p b initial projected e =
     (let raw = bc_messages b; previous = bc_previous b; covered = covered_count previous;
          eligible = drop covered (take e raw);
          summary = summarize_prefix T eligible previous
            (if bc_objective b = [] then latest_user_text (ct_json T) raw else bc_objective b) e raw;
          (ms, newly) = project_tools T p (system_message (summary_text summary) # drop e raw) in
      \<lparr>fi_messages = ms, fi_compacted = True, fi_trigger = Some ''high_watermark'', fi_before = initial,
       fi_after = ct_estimate T ms (bc_system b) (bc_tools b), fi_evicted = length eligible,
       fi_preserved = length raw - length eligible, fi_projected = projected + newly,
       fi_summary = Some summary, fi_reused = previous \<noteq> None\<rparr>)"

definition fit_context :: "context_tools \<Rightarrow> context_policy \<Rightarrow> built_context \<Rightarrow> context_exceeded + fitted" where
  "fit_context T p b =
     (let raw = bc_messages b; previous = bc_previous b; covered = covered_count previous;
          candidate0 = with_previous_summary raw previous;
          initial = ct_estimate T candidate0 (bc_system b) (bc_tools b);
          (candidate, projected) = project_tools T p candidate0;
          projected_tokens = ct_estimate T candidate (bc_system b) (bc_tools b);
          high = high_watermark_tokens p \<le> projected_tokens;
          trigger = (if high then Some ''high_watermark''
                     else if projected \<noteq> 0 then Some ''oversized_tool_result'' else None);
          e = eligible_prefix_end T p raw covered (bc_required b) in
      enforced p
        (if \<not> high \<or> \<not> cp_compaction p
         then uncompacted candidate trigger initial projected_tokens projected previous
         else if e \<le> covered
         then uncompacted candidate (Some ''pinned_context'') initial projected_tokens projected previous
         else compacted_context T p b initial projected e))"

section \<open>The summary in the state of the run\<close>

definition SUMMARY_KEY :: string where "SUMMARY_KEY = ''_live_context_summary''"
definition COMPACTION_KEY :: string where "COMPACTION_KEY = ''_live_context_compaction_count''"

definition summary_from_state :: "pyenv \<Rightarrow> pydict \<Rightarrow> ctx_summary option res" where
  "summary_from_state E st =
     (case dict_get st SUMMARY_KEY of
        PDict d \<Rightarrow> bindR (summary_from_dict E d) (\<lambda>s. Ok (Some s)) | _ \<Rightarrow> Ok None)"

text \<open>The summary is stored before the count is read, which may raise.\<close>

definition with_summary :: "pydict \<Rightarrow> fitted \<Rightarrow> pydict" where
  "with_summary st r = (case fi_summary r of None \<Rightarrow> st | Some s \<Rightarrow> dict_set SUMMARY_KEY (PDict (summary_to_dict s)) st)"

definition apply_compaction :: "pyenv \<Rightarrow> pydict \<Rightarrow> fitted \<Rightarrow> pydict res" where
  "apply_compaction E st r =
     (let st1 = with_summary st r in
      bindR (py_int E (py_or (dict_get st1 COMPACTION_KEY) (PInt 0))) (\<lambda>n.
      Ok (if fi_compacted r then dict_set COMPACTION_KEY (PInt (max 0 n + 1)) st1 else st1)))"

end
