(* ===== verification/ContextProps.thy ===== *)
theory ContextProps
  imports Context
begin

text \<open>
  What holds of the context sent to a model: it fits, it never separates a tool call from its
  results, it keeps what is required, and the summary of a run is found again after a restart.
\<close>

section \<open>Units\<close>

lemma units_bounds:
  "u \<in> set (message_units E i ms) \<Longrightarrow> i \<le> mu_start u \<and> mu_start u < mu_end u \<and> mu_end u \<le> i + length ms"
proof (induction E i ms rule: message_units.induct)
  case (2 E i m ms)
  have split: "length (takeWhile is_tool ms) + length (dropWhile is_tool ms) = length ms"
    by (metis length_append takeWhile_dropWhile_id)
  from 2 split show ?case by (fastforce simp: Let_def split: if_splits)
qed simp

text \<open>The tool results that follow a call at \<open>j\<close> up to \<open>k\<close> lie initial the end of any unit that ends after \<open>j\<close>.\<close>

definition follows :: "message list \<Rightarrow> nat \<Rightarrow> nat \<Rightarrow> bool" where
  "follows ms j k \<longleftrightarrow> j < k \<and> k < length ms \<and> calls_tools (ms ! j) \<and> (\<forall>l. j < l \<and> l \<le> k \<longrightarrow> is_tool (ms ! l))"

lemma not_tool_call: "calls_tools m \<Longrightarrow> \<not> is_tool m"
  by (auto simp: calls_tools_def is_tool_def)

lemma follows_Suc: "follows (m # ms) (Suc j) (Suc k) \<longleftrightarrow> follows ms j k"
proof
  assume H: "follows (m # ms) (Suc j) (Suc k)"
  have "is_tool (ms ! l)" if "j < l" "l \<le> k" for l
  proof -
    have "is_tool ((m # ms) ! Suc l)" using H that unfolding follows_def by blast
    then show ?thesis by simp
  qed
  with H show "follows ms j k" by (simp add: follows_def)
next
  assume H: "follows ms j k"
  have "is_tool ((m # ms) ! l)" if "Suc j < l" "l \<le> Suc k" for l
    using H that unfolding follows_def by (cases l) auto
  with H show "follows (m # ms) (Suc j) (Suc k)" by (simp add: follows_def)
qed

lemma follows_drop: "follows ms (n + j) (n + k) \<longleftrightarrow> follows (drop n ms) j k"
proof (induction n arbitrary: ms)
  case (Suc n)
  show ?case
  proof (cases ms)
    case Nil
    then show ?thesis by (simp add: follows_def)
  next
    case (Cons m ms')
    then show ?thesis using follows_Suc[of m ms' "n + j" "n + k"] Suc.IH[of ms'] by simp
  qed
qed simp

lemma follows_head:
  assumes "follows (m # ms) 0 k" shows "k \<le> length (takeWhile is_tool ms)"
proof (rule ccontr)
  assume "\<not> k \<le> length (takeWhile is_tool ms)"
  moreover have "k < Suc (length ms)" using assms by (simp add: follows_def)
  ultimately have n: "length (takeWhile is_tool ms) < length ms" "Suc (length (takeWhile is_tool ms)) \<le> k" by simp_all
  then have "is_tool ((m # ms) ! Suc (length (takeWhile is_tool ms)))"
    using assms unfolding follows_def by blast
  with nth_length_takeWhile[OF n(1)] show False by simp
qed

lemma call_not_in_run:
  assumes "j < length (takeWhile is_tool ms)" "follows ms j k" shows False
proof -
  have "is_tool (ms ! j)" using assms(1) by (metis nth_mem set_takeWhileD takeWhile_nth)
  with assms(2) not_tool_call show False by (auto simp: follows_def)
qed

lemma units_keep_results:
  "u \<in> set (message_units E i ms) \<Longrightarrow> follows ms j k \<Longrightarrow> i + j < mu_end u \<Longrightarrow> i + k < mu_end u"
proof (induction E i ms arbitrary: j k rule: message_units.induct)
  case (2 E i m ms)
  show ?case
  proof (cases "calls_tools m")
    case True
    define n where "n = length (takeWhile is_tool ms)"
    from True have units: "message_units E i (m # ms) =
        \<lparr>mu_start = i, mu_end = i + Suc n,
          mu_pending = \<not> set (call_ids E m) \<subseteq> set (result_ids (takeWhile is_tool ms))\<rparr>
        # message_units E (i + Suc n) (dropWhile is_tool ms)"
      by (simp add: Let_def n_def)
    show ?thesis
    proof (cases j)
      case 0
      with 2(4) have "k \<le> n" unfolding n_def using follows_head by blast
      moreover have "i + n < mu_end u"
        using 2(3) units_bounds[of u E "i + Suc n" "dropWhile is_tool ms"] unfolding units by auto
      ultimately show ?thesis by simp
    next
      case (Suc j')
      then obtain k' where k': "k = Suc k'" using 2(4) by (cases k) (auto simp: follows_def)
      with 2(4) Suc have f: "follows ms j' k'" by (simp add: follows_Suc)
      then have "n \<le> j'" using call_not_in_run unfolding n_def by (meson not_le)
      then obtain j2 k2 where j2: "j' = n + j2" "k' = n + k2"
        using f by (metis follows_def le_add_diff_inverse less_imp_le order_trans)
      with f have f2: "follows (dropWhile is_tool ms) j2 k2"
        unfolding n_def by (simp add: follows_drop dropWhile_eq_drop)
      have "u \<in> set (message_units E (i + Suc n) (dropWhile is_tool ms))"
        using 2(3,5) Suc j2(1) unfolding units by auto
      from 2(1)[OF True refl this[unfolded n_def] f2] show ?thesis
        using 2(5) Suc k' j2 unfolding n_def by simp
    qed
  next
    case False
    then have "j \<noteq> 0" using 2(4) by (cases j) (auto simp: follows_def)
    then obtain j' where j': "j = Suc j'" by (cases j) auto
    then obtain k' where k': "k = Suc k'" using 2(4) by (cases k) (auto simp: follows_def)
    with 2(4) j' have f: "follows ms j' k'" by (simp add: follows_Suc)
    have "u \<in> set (message_units E (Suc i) ms)" using 2(3,5) False j' by auto
    from 2(2)[OF False this f] 2(5) j' k' show ?thesis by simp
  qed
qed simp

section \<open>The prefix\<close>

lemma eligible_end_cases:
  "eligible_end pin covered us e = e \<or>
    (\<exists>u \<in> set us. eligible_end pin covered us e = mu_end u \<and> \<not> pin u \<and> covered < mu_end u)"
proof (induction us arbitrary: e)
  case (Cons u us)
  from Cons.IH[of e] Cons.IH[of "mu_end u"] show ?case by auto
qed simp

lemma eligible_end_unpinned:
  "e \<le> i \<Longrightarrow> i < eligible_end pin covered us e \<Longrightarrow> \<exists>u \<in> set us. \<not> pin u \<and> mu_start u \<le> i \<and> i < mu_end u"
proof (induction us arbitrary: e)
  case (Cons u us)
  show ?case
  proof (cases "mu_end u \<le> covered")
    case True
    with Cons show ?thesis by auto
  next
    case False
    with Cons.prems have go: "\<not> pin u" "mu_start u = e" "i < eligible_end pin covered us (mu_end u)"
      by (auto split: if_splits)
    show ?thesis
    proof (cases "i < mu_end u")
      case True
      with go Cons.prems(1) show ?thesis by auto
    next
      case False
      with Cons.IH[of "mu_end u"] go(3) show ?thesis by auto
    qed
  qed
qed simp

text \<open>What a compaction may remove: the messages from \<open>covered\<close> up to \<open>e\<close>.\<close>

definition removable :: "context_tools \<Rightarrow> context_policy \<Rightarrow> message list \<Rightarrow> nat list \<Rightarrow> nat \<Rightarrow> nat \<Rightarrow> bool" where
  "removable T p ms required covered e \<longleftrightarrow> e \<le> length ms \<and> int e \<le> recent_start p ms \<and>
     (\<forall>i. covered \<le> i \<and> i < e \<longrightarrow> i \<notin> set required \<and> latest_user_index ms \<noteq> Some i) \<and>
     (\<forall>j k. follows ms j k \<longrightarrow> j < e \<longrightarrow> k < e)"

lemma eligible_prefix_removable:
  assumes "covered < eligible_prefix_end T p ms covered required"
  shows "removable T p ms required covered (eligible_prefix_end T p ms covered required)"
proof -
  let ?e = "eligible_prefix_end T p ms covered required"
  let ?us = "message_units (ct_py T) 0 ms"
  from assms eligible_end_cases[of "pinned p ms required" covered ?us covered] obtain u where
    u: "u \<in> set ?us" "?e = mu_end u" "\<not> pinned p ms required u"
    unfolding eligible_prefix_end_def by auto
  have "?e \<le> length ms" using units_bounds[OF u(1)] u(2) by simp
  moreover have "int ?e \<le> recent_start p ms" using u(2,3) by (auto simp: pinned_def)
  moreover have "i \<notin> set required \<and> latest_user_index ms \<noteq> Some i" if "covered \<le> i" "i < ?e" for i
  proof -
    from eligible_end_unpinned[OF that(1), of "pinned p ms required" covered ?us] that(2)
    obtain v where "\<not> pinned p ms required v" "mu_start v \<le> i" "i < mu_end v"
      unfolding eligible_prefix_end_def by blast
    then show ?thesis by (auto simp: pinned_def unit_indexes_def list_ex_iff)
  qed
  moreover have "k < ?e" if "follows ms j k" "j < ?e" for j k
    using units_keep_results[OF u(1) that(1)] that(2) u(2) by simp
  ultimately show ?thesis unfolding removable_def by blast
qed

section \<open>What is sent\<close>

lemma build_context_simps [simp]:
  "bc_messages (build_context T ms system tools objective previous) = ms"
  "bc_system (build_context T ms system tools objective previous) = system"
  "bc_tools (build_context T ms system tools objective previous) = tools"
  "bc_previous (build_context T ms system tools objective previous) = valid_previous T ms previous"
  "bc_required (build_context T ms system tools objective previous) = required_indexes T ms objective"
  by (simp_all add: build_context_def Let_def)

text \<open>A fitted context is one of the projected candidate, or of a summary and the messages behind it.\<close>

lemma fit_context_cases:
  assumes "fit_context T p b = Inr r"
  obtains (kept) trigger initial projected where
    "r = uncompacted (fst (project_tools T p (with_previous_summary (bc_messages b) (bc_previous b)))) trigger initial
       (ct_estimate T (fst (project_tools T p (with_previous_summary (bc_messages b) (bc_previous b)))) (bc_system b) (bc_tools b))
       projected (bc_previous b)" "fi_after r \<le> hard_limit p"
  | (replaced) initial projected where
    "covered_count (bc_previous b) < eligible_prefix_end T p (bc_messages b) (covered_count (bc_previous b)) (bc_required b)"
    "r = compacted_context T p b initial projected
       (eligible_prefix_end T p (bc_messages b) (covered_count (bc_previous b)) (bc_required b))"
    "fi_after r \<le> hard_limit p"
  using assms unfolding fit_context_def enforced_def Let_def
  by (auto simp: not_less split: prod.splits if_splits)

lemma compacted_context_simps [simp]:
  "fi_compacted (compacted_context T p b initial projected e)"
  "fi_messages (compacted_context T p b initial projected e) =
     fst (project_tools T p (system_message (summary_text (summarize_prefix T (drop (covered_count (bc_previous b)) (take e (bc_messages b)))
       (bc_previous b) (if bc_objective b = [] then latest_user_text (ct_json T) (bc_messages b) else bc_objective b) e
       (bc_messages b))) # drop e (bc_messages b)))"
  "fi_summary (compacted_context T p b initial projected e) = Some (summarize_prefix T
     (drop (covered_count (bc_previous b)) (take e (bc_messages b))) (bc_previous b)
     (if bc_objective b = [] then latest_user_text (ct_json T) (bc_messages b) else bc_objective b) e (bc_messages b))"
  "fi_after (compacted_context T p b initial projected e) =
     ct_estimate T (fi_messages (compacted_context T p b initial projected e)) (bc_system b) (bc_tools b)"
  by (simp_all add: compacted_context_def Let_def split: prod.split)

lemma summarize_prefix_simps [simp]:
  "cs_covered (summarize_prefix T eligible previous objective e ms) = int e"
  "cs_fingerprint (summarize_prefix T eligible previous objective e ms) = message_fingerprint T (take e ms)"
  by (simp_all add: summarize_prefix_def)

lemma uncompacted_simps [simp]:
  "\<not> fi_compacted (uncompacted candidate trigger initial n projected previous)"
  "fi_messages (uncompacted candidate trigger initial n projected previous) = candidate"
  "fi_after (uncompacted candidate trigger initial n projected previous) = n"
  "fi_summary (uncompacted candidate trigger initial n projected previous) = previous"
  by (simp_all add: uncompacted_def)

lemma normalized_limit:
  assumes "normalized_policy p0 = Ok p"
  shows "0 < hard_limit p \<and> hard_limit p \<le> cp_window p - cp_reserved p \<and> 0 \<le> cp_reserved p"
  using assms
  by (auto simp: normalized_policy_def Let_def hard_limit_def usable_input_def split: if_splits option.splits)


text \<open>A compaction replaces a prefix by one summary and sends every later message. What it removes beyond
  the earlier summary contains no recent message, not the latest user message, no required one
  (the objective, an unanswered tool call), and no tool call without the results that follow it.\<close>

theorem compaction_keeps_what_is_pinned:
  assumes "fit_context T p (build_context T ms system tools objective previous) = Inr r" "fi_compacted r"
  shows "\<exists>s. fi_summary r = Some s \<and>
    covered_count (valid_previous T ms previous) < nat (cs_covered s) \<and>
    removable T p ms (required_indexes T ms objective) (covered_count (valid_previous T ms previous)) (nat (cs_covered s)) \<and>
    fi_messages r = fst (project_tools T p (system_message (summary_text s) # drop (nat (cs_covered s)) ms))"
  using assms(1)
proof (cases rule: fit_context_cases)
  case (kept trigger initial projected)
  with assms(2) show ?thesis by simp
next
  case (replaced initial projected)
  from eligible_prefix_removable[OF replaced(1)] replaced(1,2) show ?thesis by simp
qed

text \<open>C38: The message of the objective is required, so a compaction never reaches it: nothing a run does for
  its own objective is ever replaced by a summary, and a run without earlier history never
  compacts.\<close>

theorem own_work_never_compacted:
  assumes "fit_context T p (build_context T ms system tools objective previous) = Inr r"
    and "objective \<noteq> []" "objective_index (ct_json T) ms objective = Some i"
    and "covered_count (valid_previous T ms previous) \<le> i"
  shows "(fi_compacted r \<longrightarrow> (\<exists>s. fi_summary r = Some s \<and> nat (cs_covered s) \<le> i)) \<and> (i = 0 \<longrightarrow> \<not> fi_compacted r)"
proof -
  have req: "i \<in> set (required_indexes T ms objective)" using assms(2,3) by (simp add: required_indexes_def)
  have "nat (cs_covered s) \<le> i" if "removable T p ms (required_indexes T ms objective)
      (covered_count (valid_previous T ms previous)) (nat (cs_covered s))" for s
    using that req assms(4) unfolding removable_def by (meson not_le)
  with compaction_keeps_what_is_pinned[OF assms(1)] show ?thesis by fastforce
qed

section \<open>The summary after a restart\<close>

lemma text_items_val [simp]: "text_items (strings_val xs) = xs"
  by (induction xs) (simp_all add: strings_val_def)

lemma summary_reads_back:
  "0 \<le> cs_covered s \<Longrightarrow> summary_from_dict E (summary_to_dict s) = Ok s"
  by (cases "cs_covered s = 0")
    (simp_all add: summary_from_dict_def summary_to_dict_def dict_get_def str_or_def py_or_def)

lemma keys_differ [simp]: "SUMMARY_KEY \<noteq> COMPACTION_KEY" "COMPACTION_KEY \<noteq> SUMMARY_KEY"
  by (simp_all add: SUMMARY_KEY_def COMPACTION_KEY_def)

lemma dict_get_set [simp]: "dict_get (dict_set k v d) j = (if j = k then v else dict_get d j)"
  by (simp add: dict_get_def)

text \<open>The summary a compaction stored in the state of the run is read back by the process that continues
  the run, and however many messages were added since, it is accepted as their beginning.\<close>

theorem summary_survives_restart:
  assumes "fit_context T p (build_context T ms system tools objective previous) = Inr r" "fi_compacted r"
    and "apply_compaction E st r = Ok st'"
  shows "\<exists>s. summary_from_state E st' = Ok (Some s) \<and> fi_summary r = Some s \<and>
    valid_previous T (ms @ added) (Some s) = Some s"
proof -
  let ?b = "build_context T ms system tools objective previous"
  have "\<exists>e initial projected. 0 < e \<and> e \<le> length ms \<and> r = compacted_context T p ?b initial projected e"
    using assms(1)
  proof (cases rule: fit_context_cases)
    case (kept trigger initial projected)
    with assms(2) show ?thesis by simp
  next
    case (replaced initial projected)
    then have "eligible_prefix_end T p (bc_messages ?b) (covered_count (bc_previous ?b)) (bc_required ?b) \<le> length ms"
      using eligible_prefix_removable[OF replaced(1)] unfolding removable_def by simp
    moreover have "0 < eligible_prefix_end T p (bc_messages ?b) (covered_count (bc_previous ?b)) (bc_required ?b)"
      using replaced(1) by simp
    ultimately show ?thesis using replaced(2) by blast
  qed
  then obtain e initial projected where e: "0 < e" "e \<le> length ms"
    "r = compacted_context T p ?b initial projected e" by blast
  then obtain s where s: "fi_summary r = Some s" "cs_covered s = int e"
    "cs_fingerprint s = message_fingerprint T (take e ms)" by simp
  have "dict_get st' SUMMARY_KEY = PDict (summary_to_dict s)"
    using assms(2,3) s(1) by (auto simp: apply_compaction_def with_summary_def bindR_Ok_iff Let_def)
  then have "summary_from_state E st' = Ok (Some s)"
    using summary_reads_back[of s E] s(2) by (simp add: summary_from_state_def)
  moreover have "valid_previous T (ms @ added) (Some s) = Some s"
    using e s(2,3) by (simp add: valid_previous_def)
  ultimately show ?thesis using s(1) by blast
qed

section \<open>A small context\<close>

text \<open>An earlier exchange and the objective; each message counts thirty tokens.\<close>

definition user_message :: "string \<Rightarrow> message" where
  "user_message s = (system_message s)\<lparr>m_role := ''user''\<rparr>"

definition demo_messages :: "message list" where
  "demo_messages = [user_message ''old'', (system_message ''done'')\<lparr>m_role := ''assistant''\<rparr>, user_message ''go'']"

definition demo_tools :: context_tools where
  "demo_tools = \<lparr>ct_py = demo_env, ct_json = (\<lambda>v. ''j''), ct_digest = (\<lambda>s. s),
     ct_estimate = (\<lambda>ms system tools. 30 * int (length ms)), ct_map = (\<lambda>ms p. Ok ''m''),
     ct_reduce = (\<lambda>xs p. Ok ''r''), ct_chunk_tokens = 400, ct_summary_chars = 2000\<rparr>"

definition demo_context_policy :: context_policy where
  "demo_context_policy = \<lparr>cp_window = 200, cp_reserved = 100, cp_high = 1 / 2, cp_target = 1 / 4,
     cp_recent = 1, cp_hard = Some 100, cp_tool_chars = 200, cp_compaction = True\<rparr>"

definition demo_build :: built_context where
  "demo_build = build_context demo_tools demo_messages ''s'' [] ''go'' None"

definition demo_fitted :: "context_exceeded + fitted" where
  "demo_fitted = fit_context demo_tools demo_context_policy demo_build"

definition demo_fit_view :: "(bool \<times> int option \<times> int) option" where
  "demo_fit_view = (case demo_fitted of Inl e \<Rightarrow> None
     | Inr r \<Rightarrow> Some (fi_compacted r, map_option cs_covered (fi_summary r), fi_after r))"

lemma demo_fit_value: "demo_fit_view = Some (True, Some 2, 60)"
  by code_simp

lemma demo_fitted_some:
  obtains r where "fit_context demo_tools demo_context_policy (build_context demo_tools demo_messages ''s'' [] ''go'' None) = Inr r"
    "fi_compacted r" "map_option cs_covered (fi_summary r) = Some 2" "fi_after r = 60"
proof -
  from demo_fit_value obtain r where "demo_fitted = Inr r" "fi_compacted r"
    "map_option cs_covered (fi_summary r) = Some 2" "fi_after r = 60"
    unfolding demo_fit_view_def by (auto split: sum.splits)
  then show thesis unfolding demo_fitted_def demo_build_def by (rule that)
qed

lemma demo_policy_ok: "normalized_policy demo_context_policy = Ok demo_context_policy"
  by (simp add: normalized_policy_def demo_context_policy_def)


theorem compaction_keeps_what_is_pinned_witness:
  "\<exists>r s. demo_fitted = Inr r \<and> fi_summary r = Some s \<and> 0 < nat (cs_covered s) \<and>
    fi_messages r = fst (project_tools demo_tools demo_context_policy
      (system_message (summary_text s) # drop (nat (cs_covered s)) demo_messages))"
proof -
  obtain r where r: "fit_context demo_tools demo_context_policy (build_context demo_tools demo_messages ''s'' [] ''go'' None) = Inr r"
    "fi_compacted r" by (rule demo_fitted_some)
  from compaction_keeps_what_is_pinned[OF r] r(1) show ?thesis
    by (auto simp: demo_fitted_def demo_build_def)
qed

lemma demo_objective: "objective_index (ct_json demo_tools) demo_messages ''go'' = Some 2"
  by code_simp

theorem own_work_never_compacted_witness:
  "\<exists>r s. demo_fitted = Inr r \<and> fi_summary r = Some s \<and> nat (cs_covered s) \<le> 2"
proof -
  obtain r where r: "fit_context demo_tools demo_context_policy (build_context demo_tools demo_messages ''s'' [] ''go'' None) = Inr r"
    "fi_compacted r" by (rule demo_fitted_some)
  have "covered_count (valid_previous demo_tools demo_messages None) \<le> 2"
    by (simp add: valid_previous_def covered_count_def)
  from own_work_never_compacted[OF r(1) _ demo_objective this] r show ?thesis
    by (auto simp: demo_fitted_def demo_build_def)
qed

theorem summary_survives_restart_witness:
  "\<exists>r st s. demo_fitted = Inr r \<and> apply_compaction demo_env [] r = Ok st \<and>
    summary_from_state demo_env st = Ok (Some s) \<and>
    valid_previous demo_tools (demo_messages @ [user_message ''more'']) (Some s) = Some s"
proof -
  obtain r where r: "fit_context demo_tools demo_context_policy (build_context demo_tools demo_messages ''s'' [] ''go'' None) = Inr r"
    "fi_compacted r" "map_option cs_covered (fi_summary r) = Some 2" by (rule demo_fitted_some)
  then obtain s where s: "fi_summary r = Some s" by blast
  then obtain st where st: "apply_compaction demo_env [] r = Ok st"
    by (simp add: apply_compaction_def with_summary_def dict_get_def py_or_def Let_def)
  from summary_survives_restart[OF r(1,2) st, of "[user_message ''more'']"] r(1) st show ?thesis
    by (auto simp: demo_fitted_def demo_build_def)
qed

end
