(* ===== verification/ModelStream.thy ===== *)
theory ModelStream
  imports Dependency RunModels PyText
begin

text \<open>
  The answer of a model: \<^verbatim>\<open>_collect_llm_response\<close>, \<^verbatim>\<open>_merge_tool_delta\<close> and
  \<^verbatim>\<open>_finalize_tool_calls\<close> of \<^verbatim>\<open>runtime/durable.py\<close>, and how a failed call is classified.
\<close>

section \<open>Tool calls in pieces\<close>

record tool_delta =
  td_id :: string
  td_name :: string
  td_arguments :: string

type_synonym deltas = "(int \<times> tool_delta) list"

definition delta_index :: "pyenv \<Rightarrow> pydict \<Rightarrow> int res" where
  "delta_index E d = py_int E (py_or (dict_get d ''index'') (PInt 0))"

definition find_delta :: "int \<Rightarrow> deltas \<Rightarrow> tool_delta option" where
  "find_delta i ds = map_of ds i"

definition put_delta :: "int \<Rightarrow> tool_delta \<Rightarrow> deltas \<Rightarrow> deltas" where
  "put_delta i t ds = (if map_of ds i = None then ds @ [(i, t)]
     else map (\<lambda>(j, u). if j = i then (j, t) else (j, u)) ds)"

definition merge_tool_delta :: "pyenv \<Rightarrow> int \<Rightarrow> pydict \<Rightarrow> deltas \<Rightarrow> deltas res" where
  "merge_tool_delta E agent_turn d ds =
     bindR (delta_index E d) (\<lambda>i.
     let old = (case find_delta i ds of
           Some t \<Rightarrow> t
         | None \<Rightarrow> \<lparr>td_id = ''call_'' @ int_repr (agent_turn + 1) @ ''_'' @ int_repr i, td_name = [], td_arguments = []\<rparr>);
         f = (case dict_get d ''function'' of PDict f \<Rightarrow> f | _ \<Rightarrow> []);
         t1 = (if truthy (dict_get d ''id'') then old\<lparr>td_id := py_str E (dict_get d ''id'')\<rparr> else old);
         t2 = (if truthy (dict_get f ''name'') then t1\<lparr>td_name := py_str E (dict_get f ''name'')\<rparr> else t1);
         t3 = (if truthy (dict_get f ''arguments'')
               then t2\<lparr>td_arguments := td_arguments t2 @ py_str E (dict_get f ''arguments'')\<rparr> else t2) in
     Ok (put_delta i t3 ds))"

definition tool_call_of :: "tool_delta \<Rightarrow> pydict" where
  "tool_call_of t = [(''id'', PStr (td_id t)), (''type'', PStr ''function''),
     (''function'', PDict [(''name'', PStr (td_name t)), (''arguments'', PStr (td_arguments t))])]"

definition finalize_tool_calls :: "deltas \<Rightarrow> pydict list" where
  "finalize_tool_calls ds = map (tool_call_of \<circ> snd) (filter (\<lambda>(i, t). td_name t \<noteq> []) (sort_key fst ds))"

section \<open>The stream\<close>

record llm_usage =
  us_input :: int
  us_output :: int
  us_cached :: int
  us_reasoning :: int

definition no_usage :: llm_usage where
  "no_usage = \<lparr>us_input = 0, us_output = 0, us_cached = 0, us_reasoning = 0\<rparr>"

record llm_partial =
  la_text :: string
  la_stop :: string
  la_usage :: llm_usage
  la_deltas :: deltas

definition empty_partial :: llm_partial where
  "empty_partial = \<lparr>la_text = [], la_stop = ''end_turn'', la_usage = no_usage, la_deltas = []\<rparr>"

text \<open>The counts of a usage event are added one after the other; a value that is no number ends it there.\<close>

definition usage_field :: "pyenv \<Rightarrow> pydict \<Rightarrow> string \<Rightarrow> int res" where
  "usage_field E u k = py_int E (py_or (dict_get u k) (PInt 0))"

definition add_usage :: "pyenv \<Rightarrow> pydict \<Rightarrow> llm_usage \<Rightarrow> llm_usage \<times> exn option" where
  "add_usage E u s0 =
     (case usage_field E u ''input_tokens'' of
        Inl e \<Rightarrow> (s0, Some e)
      | Inr a \<Rightarrow> let s1 = s0\<lparr>us_input := us_input s0 + a\<rparr> in
     (case usage_field E u ''output_tokens'' of
        Inl e \<Rightarrow> (s1, Some e)
      | Inr b \<Rightarrow> let s2 = s1\<lparr>us_output := us_output s1 + b\<rparr> in
     (case usage_field E u ''cached_input_tokens'' of
        Inl e \<Rightarrow> (s2, Some e)
      | Inr c \<Rightarrow> let s3 = s2\<lparr>us_cached := us_cached s2 + c\<rparr> in
     (case usage_field E u ''reasoning_tokens'' of
        Inl e \<Rightarrow> (s3, Some e)
      | Inr d \<Rightarrow> (s3\<lparr>us_reasoning := us_reasoning s3 + d\<rparr>, None)))))"

definition stream_event :: "pyenv \<Rightarrow> int \<Rightarrow> pydict \<Rightarrow> llm_partial \<Rightarrow> llm_partial \<times> exn option" where
  "stream_event E agent_turn event p =
     (let kind = dict_get event ''type'' in
      if kind = PStr ''text_delta''
      then (p\<lparr>la_text := la_text p @ str_or E (dict_get event ''text'') []\<rparr>, None)
      else if kind = PStr ''tool_call_delta''
      then (case dict_get event ''tool_call'' of
              PDict d \<Rightarrow> (case merge_tool_delta E agent_turn d (la_deltas p) of
                Inl e \<Rightarrow> (p, Some e) | Inr ds \<Rightarrow> (p\<lparr>la_deltas := ds\<rparr>, None))
            | _ \<Rightarrow> (p, None))
      else if kind = PStr ''message_end''
      then (p\<lparr>la_stop := str_or E (dict_get event ''stop_reason'') ''end_turn''\<rparr>, None)
      else if kind = PStr ''usage''
      then (case py_or (dict_get event ''usage'') (PDict []) of
              PDict u \<Rightarrow> (case add_usage E u (la_usage p) of (s, r) \<Rightarrow> (p\<lparr>la_usage := s\<rparr>, r))
            | _ \<Rightarrow> (p, None))
      else if kind = PStr ''error''
      then (p, Some (RuntimeErr (str_or E (dict_get event ''error'') ''LLM stream failed'')))
      else (p, None))"

fun stream_events :: "pyenv \<Rightarrow> int \<Rightarrow> pydict list \<Rightarrow> llm_partial \<Rightarrow> llm_partial \<times> exn option" where
  "stream_events E agent_turn [] p = (p, None)"
| "stream_events E agent_turn (event # events) p =
     (case stream_event E agent_turn event p of
        (p', None) \<Rightarrow> stream_events E agent_turn events p'
      | (p', Some e) \<Rightarrow> (p', Some e))"

text \<open>
  How the client's stream ends: it is exhausted, it raises an object of a heap (whose text, or
  class name, is given), the timeout of the call strikes, or the task is cancelled. A client
  that yields an exception in an error event raises it.
\<close>

datatype stream_end = StreamDone | StreamRaised exc_heap nat string | StreamTimedOut | StreamCancelled

text \<open>An exception of the code itself as the classifier sees it.\<close>

definition exc_object_of :: "pyenv \<Rightarrow> exn \<Rightarrow> exc_object" where
  "exc_object_of E e = \<lparr>ex_is_timeout = (case e of TimeoutErr m \<Rightarrow> True | _ \<Rightarrow> False), ex_is_connection = False,
     ex_status = PNone, ex_response_status = PNone, ex_headers = None, ex_text = exn_str E e, ex_next = None\<rparr>"

text \<open>\<^verbatim>\<open>_LlmStreamError\<close>: a new object whose cause is the failure of the stream.\<close>

definition stream_error_object :: "nat \<Rightarrow> string \<Rightarrow> exc_object" where
  "stream_error_object cause message = \<lparr>ex_is_timeout = False, ex_is_connection = False,
     ex_status = PNone, ex_response_status = PNone, ex_headers = None, ex_text = message, ex_next = Some cause\<rparr>"

datatype collected =
    Collected llm_partial
  | CollectFailed llm_usage exc_heap string
  | CollectTimedOut
  | CollectCancelled

definition collect_llm_response :: "pyenv \<Rightarrow> int \<Rightarrow> pydict list \<times> stream_end \<Rightarrow> collected" where
  "collect_llm_response E agent_turn answer =
     (case stream_events E agent_turn (fst answer) empty_partial of
        (p, Some e) \<Rightarrow>
          CollectFailed (la_usage p) [exc_object_of E e, stream_error_object 0 (safe_error E e)] (safe_error E e)
      | (p, None) \<Rightarrow>
          (case snd answer of
             StreamDone \<Rightarrow> Collected p
           | StreamRaised h i name \<Rightarrow>
               CollectFailed (la_usage p) (h @ [stream_error_object i (take 4000 name)]) (take 4000 name)
           | StreamTimedOut \<Rightarrow> CollectTimedOut
           | StreamCancelled \<Rightarrow> CollectCancelled))"

section \<open>Failures of a call\<close>

text \<open>
  What the handler of a failed call can catch: an exception of the code, a context that does not
  fit (its estimate and limit), a failed stream (the wrapped exception is the last of its heap).
\<close>

datatype model_failure = CallFailed exn | ContextFailed int int | StreamFailed exc_heap string

definition CONTEXT_BUDGET_EXCEEDED :: string where
  "CONTEXT_BUDGET_EXCEEDED = ''CONTEXT_BUDGET_EXCEEDED''"

definition failure_text :: "pyenv \<Rightarrow> model_failure \<Rightarrow> string" where
  "failure_text E f =
     (case f of
        CallFailed e \<Rightarrow> safe_error E e
      | ContextFailed estimate limit \<Rightarrow>
          take 4000 (CONTEXT_BUDGET_EXCEEDED @ '': estimated input '' @ int_repr estimate
                     @ '' exceeds hard limit '' @ int_repr limit)
      | StreamFailed h message \<Rightarrow> if message = [] then ''_LlmStreamError'' else take 4000 message)"

definition failure_object :: "pyenv \<Rightarrow> model_failure \<Rightarrow> failure" where
  "failure_object E f =
     (case f of
        CallFailed e \<Rightarrow> FailureExc [exc_object_of E e] 0
      | ContextFailed estimate limit \<Rightarrow> FailureText (failure_text E f)
      | StreamFailed h message \<Rightarrow> FailureExc h (length h - 1))"

definition failure_retry_after :: "pyenv \<Rightarrow> model_failure \<Rightarrow> rat option" where
  "failure_retry_after E f =
     (case failure_object E f of FailureExc h i \<Rightarrow> retry_after_of_exc E h i | _ \<Rightarrow> None)"

text \<open>Failures the runtime itself raises to stop the call: no retry is considered.\<close>

definition outer_control :: "model_failure \<Rightarrow> bool" where
  "outer_control f \<longleftrightarrow> (case f of CallFailed e \<Rightarrow> is_budget_exceeded e | ContextFailed a b \<Rightarrow> True
     | StreamFailed h m \<Rightarrow> False)"

definition failure_budget :: "model_failure \<Rightarrow> exn option" where
  "failure_budget f = (case f of CallFailed e \<Rightarrow> if is_budget_exceeded e then Some e else None | _ \<Rightarrow> None)"

end
