(* ===== verification/ModelStep.thy ===== *)
theory ModelStep
  imports ToolProtocol Context ModelStream
begin

text \<open>
  \<^verbatim>\<open>_execute_llm_step\<close> of \<^verbatim>\<open>runtime/durable.py\<close>: one call of the model under the run's budget, with
  bounded retries whose state is durable, so that a process that takes over neither forgets how
  often the call was tried nor repeats an answer it already has. The arguments that the only
  caller leaves at their defaults are fixed to them.
\<close>

section \<open>The services\<close>

text \<open>
  \<open>ml_chat n\<close> is the stream the client answers the call \<open>n\<close> with, its events and its end;
  \<open>ml_call_id\<close> the identifier of the span, or the reading of the performance counter, that makes
  the budget operation of a call unique. \<open>ml_definitions\<close> are the schemas of the tools.
\<close>

record 's model_services =
  ml_chat :: "nat \<Rightarrow> message list \<Rightarrow> pydict list \<times> stream_end"
  ml_timeout :: rat
  ml_system :: string
  ml_definitions :: "pydict list"
  ml_context :: context_tools
  ml_policy :: context_policy
  ml_call_id :: "nat \<Rightarrow> string"
  ml_reserve :: "nat \<Rightarrow> run_state \<Rightarrow> string \<Rightarrow> int \<Rightarrow> 's \<Rightarrow> 's \<times> unit res"
  ml_complete :: "nat \<Rightarrow> run_state \<Rightarrow> string \<Rightarrow> llm_usage \<Rightarrow> 's \<Rightarrow> 's \<times> unit res"

text \<open>\<^verbatim>\<open>try: m except Exception as exc\<close>, the exception as a value.\<close>

definition tryE :: "('s, 'a) eff \<Rightarrow> ('s, exn + 'a) eff" where
  "tryE m = catchE (bindE m (\<lambda>a. retE (Inr a))) (\<lambda>e. retE (Inl e))"

section \<open>The context of the call\<close>

definition recovery_message :: "progress_state \<Rightarrow> string" where
  "recovery_message ps =
     ''[Runtime recovery signal: derived model context]'' @ newline
     @ ''Previous actions are not producing observable progress ''
     @ ''('' @ (case ps_detector_type ps of None \<Rightarrow> ''stagnation'' | Some t \<Rightarrow> if t = [] then ''stagnation'' else t)
     @ ''). Do not repeat the same action. Reassess assumptions, ''
     @ ''use existing evidence, and choose a materially different approach.''"

definition text_message :: "string \<Rightarrow> string \<Rightarrow> message" where
  "text_message role s = \<lparr>m_role = role, m_content = TextContent s, m_name = None, m_tool_call_id = None, m_tool_calls = []\<rparr>"

definition model_messages :: "run_state \<Rightarrow> progress_state \<Rightarrow> message list" where
  "model_messages st ps = r_messages st
     @ (if ps_recovery_signal_pending ps then [text_message ''user'' (recovery_message ps)] else [])"

text \<open>The state with the summary, and the failure or the progress state, the messages and their estimate.\<close>

definition prepare_context :: "'s runtime \<Rightarrow> 's model_services \<Rightarrow> run_state
    \<Rightarrow> run_state \<times> (model_failure + progress_state \<times> message list \<times> int)" where
  "prepare_context R M st =
     (case progress_state_from_dict (rt_py R) (r_progress_state st) of
        Inl e \<Rightarrow> (st, Inl (CallFailed e))
      | Inr ps \<Rightarrow>
     (case summary_from_state (rt_py R) (r_strategy_state st) of
        Inl e \<Rightarrow> (st, Inl (CallFailed e))
      | Inr previous \<Rightarrow>
     (case fit_context (ml_context M) (ml_policy M)
             (build_context (ml_context M) (model_messages st ps) (ml_system M) (ml_definitions M) (r_input st) previous) of
        Inl (ContextExceeded estimate limit) \<Rightarrow> (st, Inl (ContextFailed estimate limit))
      | Inr r \<Rightarrow>
     (case apply_compaction (rt_py R) (r_strategy_state st) r of
        Inl e \<Rightarrow> (st\<lparr>r_strategy_state := with_summary (r_strategy_state st) r\<rparr>, Inl (CallFailed e))
      | Inr ss \<Rightarrow> (st\<lparr>r_strategy_state := ss\<rparr>, Inr (ps, fi_messages r, fi_after r))))))"

section \<open>The call\<close>

text \<open>
  A reserved call that was not accounted for: the usage known so far is recorded, and a budget
  that this exceeds is not reported.
\<close>

definition unaccounted :: "'s model_services \<Rightarrow> run_state \<Rightarrow> string \<Rightarrow> llm_usage \<Rightarrow> model_failure
    \<Rightarrow> ('s, run_state \<times> (model_failure + llm_partial)) eff" where
  "unaccounted M st op usage f =
     bindE (budgetE (storeE (\<lambda>n. ml_complete M n st op usage))) (\<lambda>_. retE (st, Inl f))"

definition chat_call :: "'s runtime \<Rightarrow> 's model_services \<Rightarrow> run_state \<Rightarrow> string \<Rightarrow> int \<Rightarrow> message list
    \<Rightarrow> ('s, collected) eff" where
  "chat_call R M st op attempt ms =
     effectE (bindE (logE op attempt) (\<lambda>_.
       bindE tickE (\<lambda>n.
       retE (collect_llm_response (rt_py R) (r_agent_turn st) (ml_chat M n ms)))))"

definition recovery_delivered :: "progress_state \<Rightarrow> run_state \<Rightarrow> run_state" where
  "recovery_delivered ps st =
     (if ps_recovery_signal_pending ps
      then st\<lparr>r_progress_state := progress_state_to_dict (mark_recovery_delivered ps)\<rparr> else st)"

definition settle_call :: "'s model_services \<Rightarrow> run_state \<Rightarrow> progress_state \<Rightarrow> string \<Rightarrow> collected
    \<Rightarrow> ('s, run_state \<times> (model_failure + llm_partial)) eff" where
  "settle_call M st ps op answer =
     (case answer of
        CollectCancelled \<Rightarrow> cancelE
      | CollectTimedOut \<Rightarrow> unaccounted M st op no_usage (CallFailed (TimeoutErr []))
      | CollectFailed usage h message \<Rightarrow>
          bindE (tryE (storeE (\<lambda>n. ml_complete M n st op usage))) (\<lambda>r.
          case r of Inl e \<Rightarrow> unaccounted M st op usage (CallFailed e)
                  | Inr _ \<Rightarrow> retE (st, Inl (StreamFailed h message)))
      | Collected a \<Rightarrow>
          bindE (tryE (storeE (\<lambda>n. ml_complete M n st op (la_usage a)))) (\<lambda>r.
          case r of Inl e \<Rightarrow> unaccounted M st op (la_usage a) (CallFailed e)
                  | Inr _ \<Rightarrow> retE (recovery_delivered ps st, Inr a)))"

definition reserved_call :: "'s runtime \<Rightarrow> 's model_services \<Rightarrow> run_state \<Rightarrow> progress_state \<Rightarrow> message list
    \<Rightarrow> string \<Rightarrow> int \<Rightarrow> ('s, run_state \<times> (model_failure + llm_partial)) eff" where
  "reserved_call R M st ps ms op attempt =
     bindE (tryE (storeE (\<lambda>n. rt_ensure_wall_time R n st))) (\<lambda>r.
     case r of
       Inl e \<Rightarrow> unaccounted M st op no_usage (CallFailed e)
     | Inr remaining \<Rightarrow>
         if deadline_exhausted \<lparr>configured_timeout_seconds = ml_timeout M, remaining_run_seconds = remaining\<rparr>
         then unaccounted M st op no_usage (CallFailed (TimeoutErr ''LLM operation deadline exhausted''))
         else bindE (chat_call R M st op attempt ms) (\<lambda>answer. settle_call M st ps op answer))"

definition model_call :: "'s runtime \<Rightarrow> 's model_services \<Rightarrow> run_state \<Rightarrow> int
    \<Rightarrow> ('s, run_state \<times> (model_failure + llm_partial)) eff" where
  "model_call R M st attempt =
     (case prepare_context R M st of
        (st1, Inl f) \<Rightarrow> retE (st1, Inl f)
      | (st1, Inr (ps, ms, estimate)) \<Rightarrow>
          bindE tickE (\<lambda>n.
          let op = ''model:'' @ r_run_id st @ '':'' @ ml_call_id M n in
          bindE (tryE (storeE (\<lambda>n. ml_reserve M n st1 op estimate))) (\<lambda>r.
          case r of
            Inl e \<Rightarrow> retE (st1, Inl (CallFailed e))
          | Inr _ \<Rightarrow> reserved_call R M st1 ps ms op attempt)))"

section \<open>After a failure\<close>

definition model_retry_decision :: "'s runtime \<Rightarrow> run_state \<Rightarrow> int \<Rightarrow> model_failure
    \<Rightarrow> ('s, model_failure \<times> retry_decision) eff" where
  "model_retry_decision R st attempt f =
     (if outer_control f
      then retE (f, RetryDecision False PERMANENT_ERROR ''outer Runtime control is authoritative'')
      else
        let category = classify (rt_py R) (failure_object (rt_py R) f) in
        bindE (budgetE (storeE (\<lambda>n. rt_ensure_wall_time R n st))) (\<lambda>r.
        case r of
          Inl e \<Rightarrow>
            bindE (storeE (\<lambda>n. rt_record_hard R n st e)) (\<lambda>_.
            retE (CallFailed e, RetryDecision False category ''outer Runtime wall-time budget is exhausted''))
        | Inr remaining \<Rightarrow>
            bindE tickE (\<lambda>n.
            bindE (liftR (decide_retry (rt_retry_policy R) category attempt SAFE (failure_text (rt_py R) f)
              (rt_random R n) remaining (failure_retry_after (rt_py R) f))) (\<lambda>d.
            retE (f, d)))))"

text \<open>\<^verbatim>\<open>_dependency_error_code\<close>\<close>

definition model_error_code :: "model_failure \<Rightarrow> retry_decision \<Rightarrow> string" where
  "model_error_code f d =
     (case f of
        CallFailed (BudgetExceededError code dimension limit used run) \<Rightarrow> code
      | CallFailed e \<Rightarrow> dependency_error_code (exn_class e) d
      | ContextFailed a b \<Rightarrow> CONTEXT_BUDGET_EXCEEDED
      | StreamFailed h m \<Rightarrow> dependency_error_code ''_LlmStreamError'' d)"

definition model_error :: "pyenv \<Rightarrow> model_failure \<Rightarrow> int \<Rightarrow> retry_decision \<Rightarrow> pydict \<Rightarrow> run_error" where
  "model_error E f attempt d waits =
     \<lparr>e_type = model_error_code f d, e_message = failure_text E f, e_step = Some ''llm'',
      e_metadata = dict_update (case f of CallFailed e \<Rightarrow> budget_metadata E e | _ \<Rightarrow> [])
        (retry_metadata ''model'' attempt d @ [(''retry_in_progress'', PBool False)] @ waits)\<rparr>"

text \<open>\<open>Inl\<close>: the run after the last failure; \<open>Inr\<close>: the run as it is for the next attempt.\<close>

definition model_failed :: "'s runtime \<Rightarrow> run_state \<Rightarrow> int \<Rightarrow> model_failure \<Rightarrow> ('s, run_state + run_state) eff" where
  "model_failed R st attempt f =
     bindE (case failure_budget f of None \<Rightarrow> retE () | Some e \<Rightarrow> storeE (\<lambda>n. rt_record_hard R n st e)) (\<lambda>_.
     bindE (model_retry_decision R st attempt f) (\<lambda>(f', d).
     bindE tickE (\<lambda>n.
     let waits = (if rd_retry d then [(''next_retry_at'', PStr (after_seconds R n (rd_delay_seconds d)))] else []) in
     bindE (save_checkpoint R (st\<lparr>r_error := Some (model_error (rt_py R) f' attempt d waits)\<rparr>)) (\<lambda>st1.
     if rd_retry d then retE (Inr st1)
     else bindE (apply_next_action R (propose (r_step_index st1) st1 ActFAIL)) (\<lambda>s. retE (Inl s))))))"

section \<open>After an answer\<close>

definition answered :: "llm_partial \<Rightarrow> run_state \<Rightarrow> run_state" where
  "answered a st =
     (let calls = finalize_tool_calls (la_deltas a) in
      st\<lparr>r_error := None,
         r_messages := r_messages st @ [(text_message ''assistant'' (la_text a))\<lparr>m_tool_calls := calls\<rparr>],
         r_output_text := r_output_text st @ la_text a, r_pending_tool_calls := calls,
         r_next_tool_index := 0, r_agent_turn := r_agent_turn st + 1, r_step_index := r_step_index st + 1,
         r_total_tokens := r_total_tokens st + (us_input (la_usage a) + us_output (la_usage a))\<rparr>)"

section \<open>The attempts\<close>

definition retry_started :: "int \<Rightarrow> run_error \<Rightarrow> run_error" where
  "retry_started attempt e = e\<lparr>e_metadata := filter (\<lambda>(k, v). k \<noteq> ''next_retry_at'')
     (dict_update (e_metadata e) [(''attempt_count'', PInt attempt), (''retry_in_progress'', PBool True)])\<rparr>"

definition model_attempt :: "'s runtime \<Rightarrow> 's model_services \<Rightarrow> run_state \<Rightarrow> int \<Rightarrow> ('s, run_state + run_state) eff" where
  "model_attempt R M st attempt =
     bindE (case r_error st of
              Some e \<Rightarrow> if 1 < attempt then save_checkpoint R (st\<lparr>r_error := Some (retry_started attempt e)\<rparr>) else retE st
            | None \<Rightarrow> retE st) (\<lambda>st1.
     bindE (model_call R M st1 attempt) (\<lambda>(st2, r).
     case r of
       Inl f \<Rightarrow> model_failed R st2 attempt f
     | Inr a \<Rightarrow> bindE (save_checkpoint R (answered a st2)) (\<lambda>s. retE (Inl s))))"

fun model_attempts :: "nat \<Rightarrow> 's runtime \<Rightarrow> 's model_services \<Rightarrow> run_state \<Rightarrow> int \<Rightarrow> ('s, run_state) eff" where
  "model_attempts 0 R M st attempt = (\<lambda>w. (w, OutOfFuel))"
| "model_attempts (Suc fuel) R M st attempt =
     bindE (model_attempt R M st (attempt + 1)) (\<lambda>x.
     case x of Inl s \<Rightarrow> retE s | Inr s \<Rightarrow> model_attempts fuel R M s (attempt + 1))"

section \<open>Taking over a retry\<close>

definition persisted_retry :: "run_state \<Rightarrow> pydict" where
  "persisted_retry st =
     (case r_error st of
        None \<Rightarrow> []
      | Some e \<Rightarrow> if e_step e = Some ''llm'' \<and> dict_get (e_metadata e) ''dependency_type'' = PStr ''model''
                  then e_metadata e else [])"

definition blocked_retry :: "string \<Rightarrow> string \<Rightarrow> pydict \<Rightarrow> string \<Rightarrow> run_error" where
  "blocked_retry code message metadata flag =
     \<lparr>e_type = code, e_message = message, e_step = Some ''llm'',
      e_metadata = dict_update metadata [(''retryable'', PBool False), (flag, PBool True)]\<rparr>"

text \<open>\<open>Inl\<close>: the run ended here; \<open>Inr\<close>: the attempts made so far.\<close>

definition fail_step :: "'s runtime \<Rightarrow> run_state \<Rightarrow> ('s, run_state + int) eff" where
  "fail_step R st = bindE (apply_next_action R (propose (r_step_index st) st ActFAIL)) (\<lambda>s. retE (Inl s))"

definition resume_model_retry :: "'s runtime \<Rightarrow> run_state \<Rightarrow> ('s, run_state + int) eff" where
  "resume_model_retry R st =
     (let p = persisted_retry st in
      if p = [] then retE (Inr 0)
      else
        bindE (liftR (py_int (rt_py R) (py_or (dict_get p ''attempt_count'') (PInt 0)))) (\<lambda>attempt.
        if truthy (dict_get p ''retry_in_progress'') \<and> max_attempts (rt_retry_policy R) \<le> attempt
        then fail_step R (st\<lparr>r_error := Some (blocked_retry ''DEPENDENCY_RETRY_EXHAUSTED''
               ''LLM retry allowance exhausted before process recovery'' p ''retry_exhausted'')\<rparr>)
        else if \<not> truthy (dict_get p ''retryable'') then fail_step R st
        else case dict_get p ''next_retry_at'' of
          PStr at_time \<Rightarrow>
            bindE tickE (\<lambda>n.
            let delay = seconds_until R n at_time in
            bindE (storeE (\<lambda>n. rt_ensure_wall_time R n st)) (\<lambda>remaining.
            if (case remaining of None \<Rightarrow> False | Some r \<Rightarrow> r \<le> delay)
            then fail_step R (st\<lparr>r_error := Some (blocked_retry ''DEPENDENCY_DEADLINE_EXCEEDED''
                   ''LLM retry backoff cannot fit inside the remaining Run deadline'' p ''retry_blocked_by_deadline'')\<rparr>)
            else retE (Inr attempt)))
        | _ \<Rightarrow> retE (Inr attempt)))"

text \<open>The policy allows no more attempts than its number, so this many turns of the loop suffice.\<close>

definition model_fuel :: "'s runtime \<Rightarrow> int \<Rightarrow> nat" where
  "model_fuel R attempt = Suc (nat (max_attempts (rt_retry_policy R) - attempt))"

definition execute_llm_step :: "'s runtime \<Rightarrow> 's model_services \<Rightarrow> run_state \<Rightarrow> ('s, run_state) eff" where
  "execute_llm_step R M st =
     bindE (budgetE (storeE (\<lambda>n. rt_consume_step R n st
        (''step:'' @ r_run_id st @ '':'' @ int_repr (r_step_index st) @ '':llm'')))) (\<lambda>charged.
     case charged of
       Inl e \<Rightarrow> fail_run R st (cause_of (rt_py R) e) ''llm''
     | Inr _ \<Rightarrow>
         bindE (resume_model_retry R st) (\<lambda>r.
         case r of
           Inl s \<Rightarrow> retE s
         | Inr attempt \<Rightarrow> model_attempts (model_fuel R attempt) R M st attempt))"

end
