(* ===== verification/React.thy ===== *)
theory React
  imports ModelStep
begin

text \<open>
  The ReAct strategy of \<^verbatim>\<open>DurableAgentRuntime\<close> (\<^verbatim>\<open>runtime/durable.py\<close>): one iteration, which is a
  call of the model, a call of a tool, or the decision that the run is complete, and the loop
  around the iterations, which checks control, ownership and the wall clock before each. Around it
  stands the life of a run: the new run of a request, \<^verbatim>\<open>start\<close>, \<^verbatim>\<open>resume\<close>, and the supervision of
  both. The registry of active executions itself is the theory \<open>Supervisor\<close>; here the supervision is
  what it does to the outcome of an execution.
\<close>

section \<open>Before a step\<close>

definition step_context_of :: "run_state \<Rightarrow> step_context" where
  "step_context_of st = \<lparr>sc_run_id = r_run_id st, sc_step_index = r_step_index st,
     sc_strategy = r_execution_strategy st, sc_run_state = st, sc_control_state = r_status st\<rparr>"

definition preflight_step :: "'s runtime \<Rightarrow> run_state \<Rightarrow> ('s, run_state \<times> step_context option) eff" where
  "preflight_step R st =
     bindE (reconcile R (r_run_id st)) (\<lambda>reconciled.
     if r_status reconciled \<noteq> RunRUNNING then retE (reconciled, None)
     else bindE (refresh R reconciled) (\<lambda>st1.
     if r_status st1 \<noteq> RunRUNNING then retE (st1, None)
     else bindE (budgetE (storeE (\<lambda>n. rt_ensure_wall_time R n st1))) (\<lambda>r.
     case r of
       Inl e \<Rightarrow> bindE (fail_run R st1 (cause_of (rt_py R) e) ''step_preflight'') (\<lambda>s. retE (s, None))
     | Inr _ \<Rightarrow> retE (st1, Some (step_context_of st1)))))"

section \<open>One iteration\<close>

text \<open>\<^verbatim>\<open>state.messages and state.messages[-1].role == "assistant"\<close>\<close>

definition answered_last :: "run_state \<Rightarrow> bool" where
  "answered_last st \<longleftrightarrow> r_messages st \<noteq> [] \<and> m_role (last (r_messages st)) = ''assistant''"

definition answer_durable :: "run_state \<Rightarrow> bool" where
  "answer_durable st \<longleftrightarrow> r_pending_tool_calls st = [] \<and> 0 < r_agent_turn st \<and> answered_last st \<and>
     r_error st = None"

definition step_outcome :: "step_context \<Rightarrow> run_state \<Rightarrow> next_action \<Rightarrow> step_result" where
  "step_outcome c st proposed =
     (if r_status st \<noteq> RunRUNNING then from_run_state (sc_step_index c) st
      else propose (sc_step_index c) st proposed)"

definition execute_react_step :: "'s runtime \<Rightarrow> 's model_services \<Rightarrow> step_context \<Rightarrow> ('s, step_result) eff" where
  "execute_react_step R M c =
     (let st = sc_run_state c in
      if answer_durable st then retE (step_outcome c st ActCOMPLETE)
      else if r_pending_tool_calls st \<noteq> [] \<and> r_next_tool_index st < int (length (r_pending_tool_calls st))
      then bindE (execute_pending_tool R st) (\<lambda>s. retE (step_outcome c s ActCONTINUE))
      else if rt_max_turns R \<le> r_agent_turn st
      then bindE (fail_run R st (cause_of (rt_py R)
               (RuntimeErr (''agent exceeded max_turns='' @ int_repr (rt_max_turns R)))) ''llm'')
             (\<lambda>s. retE (step_outcome c s ActCONTINUE))
      else bindE (execute_llm_step R M (st\<lparr>r_pending_tool_calls := [], r_next_tool_index := 0\<rparr>)) (\<lambda>s.
           retE (step_outcome c s
             (if r_status s = RunRUNNING \<and> r_error s = None \<and> r_pending_tool_calls s = [] \<and> answered_last s
              then ActCOMPLETE else ActCONTINUE))))"

section \<open>The loop\<close>

text \<open>
  \<^verbatim>\<open>_run_step_loop\<close>. A run may go on as long as its policies let it: \<open>fuel\<close> bounds the steps.
\<close>

fun run_step_loop :: "nat \<Rightarrow> 's runtime \<Rightarrow> (step_context \<Rightarrow> ('s, step_result) eff) \<Rightarrow> run_state
    \<Rightarrow> ('s, run_state) eff" where
  "run_step_loop 0 R execute_step st = (\<lambda>w. (w, OutOfFuel))"
| "run_step_loop (Suc fuel) R execute_step st =
     (if r_status st \<noteq> RunRUNNING then retE st
      else bindE (preflight_step R st) (\<lambda>(st1, c).
        case c of
          None \<Rightarrow> retE st1
        | Some c \<Rightarrow>
            bindE (execute_step c) (\<lambda>res.
            if sr_step_index res \<noteq> sc_step_index c
            then raiseE (RuntimeErr ''StepResult does not match its StepContext index'')
            else if r_run_id (sr_run_state res) \<noteq> sc_run_id c
            then raiseE (RuntimeErr ''StepResult does not match its StepContext run'')
            else bindE (apply_next_action R res) (\<lambda>s. run_step_loop fuel R execute_step s))))"

text \<open>\<^verbatim>\<open>_advance_react\<close> and \<^verbatim>\<open>_advance\<close>; \<open>strategy_advance\<close> is the method of the run's strategy.\<close>

definition advance_react :: "nat \<Rightarrow> 's runtime \<Rightarrow> 's model_services \<Rightarrow> run_state \<Rightarrow> ('s, run_state) eff" where
  "advance_react fuel R M st = run_step_loop fuel R (execute_react_step R M) st"

definition advance_run :: "'s runtime \<Rightarrow> (run_state \<Rightarrow> ('s, run_state) eff) \<Rightarrow> run_state \<Rightarrow> ('s, run_state) eff" where
  "advance_run R strategy_advance st =
     bindE (reconcile R (r_run_id st)) (\<lambda>reconciled.
     if r_status reconciled = RunCANCELLED then retE reconciled
     else if r_execution_strategy reconciled \<noteq> rt_strategy R
     then raiseE (ValueError (''runtime execution strategy does not match persisted checkpoint: ''
            @ rt_strategy R @ '' != '' @ r_execution_strategy reconciled))
     else strategy_advance reconciled)"

section \<open>The run of a request\<close>

record run_request =
  rq_thread_id :: string
  rq_input :: string
  rq_history :: "message list"
  rq_run_id :: "string option"
  rq_turn_id :: "string option"
  rq_parent_run_id :: "string option"
  rq_parent_step_id :: "string option"
  rq_run_kind :: string
  rq_budget_owner :: "string option"
  rq_contract :: "pydict option"
  rq_principal :: string
  rq_priority :: int

text \<open>The keyword defaults of \<^verbatim>\<open>_new_run_state\<close>.\<close>

definition run_request_for :: "string \<Rightarrow> string \<Rightarrow> run_request" where
  "run_request_for thread text = \<lparr>rq_thread_id = thread, rq_input = text, rq_history = [], rq_run_id = None,
     rq_turn_id = None, rq_parent_run_id = None, rq_parent_step_id = None, rq_run_kind = ''agent'',
     rq_budget_owner = None, rq_contract = None, rq_principal = ''default'', rq_priority = 1\<rparr>"

text \<open>
  What the runtime adds: the identifiers it would draw, the budget policy of its manager, and
  whether a cancellation of the task was requested through the registry.
\<close>

record life =
  lf_fresh :: "nat \<Rightarrow> string \<times> string"
  lf_budget_policy :: pydict
  lf_cancel_requested :: "nat \<Rightarrow> bool"

definition owner_of :: "run_state \<Rightarrow> string" where
  "owner_of st = (case r_budget_owner_run_id st of None \<Rightarrow> r_run_id st | Some i \<Rightarrow> if i = [] then r_run_id st else i)"

text \<open>The budget owner, the principal and the priority of the new run.\<close>

definition inherited :: "'s runtime \<Rightarrow> run_request \<Rightarrow> ('s, string option \<times> string \<times> int) eff" where
  "inherited R q =
     (case (rq_budget_owner q, rq_parent_run_id q) of
        (None, Some p) \<Rightarrow>
          bindE (load_run R p) (\<lambda>parent.
          retE (case parent of
                  None \<Rightarrow> (Some p, rq_principal q, rq_priority q)
                | Some s \<Rightarrow> (Some (owner_of s), r_principal_key s, r_base_priority s)))
      | (owner, _) \<Rightarrow> retE (owner, rq_principal q, rq_priority q))"

definition new_run_state :: "'s runtime \<Rightarrow> life \<Rightarrow> run_request \<Rightarrow> ('s, run_state) eff" where
  "new_run_state R L q =
     (let kind = (if rq_run_kind q = ''agent'' \<and> rt_strategy R = ''multi_agent'' then ''orchestrator'' else rq_run_kind q) in
      bindE (inherited R q) (\<lambda>(owner, principal, priority).
      bindE tickE (\<lambda>n.
      case lf_fresh L n of (fresh_run, fresh_turn) \<Rightarrow>
      retE (create_run (env_at R n) fresh_run fresh_turn (rq_thread_id q) (rq_input q) (rq_history q)
              (rq_run_id q) (rq_turn_id q) (rt_strategy R) (rq_parent_run_id q) (rq_parent_step_id q)
              kind principal priority owner (lf_budget_policy L)
              (progress_policy_to_dict (rt_progress_policy R)) (progress_state_to_dict empty_progress_state)
              (case rq_contract q of None \<Rightarrow> [] | Some c \<Rightarrow> c)))))"

section \<open>Supervision\<close>

text \<open>\<^verbatim>\<open>except asyncio.CancelledError\<close>\<close>

definition catchCancelE :: "('s, 'a) eff \<Rightarrow> ('s, 'a) eff \<Rightarrow> ('s, 'a) eff" where
  "catchCancelE m h w = (case m w of (w', Cancelled) \<Rightarrow> h w' | r \<Rightarrow> r)"

definition converge_cancelled :: "'s runtime \<Rightarrow> string \<Rightarrow> ('s, run_state) eff" where
  "converge_cancelled R i =
     bindE (require_run R i) (\<lambda>current. if run_finished current then retE current else cancel_durable R i)"

definition is_conflict :: "exn \<Rightarrow> bool" where
  "is_conflict e \<longleftrightarrow> (case e of CheckpointConflictError m \<Rightarrow> True | _ \<Rightarrow> False)"

definition supervised :: "'s runtime \<Rightarrow> life \<Rightarrow> string \<Rightarrow> ('s, run_state) eff \<Rightarrow> ('s, run_state) eff" where
  "supervised R L i execute =
     catchCancelE
       (catchE execute (\<lambda>e.
          if is_conflict e
          then bindE (load_run R i) (\<lambda>current.
               case current of
                 Some c \<Rightarrow> if r_status c = RunCANCELLED then retE c else raiseE e
               | None \<Rightarrow> raiseE e)
          else raiseE e))
       (bindE tickE (\<lambda>n. if lf_cancel_requested L n then converge_cancelled R i else cancelE))"

section \<open>Start and resume\<close>

text \<open>\<open>advance\<close> is the method of the execution strategy.\<close>

definition initial_save :: "'s runtime \<Rightarrow> run_state \<Rightarrow> ('s, run_state) eff" where
  "initial_save R st =
     bindE (load_run R (r_run_id st)) (\<lambda>existing.
     if existing \<noteq> None then raiseE (ValueError (''run already exists: '' @ r_run_id st))
     else bindE (storeE (\<lambda>n. rt_initialize R n st)) (\<lambda>st1. save_checkpoint R st1))"

definition start_run :: "'s runtime \<Rightarrow> life \<Rightarrow> (run_state \<Rightarrow> ('s, run_state) eff) \<Rightarrow> run_request
    \<Rightarrow> ('s, run_state) eff" where
  "start_run R L advance q =
     bindE (new_run_state R L q) (\<lambda>st.
     bindE (initial_save R st) (\<lambda>st1.
     supervised R L (r_run_id st1)
       (bindE (reconcile R (r_run_id st1)) (\<lambda>current.
        if r_status current = RunCANCELLED then retE current else advance_run R advance current))))"

definition resume_run :: "'s runtime \<Rightarrow> life \<Rightarrow> (run_state \<Rightarrow> ('s, run_state) eff) \<Rightarrow> string \<Rightarrow> string option
    \<Rightarrow> ('s, run_state) eff" where
  "resume_run R L advance i decision =
     bindE (require_run R i) (\<lambda>st.
     supervised R L i
       (bindE (reconcile R i) (\<lambda>reconciled.
        if r_status reconciled = RunCANCELLED \<and> r_status st \<noteq> RunCANCELLED then retE reconciled
        else bindE (resume_claim R i decision) (\<lambda>(claimed, go).
             if go then advance_run R advance claimed else retE claimed))))"

end
