(* ===== verification/ToolTotal.thy ===== *)
theory ToolTotal
  imports ToolProps
begin

text \<open>
  The execution of a pending tool call always ends: the fuel given to its loop and to its
  recursion is enough, because every iteration spends an attempt and the recursion finds a
  decided record.
\<close>

section \<open>The parts of the runtime\<close>

lemma halts_cancel [halts_intros]: "halts cancelE"
  by (simp add: ends_def cancelE_def)

lemma halts_runtime [halts_intros]:
  "halts (nowE R)" "halts (load_run R i)" "halts (save_checkpoint R st)" "halts (load_tool R i)"
  "halts (save_tool R q)" "halts (validate_ownershipE R)" "halts (require_run R i)"
  by (unfold nowE_def load_run_def save_checkpoint_def load_tool_def save_tool_def
      validate_ownershipE_def require_run_def) (intro halts_intros)+

lemma halts_completion [halts_intros]: "halts (evaluate_completion R st b)"
  unfolding evaluate_completion_def Let_def
  by (auto intro!: halts_intros split: option.split next_action.split)

lemma halts_transitions [halts_intros]:
  "halts (apply_action R res)" "halts (fail_both R st c step)" "halts (fail_run R st c step)"
  "halts (wait_for_approval R st i name args kind reason)"
  by (unfold apply_action_def fail_both_def fail_run_def wait_for_approval_def Let_def)
    (intro halts_intros)+

lemma halts_observe [halts_intros]: "halts (observe_progress R st ob)"
  unfolding observe_progress_def Let_def by (intro halts_intros)

lemma halts_tool [halts_intros]:
  "halts (apply_tool_result R st p r reused)" "halts m \<Longrightarrow> halts (budgetE m)"
  "halts (await_retry R st p q)" "halts (call_tool R p k)" "halts (decide_tool_retry R st safety q r)"
  by (unfold apply_tool_result_def budgetE_def await_retry_def call_tool_def decide_tool_retry_def Let_def)
    (intro halts_intros; assumption?)+

lemma halts_attempt [halts_intros]:
  "halts (settle_reply R st p safety q reply)" "halts (start_attempt R st p safety q)"
  "halts (tool_attempt R st p safety q)"
  by (unfold settle_reply_def start_attempt_def tool_attempt_def) (intro halts_intros)+

section \<open>The loop of attempts\<close>

context tool_runtime
begin

text \<open>A store with the tool records in order.\<close>

definition sound :: "'s world \<Rightarrow> bool" where
  "sound w \<longleftrightarrow> tinv (w_store w)"

lemma sound_view: "sound = on_world (view i (\<lambda>_ _. True))"
  by (simp add: fun_eq_iff sound_def on_world_def view_def)

lemma keeps_sound: "(\<And>i Q. keeps (view i Q) m) \<Longrightarrow> triple sound m (\<lambda>_. sound) sound"
  using keeps_def sound_view by metis

lemma save_sound: "triple sound (save_tool R r) (\<lambda>y w. sound w \<and> (\<exists>E. y = stamped E r)) sound"
  unfolding sound_view[of "t_invocation_id r"] by (rule save_own) simp_all

lemma call_sound: "triple sound (call_tool R p k) (\<lambda>_. sound) sound"
  unfolding sound_view[of "pc_invocation p"] by (rule call_own) simp_all

lemma decide_sound:
  "triple sound (decide_tool_retry R st safety q r)
    (\<lambda>d w. sound w \<and> (rd_retry d \<longrightarrow> retry_permitted safety (t_attempt q) d)) sound"
  using decide_triple[where Q = "\<lambda>_ _. True"] by (simp add: sound_view[symmetric])

lemma sound_bind:
  "triple sound m (\<lambda>a w. sound w \<and> \<phi> a) sound \<Longrightarrow> (\<And>a. \<phi> a \<Longrightarrow> triple sound (f a) Q sound) \<Longrightarrow>
     triple sound (bindE m f) Q sound"
  by (erule triple_bind) (rule triple_pure)

lemma sound_next:
  "(\<And>i Q. keeps (view i Q) m) \<Longrightarrow> (\<And>a. triple sound (f a) Q sound) \<Longrightarrow> triple sound (bindE m f) Q sound"
  by (rule triple_bind[OF keeps_sound])

text \<open>\<open>again_from n\<close>: the loop goes on with a record of attempt \<open>n\<close>.\<close>

definition again_from :: "int \<Rightarrow> bool \<Rightarrow> 'b + tool_record \<Rightarrow> 's world \<Rightarrow> bool" where
  "again_from n bounded x w \<longleftrightarrow> sound w \<and> (case x of Inl r \<Rightarrow> True
     | Inr y \<Rightarrow> t_attempt y = n \<and> (bounded \<longrightarrow> n < max_attempts (rt_retry_policy R)))"

lemma again_from_simps [simp]:
  "again_from n b (Inl r) w = sound w"
  "again_from n b (Inr y) w = (sound w \<and> t_attempt y = n \<and> (b \<longrightarrow> n < max_attempts (rt_retry_policy R)))"
  by (simp_all add: again_from_def)

lemma finish_sound: "(\<And>i Q. keeps (view i Q) m) \<Longrightarrow> triple sound (bindE m (\<lambda>s. retE (Inl s))) (again_from n b) sound"
  by (rule sound_next) (auto intro: triple_ret)

lemma await_sound: "triple sound (await_retry R st p q) (again_from (t_attempt q) False) sound"
  unfolding await_retry_def Let_def
  by (auto split: option.split intro!: triple_ret triple_if sound_next[OF keeps_tick]
      sound_next[OF keeps_run_parts(5)] sound_bind[OF save_sound])

lemma settle_sound: "triple sound (settle_reply R st p safety q reply) (again_from (t_attempt q) True) sound"
proof -
  have cancelled: "triple sound cancelE Q sound" for Q :: "run_state + tool_record \<Rightarrow> 's world \<Rightarrow> bool"
    by (simp add: triple_def cancelE_def)
  show ?thesis
    unfolding settle_reply_def
    by (rule sound_next[OF keeps_now])
      (auto split: option.split intro!: cancelled triple_if finish_sound keeps_run_parts triple_ret
        sound_bind[OF save_sound] sound_bind[OF decide_sound] sound_next[OF keeps_tick]
        simp: retry_permitted_def)
qed

lemma start_sound: "triple sound (start_attempt R st p safety q) (again_from (t_attempt q + 1) True) sound"
  unfolding start_attempt_def
  by (rule sound_next[OF keeps_now], rule sound_bind[OF save_sound], rule sound_next[OF keeps_run_parts(5)],
      rule triple_if, rule triple_raise, assumption, rule triple_bind[OF call_sound],
      rule triple_post[OF settle_sound]) auto

lemma attempt_sound: "triple sound (tool_attempt R st p safety q) (again_from (t_attempt q + 1) True) sound"
  unfolding tool_attempt_def
proof (rule triple_bind[OF await_sound])
  fix x :: "tool_result + tool_record"
  show "triple (again_from (t_attempt q) False x)
     (case x of Inl r \<Rightarrow> bindE (apply_tool_result R st p r False) (\<lambda>s. retE (Inl s))
      | Inr q1 \<Rightarrow> bindE (budgetE (storeE (\<lambda>n. rt_consume_tool R n st
             (''tool:'' @ pc_invocation p @ '':attempt:'' @ int_repr (t_attempt q1 + 1))))) (\<lambda>charged.
           case charged of
             Inl e \<Rightarrow> bindE (fail_run R st (cause_of (rt_py R) e) ''tool'') (\<lambda>s. retE (Inl s))
           | Inr _ \<Rightarrow> start_attempt R st p safety q1))
     (again_from (t_attempt q + 1) True) sound"
  proof (cases x)
    case (Inl r)
    have "again_from (t_attempt q) False (Inl r :: tool_result + tool_record) = sound" by (simp add: fun_eq_iff)
    then show ?thesis unfolding Inl sum.case by (simp add: finish_sound keeps_run_parts)
  next
    case (Inr y)
    have "again_from (t_attempt q) False (Inr y :: tool_result + tool_record) =
        (\<lambda>w. sound w \<and> t_attempt y = t_attempt q)" by (simp add: fun_eq_iff)
    then show ?thesis
      unfolding Inr sum.case
      using start_sound[of st p safety y]
      by (auto split: sum.split intro!: triple_pure sound_next[OF keeps_budget[OF keeps_run_parts(3)]]
          finish_sound keeps_run_parts)
  qed
qed

lemma attempts_end:
  "max_attempts (rt_retry_policy R) - t_attempt q < int fuel \<Longrightarrow> 0 < fuel \<Longrightarrow>
     ends sound (tool_attempts fuel R st p safety q)"
proof (induction fuel arbitrary: q)
  case (Suc fuel)
  show ?case
    unfolding tool_attempts.simps
  proof (rule ends_bind[OF ends_halts[OF halts_attempt(3)] attempt_sound])
    fix x :: "run_state + tool_record"
    show "ends (again_from (t_attempt q + 1) True x)
      (case x of Inl s \<Rightarrow> retE s | Inr q' \<Rightarrow> tool_attempts fuel R st p safety q')"
    proof (cases x)
      case (Inl s)
      then show ?thesis by (simp add: ends_halts halts_basic)
    next
      case (Inr y)
      show ?thesis
      proof (cases "t_attempt y = t_attempt q + 1 \<and> t_attempt q + 1 < max_attempts (rt_retry_policy R)")
        case True
        with Suc.prems Suc.IH[of y] show ?thesis by (auto simp: Inr ends_def)
      next
        case False
        then show ?thesis by (auto simp: Inr ends_def)
      qed
    qed
  qed
qed simp

section \<open>The method\<close>

lemma sound_if_view: "on_world (view i Q) w \<Longrightarrow> sound w"
  by (simp add: sound_def on_world_def view_def)

lemma permitted_ends:
  assumes "\<And>q. x = Some q \<Longrightarrow> 0 \<le> t_attempt q"
  shows "ends sound (run_permitted R st p safety x)"
proof -
  have fuel: "ends sound (tool_attempts (attempts_fuel R) R st p safety q)" if "0 \<le> t_attempt q" for q
    by (rule attempts_end) (use that in \<open>auto simp: attempts_fuel_def\<close>)
  have start: "ends sound (bindE (case x of Some q \<Rightarrow> retE q | None \<Rightarrow> save_tool R (new_record st p ToolPENDING))
      (\<lambda>q. tool_attempts (attempts_fuel R) R st p safety q))"
  proof (cases x)
    case None
    have "ends sound (bindE (save_tool R (new_record st p ToolPENDING))
        (\<lambda>q. tool_attempts (attempts_fuel R) R st p safety q))"
    proof (rule ends_bind[OF ends_halts[OF halts_runtime(5)] save_sound])
      fix y
      show "ends (\<lambda>w. sound w \<and> (\<exists>E. y = stamped E (new_record st p ToolPENDING)))
          (tool_attempts (attempts_fuel R) R st p safety y)"
        using fuel[of y] by (auto simp: ends_def new_record_def)
    qed
    with None show ?thesis by simp
  next
    case (Some q)
    with assms fuel show ?thesis by simp
  qed
  have deny: "halts (bindE (nowE R) (\<lambda>now. bindE (save_tool R (f now)) (\<lambda>_. apply_tool_result R st p r False)))"
    for f r by (intro halts_intros)
  show ?thesis
    unfolding run_permitted_def Let_def
    by (simp split: permission_action.split add: start ends_halts[OF deny] ends_halts[OF halts_transitions(4)])
qed

definition counted :: "tool_record option \<Rightarrow> int list \<Rightarrow> bool" where
  "counted old a \<longleftrightarrow> (\<forall>q. old = Some q \<longrightarrow> 0 \<le> t_attempt q)"

definition given_up :: "tool_record option \<Rightarrow> int list \<Rightarrow> bool" where
  "given_up old a \<longleftrightarrow> (\<exists>q. old = Some q \<and> t_status q = ToolFAILED \<and> t_retry_state q = RETRY_EXHAUSTED \<and>
     0 \<le> t_attempt q)"

lemma load_facts:
  "triple (on_world (view i Q)) (load_tool R i)
     (\<lambda>x w. on_world (view i Q) w \<and> (\<exists>a. Q x a) \<and> (\<forall>q. x = Some q \<longrightarrow> t_invocation_id q = i))
     (on_world (view i Q))"
  unfolding load_tool_def
  by (rule triple_read) (auto simp: on_world_def view_def load_stored dest: stored_id)

lemma give_up_ends:
  assumes "t_invocation_id q = i" "0 \<le> t_attempt q" "ends (on_world (view i given_up)) (again st)"
  shows "ends (on_world (view i Q)) (bindE (nowE R) (\<lambda>now.
           bindE (save_tool R (exhausted_record q now)) (\<lambda>_. again st)))"
proof (rule ends_bind[OF ends_halts[OF halts_runtime(1)] keeps_now[unfolded keeps_def]])
  fix now
  have "triple (on_world (view i Q)) (save_tool R (exhausted_record q now))
      (\<lambda>y w. on_world (view i given_up) w \<and> (\<exists>E. y = stamped E (exhausted_record q now))) (on_world (view i Q))"
    by (rule save_own) (use assms(1,2) in \<open>auto simp: exhausted_record_def given_up_def dest: reads_as_fields\<close>)
  then show "ends (on_world (view i Q)) (bindE (save_tool R (exhausted_record q now)) (\<lambda>_. again st))"
    by (rule ends_bind[OF ends_halts[OF halts_runtime(5)]]) (use assms(3) in \<open>simp add: ends_def\<close>)
qed

lemma step_ends:
  assumes prepared: "prepare_call R st0 = Ok (st, p)" and i: "pc_invocation p = i"
    and Q: "\<And>x a. Q x a \<Longrightarrow> counted x a"
    and again: "\<And>q a. Q (Some q) a \<Longrightarrow> t_status q = ToolRUNNING \<Longrightarrow> ends (on_world (view i given_up)) (again st)"
  shows "ends (on_world (view i Q)) (pending_tool_step R again st0)"
proof -
  have lift: "liftR (prepare_call R st0) = retE (st, p)" by (simp add: prepared)
  show ?thesis
    unfolding pending_tool_step_def lift bindE_ret prod.case i
  proof (rule ends_bind[OF ends_halts[OF halts_runtime(4)] load_facts], goal_cases)
    case (1 x)
    have permitted: "ends (on_world (view i Q)) (run_permitted R st p safety x)" if "\<exists>a. Q x a" for safety
      using permitted_ends[of x st p safety] that Q
      by (auto simp: ends_def counted_def dest: sound_if_view)
    have exhausted: "ends (on_world (view i Q)) (bindE (nowE R) (\<lambda>now.
        bindE (save_tool R (exhausted_record q now)) (\<lambda>_. again st)))"
      if "x = Some q" "\<exists>a. Q x a" "t_status q = ToolRUNNING" "t_invocation_id q = i" for q
    proof (rule give_up_ends[OF that(4)])
      from that(1,2) Q show "0 \<le> t_attempt q" by (auto simp: counted_def)
      from that(1-3) again show "ends (on_world (view i given_up)) (again st)" by blast
    qed
    show ?case
    proof (rule ends_pure, elim conjE)
      assume x: "\<exists>a. Q x a" "\<forall>q. x = Some q \<longrightarrow> t_invocation_id q = i"
      show "ends (on_world (view i Q)) (if (case x of None \<Rightarrow> False | Some q \<Rightarrow> t_arguments_hash q \<noteq> pc_hash p)
        then fail_run R st (cause_of (rt_py R)
            (RuntimeErr ''tool invocation arguments changed after checkpoint'')) ''tool''
        else case x of
          Some q \<Rightarrow>
            if t_status q = ToolSUCCEEDED then apply_tool_result R st p (success_result p q) True
            else
              bindE (liftR (tool_retry_safety (pc_tool p))) (\<lambda>safety.
              if failure_decided (rt_retry_policy R) q
              then apply_tool_result R st p (failure_result p q) True
              else if t_status q = ToolRUNNING \<and> max_attempts (rt_retry_policy R) \<le> t_attempt q
              then bindE (nowE R) (\<lambda>now.
                   bindE (save_tool R (exhausted_record q now)) (\<lambda>_. again st))
              else if t_status q = ToolRUNNING \<and> safety = UNSAFE
                \<and> map_of (r_decisions st) i \<noteq> Some ''approve''
              then wait_for_approval R st i (pc_name p) (pc_payload p)
                     ''ambiguous_tool_execution'' ambiguous_reason
              else run_permitted R st p safety (Some q))
        | None \<Rightarrow>
            bindE (liftR (tool_retry_safety (pc_tool p))) (\<lambda>safety. run_permitted R st p safety None))"
      proof (cases x)
        case None
        with permitted x(1) show ?thesis by (auto intro: ends_liftR)
      next
        case (Some q)
        note q = permitted[OF x(1), unfolded Some] exhausted[OF Some x(1)]
        from x(2) Some have "t_invocation_id q = i" by simp
        with q show ?thesis
          unfolding Some option.case
          by (intro ends_if ends_liftR ends_halts[OF halts_transitions(3)]
              ends_halts[OF halts_tool(1)] ends_halts[OF halts_transitions(4)]) blast+
      qed
    qed
  qed
qed

lemma method_ends:
  assumes "\<And>st' p. prepare_call R st = Ok (st', p) \<Longrightarrow> on_world (view (pc_invocation p) counted) w"
  shows "snd (execute_pending_tool R st w) \<noteq> OutOfFuel"
proof (cases "prepare_call R st")
  case (Inl e)
  have "halts (execute_pending_tool_inner 2 R st)"
    unfolding numeral_2_eq_2 execute_pending_tool_inner.simps pending_tool_step_def Inl liftR_simps bindE_raise
    by (rule halts_basic)
  then have "halts (execute_pending_tool R st)"
    unfolding execute_pending_tool_def by (intro halts_intros; assumption)
  then show ?thesis by (simp add: ends_def)
next
  case (Inr sp)
  obtain st' p where "sp = (st', p)" by fastforce
  with Inr have p: "prepare_call R st = Ok (st', p)" by simp
  let ?i = "pc_invocation p"
  have second: "ends (on_world (view ?i given_up)) (execute_pending_tool_inner 1 R st')"
    unfolding One_nat_def execute_pending_tool_inner.simps
    by (rule step_ends[OF prepare_again[OF p] refl]) (auto simp: given_up_def counted_def)
  have first: "ends (on_world (view ?i counted)) (execute_pending_tool_inner 2 R st)"
    unfolding numeral_2_eq_2 execute_pending_tool_inner.simps(2)[of "Suc 0"]
    by (rule step_ends[OF p refl], assumption, rule second[unfolded One_nat_def])
  have "ends (on_world (view ?i counted)) (execute_pending_tool R st)"
    unfolding execute_pending_tool_def
  proof (rule ends_bind[OF _ keeps_budget[OF keeps_run_parts(2), unfolded keeps_def]])
    show "ends (on_world (view ?i counted)) (budgetE (storeE (\<lambda>n. rt_consume_step R n st
        (''step:'' @ r_run_id st @ '':'' @ int_repr (r_step_index st) @ '':tool''))))"
      by (rule ends_halts) (intro halts_intros)
    show "ends (on_world (view ?i counted)) (case x of Inl e \<Rightarrow> fail_run R st (cause_of (rt_py R) e) ''tool''
        | Inr _ \<Rightarrow> execute_pending_tool_inner 2 R st)" for x
      by (cases x) (simp_all only: sum.case first ends_halts[OF halts_transitions(3)])
  qed
  with assms[OF p] show ?thesis unfolding ends_def by blast
qed

end

lemma settled_attempt: "t_attempt (settled q) = t_attempt q"
  by (simp add: settled_def Let_def)

context local_runtime
begin

lemma local_ends:
  assumes "\<forall>q \<in> set (sq_tools (w_store w)). t_updated_at q \<noteq> [] \<and> 0 \<le> t_attempt q"
  shows "snd (execute_pending_tool (on_sqlite B R) st w) \<noteq> OutOfFuel"
proof (rule local.method_ends)
  fix st' p
  have "0 \<le> t_attempt q" if "find_tool (w_store w) j = Some q" for j q
    using assms find_tool_in[OF that] by blast
  moreover have "sqlite_tools_inv (w_store w)" using assms by (simp add: sqlite_tools_inv_def)
  ultimately show "on_world (local.view (pc_invocation p) local.counted) w"
    unfolding view_local tool_view_def local.counted_def by (auto simp: settled_attempt)
qed

end

text \<open>
  C13: Executing a pending tool call always ends, with a run state, an exception, a cancellation
  or the death of the process: neither the loop of attempts nor the method's call of itself
  goes on for ever.
\<close>

theorem tool_execution_ends:
  assumes "readable R" "0 < max_attempts (rt_retry_policy R)"
    and "\<forall>q \<in> set (sq_tools (w_store w)). t_updated_at q \<noteq> [] \<and> 0 \<le> t_attempt q"
  shows "snd (execute_pending_tool (on_sqlite B R) st w) \<noteq> OutOfFuel"
  using assms by (intro local_runtime.local_ends) (simp_all add: local_runtime_def)

theorem tool_execution_ends_witness:
  "snd (execute_pending_tool (on_sqlite demo_parts (demo_runtime PermALLOW)) send_run
     (fresh_world send_store)) \<noteq> OutOfFuel"
  by (rule tool_execution_ends)
    (simp_all add: readable_def demo_runtime_def demo_env_def default_retry_policy_def
      fresh_world_def send_store_def sqlite_empty_def)

end
