(* ===== verification/RuntimeProps.thy ===== *)
theory RuntimeProps
  imports LocalRuntime
begin

text \<open>
  The life cycle of a run: what has ended stays as it is, a step is only applied to the
  checkpoint it was computed from, and a run completes only when its contract is met.
\<close>

section \<open>What may be done to a run\<close>

text \<open>
  The operations of clients and of the runtime on one run; \<open>Apply\<close> applies the result of a
  step. \<open>mark\<close> is the store's marking of a run as runnable.
\<close>

datatype run_op =
    Cancel
  | Interrupt string
  | Reconcile
  | QueueResume "string option"
  | Resume "string option"
  | Apply step_result

fun operate :: "'s runtime \<Rightarrow> (string \<Rightarrow> nat \<Rightarrow> 's \<Rightarrow> 's \<times> unit res) \<Rightarrow> string \<Rightarrow> run_op
    \<Rightarrow> 's world \<Rightarrow> 's world" where
  "operate R mark i Cancel w = fst (cancel_durable R i w)"
| "operate R mark i (Interrupt reason) w = fst (interrupt_run R i reason w)"
| "operate R mark i Reconcile w = fst (reconcile R i w)"
| "operate R mark i (QueueResume decision) w = fst (queue_resume R mark i decision w)"
| "operate R mark i (Resume decision) w = fst (resume_claim R i decision w)"
| "operate R mark i (Apply res) w = fst (apply_next_action R res w)"

fun concerns :: "string \<Rightarrow> run_op \<Rightarrow> bool" where
  "concerns i (Apply res) = (r_run_id (sr_run_state res) = i)"
| "concerns i _ = True"

text \<open>\<open>frozen s m\<close>: from a world with the store \<open>s\<close>, \<open>m\<close> leaves it as it is.\<close>

definition frozen :: "'s \<Rightarrow> ('s, 'a) eff \<Rightarrow> bool" where
  "frozen s m \<longleftrightarrow> (\<forall>w. w_store w = s \<longrightarrow> w_store (fst (m w)) = s)"

named_theorems frozen_intros \<open>computations that do not change the store\<close>

lemma frozen_basic [frozen_intros]:
  "frozen s (retE a)" "frozen s (raiseE e)" "frozen s tickE"
  by (simp_all add: frozen_def retE_def raiseE_def tickE_def)

lemma frozen_liftR [frozen_intros]: "frozen s (liftR r)"
  by (cases r) (simp_all add: frozen_basic)

lemma frozen_read [frozen_intros]: "frozen s (readE f)"
  unfolding frozen_def readE_def
proof (intro allI impI)
  fix w :: "'a world" assume "w_store w = s"
  then show "w_store (fst (liftR (f (w_store w)) w)) = s"
    using frozen_liftR[of s "f (w_store w)"] by (simp add: frozen_def)
qed

lemma frozen_bind [frozen_intros]:
  assumes "frozen s m" "\<And>a. frozen s (f a)"
  shows "frozen s (bindE m f)"
  unfolding frozen_def
proof (intro allI impI)
  fix w :: "'a world" assume w: "w_store w = s"
  obtain w1 r where m: "m w = (w1, r)" by fastforce
  have "w_store w1 = s" using assms(1) w m unfolding frozen_def by (metis fst_conv)
  then show "w_store (fst (bindE m f w)) = s"
    using assms(2) by (cases r) (simp_all add: bindE_def m frozen_def)
qed

lemma frozen_validate [frozen_intros]: "frozen s (validate_ownershipE R)"
  unfolding validate_ownershipE_def by (auto split: option.split intro!: frozen_intros)

lemma frozen_evaluate [frozen_intros]: "frozen s (evaluate_completion R st b)"
  unfolding evaluate_completion_def Let_def
  by (auto intro!: frozen_intros split: option.split next_action.split)

text \<open>Reading a run that is there.\<close>

lemma require_bind:
  "rt_load R (rt_py R) i (w_store w) = Ok (Some st) \<Longrightarrow> bindE (require_run R i) f w = f st w"
  by (simp add: require_run_def load_run_def readE_def bindE_def retE_def)

lemma frozen_fst: "frozen (w_store w) m \<Longrightarrow> w_store (fst (m w)) = w_store w"
  by (simp add: frozen_def)

lemma stopped_step:
  assumes "rt_load R (rt_py R) (r_run_id (sr_run_state res)) (w_store w) = Ok (Some current)"
    and "r_status current \<in> {RunCANCELLED, RunINTERRUPTED, RunCOMPLETED, RunFAILED} \<or>
      r_sequence current \<noteq> r_sequence (sr_run_state res)"
  shows "w_store (fst (apply_action R res w)) = w_store w"
proof -
  note at = require_bind[where R = R and w = w, OF assms(1)]
  let ?st = "sr_run_state res"
  show ?thesis
  proof (cases "r_status current \<in> {RunCANCELLED, RunINTERRUPTED}")
    case True
    then show ?thesis by (simp add: apply_action_def Let_def at retE_def)
  next
    case False
    let ?rest = "if r_status current \<in> {RunCOMPLETED, RunFAILED} then retE (?st, current)
        else raiseE (CheckpointConflictError (''stale StepResult for run '' @ r_run_id ?st
           @ '': expected sequence '' @ int_repr (r_sequence ?st) @ '', current sequence ''
           @ int_repr (r_sequence current)))"
    have "frozen (w_store w) (bindE (validate_ownershipE R) (\<lambda>_. ?rest))"
      by (auto intro!: frozen_intros)
    from frozen_fst[OF this] show ?thesis
      using assms(2) False by (auto simp: apply_action_def Let_def at)
  qed
qed

lemma applied_store: "w_store (fst (apply_next_action R res w)) = w_store (fst (apply_action R res w))"
  by (simp add: apply_next_action_def bindE_def retE_def split: prod.split outcome.split)

lemma terminal_operation:
  assumes "rt_load R (rt_py R) i (w_store w) = Ok (Some st)" "run_finished st" "concerns i op"
  shows "w_store (operate R mark i op w) = w_store w"
proof -
  note at = require_bind[where R = R and i = i and w = w and st = st, OF assms(1)]
  have "r_status st = RunCOMPLETED \<or> r_status st = RunFAILED \<or> r_status st = RunCANCELLED"
    using assms(2) by (auto simp: run_finished_def)
  then have refused: "\<exists>e. resume_refused st = Some e" by (auto simp: resume_refused_def)
  show ?thesis
  proof (cases op)
    case Cancel
    then show ?thesis using assms(2)
      by (auto simp: cancel_durable_def at run_finished_def retE_def raiseE_def)
  next
    case (Interrupt reason)
    then show ?thesis using assms(2)
      by (auto simp: interrupt_run_def at run_finished_def raiseE_def)
  next
    case Reconcile
    then show ?thesis using assms(2) by (simp add: reconcile_def at retE_def)
  next
    case (QueueResume decision)
    then show ?thesis using refused by (auto simp: queue_resume_def at raiseE_def)
  next
    case (Resume decision)
    then show ?thesis using refused by (auto simp: resume_claim_def at raiseE_def)
  next
    case (Apply res)
    then have "r_run_id (sr_run_state res) = i" using assms(3) by simp
    with assms(1,2) show ?thesis
      by (simp add: Apply applied_store) (rule stopped_step, auto simp: run_finished_def)
  qed
qed

section \<open>A run\<close>

text \<open>A run that is stored, with a contract that asks for an output.\<close>

definition asking_run :: run_state where
  "asking_run = send_run\<lparr>r_output_text := ''done'', r_completion_contract := [(''checks'', PList [PDict
     [(''type'', PStr ''output_contains''), (''expected'', PStr ''done'')]])]\<rparr>"

definition stored_world :: "run_status \<Rightarrow> ledger sqlite_store world" where
  "stored_world status = fst (save_checkpoint (demo_local PermALLOW) (asking_run\<lparr>r_status := status\<rparr>)
     (fresh_world send_store))"

definition proposing :: step_result where
  "proposing = propose 0 (asking_run\<lparr>r_sequence := 1, r_updated_at := ''t''\<rparr>) ActCOMPLETE"

lemma demo_load:
  "rt_load (demo_local a) = sqlite_load" "rt_py (demo_local a) = demo_env"
  by (simp_all add: demo_local_def demo_runtime_def)

lemma stored_completed:
  "\<exists>s. sqlite_load demo_env ''root'' (w_store (stored_world RunCOMPLETED)) = Ok (Some s) \<and> run_finished s"
proof -
  have "(case sqlite_load demo_env ''root'' (w_store (stored_world RunCOMPLETED)) of
      Inr (Some s) \<Rightarrow> run_finished s | _ \<Rightarrow> False)" by code_simp
  then show ?thesis by (auto split: sum.splits option.splits)
qed

lemma stored_running:
  "\<exists>s. sqlite_load demo_env ''root'' (w_store (stored_world RunRUNNING)) = Ok (Some s) \<and> r_status s = RunRUNNING"
proof -
  have "(case sqlite_load demo_env ''root'' (w_store (stored_world RunRUNNING)) of
      Inr (Some s) \<Rightarrow> r_status s = RunRUNNING | _ \<Rightarrow> False)" by code_simp
  then show ?thesis by (auto split: sum.splits option.splits)
qed

lemma proposing_completes:
  "\<exists>w' s. apply_next_action (demo_local PermALLOW) proposing (stored_world RunRUNNING) = (w', Done s) \<and>
     r_status s = RunCOMPLETED"
proof -
  have "(case apply_next_action (demo_local PermALLOW) proposing (stored_world RunRUNNING) of
      (w', Done s) \<Rightarrow> r_status s = RunCOMPLETED | _ \<Rightarrow> False)" by code_simp
  then show ?thesis by (auto split: prod.splits outcome.splits)
qed

text \<open>
  C15: What has ended stays as it is: once the durable run is completed, failed or cancelled, no
  sequence of cancellations, interrupts, resumptions, reconciliations and applied steps
  changes anything in the store.
\<close>

theorem finished_run_is_final:
  assumes "rt_load R (rt_py R) i (w_store w) = Ok (Some st)" "run_finished st"
    and "\<forall>op \<in> set ops. concerns i op"
  shows "w_store (fold (operate R mark i) ops w) = w_store w"
  using assms
proof (induction ops arbitrary: w)
  case (Cons op ops)
  from Cons.prems have "w_store (operate R mark i op w) = w_store w"
    by (intro terminal_operation) auto
  with Cons.IH[of "operate R mark i op w"] Cons.prems show ?case by simp
qed simp

theorem finished_run_is_final_witness:
  "w_store (fold (operate (demo_local PermALLOW) (\<lambda>i n s. (sqlite_empty, Ok ())) ''root'')
      [Cancel, Interrupt ''stop'', Resume (Some ''approve''), QueueResume None, Apply proposing]
      (stored_world RunCOMPLETED)) = w_store (stored_world RunCOMPLETED)"
proof -
  obtain s where s: "sqlite_load demo_env ''root'' (w_store (stored_world RunCOMPLETED)) = Ok (Some s)"
    "run_finished s" using stored_completed by blast
  have "r_run_id (sr_run_state proposing) = ''root''"
    by (simp add: proposing_def propose_def asking_run_def send_run_def)
  then show ?thesis
    by (intro finished_run_is_final[where st = s]) (simp_all add: demo_load s)
qed

text \<open>
  C16: Applying the result of a step changes the store only when the run has not ended, was not
  cancelled or interrupted meanwhile, and its latest checkpoint is the one the step was
  computed from.
\<close>

theorem step_applies_to_its_checkpoint:
  assumes "w_store (fst (apply_next_action R res w)) \<noteq> w_store w"
  shows "\<exists>current. rt_load R (rt_py R) (r_run_id (sr_run_state res)) (w_store w) = Ok (Some current) \<and>
    r_status current \<in> {RunRUNNING, RunWAITING_APPROVAL, RunWAITING_CHILD} \<and>
    r_sequence current = r_sequence (sr_run_state res)"
proof -
  have absent: "w_store (fst (apply_action R res w)) = w_store w"
    if "\<forall>x. rt_load R (rt_py R) (r_run_id (sr_run_state res)) (w_store w) \<noteq> Ok (Some x)"
    using that by (cases "rt_load R (rt_py R) (r_run_id (sr_run_state res)) (w_store w)")
      (auto simp: apply_action_def Let_def require_run_def load_run_def readE_def bindE_def raiseE_def
        retE_def split: option.splits)
  with assms obtain current where
    current: "rt_load R (rt_py R) (r_run_id (sr_run_state res)) (w_store w) = Ok (Some current)"
    by (auto simp: applied_store)
  from stopped_step[OF this] assms current show ?thesis
    by (cases "r_status current") (auto simp: applied_store)
qed

theorem step_applies_to_its_checkpoint_witness:
  "\<exists>current. sqlite_load demo_env ''root'' (w_store (stored_world RunRUNNING)) = Ok (Some current) \<and>
     r_sequence current = 1"
proof -
  have "w_store (fst (apply_next_action (demo_local PermALLOW) proposing (stored_world RunRUNNING))) \<noteq>
      w_store (stored_world RunRUNNING)" by code_simp
  from step_applies_to_its_checkpoint[OF this] show ?thesis
    by (auto simp: demo_load proposing_def propose_def asking_run_def send_run_def)
qed

section \<open>Completion\<close>

lemma bindE_Done:
  "bindE m f w = (w', Done a) \<longleftrightarrow> (\<exists>w1 b. m w = (w1, Done b) \<and> f b w1 = (w', Done a))"
proof (cases "m w")
  case (Pair w1 r)
  then show ?thesis by (cases r) (auto simp: bindE_def)
qed

lemma liftR_Done: "liftR r w = (w', Done a) \<longleftrightarrow> r = Ok a \<and> w' = w"
  by (cases r) (auto simp: retE_def raiseE_def)

lemma readE_Done: "readE f w = (w', Done a) \<longleftrightarrow> f (w_store w) = Ok a \<and> w' = w"
  by (auto simp: readE_def liftR_Done)

lemma retE_Done: "retE b w = (w', Done a) \<longleftrightarrow> b = a \<and> w' = w"
  by (auto simp: retE_def)

lemma validated_store: "validate_ownershipE R w = (w', r) \<Longrightarrow> w_store w' = w_store w"
  using frozen_fst[OF frozen_validate, of R w] by simp

text \<open>When the completion of a run is accepted, its contract is empty or was verified.\<close>

definition accepted :: "'s runtime \<Rightarrow> 's \<Rightarrow> run_state \<Rightarrow> bool" where
  "accepted R s st \<longleftrightarrow> r_completion_contract st = [] \<or>
     (\<exists>c attempt. contract_from_dict (rt_py R) (r_completion_contract st) = Ok c \<and>
        attempt = r_completion_verification_attempts st + 1 \<and>
        vr_status (rt_verify R (st\<lparr>r_completion_verification_attempts := attempt\<rparr>) c attempt s)
          \<in> {VERIFIED, NOT_APPLICABLE})"

lemma decide_completes:
  "decide_completion ev = Some ActCOMPLETE \<Longrightarrow> ev_verification ev = Some v \<Longrightarrow>
     v = VERIFIED \<or> v = NOT_APPLICABLE"
  by (auto simp: decide_completion_def Let_def split: if_splits option.splits next_action.splits)

lemma evaluated_complete:
  assumes "evaluate_completion R st b w = (w', Done (st', ActCOMPLETE))"
  shows "accepted R (w_store w) st \<and> w' = w"
proof (cases "r_completion_contract st = []")
  case True
  then show ?thesis using assms by (simp add: evaluate_completion_def retE_Done accepted_def)
next
  case False
  let ?k = "r_completion_verification_attempts st + 1"
  let ?st1 = "st\<lparr>r_completion_verification_attempts := ?k\<rparr>"
  from assms False obtain c where c: "contract_from_dict (rt_py R) (r_completion_contract st) = Ok c"
    by (auto simp: evaluate_completion_def bindE_Done liftR_Done Let_def)
  let ?v = "rt_verify R ?st1 c ?k (w_store w)"
  let ?st2 = "?st1\<lparr>r_completion_verification := verification_to_dict ?v\<rparr>"
  let ?ev = "(evidence_for (r_status ?st2))\<lparr>ev_proposed := Some ActCOMPLETE, ev_verification := Some (vr_status ?v),
      ev_allow_correction := b, ev_attempt := ?k, ev_max_corrections := co_max_correction_attempts c\<rparr>"
  have "decide_completion ?ev = Some ActCOMPLETE \<and> w' = w"
    using assms False c
    by (auto simp: evaluate_completion_def bindE_Done readE_Done retE_Done Let_def
        split: option.splits next_action.splits)
  with decide_completes[of ?ev "vr_status ?v"] c show ?thesis
    by (auto simp: accepted_def)
qed

lemma transition_completes: "transition st action = Ok st' \<Longrightarrow> r_status st' = RunCOMPLETED \<Longrightarrow> action = ActCOMPLETE"
  by (cases action) (auto simp: transition_def split: if_splits option.splits)

lemma saved_status:
  "save_checkpoint (on_sqlite B R) st w = (w', Done st') \<Longrightarrow> r_status st' = r_status st"
  by (auto simp: save_checkpoint_def storeE_def effectE_def bindE_def tickE_def sqlite_save_def advanced_def
      Let_def retE_def raiseE_def liftR_def bindR_def split: option.splits nat.splits sum.splits prod.splits if_splits)

lemma completing_step:
  fixes B :: local_parts and R0 :: "ledger sqlite_store runtime"
  defines "R \<equiv> on_sqlite B R0"
  assumes run: "apply_action R res w = (w', Done (st', ret))" and "r_status ret = RunCOMPLETED"
    and "rt_load R (rt_py R) (r_run_id (sr_run_state res)) (w_store w) = Ok (Some current)"
    and "r_status current \<noteq> RunCOMPLETED" "sr_next_action res = Some proposed"
  shows "accepted R (w_store w) (sr_run_state res)"
proof -
  let ?st = "sr_run_state res"
  note at = require_bind[where R = R and w = w, OF assms(4)]
  have "r_status current \<notin> {RunCANCELLED, RunINTERRUPTED}"
    using run assms(3) by (auto simp: apply_action_def Let_def at retE_Done split: if_splits)
  then obtain w1 where w1: "validate_ownershipE R w = (w1, Done ())" and
    rest: "(if r_status current \<in> {RunCOMPLETED, RunFAILED} then retE (?st, current)
        else if r_sequence current \<noteq> r_sequence ?st
        then raiseE (CheckpointConflictError (''stale StepResult for run '' @ r_run_id ?st
               @ '': expected sequence '' @ int_repr (r_sequence ?st) @ '', current sequence ''
               @ int_repr (r_sequence current)))
        else case sr_next_action res of
               None \<Rightarrow> retE (?st, ?st)
             | Some proposed \<Rightarrow>
                 bindE (if proposed = ActCOMPLETE
                        then evaluate_completion R ?st (r_execution_strategy ?st = ''react'')
                        else retE (?st, proposed)) (\<lambda>(st1, action).
                 bindE (liftR (transition st1 action)) (\<lambda>st2.
                 bindE (liftR (states_differ current st2)) (\<lambda>differ.
                 bindE (if differ then save_checkpoint R st2 else retE st2) (\<lambda>st3.
                 retE (st3, st3)))))) w1 = (w', Done (st', ret))"
    using run by (auto simp: apply_action_def Let_def at bindE_Done)
  have store: "w_store w1 = w_store w" by (rule validated_store[OF w1])
  have "r_status current \<noteq> RunFAILED" using rest assms(3) by (auto simp: retE_Done split: if_splits)
  moreover have "r_sequence current = r_sequence ?st"
    using rest assms(5) calculation by (auto simp: raiseE_def split: if_splits)
  ultimately obtain st1 action st2 w2 differ w3 where
    decided: "(if proposed = ActCOMPLETE then evaluate_completion R ?st (r_execution_strategy ?st = ''react'')
         else retE (?st, proposed)) w1 = (w2, Done (st1, action))"
    and moved: "transition st1 action = Ok st2"
    and saved: "(if differ then save_checkpoint R st2 else retE st2) w2 = (w3, Done ret)"
    using rest assms(5,6) by (auto simp: bindE_Done liftR_Done retE_Done)
  have "r_status st2 = RunCOMPLETED"
    using saved assms(3) saved_status[of B R0 st2 w2] by (cases differ) (auto simp: R_def retE_Done)
  from transition_completes[OF moved this] have "action = ActCOMPLETE" .
  with decided have "proposed = ActCOMPLETE" by (auto simp: retE_Done split: if_splits)
  with decided \<open>action = ActCOMPLETE\<close> evaluated_complete[of R ?st _ w1 w2 st1] store
  show ?thesis by auto
qed

lemma apply_next_action_Done:
  "apply_next_action R res w = (w', Done ret) \<Longrightarrow> \<exists>st'. apply_action R res w = (w', Done (st', ret))"
  by (auto simp: apply_next_action_def bindE_Done retE_Done)

definition next_verification :: "run_state \<Rightarrow> run_state" where
  "next_verification st = st\<lparr>r_completion_verification_attempts := r_completion_verification_attempts st + 1\<rparr>"

text \<open>
  C14: A run completes only when its completion contract is met: when the applied step leaves
  it completed, either it has no contract, or the contract names no check, or every check
  could be evaluated on the durable evidence and every required one passed.
\<close>

theorem completion_requires_the_contract:
  assumes "apply_next_action (on_sqlite B R) res w = (w', Done st')" "r_status st' = RunCOMPLETED"
    and "sqlite_load (rt_py R) (r_run_id (sr_run_state res)) (w_store w) = Ok (Some current)"
    and "r_status current \<noteq> RunCOMPLETED" "sr_next_action res = Some proposed"
  shows "r_completion_contract (sr_run_state res) = [] \<or>
    (\<exists>k. contract_from_dict (rt_py R) (r_completion_contract (sr_run_state res)) = Ok k \<and>
       (co_checks k = [] \<or>
        contract_met (sqlite_verifier (rt_py R) (lp_files B) (w_store w)) RunCOMPLETED
          (next_verification (sr_run_state res)) k))"
proof -
  from apply_next_action_Done[OF assms(1)] obtain s where
    "apply_action (on_sqlite B R) res w = (w', Done (s, st'))" ..
  from completing_step[OF this assms(2) _ assms(4,5)] assms(3)
  have "accepted (on_sqlite B R) (w_store w) (sr_run_state res)" by simp
  moreover have "rt_verify (on_sqlite B R) = (\<lambda>st c k s.
      verify_completion (sqlite_verifier (rt_py R) (lp_files B) s) RunCOMPLETED st c k)"
    by (simp add: on_sqlite_def Let_def)
  ultimately show ?thesis
    by (auto simp: accepted_def verified_status not_applicable_status next_verification_def)
qed

theorem completion_requires_the_contract_witness:
  "\<exists>k. contract_from_dict demo_env (r_completion_contract asking_run) = Ok k \<and>
     (co_checks k = [] \<or>
      contract_met (sqlite_verifier demo_env (lp_files demo_parts) (w_store (stored_world RunRUNNING))) RunCOMPLETED
        (next_verification (sr_run_state proposing)) k)"
proof -
  obtain w' s where run: "apply_next_action (on_sqlite demo_parts (demo_runtime PermALLOW)) proposing
      (stored_world RunRUNNING) = (w', Done s)" "r_status s = RunCOMPLETED"
    using proposing_completes by (auto simp: demo_local_def)
  obtain c where c: "sqlite_load demo_env ''root'' (w_store (stored_world RunRUNNING)) = Ok (Some c)"
    "r_status c = RunRUNNING" using stored_running by blast
  have res: "r_run_id (sr_run_state proposing) = ''root''" "sr_next_action proposing = Some ActCOMPLETE"
    "r_completion_contract (sr_run_state proposing) = r_completion_contract asking_run"
    "r_completion_contract asking_run \<noteq> []" "rt_py (demo_runtime PermALLOW) = demo_env"
    by (simp_all add: proposing_def propose_def asking_run_def send_run_def demo_runtime_def)
  from completion_requires_the_contract[OF run, of c ActCOMPLETE] c res show ?thesis by simp
qed

end
