(* ===== verification/ReactProps.thy ===== *)
theory ReactProps
  imports React ToolTotal RuntimeProps ContextProps
begin

text \<open>
  The model step and the steps of the ReAct loop: a model step always ends, the attempts it makes
  are numbered upwards from the ones already recorded and bounded by the retry policy, and a step
  starts only for a run that its durable record lets run.
\<close>

section \<open>A model step ends\<close>

lemma halts_try [halts_intros]: "halts m \<Longrightarrow> halts (tryE m)"
  unfolding tryE_def by (intro halts_intros)

lemma halts_model_parts [halts_intros]:
  "halts (unaccounted M st op usage f)" "halts (chat_call R M st op k ms)" "halts (fail_step R st)"
  by (unfold unaccounted_def chat_call_def fail_step_def apply_next_action_def Let_def) (intro halts_intros)+

lemma halts_settle_call [halts_intros]: "halts (settle_call M st ps op answer)"
  unfolding settle_call_def by (cases answer; simp only: collected.case; intro halts_intros)

lemma halts_model_call [halts_intros]:
  "halts (reserved_call R M st ps ms op k)" "halts (model_call R M st k)"
  by (unfold reserved_call_def model_call_def Let_def) (intro halts_intros)+

lemma halts_model_failed [halts_intros]:
  "halts (model_retry_decision R st k f)" "halts (model_failed R st k f)" "halts (model_attempt R M st k)"
  by (unfold model_retry_decision_def model_failed_def model_attempt_def apply_next_action_def Let_def)
    (intro halts_intros)+

lemma halts_resume [halts_intros]: "halts (resume_model_retry R st)"
  unfolding resume_model_retry_def Let_def
  by (intro halts_intros; cases "dict_get (persisted_retry st) ''next_retry_at''"; simp only: pyval.case;
      intro halts_intros)

section \<open>The calls of the model\<close>

text \<open>The attempts made since \<open>c0\<close>: numbered upwards, after \<open>n0\<close> and up to \<open>n\<close>.\<close>

definition asked :: "(string \<times> int) list \<Rightarrow> int \<Rightarrow> int \<Rightarrow> 's \<Rightarrow> (string \<times> int) list \<Rightarrow> bool" where
  "asked c0 n0 n s c \<longleftrightarrow> (\<exists>cs. c = c0 @ cs \<and> sorted_wrt (<) (map snd cs) \<and> (\<forall>x \<in> set cs. n0 < snd x \<and> snd x \<le> n))"

lemma asked_start: "asked c0 n0 n s c0"
  by (simp add: asked_def)

lemma asked_mono: "asked c0 n0 n s c \<Longrightarrow> n \<le> n' \<Longrightarrow> asked c0 n0 n' s c"
  by (fastforce simp: asked_def)

lemma asked_later: "on_world (asked c0 n0 n) w \<Longrightarrow> n \<le> n' \<Longrightarrow> on_world (asked c0 n0 n') w"
  unfolding on_world_def by (rule asked_mono)

lemma asked_snoc: "asked c0 n0 (n - 1) s c \<Longrightarrow> n0 < n \<Longrightarrow> asked c0 n0 n s (c @ [(i, n)])"
  unfolding asked_def
proof (elim exE conjE)
  fix cs assume c: "c = c0 @ cs" "sorted_wrt (<) (map snd cs)" "\<forall>x\<in>set cs. n0 < snd x \<and> snd x \<le> n - 1" "n0 < n"
  then show "\<exists>cs. c @ [(i, n)] = c0 @ cs \<and> sorted_wrt (<) (map snd cs) \<and> (\<forall>x\<in>set cs. n0 < snd x \<and> snd x \<le> n)"
    by (intro exI[of _ "cs @ [(i, n)]"]) (fastforce simp: sorted_wrt_append)
qed

abbreviation asked_by :: "(string \<times> int) list \<Rightarrow> int \<Rightarrow> int \<Rightarrow> 's world \<Rightarrow> bool" where
  "asked_by c0 n0 n \<equiv> on_world (asked c0 n0 n)"

text \<open>Whatever only depends on the history of calls is kept by all that does not call.\<close>

lemma asked_writes: "run_writes R (asked c0 n0 n)"
  by unfold_locales (simp_all add: asked_def)

lemma asked_store: "keeps (asked c0 n0 n) (storeE f)"
  by (rule keeps_store) (simp add: asked_def)

lemma keeps_try: "keeps J m \<Longrightarrow> keeps J (tryE m)"
  unfolding tryE_def by (intro keeps_catch keeps_intros)

lemmas asked_parts = asked_store run_writes.keeps_save_checkpoint[OF asked_writes]
  run_writes.keeps_apply_action[OF asked_writes] run_writes.keeps_fail[OF asked_writes]

lemma asked_apply: "keeps (asked c0 n0 n) (apply_next_action R res)"
  unfolding apply_next_action_def by (intro keeps_intros asked_parts)

lemma asked_unaccounted: "keeps (asked c0 n0 n) (unaccounted M st op usage f)"
  unfolding unaccounted_def by (intro keeps_intros asked_parts)

lemma asked_settle: "keeps (asked c0 n0 n) (settle_call M st ps op answer)"
  unfolding settle_call_def
  by (auto split: collected.split sum.split intro!: keeps_intros keeps_try asked_parts asked_unaccounted)

lemma asked_decision: "keeps (asked c0 n0 n) (model_retry_decision R st k f)"
  unfolding model_retry_decision_def Let_def
  by (auto split: sum.split intro!: keeps_intros asked_parts)

lemma keepsT: "keeps J m \<Longrightarrow> triple (on_world J) m (\<lambda>_. on_world J) (on_world J)"
  by (simp add: keeps_def)

lemma later:
  assumes "triple (asked_by c0 n0 n) m Q X"
  shows "n' \<le> n \<Longrightarrow> triple (asked_by c0 n0 n') m Q X"
  using assms by (elim triple_weaken) (auto simp: on_world_def elim: asked_mono)

lemma chat_asked:
  assumes "n0 < k"
  shows "triple (asked_by c0 n0 (k - 1)) (chat_call R M st op k ms) (\<lambda>_. asked_by c0 n0 k) (asked_by c0 n0 k)"
  unfolding chat_call_def
proof (rule triple_effect)
  show "triple (asked_by c0 n0 (k - 1)) (bindE (logE op k) (\<lambda>_. bindE tickE (\<lambda>n.
      retE (collect_llm_response (rt_py R) (r_agent_turn st) (ml_chat M n ms)))))
    (\<lambda>_. asked_by c0 n0 k) (asked_by c0 n0 k)"
  proof (rule triple_bind)
    show "triple (asked_by c0 n0 (k - 1)) (logE op k) (\<lambda>_. asked_by c0 n0 k) (asked_by c0 n0 k)"
      using assms by (auto simp: triple_def logE_def on_world_def intro: asked_snoc)
    show "triple (asked_by c0 n0 k) (bindE tickE (\<lambda>n. retE (collect_llm_response (rt_py R)
        (r_agent_turn st) (ml_chat M n ms)))) (\<lambda>_. asked_by c0 n0 k) (asked_by c0 n0 k)"
      by (rule keepsT) (intro keeps_intros)
  qed
next
  show "asked_by c0 n0 (k - 1) w \<Longrightarrow> asked_by c0 n0 k w" for w
    unfolding on_world_def by (erule asked_mono) simp
qed simp

lemma before_call:
  assumes "keeps (asked c0 n0 (k - 1)) m"
  shows "triple (asked_by c0 n0 (k - 1)) m (\<lambda>_. asked_by c0 n0 (k - 1)) (asked_by c0 n0 k)"
  by (rule triple_weaken[OF keepsT[OF assms]]) (auto simp: on_world_def elim: asked_mono)

lemma reserved_asked:
  assumes "n0 < k"
  shows "triple (asked_by c0 n0 (k - 1)) (reserved_call R M st ps ms op k) (\<lambda>_. asked_by c0 n0 k) (asked_by c0 n0 k)"
  unfolding reserved_call_def
proof (rule triple_bind)
  show "triple (asked_by c0 n0 (k - 1)) (tryE (storeE (\<lambda>n. rt_ensure_wall_time R n st)))
      (\<lambda>_. asked_by c0 n0 (k - 1)) (asked_by c0 n0 k)"
    by (rule before_call[OF keeps_try[OF asked_store]])
  note no_call = later[OF keepsT[OF asked_unaccounted], of "k - 1" k]
  show "triple (asked_by c0 n0 (k - 1)) (case r of
       Inl e \<Rightarrow> unaccounted M st op no_usage (CallFailed e)
     | Inr remaining \<Rightarrow>
         if deadline_exhausted \<lparr>configured_timeout_seconds = ml_timeout M, remaining_run_seconds = remaining\<rparr>
         then unaccounted M st op no_usage (CallFailed (TimeoutErr ''LLM operation deadline exhausted''))
         else bindE (chat_call R M st op k ms) (\<lambda>answer. settle_call M st ps op answer))
     (\<lambda>_. asked_by c0 n0 k) (asked_by c0 n0 k)" for r
    by (auto split: sum.split intro!: no_call triple_bind[OF chat_asked[OF assms]] keepsT asked_settle)
qed

lemma call_asked:
  assumes "n0 < k"
  shows "triple (asked_by c0 n0 (k - 1)) (model_call R M st k) (\<lambda>_. asked_by c0 n0 k) (asked_by c0 n0 k)"
  unfolding model_call_def Let_def
  by (auto split: prod.split sum.split intro!: later[OF keepsT[OF keeps_ret]] triple_bind[OF before_call[OF keeps_tick]]
      triple_bind[OF before_call[OF keeps_try[OF asked_store]]] reserved_asked[OF assms])

section \<open>The attempts of a step\<close>

text \<open>The run goes on after attempt \<open>k\<close> only when the policy allows another.\<close>

definition allowed_after :: "'s runtime \<Rightarrow> int \<Rightarrow> run_state + run_state \<Rightarrow> bool" where
  "allowed_after R k x \<longleftrightarrow> (\<forall>s. x = Inr s \<longrightarrow> k < max_attempts (rt_retry_policy R))"

lemma allowed_ended: "allowed_after R k (Inl s)"
  by (simp add: allowed_after_def)

lemma decision_allows:
  assumes "keeps J (model_retry_decision R st k f)"
  shows "triple (on_world J) (model_retry_decision R st k f)
     (\<lambda>x w. on_world J w \<and> (rd_retry (snd x) \<longrightarrow> k < max_attempts (rt_retry_policy R))) (on_world J)"
proof (rule tripleI)
  fix w w' r
  assume J: "on_world J w" and run: "model_retry_decision R st k f w = (w', r)"
  have "rd_retry (snd x) \<Longrightarrow> k < max_attempts (rt_retry_policy R)" if "r = Done x" for x
    using run that
    by (auto simp: model_retry_decision_def Let_def bindE_def retE_def liftR_def raiseE_def
        RetryDecision_def
        split: if_splits prod.splits outcome.splits sum.splits dest: decide_retry_permits)
  with triple_apply[OF keepsT[OF assms] J run]
  show "case r of Done x \<Rightarrow> on_world J w' \<and> (rd_retry (snd x) \<longrightarrow> k < max_attempts (rt_retry_policy R))
      | _ \<Rightarrow> on_world J w'"
    by (cases r) auto
qed

lemma failed_asked:
  "triple (asked_by c0 n0 k) (model_failed R st k f)
     (\<lambda>x w. asked_by c0 n0 k w \<and> allowed_after R k x) (asked_by c0 n0 k)"
  unfolding model_failed_def Let_def
proof (rule triple_bind[OF keepsT])
  show "keeps (asked c0 n0 k) (case failure_budget f of None \<Rightarrow> retE ()
      | Some e \<Rightarrow> storeE (\<lambda>n. rt_record_hard R n st e))"
    by (auto split: option.split intro!: keeps_intros asked_store)
qed (auto split: prod.split intro!: triple_bind[OF decision_allows[OF asked_decision]] triple_pure
    triple_bind[OF keepsT[OF keeps_tick]] triple_bind[OF keepsT[OF asked_parts(2)]] triple_if
    triple_bind[OF keepsT[OF asked_apply]] triple_ret simp: allowed_after_def)

lemma attempt_asked:
  assumes "n0 < k"
  shows "triple (asked_by c0 n0 (k - 1)) (model_attempt R M st k)
     (\<lambda>x w. asked_by c0 n0 k w \<and> allowed_after R k x) (asked_by c0 n0 k)"
  unfolding model_attempt_def
proof (rule triple_bind[OF before_call])
  show "keeps (asked c0 n0 (k - 1)) (case r_error st of
      Some e \<Rightarrow> if 1 < k then save_checkpoint R (st\<lparr>r_error := Some (retry_started k e)\<rparr>) else retE st
    | None \<Rightarrow> retE st)"
    by (auto split: option.split intro!: keeps_intros asked_parts)
next
  fix st1
  show "triple (asked_by c0 n0 (k - 1)) (bindE (model_call R M st1 k) (\<lambda>(st2, r).
     case r of
       Inl f \<Rightarrow> model_failed R st2 k f
     | Inr a \<Rightarrow> bindE (save_checkpoint R (answered a st2)) (\<lambda>s. retE (Inl s))))
     (\<lambda>x w. asked_by c0 n0 k w \<and> allowed_after R k x) (asked_by c0 n0 k)"
    by (rule triple_bind[OF call_asked[OF assms]])
      (auto split: prod.split sum.split intro!: failed_asked triple_bind[OF keepsT[OF asked_parts(2)]] triple_ret
        allowed_ended)
qed

lemma attempts_asked:
  "n0 \<le> k \<Longrightarrow> triple (asked_by c0 n0 k) (model_attempts fuel R M st k)
     (\<lambda>_. asked_by c0 n0 (max (k + 1) (max_attempts (rt_retry_policy R))))
     (asked_by c0 n0 (max (k + 1) (max_attempts (rt_retry_policy R))))"
proof (induction fuel arbitrary: st k)
  case 0
  show ?case by (auto simp: triple_def on_world_def elim!: asked_mono)
next
  case (Suc fuel)
  let ?n = "max (k + 1) (max_attempts (rt_retry_policy R))"
  have attempt: "triple (asked_by c0 n0 k) (model_attempt R M st (k + 1))
      (\<lambda>x w. asked_by c0 n0 (k + 1) w \<and> allowed_after R (k + 1) x) (asked_by c0 n0 ?n)"
    by (rule triple_weaken[OF attempt_asked[of n0 "k + 1"]])
      (use Suc.prems in \<open>auto simp: on_world_def elim: asked_mono\<close>)
  show ?case
    unfolding model_attempts.simps
  proof (rule triple_bind[OF attempt], rule triple_pure)
    fix x assume x: "allowed_after R (k + 1) x"
    show "triple (asked_by c0 n0 (k + 1)) (case x of Inl s \<Rightarrow> retE s | Inr s \<Rightarrow> model_attempts fuel R M s (k + 1))
        (\<lambda>_. asked_by c0 n0 ?n) (asked_by c0 n0 ?n)"
    proof (cases x)
      case (Inl s)
      then show ?thesis by (auto intro!: triple_ret elim: asked_later)
    next
      case (Inr s)
      with x have "max (k + 1 + 1) (max_attempts (rt_retry_policy R)) = ?n" by (auto simp: allowed_after_def)
      with Suc.IH[of "k + 1" s] Suc.prems Inr show ?thesis by simp
    qed
  qed
qed

lemma attempt_again:
  assumes "model_attempt R M st k w = (w', Done (Inr s))"
  shows "k < max_attempts (rt_retry_policy R)"
proof -
  have "asked_by (w_calls w) (k - 1) (k - 1) w" by (simp add: on_world_def asked_start)
  from triple_apply[OF attempt_asked this assms] show ?thesis by (simp add: allowed_after_def)
qed

lemma model_attempts_end:
  "max_attempts (rt_retry_policy R) - k < int fuel \<Longrightarrow> 0 < fuel \<Longrightarrow> halts (model_attempts fuel R M st k)"
proof (induction fuel arbitrary: st k)
  case (Suc fuel)
  show ?case
    unfolding ends_def
  proof (intro allI impI)
    fix w
    obtain w1 r where m: "model_attempt R M st (k + 1) w = (w1, r)" by fastforce
    have r: "r \<noteq> OutOfFuel" using halts_model_failed(3)[of R M st "k + 1"] m unfolding ends_def by (metis snd_conv)
    show "snd (model_attempts (Suc fuel) R M st k w) \<noteq> OutOfFuel"
    proof (cases r)
      case (Done x)
      show ?thesis
      proof (cases x)
        case (Inl s)
        then show ?thesis using Done m by (simp add: bindE_def retE_def)
      next
        case (Inr s)
        then have "k + 1 < max_attempts (rt_retry_policy R)" using m Done by (auto dest: attempt_again)
        with Suc.prems Suc.IH[of "k + 1" s] Done Inr m show ?thesis by (simp add: bindE_def ends_def)
      qed
    qed (use r m in \<open>simp_all add: bindE_def\<close>)
  qed
qed simp

section \<open>The step\<close>

text \<open>The attempts a durable record of the call says were made.\<close>

definition recorded_attempts :: "'s runtime \<Rightarrow> run_state \<Rightarrow> int" where
  "recorded_attempts R st =
     (if persisted_retry st = [] then 0
      else case py_int (rt_py R) (py_or (dict_get (persisted_retry st) ''attempt_count'') (PInt 0)) of
        Inl e \<Rightarrow> 0 | Inr k \<Rightarrow> k)"

definition resumed_at :: "int \<Rightarrow> run_state + int \<Rightarrow> bool" where
  "resumed_at k x \<longleftrightarrow> (\<forall>j. x = Inr j \<longrightarrow> j = k)"

lemma resumed_at_simps [simp]: "resumed_at k (Inl s)" "resumed_at k (Inr j) = (j = k)"
  by (auto simp: resumed_at_def)

lemma fail_step_asked:
  "triple (asked_by c0 n0 n) (fail_step R st) (\<lambda>x w. asked_by c0 n0 n w \<and> resumed_at k x) (asked_by c0 n0 n)"
  unfolding fail_step_def
  by (rule triple_bind[OF keepsT[OF asked_apply]]) (auto intro: triple_ret)

lemma resume_asked:
  "triple (asked_by c0 n0 n) (resume_model_retry R st)
     (\<lambda>x w. asked_by c0 n0 n w \<and> resumed_at (recorded_attempts R st) x) (asked_by c0 n0 n)"
proof (cases "persisted_retry st = []")
  case True
  then show ?thesis by (auto simp: resume_model_retry_def recorded_attempts_def intro!: triple_ret)
next
  case False
  let ?d = "dict_get (persisted_retry st) ''next_retry_at''"
  let ?count = "py_int (rt_py R) (py_or (dict_get (persisted_retry st) ''attempt_count'') (PInt 0))"
  show ?thesis
  proof (cases ?count)
    case (Inl e)
    then show ?thesis using False
      by (auto simp: resume_model_retry_def Let_def intro!: triple_raise)
  next
    case (Inr k)
    then have k: "recorded_attempts R st = k" using False by (simp add: recorded_attempts_def)
    show ?thesis
      unfolding resume_model_retry_def Let_def if_not_P[OF False] Inr k
      by (cases ?d) (auto intro!: triple_if fail_step_asked triple_bind[OF keepsT[OF keeps_tick]]
        triple_bind[OF keepsT[OF asked_store]] triple_ret)
  qed
qed

lemma step_asked:
  fixes R :: "'s runtime" and st :: run_state
  defines "n \<equiv> max (recorded_attempts R st + 1) (max_attempts (rt_retry_policy R))"
  shows "triple (asked_by c0 (recorded_attempts R st) (recorded_attempts R st)) (execute_llm_step R M st)
     (\<lambda>_. asked_by c0 (recorded_attempts R st) n) (asked_by c0 (recorded_attempts R st) n)"
proof -
  let ?k = "recorded_attempts R st"
  have up: "asked_by c0 ?k n w" if "asked_by c0 ?k ?k w" for w :: "'s world"
    using that by (rule asked_later) (simp add: n_def)
  have weak: "triple (asked_by c0 ?k ?k) m Q (asked_by c0 ?k n)"
    if "triple (asked_by c0 ?k ?k) m Q (asked_by c0 ?k ?k)" for m :: "('s, run_state + int) eff" and Q
    using that by (elim triple_weaken) (auto intro: up)
  have weak': "triple (asked_by c0 ?k ?k) m (\<lambda>_. asked_by c0 ?k ?k) (asked_by c0 ?k n)"
    if "keeps (asked c0 ?k ?k) m" for m :: "('s, exn + unit) eff"
    using keepsT[OF that] by (elim triple_weaken) (auto intro: up)
  have fail: "triple (asked_by c0 ?k ?k) (fail_run R st c step) (\<lambda>_. asked_by c0 ?k n) (asked_by c0 ?k n)" for c step
    by (rule triple_weaken[OF keepsT[OF asked_parts(5)]]) (auto intro: up)
  have rest: "triple (\<lambda>w. asked_by c0 ?k ?k w \<and> resumed_at ?k x)
      (case x of Inl s \<Rightarrow> retE s | Inr k \<Rightarrow> model_attempts (model_fuel R k) R M st k)
      (\<lambda>_. asked_by c0 ?k n) (asked_by c0 ?k n)" for x
    using attempts_asked[of ?k ?k c0 "model_fuel R ?k" R M st]
    by (cases x) (auto simp: n_def intro!: triple_pure triple_ret dest: up[unfolded n_def])
  show ?thesis
    unfolding execute_llm_step_def
    by (rule triple_bind[OF weak'])
      (auto split: sum.split intro!: keeps_intros asked_parts fail triple_bind[OF weak[OF resume_asked]] rest[unfolded sum.case])
qed

section \<open>What a step promises\<close>

text \<open>
  The model's budget operations on the local store, as \<^verbatim>\<open>DurableAgentRuntime\<close> calls its budget
  manager.
\<close>

definition model_on_sqlite :: "local_parts \<Rightarrow> ledger sqlite_store model_services \<Rightarrow> ledger sqlite_store model_services" where
  "model_on_sqlite B M = (let load = sqlite_load_ledger; save = sqlite_save_ledger None in
     M\<lparr>ml_reserve := (\<lambda>n st op estimate s.
          dropped (reserve_model load save no_others (lp_clock B n 0) st op estimate s)),
       ml_complete := (\<lambda>n st op u s. dropped (complete_model load save no_others (lp_clock B n 0) st op
          (us_input u) (us_output u) (us_cached u) (us_reasoning u) s))\<rparr>)"

text \<open>A model whose first answer times out and whose second is \<open>done\<close>.\<close>

definition demo_model :: "ledger sqlite_store model_services" where
  "demo_model = \<lparr>ml_chat = (\<lambda>n ms. if n < 5 then ([], StreamTimedOut)
       else ([[(''type'', PStr ''text_delta''), (''text'', PStr ''done'')]], StreamDone)),
     ml_timeout = 60, ml_system = ''s'', ml_definitions = [],
     ml_context = demo_tools\<lparr>ct_estimate := (\<lambda>ms system tools. int (length ms))\<rparr>,
     ml_policy = demo_context_policy, ml_call_id = nat_text,
     ml_reserve = (\<lambda>n st op k s. (s, Ok ())), ml_complete = (\<lambda>n st op u s. (s, Ok ()))\<rparr>"

definition asking_world :: "ledger sqlite_store world" where
  "asking_world = fresh_world send_store"

definition loaded_run :: run_state where
  "loaded_run = demo_run\<lparr>r_run_id := ''root''\<rparr>"

definition demo_step :: "ledger sqlite_store world \<times> run_state outcome" where
  "demo_step = execute_llm_step (demo_runtime PermALLOW) demo_model loaded_run asking_world"

text \<open>
  C4: A model step always ends, with a run state, an exception, a cancellation or the death of the
  process, for every model client, store, clock and budget, and for every durable record of earlier
  attempts: the loop of retries never goes on for ever.
\<close>

theorem llm_step_ends: "snd (execute_llm_step R M st w) \<noteq> OutOfFuel"
proof -
  have "halts (model_attempts (model_fuel R k) R M st k)" for k
    by (rule model_attempts_end) (auto simp: model_fuel_def)
  then have "halts (execute_llm_step R M st)"
    unfolding execute_llm_step_def by (intro halts_intros)
  then show ?thesis by (simp add: ends_def)
qed



section \<open>When a step starts\<close>

lemma done_bind:
  assumes "bindE m f w = (w', Done b)"
  obtains w1 a where "m w = (w1, Done a)" "f a w1 = (w', Done b)"
  using assms by (auto simp: bindE_def split: prod.splits outcome.splits)

lemma done_ret: "retE a w = (w', Done b) \<Longrightarrow> w' = w \<and> b = a"
  by (simp add: retE_def)

lemma require_done:
  assumes "require_run R i w = (w', Done st)"
  shows "w' = w \<and> rt_load R (rt_py R) i (w_store w) = Ok (Some st)"
  using assms
  by (auto simp: require_run_def load_run_def bindE_def readE_def liftR_def retE_def raiseE_def
      split: sum.splits option.splits)

text \<open>No ancestor within the bound of the model is cancelled.\<close>

definition lineage_running :: "'s runtime \<Rightarrow> run_state \<Rightarrow> 's \<Rightarrow> bool" where
  "lineage_running R st s \<longleftrightarrow> r_parent_run_id st = None \<or>
     cancelled_ancestor_of (\<lambda>i. rt_load R (rt_py R) i s) (rt_lineage R) [r_run_id st] (r_parent_run_id st)
       = Some (Ok None)"

lemma reconcile_done:
  assumes "reconcile R i w = (w', Done st)" "r_status st = RunRUNNING"
    and "\<And>w w' s. cancel_durable R i w = (w', Done s) \<Longrightarrow> r_status s \<noteq> RunRUNNING"
  shows "w' = w \<and> rt_load R (rt_py R) i (w_store w) = Ok (Some st) \<and> lineage_running R st (w_store w)"
proof -
  from assms(1) obtain w1 st1 where req: "require_run R i w = (w1, Done st1)"
    and rest: "(if run_finished st1 \<or> r_parent_run_id st1 = None then retE st1
      else bindE (find_cancelled_ancestor R st1) (\<lambda>a. case a of None \<Rightarrow> retE st1 | Some _ \<Rightarrow> cancel_durable R i)) w1
      = (w', Done st)"
    unfolding reconcile_def by (elim done_bind)
  note loaded = require_done[OF req]
  show ?thesis
  proof (cases "run_finished st1 \<or> r_parent_run_id st1 = None")
    case True
    with rest have "w' = w1" "st = st1" by (auto simp: retE_def)
    with True loaded assms(2) show ?thesis by (auto simp: lineage_running_def run_finished_def)
  next
    case False
    with rest obtain w2 a where find: "find_cancelled_ancestor R st1 w1 = (w2, Done a)"
      and after: "(case a of None \<Rightarrow> retE st1 | Some _ \<Rightarrow> cancel_durable R i) w2 = (w', Done st)"
      by (auto elim: done_bind)
    show ?thesis
    proof (cases a)
      case None
      with find after loaded show ?thesis
        by (auto simp: find_cancelled_ancestor_def lineage_running_def retE_def liftR_def raiseE_def
            split: option.splits sum.splits)
    next
      case (Some x)
      with after assms(2,3) show ?thesis by auto
    qed
  qed
qed

lemma cancelled_done:
  assumes "cancel_durable R i w = (w', Done s)"
    and hook: "\<And>st w w' t. rt_on_cancel R st w = (w', Done t) \<Longrightarrow> r_status t = r_status st"
    and save: "\<And>E own st x. r_status (fst (snd (rt_save R E own st x))) = r_status st"
  shows "r_status s \<noteq> RunRUNNING"
proof -
  from assms(1) obtain w1 st where
    rest: "(if r_status st = RunCANCELLED then retE st
      else if r_status st \<in> {RunCOMPLETED, RunFAILED}
      then raiseE (ValueError (''run in '' @ run_status_value (r_status st) @ '' cannot be cancelled''))
      else bindE (rt_on_cancel R (st\<lparr>r_status := RunCANCELLED, r_interrupt := None\<rparr>)) (\<lambda>st1.
           bindE (save_checkpoint R st1) (\<lambda>st2. bindE (rt_after_cancel R st2) (\<lambda>_. retE st2)))) w1
      = (w', Done s)"
    unfolding cancel_durable_def by (elim done_bind)
  have saved: "r_status t' = r_status t" if "save_checkpoint R t v = (v', Done t')" for t t' v v'
    using that save[of _ "rt_ownership R" t]
    by (auto simp: save_checkpoint_def storeE_def effectE_def bindE_def tickE_def liftR_def retE_def raiseE_def
        bindR_def split: option.splits nat.splits sum.splits prod.splits) (metis fst_conv snd_conv)+
  show ?thesis
  proof (cases "r_status st = RunCANCELLED \<or> r_status st \<in> {RunCOMPLETED, RunFAILED}")
    case True
    with rest show ?thesis by (auto simp: retE_def raiseE_def split: if_splits)
  next
    case False
    with rest obtain w2 st1 w3 st2 w4 where
      "rt_on_cancel R (st\<lparr>r_status := RunCANCELLED, r_interrupt := None\<rparr>) w1 = (w2, Done st1)"
      "save_checkpoint R st1 w2 = (w3, Done st2)" "retE st2 w4 = (w', Done s)"
      by (auto elim!: done_bind)
    with hook saved show ?thesis by (fastforce dest: done_ret)
  qed
qed

lemma validate_done:
  assumes "validate_ownershipE R w = (w', Done ())"
  shows "w_store w' = w_store w \<and>
    (\<forall>own. rt_ownership R = Some own \<longrightarrow> rt_validate R (w_tick w) own (w_store w) = Ok ())"
  using assms
  by (auto simp: validate_ownershipE_def bindE_def tickE_def readE_def liftR_def retE_def raiseE_def
      split: option.splits sum.splits)

lemma refresh_done:
  assumes "refresh R st w = (w', Done st1)" "r_status st1 = RunRUNNING"
  shows "st1 = st \<and> w_store w' = w_store w \<and>
    (\<forall>own. rt_ownership R = Some own \<longrightarrow> rt_validate R (w_tick w) own (w_store w) = Ok ())"
proof -
  from assms(1) obtain w1 u w2 current where v: "validate_ownershipE R w = (w1, Done u)"
    and req: "require_run R (r_run_id st) w1 = (w2, Done current)"
    and rest: "(if r_sequence current = r_sequence st then retE st
      else if r_status current \<noteq> RunRUNNING then retE current
      else raiseE (RuntimeErr (''run '' @ r_run_id st @ '' was concurrently advanced''))) w2 = (w', Done st1)"
    unfolding refresh_def by (elim done_bind)
  from rest assms(2) have "st1 = st" "w' = w2" by (auto simp: retE_def raiseE_def split: if_splits)
  with validate_done[of R w w1] v require_done[OF req] show ?thesis by simp
qed



end
