(* ===== verification/PlanStrategy.thy ===== *)
theory PlanStrategy
  imports PlanSchedule React ChildPool
begin

text \<open>
  \<^verbatim>\<open>PlanExecuteStrategy\<close> of \<^verbatim>\<open>runtime/plan_strategy.py\<close>: the step of a run that is executed as a plan
  of child runs, with every handler it calls. It begins with the planner and its model
  (\<^verbatim>\<open>plan/planner.py\<close>): which goals need no model, the prompts, the collection of the answer, and the
  charge of the call. Observations that the code gathers are made one after the other in the order
  of the plan; the effects of a child count when it completes.
\<close>

section \<open>Goals without a model\<close>

text \<open>The cue words of the source are Chinese; the model takes the lists.\<close>

record goal_words =
  gw_steps :: "string list"
  gw_simple :: "string list"
  gw_open :: "string list"
  gw_file :: string
  gw_write :: "string list"
  gw_analyse :: "string list"
  gw_verify :: "string list"
  gw_summary :: string

definition is_simple_goal :: "goal_words \<Rightarrow> string \<Rightarrow> bool" where
  "is_simple_goal W goal =
     (let normalized = py_strip goal in
      normalized \<noteq> [] \<and> length normalized \<le> 30
      \<and> \<not> list_ex (\<lambda>cue. contains cue normalized) (gw_steps W)
      \<and> list_ex (\<lambda>cue. contains cue normalized) (gw_simple W))"

definition infer_simple_type :: "goal_words \<Rightarrow> string \<Rightarrow> task_type" where
  "infer_simple_type W goal =
     (if list_ex (\<lambda>t. contains t goal) (gw_open W) \<and> contains (gw_file W) goal then FILE_READ
      else if list_ex (\<lambda>t. contains t goal) (gw_write W) then FILE_WRITE
      else if list_ex (\<lambda>t. contains t goal) (gw_analyse W) then ANALYSIS
      else if list_ex (\<lambda>t. contains t goal) (gw_verify W) then VERIFICATION
      else COMMAND)"

definition minimal_plan :: "goal_words \<Rightarrow> rat \<Rightarrow> rat \<Rightarrow> string \<Rightarrow> plan" where
  "minimal_plan W stamp created goal =
     (let normalized = py_strip goal;
          p = add_task ((new_task ''task_1'' normalized [])\<lparr>t_type := infer_simple_type W normalized\<rparr>)
                ((new_plan created (''plan_'' @ int_repr (py_trunc (stamp * 1000))) normalized)
                   \<lparr>p_summary := gw_summary W @ normalized\<rparr>) in
      case compute_execution_order p of Some (ok, q) \<Rightarrow> q | None \<Rightarrow> p)"

section \<open>The answer of the model\<close>

definition planner_goal :: "string \<Rightarrow> string" where
  "planner_goal goal = ''Please create an execution plan for:'' @ newline @ goal"

definition replan_goal :: "plan \<Rightarrow> string \<Rightarrow> string" where
  "replan_goal failed reason =
     p_goal failed @ newline @ ''Failure reason: '' @ reason @ newline @ ''Completed tasks:'' @ newline
     @ py_join newline (map (\<lambda>t. ''- '' @ t_id t @ '': '' @ t_description t)
         (filter (\<lambda>t. task.t_result t \<noteq> [] \<and> task.t_error t = []) (all_tasks failed)))"

text \<open>
  \<^verbatim>\<open>_collect_text\<close>: the text and the tokens. An error event raises what it carries: \<open>raised v\<close> is the
  exception that the value \<open>v\<close> stands for, or the error of raising a value that is no exception.
\<close>

record planner_text =
  pt_text :: string
  pt_input :: int
  pt_output :: int

definition planner_event :: "pyenv \<Rightarrow> (pyval \<Rightarrow> exn) \<Rightarrow> pydict \<Rightarrow> planner_text \<Rightarrow> planner_text res" where
  "planner_event E raised event p =
     (let kind = dict_get event ''type'' in
      if kind = PStr ''text_delta'' then Ok (p\<lparr>pt_text := pt_text p @ str_or E (dict_get event ''text'') []\<rparr>)
      else if kind = PStr ''usage''
      then (case py_or (dict_get event ''usage'') (PDict []) of
              PDict u \<Rightarrow>
                bindR (usage_field E u ''input_tokens'') (\<lambda>a.
                bindR (usage_field E u ''output_tokens'') (\<lambda>b.
                Ok (p\<lparr>pt_input := pt_input p + a, pt_output := pt_output p + b\<rparr>)))
            | _ \<Rightarrow> Ok p)
      else if kind = PStr ''error''
      then bindR (dict_item event ''error'') (\<lambda>v. Raise (raised v))
      else Ok p)"

fun planner_events :: "pyenv \<Rightarrow> (pyval \<Rightarrow> exn) \<Rightarrow> pydict list \<Rightarrow> planner_text \<Rightarrow> planner_text res" where
  "planner_events E raised [] p = Ok p"
| "planner_events E raised (event # events) p = bindR (planner_event E raised event p) (planner_events E raised events)"

text \<open>\<open>None\<close>: the task was cancelled while it waited.\<close>

definition collect_text :: "pyenv \<Rightarrow> (pyval \<Rightarrow> exn) \<Rightarrow> pydict list \<times> stream_end \<Rightarrow> (model_failure + planner_text) option" where
  "collect_text E raised answer =
     (case planner_events E raised (fst answer) \<lparr>pt_text = [], pt_input = 0, pt_output = 0\<rparr> of
        Inl e \<Rightarrow> Some (Inl (CallFailed e))
      | Inr p \<Rightarrow>
          (case snd answer of
             StreamDone \<Rightarrow> Some (Inr p)
           | StreamRaised h i name \<Rightarrow> Some (Inl (StreamFailed (take (Suc i) h) name))
           | StreamTimedOut \<Rightarrow> Some (Inl (CallFailed (TimeoutErr [])))
           | StreamCancelled \<Rightarrow> None))"

section \<open>The call\<close>

text \<open>
  \<open>pl_chat n\<close> is the stream of the planner's model, \<open>pl_class\<close> the name of the class of an
  exception the client raised, \<open>pl_raised\<close> the exception of an error event, \<open>pl_loads\<close> \<^verbatim>\<open>json.loads\<close>.
\<close>

record 's planner_services =
  pl_words :: goal_words
  pl_prompt :: string
  pl_chat :: "nat \<Rightarrow> message list \<Rightarrow> pydict list \<times> stream_end"
  pl_raised :: "pyval \<Rightarrow> exn"
  pl_class :: "exc_heap \<Rightarrow> string"
  pl_loads :: "string \<Rightarrow> pyval res"
  pl_model :: "'s model_services"

definition planner_cause :: "'s runtime \<Rightarrow> 's planner_services \<Rightarrow> model_failure \<Rightarrow> failure_cause" where
  "planner_cause R V f =
     (case f of
        CallFailed e \<Rightarrow> cause_of (rt_py R) e
      | ContextFailed a b \<Rightarrow> \<lparr>fc_type = ''ContextBudgetExceededError'', fc_message = failure_text (rt_py R) f,
          fc_metadata = [], fc_budget = None\<rparr>
      | StreamFailed h m \<Rightarrow> \<lparr>fc_type = pl_class V h, fc_message = take 4000 m, fc_metadata = [], fc_budget = None\<rparr>)"

text \<open>\<^verbatim>\<open>create_plan_result\<close>: the plan and its tokens. The prompt is fitted into the context like any other.\<close>

definition create_plan_result :: "'s runtime \<Rightarrow> 's planner_services \<Rightarrow> string \<Rightarrow> string
    \<Rightarrow> ('s, model_failure + plan \<times> int \<times> int) eff" where
  "create_plan_result R V op goal =
     (if is_simple_goal (pl_words V) goal
      then bindE tickE (\<lambda>n. retE (Inr (minimal_plan (pl_words V) (snd (rt_clock R n)) (snd (rt_clock R n)) goal, 0, 0)))
      else
        case fit_context (ml_context (pl_model V)) (ml_policy (pl_model V))
               (build_context (ml_context (pl_model V)) [text_message ''user'' (planner_goal goal)] (pl_prompt V) [] goal None) of
          Inl (ContextExceeded estimate limit) \<Rightarrow> retE (Inl (ContextFailed estimate limit))
        | Inr r \<Rightarrow>
            bindE (effectE (bindE (logE op 1) (\<lambda>_. tickE))) (\<lambda>n.
            case collect_text (rt_py R) (pl_raised V) (pl_chat V n (fi_messages r)) of
              None \<Rightarrow> cancelE
            | Some (Inl f) \<Rightarrow> retE (Inl f)
            | Some (Inr t) \<Rightarrow>
                bindE tickE (\<lambda>n.
                retE (case parse_plan (rt_py R) (pl_loads V) (snd (rt_clock R n)) (snd (rt_clock R n)) goal (pt_text t) of
                        Inl e \<Rightarrow> Inl (CallFailed e)
                      | Inr p \<Rightarrow> Inr (p, pt_input t, pt_output t)))))"

text \<open>The goal of a call, and whether it needs the model.\<close>

definition call_goal :: "run_state \<Rightarrow> plan option \<Rightarrow> string \<Rightarrow> string" where
  "call_goal st previous reason =
     (case previous of None \<Rightarrow> r_input st | Some p \<Rightarrow> replan_goal p reason)"

definition uses_llm :: "'s planner_services \<Rightarrow> run_state \<Rightarrow> plan option \<Rightarrow> bool" where
  "uses_llm V st previous \<longleftrightarrow> previous \<noteq> None \<or> \<not> is_simple_goal (pl_words V) (r_input st)"

text \<open>The run fails with the exception; the caller goes on with its own object.\<close>

definition planner_failed :: "'s runtime \<Rightarrow> run_state \<Rightarrow> failure_cause \<Rightarrow> string
    \<Rightarrow> ('s, run_state \<times> plan option) eff" where
  "planner_failed R st c step = bindE (fail_both R st c step) (\<lambda>x. retE (fst x, None))"

definition call_step :: "plan option \<Rightarrow> string" where
  "call_step previous = (if previous = None then ''planning'' else ''replan'')"

text \<open>
  The charge of a call of the model. A failed one is completed with no tokens; only a budget error
  of the completion is handled.
\<close>

definition planned :: "'s runtime \<Rightarrow> 's planner_services \<Rightarrow> run_state \<Rightarrow> string \<Rightarrow> plan option \<Rightarrow> string option
    \<Rightarrow> model_failure + plan \<times> int \<times> int \<Rightarrow> ('s, run_state \<times> plan option) eff" where
  "planned R V st name previous op result =
     (case result of
        Inl f \<Rightarrow>
          bindE (case op of None \<Rightarrow> retE (Inr ())
                 | Some i \<Rightarrow> budgetE (storeE (\<lambda>n. ml_complete (pl_model V) n st i no_usage))) (\<lambda>_.
          planner_failed R st (planner_cause R V f) (call_step previous))
      | Inr (p, inp, out) \<Rightarrow>
          bindE (case op of None \<Rightarrow> retE (Inr ())
                 | Some i \<Rightarrow> budgetE (storeE (\<lambda>n. ml_complete (pl_model V) n st i
                     (no_usage\<lparr>us_input := inp, us_output := out\<rparr>)))) (\<lambda>r.
          case r of
            Inl e \<Rightarrow> planner_failed R st (cause_of (rt_py R) e) name
          | Inr _ \<Rightarrow> retE (st\<lparr>r_total_tokens := r_total_tokens st + (inp + out)\<rparr>, Some p)))"

definition call_planner :: "'s runtime \<Rightarrow> 's planner_services \<Rightarrow> run_state \<Rightarrow> string \<Rightarrow> plan option \<Rightarrow> string
    \<Rightarrow> ('s, run_state \<times> plan option) eff" where
  "call_planner R V st name previous reason =
     bindE (budgetE (storeE (\<lambda>n. rt_consume_step R n st (''step:'' @ r_run_id st @ '':plan:'' @ name @ '':''
        @ int_repr (case previous of None \<Rightarrow> 0 | Some p \<Rightarrow> p_version p))))) (\<lambda>charged.
     case charged of
       Inl e \<Rightarrow> planner_failed R st (cause_of (rt_py R) e) name
     | Inr _ \<Rightarrow>
         if \<not> uses_llm V st previous
         then bindE (create_plan_result R V [] (call_goal st previous reason)) (planned R V st name previous None)
         else
           bindE tickE (\<lambda>n.
           let op = ''model:'' @ r_run_id st @ '':'' @ ml_call_id (pl_model V) n in
           bindE (tryE (storeE (\<lambda>n. ml_reserve (pl_model V) n st op 0))) (\<lambda>r.
           case r of
             Inl e \<Rightarrow> planner_failed R st (cause_of (rt_py R) e) (call_step previous)
           | Inr _ \<Rightarrow>
               bindE (create_plan_result R V op (call_goal st previous reason))
                 (planned R V st name previous (Some op)))))"

section \<open>The strategy\<close>

text \<open>
  \<open>pv_digest\<close> is the hexadecimal SHA-256 digest, \<open>pv_fingerprint\<close> the fingerprint of a JSON value, \<open>pv_pick\<close> which of the
  running children complete next, \<open>pv_preflight_child\<close> the budget manager's check before children start.
  \<open>pv_steps\<close> bounds the steps of one execution of a child.
\<close>

record 's plan_strategy =
  pv_planner :: "'s planner_services"
  pv_life :: life
  pv_max_task_turns :: int
  pv_max_replans :: int
  pv_max_parallel :: int
  pv_retry_attempts :: int
  pv_digest :: "string \<Rightarrow> string"
  pv_fingerprint :: "pyval \<Rightarrow> string"
  pv_pick :: "nat \<Rightarrow> task list \<Rightarrow> task list"
  pv_preflight_child :: "nat \<Rightarrow> run_state \<Rightarrow> 's \<Rightarrow> 's \<times> unit res"
  pv_steps :: nat

definition time_of :: "'s runtime \<Rightarrow> nat \<Rightarrow> rat" where
  "time_of R n = snd (rt_clock R n)"

text \<open>\<^verbatim>\<open>_child_runtime\<close>: a ReAct runtime over the same store, with the prompt of its task.\<close>

definition child_runtime :: "'s runtime \<Rightarrow> int \<Rightarrow> 's runtime" where
  "child_runtime R max_turns = R\<lparr>rt_strategy := ''react'', rt_max_turns := max_turns,
     rt_on_cancel := retE, rt_after_cancel := (\<lambda>st. retE ())\<rparr>"

definition task_model :: "'s plan_strategy \<Rightarrow> task \<Rightarrow> 's model_services" where
  "task_model S t = (let M = pl_model (pv_planner S) in M\<lparr>ml_system := task_system_prompt (ml_system M) t\<rparr>)"

definition task_advance :: "'s runtime \<Rightarrow> 's plan_strategy \<Rightarrow> task \<Rightarrow> run_state \<Rightarrow> ('s, run_state) eff" where
  "task_advance R S t st =
     advance_react (pv_steps S) (child_runtime R (pv_max_task_turns S)) (task_model S t) st"

definition resume_child :: "'s runtime \<Rightarrow> 's plan_strategy \<Rightarrow> task \<Rightarrow> string \<Rightarrow> string option \<Rightarrow> ('s, run_state) eff" where
  "resume_child R S t i decision =
     resume_run (child_runtime R (pv_max_task_turns S)) (pv_life S) (task_advance R S t) i decision"

section \<open>The children of a plan\<close>

definition child_of :: "task \<Rightarrow> string option" where
  "child_of t = (case t_child_run_id t of None \<Rightarrow> None | Some i \<Rightarrow> if i = [] then None else Some i)"

definition load_child :: "'s runtime \<Rightarrow> task \<Rightarrow> ('s, run_state option) eff" where
  "load_child R t = (case child_of t of None \<Rightarrow> retE None | Some i \<Rightarrow> load_run R i)"

definition plan_child_states :: "'s runtime \<Rightarrow> plan \<Rightarrow> ('s, child_states) eff" where
  "plan_child_states R p =
     bindE (mapE (load_child R) (all_tasks p)) (\<lambda>cs. retE (rev (zip (map t_id (all_tasks p)) cs)))"

definition needed_plan :: "'s runtime \<Rightarrow> run_state \<Rightarrow> string \<Rightarrow> ('s, plan) eff" where
  "needed_plan R st message = bindE (liftR (load_plan (rt_py R) st)) (\<lambda>p.
     case p of None \<Rightarrow> raiseE (RuntimeErr message) | Some p \<Rightarrow> retE p)"

text \<open>\<^verbatim>\<open>_start_child\<close>\<close>

definition child_request :: "'s plan_strategy \<Rightarrow> run_state \<Rightarrow> plan \<Rightarrow> task \<Rightarrow> string \<Rightarrow> run_request" where
  "child_request S st p t i =
     (run_request_for (r_thread_id st) (task_context p t))
       \<lparr>rq_turn_id := Some (r_turn_id st), rq_run_id := Some i, rq_parent_run_id := Some (r_run_id st),
        rq_parent_step_id := Some (plan_task_span_id (pv_digest S) (r_run_id st) (p_version p) (t_id t) (task.t_attempt t)),
        rq_run_kind := ''plan_task'', rq_budget_owner := Some (owner_of st)\<rparr>"

definition start_child :: "'s runtime \<Rightarrow> 's plan_strategy \<Rightarrow> run_state \<Rightarrow> plan \<Rightarrow> task \<Rightarrow> ('s, run_state) eff" where
  "start_child R S st p t =
     (case t_child_run_id t of
        None \<Rightarrow> raiseE (RuntimeErr ''scheduled plan task is missing child_run_id'')
      | Some i \<Rightarrow>
          bindE (load_run R i) (\<lambda>existing.
          case existing of
            Some c \<Rightarrow> if r_status c = RunRUNNING then resume_child R S t (r_run_id c) None else retE c
          | None \<Rightarrow>
              catchE (start_run (child_runtime R (pv_max_task_turns S)) (pv_life S) (task_advance R S t)
                        (child_request S st p t i))
                (\<lambda>e. case e of
                   ValueError m \<Rightarrow>
                     bindE (load_run R i) (\<lambda>existing.
                     case existing of
                       Some c \<Rightarrow> if contains ''run already exists'' m then retE c else raiseE e
                     | None \<Rightarrow> raiseE e)
                 | _ \<Rightarrow> raiseE e)))"

section \<open>Observing a child\<close>

definition completed_ids :: "plan \<Rightarrow> pyval" where
  "completed_ids p = PDict [(''completed'', PList (map PStr (sort (map t_id
     (filter (\<lambda>t. task.t_status t = COMPLETED) (all_tasks p))))))]"

definition task_observation :: "'s plan_strategy \<Rightarrow> run_state \<Rightarrow> plan \<Rightarrow> string \<Rightarrow> observation" where
  "task_observation S st p i =
     \<lparr>ob_operation_id = ''plan:task:'' @ i @ '':completed'', ob_step = r_step_index st,
      ob_action = Some (pv_fingerprint S (PDict [(''kind'', PStr ''plan_task_completed''), (''task'', PStr i)])),
      ob_error = None, ob_state = Some (pv_fingerprint S (completed_ids p)), ob_eligible = True\<rparr>"

text \<open>A save that another writer overtook is tried again by the caller: \<open>False\<close>.\<close>

definition saved_or_overtaken :: "'s runtime \<Rightarrow> run_state \<Rightarrow> ('s, bool) eff" where
  "saved_or_overtaken R st =
     catchE (bindE (save_checkpoint R st) (\<lambda>_. retE True)) (\<lambda>e. if is_conflict e then retE False else raiseE e)"

text \<open>The parent as it is to be saved, or \<open>None\<close> when the detector ended the run.\<close>

definition noted_completion :: "'s runtime \<Rightarrow> 's plan_strategy \<Rightarrow> run_state \<Rightarrow> plan \<Rightarrow> string \<Rightarrow> run_state
    \<Rightarrow> ('s, run_state option) eff" where
  "noted_completion R S parent p i c =
     (if r_status c \<noteq> RunCOMPLETED then retE (Some parent)
      else bindE (observe_progress R parent (task_observation S parent p i)) (\<lambda>(st, d).
           retE (if d = ProgressTERMINATE then None else Some st)))"

text \<open>\<open>True\<close>: there is nothing more to do for the child.\<close>

definition observe_once :: "'s runtime \<Rightarrow> 's plan_strategy \<Rightarrow> string \<Rightarrow> string \<Rightarrow> ('s, bool) eff" where
  "observe_once R S parent_id i =
     bindE (require_run R parent_id) (\<lambda>parent.
     if run_finished parent then retE True
     else bindE (liftR (load_plan (rt_py R) parent)) (\<lambda>plan.
     case plan of
       None \<Rightarrow> retE True
     | Some p \<Rightarrow>
         (case get_task i p of
            None \<Rightarrow> retE True
          | Some t \<Rightarrow>
              (case child_of t of
                 None \<Rightarrow> retE True
               | Some child \<Rightarrow>
                   if task.t_status t \<noteq> RUNNING then retE True
                   else
                     bindE (load_run R child) (\<lambda>loaded.
                     case loaded of
                       None \<Rightarrow> retE True
                     | Some c \<Rightarrow>
                         if r_status c = RunRUNNING then retE True
                         else
                           bindE tickE (\<lambda>n.
                           case observed_task (time_of R n) c t of
                             None \<Rightarrow> retE True
                           | Some (t', operation) \<Rightarrow>
                               let p' = set_task i t' p;
                                   tokens = (if r_status c = RunCOMPLETED then r_total_tokens c else 0);
                                   parent' = store_plan p' (parent\<lparr>r_total_tokens := r_total_tokens parent + tokens\<rparr>) in
                               bindE (noted_completion R S parent' p' i c) (\<lambda>st.
                               case st of None \<Rightarrow> retE True | Some st \<Rightarrow> saved_or_overtaken R st)))))))"

fun observe_child :: "nat \<Rightarrow> 's runtime \<Rightarrow> 's plan_strategy \<Rightarrow> string \<Rightarrow> string \<Rightarrow> ('s, unit) eff" where
  "observe_child 0 R S parent_id i = raiseE (CheckpointConflictError (''could not reconcile plan task '' @ i
     @ '' after concurrent parent updates''))"
| "observe_child (Suc n) R S parent_id i =
     bindE (observe_once R S parent_id i) (\<lambda>settled'.
     if settled' then retE () else observe_child n R S parent_id i)"

definition observation_attempts :: "'s plan_strategy \<Rightarrow> nat" where
  "observation_attempts S = nat (max 1 (pv_retry_attempts S))"

definition observable :: "'s runtime \<Rightarrow> task \<Rightarrow> ('s, string list) eff" where
  "observable R t =
     (if task.t_status t \<noteq> RUNNING then retE []
      else bindE (load_child R t) (\<lambda>c. retE (case c of
             None \<Rightarrow> [] | Some c \<Rightarrow> if r_status c = RunRUNNING then [] else [t_id t])))"

definition reconcile_children :: "'s runtime \<Rightarrow> 's plan_strategy \<Rightarrow> run_state \<Rightarrow> ('s, run_state) eff" where
  "reconcile_children R S st =
     bindE (liftR (load_plan (rt_py R) st)) (\<lambda>plan.
     case plan of
       None \<Rightarrow> retE st
     | Some p \<Rightarrow>
         bindE (mapE (observable R) (all_tasks p)) (\<lambda>ids.
         if concat ids = [] then retE st
         else bindE (mapE (observe_child (observation_attempts S) R S (r_run_id st)) (concat ids)) (\<lambda>_.
              require_run R (r_run_id st))))"

definition observe_scheduled_child :: "'s runtime \<Rightarrow> 's plan_strategy \<Rightarrow> string \<Rightarrow> task \<Rightarrow> run_state
    \<Rightarrow> ('s, bool) eff" where
  "observe_scheduled_child R S parent_id t c =
     bindE (observe_child (observation_attempts S) R S parent_id (t_id t)) (\<lambda>_.
     bindE (require_run R parent_id) (\<lambda>parent.
     if r_status parent \<noteq> RunRUNNING then retE False
     else bindE (liftR (load_plan (rt_py R) parent)) (\<lambda>plan.
          retE (case plan of None \<Rightarrow> False | Some p \<Rightarrow> \<not> has_failed p))))"

section \<open>Making and replacing plans\<close>

definition create_plan :: "'s runtime \<Rightarrow> 's plan_strategy \<Rightarrow> run_state \<Rightarrow> ('s, run_state) eff" where
  "create_plan R S st =
     bindE (call_planner R (pv_planner S) st ''plan.create'' None []) (\<lambda>(st1, p).
     case p of None \<Rightarrow> retE st1 | Some p \<Rightarrow> save_checkpoint R (store_plan p st1))"

text \<open>The fingerprints of a replacement.\<close>

definition described_dependency :: "plan \<Rightarrow> string \<Rightarrow> string" where
  "described_dependency p i = (case map_of (rev (map (\<lambda>t. (t_id t, t_description t)) (all_tasks p))) i of
     None \<Rightarrow> i | Some d \<Rightarrow> normalized_description d)"

definition plan_fingerprint :: "'s plan_strategy \<Rightarrow> plan \<Rightarrow> string res" where
  "plan_fingerprint S p =
     bindR (tasks_in_order p) (\<lambda>ts.
     Ok (pv_fingerprint S (PDict [(''kind'', PStr ''replan''),
       (''tasks'', PList (map (\<lambda>t. PDict [
          (''description'', PStr (described_dependency p (t_id t))),
          (''type'', PStr (task_type_value (t_type t))),
          (''dependencies'', PList (map PStr (sort (map (described_dependency p) (t_dependencies t)))))]) ts))])))"

definition described_with :: "task_status \<Rightarrow> plan \<Rightarrow> pyval" where
  "described_with s p = PList (map PStr (sort (map t_description (filter (\<lambda>t. task.t_status t = s) (all_tasks p)))))"

definition replan_observation :: "'s plan_strategy \<Rightarrow> run_state \<Rightarrow> plan \<Rightarrow> observation res" where
  "replan_observation S st p =
     bindR (plan_fingerprint S p) (\<lambda>action. Ok
     \<lparr>ob_operation_id = ''plan:replan:'' @ int_repr (p_version p), ob_step = r_step_index st,
      ob_action = Some action, ob_error = None,
      ob_state = Some (pv_fingerprint S (PDict [(''completed'', described_with COMPLETED p),
        (''pending'', described_with PENDING p)])), ob_eligible = True\<rparr>)"

definition full_reason :: "progress_state \<Rightarrow> plan \<Rightarrow> string" where
  "full_reason ps failed =
     (if ps_recovery_signal_pending ps then replan_reason failed @ newline @ newline @ recovery_message ps
      else replan_reason failed)"

definition replaced :: "'s runtime \<Rightarrow> 's plan_strategy \<Rightarrow> string \<Rightarrow> progress_state \<Rightarrow> plan \<Rightarrow> run_state \<Rightarrow> plan
    \<Rightarrow> ('s, run_state) eff" where
  "replaced R S reason ps failed st p =
     (let st1 = (if ps_recovery_signal_pending ps
                 then st\<lparr>r_progress_state := progress_state_to_dict (mark_recovery_delivered ps)\<rparr> else st) in
      bindE tickE (\<lambda>n.
      bindE (liftR (replacement_plan (env_at R n) reason failed p)) (\<lambda>p'.
      let st2 = store_plan p' (st1\<lparr>r_error := None\<rparr>) in
      bindE (liftR (replan_observation S st2 p')) (\<lambda>ob.
      bindE (observe_progress R st2 ob) (\<lambda>(st3, d).
      if d = ProgressTERMINATE then retE st3 else save_checkpoint R st3)))))"

definition replan :: "'s runtime \<Rightarrow> 's plan_strategy \<Rightarrow> run_state \<Rightarrow> plan \<Rightarrow> ('s, run_state) eff" where
  "replan R S st failed =
     bindE (liftR (progress_state_from_dict (rt_py R) (r_progress_state st))) (\<lambda>ps.
     let reason = full_reason ps failed in
     bindE (call_planner R (pv_planner S) st ''plan.replan'' (Some failed) reason) (\<lambda>(st1, p).
     case p of None \<Rightarrow> retE st1 | Some p \<Rightarrow> replaced R S reason ps failed st1 p))"

section \<open>The handlers of a step\<close>

definition migrate_plan :: "'s runtime \<Rightarrow> run_state \<Rightarrow> plan \<Rightarrow> ('s, run_state) eff" where
  "migrate_plan R st p = save_checkpoint R (store_plan p (clear_legacy_task_state st))"

text \<open>Every task reads the clock when it is scheduled.\<close>

definition clock_of :: "'s runtime \<Rightarrow> (string \<times> nat) list \<Rightarrow> string \<Rightarrow> rat" where
  "clock_of R ns i = time_of R (case map_of ns i of None \<Rightarrow> 0 | Some n \<Rightarrow> n)"

definition persist_ready_tasks :: "'s runtime \<Rightarrow> 's plan_strategy \<Rightarrow> run_state \<Rightarrow> plan \<Rightarrow> string list
    \<Rightarrow> ('s, run_state) eff" where
  "persist_ready_tasks R S st p ids =
     bindE (mapE (\<lambda>i. bindE tickE (\<lambda>n. retE (i, n))) ([] # ids)) (\<lambda>ns.
     let (p', scheduled) = schedule_ready (pv_digest S) (clock_of R ns) (r_run_id st) ids p in
     if scheduled = [] then retE st else save_checkpoint R (store_plan p' st))"

definition release_unstarted_tasks :: "'s runtime \<Rightarrow> run_state \<Rightarrow> plan \<Rightarrow> child_states \<Rightarrow> ('s, run_state) eff" where
  "release_unstarted_tasks R st p cs =
     (case release_unstarted cs p of
        (p', changed) \<Rightarrow> if changed then save_checkpoint R (store_plan p' st) else retE st)"

definition skip_dependents :: "'s runtime \<Rightarrow> run_state \<Rightarrow> plan \<Rightarrow> ('s, run_state) eff" where
  "skip_dependents R st p =
     bindE tickE (\<lambda>n.
     case skip_failed_dependents (time_of R n) p of
       (p', changed) \<Rightarrow> if changed then save_checkpoint R (store_plan p' st) else retE st)"

definition wait_for_children :: "'s runtime \<Rightarrow> run_state \<Rightarrow> plan \<Rightarrow> ('s, run_state) eff" where
  "wait_for_children R st p = save_checkpoint R (store_plan p (st\<lparr>r_status := RunWAITING_CHILD\<rparr>))"

definition complete_plan :: "'s runtime \<Rightarrow> run_state \<Rightarrow> plan \<Rightarrow> ('s, run_state) eff" where
  "complete_plan R st p =
     bindE tickE (\<lambda>n.
     let p' = plan_mark_completed (time_of R n) p;
         output = build_plan_result p' in
     retE (store_plan p' (st\<lparr>r_output_text := output,
       r_messages := r_messages st @ [text_message ''assistant'' output]\<rparr>)))"

definition fail_plan :: "'s runtime \<Rightarrow> run_state \<Rightarrow> plan \<Rightarrow> string \<Rightarrow> ('s, run_state) eff" where
  "fail_plan R st p reason =
     bindE tickE (\<lambda>n.
     bindE (save_checkpoint R (store_plan (plan_mark_failed (time_of R n) p) st)) (\<lambda>st1.
     fail_run R st1 (cause_of (rt_py R) (RuntimeErr reason)) ''plan''))"

definition busy :: "scheduler_snapshot \<Rightarrow> bool" where
  "busy sn \<longleftrightarrow> sn_active sn \<noteq> [] \<or> sn_waiting sn \<noteq> []"

text \<open>The step of a plan with a failed task: nothing new starts, blocked tasks are skipped, and only when no child is left is there a new plan.\<close>

definition settle_failed_plan :: "'s runtime \<Rightarrow> 's plan_strategy \<Rightarrow> run_state \<Rightarrow> plan \<Rightarrow> child_states
    \<Rightarrow> ('s, run_state) eff" where
  "settle_failed_plan R S st p cs =
     bindE (release_unstarted_tasks R st p cs) (\<lambda>st1.
     bindE (needed_plan R st1 ''plan state disappeared during replan barrier'') (\<lambda>p1.
     bindE (skip_dependents R st1 p1) (\<lambda>st2.
     bindE (needed_plan R st2 ''plan state disappeared while skipping dependents'') (\<lambda>p2.
     bindE (plan_child_states R p2) (\<lambda>cs2.
     bindE (liftR (plan_scheduler_snapshot p2 cs2)) (\<lambda>sn.
     if busy sn then wait_for_children R st2 p2
     else if p_replan_count p2 < pv_max_replans S then replan R S st2 p2
     else fail_plan R st2 p2 ''plan failed after exhausting replan attempts''))))))"

definition launch_children :: "'s runtime \<Rightarrow> 's plan_strategy \<Rightarrow> run_state \<Rightarrow> plan \<Rightarrow> task list
    \<Rightarrow> ('s, run_state) eff" where
  "launch_children R S st p ts =
     bindE (budgetE (storeE (\<lambda>n. pv_preflight_child S n st))) (\<lambda>r.
     case r of
       Inl e \<Rightarrow> fail_run R st (cause_of (rt_py R) e) ''child''
     | Inr _ \<Rightarrow>
         bindE (execute_pool (pool_limit (pv_max_parallel S)) plan_halts (pv_pick S) (start_child R S st p)
                  (observe_scheduled_child R S (r_run_id st)) ts) (\<lambda>_.
         bindE (require_run R (r_run_id st)) (\<lambda>st1.
         if r_status st1 = RunRUNNING then reconcile_children R S st1 else retE st1)))"

section \<open>The step\<close>

definition scheduled_plan :: "'s runtime \<Rightarrow> 's plan_strategy \<Rightarrow> run_state \<Rightarrow> plan \<Rightarrow> child_states
    \<Rightarrow> ('s, run_state \<times> plan \<times> child_states) eff" where
  "scheduled_plan R S st p cs =
     bindE (liftR (plan_scheduler_snapshot p cs)) (\<lambda>sn.
     if sn_ready sn = [] then retE (st, p, cs)
     else bindE (persist_ready_tasks R S st p (sn_ready sn)) (\<lambda>st1.
          bindE (needed_plan R st1 ''plan state disappeared after task scheduling'') (\<lambda>p1.
          bindE (plan_child_states R p1) (\<lambda>cs1. retE (st1, p1, cs1)))))"

text \<open>Nothing can be launched: the plan waits, is complete, or is stalled.\<close>

definition settle_idle_plan :: "'s runtime \<Rightarrow> int \<Rightarrow> run_state \<Rightarrow> plan \<Rightarrow> ('s, step_result) eff" where
  "settle_idle_plan R index st p =
     bindE (plan_child_states R p) (\<lambda>cs.
     bindE (liftR (plan_scheduler_snapshot p cs)) (\<lambda>sn.
     if busy sn then bindE (wait_for_children R st p) (\<lambda>s. retE (from_run_state index s))
     else if is_all_completed p then bindE (complete_plan R st p) (\<lambda>s. retE (propose index s ActCOMPLETE))
     else if has_failed p then retE (from_run_state index st)
     else bindE (fail_plan R st p ''plan stalled because dependencies were not satisfied'')
            (\<lambda>s. retE (from_run_state index s))))"

definition plan_work_step :: "'s runtime \<Rightarrow> 's plan_strategy \<Rightarrow> int \<Rightarrow> run_state \<Rightarrow> plan \<Rightarrow> ('s, step_result) eff" where
  "plan_work_step R S index st p =
     bindE (plan_child_states R p) (\<lambda>cs.
     if has_failed p then bindE (settle_failed_plan R S st p cs) (\<lambda>s. retE (from_run_state index s))
     else
       bindE (scheduled_plan R S st p cs) (\<lambda>(st1, p1, cs1).
       bindE (liftR (launchable_tasks p1 cs1)) (\<lambda>ts.
       if ts \<noteq> [] then bindE (launch_children R S st1 p1 ts) (\<lambda>s. retE (from_run_state index s))
       else settle_idle_plan R index st1 p1)))"

definition plan_advance_step :: "'s runtime \<Rightarrow> 's plan_strategy \<Rightarrow> step_context \<Rightarrow> ('s, step_result) eff" where
  "plan_advance_step R S c =
     (let st = sc_run_state c; index = sc_step_index c in
      bindE (liftR (load_plan (rt_py R) st)) (\<lambda>plan.
      case plan of
        None \<Rightarrow> bindE (create_plan R S st) (\<lambda>s. retE (from_run_state index s))
      | Some p \<Rightarrow>
          bindE (liftR (legacy_plan_state (rt_py R) st)) (\<lambda>legacy.
          if legacy then bindE (migrate_plan R st p) (\<lambda>s. retE (from_run_state index s))
          else
            bindE (reconcile_children R S st) (\<lambda>st1.
            bindE (needed_plan R st1 ''plan state disappeared during child reconciliation'') (\<lambda>p1.
            if is_all_completed p1
            then bindE (complete_plan R st1 p1) (\<lambda>s. retE (propose index s ActCOMPLETE))
            else plan_work_step R S index st1 p1)))))"

definition plan_advance :: "nat \<Rightarrow> 's runtime \<Rightarrow> 's plan_strategy \<Rightarrow> run_state \<Rightarrow> ('s, run_state) eff" where
  "plan_advance fuel R S st = run_step_loop fuel R (plan_advance_step R S) st"

section \<open>Cancellation and approvals\<close>

definition plan_on_cancel :: "'s runtime \<Rightarrow> run_state \<Rightarrow> ('s, run_state) eff" where
  "plan_on_cancel R st =
     bindE (liftR (load_plan (rt_py R) st)) (\<lambda>plan.
     case plan of
       None \<Rightarrow> retE st
     | Some p \<Rightarrow> bindE tickE (\<lambda>n. retE (store_plan (cancel_plan (time_of R n) p) st)))"

definition cancel_child :: "'s runtime \<Rightarrow> 's plan_strategy \<Rightarrow> task \<Rightarrow> ('s, unit) eff" where
  "cancel_child R S t =
     bindE (load_child R t) (\<lambda>c.
     case c of
       None \<Rightarrow> retE ()
     | Some c \<Rightarrow>
         if run_finished c then retE ()
         else bindE (cancel_durable (child_runtime R (pv_max_task_turns S)) (r_run_id c)) (\<lambda>_. retE ()))"

definition plan_after_cancel :: "'s runtime \<Rightarrow> 's plan_strategy \<Rightarrow> run_state \<Rightarrow> ('s, unit) eff" where
  "plan_after_cancel R S st =
     bindE (liftR (load_plan (rt_py R) st)) (\<lambda>plan.
     case plan of
       None \<Rightarrow> retE ()
     | Some p \<Rightarrow> bindE (mapE (cancel_child R S) (all_tasks p)) (\<lambda>_. retE ()))"

text \<open>The runtime of a run with this strategy, with the hooks of its cancellation.\<close>

definition plan_runtime :: "'s runtime \<Rightarrow> 's plan_strategy \<Rightarrow> 's runtime" where
  "plan_runtime R S = R\<lparr>rt_strategy := ''plan_execute'', rt_on_cancel := plan_on_cancel R,
     rt_after_cancel := plan_after_cancel R S\<rparr>"

definition waiting_task :: "'s runtime \<Rightarrow> string option \<Rightarrow> task \<Rightarrow> ('s, task list) eff" where
  "waiting_task R wanted t =
     (if child_of t = None \<or> (wanted \<noteq> None \<and> wanted \<noteq> Some [] \<and> t_child_run_id t \<noteq> wanted) then retE []
      else bindE (load_child R t) (\<lambda>c. retE (case c of
             None \<Rightarrow> [] | Some c \<Rightarrow> if r_status c = RunWAITING_APPROVAL then [t] else [])))"

definition resume_waiting_child :: "'s runtime \<Rightarrow> 's plan_strategy \<Rightarrow> run_state \<Rightarrow> string \<Rightarrow> string option
    \<Rightarrow> ('s, run_state) eff" where
  "resume_waiting_child R S parent decision wanted =
     bindE (liftR (load_plan (rt_py R) parent)) (\<lambda>plan.
     case plan of
       None \<Rightarrow> raiseE (ValueError ''parent has no active plan'')
     | Some p \<Rightarrow>
         bindE (mapE (waiting_task R wanted) (all_tasks p)) (\<lambda>ts.
         case concat ts of
           [t] \<Rightarrow> resume_child R S t (case t_child_run_id t of None \<Rightarrow> [] | Some i \<Rightarrow> i) (Some decision)
         | _ \<Rightarrow> raiseE (ValueError ''approval must identify exactly one waiting plan child run'')))"

end
