(* ===== verification/PlanStrategyProps.thy ===== *)
theory PlanStrategyProps
  imports PlanStrategy PlanFlowProps PermissionProps ReactProps
begin

text \<open>
  What the step of the plan strategy promises: when it says that the run is complete, whom the
  children it starts belong to, when it asks for a new plan, and which children it leaves behind.
\<close>

section \<open>Completion\<close>

text \<open>A run state that says its plan \<open>p\<close> is done, made from a state \<open>s\<close> that holds \<open>p\<close>.\<close>

definition completion_of :: "pyenv \<Rightarrow> run_state \<Rightarrow> bool" where
  "completion_of E st \<longleftrightarrow> (\<exists>s p now. load_plan E s = Ok (Some p) \<and> is_all_completed p \<and>
     st = store_plan (plan_mark_completed now p)
       (s\<lparr>r_output_text := build_plan_result (plan_mark_completed now p),
          r_messages := r_messages s @ [text_message ''assistant'' (build_plan_result (plan_mark_completed now p))]\<rparr>))"

definition completes_soundly :: "pyenv \<Rightarrow> step_result \<Rightarrow> bool" where
  "completes_soundly E res \<longleftrightarrow> (sr_next_action res = Some ActCOMPLETE \<longrightarrow>
     r_status (sr_run_state res) = RunRUNNING \<longrightarrow> completion_of E (sr_run_state res))"

lemma from_run_state_sound [simp]: "completes_soundly E (from_run_state i s)"
  by (cases "r_status s") (simp_all add: completes_soundly_def from_run_state_def decide_completion_def
      evidence_for_def Let_def)

lemma needed_plan_done: "needed_plan R st m w = (w', Done p) \<Longrightarrow> w' = w \<and> load_plan (rt_py R) st = Ok (Some p)"
  by (auto simp: needed_plan_def bindE_def liftR_def retE_def raiseE_def split: sum.splits option.splits)

lemma complete_plan_done:
  assumes "complete_plan R st p w = (w', Done s)" "load_plan (rt_py R) st = Ok (Some p)" "is_all_completed p"
  shows "completion_of (rt_py R) s"
  using assms unfolding completion_of_def
  by (fastforce simp: complete_plan_def bindE_def tickE_def retE_def Let_def)

lemma settle_idle_sound:
  assumes "settle_idle_plan R i st p w = (w', Done res)" "load_plan (rt_py R) st = Ok (Some p)"
  shows "completes_soundly (rt_py R) res"
  using assms
  by (auto simp: settle_idle_plan_def elim!: done_bind dest!: done_ret split: if_splits)
    (simp add: completes_soundly_def propose_def complete_plan_done)

lemma scheduled_plan_done:
  assumes "scheduled_plan R S st p cs w = (w', Done (st1, p1, cs1))" "load_plan (rt_py R) st = Ok (Some p)"
  shows "load_plan (rt_py R) st1 = Ok (Some p1)"
  using assms by (auto simp: scheduled_plan_def elim!: done_bind dest!: done_ret needed_plan_done split: if_splits)

lemma work_step_sound:
  assumes "plan_work_step R S i st p w = (w', Done res)" "load_plan (rt_py R) st = Ok (Some p)"
  shows "completes_soundly (rt_py R) res"
  using assms
  by (auto simp: plan_work_step_def elim!: done_bind dest!: done_ret split: if_splits prod.splits)
    (blast dest: scheduled_plan_done settle_idle_sound)

text \<open>C11: A step of the plan strategy proposes that a running run is complete only when every task of the
  plan its state holds is completed; it then records the plan as completed, and the summary of its tasks
  as the answer of the run.\<close>

theorem plan_completes_only_when_done:
  assumes "plan_advance_step R S c w = (w', Done res)"
    and "sr_next_action res = Some ActCOMPLETE" "r_status (sr_run_state res) = RunRUNNING"
  shows "\<exists>s p now. load_plan (rt_py R) s = Ok (Some p) \<and> is_all_completed p \<and>
    sr_run_state res = store_plan (plan_mark_completed now p)
      (s\<lparr>r_output_text := build_plan_result (plan_mark_completed now p),
         r_messages := r_messages s @ [text_message ''assistant'' (build_plan_result (plan_mark_completed now p))]\<rparr>)"
proof -
  have "completes_soundly (rt_py R) res"
    using assms(1)
    by (auto simp: plan_advance_step_def Let_def elim!: done_bind dest!: done_ret needed_plan_done
        dest: work_step_sound split: if_splits option.splits)
      (simp add: completes_soundly_def propose_def complete_plan_done, blast dest: work_step_sound)
  with assms(2,3) show ?thesis unfolding completes_soundly_def completion_of_def by blast
qed

section \<open>The children of a run\<close>

text \<open>The run that is made for a task of a plan belongs to the thread, the turn and the budget of the
  parent and has the identifier the plan recorded; but it never inherits the parent's principal or
  priority, which are those of the default principal, whatever the parent's are.\<close>

theorem child_run_of_a_task:
  assumes "new_run_state (child_runtime R k) L (child_request S st p t i) w = (w', Done c)"
    and "i \<noteq> []" "r_turn_id st \<noteq> []"
  shows "r_run_id c = i \<and> r_thread_id c = r_thread_id st \<and> r_turn_id c = r_turn_id st \<and>
    r_parent_run_id c = Some (r_run_id st) \<and> r_budget_owner_run_id c = Some (owner_of st) \<and>
    r_input c = task_context p t \<and> r_run_kind c = ''plan_task'' \<and> r_execution_strategy c = ''react'' \<and>
    r_principal_key c = ''default'' \<and> r_base_priority c = 1 \<and> w_store w' = w_store w"
  using assms
  by (auto simp: new_run_state_def inherited_def child_request_def run_request_for_def child_runtime_def
      create_run_def Let_def bindE_def tickE_def retE_def split: prod.splits)

section \<open>The barrier before a new plan\<close>

lemma keeps_bind_value:
  assumes "keeps J m" "\<And>a w w'. m w = (w', Done a) \<Longrightarrow> Q a" "\<And>a. Q a \<Longrightarrow> keeps J (f a)"
  shows "keeps J (bindE m f)"
  unfolding keeps_def
proof (rule triple_bind[where Q = "\<lambda>a w. on_world J w \<and> Q a"])
  show "triple (on_world J) m (\<lambda>a w. on_world J w \<and> Q a) (on_world J)"
  proof (rule tripleI)
    fix w w' r assume "on_world J w" and m: "m w = (w', r)"
    with assms(1) have "case r of Done a \<Rightarrow> on_world J w' | _ \<Rightarrow> on_world J w'"
      unfolding keeps_def by (blast dest: triple_apply)
    with m assms(2) show "case r of Done a \<Rightarrow> on_world J w' \<and> Q a | _ \<Rightarrow> on_world J w'"
      by (cases r) auto
  qed
  fix a show "triple (\<lambda>w. on_world J w \<and> Q a) (f a) (\<lambda>_. on_world J) (on_world J)"
    using assms(3)[of a] unfolding keeps_def triple_def by blast
qed

text \<open>A state that holds a sound plan with the tasks \<open>ts\<close> and the number of replans \<open>k\<close>.\<close>

definition holds_plan :: "pyenv \<Rightarrow> tasks \<Rightarrow> int \<Rightarrow> run_state \<Rightarrow> bool" where
  "holds_plan E ts k st \<longleftrightarrow> (\<forall>p. load_plan E st = Ok (Some p) \<longrightarrow>
     plan_sound p \<and> p_tasks p = ts \<and> p_replan_count p = k)"

lemma load_store_plan: "load_plan E (store_plan p st) = bindR (plan_from_dict E (plan_to_dict p)) (\<lambda>p. Ok (Some p))"
  by (simp add: load_plan_def store_plan_def)

lemma reload_replans:
  assumes "plan_from_dict E (plan_to_dict p) = Ok p'"
  shows "p_replan_count p' = p_replan_count p"
proof -
  have add: "p_replan_count (add_task t q) = p_replan_count q" for t q by (simp add: add_task_def)
  have load: "load_tasks E s ds q = Ok q' \<Longrightarrow> p_replan_count q' = p_replan_count q" for s ds q q'
    by (induction ds arbitrary: q) (auto simp: bindR_Ok_iff add)
  have order: "check_order q = Ok q' \<Longrightarrow> p_replan_count q' = p_replan_count q" for q q'
    by (auto simp: check_order_def compute_execution_order_def split: option.splits bool.splits)
  from assms show ?thesis
    by (auto simp: plan_from_dict_def bindR_Ok_iff plan_header_def plan_to_dict_def dest!: load order split: if_splits)
qed

lemma holds_stored: "plan_sound p \<Longrightarrow> holds_plan E (p_tasks p) (p_replan_count p) (store_plan p st)"
  by (auto simp: holds_plan_def load_store_plan bindR_Ok_iff dest: reload_sound reload_replans)

lemma holds_plan_strategy: "r_strategy_state s = r_strategy_state t \<Longrightarrow> holds_plan E ts k s = holds_plan E ts k t"
  by (simp add: holds_plan_def load_plan_def)

lemma saved_plan:
  assumes "save_checkpoint R st w = (w', Done st')"
    and "\<And>E own s x. r_strategy_state (fst (snd (rt_save R E own s x))) = r_strategy_state s"
  shows "r_strategy_state st' = r_strategy_state st"
  using assms(1) assms(2)[of _ "rt_ownership R" st]
  by (auto simp: save_checkpoint_def storeE_def effectE_def bindE_def tickE_def liftR_def retE_def raiseE_def
      bindR_def split: option.splits nat.splits sum.splits prod.splits) (metis fst_conv snd_conv)+

text \<open>A task that runs and has a stored child keeps the plan at the barrier.\<close>

definition holding_back :: "tasks \<Rightarrow> string \<Rightarrow> bool" where
  "holding_back ts i \<longleftrightarrow> (\<exists>t. map_of ts i = Some t \<and> task.t_status t = RUNNING)"

lemma held_back_busy:
  assumes "plan_sound p" "holding_back (p_tasks p) i" "plan_scheduler_snapshot p cs = Ok sn"
  shows "busy sn"
proof -
  from assms(2) obtain t where t: "map_of (p_tasks p) i = Some t" "task.t_status t = RUNNING"
    unfolding holding_back_def by blast
  have "t_id t = i" using assms(1) t(1) by (auto simp: plan_sound_def tasks_sound_def dest: tasks_wf_map_of)
  with t tasks_in_order_sound[OF assms(1)] obtain ts where "tasks_in_order p = Ok ts" "t \<in> set ts" by auto
  moreover have "\<not> task_terminal t" using t(2) by (simp add: task_terminal_def)
  ultimately have "t_id t \<in> set (sn_active sn) \<or> t_id t \<in> set (sn_waiting sn)"
    using assms(3) t(2) by (cases "paused_child cs (t_id t)") (auto simp: plan_scheduler_snapshot_def)
  then show ?thesis by (auto simp: busy_def)
qed

lemma release_holds:
  assumes "release_unstarted_tasks R st p cs w = (w', Done st1)" "load_plan (rt_py R) st = Ok (Some p)" "plan_sound p"
    and "\<And>E own s x. r_strategy_state (fst (snd (rt_save R E own s x))) = r_strategy_state s"
  shows "holds_plan (rt_py R) (p_tasks (fst (release_unstarted cs p))) (p_replan_count p) st1"
proof (cases "snd (release_unstarted cs p)")
  case True
  let ?p = "fst (release_unstarted cs p)"
  have save: "save_checkpoint R (store_plan ?p st) w = (w', Done st1)"
    using assms(1) True by (simp add: release_unstarted_tasks_def split: prod.splits)
  have "holds_plan (rt_py R) (p_tasks ?p) (p_replan_count ?p) st1"
    unfolding holds_plan_strategy[OF saved_plan[OF save assms(4)]]
    by (rule holds_stored[OF release_unstarted_sound[OF assms(3)]])
  then show ?thesis by (simp add: release_unstarted_def)
next
  case False
  then have none: "\<not> unstarted cs t" if "t \<in> set (dict_values (p_tasks p))" for t
    using that by (auto simp: release_unstarted_def list_ex_iff all_tasks_def)
  have "map_tasks (\<lambda>t. if unstarted cs t then t\<lparr>task.t_status := PENDING, t_execution_state := []\<rparr> else t) (p_tasks p)
      = p_tasks p"
    unfolding map_tasks_def by (rule map_idI) (use none in force)
  moreover have "st1 = st" using assms(1) False by (auto simp: release_unstarted_tasks_def retE_def split: prod.splits)
  ultimately show ?thesis using assms(2,3) by (simp add: holds_plan_def release_unstarted_def)
qed

lemma skip_failed_keeps_running: "holding_back ts i \<Longrightarrow> holding_back (skip_failed now ts) i"
proof (induction now ts rule: skip_failed.induct)
  case (1 now ts)
  show ?case
  proof (cases "list_ex (to_skip (statuses_of ts)) (dict_values ts)")
    case True
    have "task.t_status t = RUNNING \<Longrightarrow> skip_task now (statuses_of ts) t = t" for t
      by (simp add: skip_task_def to_skip_def)
    then have "holding_back (map_tasks (skip_task now (statuses_of ts)) ts) i"
      using 1(2) by (auto simp: holding_back_def)
    from 1(1)[OF True this] True show ?thesis by (subst skip_failed.simps) simp
  next
    case False
    with 1(2) show ?thesis by (subst skip_failed.simps) simp
  qed
qed

lemma skip_holds:
  assumes "skip_dependents R st p w = (w', Done st1)" "load_plan (rt_py R) st = Ok (Some p)" "plan_sound p"
    and "\<And>E own s x. r_strategy_state (fst (snd (rt_save R E own s x))) = r_strategy_state s"
  shows "\<exists>ts. holds_plan (rt_py R) ts (p_replan_count p) st1 \<and> (holding_back (p_tasks p) i \<longrightarrow> holding_back ts i)"
proof -
  from assms(1) obtain n w1 where
    rest: "(case skip_failed_dependents (time_of R n) p of
      (p', changed) \<Rightarrow> if changed then save_checkpoint R (store_plan p' st) else retE st) w1 = (w', Done st1)"
    unfolding skip_dependents_def by (elim done_bind)
  let ?p = "fst (skip_failed_dependents (time_of R n) p)"
  show ?thesis
  proof (cases "snd (skip_failed_dependents (time_of R n) p)")
    case True
    then have save: "save_checkpoint R (store_plan ?p st) w1 = (w', Done st1)" using rest by (simp split: prod.splits)
    have "holds_plan (rt_py R) (p_tasks ?p) (p_replan_count ?p) st1"
      unfolding holds_plan_strategy[OF saved_plan[OF save assms(4)]]
      by (rule holds_stored[OF skip_failed_dependents_sound[OF assms(3)]])
    then show ?thesis using skip_failed_keeps_running[of "p_tasks p" i]
      by (auto simp: skip_failed_dependents_def)
  next
    case False
    then have "st1 = st" using rest by (auto simp: retE_def split: prod.splits)
    with assms(2,3) show ?thesis by (auto simp: holds_plan_def)
  qed
qed

lemmas silent_saves = run_writes.keeps_save_checkpoint[OF no_calls_writes] run_writes.keeps_fail[OF no_calls_writes]

lemma silent_handlers [keeps_intros]:
  "keeps (no_calls c) (release_unstarted_tasks R st p cs)" "keeps (no_calls c) (skip_dependents R st p)"
  "keeps (no_calls c) (wait_for_children R st p)" "keeps (no_calls c) (fail_plan R st p reason)"
  "keeps (no_calls c) (needed_plan R st message)" "keeps (no_calls c) (load_child R t)"
  by (unfold release_unstarted_tasks_def skip_dependents_def wait_for_children_def fail_plan_def needed_plan_def
      load_child_def)
    (auto intro!: keeps_intros keeps_cases silent_saves split: prod.split option.split)

lemma keeps_map [keeps_intros]: "(\<And>x. keeps J (f x)) \<Longrightarrow> keeps J (mapE f xs)"
  by (induction xs) (auto intro!: keeps_intros)

lemma silent_child_states [keeps_intros]: "keeps (no_calls c) (plan_child_states R p)"
  unfolding plan_child_states_def by (intro keeps_intros)

lemma liftR_done: "liftR r w = (w', Done a) \<Longrightarrow> r = Ok a"
  by (cases r) (simp_all add: raiseE_def retE_def)

lemma settled_silent:
  assumes "holds_plan (rt_py R) ts k st" "holding_back ts i \<or> pv_max_replans S \<le> k"
  shows "keeps (no_calls c) (bindE (needed_plan R st message) (\<lambda>p.
     bindE (plan_child_states R p) (\<lambda>cs.
     bindE (liftR (plan_scheduler_snapshot p cs)) (\<lambda>sn.
     if busy sn then wait_for_children R st p
     else if p_replan_count p < pv_max_replans S then replan R S st p
     else fail_plan R st p reason))))"
proof (rule keeps_bind_value[OF silent_handlers(5), where Q = "\<lambda>p. load_plan (rt_py R) st = Ok (Some p)"])
  fix p assume "load_plan (rt_py R) st = Ok (Some p)"
  with assms(1) have p: "plan_sound p" "p_tasks p = ts" "p_replan_count p = k" by (simp_all add: holds_plan_def)
  show "keeps (no_calls c) (bindE (plan_child_states R p) (\<lambda>cs.
     bindE (liftR (plan_scheduler_snapshot p cs)) (\<lambda>sn.
     if busy sn then wait_for_children R st p
     else if p_replan_count p < pv_max_replans S then replan R S st p
     else fail_plan R st p reason)))"
  proof (rule keeps_bind[OF silent_child_states],
      rule keeps_bind_value[OF keeps_liftR, where Q = "\<lambda>sn. busy sn \<or> \<not> p_replan_count p < pv_max_replans S"])
    fix cs w w' sn assume "liftR (plan_scheduler_snapshot p cs) w = (w', Done sn)"
    with held_back_busy[OF p(1)] assms(2) p(2,3) show "busy sn \<or> \<not> p_replan_count p < pv_max_replans S"
      by (auto dest: liftR_done)
  qed (auto intro!: keeps_intros)
qed (simp add: needed_plan_done)

lemma barrier_silent:
  assumes "load_plan (rt_py R) st = Ok (Some p)" "plan_sound p"
    and save: "\<And>E own s x. r_strategy_state (fst (snd (rt_save R E own s x))) = r_strategy_state s"
    and held: "holding_back (p_tasks (fst (release_unstarted cs p))) i \<or> pv_max_replans S \<le> p_replan_count p"
  shows "keeps (no_calls c) (settle_failed_plan R S st p cs)"
  unfolding settle_failed_plan_def
proof (rule keeps_bind_value[OF silent_handlers(1) release_holds[OF _ assms(1,2) save]])
  fix st1 assume st1: "holds_plan (rt_py R) (p_tasks (fst (release_unstarted cs p))) (p_replan_count p) st1"
  let ?rest = "\<lambda>st2. bindE (needed_plan R st2 ''plan state disappeared while skipping dependents'') (\<lambda>p2.
     bindE (plan_child_states R p2) (\<lambda>cs2.
     bindE (liftR (plan_scheduler_snapshot p2 cs2)) (\<lambda>sn.
     if busy sn then wait_for_children R st2 p2
     else if p_replan_count p2 < pv_max_replans S then replan R S st2 p2
     else fail_plan R st2 p2 ''plan failed after exhausting replan attempts'')))"
  show "keeps (no_calls c) (bindE (needed_plan R st1 ''plan state disappeared during replan barrier'') (\<lambda>p1.
     bindE (skip_dependents R st1 p1) ?rest))"
  proof (rule keeps_bind_value[OF silent_handlers(5), where Q = "\<lambda>p. load_plan (rt_py R) st1 = Ok (Some p)"])
    fix p1 assume load: "load_plan (rt_py R) st1 = Ok (Some p1)"
    with st1 have p1: "plan_sound p1" "p_tasks p1 = p_tasks (fst (release_unstarted cs p))"
      "p_replan_count p1 = p_replan_count p" by (simp_all add: holds_plan_def)
    let ?Q = "\<lambda>st2. \<exists>ts. holds_plan (rt_py R) ts (p_replan_count p) st2 \<and>
      (holding_back ts i \<or> pv_max_replans S \<le> p_replan_count p)"
    show "keeps (no_calls c) (bindE (skip_dependents R st1 p1) ?rest)"
    proof (rule keeps_bind_value[OF silent_handlers(2), where Q = ?Q])
      fix st2 w w' assume "skip_dependents R st1 p1 w = (w', Done st2)"
      from skip_holds[OF this load p1(1) save, of i] held p1(2,3) show "?Q st2" by auto
    next
      fix st2 assume "?Q st2"
      then show "keeps (no_calls c) (?rest st2)" by (blast intro: settled_silent)
    qed
  qed (simp add: needed_plan_done)
qed


section \<open>A child whose process died\<close>

text \<open>Every task that is running has a stored child, and the child is recorded as running.\<close>

definition abandoned_children :: "'s runtime \<Rightarrow> 's \<Rightarrow> plan \<Rightarrow> bool" where
  "abandoned_children R s p \<longleftrightarrow> list_all (\<lambda>t.
     case child_of t of
       None \<Rightarrow> task.t_status t \<noteq> RUNNING
     | Some i \<Rightarrow>
         (case rt_load R (rt_py R) i s of
            Inl e \<Rightarrow> False
          | Inr None \<Rightarrow> task.t_status t \<noteq> RUNNING
          | Inr (Some c) \<Rightarrow> task.t_status t = RUNNING \<longrightarrow> r_status c = RunRUNNING)) (all_tasks p)"

definition stored_child :: "'s runtime \<Rightarrow> 's \<Rightarrow> task \<Rightarrow> run_state option" where
  "stored_child R s t = (case child_of t of None \<Rightarrow> None
     | Some i \<Rightarrow> (case rt_load R (rt_py R) i s of Inl e \<Rightarrow> None | Inr c \<Rightarrow> c))"

lemma mapE_reads: "(\<And>x. x \<in> set xs \<Longrightarrow> f x w = (w, Done (g x))) \<Longrightarrow> mapE f xs w = (w, Done (map g xs))"
  by (induction xs) (simp_all add: bindE_def retE_def)

lemma abandoned_loads:
  assumes "abandoned_children R (w_store w) p" "t \<in> set (all_tasks p)"
  shows "load_child R t w = (w, Done (stored_child R (w_store w) t))"
    and "task.t_status t = RUNNING \<Longrightarrow> \<exists>c. stored_child R (w_store w) t = Some c \<and> r_status c = RunRUNNING"
proof -
  from assms have t: "case child_of t of
       None \<Rightarrow> task.t_status t \<noteq> RUNNING
     | Some i \<Rightarrow>
         (case rt_load R (rt_py R) i (w_store w) of
            Inl e \<Rightarrow> False
          | Inr None \<Rightarrow> task.t_status t \<noteq> RUNNING
          | Inr (Some c) \<Rightarrow> task.t_status t = RUNNING \<longrightarrow> r_status c = RunRUNNING)"
    unfolding abandoned_children_def list_all_iff by blast
  then show "load_child R t w = (w, Done (stored_child R (w_store w) t))"
    by (auto simp: load_child_def stored_child_def load_run_def readE_def retE_def split: option.splits sum.splits)
  assume "task.t_status t = RUNNING"
  with t show "\<exists>c. stored_child R (w_store w) t = Some c \<and> r_status c = RunRUNNING"
    by (auto simp: stored_child_def split: option.splits sum.splits)
qed

definition stored_children :: "'s runtime \<Rightarrow> 's \<Rightarrow> plan \<Rightarrow> child_states" where
  "stored_children R s p = rev (zip (map t_id (all_tasks p)) (map (stored_child R s) (all_tasks p)))"

lemma abandoned_states:
  assumes "abandoned_children R (w_store w) p"
  shows "plan_child_states R p w = (w, Done (stored_children R (w_store w) p))"
  unfolding plan_child_states_def stored_children_def
  using mapE_reads[of "all_tasks p" "load_child R" w, OF abandoned_loads(1)[OF assms]]
  by (simp add: bindE_def retE_def)

lemma stored_children_lookup:
  assumes "plan_sound p" "t \<in> set (all_tasks p)"
  shows "map_of (stored_children R s p) (t_id t) = Some (stored_child R s t)"
proof -
  let ?xs = "zip (map t_id (all_tasks p)) (map (stored_child R s) (all_tasks p))"
  have wf: "tasks_wf (p_tasks p)" using assms(1) by (simp add: plan_sound_def tasks_sound_def)
  have "map t_id (all_tasks p) = dict_keys (p_tasks p)" using wf by (auto simp: all_tasks_def tasks_wf_def)
  moreover have "map fst ?xs = map t_id (all_tasks p)" by (rule map_fst_zip) simp
  ultimately have dist: "distinct (map fst ?xs)" using tasks_wf_distinct[OF wf] by simp
  have "(t_id t, stored_child R s t) \<in> set ?xs" using assms(2) by (force simp: set_zip in_set_conv_nth)
  with dist show ?thesis unfolding stored_children_def by (simp add: map_of_rev_distinct)
qed

lemma abandoned_reconcile:
  assumes "load_plan (rt_py R) st = Ok (Some p)" "abandoned_children R (w_store w) p"
  shows "reconcile_children R S st w = (w, Done st)"
proof -
  have "observable R t w = (w, Done [])" if "t \<in> set (all_tasks p)" for t
    using abandoned_loads[OF assms(2) that]
    by (auto simp: observable_def bindE_def retE_def split: option.split)
  from mapE_reads[of "all_tasks p" "observable R" w "\<lambda>t. []", OF this] show ?thesis
    by (simp add: reconcile_children_def assms(1) bindE_def retE_def)
qed

lemma abandoned_settle:
  assumes load: "load_plan (rt_py R) st = Ok (Some p)" and sound: "plan_sound p"
    and children: "abandoned_children R (w_store w) p"
    and running: "get_task i p = Some t" "task.t_status t = RUNNING"
    and skipped: "\<not> list_ex (to_skip (statuses_of (p_tasks p))) (all_tasks p)"
  shows "settle_failed_plan R S st p (stored_children R (w_store w) p) w
    = wait_for_children R st p (w\<lparr>w_tick := Suc (w_tick w)\<rparr>)"
proof -
  have "\<not> unstarted (stored_children R (w_store w) p) t" if "t \<in> set (all_tasks p)" for t
    using abandoned_loads(2)[OF children that] stored_children_lookup[OF sound that, of R "w_store w"]
    by (auto simp: unstarted_def child_status_def)
  then have release: "release_unstarted_tasks R st p (stored_children R (w_store w) p) v = (v, Done st)" for v
    by (simp add: release_unstarted_tasks_def release_unstarted_def list_ex_iff retE_def)
  have skip: "skip_dependents R st p v = (v\<lparr>w_tick := Suc (w_tick v)\<rparr>, Done st)" for v
    using skipped by (simp add: skip_dependents_def skip_failed_dependents_def bindE_def tickE_def retE_def)
  have plan: "needed_plan R st m v = (v, Done p)" for m v
    by (simp add: needed_plan_def load bindE_def retE_def)
  let ?w = "w\<lparr>w_tick := Suc (w_tick w)\<rparr>"
  have states: "plan_child_states R p ?w = (?w, Done (stored_children R (w_store w) p))"
    using abandoned_states[of R ?w p] children by simp
  from tasks_in_order_sound[OF sound]
  obtain sn where sn: "plan_scheduler_snapshot p (stored_children R (w_store w) p) = Ok sn"
    by (auto simp: plan_scheduler_snapshot_def)
  have "busy sn" by (rule held_back_busy[OF sound _ sn, of i]) (use running in \<open>simp add: holding_back_def get_task_def\<close>)
  with sn show ?thesis
    by (simp add: settle_failed_plan_def bindE_def release plan skip states retE_def split: prod.split outcome.split)
qed

text \<open>
  C10: A child whose process died stays recorded as running. When another task of its plan has failed, the
  step of the plan does nothing but put the parent into the state in which it waits for its children:
  it does not resume the child, so the plan neither goes on nor is replaced, however often the parent
  is resumed.
\<close>

theorem abandoned_child_is_not_resumed:
  assumes "load_plan (rt_py R) (sc_run_state c) = Ok (Some p)" "plan_reached p"
    and "legacy_plan_state (rt_py R) (sc_run_state c) = Ok False" "has_failed p"
    and "get_task i p = Some t" "task.t_status t = RUNNING" "abandoned_children R (w_store w) p"
    and "\<not> list_ex (to_skip (statuses_of (p_tasks p))) (all_tasks p)"
  shows "plan_advance_step R S c w =
    bindE (wait_for_children R (sc_run_state c) p) (\<lambda>s. retE (from_run_state (sc_step_index c) s))
      (w\<lparr>w_tick := Suc (w_tick w)\<rparr>)"
proof -
  note sound = plan_reached_sound[OF assms(2)]
  have "(i, t) \<in> set (p_tasks p)" using assms(5) by (simp add: get_task_def map_of_SomeD)
  then have "\<not> is_all_completed p" using assms(6) by (force simp: is_all_completed_def list_all_iff)
  with assms(1,3,4) abandoned_reconcile[OF assms(1,7)] abandoned_states[OF assms(7)]
    abandoned_settle[OF assms(1) sound assms(7,5,6,8)]
  show ?thesis
    by (simp add: plan_advance_step_def plan_work_step_def Let_def needed_plan_def bindE_def retE_def
        split: prod.split outcome.split)
qed

section \<open>A plan of two independent tasks\<close>

definition two_tasks :: pyval where
  "two_tasks = PDict [(''tasks'', PList
     [PDict [(''id'', PStr ''a''), (''description'', PStr ''read'')],
      PDict [(''id'', PStr ''b''), (''description'', PStr ''write'')]])]"

definition demo_planner :: "ledger sqlite_store planner_services" where
  "demo_planner = \<lparr>pl_words = \<lparr>gw_steps = [], gw_simple = [], gw_open = [], gw_file = [], gw_write = [],
       gw_analyse = [], gw_verify = [], gw_summary = []\<rparr>,
     pl_prompt = ''p'', pl_chat = (\<lambda>n ms. ([[(''type'', PStr ''text_delta''), (''text'', PStr ''{}'')]], StreamDone)),
     pl_raised = (\<lambda>v. RuntimeErr ''LLM stream failed''), pl_class = (\<lambda>h. ''Error''), pl_loads = (\<lambda>s. Ok two_tasks), pl_model = demo_model\<rparr>"

definition demo_strategy :: "ledger sqlite_store plan_strategy" where
  "demo_strategy = \<lparr>pv_planner = demo_planner,
     pv_life = \<lparr>lf_fresh = (\<lambda>n. (''r'', ''t'')), lf_budget_policy = [], lf_cancel_requested = (\<lambda>n. False)\<rparr>,
     pv_max_task_turns = 8, pv_max_replans = 1, pv_max_parallel = 2, pv_retry_attempts = 8, pv_digest = (\<lambda>s. s),
     pv_fingerprint = (\<lambda>v. ''f''), pv_pick = (\<lambda>n ts. ts), pv_preflight_child = (\<lambda>n st s. (s, Ok ())), pv_steps = 9\<rparr>"

definition plan_demo :: "ledger sqlite_store runtime" where
  "plan_demo = plan_runtime (demo_runtime PermALLOW) demo_strategy"

definition parent_run :: run_state where
  "parent_run = demo_run\<lparr>r_run_id := ''root'', r_execution_strategy := ''plan_execute'', r_input := ''goal''\<rparr>"

definition parent_world :: "run_state \<Rightarrow> ledger sqlite_store world" where
  "parent_world st = fst (save_checkpoint plan_demo st (fresh_world send_store))"

text \<open>The first task has failed; the second is running, and its child is named but not stored.\<close>

definition half_failed :: "plan res" where
  "half_failed = bindR (bindR (bindR (parse_plan demo_env (\<lambda>_. Ok two_tasks) 1 1 ''goal'' ''{}'') demo_schedule)
     (demo_observe RunFAILED)) (\<lambda>p. plan_from_dict demo_env (plan_to_dict p))"

lemma half_failed_reached:
  assumes "half_failed = Ok p" shows "plan_reached p"
proof -
  from assms obtain p0 p1 p2 where p: "parse_plan demo_env (\<lambda>_. Ok two_tasks) 1 1 ''goal'' ''{}'' = Ok p0"
    "demo_schedule p0 = Ok p1" "demo_observe RunFAILED p1 = Ok p2" "plan_from_dict demo_env (plan_to_dict p2) = Ok p"
    unfolding half_failed_def bindR_Ok_iff by blast
  note demo_observe_reached[OF demo_schedule_reached[OF planned[OF p(1)] p(2)] p(3)]
  from continued[OF this reloaded[OF p(4)]] show ?thesis .
qed

lemma plan_demo_simps:
  "rt_py plan_demo = demo_env" "rt_load plan_demo = sqlite_load" "rt_save plan_demo = sqlite_save"
  by (simp_all add: plan_demo_def plan_runtime_def demo_runtime_def)

lemma plan_demo_saves:
  "r_strategy_state (fst (snd (rt_save plan_demo E own s x))) = r_strategy_state s"
  by (auto simp: plan_demo_simps sqlite_save_def advanced_def Let_def split: sum.split)

definition replanning :: "plan \<Rightarrow> ledger sqlite_store world \<times> run_state outcome" where
  "replanning p = settle_failed_plan plan_demo demo_strategy (store_plan p (parent_run\<lparr>r_sequence := 1\<rparr>)) p []
     (parent_world (store_plan p parent_run))"

lemma half_failed_replanned:
  "demo_holds (\<lambda>p. load_plan demo_env (store_plan p (parent_run\<lparr>r_sequence := 1\<rparr>)) = Ok (Some p) \<and>
     map_option task.t_status (get_task ''task_2'' p) = Some RUNNING \<and>
     w_calls (parent_world (store_plan p parent_run)) = [] \<and> length (w_calls (fst (replanning p))) = 1) half_failed"
  by code_simp


text \<open>The same plan, with a child of the second task that is recorded as running.\<close>

definition orphaned_world :: "plan \<Rightarrow> ledger sqlite_store world" where
  "orphaned_world p = fst (save_checkpoint plan_demo
     (demo_run\<lparr>r_run_id := ''run_plan_run:plan_v1:task_2:1'', r_parent_run_id := Some ''root''\<rparr>)
     (parent_world (store_plan p parent_run)))"

definition orphaned_step :: "plan \<Rightarrow> step_context" where
  "orphaned_step p = step_context_of (store_plan p (parent_run\<lparr>r_sequence := 1\<rparr>))"

lemma half_failed_orphaned:
  "demo_holds (\<lambda>p. load_plan demo_env (sc_run_state (orphaned_step p)) = Ok (Some p) \<and>
     legacy_plan_state demo_env (sc_run_state (orphaned_step p)) = Ok False \<and> has_failed p \<and>
     map_option task.t_status (get_task ''task_2'' p) = Some RUNNING \<and>
     abandoned_children plan_demo (w_store (orphaned_world p)) p \<and>
     \<not> list_ex (to_skip (statuses_of (p_tasks p))) (all_tasks p)) half_failed"
  by code_simp

theorem abandoned_child_is_not_resumed_witness:
  "\<exists>p. half_failed = Ok p \<and> plan_advance_step plan_demo demo_strategy (orphaned_step p) (orphaned_world p) =
     bindE (wait_for_children plan_demo (sc_run_state (orphaned_step p)) p)
       (\<lambda>s. retE (from_run_state (sc_step_index (orphaned_step p)) s))
       ((orphaned_world p)\<lparr>w_tick := Suc (w_tick (orphaned_world p))\<rparr>)"
proof -
  from demo_holdsD[OF half_failed_orphaned] obtain p t where p: "half_failed = Ok p"
    "load_plan demo_env (sc_run_state (orphaned_step p)) = Ok (Some p)"
    "legacy_plan_state demo_env (sc_run_state (orphaned_step p)) = Ok False" "has_failed p"
    "get_task ''task_2'' p = Some t" "task.t_status t = RUNNING"
    "abandoned_children plan_demo (w_store (orphaned_world p)) p"
    "\<not> list_ex (to_skip (statuses_of (p_tasks p))) (all_tasks p)" by auto
  with abandoned_child_is_not_resumed[of plan_demo "orphaned_step p" p, unfolded plan_demo_simps]
    half_failed_reached[OF p(1)] show ?thesis by blast
qed

text \<open>A run whose plan is completed.\<close>

definition finished_plan :: plan where
  "finished_plan = add_task ((new_task ''task_1'' ''read'' [])\<lparr>task.t_status := COMPLETED, task.t_result := ''ok''\<rparr>)
     (new_plan 1 ''plan_1'' ''goal'')"

definition finishing :: "ledger sqlite_store world \<times> step_result outcome" where
  "finishing = plan_advance_step plan_demo demo_strategy
     (step_context_of (store_plan finished_plan (parent_run\<lparr>r_sequence := 1\<rparr>)))
     (parent_world (store_plan finished_plan parent_run))"

theorem plan_completes_only_when_done_witness:
  "\<exists>w res s p now. finishing = (w, Done res) \<and> load_plan demo_env s = Ok (Some p) \<and> is_all_completed p \<and>
     r_output_text (sr_run_state res) = build_plan_result (plan_mark_completed now p)"
proof -
  have "(case finishing of (w, Done res) \<Rightarrow> sr_next_action res = Some ActCOMPLETE \<and>
      r_status (sr_run_state res) = RunRUNNING | _ \<Rightarrow> False)" by code_simp
  then obtain w res where res: "finishing = (w, Done res)" "sr_next_action res = Some ActCOMPLETE"
    "r_status (sr_run_state res) = RunRUNNING" by (auto split: prod.splits outcome.splits)
  from plan_completes_only_when_done[OF res(1)[unfolded finishing_def] res(2,3)] res(1)
  show ?thesis by (fastforce simp: plan_demo_simps store_plan_def)
qed

definition starting :: "ledger sqlite_store world \<times> run_state outcome" where
  "starting = new_run_state (child_runtime plan_demo 8) (pv_life demo_strategy)
     (child_request demo_strategy (parent_run\<lparr>r_principal_key := ''alice'', r_base_priority := 5\<rparr>) finished_plan
        (new_task ''task_1'' ''read'' []) ''kid'') (fresh_world send_store)"

theorem child_run_of_a_task_witness:
  "\<exists>w c. starting = (w, Done c) \<and> r_parent_run_id c = Some ''root'' \<and> r_principal_key c = ''default'' \<and>
     r_base_priority c = 1"
proof -
  have "(case starting of (w, Done c) \<Rightarrow> True | _ \<Rightarrow> False)" by code_simp
  then obtain w c where c: "starting = (w, Done c)" by (auto split: prod.splits outcome.splits)
  have turn: "r_turn_id (parent_run\<lparr>r_principal_key := ''alice'', r_base_priority := 5\<rparr>) \<noteq> []" by code_simp
  from child_run_of_a_task[OF c[unfolded starting_def] _ turn]
  have "r_parent_run_id c = Some ''root'' \<and> r_principal_key c = ''default'' \<and> r_base_priority c = 1"
    by (simp add: parent_run_def)
  with c show ?thesis by blast
qed

end
