(* ===== verification/Spec2Isabelle.thy ===== *)
theory Spec2Isabelle
  imports PlanCodec ProgressProps DependencyProps StoreProps DeliveryProps RateLimit BudgetStore
    PermissionProps ControlProps Tasks EventProps PlanFlowProps ChildPool MultiAgentProps Supervisor
    ContextProps ReactProps PlanStrategyProps
begin

text \<open>
  Verification development of the durable execution core of the Axiom Agent Runtime
  (\<^verbatim>\<open>src/src/axiom\<close>; paths below are relative to it).

  The program. A client submits a run through \<^verbatim>\<open>runtime/api.py\<close>. \<^verbatim>\<open>DurableAgentRuntime\<close>
  (\<^verbatim>\<open>runtime/durable.py\<close>) advances it step by step under one of three strategies: ReAct (a call of the
  model or of one tool per step), a plan of child runs (\<^verbatim>\<open>runtime/plan_strategy.py\<close>, \<^verbatim>\<open>plan/\<close>), or an
  orchestrator with workers and a reviewer (\<^verbatim>\<open>runtime/multi_agent_strategy.py\<close>). Whatever matters is in
  a store (\<^verbatim>\<open>runtime/checkpoints.py\<close>: memory and SQLite; \<^verbatim>\<open>runtime/postgres.py\<close>: shared by workers with
  leases and fencing tokens): the checkpoints of runs, the records of tool executions, the budget
  ledgers. A process may die between any two effects; another one reads the store and goes on.
  Policies decide along the way: permissions, budgets, retries, progress, completion contracts.

  Foundations. \<open>Prelude\<close>: the Python values of \<^verbatim>\<open>dict[str, Any]\<close> payloads, the exceptions as one
  datatype, the exception monad, insertion-ordered dictionaries. \<open>PyText\<close>, \<open>Texts\<close>, \<open>ApiText\<close>,
  \<open>ContextText\<close>: string operations. \<open>Effects\<close>: computations on a world, which is the store, the number of
  effects before the process dies, a counter that numbers the reads of clocks and of other outside
  answers, and the history of the calls of tools and models; a computation ends with a value, an
  exception, a cancellation or a crash, or runs out of fuel. Its rules say what a computation keeps
  (\<open>triple\<close>, \<open>keeps\<close>) and that it ends (\<open>ends\<close>).

  Records and stores. \<open>RunModels\<close>, \<open>RunState\<close>, \<open>ToolRecord\<close> (\<^verbatim>\<open>runtime/models.py\<close>) hold the durable records
  and their dictionary forms; \<open>RunStateProps\<close> shows that they come back unchanged. \<open>Checkpoints\<close> has the
  two local stores. \<open>StoreLaws\<close>, \<open>ToolStore\<close> and \<open>LedgerStore\<close> state as locales what the runtime relies
  on (an append-only log of checkpoints per run; a tool record that keeps its arguments; compare-and-swap
  on ledgers) and interpret them on the stores; \<open>StoreModels\<close> and \<open>StoreProps\<close> draw the consequences for
  runs. \<open>Postgres\<close>, \<open>PostgresRuns\<close>, \<open>PostgresTools\<close> model \<^verbatim>\<open>PostgresRuntimeStore\<close>, each method one transaction
  on tables of rows. \<open>Leases\<close> closes them under a step relation for any workers at any times; \<open>LeaseProps\<close>
  (fencing, bounded delivery), \<open>RunHistory\<close> (the checkpoint history is append-only), \<open>DeliveryProps\<close> (wake-up
  of parents, quarantine) and \<open>RateLimit\<close> are invariants and traces of it.

  Budgets (\<^verbatim>\<open>runtime/budget.py\<close>). \<open>BudgetModels\<close>, \<open>BudgetLedger\<close>, \<open>BudgetManager\<close>: policies, the ledger of a
  family of runs, and every operation as a callback in the retry loop of \<open>LedgerStore\<close>. \<open>BudgetInvariants\<close>,
  \<open>BudgetProps\<close>, \<open>BudgetStore\<close>: accounts are exact and limits hold under any interleaving of workers.

  Decisions. \<open>Dependency\<close> and \<open>DependencyProps\<close> (\<^verbatim>\<open>runtime/dependency.py\<close>): retries and deadlines.
  \<open>Progress\<close> and \<open>ProgressProps\<close> (\<^verbatim>\<open>runtime/progress.py\<close>): the no-progress detector. \<open>CompletionModels\<close> and
  \<open>Verification\<close> (\<^verbatim>\<open>runtime/completion.py\<close>): contracts and their verifier, shown equal to a declarative
  reading. \<open>Permissions\<close> and \<open>PermissionProps\<close> (\<^verbatim>\<open>policy/\<close>): the default policy. \<open>Steps\<close>
  (\<^verbatim>\<open>runtime/steps.py\<close>): the continuation after a step.

  The runtime. \<open>Runtime\<close>: loading and saving, cancellation and its propagation, interrupts, transitions,
  failures, claims of waiting runs. \<open>Tools\<close> and \<open>ToolProtocol\<close>: the execution of one tool call under its
  durable record. \<open>ToolLaws\<close>, \<open>ToolSafety\<close>, \<open>ToolProps\<close>: the contract of its collaborators as locales, and
  that no unsafe tool runs twice without an approval and attempts stay within the policy, whatever
  crashes; \<open>ToolTotal\<close>: the execution ends. \<open>LocalRuntime\<close> interprets all of it on the SQLite store.
  \<open>RuntimeProps\<close>: finished runs are final, steps apply to the checkpoint they were computed from, runs
  complete only under their contract. \<open>ContextText\<close>, \<open>Context\<close>, \<open>ContextProps\<close> (\<^verbatim>\<open>context.py\<close>,
  \<^verbatim>\<open>memory/summarizer.py\<close>): what is sent to the model. \<open>ModelStream\<close>, \<open>ModelStep\<close>: the answer of the model and
  the call of it with durable retries. \<open>React\<close>: the iteration and its loop, \<^verbatim>\<open>start\<close>, \<^verbatim>\<open>resume\<close> and the
  supervision; \<open>ReactProps\<close>: model steps end, their calls are bounded, and a step starts only from a durable
  record that allows it. \<open>Supervisor\<close> (\<^verbatim>\<open>runtime/supervisor.py\<close>): the registry of active executions.

  Plans and orchestrations. \<open>PlanModels\<close>, \<open>PlanOrder\<close>, \<open>PlanSearch\<close>, \<open>PlanProps\<close>, \<open>PlanCodec\<close>
  (\<^verbatim>\<open>plan/models.py\<close>): the graph of tasks, its orders, its durable form. \<open>Planner\<close> (\<^verbatim>\<open>plan/planner.py\<close>): the
  parser of the answer. \<open>PlanSchedule\<close>: what the strategy does to a plan; \<open>PlanFlow\<close>, \<open>PlanFlowProps\<close>: every
  plan a run can reach runs tasks after their dependencies and never stalls. \<open>ChildPool\<close>: the local
  schedulers of child runs. \<open>PlanStrategy\<close>: the step of the strategy with every handler, the call of the
  planner, the children and the hooks of cancellation; \<open>PlanStrategyProps\<close>: when it completes, when it
  replans, and that it leaves the child of a dead process alone once a task has failed. \<open>MultiAgent\<close>,
  \<open>MultiAgentFlow\<close>, \<open>MultiAgentProps\<close>: the durable orchestration and its reachable states.

  Clients. \<open>ControlStore\<close>, \<open>ControlViews\<close>, \<open>ControlApi\<close>, \<open>ControlLaws\<close>, \<open>ControlHistory\<close>, \<open>ControlProps\<close>
  (\<^verbatim>\<open>runtime/control_plane.py\<close>, \<^verbatim>\<open>runtime/api.py\<close>): control requests under idempotency keys, with crashes and
  races. \<open>Tasks\<close> (\<^verbatim>\<open>runtime/tasks.py\<close>): the background tasks and their workers. \<open>Events\<close>, \<open>EventProps\<close>
  (\<^verbatim>\<open>runtime/events.py\<close>): what a client that follows a run receives.

  Bounds. The loop over the attempts of a tool has fuel for the attempts the policy leaves, and
  \<open>execute_pending_tool_inner\<close> two levels of recursion, enough by \<open>ToolTotal\<close>. \<open>model_attempts\<close> has one more
  than the attempts left (\<open>llm_step_ends\<close>). \<open>run_pool\<close> takes one more turn than there are children
  (\<open>execute_pool_ends\<close>). The depth-first search has more fuel than tasks (\<open>PlanSearch\<close>). The
  compare-and-swap loop of ledgers makes the 32 attempts of the code, and \<open>observe_child\<close> the configured
  number. \<open>rt_lineage\<close> bounds the ancestors looked at: the code has no bound there, and running out is its
  own outcome, which no statement about results covers. \<open>run_step_loop\<close> takes its fuel as an argument and
  \<open>pv_steps\<close> gives it for children: a run goes on as long as its policies let it, and no property says that it
  ends on its own.

  Arguments of the model, for code or facts outside the source: clocks, random samples, fresh
  identifiers, SHA-256 digests, JSON parsing, the conversion of decimals, path resolution, URL parsing and
  name resolution, the handlers of tools, the streams of models, the summarizer, the loop and the
  tasks of asyncio. Statements hold for every choice of them.

  Not modelled. Traces, spans, metrics, emitted events of the runtime and log files: they change
  neither durable state nor control flow. Cancellation of a task is modelled at tool handlers and model
  streams, not at every \<^verbatim>\<open>await\<close>. Floats and \<^verbatim>\<open>Decimal\<close> are exact rationals. \<^verbatim>\<open>strip\<close>, \<^verbatim>\<open>lower\<close> and
  \<^verbatim>\<open>casefold\<close> act on ASCII texts. JSON text is identified with the value it encodes, and the order of keys
  in \<^verbatim>\<open>jsonb\<close> is that of insertion. A transaction is one step, except where its interleaving is the
  subject (ledgers, background tasks, event identities, control operations). Children of one turn of a
  scheduler act one after the other, at the moment they complete, and observations that the code gathers
  are made in order. The asynchronous handlers of the multi-agent strategy around its durable state, the
  distributed worker loop, the connection pool, the schema definitions and migrations, the reading of
  configuration files, the HTTP client of the model, HTTP routing and threads of the API server, turns
  and conversation memory, retrieval (\<^verbatim>\<open>rag/\<close>), the memory store, the command line, evaluation and
  reinforcement learning are left out: input and output, glue, or subsystems of their own.
\<close>

end
